(* ===== verification/Prelude.thy ===== *)
theory Prelude
  imports Complex_Main "HOL-Library.Word" "HOL-Library.Multiset" "HOL-Library.AList"
begin

section \<open>Values of JavaScript shared by the components\<close>

text \<open>
  What the TypeScript sources take from the language and its standard library, once for all
  theories: thrown errors as the left summand of a result, numbers with their special values,
  strings, array slicing, and the stable \<open>Array.prototype.sort\<close>.

  Two conventions hold throughout.
  \<^item> A \<open>number\<close> is a rational or one of the three special values. Arithmetic on
    rationals is exact: the rounding of binary floating point is not modelled, so statements about
    amounts are statements about exact arithmetic (integers up to \<open>2^53\<close> are exact in the
    program as well).
  \<^item> A \<open>string\<close> is a list of code units below 256. Where the code encodes or decodes
    Unicode text (theory \<open>Unicode\<close>), strings are lists of UTF-16 code units instead.
\<close>

text \<open>An integer stays the argument of \<open>of_int\<close>, so that field values keep one normal form.\<close>

declare of_int_uint [simp del]
declare of_int_of_nat_eq [simp del]
declare word_of_int_uint [simp]

named_theorems result_simps \<open>how the result type propagates errors\<close>
named_theorems jsnum_simps \<open>comparison and arithmetic on finite numbers\<close>

subsection \<open>Results: a value or a thrown error\<close>

datatype js_error = JsError string | RangeError | TypeError

type_synonym 'a res = "js_error + 'a"

abbreviation throw :: "string \<Rightarrow> 'a res" where
  "throw msg \<equiv> Inl (JsError msg)"

definition rbind :: "'e + 'a \<Rightarrow> ('a \<Rightarrow> 'e + 'b) \<Rightarrow> 'e + 'b" where
  "rbind m f = (case m of Inl e \<Rightarrow> Inl e | Inr x \<Rightarrow> f x)"

definition rmap :: "('a \<Rightarrow> 'b) \<Rightarrow> 'e + 'a \<Rightarrow> 'e + 'b" where
  "rmap f m = rbind m (\<lambda>x. Inr (f x))"

lemma rbind_Inl [simp]: "rbind (Inl e) f = Inl e"
  by (simp add: rbind_def)

lemma rbind_Inr [simp]: "rbind (Inr x) f = f x"
  by (simp add: rbind_def)

lemma rbind_eq_Inr [result_simps]:
  "rbind m f = Inr y \<longleftrightarrow> (\<exists>x. m = Inr x \<and> f x = Inr y)"
  by (cases m) auto

lemma rmap_Inl [simp]: "rmap f (Inl e) = Inl e"
  by (simp add: rmap_def)

lemma rmap_Inr [simp]: "rmap f (Inr x) = Inr (f x)"
  by (simp add: rmap_def)

lemma rmap_eq_Inr [result_simps]: "rmap f m = Inr y \<longleftrightarrow> (\<exists>x. m = Inr x \<and> y = f x)"
  by (cases m) auto

lemma rbind_cong [fundef_cong]:
  "m = m' \<Longrightarrow> (\<And>x. m' = Inr x \<Longrightarrow> f x = f' x) \<Longrightarrow> rbind m f = rbind m' f'"
  by (cases m') auto

lemma if_Inl_eq_Inr [result_simps]:
  "(if c then Inl e else r) = Inr y \<longleftrightarrow> \<not> c \<and> r = Inr y"
  by auto

text \<open>Mapping a function that may throw over an array: the first error wins.\<close>

fun traverse :: "('a \<Rightarrow> 'e + 'b) \<Rightarrow> 'a list \<Rightarrow> 'e + 'b list" where
  "traverse f [] = Inr []"
| "traverse f (x # xs) = rbind (f x) (\<lambda>y. rbind (traverse f xs) (\<lambda>ys. Inr (y # ys)))"

lemma traverse_Inr_iff:
  "traverse f xs = Inr ys \<longleftrightarrow> list_all2 (\<lambda>x y. f x = Inr y) xs ys"
  by (induction xs arbitrary: ys) (auto simp: result_simps list_all2_Cons1)

lemma traverse_Inr_map: "(\<And>x. x \<in> set xs \<Longrightarrow> f x = Inr (g x)) \<Longrightarrow> traverse f xs = Inr (map g xs)"
  by (induction xs) auto

lemma traverse_Inl_ex: "traverse f xs = Inl e \<Longrightarrow> \<exists>x \<in> set xs. f x = Inl e"
proof (induction xs)
  case (Cons x xs)
  then show ?case
    by (cases "f x"; cases "traverse f xs") auto
qed simp

lemma traverse_append:
  "traverse f (xs @ ys) = rbind (traverse f xs) (\<lambda>as. rbind (traverse f ys) (\<lambda>bs. Inr (as @ bs)))"
proof (induction xs)
  case Nil
  then show ?case by (cases "traverse f ys") auto
next
  case (Cons x xs)
  then show ?case
    by (cases "f x"; cases "traverse f xs"; cases "traverse f ys") auto
qed

subsection \<open>Numbers\<close>

datatype jsnum = Fin rat | NaN | PosInf | NegInf

abbreviation jint :: "int \<Rightarrow> jsnum" where
  "jint i \<equiv> Fin (of_int i)"

definition is_finite :: "jsnum \<Rightarrow> bool" where
  "is_finite n = (case n of Fin _ \<Rightarrow> True | _ \<Rightarrow> False)"

text \<open>\<open>Number.isInteger\<close>.\<close>

definition is_integer :: "jsnum \<Rightarrow> bool" where
  "is_integer n = (case n of Fin q \<Rightarrow> of_int \<lfloor>q\<rfloor> = q | _ \<Rightarrow> False)"

text \<open>The operators \<open><\<close>, \<open><=\<close>: every comparison with \<open>NaN\<close> is false.\<close>

fun nlt :: "jsnum \<Rightarrow> jsnum \<Rightarrow> bool" where
  "nlt (Fin a) (Fin b) = (a < b)"
| "nlt NegInf (Fin b) = True"
| "nlt NegInf PosInf = True"
| "nlt (Fin a) PosInf = True"
| "nlt _ _ = False"

definition nle :: "jsnum \<Rightarrow> jsnum \<Rightarrow> bool" where
  "nle a b \<longleftrightarrow> nlt a b \<or> (a = b \<and> a \<noteq> NaN)"

fun nadd :: "jsnum \<Rightarrow> jsnum \<Rightarrow> jsnum" where
  "nadd (Fin a) (Fin b) = Fin (a + b)"
| "nadd NaN _ = NaN"
| "nadd _ NaN = NaN"
| "nadd PosInf NegInf = NaN"
| "nadd NegInf PosInf = NaN"
| "nadd PosInf _ = PosInf"
| "nadd _ PosInf = PosInf"
| "nadd NegInf _ = NegInf"
| "nadd _ NegInf = NegInf"

fun nneg :: "jsnum \<Rightarrow> jsnum" where
  "nneg (Fin a) = Fin (- a)"
| "nneg NaN = NaN"
| "nneg PosInf = NegInf"
| "nneg NegInf = PosInf"

definition nsub :: "jsnum \<Rightarrow> jsnum \<Rightarrow> jsnum" where
  "nsub a b = nadd a (nneg b)"

text \<open>Multiplication: an infinity times zero is \<open>NaN\<close>.\<close>

definition nsign :: "jsnum \<Rightarrow> int" where
  "nsign n = (case n of Fin q \<Rightarrow> (if q < 0 then - 1 else if q > 0 then 1 else 0)
     | PosInf \<Rightarrow> 1 | NegInf \<Rightarrow> - 1 | NaN \<Rightarrow> 0)"

definition nmul :: "jsnum \<Rightarrow> jsnum \<Rightarrow> jsnum" where
  "nmul a b =
     (if a = NaN \<or> b = NaN then NaN
      else case (a, b) of (Fin x, Fin y) \<Rightarrow> Fin (x * y)
      | _ \<Rightarrow> if nsign a * nsign b = 0 then NaN else if nsign a * nsign b > 0 then PosInf else NegInf)"

text \<open>\<open>Math.floor\<close>.\<close>

definition nfloor :: "jsnum \<Rightarrow> jsnum" where
  "nfloor n = (case n of Fin q \<Rightarrow> Fin (of_int \<lfloor>q\<rfloor>) | _ \<Rightarrow> n)"

text \<open>\<open>!==\<close>, and the sign of a difference, which is all that a comparator's result is used for;
  \<open>sort\<close> reads \<open>NaN\<close> as zero.\<close>

definition nneq :: "jsnum \<Rightarrow> jsnum \<Rightarrow> bool" where
  "nneq a b \<longleftrightarrow> a \<noteq> b \<or> a = NaN"

definition cmp_num :: "jsnum \<Rightarrow> jsnum \<Rightarrow> int" where
  "cmp_num a b = (if nlt a b then - 1 else if nlt b a then 1 else 0)"

text \<open>\<open>Math.min\<close> and \<open>Math.max\<close> of two arguments: \<open>NaN\<close> if either is \<open>NaN\<close>.\<close>

definition nmin :: "jsnum \<Rightarrow> jsnum \<Rightarrow> jsnum" where
  "nmin a b = (if a = NaN \<or> b = NaN then NaN else if nlt b a then b else a)"

definition nmax :: "jsnum \<Rightarrow> jsnum \<Rightarrow> jsnum" where
  "nmax a b = (if a = NaN \<or> b = NaN then NaN else if nlt a b then b else a)"

text \<open>Truthiness of a number and the idiom \<open>x || d\<close>: zero and \<open>NaN\<close> are falsy.\<close>

definition ntruthy :: "jsnum \<Rightarrow> bool" where
  "ntruthy n \<longleftrightarrow> n \<noteq> NaN \<and> n \<noteq> Fin 0"

definition nor :: "jsnum \<Rightarrow> jsnum \<Rightarrow> jsnum" where
  "nor a d = (if ntruthy a then a else d)"

lemma is_finite_simps [simp]:
  "is_finite (Fin q)" "\<not> is_finite NaN" "\<not> is_finite PosInf" "\<not> is_finite NegInf"
  by (simp_all add: is_finite_def)

lemma is_finite_iff: "is_finite n \<longleftrightarrow> (\<exists>q. n = Fin q)"
  by (cases n) auto

lemma is_integer_simps [simp]:
  "is_integer (Fin q) \<longleftrightarrow> of_int \<lfloor>q\<rfloor> = q" "\<not> is_integer NaN" "\<not> is_integer PosInf" "\<not> is_integer NegInf"
  by (simp_all add: is_integer_def)

lemma is_integer_iff: "is_integer n \<longleftrightarrow> (\<exists>i. n = jint i)"
proof (cases n)
  case (Fin q)
  have "of_int \<lfloor>q\<rfloor> = q \<longleftrightarrow> (\<exists>i. q = of_int i)"
    by (metis floor_of_int)
  with Fin show ?thesis by simp
qed auto

lemma nle_Fin [simp]: "nle (Fin a) (Fin b) \<longleftrightarrow> a \<le> b"
  by (auto simp: nle_def)

lemma nneq_Fin [simp]: "nneq (Fin a) (Fin b) \<longleftrightarrow> a \<noteq> b"
  by (simp add: nneq_def)

lemma cmp_num_Fin: "cmp_num (Fin a) (Fin b) = (if a < b then - 1 else if b < a then 1 else 0)"
  by (simp add: cmp_num_def)

lemma cmp_num_le [simp]: "cmp_num (Fin a) (Fin b) \<le> 0 \<longleftrightarrow> a \<le> b"
  by (simp add: cmp_num_Fin)

lemma nsub_Fin [simp]: "nsub (Fin a) (Fin b) = Fin (a - b)"
  by (simp add: nsub_def)

lemma nmul_Fin [simp]: "nmul (Fin a) (Fin b) = Fin (a * b)"
  by (simp add: nmul_def)

lemma nfloor_Fin [simp]: "nfloor (Fin a) = Fin (of_int \<lfloor>a\<rfloor>)"
  by (simp add: nfloor_def)

lemma nmin_Fin [simp]: "nmin (Fin a) (Fin b) = Fin (min a b)"
  by (simp add: nmin_def min_def)

lemma nmax_Fin [simp]: "nmax (Fin a) (Fin b) = Fin (max a b)"
  by (simp add: nmax_def max_def)

lemma ntruthy_simps [simp]:
  "ntruthy (Fin q) \<longleftrightarrow> q \<noteq> 0" "\<not> ntruthy NaN" "ntruthy PosInf" "ntruthy NegInf"
  by (simp_all add: ntruthy_def)

lemma nor_Fin: "nor (Fin q) d = (if q = 0 then d else Fin q)"
  by (simp add: nor_def)

lemma nor_zero_Fin [simp]: "nor (Fin q) (Fin 0) = Fin q"
  by (simp add: nor_def)

lemma nor_NaN [simp]: "nor NaN d = d"
  by (simp add: nor_def)

text \<open>The range guards of the codecs: \<open>!Number.isInteger(n) || n < 0 || n > max\<close> negated.\<close>

definition in_range :: "int \<Rightarrow> jsnum \<Rightarrow> bool" where
  "in_range hi n \<longleftrightarrow> is_integer n \<and> \<not> nlt n (Fin 0) \<and> \<not> nlt (jint hi) n"

lemma in_range_iff: "in_range hi n \<longleftrightarrow> (\<exists>i. n = jint i \<and> 0 \<le> i \<and> i \<le> hi)"
  by (auto simp: in_range_def is_integer_iff not_less simp del: is_integer_simps)

lemma in_range_jint [simp]: "in_range hi (jint i) \<longleftrightarrow> 0 \<le> i \<and> i \<le> hi"
  by (auto simp: in_range_iff)

text \<open>The integer a number carries.\<close>

definition num_int :: "jsnum \<Rightarrow> int" where
  "num_int n = (case n of Fin q \<Rightarrow> \<lfloor>q\<rfloor> | _ \<Rightarrow> 0)"

lemma num_int_jint [simp]: "num_int (jint i) = i"
  by (simp add: num_int_def)

text \<open>The amount a number carries, when it is used as one.\<close>

definition fin_part :: "jsnum \<Rightarrow> rat" where
  "fin_part n = (case n of Fin q \<Rightarrow> q | _ \<Rightarrow> 0)"

lemma fin_part_Fin [simp]: "fin_part (Fin q) = q"
  by (simp add: fin_part_def)

subsection \<open>Array slicing\<close>

text \<open>\<open>slice(a, b)\<close>: negative indices count from the end, out-of-range ones are clamped.\<close>

definition slice_index :: "nat \<Rightarrow> int \<Rightarrow> nat" where
  "slice_index n i = (if i < 0 then nat (int n + i) else min (nat i) n)"

definition js_slice :: "'a list \<Rightarrow> int \<Rightarrow> int \<Rightarrow> 'a list" where
  "js_slice xs a b =
     (let i = slice_index (length xs) a; j = slice_index (length xs) b
      in take (j - i) (drop i xs))"

definition js_slice_from :: "'a list \<Rightarrow> int \<Rightarrow> 'a list" where
  "js_slice_from xs a = js_slice xs a (int (length xs))"

lemma slice_nat: "js_slice xs (int a) (int b) = take (b - a) (drop a xs)"
  by (cases "a \<le> length xs"; cases "b \<le> length xs")
    (auto simp: js_slice_def slice_index_def Let_def min_def)

lemma slice_prefix: "js_slice xs 0 (int n) = take n xs"
  using slice_nat [of xs 0 n] by simp

lemma slice_from_nat: "js_slice_from xs (int a) = drop a xs"
  by (simp add: js_slice_from_def slice_nat)

lemma slice_drop_end: "k \<le> length xs \<Longrightarrow> js_slice xs 0 (int (length xs) - int k) = take (length xs - k) xs"
  using slice_prefix [of xs "length xs - k"] by (simp add: of_nat_diff)

lemma slice_nonneg: "0 \<le> a \<Longrightarrow> a \<le> b \<Longrightarrow> js_slice xs a b = take (nat (b - a)) (drop (nat a) xs)"
  using slice_nat [of xs "nat a" "nat b"] by (simp add: nat_diff_distrib)

lemma slice_offset:
  "0 \<le> n \<Longrightarrow> js_slice xs (int off + numeral k) (int off + numeral k + n) = take (nat n) (drop (off + numeral k) xs)"
  "0 \<le> n \<Longrightarrow> js_slice xs (int off) (int off + n) = take (nat n) (drop off xs)"
  by (simp_all add: slice_nonneg nat_add_distrib)

text \<open>Reading one element: \<open>undefined\<close> past the end.\<close>

definition elem_at :: "'a list \<Rightarrow> nat \<Rightarrow> 'a option" where
  "elem_at xs i = (if i < length xs then Some (xs ! i) else None)"

lemma elem_at_Some [simp]: "elem_at xs i = Some x \<longleftrightarrow> i < length xs \<and> xs ! i = x"
  by (auto simp: elem_at_def)

end
