(* ===== verification/Stable_Sort.thy ===== *)
theory Stable_Sort
  imports Prelude
begin

section \<open>Array.prototype.sort with a comparator\<close>

text \<open>
  \<open>Array.prototype.sort\<close> is stable; for a comparator that is a total preorder its result
  is determined, and stable insertion sort computes it. Comparators return a number whose sign
  matters; they are modelled as integer-valued functions.
\<close>

fun insort_cmp :: "('a \<Rightarrow> 'a \<Rightarrow> int) \<Rightarrow> 'a \<Rightarrow> 'a list \<Rightarrow> 'a list" where
  "insort_cmp cmp x [] = [x]"
| "insort_cmp cmp x (y # ys) = (if cmp x y \<le> 0 then x # y # ys else y # insort_cmp cmp x ys)"

fun js_sort :: "('a \<Rightarrow> 'a \<Rightarrow> int) \<Rightarrow> 'a list \<Rightarrow> 'a list" where
  "js_sort cmp [] = []"
| "js_sort cmp (x # xs) = insort_cmp cmp x (js_sort cmp xs)"

lemma mset_insort_cmp [simp]: "mset (insort_cmp cmp x xs) = add_mset x (mset xs)"
  by (induction xs) auto

lemma mset_js_sort [simp]: "mset (js_sort cmp xs) = mset xs"
  by (induction xs) auto

lemma set_js_sort [simp]: "set (js_sort cmp xs) = set xs"
  by (metis mset_js_sort set_mset_mset)

lemma length_js_sort [simp]: "length (js_sort cmp xs) = length xs"
  by (metis mset_js_sort size_mset)

lemma js_sort_eq_Nil [simp]: "js_sort cmp xs = [] \<longleftrightarrow> xs = []"
  by (metis length_0_conv length_js_sort)

lemma set_insort_cmp [simp]: "set (insort_cmp cmp x xs) = insert x (set xs)"
  by (induction xs) auto

text \<open>A comparator in order on a set: total, and transitive where it says at most.\<close>

definition comparator_on :: "'a set \<Rightarrow> ('a \<Rightarrow> 'a \<Rightarrow> int) \<Rightarrow> bool" where
  "comparator_on A cmp \<longleftrightarrow>
     (\<forall>x\<in>A. \<forall>y\<in>A. cmp x y \<le> 0 \<or> cmp y x \<le> 0) \<and>
     (\<forall>x\<in>A. \<forall>y\<in>A. \<forall>z\<in>A. cmp x y \<le> 0 \<longrightarrow> cmp y z \<le> 0 \<longrightarrow> cmp x z \<le> 0)"

lemma comparator_on_subset: "comparator_on A cmp \<Longrightarrow> B \<subseteq> A \<Longrightarrow> comparator_on B cmp"
  unfolding comparator_on_def by (meson subsetD)

lemma comparator_on_cong:
  assumes "comparator_on A cmp" "\<And>a b. a \<in> A \<Longrightarrow> b \<in> A \<Longrightarrow> cmp' a b \<le> 0 \<longleftrightarrow> cmp a b \<le> 0"
  shows "comparator_on A cmp'"
  using assms unfolding comparator_on_def by (metis (no_types, lifting))

lemma sorted_insort_cmp:
  assumes "comparator_on (insert x (set ys)) cmp" "sorted_wrt (\<lambda>a b. cmp a b \<le> 0) ys"
  shows "sorted_wrt (\<lambda>a b. cmp a b \<le> 0) (insort_cmp cmp x ys)"
  using assms
proof (induction ys)
  case (Cons y ys)
  show ?case
  proof (cases "cmp x y \<le> 0")
    case True
    have "cmp x z \<le> 0" if "z \<in> set ys" for z
      using Cons.prems True that unfolding comparator_on_def
      by (metis insertCI list.set_intros(1,2) sorted_wrt.simps(2))
    with True Cons.prems show ?thesis by auto
  next
    case False
    with Cons.prems(1) have "cmp y x \<le> 0"
      unfolding comparator_on_def by (metis insertCI list.set_intros(1))
    moreover have "comparator_on (insert x (set ys)) cmp"
      using Cons.prems(1) by (rule comparator_on_subset) auto
    ultimately show ?thesis using Cons False by auto
  qed
qed simp

lemma sorted_js_sort:
  "comparator_on (set xs) cmp \<Longrightarrow> sorted_wrt (\<lambda>a b. cmp a b \<le> 0) (js_sort cmp xs)"
proof (induction xs)
  case (Cons x xs)
  have "comparator_on (set xs) cmp"
    using Cons.prems by (rule comparator_on_subset) auto
  with Cons show ?case by (auto intro!: sorted_insort_cmp)
qed simp

lemma js_sort_sorted_id: "sorted_wrt (\<lambda>a b. cmp a b \<le> 0) xs \<Longrightarrow> js_sort cmp xs = xs"
proof (induction xs)
  case (Cons x xs)
  then show ?case by (cases xs) auto
qed simp

lemma js_sort_idem: "comparator_on (set xs) cmp \<Longrightarrow> js_sort cmp (js_sort cmp xs) = js_sort cmp xs"
  by (simp add: js_sort_sorted_id sorted_js_sort)

text \<open>
  Two sorted arrangements of one multiset agree when ties are between equal elements only; so
  sorting then depends on the multiset of the elements and not on their order.
\<close>

lemma sorted_wrt_unique:
  assumes "sorted_wrt (\<lambda>a b. cmp a b \<le> 0) xs" "sorted_wrt (\<lambda>a b. cmp a b \<le> 0) ys"
    and "mset xs = mset ys"
    and "\<And>a b. a \<in> set xs \<Longrightarrow> b \<in> set xs \<Longrightarrow> cmp a b \<le> (0::int) \<Longrightarrow> cmp b a \<le> 0 \<Longrightarrow> a = b"
  shows "xs = ys"
  using assms
proof (induction xs arbitrary: ys)
  case (Cons x xs)
  then obtain y ys' where ys: "ys = y # ys'" by (cases ys) auto
  have sets: "set (x # xs) = set ys" using Cons.prems(3) by (metis set_mset_mset)
  have "x = y"
  proof (rule ccontr)
    assume "x \<noteq> y"
    with sets ys have "y \<in> set xs" "x \<in> set ys'" by auto
    with Cons.prems(1,2) ys have "cmp x y \<le> 0" "cmp y x \<le> 0" by auto
    with Cons.prems(4) sets ys \<open>x \<noteq> y\<close> show False by (metis list.set_intros(1))
  qed
  with Cons.prems ys have "xs = ys'" by (intro Cons.IH) auto
  with \<open>x = y\<close> ys show ?case by simp
qed simp

lemma js_sort_perm:
  assumes "comparator_on (set xs) cmp" "mset xs = mset ys"
    and "\<And>a b. a \<in> set xs \<Longrightarrow> b \<in> set xs \<Longrightarrow> cmp a b \<le> (0::int) \<Longrightarrow> cmp b a \<le> 0 \<Longrightarrow> a = b"
  shows "js_sort cmp xs = js_sort cmp ys"
proof (rule sorted_wrt_unique [where cmp = cmp])
  have "set ys = set xs" using assms(2) by (metis set_mset_mset)
  with assms(1) show "sorted_wrt (\<lambda>a b. cmp a b \<le> 0) (js_sort cmp ys)"
    by (simp add: sorted_js_sort)
qed (use assms in \<open>auto simp: sorted_js_sort\<close>)

text \<open>The head of a sorted array is a least element.\<close>

lemma js_sort_hd_least:
  assumes "comparator_on (set xs) cmp" "xs \<noteq> []" "y \<in> set xs"
    and refl: "\<And>a. cmp a a \<le> 0"
  shows "cmp (hd (js_sort cmp xs)) y \<le> 0"
proof -
  obtain h t where ht: "js_sort cmp xs = h # t"
    using assms(2) by (cases "js_sort cmp xs") auto
  have "y \<in> set (h # t)" using assms(3) ht by (metis set_js_sort)
  moreover have "sorted_wrt (\<lambda>a b. cmp a b \<le> 0) (h # t)"
    using sorted_js_sort [OF assms(1)] ht by simp
  ultimately show ?thesis using ht refl by auto
qed

subsection \<open>Comparing by a key first, then by another comparator\<close>

text \<open>The idiom \<open>if (a.k !== b.k) return a.k - b.k; ...\<close>.\<close>

definition cmp_key :: "('a \<Rightarrow> int) \<Rightarrow> ('a \<Rightarrow> 'a \<Rightarrow> int) \<Rightarrow> 'a \<Rightarrow> 'a \<Rightarrow> int" where
  "cmp_key f cmp a b = (if f a \<noteq> f b then f a - f b else cmp a b)"

lemma comparator_on_cmp_key: "comparator_on A cmp \<Longrightarrow> comparator_on A (cmp_key f cmp)"
  unfolding comparator_on_def cmp_key_def
  by (smt (verit))

lemma comparator_on_key: "comparator_on A (\<lambda>a b. f a - f b)"
  by (auto simp: comparator_on_def)

text \<open>Comparing two byte arrays element by element up to the shorter length, then by length.\<close>

fun cmp_list :: "int list \<Rightarrow> int list \<Rightarrow> int" where
  "cmp_list [] ys = - int (length ys)"
| "cmp_list xs [] = int (length xs)"
| "cmp_list (x # xs) (y # ys) = (if x - y \<noteq> 0 then x - y else cmp_list xs ys)"

lemma cmp_list_refl [simp]: "cmp_list xs xs = 0"
  by (induction xs) auto

lemma cmp_list_Nil_right [simp]: "cmp_list xs [] = int (length xs)"
  by (cases xs) auto

lemma cmp_list_antisym: "cmp_list xs ys \<le> 0 \<Longrightarrow> cmp_list ys xs \<le> 0 \<Longrightarrow> xs = ys"
  by (induction xs ys rule: cmp_list.induct) (auto split: if_splits)

lemma cmp_list_total: "cmp_list xs ys \<le> 0 \<or> cmp_list ys xs \<le> 0"
  by (induction xs ys rule: cmp_list.induct) auto

lemma cmp_list_trans: "cmp_list xs ys \<le> 0 \<Longrightarrow> cmp_list ys zs \<le> 0 \<Longrightarrow> cmp_list xs zs \<le> 0"
proof (induction xs ys arbitrary: zs rule: cmp_list.induct)
  case (1 ys)
  then show ?case by (cases zs) auto
next
  case (2 x xs)
  then show ?case by auto
next
  case (3 x xs y ys)
  then show ?case by (cases zs) (auto split: if_splits)
qed

lemma comparator_on_cmp_list: "comparator_on A (\<lambda>a b. cmp_list (f a) (f b))"
  unfolding comparator_on_def using cmp_list_total cmp_list_trans by blast

end
