(* ===== verification/Caps.thy ===== *)
theory Caps
  imports Prelude
begin

section \<open>Rate windows and daily caps\<close>

text \<open>
  Two counters the coordinator uses everywhere: requests per minute, and amounts per calendar day.
  Times are milliseconds. A calendar day \<open>toISOString().slice(0, 10)\<close> in UTC is represented by
  the number of days since the epoch, which determines the date and is determined by it.
\<close>

record RateWindow =
  rw_count :: nat
  rw_windowStart :: int

text \<open>\<open>applyRateLimit\<close>: the entry is always written back; a window older than a minute starts anew.\<close>

definition applyRateLimit ::
  "int \<Rightarrow> jsnum \<Rightarrow> 'k \<Rightarrow> ('k \<rightharpoonup> RateWindow) \<Rightarrow> bool \<times> ('k \<rightharpoonup> RateWindow)" where
  "applyRateLimit now maxPerMinute key m =
     (let entry0 = (case m key of None \<Rightarrow> \<lparr>rw_count = 0, rw_windowStart = now\<rparr> | Some e \<Rightarrow> e);
          entry1 = (if now - rw_windowStart entry0 > 60000
                    then \<lparr>rw_count = 0, rw_windowStart = now\<rparr> else entry0);
          entry = entry1\<lparr>rw_count := rw_count entry1 + 1\<rparr>
      in (\<not> nlt maxPerMinute (jint (int (rw_count entry))), m(key \<mapsto> entry)))"

record DayWindow =
  dw_date :: int
  dw_used :: jsnum

definition utc_day :: "int \<Rightarrow> int" where
  "utc_day now = now div 86400000"

text \<open>
  The step the three caps of the coordinator share. The entry is an object of the map: resetting it to
  a new day is seen in the map even when the amount is then refused, while a new entry is put
  there only when it is accepted.
\<close>

definition window_step ::
  "jsnum \<Rightarrow> int \<Rightarrow> 'k \<Rightarrow> jsnum \<Rightarrow> ('k \<rightharpoonup> DayWindow) \<Rightarrow> bool \<times> ('k \<rightharpoonup> DayWindow)" where
  "window_step cap now key delta ws =
     (let today = utc_day now;
          entry0 = (case ws key of None \<Rightarrow> \<lparr>dw_date = today, dw_used = Fin 0\<rparr> | Some e \<Rightarrow> e);
          entry = (if dw_date entry0 \<noteq> today then \<lparr>dw_date = today, dw_used = Fin 0\<rparr> else entry0)
      in if nlt cap (nadd (dw_used entry) delta)
         then (False, case ws key of None \<Rightarrow> ws | Some _ \<Rightarrow> ws(key \<mapsto> entry))
         else (True, ws(key \<mapsto> entry\<lparr>dw_used := nadd (dw_used entry) delta\<rparr>)))"

section \<open>The contract of a daily cap\<close>

text \<open>
  \<open>used s k d\<close> is the amount counted for \<open>k\<close> on day \<open>d\<close>; \<open>ok s d\<close> says that no window
  of \<open>s\<close> is dated after \<open>d\<close>. A call counts its amount for its key on its day if it is accepted,
  and it is accepted only if the day's total stays within the cap. Calls may do anything else.
\<close>

locale daily_cap =
  fixes stp :: "'c \<Rightarrow> 's \<Rightarrow> bool \<times> 's"
    and time :: "'c \<Rightarrow> int"
    and key :: "'c \<Rightarrow> 's \<Rightarrow> 'k"
    and amount :: "'c \<Rightarrow> 's \<Rightarrow> rat"
    and used :: "'s \<Rightarrow> 'k \<Rightarrow> int \<Rightarrow> rat"
    and cap :: rat
    and ok :: "'s \<Rightarrow> int \<Rightarrow> bool"
  assumes step_ok: "ok s d \<Longrightarrow> d \<le> utc_day (time c) \<Longrightarrow> ok (snd (stp c s)) (utc_day (time c))"
    and step_accepts: "ok s d \<Longrightarrow> d \<le> utc_day (time c) \<Longrightarrow> fst (stp c s) \<Longrightarrow>
      used s (key c s) (utc_day (time c)) + amount c s \<le> cap"
    and step_used: "ok s d \<Longrightarrow> d \<le> utc_day (time c) \<Longrightarrow> utc_day (time c) \<le> e \<Longrightarrow> used (snd (stp c s)) j e =
      used s j e + (if j = key c s \<and> e = utc_day (time c) \<and> fst (stp c s) then amount c s else 0)"
begin

text \<open>What a sequence of calls accepts for \<open>k\<close> on day \<open>d\<close>, and the clock of the sequence.\<close>

fun accepted :: "'k \<Rightarrow> int \<Rightarrow> 'c list \<Rightarrow> 's \<Rightarrow> rat" where
  "accepted k d [] s = 0"
| "accepted k d (c # calls) s =
     (if k = key c s \<and> d = utc_day (time c) \<and> fst (stp c s) then amount c s else 0) + accepted k d calls (snd (stp c s))"

fun clocked :: "int \<Rightarrow> 'c list \<Rightarrow> bool" where
  "clocked d [] = True"
| "clocked d (c # calls) = (d \<le> utc_day (time c) \<and> clocked (utc_day (time c)) calls)"

lemma accepted_past: "clocked d0 calls \<Longrightarrow> d < d0 \<Longrightarrow> accepted k d calls s = 0"
  by (induction d0 calls arbitrary: s rule: clocked.induct) auto

lemma used_le_cap:
  assumes "ok s d0" "d0 \<le> utc_day (time c)" "used s k (utc_day (time c)) \<le> cap"
  shows "used (snd (stp c s)) k (utc_day (time c)) \<le> cap"
  using step_accepts [OF assms(1,2)] step_used [OF assms(1,2) order_refl] assms(3) by auto

lemma bounded:
  assumes "ok s d0" "clocked d0 calls" "\<And>d. d0 \<le> d \<Longrightarrow> used s k d \<le> cap"
  shows "d0 \<le> d \<Longrightarrow> used s k d + accepted k d calls s \<le> cap"
  using assms
proof (induction d0 calls arbitrary: s rule: clocked.induct)
  case (2 d0 c calls)
  let ?t = "utc_day (time c)" and ?s = "snd (stp c s)"
  have t: "d0 \<le> ?t" "clocked ?t calls" using "2.prems"(3) by auto
  have ok': "ok ?s ?t" using step_ok "2.prems"(2) t(1) by blast
  have cap': "used ?s k e \<le> cap" if "?t \<le> e" for e
    using used_le_cap [OF "2.prems"(2) t(1)] step_used [OF "2.prems"(2) t(1) that]
      "2.prems"(4) [of e] "2.prems"(4) [of ?t] t(1) that
    by (cases "e = ?t") auto
  show ?case
  proof (cases "d < ?t")
    case True
    then show ?thesis using "2.prems" by (auto simp: accepted_past [OF t(2) True])
  next
    case False
    then show ?thesis
      using "2.IH" [OF _ ok' t(2) cap'] step_used [OF "2.prems"(2) t(1), where e = d and j = k]
      by (auto split: if_splits)
  qed
qed auto

end

subsection \<open>The shared step keeps the contract\<close>

definition windows_ok :: "('k \<rightharpoonup> DayWindow) \<Rightarrow> int \<Rightarrow> bool" where
  "windows_ok ws d \<longleftrightarrow> (\<forall>k e. ws k = Some e \<longrightarrow> dw_date e \<le> d \<and> is_finite (dw_used e))"

definition windows_used :: "('k \<rightharpoonup> DayWindow) \<Rightarrow> 'k \<Rightarrow> int \<Rightarrow> rat" where
  "windows_used ws k d = (case ws k of None \<Rightarrow> 0 | Some e \<Rightarrow> if dw_date e = d then fin_part (dw_used e) else 0)"

lemma window_step_ok:
  "windows_ok ws d \<Longrightarrow> d \<le> utc_day now \<Longrightarrow> windows_ok (snd (window_step cap now k (Fin a) ws)) (utc_day now)"
  by (fastforce simp: windows_ok_def window_step_def Let_def is_finite_iff split: option.splits)

lemma window_step_accepts:
  "windows_ok ws d \<Longrightarrow> fst (window_step (Fin cap) now k (Fin a) ws) = (windows_used ws k (utc_day now) + a \<le> cap)"
proof (cases "ws k")
  case (Some w)
  assume "windows_ok ws d"
  with Some obtain q where "dw_used w = Fin q"
    by (auto simp: windows_ok_def is_finite_iff)
  with Some show ?thesis
    by (auto simp: window_step_def windows_used_def Let_def)
qed (auto simp: window_step_def windows_used_def Let_def)

lemma window_step_used:
  assumes "windows_ok ws d" "d \<le> utc_day now" "utc_day now \<le> e"
  shows "windows_used (snd (window_step cap now k (Fin a) ws)) j e = windows_used ws j e +
    (if j = k \<and> e = utc_day now \<and> fst (window_step cap now k (Fin a) ws) then a else 0)"
proof (cases "ws k")
  case (Some w)
  with assms(1) obtain q where "dw_used w = Fin q" "dw_date w \<le> d"
    by (auto simp: windows_ok_def is_finite_iff)
  with Some assms(2,3) show ?thesis
    by (auto simp: window_step_def windows_used_def Let_def split: option.splits)
qed (auto simp: window_step_def windows_used_def Let_def split: option.splits)

text \<open>A call that leaves the windows alone and is not counted.\<close>

lemma windows_ok_mono: "windows_ok ws d \<Longrightarrow> d \<le> e \<Longrightarrow> windows_ok ws e"
  unfolding windows_ok_def by fastforce

interpretation window_cap: daily_cap "\<lambda>c. window_step (Fin cap) (fst c) (fst (snd c)) (Fin (snd (snd c)))"
  fst "\<lambda>c s. fst (snd c)" "\<lambda>c s. snd (snd c)" windows_used cap windows_ok
  for cap :: rat
proof
  fix s :: "'k \<rightharpoonup> DayWindow" and d e and c :: "int \<times> 'k \<times> rat" and j
  assume A: "windows_ok s d" "d \<le> utc_day (fst c)"
  show "windows_ok (snd (window_step (Fin cap) (fst c) (fst (snd c)) (Fin (snd (snd c))) s)) (utc_day (fst c))"
    using A by (rule window_step_ok)
  show "windows_used s (fst (snd c)) (utc_day (fst c)) + snd (snd c) \<le> cap"
    if "fst (window_step (Fin cap) (fst c) (fst (snd c)) (Fin (snd (snd c))) s)"
    using that window_step_accepts [OF A(1)] by blast
  assume "utc_day (fst c) \<le> e"
  then show "windows_used (snd (window_step (Fin cap) (fst c) (fst (snd c)) (Fin (snd (snd c))) s)) j e =
      windows_used s j e + (if j = fst (snd c) \<and> e = utc_day (fst c) \<and>
        fst (window_step (Fin cap) (fst c) (fst (snd c)) (Fin (snd (snd c))) s) then snd (snd c) else 0)"
    using A by (intro window_step_used)
qed

end
