(* ===== verification/Js_Strings.thy ===== *)
theory Js_Strings
  imports Prelude
begin

section \<open>String operations\<close>

text \<open>
  The \<open>String.prototype\<close> operations the sources use, on code units below 256:
  \<open>trim\<close>, \<open>toLowerCase\<close>, \<open>toUpperCase\<close> (on ASCII letters), \<open>startsWith\<close>,
  \<open>endsWith\<close>, \<open>split\<close> by one character and \<open>join\<close>, and the two trailing-dot
  replacements \<open>replace(/\.$/, "")\<close> and \<open>replace(/\.+$/, "")\<close>.
\<close>

definition is_ws :: "char \<Rightarrow> bool" where
  "is_ws c = ((of_char c :: nat) \<in> {9, 10, 11, 12, 13, 32, 160})"

definition trim :: "string \<Rightarrow> string" where
  "trim s = rev (dropWhile is_ws (rev (dropWhile is_ws s)))"

definition lower_char :: "char \<Rightarrow> char" where
  "lower_char c =
     (let n = (of_char c :: nat)
      in if (65 \<le> n \<and> n \<le> 90) \<or> (192 \<le> n \<and> n \<le> 222 \<and> n \<noteq> 215) then char_of (n + 32) else c)"

definition lower :: "string \<Rightarrow> string" where
  "lower s = map lower_char s"

definition upper_char :: "char \<Rightarrow> char" where
  "upper_char c = (let n = (of_char c :: nat) in if 97 \<le> n \<and> n \<le> 122 then char_of (n - 32) else c)"

definition upper :: "string \<Rightarrow> string" where
  "upper s = map upper_char s"

definition starts_with :: "'a list \<Rightarrow> 'a list \<Rightarrow> bool" where
  "starts_with s p \<longleftrightarrow> take (length p) s = p"

definition ends_with :: "'a list \<Rightarrow> 'a list \<Rightarrow> bool" where
  "ends_with s p \<longleftrightarrow> length p \<le> length s \<and> drop (length s - length p) s = p"

definition strip_dot :: "string \<Rightarrow> string" where
  "strip_dot s = (if s \<noteq> [] \<and> last s = CHR ''.'' then butlast s else s)"

definition strip_dots :: "string \<Rightarrow> string" where
  "strip_dots s = rev (dropWhile (\<lambda>c. c = CHR ''.'') (rev s))"

fun split_on :: "'a \<Rightarrow> 'a list \<Rightarrow> 'a list list" where
  "split_on d [] = [[]]"
| "split_on d (c # cs) =
     (if c = d then [] # split_on d cs
      else (case split_on d cs of [] \<Rightarrow> [[c]] | w # ws \<Rightarrow> (c # w) # ws))"

fun join :: "'a list \<Rightarrow> 'a list list \<Rightarrow> 'a list" where
  "join sep [] = []"
| "join sep [w] = w"
| "join sep (w # v # ws) = w @ sep @ join sep (v # ws)"

subsection \<open>Case conversion\<close>

lemma of_char_lower_char:
  "(of_char (lower_char c) :: nat) =
     (let n = of_char c in if (65 \<le> n \<and> n \<le> 90) \<or> (192 \<le> n \<and> n \<le> 222 \<and> n \<noteq> 215) then n + 32 else n)"
  by (auto simp: lower_char_def Let_def)

lemma lower_char_idem [simp]: "lower_char (lower_char c) = lower_char c"
proof -
  have "(of_char (lower_char (lower_char c)) :: nat) = of_char (lower_char c)"
    by (simp add: of_char_lower_char Let_def)
  then show ?thesis by simp
qed

lemma lower_lower [simp]: "lower (lower s) = lower s"
  by (simp add: lower_def)

lemma length_lower [simp]: "length (lower s) = length s"
  by (simp add: lower_def)

lemma lower_eq_Nil [simp]: "lower s = [] \<longleftrightarrow> s = []"
  by (simp add: lower_def)

lemma lower_append [simp]: "lower (s @ t) = lower s @ lower t"
  by (simp add: lower_def)

lemma lower_take: "lower (take n s) = take n (lower s)"
  by (simp add: lower_def take_map)

lemma is_ws_lower_char [simp]: "is_ws (lower_char c) = is_ws c"
  by (auto simp: is_ws_def of_char_lower_char Let_def)

lemma lower_char_eq_dot [simp]: "lower_char c = CHR ''.'' \<longleftrightarrow> c = CHR ''.''"
proof -
  have "(of_char (lower_char c) :: nat) = 46 \<longleftrightarrow> (of_char c :: nat) = 46"
    by (auto simp: of_char_lower_char Let_def)
  moreover have "x = CHR ''.'' \<longleftrightarrow> (of_char x :: nat) = 46" for x :: char
    using of_char_eq_iff [where ?'a = nat, of x "CHR ''.''"] by simp
  ultimately show ?thesis by blast
qed

lemma strip_dot_lower: "strip_dot (lower s) = lower (strip_dot s)"
  by (auto simp: strip_dot_def lower_def last_map map_butlast)

subsection \<open>Trimming\<close>

lemma trim_Nil [simp]: "trim [] = []"
  by (simp add: trim_def)

lemma dropWhile_rev_hd:
  "dropWhile P (rev (dropWhile Q xs)) \<noteq> [] \<Longrightarrow>
     hd (rev (dropWhile P (rev (dropWhile Q xs)))) = hd (dropWhile Q xs)"
proof -
  assume ne: "dropWhile P (rev (dropWhile Q xs)) \<noteq> []"
  let ?ys = "rev (dropWhile Q xs)"
  have "?ys = takeWhile P ?ys @ dropWhile P ?ys" by simp
  then have "rev ?ys = rev (dropWhile P ?ys) @ rev (takeWhile P ?ys)"
    by (metis rev_append)
  with ne show ?thesis by (metis hd_append2 rev_is_Nil_conv rev_rev_ident)
qed

lemma trim_hd: "trim s \<noteq> [] \<Longrightarrow> \<not> is_ws (hd (trim s))"
proof -
  assume ne: "trim s \<noteq> []"
  then have "hd (trim s) = hd (dropWhile is_ws s)"
    unfolding trim_def by (intro dropWhile_rev_hd) simp
  moreover have "dropWhile is_ws s \<noteq> []" using ne unfolding trim_def by fastforce
  ultimately show ?thesis by (simp add: hd_dropWhile)
qed

lemma trim_last: "trim s \<noteq> [] \<Longrightarrow> \<not> is_ws (last (trim s))"
  by (simp add: trim_def last_rev hd_dropWhile)

lemma trim_id: "s = [] \<or> (\<not> is_ws (hd s) \<and> \<not> is_ws (last s)) \<Longrightarrow> trim s = s"
proof (cases "s = []")
  case False
  assume "s = [] \<or> (\<not> is_ws (hd s) \<and> \<not> is_ws (last s))"
  with False have "dropWhile is_ws s = s" "dropWhile is_ws (rev s) = rev s"
    by (auto simp: dropWhile_eq_self_iff hd_rev)
  then show ?thesis by (simp add: trim_def)
qed simp

lemma trim_trim [simp]: "trim (trim s) = trim s"
  by (rule trim_id) (use trim_hd trim_last in blast)

lemma trim_lower: "trim (lower s) = lower (trim s)"
proof -
  have "dropWhile is_ws (map lower_char xs) = map lower_char (dropWhile is_ws xs)" for xs
    by (induction xs) auto
  then show ?thesis by (simp add: trim_def lower_def rev_map)
qed

subsection \<open>Splitting and joining\<close>

lemma split_on_ne [simp]: "split_on d s \<noteq> []"
  by (cases s) (auto split: list.splits)

lemma join_split_on: "join [d] (split_on d s) = s"
proof (induction s)
  case (Cons c cs)
  show ?case
  proof (cases "c = d")
    case True
    with Cons show ?thesis by (cases "split_on d cs") auto
  next
    case False
    obtain w ws where w: "split_on d cs = w # ws"
      by (metis neq_Nil_conv split_on_ne)
    with Cons False show ?thesis by (cases ws) auto
  qed
qed simp

lemma split_on_no_sep: "w \<in> set (split_on d s) \<Longrightarrow> d \<notin> set w"
proof (induction s arbitrary: w)
  case (Cons c cs)
  then show ?case
    by (cases "split_on d cs") (auto split: if_splits)
qed simp

lemma split_on_append:
  "d \<notin> set w \<Longrightarrow> split_on d (w @ s) = (w @ hd (split_on d s)) # tl (split_on d s)"
  by (induction w) (auto split: list.splits)

lemma split_on_join:
  assumes "ws \<noteq> []" "\<And>w. w \<in> set ws \<Longrightarrow> d \<notin> set w"
  shows "split_on d (join [d] ws) = ws"
  using assms
proof (induction ws)
  case (Cons w ws)
  show ?case
  proof (cases ws)
    case Nil
    with Cons show ?thesis using split_on_append [of d w "[]"] by simp
  next
    case (Cons v vs)
    with Cons.IH Cons.prems have "split_on d (join [d] ws) = ws" by simp
    with Cons Cons.prems show ?thesis using split_on_append [of d w "d # join [d] ws"] by simp
  qed
qed simp

lemma lower_join: "lower (join s ws) = join (lower s) (map lower ws)"
  by (induction s ws rule: join.induct) auto

subsection \<open>Prefixes and suffixes\<close>

lemma ends_with_iff: "ends_with s p \<longleftrightarrow> (\<exists>t. s = t @ p)"
proof
  assume "ends_with s p"
  then have "s = take (length s - length p) s @ p"
    unfolding ends_with_def by (metis append_take_drop_id)
  then show "\<exists>t. s = t @ p" by blast
qed (auto simp: ends_with_def)

lemma starts_with_iff: "starts_with s p \<longleftrightarrow> (\<exists>t. s = p @ t)"
  by (metis append_eq_conv_conj append_take_drop_id starts_with_def)

lemma strip_dots_last: "strip_dots s \<noteq> [] \<Longrightarrow> last (strip_dots s) \<noteq> CHR ''.''"
  by (metis (mono_tags, lifting) hd_dropWhile last_rev rev_is_Nil_conv strip_dots_def)

lemma strip_dots_id: "s = [] \<or> last s \<noteq> CHR ''.'' \<Longrightarrow> strip_dots s = s"
  by (cases s rule: rev_cases) (auto simp: strip_dots_def)

lemma strip_dots_idem [simp]: "strip_dots (strip_dots s) = strip_dots s"
  by (rule strip_dots_id) (use strip_dots_last in blast)

end
