(* ===== verification/Json.thy ===== *)
theory Json
  imports Js_Strings Stable_Sort
begin

section \<open>JSON.stringify\<close>

text \<open>
  The canonical forms that are hashed are produced by \<open>JSON.stringify\<close>. Values are a datatype, an
  object keeps its properties in insertion order, a property whose value is \<open>undefined\<close> is left
  out (\<open>opt_field\<close>). How a finite number prints is an argument, \<open>numstr\<close>.
\<close>

datatype json = JNull | JBool bool | JNum jsnum | JStr string | JArr "json list" | JObj "(string \<times> json) list"

definition hex_lower :: "nat \<Rightarrow> char" where
  "hex_lower d = (if d < 10 then char_of (48 + d) else char_of (87 + d))"

definition escape_char :: "char \<Rightarrow> string" where
  "escape_char c =
     (let n = (of_char c :: nat) in
      if n = 34 then [CHR 0x5C, CHR 0x22] else if n = 92 then [CHR 0x5C, CHR 0x5C]
      else if n = 8 then [CHR 0x5C, CHR ''b''] else if n = 12 then [CHR 0x5C, CHR ''f'']
      else if n = 10 then [CHR 0x5C, CHR ''n''] else if n = 13 then [CHR 0x5C, CHR ''r'']
      else if n = 9 then [CHR 0x5C, CHR ''t'']
      else if n < 32 then [CHR 0x5C, CHR ''u'', CHR ''0'', CHR ''0'', hex_lower (n div 16), hex_lower (n mod 16)]
      else [c])"

definition json_quote :: "string \<Rightarrow> string" where
  "json_quote s = [CHR 0x22] @ concat (map escape_char s) @ [CHR 0x22]"

definition json_num :: "(rat \<Rightarrow> string) \<Rightarrow> jsnum \<Rightarrow> string" where
  "json_num numstr n = (case n of Fin q \<Rightarrow> numstr q | _ \<Rightarrow> ''null'')"

primrec json_str :: "(rat \<Rightarrow> string) \<Rightarrow> json \<Rightarrow> string" where
  "json_str numstr JNull = ''null''"
| "json_str numstr (JBool b) = (if b then ''true'' else ''false'')"
| "json_str numstr (JNum n) = json_num numstr n"
| "json_str numstr (JStr s) = json_quote s"
| "json_str numstr (JArr xs) = ''['' @ join '','' (map (json_str numstr) xs) @ '']''"
| "json_str numstr (JObj kvs) =
     ''{'' @ join '','' (map (\<lambda>(k, v). json_quote k @ '':'' @ v) (map (map_prod id (json_str numstr)) kvs)) @ ''}''"

definition opt_field :: "string \<Rightarrow> json option \<Rightarrow> (string \<times> json) list" where
  "opt_field k v = (case v of None \<Rightarrow> [] | Some j \<Rightarrow> [(k, j)])"

text \<open>\<open>Array.from(new Set(xs))\<close> keeps the first occurrence of every element.\<close>

definition js_dedup :: "'a list \<Rightarrow> 'a list" where
  "js_dedup xs = rev (remdups (rev xs))"

lemma set_js_dedup [simp]: "set (js_dedup xs) = set xs"
  by (simp add: js_dedup_def)

lemma distinct_js_dedup [simp]: "distinct (js_dedup xs)"
  by (simp add: js_dedup_def)

lemma js_dedup_distinct: "distinct xs \<Longrightarrow> js_dedup xs = xs"
  by (simp add: js_dedup_def distinct_remdups_id)

subsection \<open>Reading a parsed value\<close>

text \<open>A property of a value, \<open>undefined\<close> (\<open>None\<close>) when it has none; truthiness; what a template
  literal prints.\<close>

definition jprop :: "json \<Rightarrow> string \<Rightarrow> json option" where
  "jprop v k = (case v of JObj kvs \<Rightarrow> map_of kvs k | _ \<Rightarrow> None)"

definition jtruthy :: "json option \<Rightarrow> bool" where
  "jtruthy v = (case v of
     None \<Rightarrow> False | Some JNull \<Rightarrow> False | Some (JBool b) \<Rightarrow> b | Some (JNum n) \<Rightarrow> ntruthy n
   | Some (JStr s) \<Rightarrow> s \<noteq> [] | Some (JArr _) \<Rightarrow> True | Some (JObj _) \<Rightarrow> True)"

primrec array_item_str :: "(rat \<Rightarrow> string) \<Rightarrow> json \<Rightarrow> string" where
  "array_item_str numstr JNull = []"
| "array_item_str numstr (JBool b) = (if b then ''true'' else ''false'')"
| "array_item_str numstr (JNum n) =
     (case n of Fin q \<Rightarrow> numstr q | NaN \<Rightarrow> ''NaN'' | PosInf \<Rightarrow> ''Infinity'' | NegInf \<Rightarrow> ''-Infinity'')"
| "array_item_str numstr (JStr s) = s"
| "array_item_str numstr (JArr xs) = join '','' (map (array_item_str numstr) xs)"
| "array_item_str numstr (JObj kvs) = ''[object Object]''"

definition js_to_string :: "(rat \<Rightarrow> string) \<Rightarrow> json \<Rightarrow> string" where
  "js_to_string numstr v = (if v = JNull then ''null'' else array_item_str numstr v)"

text \<open>Default sorting of strings: by code unit.\<close>

definition cmp_string :: "string \<Rightarrow> string \<Rightarrow> int" where
  "cmp_string s t = cmp_list (map of_char s) (map of_char t)"

lemma jtruthy_simps [simp]:
  "\<not> jtruthy None" "\<not> jtruthy (Some JNull)" "jtruthy (Some (JBool b)) = b" "jtruthy (Some (JNum n)) = ntruthy n"
  "jtruthy (Some (JStr s)) = (s \<noteq> [])" "jtruthy (Some (JArr xs))" "jtruthy (Some (JObj kvs))"
  by (simp_all add: jtruthy_def)

end
