(* ===== verification/Bytes.thy ===== *)
theory Bytes
  imports Prelude Js_Strings
begin

unbundle bit_operations_syntax


section \<open>Byte arrays (core/src/bytes.ts)\<close>

text \<open>
  A \<open>Uint8Array\<close> is a list of bytes. Integers are written and read little-endian; a read
  past the end of the buffer throws \<open>RangeError\<close>, as \<open>DataView\<close> does. The encoders
  convert any number (\<open>ToUint16\<close>, \<open>ToUint32\<close>, \<open>BigInt.asUintN(64, n)\<close>):
  truncation towards zero, then the remainder modulo the width.
\<close>

type_synonym byte = "8 word"
type_synonym bytes = "byte list"

named_theorems byte_simps \<open>lengths and positions of the fields of an encoding\<close>

subsection \<open>Little-endian integers\<close>

fun le_bytes :: "nat \<Rightarrow> int \<Rightarrow> bytes" where
  "le_bytes 0 n = []"
| "le_bytes (Suc k) n = word_of_int n # le_bytes k (n div 256)"

fun of_le :: "bytes \<Rightarrow> int" where
  "of_le [] = 0"
| "of_le (b # bs) = uint b + 256 * of_le bs"

definition to_uint :: "nat \<Rightarrow> jsnum \<Rightarrow> int" where
  "to_uint w n =
     (case n of Fin q \<Rightarrow> (if q < 0 then \<lceil>q\<rceil> else \<lfloor>q\<rfloor>) mod 2 ^ w | _ \<Rightarrow> 0)"

definition u16le :: "jsnum \<Rightarrow> bytes" where
  "u16le n = le_bytes 2 (to_uint 16 n)"

definition u32le :: "jsnum \<Rightarrow> bytes" where
  "u32le n = le_bytes 4 (to_uint 32 n)"

definition u64le :: "int \<Rightarrow> bytes" where
  "u64le n = le_bytes 8 (n mod 2 ^ 64)"

definition read_le :: "nat \<Rightarrow> bytes \<Rightarrow> nat \<Rightarrow> int res" where
  "read_le k buf off =
     (if off + k \<le> length buf then Inr (of_le (take k (drop off buf))) else Inl RangeError)"

definition readU16le :: "bytes \<Rightarrow> nat \<Rightarrow> int res" where
  "readU16le buf off = read_le 2 buf off"

definition readU32le :: "bytes \<Rightarrow> nat \<Rightarrow> int res" where
  "readU32le buf off = read_le 4 buf off"

definition readU64le :: "bytes \<Rightarrow> nat \<Rightarrow> int res" where
  "readU64le buf off = read_le 8 buf off"

text \<open>
  \<open>concatBytes\<close> copies the parts one after another into an array of the total length. The
  loop carries the output array and the write offset.
\<close>

definition byte_set :: "bytes \<Rightarrow> bytes \<Rightarrow> nat \<Rightarrow> bytes" where
  "byte_set out p off = take off out @ p @ drop (off + length p) out"

fun concat_loop :: "bytes \<Rightarrow> nat \<Rightarrow> bytes list \<Rightarrow> bytes" where
  "concat_loop out off [] = out"
| "concat_loop out off (p # ps) = concat_loop (byte_set out p off) (off + length p) ps"

definition concatBytes :: "bytes list \<Rightarrow> bytes" where
  "concatBytes parts = concat_loop (replicate (sum_list (map length parts)) 0) 0 parts"

definition u8 :: "jsnum \<Rightarrow> bytes" where
  "u8 n = le_bytes 1 (to_uint 8 n)"

definition ascii :: "string \<Rightarrow> bytes" where
  "ascii str = map (\<lambda>c. word_of_int (of_char c AND 255)) str"

lemma length_le_bytes [byte_simps, simp]: "length (le_bytes k n) = k"
  by (induction k arbitrary: n) auto

lemma length_u16le [byte_simps, simp]: "length (u16le n) = 2"
  by (simp add: u16le_def)

lemma length_u32le [byte_simps, simp]: "length (u32le n) = 4"
  by (simp add: u32le_def)

lemma length_u64le [byte_simps, simp]: "length (u64le n) = 8"
  by (simp add: u64le_def)

lemma length_u8 [byte_simps, simp]: "length (u8 n) = 1"
  by (simp add: u8_def)

lemma length_ascii [byte_simps, simp]: "length (ascii s) = length s"
  by (simp add: ascii_def)

lemma of_le_le_bytes: "of_le (le_bytes k n) = n mod 256 ^ k"
proof (induction k arbitrary: n)
  case (Suc k)
  have "uint (word_of_int n :: byte) = n mod 256"
    by (simp add: uint_word_of_int)
  moreover have "n mod 256 + 256 * (n div 256 mod 256 ^ k) = n mod (256 * 256 ^ k)"
    by (simp add: mod_mult2_eq' zmod_zmult2_eq)
  ultimately show ?case by (simp add: Suc)
qed simp

lemma of_le_nonneg: "0 \<le> of_le bs"
  by (induction bs) auto

lemma of_le_bound: "of_le bs < 256 ^ length bs"
proof (induction bs)
  case (Cons b bs)
  have "uint b < 256" using uint_lt2p [of b] by simp
  with Cons show ?case by simp
qed simp

lemma le_bytes_of_le: "le_bytes (length bs) (of_le bs) = bs"
proof (induction bs)
  case (Cons b bs)
  have b: "0 \<le> uint b" "uint b < 256" using uint_lt2p [of b] by simp_all
  have "word_of_int (uint b + 256 * of_le bs) = (b :: byte)"
  proof -
    have "word_of_int (uint b + 256 * of_le bs) =
        word_of_int (uint b) + (word_of_int 256 :: byte) * word_of_int (of_le bs)"
      by (simp only: of_int_add of_int_mult)
    also have "(word_of_int 256 :: byte) = 0" by simp
    finally show ?thesis by simp
  qed
  moreover have "(uint b + 256 * of_le bs) div 256 = of_le bs" using b by simp
  ultimately show ?case using Cons by simp
qed simp


lemma le_bytes_inj:
  "0 \<le> m \<Longrightarrow> m < 256 ^ k \<Longrightarrow> 0 \<le> n \<Longrightarrow> n < 256 ^ k \<Longrightarrow> le_bytes k m = le_bytes k n \<Longrightarrow> m = n"
  by (metis mod_pos_pos_trivial of_le_le_bytes)

lemma to_uint_jint [simp]: "to_uint w (jint i) = i mod 2 ^ w"
  by (simp add: to_uint_def)

text \<open>Reading a field: its position in a concatenation decides what is read.\<close>

lemma read_le_bytes:
  assumes "length p = off" "length f = k"
  shows "read_le k (p @ f @ r) off = Inr (of_le f)"
  using assms by (simp add: read_le_def)

lemma read_le_Inr_bound: "read_le k buf off = Inr v \<Longrightarrow> 0 \<le> v \<and> v < 256 ^ k"
  using of_le_nonneg of_le_bound [of "take k (drop off buf)"]
  by (auto simp: read_le_def split: if_splits)

lemma read_le_Inl: "read_le k buf off = Inl e \<longleftrightarrow> length buf < off + k \<and> e = RangeError"
  by (auto simp: read_le_def)

lemma of_le_u16le [simp]: "of_le (u16le (jint i)) = i mod 2 ^ 16"
  by (simp add: u16le_def of_le_le_bytes)

lemma of_le_u32le [simp]: "of_le (u32le (jint i)) = i mod 2 ^ 32"
  by (simp add: u32le_def of_le_le_bytes)

lemma of_le_u64le [simp]: "of_le (u64le i) = i mod 2 ^ 64"
  by (simp add: u64le_def of_le_le_bytes)

lemma u16le_of_le: "length bs = 2 \<Longrightarrow> u16le (jint (of_le bs)) = bs"
  using of_le_bound [of bs] of_le_nonneg [of bs] le_bytes_of_le [of bs]
  by (simp add: u16le_def)

lemma u32le_of_le: "length bs = 4 \<Longrightarrow> u32le (jint (of_le bs)) = bs"
  using of_le_bound [of bs] of_le_nonneg [of bs] le_bytes_of_le [of bs]
  by (simp add: u32le_def)

lemma u64le_of_le: "length bs = 8 \<Longrightarrow> u64le (of_le bs) = bs"
  using of_le_bound [of bs] of_le_nonneg [of bs] le_bytes_of_le [of bs]
  by (simp add: u64le_def)

lemma u8_jint: "u8 (jint i) = [word_of_int i]"
proof -
  have "(word_of_int (i mod 256) :: byte) = word_of_int i"
    by (rule word_uint_eqI) (simp add: uint_word_of_int)
  then show ?thesis by (simp add: u8_def)
qed

lemma uint_u8: "0 \<le> i \<Longrightarrow> i < 256 \<Longrightarrow> uint (word_of_int i :: byte) = i"
  by (simp add: uint_word_of_int)

lemma unat_u8: "0 \<le> i \<Longrightarrow> i < 256 \<Longrightarrow> unat (word_of_int i :: byte) = nat i"
  using uint_u8 [of i] by (simp flip: nat_uint_eq)

subsection \<open>concatBytes\<close>

lemma concat_loop_eq:
  "length pre = off \<Longrightarrow> length suf = sum_list (map length ps) \<Longrightarrow>
     concat_loop (pre @ suf) off ps = pre @ concat ps"
proof (induction ps arbitrary: pre suf off)
  case (Cons p ps)
  then have "length p \<le> length suf" by simp
  then have "byte_set (pre @ suf) p off = (pre @ p) @ drop (length p) suf"
    using Cons.prems by (simp add: byte_set_def)
  moreover have "concat_loop ((pre @ p) @ drop (length p) suf) (off + length p) ps = (pre @ p) @ concat ps"
    using Cons.prems by (intro Cons.IH) auto
  ultimately show ?case by simp
qed simp

lemma concatBytes_concat [simp]: "concatBytes parts = concat parts"
  using concat_loop_eq [of "[]" 0 "replicate (sum_list (map length parts)) 0" parts]
  by (simp add: concatBytes_def)

subsection \<open>ASCII\<close>

lemma and_255: "(k :: int) AND 255 = k mod 256"
  using take_bit_eq_mask [of 8 k] by (simp add: take_bit_eq_mod mask_eq_exp_minus_1)

lemma of_char_bounds: "0 \<le> (of_char c :: int)" "(of_char c :: int) < 256"
proof -
  have "(of_char c :: int) = of_char c mod 256" by simp
  moreover have "0 \<le> (of_char c :: int) mod 256" "(of_char c :: int) mod 256 < 256"
    by (rule pos_mod_sign pos_mod_bound; simp)+
  ultimately show "0 \<le> (of_char c :: int)" "(of_char c :: int) < 256" by metis+
qed

lemma ascii_of_char: "ascii s = map (\<lambda>c. word_of_int (of_char c)) s"
  by (simp add: ascii_def and_255 of_char_bounds)

lemma uint_ascii: "map uint (ascii s) = map of_char s"
  by (simp add: ascii_of_char uint_word_of_int of_char_bounds)

lemma ascii_inj: "ascii s = ascii t \<longleftrightarrow> s = t"
proof
  assume "ascii s = ascii t"
  then have "map (of_char :: char \<Rightarrow> int) s = map of_char t"
    by (metis uint_ascii)
  moreover have "inj (of_char :: char \<Rightarrow> int)"
    by (auto intro: injI)
  ultimately show "s = t" by simp
qed simp

subsection \<open>Hexadecimal\<close>

text \<open>\<open>toString(16)\<close> of a byte, padded to two digits.\<close>

definition hex_digit :: "int \<Rightarrow> char" where
  "hex_digit d = (if d < 10 then char_of (nat (48 + d)) else char_of (nat (87 + d)))"

definition to_string16 :: "byte \<Rightarrow> string" where
  "to_string16 b =
     (if uint b < 16 then [hex_digit (uint b)] else [hex_digit (uint b div 16), hex_digit (uint b mod 16)])"

definition pad_start :: "nat \<Rightarrow> char \<Rightarrow> string \<Rightarrow> string" where
  "pad_start n c s = replicate (n - length s) c @ s"

definition hex :: "bytes \<Rightarrow> string" where
  "hex bs = concat (map (\<lambda>b. pad_start 2 (CHR ''0'') (to_string16 b)) bs)"

text \<open>
  \<open>parseInt(s, 16)\<close>: leading white space, an optional sign and an optional \<open>0x\<close> are
  skipped, then the longest run of hexadecimal digits is read; without a digit it is \<open>NaN\<close>.
\<close>

definition hex_value :: "char \<Rightarrow> int option" where
  "hex_value c =
     (let n = (of_char c :: nat)
      in if 48 \<le> n \<and> n \<le> 57 then Some (int n - 48)
         else if 97 \<le> n \<and> n \<le> 102 then Some (int n - 87)
         else if 65 \<le> n \<and> n \<le> 70 then Some (int n - 55) else None)"

fun hex_digits :: "int \<Rightarrow> string \<Rightarrow> int" where
  "hex_digits acc [] = acc"
| "hex_digits acc (c # cs) =
     (case hex_value c of None \<Rightarrow> acc | Some d \<Rightarrow> hex_digits (16 * acc + d) cs)"

definition parse_int16 :: "string \<Rightarrow> jsnum" where
  "parse_int16 s =
     (let t = dropWhile is_ws s;
          neg = (t \<noteq> [] \<and> hd t = CHR ''-'');
          u = (if t \<noteq> [] \<and> (hd t = CHR ''-'' \<or> hd t = CHR ''+'') then tl t else t);
          v = (if starts_with u ''0x'' \<or> starts_with u ''0X'' then drop 2 u else u)
      in if v = [] \<or> hex_value (hd v) = None then NaN
         else jint (if neg then - hex_digits 0 v else hex_digits 0 v))"

text \<open>The loop of \<open>fromHex\<close>: two characters a byte; storing \<open>NaN\<close> in a byte array stores 0.\<close>

fun hex_pairs :: "string \<Rightarrow> bytes" where
  "hex_pairs (a # b # cs) = u8 (parse_int16 [a, b]) @ hex_pairs cs"
| "hex_pairs _ = []"

definition fromHex :: "string \<Rightarrow> bytes res" where
  "fromHex hexStr =
     (let s = (if starts_with hexStr ''0x'' then drop 2 hexStr else hexStr)
      in if length s mod 2 \<noteq> 0 then Inl (JsError ''hex length must be even'') else Inr (hex_pairs s))"

lemma of_char_hex_digit:
  "0 \<le> d \<Longrightarrow> d < 16 \<Longrightarrow>
     (of_char (hex_digit d) :: nat) = nat (if d < 10 then 48 + d else 87 + d)"
  by (simp add: hex_digit_def)

lemma hex_value_digit: "0 \<le> d \<Longrightarrow> d < 16 \<Longrightarrow> hex_value (hex_digit d) = Some d"
  by (auto simp: hex_value_def of_char_hex_digit Let_def nat_less_iff nat_le_iff le_nat_iff)

lemma hex_digit_facts:
  assumes "0 \<le> d" "d < 16"
  shows "\<not> is_ws (hex_digit d)" "hex_digit d \<noteq> CHR ''-''" "hex_digit d \<noteq> CHR ''+''"
    "hex_digit d \<noteq> CHR ''x''" "hex_digit d \<noteq> CHR ''X''"
proof -
  let ?n = "of_char (hex_digit d) :: nat"
  have n: "?n = nat (if d < 10 then 48 + d else 87 + d)"
    using assms by (rule of_char_hex_digit)
  then have r: "48 \<le> ?n \<and> ?n \<le> 57 \<or> 97 \<le> ?n \<and> ?n \<le> 102"
    using assms by (auto split: if_splits)
  show "\<not> is_ws (hex_digit d)" using r unfolding is_ws_def by auto
  show "hex_digit d \<noteq> CHR ''-''" "hex_digit d \<noteq> CHR ''+''" "hex_digit d \<noteq> CHR ''x''" "hex_digit d \<noteq> CHR ''X''"
    using r by auto
qed

definition hex2 :: "byte \<Rightarrow> string" where
  "hex2 b = [hex_digit (uint b div 16), hex_digit (uint b mod 16)]"

lemma hex_digit_0: "hex_digit 0 = CHR ''0''"
  by code_simp

lemma hex_eq: "hex bs = concat (map hex2 bs)"
proof -
  have "pad_start 2 (CHR ''0'') (to_string16 b) = hex2 b" for b
    by (simp add: pad_start_def to_string16_def hex2_def hex_digit_0 numeral_2_eq_2)
  then show ?thesis by (simp add: hex_def)
qed

lemma byte_nibbles: "0 \<le> uint (b :: byte) div 16" "uint (b :: byte) div 16 < 16"
    "0 \<le> uint (b :: byte) mod 16" "uint (b :: byte) mod 16 < 16"
  using uint_lt2p [of b] by (simp_all add: pos_imp_zdiv_nonneg_iff div_int_pos_iff)

lemma parse_int16_hex2: "parse_int16 (hex2 b) = jint (uint b)"
proof -
  note f1 = hex_digit_facts [OF byte_nibbles(1,2) [of b]]
  note f2 = hex_digit_facts [OF byte_nibbles(3,4) [of b]]
  have v: "hex_value (hex_digit (uint b div 16)) = Some (uint b div 16)"
    "hex_value (hex_digit (uint b mod 16)) = Some (uint b mod 16)"
    by (simp_all add: hex_value_digit byte_nibbles)
  have "16 * (uint b div 16) + uint b mod 16 = uint b" by simp
  with f1 f2 v show ?thesis
    by (simp add: parse_int16_def hex2_def Let_def starts_with_def)
qed

text \<open>A nonempty hexadecimal string of an even number of digits never starts with \<open>0x\<close>.\<close>

lemma hex_not_0x: "\<not> starts_with (hex bs) ''0x''"
  by (cases bs) (auto simp: hex_eq hex2_def starts_with_def hex_digit_facts byte_nibbles)

lemma length_hex: "length (hex bs) = 2 * length bs"
  by (induction bs) (auto simp: hex_eq hex2_def)

lemma hex_pairs_hex: "hex_pairs (hex bs) = bs"
proof (induction bs)
  case (Cons b bs)
  have "u8 (parse_int16 (hex2 b)) = [b]"
    by (simp only: parse_int16_hex2 u8_jint word_of_int_uint)
  then have "u8 (parse_int16 [hex_digit (uint b div 16), hex_digit (uint b mod 16)]) = [b]"
    by (simp add: hex2_def)
  with Cons show ?case by (simp add: hex_eq hex2_def)
qed (simp add: hex_eq)

lemma fromHex_hex: "fromHex (hex bs) = Inr bs"
  by (simp add: fromHex_def hex_not_0x length_hex hex_pairs_hex)

lemma fromHex_0x_hex: "fromHex (''0x'' @ hex bs) = Inr bs"
  by (simp add: fromHex_def starts_with_def length_hex hex_pairs_hex)

lemma fromHex_error: "fromHex s = Inl e \<Longrightarrow> odd (length s)"
  by (auto simp: fromHex_def Let_def starts_with_def mod2_eq_if split: if_splits)

lemma hex_chars: "list_all (\<lambda>c. hex_value c \<noteq> None) (hex bs)"
  by (induction bs) (auto simp: hex_eq hex2_def hex_value_digit byte_nibbles)

lemma hex_eq_Nil [simp]: "hex bs = [] \<longleftrightarrow> bs = []"
  using length_hex [of bs] by (metis length_0_conv mult_eq_0_iff zero_neq_numeral)

end
