(* ===== verification/Crypto.thy ===== *)
theory Crypto
  imports Bytes
begin

section \<open>Signatures (core/src/crypto\_ed25519.ts)\<close>

text \<open>
  The curve arithmetic is the package \<open>@noble/ed25519\<close>, which is not part of the repository: its
  three functions are the fields of a record that every definition using them takes as an
  argument. \<open>ed25519_laws\<close> is what the package documents: keys have 32 bytes, signatures 64,
  and a signature verifies under the key of the seed that made it.
\<close>

record ed25519 =
  getPublicKey :: "bytes \<Rightarrow> bytes"
  sign_raw :: "bytes \<Rightarrow> bytes \<Rightarrow> bytes"
  verify_raw :: "bytes \<Rightarrow> bytes \<Rightarrow> bytes \<Rightarrow> bool"

definition ed25519_laws :: "ed25519 \<Rightarrow> bool" where
  "ed25519_laws E \<longleftrightarrow>
     (\<forall>seed. length seed = 32 \<longrightarrow> length (getPublicKey E seed) = 32) \<and>
     (\<forall>seed m. length seed = 32 \<longrightarrow> length (sign_raw E m seed) = 64) \<and>
     (\<forall>seed m. length seed = 32 \<longrightarrow> verify_raw E (sign_raw E m seed) m (getPublicKey E seed))"

definition ed25519KeypairFromSeed :: "ed25519 \<Rightarrow> bytes \<Rightarrow> (bytes \<times> bytes) res" where
  "ed25519KeypairFromSeed E seed32 =
     (if length seed32 \<noteq> 32 then throw ''seed must be 32 bytes''
      else Inr (getPublicKey E seed32, seed32))"

definition ed25519Sign :: "ed25519 \<Rightarrow> bytes \<Rightarrow> bytes \<Rightarrow> bytes res" where
  "ed25519Sign E privSeed32 payload =
     (if length privSeed32 \<noteq> 32 then throw ''priv seed must be 32 bytes''
      else Inr (sign_raw E payload privSeed32))"

definition ed25519Verify :: "ed25519 \<Rightarrow> bytes \<Rightarrow> bytes \<Rightarrow> bytes \<Rightarrow> bool res" where
  "ed25519Verify E pub payload sig =
     (if length pub \<noteq> 32 then throw ''pub must be 32 bytes''
      else if length sig \<noteq> 64 then throw ''sig must be 64 bytes''
      else Inr (verify_raw E sig payload pub))"

lemma sign_verifies:
  assumes "ed25519_laws E" "ed25519KeypairFromSeed E seed = Inr (pub, priv)"
    "ed25519Sign E priv m = Inr sig"
  shows "ed25519Verify E pub m sig = Inr True" and "length pub = 32" and "length sig = 64"
  using assms
  by (auto simp: ed25519_laws_def ed25519KeypairFromSeed_def ed25519Sign_def ed25519Verify_def
      split: if_splits)

text \<open>A scheme that satisfies the laws, for the instances of statements that assume them: the key is
  the seed and a signature the seed followed by a checksum block.\<close>

definition toy_ed25519 :: ed25519 where
  "toy_ed25519 = \<lparr>getPublicKey = (\<lambda>s. s),
     sign_raw = (\<lambda>m s. s @ replicate 32 (of_nat (length m))),
     verify_raw = (\<lambda>sig m p. sig = p @ replicate 32 (of_nat (length m)))\<rparr>"

lemma toy_ed25519_laws: "ed25519_laws toy_ed25519"
  by (simp add: ed25519_laws_def toy_ed25519_def)

end
