(* ===== verification/Unicode.thy ===== *)
theory Unicode
  imports Bytes
begin

section \<open>TextEncoder and TextDecoder\<close>

text \<open>
  Unicode text where the code encodes or decodes it: a string is its list of UTF-16 code units.
  \<open>TextEncoder.encode\<close> first turns the units into scalar values (a lone surrogate becomes
  U+FFFD) and writes each as UTF-8. \<open>TextDecoder.decode\<close> drops a leading byte order mark and
  runs the decoder of the Encoding Standard, which answers U+FFFD for a malformed sequence and
  reads the offending byte again.
\<close>

type_synonym ustr = "nat list"

definition high_surrogate :: "nat \<Rightarrow> bool" where
  "high_surrogate u \<longleftrightarrow> 0xD800 \<le> u \<and> u \<le> 0xDBFF"

definition low_surrogate :: "nat \<Rightarrow> bool" where
  "low_surrogate u \<longleftrightarrow> 0xDC00 \<le> u \<and> u \<le> 0xDFFF"

definition scalar_unit :: "nat \<Rightarrow> nat" where
  "scalar_unit u = (if high_surrogate u \<or> low_surrogate u then 0xFFFD else u)"

fun scalars :: "ustr \<Rightarrow> nat list" where
  "scalars [] = []"
| "scalars [u] = [scalar_unit u]"
| "scalars (u # v # us) =
     (if high_surrogate u \<and> low_surrogate v
      then (0x10000 + (u - 0xD800) * 0x400 + (v - 0xDC00)) # scalars us
      else scalar_unit u # scalars (v # us))"

definition units :: "nat \<Rightarrow> ustr" where
  "units c = (if c < 0x10000 then [c]
              else [0xD800 + (c - 0x10000) div 0x400, 0xDC00 + (c - 0x10000) mod 0x400])"

definition utf8 :: "nat \<Rightarrow> nat list" where
  "utf8 c =
     (if c < 0x80 then [c]
      else if c < 0x800 then [0xC0 + c div 64, 0x80 + c mod 64]
      else if c < 0x10000 then [0xE0 + c div 4096, 0x80 + c div 64 mod 64, 0x80 + c mod 64]
      else [0xF0 + c div 262144, 0x80 + c div 4096 mod 64, 0x80 + c div 64 mod 64, 0x80 + c mod 64])"

definition text_encode :: "ustr \<Rightarrow> bytes" where
  "text_encode s = map word_of_nat (concat (map utf8 (scalars s)))"

text \<open>
  The decoder: \<open>needed\<close> continuation bytes are missing of the code point collected in
  \<open>cp\<close>, and the next one must lie between \<open>lo\<close> and \<open>hi\<close>.
\<close>

function utf8_loop :: "nat \<Rightarrow> nat \<Rightarrow> nat \<Rightarrow> nat \<Rightarrow> nat list \<Rightarrow> nat list" where
  "utf8_loop needed cp lo hi [] = (if needed = 0 then [] else [0xFFFD])"
| "utf8_loop needed cp lo hi (b # bs) =
     (if needed = 0 then
        (if b < 0x80 then b # utf8_loop 0 0 0x80 0xBF bs
         else if 0xC2 \<le> b \<and> b \<le> 0xDF then utf8_loop 1 (b - 0xC0) 0x80 0xBF bs
         else if 0xE0 \<le> b \<and> b \<le> 0xEF then
           utf8_loop 2 (b - 0xE0) (if b = 0xE0 then 0xA0 else 0x80) (if b = 0xED then 0x9F else 0xBF) bs
         else if 0xF0 \<le> b \<and> b \<le> 0xF4 then
           utf8_loop 3 (b - 0xF0) (if b = 0xF0 then 0x90 else 0x80) (if b = 0xF4 then 0x8F else 0xBF) bs
         else 0xFFFD # utf8_loop 0 0 0x80 0xBF bs)
      else if lo \<le> b \<and> b \<le> hi then
        (if needed = 1 then (cp * 64 + (b - 0x80)) # utf8_loop 0 0 0x80 0xBF bs
         else utf8_loop (needed - 1) (cp * 64 + (b - 0x80)) 0x80 0xBF bs)
      else 0xFFFD # utf8_loop 0 0 0x80 0xBF (b # bs))"
  by pat_completeness auto
termination
  by (relation "measure (\<lambda>(needed, cp, lo, hi, bs). 2 * length bs + (if needed = 0 then 0 else 1))") auto

definition utf8_decode :: "nat list \<Rightarrow> nat list" where
  "utf8_decode bs = utf8_loop 0 0 0x80 0xBF bs"

definition text_decode :: "bytes \<Rightarrow> ustr" where
  "text_decode bs =
     (let ns = map unat bs;
          body = (if take 3 ns = [0xEF, 0xBB, 0xBF] then drop 3 ns else ns)
      in concat (map units (utf8_decode body)))"

subsection \<open>UTF-8 is decoded to what was encoded\<close>

definition is_scalar :: "nat \<Rightarrow> bool" where
  "is_scalar c \<longleftrightarrow> c < 0xD800 \<or> (0xE000 \<le> c \<and> c < 0x110000)"

declare utf8_loop.simps [simp del]

lemma utf8_loop_start:
  assumes "is_scalar c"
  shows "utf8_loop 0 0 0x80 0xBF (utf8 c @ rest) = c # utf8_loop 0 0 0x80 0xBF rest"
proof -
  define w x y z where "w = c div 262144" and "x = c div 4096 mod 64"
    and "y = c div 64 mod 64" and "z = c mod 64"
  have "c div 4096 = c div 64 div 64" "c div 262144 = c div 4096 div 64"
    using div_mult2_eq [of c 64 64] div_mult2_eq [of c 4096 64] by simp_all
  then have e: "c = c div 64 * 64 + z" "c div 64 = c div 4096 * 64 + y" "c div 4096 = w * 64 + x"
    unfolding w_def x_def y_def z_def by (metis div_mult_mod_eq)+
  then have c: "c = w * 262144 + x * 4096 + y * 64 + z" by linarith
  have b: "x < 64" "y < 64" "z < 64" by (simp_all add: x_def y_def z_def)
  have s: "c < 55296 \<or> (57344 \<le> c \<and> c < 1114112)"
    using assms by (simp add: is_scalar_def)
  consider "c < 0x80" | "0x80 \<le> c" "c < 0x800" | "0x800 \<le> c" "c < 0x10000" | "0x10000 \<le> c"
    by linarith
  then show ?thesis
  proof cases
    case 1
    then show ?thesis by (simp add: utf8_def utf8_loop.simps)
  next
    case 2
    then have d: "w = 0" "x = 0" using c by linarith+
    with e have y: "c div 64 = y" by simp
    then have u: "utf8 c = [0xC0 + y, 0x80 + z]"
      using 2 by (simp add: utf8_def flip: z_def)
    have "2 \<le> y" "y < 32" using 2 c b d by linarith+
    then have "utf8_loop 0 0 0x80 0xBF ([0xC0 + y, 0x80 + z] @ rest)
        = (y * 64 + z) # utf8_loop 0 0 0x80 0xBF rest"
      using b by (simp add: utf8_loop.simps)
    moreover have "y * 64 + z = c" using c d by simp
    ultimately show ?thesis by (simp only: u)
  next
    case 3
    then have d: "w = 0" using c by linarith
    with e have x: "c div 4096 = x" by simp
    then have u: "utf8 c = [0xE0 + x, 0x80 + y, 0x80 + z]"
      using 3 by (simp add: utf8_def flip: z_def y_def)
    have "x < 16" "x = 0 \<Longrightarrow> 32 \<le> y" "x = 13 \<Longrightarrow> y < 32"
      using 3 c b d s by linarith+
    then have "utf8_loop 0 0 0x80 0xBF ([0xE0 + x, 0x80 + y, 0x80 + z] @ rest)
        = ((x * 64 + y) * 64 + z) # utf8_loop 0 0 0x80 0xBF rest"
      using b by (auto simp: utf8_loop.simps)
    moreover have "(x * 64 + y) * 64 + z = c" using c d by simp
    ultimately show ?thesis by (simp only: u)
  next
    case 4
    then have u: "utf8 c = [0xF0 + w, 0x80 + x, 0x80 + y, 0x80 + z]"
      by (simp add: utf8_def flip: z_def y_def x_def w_def)
    have "w < 5" "w = 0 \<Longrightarrow> 16 \<le> x" "w = 4 \<Longrightarrow> x < 16" using 4 c b s by linarith+
    then have "utf8_loop 0 0 0x80 0xBF ([0xF0 + w, 0x80 + x, 0x80 + y, 0x80 + z] @ rest)
        = (((w * 64 + x) * 64 + y) * 64 + z) # utf8_loop 0 0 0x80 0xBF rest"
      using b by (auto simp: utf8_loop.simps)
    moreover have "((w * 64 + x) * 64 + y) * 64 + z = c" using c by simp
    ultimately show ?thesis by (simp only: u)
  qed
qed

lemma utf8_decode_encode:
  "list_all is_scalar cs \<Longrightarrow> utf8_decode (concat (map utf8 cs)) = cs"
  unfolding utf8_decode_def
  by (induction cs) (auto simp: utf8_loop_start utf8_loop.simps(1))

lemma utf8_bound: "is_scalar c \<Longrightarrow> b \<in> set (utf8 c) \<Longrightarrow> b < 256"
  by (auto simp: utf8_def is_scalar_def less_mult_imp_div_less split: if_splits)

lemma utf8_ne [simp]: "utf8 c \<noteq> []"
  by (simp add: utf8_def)

text \<open>Text without lone surrogates (\<open>String.prototype.isWellFormed\<close>).\<close>

fun well_formed :: "ustr \<Rightarrow> bool" where
  "well_formed [] = True"
| "well_formed [u] = (\<not> high_surrogate u \<and> \<not> low_surrogate u \<and> u < 0x10000)"
| "well_formed (u # v # us) =
     (if high_surrogate u \<and> low_surrogate v then well_formed us
      else \<not> high_surrogate u \<and> \<not> low_surrogate u \<and> u < 0x10000 \<and> well_formed (v # us))"

lemma units_pair:
  assumes "high_surrogate u" "low_surrogate v"
  shows "units (0x10000 + (u - 0xD800) * 0x400 + (v - 0xDC00)) = [u, v]"
proof -
  obtain a where u: "u = 0xD800 + a" "a < 1024"
    using assms(1) by (auto simp: high_surrogate_def dest: le_Suc_ex)
  obtain b where v: "v = 0xDC00 + b" "b < 1024"
    using assms(2) by (auto simp: low_surrogate_def dest: le_Suc_ex)
  have "(a * 1024 + b) div 1024 = a" "(a * 1024 + b) mod 1024 = b"
    using v(2) by simp_all
  with u v show ?thesis by (simp add: units_def)
qed

lemma units_scalar_unit: "\<not> high_surrogate u \<Longrightarrow> \<not> low_surrogate u \<Longrightarrow> u < 0x10000 \<Longrightarrow> units (scalar_unit u) = [u]"
  by (simp add: scalar_unit_def units_def)

lemma units_scalars: "well_formed s \<Longrightarrow> concat (map units (scalars s)) = s"
proof (induction s rule: scalars.induct)
  case (3 u v us)
  then show ?case
    using units_pair [of u v] units_scalar_unit [of u]
    by (cases "high_surrogate u \<and> low_surrogate v") (auto simp del: mult_Suc)
qed (auto simp: units_scalar_unit)

lemma scalars_is_scalar: "well_formed s \<Longrightarrow> list_all is_scalar (scalars s)"
  by (induction s rule: scalars.induct)
    (auto simp: scalar_unit_def is_scalar_def high_surrogate_def low_surrogate_def split: if_splits)

lemma utf8_bom:
  assumes "is_scalar c" "take 3 (utf8 c @ rest) = [0xEF, 0xBB, 0xBF]" "0x80 \<le> c"
  shows "c = 0xFEFF"
proof -
  consider "c < 0x800" | "0x800 \<le> c" "c < 0x10000" | "0x10000 \<le> c" by linarith
  then show ?thesis
  proof cases
    case 1
    then have "c div 64 < 32" by (simp add: less_mult_imp_div_less)
    moreover have "c div 64 = 47" using 1 assms(2,3) by (simp add: utf8_def numeral_3_eq_3)
    ultimately show ?thesis by simp
  next
    case 2
    then have d: "c div 4096 = 15" "c div 64 mod 64 = 59" "c mod 64 = 63"
      using assms(2) by (simp_all add: utf8_def numeral_3_eq_3)
    have "c div 4096 = c div 64 div 64" using div_mult2_eq [of c 64 64] by simp
    with d have "c div 64 = 15 * 64 + 59" by (metis div_mult_mod_eq)
    with d(3) have "c = (15 * 64 + 59) * 64 + 63" by (metis div_mult_mod_eq)
    then show ?thesis by simp
  next
    case 3
    then show ?thesis using assms(2) by (simp add: utf8_def numeral_3_eq_3)
  qed
qed

lemma text_decode_encode:
  assumes "well_formed s" "s = [] \<or> hd s \<noteq> 0xFEFF"
  shows "text_decode (text_encode s) = s"
proof -
  let ?ns = "concat (map utf8 (scalars s))"
  have sc: "list_all is_scalar (scalars s)" by (rule scalars_is_scalar [OF assms(1)])
  have ns: "map unat (text_encode s) = ?ns"
  proof -
    have "(unat \<circ> (word_of_nat :: nat \<Rightarrow> byte)) n = n" if "n \<in> set ?ns" for n
      using that sc utf8_bound by (fastforce simp: unat_of_nat list_all_iff)
    then have "map (unat \<circ> (word_of_nat :: nat \<Rightarrow> byte)) ?ns = ?ns" by (rule map_idI)
    then show ?thesis by (simp only: text_encode_def map_map)
  qed
  have "take 3 ?ns \<noteq> [0xEF, 0xBB, 0xBF]"
  proof
    assume bom: "take 3 ?ns = [0xEF, 0xBB, 0xBF]"
    then obtain c cs where cs: "scalars s = c # cs" by (cases "scalars s") auto
    then have "c \<ge> 0x80" using bom by (auto simp: utf8_def numeral_3_eq_3 split: if_splits)
    then have "c = 0xFEFF" using sc cs bom by (intro utf8_bom [of c]) auto
    then have "hd s = 0xFEFF"
      using units_scalars [OF assms(1)] cs by (auto simp: units_def)
    with cs assms(2) show False by auto
  qed
  then show ?thesis
    by (simp add: text_decode_def ns utf8_decode_encode [OF sc] units_scalars [OF assms(1)])
qed

lemma text_encode_eq_Nil [simp]: "text_encode s = [] \<longleftrightarrow> s = []"
  by (cases s rule: scalars.cases) (auto simp: text_encode_def)

end
