(* ===== verification/Codec.thy ===== *)
theory Codec
  imports Bytes
begin

section \<open>Interface of the binary formats\<close>

text \<open>
  Every message, record and packet of the protocol is written by an \<open>encode...\<close> function and
  read back by a \<open>decode...\<close> function, either of which may throw. \<open>codec\<close> states what
  the rest of the program relies on: a well-formed value is encoded, and decoding returns it.
  \<open>strict_codec\<close> adds that a decoder accepts nothing but encodings, so a value has exactly one
  byte string; formats that ignore reserved bytes are codecs and not strict.
\<close>

locale codec =
  fixes enc :: "'a \<Rightarrow> bytes res"
    and dec :: "bytes \<Rightarrow> 'a res"
    and wf :: "'a \<Rightarrow> bool"
  assumes enc_dec: "wf x \<Longrightarrow> \<exists>bs. enc x = Inr bs \<and> dec bs = Inr x"
begin

lemma roundtrip: "wf x \<Longrightarrow> rbind (enc x) dec = Inr x"
  using enc_dec by fastforce

lemma encodes: "wf x \<Longrightarrow> \<exists>bs. enc x = Inr bs"
  using enc_dec by blast

lemma decodes: "wf x \<Longrightarrow> enc x = Inr bs \<Longrightarrow> dec bs = Inr x"
  using enc_dec by fastforce

lemma enc_inj: "wf x \<Longrightarrow> wf y \<Longrightarrow> enc x = enc y \<Longrightarrow> x = y"
  by (metis enc_dec old.sum.inject(2))

end

locale strict_codec = codec +
  assumes dec_enc: "dec bs = Inr x \<Longrightarrow> wf x \<and> enc x = Inr bs"
begin

lemma dec_iff: "dec bs = Inr x \<longleftrightarrow> wf x \<and> enc x = Inr bs"
  using dec_enc decodes by blast

lemma dec_inj: "dec bs = Inr x \<Longrightarrow> dec cs = Inr x \<Longrightarrow> bs = cs"
  by (metis dec_enc old.sum.inject(2))

lemma dec_error: "(\<And>x. wf x \<Longrightarrow> enc x \<noteq> Inr bs) \<Longrightarrow> \<exists>e. dec bs = Inl e"
  by (metis dec_enc sum.exhaust)

end

subsection \<open>Taking fixed-width fields off a byte string\<close>

lemma take_append_exact: "length f = k \<Longrightarrow> take k (f @ r) = f"
  by simp

lemma drop_append_exact: "length f = k \<Longrightarrow> drop k (f @ r) = r"
  by simp

text \<open>Reading at an offset after a known prefix.\<close>

lemma drop_prefix: "length p = off \<Longrightarrow> drop off (p @ r) = r"
  by simp

lemma nth_prefix: "length p = off \<Longrightarrow> (p @ b # r) ! off = b"
  by auto

lemma field_split: "k \<le> length bs \<Longrightarrow> \<exists>f r. bs = f @ r \<and> length f = k"
  by (metis append_take_drop_id length_take min.absorb2)

lemma read_le_take:
  "off + k \<le> length bs \<Longrightarrow> read_le k bs off = Inr (of_le (take k (drop off bs)))"
  by (simp add: read_le_def)

lemmas reader_defs = readU16le_def readU32le_def readU64le_def


text \<open>A \<open>bigint\<close> field survives when it fits 64 bits.\<close>

definition in_u64 :: "int \<Rightarrow> bool" where
  "in_u64 n \<longleftrightarrow> 0 \<le> n \<and> n < 2 ^ 64"

lemma u_literals [simp]:
  "u8 (Fin 1) = [1]" "u8 (Fin 2) = [2]" "of_le (u32le (Fin 0)) = 0" "of_le (u64le 0) = 0"
  using u8_jint [of 1] u8_jint [of 2] of_le_u32le [of 0] of_le_u64le [of 0] by simp_all

lemma in_rangeE: "in_range hi n \<Longrightarrow> (\<And>i. n = jint i \<Longrightarrow> 0 \<le> i \<Longrightarrow> i \<le> hi \<Longrightarrow> P) \<Longrightarrow> P"
  by (auto simp: in_range_iff)

lemma of_le_take_bound: "0 \<le> of_le (take k bs) \<and> of_le (take k bs) < 256 ^ k"
proof -
  have "of_le (take k bs) < 256 ^ length (take k bs)" by (rule of_le_bound)
  also have "(256 :: int) ^ length (take k bs) \<le> 256 ^ k" by (rule power_increasing) auto
  finally show ?thesis using of_le_nonneg by simp
qed

lemma of_le_field_range:
  "in_range 0xffff (jint (of_le (take 2 bs)))" "in_range 0xffffffff (jint (of_le (take 4 bs)))"
  "in_u64 (of_le (take 8 bs))"
  using of_le_take_bound [of 2 bs] of_le_take_bound [of 4 bs] of_le_take_bound [of 8 bs]
  by (simp_all add: in_u64_def)

lemma uint_byte_range: "in_range 0xff (jint (uint (b :: byte)))"
  using uint_lt2p [of b] by simp

lemma uint_byte_bounds: "0 \<le> uint (b :: byte) \<and> uint b < 256"
  using uint_lt2p [of b] by simp

lemma take_drop_join: "take k (drop off bs) @ drop (off + k) bs = drop off bs"
  by (metis append_take_drop_id drop_drop add.commute)

lemma in_u64_mod: "in_u64 n \<Longrightarrow> n mod 18446744073709551616 = n"
  by (simp add: in_u64_def)

end
