(* ===== verification/Receipts.thy ===== *)
theory Receipts
  imports Json Crypto Unicode Codec
begin

section \<open>Signed receipts (core/credits/receipts.ts, core/credits/verify.ts)\<close>

text \<open>
  A node reports its work as a receipt, a JSON object it signs in a canonical form: the keys of every
  object in the order of \<open>localeCompare\<close>. The receipt itself is kept as parsed JSON, in the
  order its properties came in; the envelope has the declared string fields, an absent one being the
  empty string. \<open>Buffer\<close>'s base64, \<open>localeCompare\<close> and the printing of numbers are fields of
  the environment; \<open>base64_laws\<close> and \<open>locale_laws\<close> state what is relied on.
\<close>

record receipt_env =
  re_numstr :: "rat \<Rightarrow> string"
  re_locale :: "string \<Rightarrow> string \<Rightarrow> int"
  re_ed25519 :: ed25519
  re_base64 :: "bytes \<Rightarrow> string"
  re_unbase64 :: "string \<Rightarrow> bytes"

record ReceiptEnvelope =
  en_receipt :: json
  en_signature :: string
  en_public_key :: string

definition utf8_bytes :: "string \<Rightarrow> bytes" where
  "utf8_bytes s = text_encode (map of_char s)"

primrec stableStringify :: "receipt_env \<Rightarrow> json \<Rightarrow> string" where
  "stableStringify env JNull = ''null''"
| "stableStringify env (JBool b) = (if b then ''true'' else ''false'')"
| "stableStringify env (JNum n) = json_num (re_numstr env) n"
| "stableStringify env (JStr s) = json_quote s"
| "stableStringify env (JArr xs) = ''['' @ join '','' (map (stableStringify env) xs) @ '']''"
| "stableStringify env (JObj kvs) =
     ''{'' @ join '','' (map (\<lambda>(k, v). json_quote k @ '':'' @ v)
       (js_sort (\<lambda>a b. re_locale env (fst a) (fst b)) (map (map_prod id (stableStringify env)) kvs))) @ ''}''"

definition receiptMessage :: "receipt_env \<Rightarrow> json \<Rightarrow> string" where
  "receiptMessage env receipt = ''receipt'' @ [CHR 0x0A] @ stableStringify env receipt"

text \<open>\<open>hexToBytes\<close>, stricter than \<open>fromHex\<close>: other characters are refused.\<close>

definition hexToBytes :: "string \<Rightarrow> bytes res" where
  "hexToBytes h =
     (let clean = (if starts_with h ''0x'' then drop 2 h else h) in
      if length clean mod 2 \<noteq> 0 then throw ''hex length must be even''
      else if \<not> list_all (\<lambda>c. hex_value c \<noteq> None) clean then throw ''invalid hex characters''
      else Inr (hex_pairs clean))"

definition signReceipt :: "receipt_env \<Rightarrow> string \<Rightarrow> json \<Rightarrow> string res" where
  "signReceipt env privKeyHex receipt =
     rbind (hexToBytes privKeyHex) (\<lambda>priv.
       rbind (ed25519Sign (re_ed25519 env) priv (utf8_bytes (receiptMessage env receipt))) (\<lambda>sig.
         Inr (re_base64 env sig)))"

definition verifyReceiptSignature :: "receipt_env \<Rightarrow> string \<Rightarrow> json \<Rightarrow> string \<Rightarrow> bool res" where
  "verifyReceiptSignature env pubKeyB64 receipt signatureB64 =
     ed25519Verify (re_ed25519 env) (re_unbase64 env pubKeyB64) (utf8_bytes (receiptMessage env receipt))
       (re_unbase64 env signatureB64)"

definition RECEIPT_TYPES :: "string list" where
  "RECEIPT_TYPES = [''SERVE'', ''VERIFY'', ''STORE'']"

definition validateReceiptShape :: "ReceiptEnvelope \<Rightarrow> string option" where
  "validateReceiptShape e =
     (let r = en_receipt e in
      if \<not> jtruthy (Some r) \<or> en_signature e = [] \<or> en_public_key e = [] then Some ''MISSING_FIELDS''
      else if \<not> jtruthy (jprop r ''type'') \<or> \<not> jtruthy (jprop r ''node_id'') \<or> \<not> jtruthy (jprop r ''ts'')
        then Some ''MISSING_FIELDS''
      else if jprop r ''node_id'' \<noteq> Some (JStr (en_public_key e)) then Some ''NODE_ID_MISMATCH''
      else if jprop r ''type'' \<notin> (\<lambda>t. Some (JStr t)) ` set RECEIPT_TYPES then Some ''UNKNOWN_TYPE''
      else None)"

definition makeEnvelope :: "json \<Rightarrow> string \<Rightarrow> string \<Rightarrow> ReceiptEnvelope" where
  "makeEnvelope receipt signatureB64 publicKeyB64 =
     \<lparr>en_receipt = receipt, en_signature = signatureB64, en_public_key = publicKeyB64\<rparr>"

text \<open>\<open>verifyReceipt\<close> answers an error code, or nothing when the receipt is good.\<close>

definition verifyReceipt :: "receipt_env \<Rightarrow> ReceiptEnvelope \<Rightarrow> string option res" where
  "verifyReceipt env e =
     (case validateReceiptShape e of
        Some err \<Rightarrow> Inr (Some err)
      | None \<Rightarrow> rbind (verifyReceiptSignature env (en_public_key e) (en_receipt e) (en_signature e)) (\<lambda>ok.
          Inr (if ok then None else Some ''INVALID_SIGNATURE'')))"

definition verifyEd25519Message :: "receipt_env \<Rightarrow> string \<Rightarrow> string \<Rightarrow> string \<Rightarrow> bool res" where
  "verifyEd25519Message env pubKeyHex message signatureHex =
     rbind (hexToBytes pubKeyHex) (\<lambda>pub. rbind (hexToBytes signatureHex) (\<lambda>sig.
       ed25519Verify (re_ed25519 env) pub (utf8_bytes message) sig))"

section \<open>Properties of receipts\<close>

subsection \<open>Documented behaviour of the environment\<close>

definition base64_laws :: "receipt_env \<Rightarrow> bool" where
  "base64_laws env \<longleftrightarrow> (\<forall>bs. re_unbase64 env (re_base64 env bs) = bs) \<and>
     (\<forall>bs. re_base64 env bs = [] \<longleftrightarrow> bs = [])"

text \<open>\<open>localeCompare\<close> is an order whose only ties are between equal strings.\<close>

definition locale_laws :: "(string \<Rightarrow> string \<Rightarrow> int) \<Rightarrow> bool" where
  "locale_laws cmp \<longleftrightarrow> comparator_on UNIV cmp \<and> (\<forall>s t. cmp s t \<le> 0 \<longrightarrow> cmp t s \<le> 0 \<longrightarrow> s = t)"

lemma locale_laws_cmp_string: "locale_laws cmp_string"
proof -
  have "s = t" if "cmp_string s t \<le> 0" "cmp_string t s \<le> 0" for s t
  proof -
    have "map of_char s = (map of_char t :: int list)"
      using that cmp_list_antisym unfolding cmp_string_def by blast
    then show ?thesis by (metis inj_map_eq_map inj_of_char)
  qed
  then show ?thesis
    unfolding locale_laws_def cmp_string_def by (blast intro: comparator_on_cmp_list)
qed

subsection \<open>The canonical form does not see the order of properties\<close>

text \<open>Two values that differ only in the order of properties, at any depth.\<close>

inductive same_value :: "json \<Rightarrow> json \<Rightarrow> bool" where
  same: "same_value v v"
| arr: "list_all2 same_value xs ys \<Longrightarrow> same_value (JArr xs) (JArr ys)"
| obj: "list_all2 (rel_prod (=) same_value) kvs mid \<Longrightarrow> distinct (map fst kvs) \<Longrightarrow>
    mset mid = mset kvs' \<Longrightarrow> same_value (JObj kvs) (JObj kvs')"
monos list.rel_mono prod.rel_mono

lemma list_all2_map_eq: "list_all2 (\<lambda>x y. f x = g y) xs ys \<Longrightarrow> map f xs = map g ys"
  by (induction xs ys rule: list_all2_induct) auto

lemma js_sort_keys:
  assumes "locale_laws cmp" "distinct (map fst xs)" "mset xs = mset ys"
  shows "js_sort (\<lambda>a b. cmp (fst a) (fst b)) xs = js_sort (\<lambda>a b. cmp (fst a) (fst b)) ys"
proof (rule js_sort_perm)
  show "comparator_on (set xs) (\<lambda>a b. cmp (fst a) (fst b))"
    using assms(1) unfolding locale_laws_def comparator_on_def by blast
  show "a = b" if "a \<in> set xs" "b \<in> set xs" "cmp (fst a) (fst b) \<le> 0" "cmp (fst b) (fst a) \<le> 0" for a b
    using assms(1,2) that unfolding locale_laws_def by (metis eq_key_imp_eq_value prod.collapse)
qed (fact assms(3))

lemma stableStringify_same_value:
  assumes "locale_laws (re_locale env)" "same_value v w"
  shows "stableStringify env v = stableStringify env w"
  using assms(2)
proof induction
  case (arr xs ys)
  then have "list_all2 (\<lambda>x y. stableStringify env x = stableStringify env y) xs ys"
    by (rule list_all2_mono) auto
  then show ?case by (simp add: list_all2_map_eq)
next
  case (obj kvs mid kvs')
  let ?f = "map_prod id (stableStringify env)"
  have "list_all2 (\<lambda>x y. ?f x = ?f y) kvs mid"
    using obj.IH by (rule list_all2_mono) auto
  then have "map ?f kvs = map ?f mid" by (rule list_all2_map_eq)
  with obj(3) have "mset (map ?f kvs) = mset (map ?f kvs')" by (metis mset_map)
  moreover have "map fst (map ?f kvs) = map fst kvs" by simp
  ultimately have "js_sort (\<lambda>a b. re_locale env (fst a) (fst b)) (map ?f kvs) =
      js_sort (\<lambda>a b. re_locale env (fst a) (fst b)) (map ?f kvs')"
    using obj(2) assms(1) by (intro js_sort_keys) (auto simp: comp_def)
  then show ?case by simp
qed simp

subsection \<open>A signed receipt verifies\<close>

lemma signReceipt_verifies:
  assumes "ed25519_laws (re_ed25519 env)" "base64_laws env" "hexToBytes keyHex = Inr seed"
    "signReceipt env keyHex receipt = Inr sig" "receiptMessage env receipt' = receiptMessage env receipt"
  shows "verifyReceiptSignature env (re_base64 env (getPublicKey (re_ed25519 env) seed)) receipt' sig = Inr True"
    and "sig \<noteq> []"
proof -
  from assms(3,4) obtain raw where raw: "ed25519Sign (re_ed25519 env) seed (utf8_bytes (receiptMessage env receipt)) = Inr raw"
      "sig = re_base64 env raw"
    by (auto simp: signReceipt_def result_simps)
  then have "length seed = 32" by (auto simp: ed25519Sign_def split: if_splits)
  then have kp: "ed25519KeypairFromSeed (re_ed25519 env) seed = Inr (getPublicKey (re_ed25519 env) seed, seed)"
    by (simp add: ed25519KeypairFromSeed_def)
  from sign_verifies [OF assms(1) kp raw(1)] raw(2) assms(2,5)
  show "verifyReceiptSignature env (re_base64 env (getPublicKey (re_ed25519 env) seed)) receipt' sig = Inr True" "sig \<noteq> []"
    by (auto simp: verifyReceiptSignature_def base64_laws_def)
qed

text \<open>A receipt as a node makes it: an object with the mandatory fields.\<close>

definition wf_receipt :: "string \<Rightarrow> json \<Rightarrow> bool" where
  "wf_receipt node r \<longleftrightarrow> node \<noteq> [] \<and> jprop r ''node_id'' = Some (JStr node) \<and> jtruthy (jprop r ''ts'') \<and>
     jprop r ''type'' \<in> (\<lambda>t. Some (JStr t)) ` set RECEIPT_TYPES"

lemma wf_receipt_shape:
  assumes "wf_receipt (en_public_key e) (en_receipt e)" "en_signature e \<noteq> []"
  shows "validateReceiptShape e = None"
proof -
  obtain kvs where "en_receipt e = JObj kvs"
    using assms by (cases "en_receipt e") (auto simp: wf_receipt_def jprop_def)
  with assms show ?thesis
    by (auto simp: validateReceiptShape_def wf_receipt_def RECEIPT_TYPES_def)
qed

lemma shape_wf_receipt: "validateReceiptShape e = None \<Longrightarrow> wf_receipt (en_public_key e) (en_receipt e)"
  by (auto simp: validateReceiptShape_def wf_receipt_def Let_def split: if_splits)

lemma same_value_jprop_str:
  assumes "same_value v w" "jprop v k = Some (JStr s)"
  shows "jprop w k = Some (JStr s)"
  using assms(1)
proof cases
  case (obj kvs mid kvs')
  with assms(2) have "(k, JStr s) \<in> set kvs" by (auto simp: jprop_def intro: map_of_SomeD)
  then obtain i where i: "i < length kvs" "kvs ! i = (k, JStr s)" by (metis in_set_conv_nth)
  with obj(3) have "rel_prod (=) same_value (k, JStr s) (mid ! i)" "i < length mid"
    by (auto simp: list_all2_conv_all_nth)
  then have "mid ! i = (k, JStr s)" by (cases "mid ! i") (auto elim: same_value.cases)
  with \<open>i < length mid\<close> have "(k, JStr s) \<in> set kvs'"
    using obj(5) by (metis nth_mem set_mset_mset)
  moreover have "map fst mid = map fst kvs"
    using obj(3) by (induction kvs mid rule: list_all2_induct) auto
  then have "distinct (map fst kvs')"
    using obj(4,5) by (metis mset_map distinct_count_atmost_1 set_mset_mset mset_eq_imp_distinct_iff)
  ultimately show ?thesis using obj(2) by (simp add: jprop_def)
qed (use assms in \<open>auto simp: jprop_def\<close>)

section \<open>Claims\<close>

text \<open>A receipt signed with a node's key, put into an envelope under the node's public key, is
  accepted, also after its properties have been reordered at any depth on the way.\<close>

theorem signed_receipt_accepted:
  assumes "ed25519_laws (re_ed25519 env)" "base64_laws env" "locale_laws (re_locale env)"
    "hexToBytes keyHex = Inr seed" "signReceipt env keyHex receipt = Inr sig" "same_value receipt receipt'"
    "wf_receipt (re_base64 env (getPublicKey (re_ed25519 env) seed)) receipt'"
  shows "verifyReceipt env (makeEnvelope receipt' sig (re_base64 env (getPublicKey (re_ed25519 env) seed))) = Inr None"
proof -
  have "receiptMessage env receipt' = receiptMessage env receipt"
    using stableStringify_same_value [OF assms(3,6)] by (simp add: receiptMessage_def)
  from signReceipt_verifies [OF assms(1,2,4,5) this] assms(7) show ?thesis
    by (simp add: verifyReceipt_def makeEnvelope_def wf_receipt_shape)
qed

definition toy_receipt_env :: receipt_env where
  "toy_receipt_env = \<lparr>re_numstr = (\<lambda>q. ''n''), re_locale = cmp_string, re_ed25519 = toy_ed25519,
     re_base64 = map (\<lambda>b. char_of (uint b)), re_unbase64 = ascii\<rparr>"

definition toy_key :: string where "toy_key = replicate 64 (CHR ''4'')"

lemma toy_receipt_env_laws: "base64_laws toy_receipt_env" "locale_laws (re_locale toy_receipt_env)"
    "ed25519_laws (re_ed25519 toy_receipt_env)"
proof -
  have "word_of_int (of_char (char_of (uint b) :: char) AND 255) = b" for b :: byte
    using uint_byte_bounds [of b] by (simp add: and_255 of_char_bounds)
  then show "base64_laws toy_receipt_env" by (simp add: base64_laws_def toy_receipt_env_def ascii_def comp_def)
qed (simp_all add: toy_receipt_env_def toy_ed25519_laws locale_laws_cmp_string)

definition toy_receipt :: "string \<Rightarrow> json" where
  "toy_receipt node = JObj [(''type'', JStr ''STORE''), (''node_id'', JStr node), (''ts'', JNum (Fin 5))]"

definition toy_receipt' :: "string \<Rightarrow> json" where
  "toy_receipt' node = JObj [(''ts'', JNum (Fin 5)), (''node_id'', JStr node), (''type'', JStr ''STORE'')]"

lemma toy_receipt_facts:
  "hexToBytes toy_key = Inr (replicate 32 0x44)"
  "node \<noteq> [] \<Longrightarrow> wf_receipt node (toy_receipt' node) \<and> wf_receipt node (toy_receipt node)"
  "same_value (toy_receipt node) (toy_receipt' node)"
  "\<exists>sig. signReceipt toy_receipt_env toy_key (toy_receipt node) = Inr sig"
proof -
  show key: "hexToBytes toy_key = Inr (replicate 32 0x44)" unfolding toy_key_def by code_simp
  show "node \<noteq> [] \<Longrightarrow> wf_receipt node (toy_receipt' node) \<and> wf_receipt node (toy_receipt node)"
    by (simp add: wf_receipt_def toy_receipt'_def toy_receipt_def jprop_def RECEIPT_TYPES_def)
  show "same_value (toy_receipt node) (toy_receipt' node)"
    unfolding toy_receipt_def toy_receipt'_def
    by (rule same_value.obj [where mid = "[(''type'', JStr ''STORE''), (''node_id'', JStr node), (''ts'', JNum (Fin 5))]"])
      (auto simp: same_value.same add_mset_commute)
  show "\<exists>sig. signReceipt toy_receipt_env toy_key (toy_receipt node) = Inr sig"
    by (simp add: signReceipt_def key ed25519Sign_def)
qed

theorem signed_receipt_accepted_witness:
  "\<exists>sig. signReceipt toy_receipt_env toy_key (toy_receipt (replicate 32 (CHR ''D''))) = Inr sig \<and>
     verifyReceipt toy_receipt_env (makeEnvelope (toy_receipt' (replicate 32 (CHR ''D''))) sig (replicate 32 (CHR ''D''))) = Inr None"
proof -
  let ?n = "replicate 32 (CHR ''D'')"
  have "char_of (68 :: int) = CHR ''D''" by code_simp
  then have pk: "re_base64 toy_receipt_env (getPublicKey (re_ed25519 toy_receipt_env) (replicate 32 0x44)) = ?n"
    by (simp add: toy_receipt_env_def toy_ed25519_def)
  obtain sig where "signReceipt toy_receipt_env toy_key (toy_receipt ?n) = Inr sig"
    using toy_receipt_facts(4) by blast
  with signed_receipt_accepted [OF toy_receipt_env_laws(3,1,2) toy_receipt_facts(1) this toy_receipt_facts(3)]
    toy_receipt_facts(2) [of ?n] pk
  show ?thesis by (auto simp: pk)
qed

end
