(* ===== verification/Account.thy ===== *)
theory Account
  imports Prelude
begin

section \<open>Interface of a credit account store\<close>

text \<open>
  Several components keep balances of credits: the file ledger of the core, and the coordinator's
  map of wallets. What their clients rely on is one contract, stated here once: a credit adds to one
  account, a debit of at most the balance subtracts from one account, a larger one is refused and
  changes nothing, and balances stay non-negative. \<open>usable\<close> are the accounts for which the
  contract is promised.
\<close>

datatype 'k account_op = Credit 'k rat | Debit 'k rat

fun op_ok :: "('k \<Rightarrow> bool) \<Rightarrow> 'k account_op \<Rightarrow> bool" where
  "op_ok usable (Credit k a) \<longleftrightarrow> usable k \<and> 0 < a"
| "op_ok usable (Debit k a) \<longleftrightarrow> usable k \<and> 0 < a"

text \<open>The effect of a history on the account \<open>k\<close> with balance \<open>b\<close>: refused debits have none.\<close>

fun net_effect :: "('k \<Rightarrow> 'k \<Rightarrow> bool) \<Rightarrow> 'k \<Rightarrow> rat \<Rightarrow> 'k account_op list \<Rightarrow> rat" where
  "net_effect same k b [] = b"
| "net_effect same k b (Credit j a # ops) = net_effect same k (if same j k then b + a else b) ops"
| "net_effect same k b (Debit j a # ops) = net_effect same k (if same j k \<and> a \<le> b then b - a else b) ops"

lemma net_effect_nonneg:
  "0 \<le> b \<Longrightarrow> list_all (op_ok u) ops \<Longrightarrow> 0 \<le> net_effect same k b ops"
  by (induction same k b ops rule: net_effect.induct) auto

text \<open>The total of a quantity over all entries of a map.\<close>

definition map_total :: "('v \<Rightarrow> rat) \<Rightarrow> ('k \<rightharpoonup> 'v) \<Rightarrow> rat" where
  "map_total f m = (\<Sum>k \<in> dom m. f (the (m k)))"

definition entry_value :: "('v \<Rightarrow> rat) \<Rightarrow> ('k \<rightharpoonup> 'v) \<Rightarrow> 'k \<Rightarrow> rat" where
  "entry_value f m k = (case m k of None \<Rightarrow> 0 | Some v \<Rightarrow> f v)"

lemma map_total_empty [simp]: "map_total f Map.empty = 0"
  by (simp add: map_total_def)

lemma map_total_upd:
  assumes "finite (dom m)"
  shows "map_total f (m(k \<mapsto> v)) = map_total f m - entry_value f m k + f v"
proof -
  have rest: "(\<Sum>j \<in> dom m - {k}. f (the ((m(k \<mapsto> v)) j))) = (\<Sum>j \<in> dom m - {k}. f (the (m j)))"
    by (rule sum.cong) auto
  have "map_total f (m(k \<mapsto> v)) = f v + (\<Sum>j \<in> dom m - {k}. f (the (m j)))"
    unfolding map_total_def using assms rest by (subst dom_fun_upd) (simp add: sum.insert_remove)
  moreover have "map_total f m = entry_value f m k + (\<Sum>j \<in> dom m - {k}. f (the (m j)))"
  proof (cases "m k")
    case (Some u)
    then have "k \<in> dom m" by auto
    from sum.remove [OF assms this, of "\<lambda>j. f (the (m j))"] Some
    show ?thesis by (simp add: map_total_def entry_value_def)
  next
    case None
    then have "dom m - {k} = dom m" by auto
    with None show ?thesis by (simp add: map_total_def entry_value_def)
  qed
  ultimately show ?thesis by simp
qed

locale account_store =
  fixes bal :: "'s \<Rightarrow> 'k \<Rightarrow> rat"
    and credit :: "'k \<Rightarrow> rat \<Rightarrow> 's \<Rightarrow> 's"
    and debit :: "'k \<Rightarrow> rat \<Rightarrow> 's \<Rightarrow> bool \<times> 's"
    and inv :: "'s \<Rightarrow> bool"
    and usable :: "'k \<Rightarrow> bool"
    and same :: "'k \<Rightarrow> 'k \<Rightarrow> bool"
  assumes inv_nonneg: "inv s \<Longrightarrow> usable k \<Longrightarrow> 0 \<le> bal s k"
    and credit_inv: "inv s \<Longrightarrow> usable k \<Longrightarrow> 0 < a \<Longrightarrow> inv (credit k a s)"
    and credit_bal: "inv s \<Longrightarrow> usable k \<Longrightarrow> usable j \<Longrightarrow> 0 < a \<Longrightarrow>
      bal (credit k a s) j = (if same k j then bal s j + a else bal s j)"
    and debit_inv: "inv s \<Longrightarrow> usable k \<Longrightarrow> 0 < a \<Longrightarrow> inv (snd (debit k a s))"
    and debit_accepts: "inv s \<Longrightarrow> usable k \<Longrightarrow> 0 < a \<Longrightarrow> fst (debit k a s) = (a \<le> bal s k)"
    and debit_bal: "inv s \<Longrightarrow> usable k \<Longrightarrow> usable j \<Longrightarrow> 0 < a \<Longrightarrow>
      bal (snd (debit k a s)) j = (if same k j \<and> a \<le> bal s k then bal s j - a else bal s j)"
    and same_bal: "same k j \<Longrightarrow> bal s k = bal s j"
begin

fun apply_op :: "'k account_op \<Rightarrow> 's \<Rightarrow> 's" where
  "apply_op (Credit k a) s = credit k a s"
| "apply_op (Debit k a) s = snd (debit k a s)"

lemma apply_op_inv: "inv s \<Longrightarrow> op_ok usable op \<Longrightarrow> inv (apply_op op s)"
  by (cases op) (auto simp: credit_inv debit_inv)

lemma history:
  "inv s \<Longrightarrow> list_all (op_ok usable) ops \<Longrightarrow> usable k \<Longrightarrow>
     inv (fold apply_op ops s) \<and> bal (fold apply_op ops s) k = net_effect same k (bal s k) ops"
proof (induction ops arbitrary: s)
  case (Cons op ops)
  then have inv: "inv (apply_op op s)" by (simp add: apply_op_inv)
  have "net_effect same k (bal (apply_op op s) k) ops = net_effect same k (bal s k) (op # ops)"
    using Cons.prems by (cases op) (auto simp: credit_bal debit_bal dest: same_bal [where s = s])
  then show ?case using Cons inv by simp
qed simp

lemma history_nonneg:
  "inv s \<Longrightarrow> list_all (op_ok usable) ops \<Longrightarrow> usable k \<Longrightarrow> 0 \<le> bal (fold apply_op ops s) k"
  using history inv_nonneg by blast

end

end
