(* ===== verification/CoordCredits.thy ===== *)
theory CoordCredits
  imports Receipts Caps Account
begin

section \<open>Credits and receipts of the coordinator (coordinator/src/routes/receipts.ts, credits.ts)\<close>

text \<open>
  Balances per wallet, the registered nodes, the receipts seen, and the audit challenges. A receipt of
  a registered node credits it. Results are the error code, if any; \<open>Inl\<close> is an exception that
  leaves the handler. \<open>rx_sha256hex\<close> is the hexadecimal SHA-256 of a text.
\<close>

record receipts_env =
  rx_env :: receipt_env
  rx_sha256hex :: "string \<Rightarrow> string"

record AuditChallenge =
  ac_wallet :: string
  ac_chunkHash :: string
  ac_expiresAt :: int

record CreditsState =
  cs_receipts :: "string \<rightharpoonup> ReceiptEnvelope"
  cs_credits :: "string \<rightharpoonup> jsnum"
  cs_passports :: "string set"
  cs_nodePubkeys :: "string set"
  cs_challenges :: "string \<rightharpoonup> AuditChallenge"
  cs_rate :: "string \<rightharpoonup> RateWindow"

record ReceiptConfig =
  rc_serveCredits :: jsnum
  rc_verifyCredits :: jsnum
  rc_storeCredits :: jsnum
  rc_resolverPubkeyHex :: "string option"
  rc_allowUnverifiedServe :: bool
  rc_maxPerMinute :: jsnum

subsection \<open>Balances\<close>

definition credit_of :: "(string \<rightharpoonup> jsnum) \<Rightarrow> string \<Rightarrow> jsnum" where
  "credit_of m wallet = (case m wallet of None \<Rightarrow> Fin 0 | Some v \<Rightarrow> nor v (Fin 0))"

definition getBalance :: "CreditsState \<Rightarrow> string \<Rightarrow> jsnum" where
  "getBalance st wallet = credit_of (cs_credits st) wallet"

definition spendCredits :: "CreditsState \<Rightarrow> string \<Rightarrow> jsnum \<Rightarrow> string option \<times> CreditsState" where
  "spendCredits st wallet amount =
     (let current = credit_of (cs_credits st) wallet in
      if nlt current amount then (Some ''INSUFFICIENT_CREDITS'', st)
      else (None, st\<lparr>cs_credits := (cs_credits st)(wallet \<mapsto> nsub current amount)\<rparr>))"

definition coord_credit :: "CreditsState \<Rightarrow> string \<Rightarrow> jsnum \<Rightarrow> CreditsState" where
  "coord_credit st wallet amount =
     (let current = credit_of (cs_credits st) wallet
      in st\<lparr>cs_credits := (cs_credits st)(wallet \<mapsto> nadd current amount)\<rparr>)"

subsection \<open>Receipts\<close>

definition receiptIdFromEnvelope :: "receipts_env \<Rightarrow> ReceiptEnvelope \<Rightarrow> string" where
  "receiptIdFromEnvelope env e = rx_sha256hex env (json_str (re_numstr (rx_env env)) (en_receipt e))"

text \<open>\<open>receipt.node_id\<close>, which the shape check has found to be the envelope's public key.\<close>

definition receipt_node :: "ReceiptEnvelope \<Rightarrow> string" where
  "receipt_node e = (case jprop (en_receipt e) ''node_id'' of Some (JStr s) \<Rightarrow> s | _ \<Rightarrow> [])"

definition detail :: "ReceiptEnvelope \<Rightarrow> string \<Rightarrow> json option" where
  "detail e k = (case jprop (en_receipt e) ''details'' of None \<Rightarrow> None | Some d \<Rightarrow> jprop d k)"

definition validateAndApplyReceipt ::
  "receipts_env \<Rightarrow> int \<Rightarrow> CreditsState \<Rightarrow> ReceiptEnvelope \<Rightarrow> ReceiptConfig \<Rightarrow> string option \<times> CreditsState" where
  "validateAndApplyReceipt env now st e cfg =
     (case validateReceiptShape e of
        Some err \<Rightarrow> (Some err, st)
      | None \<Rightarrow>
          let node = receipt_node e in
          if node \<notin> cs_passports st \<and> node \<notin> cs_nodePubkeys st then (Some ''PASSPORT_REQUIRED'', st)
          else if cs_receipts st (receiptIdFromEnvelope env e) \<noteq> None then (None, st)
          else let (ok, rate) = applyRateLimit now (rc_maxPerMinute cfg) node (cs_rate st)
               in (if ok then None else Some ''RATE_LIMITED'', st\<lparr>cs_rate := rate\<rparr>))"

text \<open>The check of a \<open>SERVE\<close> receipt. A signature that is not a string has no \<open>startsWith\<close>.\<close>

definition serve_check :: "receipts_env \<Rightarrow> ReceiptConfig \<Rightarrow> ReceiptEnvelope \<Rightarrow> string option res" where
  "serve_check env cfg e =
     (let key = (case rc_resolverPubkeyHex cfg of None \<Rightarrow> [] | Some k \<Rightarrow> k);
          authoritySig = detail e ''authoritySig'';
          result_hash = jprop (en_receipt e) ''result_hash'' in
      if key = [] \<and> \<not> rc_allowUnverifiedServe cfg then Inr (Some ''AUTHORITY_SIG_REQUIRED'')
      else if key \<noteq> [] \<and> jtruthy authoritySig \<and> jtruthy result_hash then
        (case authoritySig of
           Some (JStr sig) \<Rightarrow>
             (let msg = ''resolve'' @ [CHR 0x0A] @ js_to_string (re_numstr (rx_env env)) (the result_hash) in
              rbind (verifyEd25519Message (rx_env env) key msg sig) (\<lambda>expected.
                Inr (if expected then None else Some ''AUTHORITY_SIG_INVALID'')))
         | _ \<Rightarrow> Inl TypeError)
      else if key \<noteq> [] \<and> \<not> rc_allowUnverifiedServe cfg then Inr (Some ''AUTHORITY_SIG_REQUIRED'')
      else Inr None)"

definition verify_check :: "int \<Rightarrow> CreditsState \<Rightarrow> ReceiptEnvelope \<Rightarrow> string option" where
  "verify_check now st e =
     (case (case detail e ''challengeId'' of
              Some (JStr cid) \<Rightarrow> if cid = [] then None else cs_challenges st cid
            | _ \<Rightarrow> None) of
        None \<Rightarrow> Some ''CHALLENGE_INVALID''
      | Some ch \<Rightarrow>
          if ac_wallet ch \<noteq> receipt_node e then Some ''CHALLENGE_INVALID''
          else if ac_expiresAt ch < now then Some ''CHALLENGE_INVALID''
          else if detail e ''chunkHash'' \<noteq> Some (JStr (ac_chunkHash ch)) then Some ''CHALLENGE_INVALID''
          else None)"

text \<open>\<open>applyReceipt\<close>; the clock is read once before the signature is verified and once after.\<close>

definition applyReceipt ::
  "receipts_env \<Rightarrow> int \<Rightarrow> int \<Rightarrow> CreditsState \<Rightarrow> ReceiptEnvelope \<Rightarrow> ReceiptConfig \<Rightarrow>
     string option res \<times> CreditsState" where
  "applyReceipt env now now' st0 e cfg =
     (case validateAndApplyReceipt env now st0 e cfg of
        (Some err, st) \<Rightarrow> (Inr (Some err), st)
      | (None, st) \<Rightarrow>
          (case verifyReceiptSignature (rx_env env) (en_public_key e) (en_receipt e) (en_signature e) of
             Inl ex \<Rightarrow> (Inl ex, st)
           | Inr False \<Rightarrow> (Inr (Some ''INVALID_SIGNATURE''), st)
           | Inr True \<Rightarrow>
               let node = receipt_node e;
                   type = jprop (en_receipt e) ''type'';
                   store = (\<lambda>s. s\<lparr>cs_receipts := (cs_receipts s)(receiptIdFromEnvelope env e \<mapsto> e)\<rparr>) in
               if type = Some (JStr ''SERVE'') then
                 (case serve_check env cfg e of
                    Inl ex \<Rightarrow> (Inl ex, st)
                  | Inr (Some err) \<Rightarrow> (Inr (Some err), st)
                  | Inr None \<Rightarrow> (Inr None, store (coord_credit st node (rc_serveCredits cfg))))
               else if type = Some (JStr ''VERIFY'') then
                 (case verify_check now' st e of
                    Some err \<Rightarrow> (Inr (Some err), st)
                  | None \<Rightarrow> (Inr None, store (coord_credit st node (rc_verifyCredits cfg))))
               else if type = Some (JStr ''STORE'') then
                 (Inr None, store (coord_credit st node (rc_storeCredits cfg)))
               else (Inr None, store st)))"

definition createChallenge :: "int \<Rightarrow> string \<Rightarrow> CreditsState \<Rightarrow> string \<Rightarrow> string \<Rightarrow> int \<Rightarrow> CreditsState" where
  "createChallenge now uuid st wallet chunkHash ttlMs =
     st\<lparr>cs_challenges := (cs_challenges st)(uuid \<mapsto>
          \<lparr>ac_wallet = wallet, ac_chunkHash = chunkHash, ac_expiresAt = now + ttlMs\<rparr>)\<rparr>"

section \<open>Properties\<close>

subsection \<open>Balances satisfy the account contract\<close>

definition credits_inv :: "CreditsState \<Rightarrow> bool" where
  "credits_inv st \<longleftrightarrow> (\<forall>w v. cs_credits st w = Some v \<longrightarrow> (\<exists>q. v = Fin q \<and> 0 \<le> q))"

definition balance :: "CreditsState \<Rightarrow> string \<Rightarrow> rat" where
  "balance st w = fin_part (getBalance st w)"

lemma getBalance_Fin: "credits_inv st \<Longrightarrow> getBalance st w = Fin (balance st w) \<and> 0 \<le> balance st w"
  unfolding credits_inv_def balance_def getBalance_def credit_of_def
  by (cases "cs_credits st w") force+

lemma credit_of_Fin: "credits_inv st \<Longrightarrow> credit_of (cs_credits st) w = Fin (balance st w)"
  using getBalance_Fin [of st w] by (simp add: getBalance_def)

lemma balance_upd [simp]:
  "balance (st\<lparr>cs_credits := (cs_credits st)(w \<mapsto> Fin q)\<rparr>) j = (if j = w then q else balance st j)"
  by (auto simp: balance_def getBalance_def credit_of_def)

lemma balance_cong: "cs_credits st = cs_credits st' \<Longrightarrow> balance st = balance st'"
  by (intro ext) (simp add: balance_def getBalance_def)

lemma credits_inv_upd: "credits_inv st \<Longrightarrow> 0 \<le> q \<Longrightarrow> credits_inv (st\<lparr>cs_credits := (cs_credits st)(w \<mapsto> Fin q)\<rparr>)"
  by (auto simp: credits_inv_def)

lemma coord_credit_Fin:
  "credits_inv st \<Longrightarrow> coord_credit st w (Fin a) = st\<lparr>cs_credits := (cs_credits st)(w \<mapsto> Fin (balance st w + a))\<rparr>"
  by (simp add: coord_credit_def credit_of_Fin)

lemma spendCredits_Fin:
  "credits_inv st \<Longrightarrow> spendCredits st w (Fin a) =
     (if balance st w < a then (Some ''INSUFFICIENT_CREDITS'', st)
      else (None, st\<lparr>cs_credits := (cs_credits st)(w \<mapsto> Fin (balance st w - a))\<rparr>))"
  by (simp add: spendCredits_def credit_of_Fin)

definition spend_op :: "string \<Rightarrow> rat \<Rightarrow> CreditsState \<Rightarrow> bool \<times> CreditsState" where
  "spend_op w a st = (case spendCredits st w (Fin a) of (err, st') \<Rightarrow> (err = None, st'))"

interpretation coord_acct: account_store balance "\<lambda>w a st. coord_credit st w (Fin a)" spend_op credits_inv
  "\<lambda>_. True" "(=)"
proof
  fix st and j k :: string and a :: rat
  assume inv: "credits_inv st"
  show "0 \<le> balance st k" using inv getBalance_Fin by blast
  assume a: "0 < a"
  show "credits_inv (coord_credit st k (Fin a))"
    using inv a getBalance_Fin [OF inv, of k] by (simp add: coord_credit_Fin credits_inv_upd)
  show "balance (coord_credit st k (Fin a)) j = (if k = j then balance st j + a else balance st j)"
    using inv by (simp add: coord_credit_Fin)
  show "credits_inv (snd (spend_op k a st))" "fst (spend_op k a st) = (a \<le> balance st k)"
    "balance (snd (spend_op k a st)) j = (if k = j \<and> a \<le> balance st k then balance st j - a else balance st j)"
    using inv by (auto simp: spend_op_def spendCredits_Fin credits_inv_upd)
qed simp

subsection \<open>What a receipt does\<close>

fun receipt_amount :: "ReceiptConfig \<Rightarrow> json option \<Rightarrow> jsnum" where
  "receipt_amount cfg (Some (JStr t)) =
     (if t = ''SERVE'' then rc_serveCredits cfg else if t = ''VERIFY'' then rc_verifyCredits cfg
      else if t = ''STORE'' then rc_storeCredits cfg else Fin 0)"
| "receipt_amount cfg _ = Fin 0"

text \<open>The conditions under which a receipt is accepted, as a specification.\<close>

definition receipt_seen :: "receipts_env \<Rightarrow> CreditsState \<Rightarrow> ReceiptEnvelope \<Rightarrow> bool" where
  "receipt_seen env st e \<longleftrightarrow> cs_receipts st (receiptIdFromEnvelope env e) \<noteq> None"

definition receipt_authentic :: "receipts_env \<Rightarrow> CreditsState \<Rightarrow> ReceiptEnvelope \<Rightarrow> bool" where
  "receipt_authentic env st e \<longleftrightarrow>
     receipt_node e \<in> cs_passports st \<union> cs_nodePubkeys st \<and>
     verifyReceipt (rx_env env) e = Inr None"

definition type_check :: "receipts_env \<Rightarrow> ReceiptConfig \<Rightarrow> int \<Rightarrow> CreditsState \<Rightarrow> ReceiptEnvelope \<Rightarrow> bool" where
  "type_check env cfg now' st e \<longleftrightarrow>
     (case jprop (en_receipt e) ''type'' of
        Some (JStr t) \<Rightarrow> (t = ''SERVE'' \<longrightarrow> serve_check env cfg e = Inr None) \<and>
          (t = ''VERIFY'' \<longrightarrow> verify_check now' st e = None)
      | _ \<Rightarrow> False)"

lemma shape_type:
  assumes "validateReceiptShape e = None"
  obtains t where "jprop (en_receipt e) ''type'' = Some (JStr t)" "t = ''SERVE'' \<or> t = ''VERIFY'' \<or> t = ''STORE''"
  using shape_wf_receipt [OF assms] by (auto simp: wf_receipt_def RECEIPT_TYPES_def)

text \<open>What the first half decides: it touches nothing but the rate windows.\<close>

lemma validate_frame:
  assumes "validateAndApplyReceipt env now st e cfg = (r, st')"
  shows "st' = st\<lparr>cs_rate := cs_rate st'\<rparr>"
  using assms unfolding validateAndApplyReceipt_def Let_def
  by (auto split: option.splits if_splits prod.splits)

lemma validate_accepts:
  "fst (validateAndApplyReceipt env now st e cfg) = None \<longleftrightarrow>
     validateReceiptShape e = None \<and> receipt_node e \<in> cs_passports st \<union> cs_nodePubkeys st \<and>
     (receipt_seen env st e \<or> fst (applyRateLimit now (rc_maxPerMinute cfg) (receipt_node e) (cs_rate st)))"
  by (auto simp: validateAndApplyReceipt_def receipt_seen_def Let_def split: option.splits prod.splits)

lemma verify_check_rate [simp]: "verify_check now (st\<lparr>cs_rate := r\<rparr>) e = verify_check now st e"
proof -
  have "cs_challenges (st\<lparr>cs_rate := r\<rparr>) = cs_challenges st" by simp
  then show ?thesis unfolding verify_check_def by metis
qed

text \<open>The second half, once the receipt has passed the first one and its signature is good.\<close>

lemma applyReceipt_second:
  assumes "validateAndApplyReceipt env now st e cfg = (None, st1)"
    "verifyReceiptSignature (rx_env env) (en_public_key e) (en_receipt e) (en_signature e) = Inr True"
    "jprop (en_receipt e) ''type'' = Some (JStr t)" "t = ''SERVE'' \<or> t = ''VERIFY'' \<or> t = ''STORE''"
  shows "applyReceipt env now now' st e cfg =
    (case (if t = ''SERVE'' then serve_check env cfg e else if t = ''VERIFY'' then Inr (verify_check now' st1 e) else Inr None) of
       Inl ex \<Rightarrow> (Inl ex, st1)
     | Inr (Some err) \<Rightarrow> (Inr (Some err), st1)
     | Inr None \<Rightarrow> (Inr None, (coord_credit st1 (receipt_node e) (receipt_amount cfg (Some (JStr t))))
         \<lparr>cs_receipts := (cs_receipts st1)(receiptIdFromEnvelope env e \<mapsto> e)\<rparr>))"
proof -
  have store: "cs_receipts (coord_credit st1 w a) = cs_receipts st1" for w a
    by (simp add: coord_credit_def Let_def)
  show ?thesis using assms(4)
    by (elim disjE) (simp_all add: applyReceipt_def assms(1-3) Let_def store split: option.splits sum.splits)
qed

lemma applyReceipt_cases:
  assumes "applyReceipt env now now' st e cfg = (r, st')"
  shows "\<exists>rate. (if r = Inr None
      then st' = (coord_credit (st\<lparr>cs_rate := rate\<rparr>) (receipt_node e) (receipt_amount cfg (jprop (en_receipt e) ''type'')))
             \<lparr>cs_receipts := (cs_receipts st)(receiptIdFromEnvelope env e \<mapsto> e)\<rparr> \<and>
           receipt_authentic env st e \<and> type_check env cfg now' st e \<and>
           (receipt_seen env st e \<or> fst (applyRateLimit now (rc_maxPerMinute cfg) (receipt_node e) (cs_rate st)))
      else st' = st\<lparr>cs_rate := rate\<rparr>)"
proof (cases "validateAndApplyReceipt env now st e cfg")
  case (Pair err st1)
  then have st1: "st1 = st\<lparr>cs_rate := cs_rate st1\<rparr>" using validate_frame by blast
  show ?thesis
  proof (cases "err = None \<and>
      verifyReceiptSignature (rx_env env) (en_public_key e) (en_receipt e) (en_signature e) = Inr True")
    case False
    then have "r \<noteq> Inr None \<and> st' = st1" using assms Pair
      by (auto simp: applyReceipt_def split: option.splits sum.splits bool.splits)
    with st1 show ?thesis by metis
  next
    case True
    then have shape: "validateReceiptShape e = None" and other:
        "receipt_node e \<in> cs_passports st \<union> cs_nodePubkeys st"
        "receipt_seen env st e \<or> fst (applyRateLimit now (rc_maxPerMinute cfg) (receipt_node e) (cs_rate st))"
      using validate_accepts [of env now st e cfg] Pair by auto
    obtain t where t: "jprop (en_receipt e) ''type'' = Some (JStr t)" "t = ''SERVE'' \<or> t = ''VERIFY'' \<or> t = ''STORE''"
      using shape by (rule shape_type)
    let ?chk = "if t = ''SERVE'' then serve_check env cfg e
      else if t = ''VERIFY'' then Inr (verify_check now' st1 e) else Inr None"
    note second = applyReceipt_second [where now' = now', OF _ _ t, of env now st cfg st1]
    have eq: "applyReceipt env now now' st e cfg = (case ?chk of
        Inl ex \<Rightarrow> (Inl ex, st1) | Inr (Some er) \<Rightarrow> (Inr (Some er), st1)
      | Inr None \<Rightarrow> (Inr None, (coord_credit st1 (receipt_node e) (receipt_amount cfg (Some (JStr t))))
         \<lparr>cs_receipts := (cs_receipts st1)(receiptIdFromEnvelope env e \<mapsto> e)\<rparr>))"
      using second True Pair by blast
    have vc: "verify_check now' st1 e = verify_check now' st e" by (subst st1) simp
    have rec1: "cs_receipts st1 = cs_receipts st" by (subst st1) simp
    show ?thesis
    proof (cases "?chk = Inr None")
      case chk: True
      then have "type_check env cfg now' st e" using t vc by (auto simp: type_check_def split: if_splits)
      moreover have "receipt_authentic env st e" using other(1) shape True
        by (simp add: receipt_authentic_def verifyReceipt_def)
      moreover have "r = Inr None" "st' = (coord_credit (st\<lparr>cs_rate := cs_rate st1\<rparr>) (receipt_node e)
          (receipt_amount cfg (Some (JStr t))))\<lparr>cs_receipts := (cs_receipts st)(receiptIdFromEnvelope env e \<mapsto> e)\<rparr>"
        using assms unfolding eq chk rec1 st1 [symmetric] by simp_all
      ultimately show ?thesis using other(2) t(1) by auto
    next
      case chk: False
      then have "r \<noteq> Inr None \<and> st' = st1" using assms unfolding eq by (auto split: sum.splits option.splits)
      with st1 show ?thesis by metis
    qed
  qed
qed

text \<open>The amounts of the configuration as rationals.\<close>

definition config_ok :: "ReceiptConfig \<Rightarrow> bool" where
  "config_ok cfg \<longleftrightarrow> (\<forall>t. \<exists>a. receipt_amount cfg t = Fin a \<and> 0 \<le> a)"

definition paid_for :: "ReceiptConfig \<Rightarrow> ReceiptEnvelope \<Rightarrow> rat" where
  "paid_for cfg e = fin_part (receipt_amount cfg (jprop (en_receipt e) ''type''))"

lemma config_ok_paid: "config_ok cfg \<Longrightarrow> receipt_amount cfg (jprop (en_receipt e) ''type'') = Fin (paid_for cfg e) \<and> 0 \<le> paid_for cfg e"
  unfolding config_ok_def paid_for_def by (metis fin_part_Fin)

lemma config_okI:
  "rc_serveCredits cfg = Fin a \<Longrightarrow> rc_verifyCredits cfg = Fin b \<Longrightarrow> rc_storeCredits cfg = Fin c \<Longrightarrow>
     0 \<le> a \<Longrightarrow> 0 \<le> b \<Longrightarrow> 0 \<le> c \<Longrightarrow> config_ok cfg"
  unfolding config_ok_def
proof
  fix t
  assume "rc_serveCredits cfg = Fin a" "rc_verifyCredits cfg = Fin b" "rc_storeCredits cfg = Fin c"
    "0 \<le> a" "0 \<le> b" "0 \<le> c"
  then show "\<exists>a. receipt_amount cfg t = Fin a \<and> 0 \<le> a"
    by (cases "(cfg, t)" rule: receipt_amount.cases) auto
qed

lemma applyReceipt_accepted:
  assumes "applyReceipt env now now' st e cfg = (Inr None, st')" "credits_inv st" "config_ok cfg"
  shows "\<exists>rate. st' = st\<lparr>cs_rate := rate,
      cs_credits := (cs_credits st)(receipt_node e \<mapsto> Fin (balance st (receipt_node e) + paid_for cfg e)),
      cs_receipts := (cs_receipts st)(receiptIdFromEnvelope env e \<mapsto> e)\<rparr>"
proof -
  from applyReceipt_cases [OF assms(1)] obtain rate where
    st': "st' = (coord_credit (st\<lparr>cs_rate := rate\<rparr>) (receipt_node e) (Fin (paid_for cfg e)))
       \<lparr>cs_receipts := (cs_receipts st)(receiptIdFromEnvelope env e \<mapsto> e)\<rparr>"
    using config_ok_paid [OF assms(3)] by auto
  have "credits_inv (st\<lparr>cs_rate := rate\<rparr>)" using assms(2) by (simp add: credits_inv_def)
  moreover have "balance (st\<lparr>cs_rate := rate\<rparr>) = balance st" by (rule balance_cong) simp
  ultimately show ?thesis using st' by (auto simp: coord_credit_Fin)
qed

lemma applyReceipt_rejected:
  assumes "applyReceipt env now now' st e cfg = (r, st')" "r \<noteq> Inr None"
  shows "st' = st\<lparr>cs_rate := cs_rate st'\<rparr>"
  using applyReceipt_cases [OF assms(1)] assms(2) by auto

lemma balance_with_rate [simp]:
  "balance (st\<lparr>cs_rate := r, cs_credits := (cs_credits st)(w \<mapsto> Fin q), cs_receipts := m\<rparr>) j =
     (if j = w then q else balance st j)"
  by (auto simp: balance_def getBalance_def credit_of_def)

lemma applyReceipt_inv:
  assumes "applyReceipt env now now' st e cfg = (r, st')" "credits_inv st" "config_ok cfg"
  shows "credits_inv st'"
proof (cases "r = Inr None")
  case True
  with applyReceipt_accepted assms obtain rate where
    "st' = st\<lparr>cs_rate := rate,
      cs_credits := (cs_credits st)(receipt_node e \<mapsto> Fin (balance st (receipt_node e) + paid_for cfg e)),
      cs_receipts := (cs_receipts st)(receiptIdFromEnvelope env e \<mapsto> e)\<rparr>" by blast
  moreover have "0 \<le> balance st (receipt_node e) + paid_for cfg e"
    using getBalance_Fin [OF assms(2)] config_ok_paid [OF assms(3)] by simp
  ultimately show ?thesis using assms(2) by (simp add: credits_inv_def)
next
  case False
  with applyReceipt_rejected [OF assms(1)] have "cs_credits st' = cs_credits st" by (metis CreditsState.select_convs(2) CreditsState.surjective CreditsState.update_convs(6))
  with assms(2) show ?thesis by (simp add: credits_inv_def)
qed

subsection \<open>Submitting the same receipt again\<close>

lemma receipt_replay:
  assumes "applyReceipt env now now' st e cfg = (Inr None, st')"
    "jprop (en_receipt e) ''type'' \<noteq> Some (JStr ''VERIFY'')" "credits_inv st" "config_ok cfg"
  shows "applyReceipt env t t' st' e cfg = (Inr None,
    st'\<lparr>cs_credits := (cs_credits st')(receipt_node e \<mapsto> Fin (balance st' (receipt_node e) + paid_for cfg e))\<rparr>)"
proof -
  from applyReceipt_cases [OF assms(1)] have auth: "receipt_authentic env st e" and ty: "type_check env cfg now' st e" by auto
  obtain rate where st': "st' = st\<lparr>cs_rate := rate,
      cs_credits := (cs_credits st)(receipt_node e \<mapsto> Fin (balance st (receipt_node e) + paid_for cfg e)),
      cs_receipts := (cs_receipts st)(receiptIdFromEnvelope env e \<mapsto> e)\<rparr>"
    using applyReceipt_accepted assms(1,3,4) by blast
  have shape: "validateReceiptShape e = None" and
    sig: "verifyReceiptSignature (rx_env env) (en_public_key e) (en_receipt e) (en_signature e) = Inr True"
    using auth by (auto simp: receipt_authentic_def verifyReceipt_def result_simps split: option.splits if_splits)
  obtain ty' where tt: "jprop (en_receipt e) ''type'' = Some (JStr ty')" "ty' = ''SERVE'' \<or> ty' = ''VERIFY'' \<or> ty' = ''STORE''"
    using shape by (rule shape_type)
  have "validateAndApplyReceipt env t st' e cfg = (None, st')"
    using auth shape by (auto simp: validateAndApplyReceipt_def receipt_authentic_def st' Let_def)
  note second = applyReceipt_second [OF this sig tt, of t']
  have inv': "credits_inv st'" using applyReceipt_inv assms(1,3,4) by blast
  have amount: "receipt_amount cfg (Some (JStr ty')) = Fin (paid_for cfg e)"
    using config_ok_paid [OF assms(4), of e] tt(1) by simp
  have same: "st'\<lparr>cs_credits := c, cs_receipts := (cs_receipts st')(receiptIdFromEnvelope env e \<mapsto> e)\<rparr> =
      st'\<lparr>cs_credits := c\<rparr>" for c by (simp add: st')
  have "(if ty' = ''SERVE'' then serve_check env cfg e
      else if ty' = ''VERIFY'' then Inr (verify_check t' st' e) else Inr None) = Inr None"
    using ty tt assms(2) by (auto simp: type_check_def)
  from second [unfolded this] show ?thesis
    by (simp add: amount coord_credit_Fin [OF inv'] same del: receipt_amount.simps)
qed

fun resubmit :: "receipts_env \<Rightarrow> ReceiptConfig \<Rightarrow> ReceiptEnvelope \<Rightarrow> (int \<times> int) list \<Rightarrow> CreditsState \<Rightarrow>
    string option res list \<times> CreditsState" where
  "resubmit env cfg e [] st = ([], st)"
| "resubmit env cfg e ((t, t') # ts) st =
     (let (r, st1) = applyReceipt env t t' st e cfg; (rs, st2) = resubmit env cfg e ts st1 in (r # rs, st2))"

lemma resubmit_credits:
  assumes "applyReceipt env now now' st e cfg = (Inr None, st')"
    "jprop (en_receipt e) ''type'' \<noteq> Some (JStr ''VERIFY'')" "credits_inv st" "config_ok cfg"
  shows "fst (resubmit env cfg e ts st') = replicate (length ts) (Inr None) \<and>
    balance (snd (resubmit env cfg e ts st')) (receipt_node e) =
      balance st' (receipt_node e) + of_nat (length ts) * paid_for cfg e"
  using assms
proof (induction ts arbitrary: st st' now now')
  case (Cons tt ts)
  obtain t t' where tt: "tt = (t, t')" by force
  define st2 where "st2 = st'\<lparr>cs_credits := (cs_credits st')(receipt_node e \<mapsto> Fin (balance st' (receipt_node e) + paid_for cfg e))\<rparr>"
  have again: "applyReceipt env t t' st' e cfg = (Inr None, st2)"
    unfolding st2_def using Cons.prems by (rule receipt_replay)
  have "credits_inv st'" using applyReceipt_inv Cons.prems(1,3,4) by blast
  from Cons.IH [OF again Cons.prems(2) this Cons.prems(4)] again tt show ?case
    by (auto simp: st2_def algebra_simps split: prod.splits)
qed simp

definition toy_node :: string where "toy_node = replicate 32 (CHR ''D'')"

definition toy_receipts_env :: receipts_env where
  "toy_receipts_env = \<lparr>rx_env = toy_receipt_env, rx_sha256hex = (\<lambda>s. s)\<rparr>"

definition toy_config :: ReceiptConfig where
  "toy_config = \<lparr>rc_serveCredits = Fin 1, rc_verifyCredits = Fin 1, rc_storeCredits = Fin 1,
     rc_resolverPubkeyHex = None, rc_allowUnverifiedServe = False, rc_maxPerMinute = Fin 60\<rparr>"

definition toy_credits :: CreditsState where
  "toy_credits = \<lparr>cs_receipts = Map.empty, cs_credits = Map.empty, cs_passports = {toy_node},
     cs_nodePubkeys = {}, cs_challenges = Map.empty, cs_rate = Map.empty\<rparr>"

lemma toy_credits_ok: "credits_inv toy_credits" "config_ok toy_config"
  by (auto simp: credits_inv_def toy_credits_def toy_config_def intro: config_okI)

lemma toy_credits_balance: "balance toy_credits w = 0"
  by (simp add: balance_def getBalance_def credit_of_def toy_credits_def)

lemma toy_receipt_type: "jprop (toy_receipt n) ''type'' = Some (JStr ''STORE'')"
  by (simp add: toy_receipt_def jprop_def)

lemma toy_accepted:
  "\<exists>sig st'. applyReceipt toy_receipts_env 0 0 toy_credits (makeEnvelope (toy_receipt toy_node) sig toy_node)
     toy_config = (Inr None, st')"
proof -
  obtain sig where sig: "signReceipt toy_receipt_env toy_key (toy_receipt toy_node) = Inr sig"
    using toy_receipt_facts(4) by blast
  have "char_of (68 :: int) = CHR ''D''" by code_simp
  then have "re_base64 toy_receipt_env (getPublicKey (re_ed25519 toy_receipt_env) (replicate 32 0x44)) = toy_node"
    by (simp add: toy_receipt_env_def toy_ed25519_def toy_node_def)
  with signReceipt_verifies [OF toy_receipt_env_laws(3,1) toy_receipt_facts(1) sig refl]
  have ok: "verifyReceiptSignature toy_receipt_env toy_node (toy_receipt toy_node) sig = Inr True" "sig \<noteq> []"
    by simp_all
  let ?e = "makeEnvelope (toy_receipt toy_node) sig toy_node"
  have "validateReceiptShape ?e = None"
    using ok(2) toy_receipt_facts(2) [of toy_node]
    by (intro wf_receipt_shape) (simp_all add: makeEnvelope_def toy_node_def)
  moreover have node: "receipt_node ?e = toy_node"
    by (simp add: receipt_node_def makeEnvelope_def toy_receipt_def jprop_def)
  moreover have "fst (applyRateLimit 0 (rc_maxPerMinute toy_config) toy_node (cs_rate toy_credits))"
    by (simp add: applyRateLimit_def toy_config_def toy_credits_def)
  ultimately have "fst (validateAndApplyReceipt toy_receipts_env 0 toy_credits ?e toy_config) = None"
    by (simp add: validate_accepts) (simp add: toy_credits_def)
  then obtain st1 where v: "validateAndApplyReceipt toy_receipts_env 0 toy_credits ?e toy_config = (None, st1)"
    by (metis prod.collapse)
  show ?thesis
    using applyReceipt_second [OF v, of "''STORE''" 0] ok toy_receipt_type [of toy_node]
    by (auto simp: makeEnvelope_def toy_receipts_env_def)
qed

section \<open>Claims\<close>



text \<open>Recording a receipt does not stop it from being credited again. A \<open>SERVE\<close> or \<open>STORE\<close>
  receipt that was accepted once is accepted at any later time, as often as it is sent, beyond any
  rate limit, and each time its node is paid again.\<close>

theorem receipt_replay_pays:
  assumes "applyReceipt env now now' st e cfg = (Inr None, st')"
    "jprop (en_receipt e) ''type'' \<noteq> Some (JStr ''VERIFY'')" "credits_inv st" "config_ok cfg"
  shows "fst (resubmit env cfg e ts st') = replicate (length ts) (Inr None) \<and>
    balance (snd (resubmit env cfg e ts st')) (receipt_node e) =
      balance st (receipt_node e) + of_nat (Suc (length ts)) * paid_for cfg e"
proof -
  obtain rate where "st' = st\<lparr>cs_rate := rate,
      cs_credits := (cs_credits st)(receipt_node e \<mapsto> Fin (balance st (receipt_node e) + paid_for cfg e)),
      cs_receipts := (cs_receipts st)(receiptIdFromEnvelope env e \<mapsto> e)\<rparr>"
    using applyReceipt_accepted assms(1,3,4) by blast
  with resubmit_credits [OF assms, of ts] show ?thesis by (simp add: algebra_simps)
qed

theorem receipt_replay_pays_witness:
  "\<exists>sig st'. applyReceipt toy_receipts_env 0 0 toy_credits (makeEnvelope (toy_receipt toy_node) sig toy_node)
       toy_config = (Inr None, st') \<and>
     balance (snd (resubmit toy_receipts_env toy_config (makeEnvelope (toy_receipt toy_node) sig toy_node)
       [(1, 1), (2, 2)] st')) toy_node = 3"
proof -
  obtain sig st' where ok: "applyReceipt toy_receipts_env 0 0 toy_credits
      (makeEnvelope (toy_receipt toy_node) sig toy_node) toy_config = (Inr None, st')"
    using toy_accepted by blast
  let ?e = "makeEnvelope (toy_receipt toy_node) sig toy_node"
  have paid: "paid_for toy_config ?e = 1"
    by (simp add: paid_for_def makeEnvelope_def toy_receipt_type toy_config_def)
  have node: "receipt_node ?e = toy_node"
    by (simp add: receipt_node_def makeEnvelope_def toy_receipt_def jprop_def)
  have "jprop (en_receipt ?e) ''type'' \<noteq> Some (JStr ''VERIFY'')"
    by (simp add: makeEnvelope_def toy_receipt_type)
  from receipt_replay_pays [OF ok this toy_credits_ok, of "[(1, 1), (2, 2)]"] paid node ok show ?thesis
    by (auto simp: toy_credits_balance)
qed

end
