(* ===== verification/Doc_Head.thy ===== *)
theory Doc_Head
  imports Codec
begin

section \<open>The head shared by the signed documents\<close>

text \<open>
  Route sets, anchors and gateway routes start alike: four magic bytes, a version byte 1, the
  namespace, a 32-byte name id, a sequence number and an expiry, 57 bytes in all. Each decoder of
  the sources repeats the same checks and reads; this theory proves once that they recover the
  fields of such a head, and that a string passing them starts with one.
\<close>

definition doc_head :: "bytes \<Rightarrow> jsnum \<Rightarrow> bytes \<Rightarrow> int \<Rightarrow> int \<Rightarrow> bytes" where
  "doc_head magic ns name_id sq ex =
     magic @ u8 (jint 1) @ u32le ns @ name_id @ u64le sq @ u64le ex"

text \<open>The test of the magic bytes as the decoders write it: some byte differs.\<close>

definition bad_magic :: "bytes \<Rightarrow> bytes \<Rightarrow> bool" where
  "bad_magic magic bs \<longleftrightarrow> list_ex (\<lambda>i. elem_at (js_slice bs 0 4) i \<noteq> Some (magic ! i)) [0..<4]"

lemma length_doc_head [byte_simps]:
  "length magic = 4 \<Longrightarrow> length name_id = 32 \<Longrightarrow> length (doc_head magic ns name_id sq ex) = 57"
  by (simp add: doc_head_def)

lemma js_slice_0_4: "js_slice bs 0 4 = take 4 bs"
  using slice_prefix [of bs 4] by simp

lemma js_slice_9_41: "js_slice bs 9 41 = take 32 (drop 9 bs)"
  by (simp add: slice_nonneg)

lemma bad_magic_iff: "length magic = 4 \<Longrightarrow> bad_magic magic bs \<longleftrightarrow> take 4 bs \<noteq> magic"
proof
  assume l: "length magic = 4" and "take 4 bs \<noteq> magic"
  then obtain i where "i < 4" "\<not> (i < length (take 4 bs) \<and> take 4 bs ! i = magic ! i)"
    by (metis (no_types, lifting) nth_equalityI length_take linorder_neqE_nat min.absorb2 min.cobounded1
        min_def nat_less_le order_refl)
  then show "bad_magic magic bs"
    by (auto simp: bad_magic_def js_slice_0_4 list_ex_iff elem_at_def)
qed (auto simp: bad_magic_def js_slice_0_4 list_ex_iff)

lemma head_read:
  fixes r :: bytes
  assumes "length magic = 4" "length name_id = 32" "in_range 0xffffffff ns" "in_u64 sq" "in_u64 ex"
  defines "bs \<equiv> doc_head magic ns name_id sq ex @ r"
  shows "\<not> bad_magic magic bs" "elem_at bs 4 = Some 1" "rmap jint (readU32le bs 5) = Inr ns"
    "js_slice bs 9 41 = name_id" "readU64le bs 41 = Inr sq" "readU64le bs 49 = Inr ex"
proof -
  show "\<not> bad_magic magic bs" using assms by (simp add: bad_magic_iff doc_head_def)
  show "elem_at bs 4 = Some 1" using assms by (simp add: doc_head_def nth_append)
  show "rmap jint (readU32le bs 5) = Inr ns" "js_slice bs 9 41 = name_id"
    "readU64le bs 41 = Inr sq" "readU64le bs 49 = Inr ex"
    using assms by (auto simp: doc_head_def reader_defs read_le_def js_slice_9_41 in_u64_mod elim!: in_rangeE)
qed

lemma head_split:
  assumes "length magic = 4" "\<not> bad_magic magic bs" "elem_at bs 4 = Some 1" "57 \<le> length bs"
  defines "ns \<equiv> jint (of_le (take 4 (drop 5 bs)))"
    and "sq \<equiv> of_le (take 8 (drop 41 bs))" and "ex \<equiv> of_le (take 8 (drop 49 bs))"
  shows "bs = doc_head magic ns (take 32 (drop 9 bs)) sq ex @ drop 57 bs"
    and "in_range 0xffffffff ns" "length (take 32 (drop 9 bs)) = 32" "in_u64 sq" "in_u64 ex"
proof -
  have m: "take 4 bs = magic" using assms by (simp add: bad_magic_iff)
  have j: "i + k = l \<Longrightarrow> take k (drop i bs) @ drop l bs = drop i bs" for i k l
    using take_drop_join [of k i bs] by auto
  have one: "take 1 (drop 4 bs) = [1]"
    using assms(3,4) by (auto simp: take_Suc_conv_app_nth)
  have "doc_head magic ns (take 32 (drop 9 bs)) sq ex =
      take 4 (drop 0 bs) @ take 1 (drop 4 bs) @ take 4 (drop 5 bs) @ take 32 (drop 9 bs) @
      take 8 (drop 41 bs) @ take 8 (drop 49 bs)"
    using assms(4) by (simp only: one) (simp add: doc_head_def m ns_def sq_def ex_def u32le_of_le u64le_of_le)
  moreover have "take 4 (drop 0 bs) @ take 1 (drop 4 bs) @ take 4 (drop 5 bs) @ take 32 (drop 9 bs) @
      take 8 (drop 41 bs) @ take 8 (drop 49 bs) @ drop 57 bs = drop 0 bs"
    by (subst j, simp)+ simp
  ultimately show "bs = doc_head magic ns (take 32 (drop 9 bs)) sq ex @ drop 57 bs" by simp
  show "in_range 0xffffffff ns" "in_u64 sq" "in_u64 ex"
    unfolding ns_def sq_def ex_def by (rule of_le_field_range)+
  show "length (take 32 (drop 9 bs)) = 32" using assms(4) by simp
qed

text \<open>The optional trailing signature.\<close>

definition opt_bytes :: "bytes option \<Rightarrow> bytes" where
  "opt_bytes s = (case s of None \<Rightarrow> [] | Some b \<Rightarrow> b)"

definition opt_sig_wf :: "bytes option \<Rightarrow> bool" where
  "opt_sig_wf s \<longleftrightarrow> (case s of None \<Rightarrow> True | Some b \<Rightarrow> length b = 64)"

lemma opt_sig_simps [simp]:
  "opt_bytes None = []" "opt_bytes (Some b) = b" "opt_sig_wf None" "opt_sig_wf (Some b) \<longleftrightarrow> length b = 64"
  by (simp_all add: opt_bytes_def opt_sig_wf_def)

end
