(* ===== verification/Wire.thy ===== *)
theory Wire
  imports Codec Unicode
begin

section \<open>Wire protocol v1 (core/src/wire.ts, wire\_limits.ts, wire\_safe.ts)\<close>

text \<open>
  The packet header, the seven message payloads, and the guarded parser. Fields that the code
  checks with \<open>Number.isInteger\<close> are JavaScript numbers; \<open>bigint\<close> fields are integers,
  which \<open>u64le\<close> reduces modulo \<open>2^64\<close> without a check.
\<close>

definition WIRE_MAGIC :: bytes where
  "WIRE_MAGIC = ascii ''DDNS''"

definition WIRE_VERSION :: int where
  "WIRE_VERSION = 1"

definition WIRE_HEADER_LEN :: nat where
  "WIRE_HEADER_LEN = 24"

datatype MsgType = QRY | ANS | ANC | NOT_MSG | GSP | GET | PUT

fun msg_code :: "MsgType \<Rightarrow> jsnum" where
  "msg_code QRY = jint 1"
| "msg_code ANS = jint 2"
| "msg_code ANC = jint 3"
| "msg_code NOT_MSG = jint 4"
| "msg_code GSP = jint 5"
| "msg_code GET = jint 6"
| "msg_code PUT = jint 7"

record WireHeader =
  wh_version :: jsnum
  wh_msg_type :: jsnum
  wh_flags :: jsnum
  wh_req_id :: jsnum
  wh_ns_id :: jsnum
  wh_payload_len :: jsnum
  wh_reserved :: "jsnum option"

record WirePacket =
  wp_header :: WireHeader
  wp_payload :: "bytes option"

definition encodeHeader :: "WireHeader \<Rightarrow> bytes res" where
  "encodeHeader h =
     (if wh_version h \<noteq> jint WIRE_VERSION then throw ''unsupported wire version''
      else if \<not> in_range 0xff (wh_msg_type h) then throw ''msg_type out of range''
      else if \<not> in_range 0xffff (wh_flags h) then throw ''flags out of range''
      else if \<not> in_range 0xffffffff (wh_req_id h) then throw ''req_id out of range''
      else if \<not> in_range 0xffffffff (wh_ns_id h) then throw ''ns_id out of range''
      else if \<not> in_range 0xffffffff (wh_payload_len h) then throw ''payload_len out of range''
      else Inr (concatBytes
        [WIRE_MAGIC,
         u8 (wh_version h),
         u8 (wh_msg_type h),
         u16le (wh_flags h),
         u32le (wh_req_id h),
         u32le (wh_ns_id h),
         u32le (wh_payload_len h),
         u32le (jint 0)]))"

definition decodeHeader :: "bytes \<Rightarrow> WireHeader res" where
  "decodeHeader bs =
     (if length bs < WIRE_HEADER_LEN then throw ''short header''
      else if list_ex (\<lambda>i. bs ! i \<noteq> WIRE_MAGIC ! i) [0..<4] then throw ''bad magic''
      else let version = uint (bs ! 4) in
        if version \<noteq> WIRE_VERSION then throw ''bad version''
        else let msg_type = uint (bs ! 5) in
          rbind (readU16le bs 6) (\<lambda>flags.
          rbind (readU32le bs 8) (\<lambda>req_id.
          rbind (readU32le bs 12) (\<lambda>ns_id.
          rbind (readU32le bs 16) (\<lambda>payload_len.
          rbind (readU32le bs 20) (\<lambda>reserved.
            if reserved \<noteq> 0 then throw ''reserved must be zero''
            else Inr \<lparr>wh_version = jint version, wh_msg_type = jint msg_type, wh_flags = jint flags,
                      wh_req_id = jint req_id, wh_ns_id = jint ns_id,
                      wh_payload_len = jint payload_len, wh_reserved = Some (jint reserved)\<rparr>))))))"

definition encodePacket :: "WirePacket \<Rightarrow> bytes res" where
  "encodePacket packet =
     (let payload = (case wp_payload packet of None \<Rightarrow> [] | Some p \<Rightarrow> p) in
      rbind (encodeHeader ((wp_header packet)\<lparr>wh_payload_len := jint (int (length payload))\<rparr>))
        (\<lambda>headerBytes. Inr (concatBytes [headerBytes, payload])))"

definition decodePacket :: "bytes \<Rightarrow> WirePacket res" where
  "decodePacket bs =
     rbind (decodeHeader bs) (\<lambda>header.
       let total = int WIRE_HEADER_LEN + num_int (wh_payload_len header) in
       if int (length bs) < total then throw ''packet truncated''
       else Inr \<lparr>wp_header = header,
                 wp_payload = Some (js_slice bs (int WIRE_HEADER_LEN) total)\<rparr>)"

subsection \<open>Payload codecs\<close>

record QryPayload =
  qry_name_id :: bytes
  qry_qtype :: jsnum
  qry_min_seq :: int

definition encodeQRY :: "QryPayload \<Rightarrow> bytes res" where
  "encodeQRY p =
     (if length (qry_name_id p) \<noteq> 32 then throw ''name_id must be 32 bytes''
      else if \<not> in_range 0xffff (qry_qtype p) then throw ''qtype out of range''
      else Inr (concatBytes [qry_name_id p, u16le (qry_qtype p), u64le (qry_min_seq p)]))"

definition decodeQRY :: "bytes \<Rightarrow> QryPayload res" where
  "decodeQRY bs =
     (if length bs \<noteq> 32 + 2 + 8 then throw ''bad QRY length''
      else rbind (readU16le bs 32) (\<lambda>qtype. rbind (readU64le bs 34) (\<lambda>min_seq.
        Inr \<lparr>qry_name_id = js_slice bs 0 32, qry_qtype = jint qtype, qry_min_seq = min_seq\<rparr>)))"

record AnsPayload =
  ans_status :: jsnum
  ans_routeset :: bytes

definition encodeANS :: "AnsPayload \<Rightarrow> bytes res" where
  "encodeANS p =
     (if \<not> in_range 0xff (ans_status p) then throw ''status out of range''
      else if length (ans_routeset p) > 0xffffffff then throw ''routeset too large''
      else Inr (concatBytes
        [u8 (ans_status p), u32le (jint (int (length (ans_routeset p)))), ans_routeset p]))"

definition decodeANS :: "bytes \<Rightarrow> AnsPayload res" where
  "decodeANS bs =
     (if length bs < 1 + 4 then throw ''bad ANS length''
      else let status = uint (bs ! 0) in
        rbind (readU32le bs 1) (\<lambda>len.
          if int (length bs) \<noteq> 1 + 4 + len then throw ''bad routeset_len''
          else Inr \<lparr>ans_status = jint status, ans_routeset = js_slice bs 5 (5 + len)\<rparr>))"

record AncPayload =
  anc_status :: jsnum
  anc_anchor :: bytes

definition encodeANC :: "AncPayload \<Rightarrow> bytes res" where
  "encodeANC p =
     (if \<not> in_range 0xff (anc_status p) then throw ''status out of range''
      else if length (anc_anchor p) > 0xffffffff then throw ''anchor too large''
      else Inr (concatBytes
        [u8 (anc_status p), u32le (jint (int (length (anc_anchor p)))), anc_anchor p]))"

definition decodeANC :: "bytes \<Rightarrow> AncPayload res" where
  "decodeANC bs =
     (if length bs < 1 + 4 then throw ''bad ANC length''
      else let status = uint (bs ! 0) in
        rbind (readU32le bs 1) (\<lambda>len.
          if int (length bs) \<noteq> 1 + 4 + len then throw ''bad anchor_len''
          else Inr \<lparr>anc_status = jint status, anc_anchor = js_slice bs 5 (5 + len)\<rparr>))"

text \<open>An absent message and an empty one are both falsy: \<open>p.msg ? ... : new Uint8Array()\<close>.\<close>

record NotPayload =
  not_code :: jsnum
  not_retry :: jsnum
  not_msg :: "ustr option"

definition encodeNOT :: "NotPayload \<Rightarrow> bytes res" where
  "encodeNOT p =
     (if \<not> in_range 0xffff (not_code p) then throw ''code out of range''
      else if \<not> in_range 0xffffffff (not_retry p) then throw ''retry out of range''
      else let msgBytes = (case not_msg p of None \<Rightarrow> [] | Some m \<Rightarrow> if m = [] then [] else text_encode m) in
        if length msgBytes > 0xffff then throw ''msg too long''
        else Inr (concatBytes
          [u16le (not_code p), u32le (not_retry p), u16le (jint (int (length msgBytes))), msgBytes]))"

definition decodeNOT :: "bytes \<Rightarrow> NotPayload res" where
  "decodeNOT bs =
     (if length bs < 2 + 4 + 2 then throw ''bad NOT length''
      else rbind (readU16le bs 0) (\<lambda>code. rbind (readU32le bs 2) (\<lambda>retry. rbind (readU16le bs 6) (\<lambda>msgLen.
        if int (length bs) \<noteq> 8 + msgLen then throw ''bad msg_len''
        else Inr \<lparr>not_code = jint code, not_retry = jint retry,
                  not_msg = (if msgLen \<noteq> 0 then Some (text_decode (js_slice bs 8 (8 + msgLen))) else None)\<rparr>))))"

record GspPayload =
  gsp_name_id :: bytes
  gsp_seq :: int
  gsp_exp :: int
  gsp_routeset_hash :: bytes
  gsp_hops :: jsnum

definition encodeGSP :: "GspPayload \<Rightarrow> bytes res" where
  "encodeGSP p =
     (if length (gsp_name_id p) \<noteq> 32 then throw ''name_id must be 32 bytes''
      else if length (gsp_routeset_hash p) \<noteq> 32 then throw ''routeset_hash must be 32 bytes''
      else if \<not> in_range 0xff (gsp_hops p) then throw ''hops out of range''
      else Inr (concatBytes
        [gsp_name_id p, u64le (gsp_seq p), u64le (gsp_exp p), gsp_routeset_hash p,
         u8 (gsp_hops p), replicate 7 0]))"

definition decodeGSP :: "bytes \<Rightarrow> GspPayload res" where
  "decodeGSP bs =
     (if length bs \<noteq> 32 + 8 + 8 + 32 + 1 + 7 then throw ''bad GSP length''
      else rbind (readU64le bs 32) (\<lambda>sq. rbind (readU64le bs 40) (\<lambda>ex.
        Inr \<lparr>gsp_name_id = js_slice bs 0 32, gsp_seq = sq, gsp_exp = ex,
             gsp_routeset_hash = js_slice bs 48 80, gsp_hops = jint (uint (bs ! 80))\<rparr>)))"

text \<open>The union \<open>GetPayload\<close>; \<open>GetOther\<close> stands for a value outside of it.\<close>

datatype GetPayload = GetByNameSeq bytes int | GetByHash bytes | GetOther

definition encodeGET :: "GetPayload \<Rightarrow> bytes res" where
  "encodeGET p =
     (case p of
        GetByNameSeq name_id sq \<Rightarrow>
          (if length name_id \<noteq> 32 then throw ''name_id must be 32 bytes''
           else Inr (concatBytes [u8 (jint 1), replicate 7 0, name_id, u64le sq, replicate 32 0]))
      | GetByHash h \<Rightarrow>
          (if length h \<noteq> 32 then throw ''hash must be 32 bytes''
           else Inr (concatBytes [u8 (jint 2), replicate 7 0, replicate 32 0, u64le 0, h]))
      | GetOther \<Rightarrow> throw ''bad GET mode'')"

definition decodeGET :: "bytes \<Rightarrow> GetPayload res" where
  "decodeGET bs =
     (if length bs \<noteq> 80 then throw ''bad GET length''
      else let mode = uint (bs ! 0) in
        if mode = 1 then rbind (readU64le bs 40) (\<lambda>sq. Inr (GetByNameSeq (js_slice bs 8 40) sq))
        else if mode = 2 then Inr (GetByHash (js_slice bs 48 80))
        else throw ''bad GET mode'')"

record PutPayload =
  put_routeset :: bytes

definition encodePUT :: "PutPayload \<Rightarrow> bytes res" where
  "encodePUT p =
     (if length (put_routeset p) > 0xffffffff then throw ''routeset too large''
      else Inr (concatBytes [u32le (jint (int (length (put_routeset p)))), put_routeset p]))"

definition decodePUT :: "bytes \<Rightarrow> PutPayload res" where
  "decodePUT bs =
     (if length bs < 4 then throw ''bad PUT length''
      else rbind (readU32le bs 0) (\<lambda>len.
        if int (length bs) \<noteq> 4 + len then throw ''bad routeset_len''
        else Inr \<lparr>put_routeset = js_slice bs 4 (4 + len)\<rparr>))"

subsection \<open>The guarded parser\<close>

record WireLimits =
  maxPacketBytes :: int
  maxPayloadBytes :: int
  maxRouteSetBytes :: int
  maxAnchorBytes :: int
  maxNotMsgBytes :: int

definition DEFAULT_LIMITS :: WireLimits where
  "DEFAULT_LIMITS = \<lparr>maxPacketBytes = 64 * 1024, maxPayloadBytes = 60 * 1024,
     maxRouteSetBytes = 48 * 1024, maxAnchorBytes = 1024, maxNotMsgBytes = 1024\<rparr>"

text \<open>\<open>WireLimits\<close> is \<open>Partial\<close>: a field the caller leaves out takes its default.\<close>

record PartialLimits =
  pl_maxPacketBytes :: "int option"
  pl_maxPayloadBytes :: "int option"
  pl_maxRouteSetBytes :: "int option"
  pl_maxAnchorBytes :: "int option"
  pl_maxNotMsgBytes :: "int option"

definition override :: "'a option \<Rightarrow> 'a \<Rightarrow> 'a" where
  "override a d = (case a of None \<Rightarrow> d | Some x \<Rightarrow> x)"

definition merge_limits :: "PartialLimits \<Rightarrow> WireLimits" where
  "merge_limits p =
     \<lparr>maxPacketBytes = override (pl_maxPacketBytes p) (maxPacketBytes DEFAULT_LIMITS),
      maxPayloadBytes = override (pl_maxPayloadBytes p) (maxPayloadBytes DEFAULT_LIMITS),
      maxRouteSetBytes = override (pl_maxRouteSetBytes p) (maxRouteSetBytes DEFAULT_LIMITS),
      maxAnchorBytes = override (pl_maxAnchorBytes p) (maxAnchorBytes DEFAULT_LIMITS),
      maxNotMsgBytes = override (pl_maxNotMsgBytes p) (maxNotMsgBytes DEFAULT_LIMITS)\<rparr>"

definition check_message :: "WireLimits \<Rightarrow> jsnum \<Rightarrow> bytes \<Rightarrow> unit res" where
  "check_message L msg_type payload =
     (if msg_type = msg_code ANS then
        rbind (decodeANS payload) (\<lambda>ans.
          if int (length (ans_routeset ans)) > maxRouteSetBytes L then throw ''routeset exceeds maxRouteSetBytes''
          else Inr ())
      else if msg_type = msg_code ANC then
        rbind (decodeANC payload) (\<lambda>anc.
          if int (length (anc_anchor anc)) > maxAnchorBytes L then throw ''anchor exceeds maxAnchorBytes''
          else Inr ())
      else if msg_type = msg_code NOT_MSG then
        rbind (decodeNOT payload) (\<lambda>notp.
          case not_msg notp of
            None \<Rightarrow> Inr ()
          | Some m \<Rightarrow> if m \<noteq> [] \<and> int (length (text_encode m)) > maxNotMsgBytes L
                      then throw ''NOT msg exceeds maxNotMsgBytes'' else Inr ())
      else if msg_type = msg_code PUT then
        rbind (decodePUT payload) (\<lambda>p.
          if int (length (put_routeset p)) > maxRouteSetBytes L then throw ''PUT routeset exceeds maxRouteSetBytes''
          else Inr ())
      else Inr ())"

definition parsePacketSafe :: "bytes \<Rightarrow> PartialLimits \<Rightarrow> WirePacket res" where
  "parsePacketSafe bs limits =
     (let L = merge_limits limits in
      if int (length bs) > maxPacketBytes L then throw ''packet exceeds maxPacketBytes''
      else rbind (decodePacket bs) (\<lambda>pkt.
        let payload = (case wp_payload pkt of None \<Rightarrow> [] | Some p \<Rightarrow> p);
            len = num_int (wh_payload_len (wp_header pkt)) in
        if len > maxPayloadBytes L then throw ''payload_len exceeds maxPayloadBytes''
        else if int (length payload) \<noteq> len then throw ''payload length mismatch''
        else rbind (check_message L (wh_msg_type (wp_header pkt)) payload) (\<lambda>_. Inr pkt)))"


section \<open>Properties of the wire protocol\<close>

subsection \<open>Well-formed values\<close>

text \<open>The values an encoder accepts and a decoder can return.\<close>

definition header_wf :: "WireHeader \<Rightarrow> bool" where
  "header_wf h \<longleftrightarrow> wh_version h = jint 1 \<and> in_range 0xff (wh_msg_type h) \<and> in_range 0xffff (wh_flags h) \<and>
     in_range 0xffffffff (wh_req_id h) \<and> in_range 0xffffffff (wh_ns_id h) \<and>
     in_range 0xffffffff (wh_payload_len h) \<and> wh_reserved h = Some (jint 0)"

definition packet_wf :: "WirePacket \<Rightarrow> bool" where
  "packet_wf p \<longleftrightarrow> header_wf (wp_header p) \<and>
     (\<exists>bs. wp_payload p = Some bs \<and> wh_payload_len (wp_header p) = jint (int (length bs)))"

definition qry_wf :: "QryPayload \<Rightarrow> bool" where
  "qry_wf p \<longleftrightarrow> length (qry_name_id p) = 32 \<and> in_range 0xffff (qry_qtype p) \<and> in_u64 (qry_min_seq p)"

definition ans_wf :: "AnsPayload \<Rightarrow> bool" where
  "ans_wf p \<longleftrightarrow> in_range 0xff (ans_status p) \<and> length (ans_routeset p) \<le> 0xffffffff"

definition anc_wf :: "AncPayload \<Rightarrow> bool" where
  "anc_wf p \<longleftrightarrow> in_range 0xff (anc_status p) \<and> length (anc_anchor p) \<le> 0xffffffff"

definition not_wf :: "NotPayload \<Rightarrow> bool" where
  "not_wf p \<longleftrightarrow> in_range 0xffff (not_code p) \<and> in_range 0xffffffff (not_retry p) \<and>
     (case not_msg p of None \<Rightarrow> True
      | Some m \<Rightarrow> m \<noteq> [] \<and> hd m \<noteq> 0xFEFF \<and> well_formed m \<and> length (text_encode m) \<le> 0xffff)"

definition gsp_wf :: "GspPayload \<Rightarrow> bool" where
  "gsp_wf p \<longleftrightarrow> length (gsp_name_id p) = 32 \<and> length (gsp_routeset_hash p) = 32 \<and>
     in_range 0xff (gsp_hops p) \<and> in_u64 (gsp_seq p) \<and> in_u64 (gsp_exp p)"

definition get_wf :: "GetPayload \<Rightarrow> bool" where
  "get_wf p \<longleftrightarrow> (case p of GetByNameSeq n sq \<Rightarrow> length n = 32 \<and> in_u64 sq
     | GetByHash h \<Rightarrow> length h = 32 | GetOther \<Rightarrow> False)"

definition put_wf :: "PutPayload \<Rightarrow> bool" where
  "put_wf p \<longleftrightarrow> length (put_routeset p) \<le> 0xffffffff"

lemma js_slice_lit:
  "js_slice bs 0 32 = take 32 bs" "js_slice bs 8 40 = take 32 (drop 8 bs)"
  "js_slice bs 48 80 = take 32 (drop 48 bs)"
  using slice_nat [of bs 0 32] slice_nat [of bs 8 40] slice_nat [of bs 48 80] by simp_all

lemma js_slice_len:
  "0 \<le> n \<Longrightarrow> js_slice bs 5 (5 + n) = take (nat n) (drop 5 bs)"
  "0 \<le> n \<Longrightarrow> js_slice bs 8 (8 + n) = take (nat n) (drop 8 bs)"
  "0 \<le> n \<Longrightarrow> js_slice bs 4 (4 + n) = take (nat n) (drop 4 bs)"
  "0 \<le> n \<Longrightarrow> js_slice bs 24 (24 + n) = take (nat n) (drop 24 bs)"
  using slice_nat [of bs 5 "5 + nat n"] slice_nat [of bs 8 "8 + nat n"]
    slice_nat [of bs 4 "4 + nat n"] slice_nat [of bs 24 "24 + nat n"] by simp_all

lemmas slice_simps = js_slice_lit js_slice_len

subsection \<open>The header\<close>

definition header_bytes :: "WireHeader \<Rightarrow> bytes" where
  "header_bytes h = WIRE_MAGIC @ u8 (jint 1) @ u8 (wh_msg_type h) @ u16le (wh_flags h) @
     u32le (wh_req_id h) @ u32le (wh_ns_id h) @ u32le (wh_payload_len h) @ u32le (jint 0)"

lemma length_WIRE_MAGIC [simp]: "length WIRE_MAGIC = 4"
  by (simp add: WIRE_MAGIC_def)

lemma length_header_bytes [simp]: "length (header_bytes h) = 24"
  by (simp add: header_bytes_def)

lemma encodeHeader_wf: "header_wf h \<Longrightarrow> encodeHeader h = Inr (header_bytes h)"
  by (simp add: encodeHeader_def header_wf_def header_bytes_def WIRE_VERSION_def)

lemma header_bytes_fields:
  assumes "header_wf h"
  shows "decodeHeader (header_bytes h @ r) = Inr h"
proof -
  obtain ty fl rq ns ln where h: "h = \<lparr>wh_version = jint 1, wh_msg_type = jint ty, wh_flags = jint fl,
      wh_req_id = jint rq, wh_ns_id = jint ns, wh_payload_len = jint ln, wh_reserved = Some (jint 0)\<rparr>"
    and b: "0 \<le> ty" "ty \<le> 0xff" "0 \<le> fl" "fl \<le> 0xffff" "0 \<le> rq" "rq \<le> 0xffffffff"
      "0 \<le> ns" "ns \<le> 0xffffffff" "0 \<le> ln" "ln \<le> 0xffffffff"
    using assms by (cases h) (auto simp: header_wf_def elim!: in_rangeE)
  let ?bs = "header_bytes h @ r"
  have magic: "take 4 ?bs = WIRE_MAGIC" by (simp add: header_bytes_def)
  have "?bs ! i = WIRE_MAGIC ! i" if "i < 4" for i
    using that by (simp add: header_bytes_def nth_append)
  then have "\<not> list_ex (\<lambda>i. ?bs ! i \<noteq> WIRE_MAGIC ! i) [0..<4]" by (auto simp: list_ex_iff)
  moreover have "uint (?bs ! 4) = 1" by (simp add: header_bytes_def nth_append u8_jint)
  moreover have "uint (?bs ! 5) = ty" using b
    by (simp add: header_bytes_def h nth_append u8_jint uint_u8)
  moreover have "readU16le ?bs 6 = Inr fl" "readU32le ?bs 8 = Inr rq" "readU32le ?bs 12 = Inr ns"
    "readU32le ?bs 16 = Inr ln" "readU32le ?bs 20 = Inr 0"
    using b by (simp_all add: header_bytes_def h reader_defs read_le_def)
  ultimately show ?thesis
    by (simp add: decodeHeader_def WIRE_HEADER_LEN_def WIRE_VERSION_def Let_def h)
qed



lemma fields_24:
  assumes "24 \<le> length bs"
  shows "bs = take 4 bs @ [bs ! 4] @ [bs ! 5] @ take 2 (drop 6 bs) @ take 4 (drop 8 bs) @
        take 4 (drop 12 bs) @ take 4 (drop 16 bs) @ take 4 (drop 20 bs) @ drop 24 bs"
proof -
  have t: "take k (drop off bs) @ drop (off + k) bs = drop off bs" for k off
    by (metis append_take_drop_id drop_drop add.commute)
  have c: "[bs ! off] @ drop (off + 1) bs = drop off bs" if "off < 24" for off
    using that assms by (simp add: Cons_nth_drop_Suc)
  show ?thesis
    using t [of 4 0] c [of 4] c [of 5] t [of 2 6] t [of 4 8] t [of 4 12] t [of 4 16] t [of 4 20] by simp
qed

lemma decodeHeader_Inr:
  assumes "decodeHeader bs = Inr h"
  shows "header_wf h \<and> take 24 bs = header_bytes h \<and> 24 \<le> length bs"
proof -
  have len: "24 \<le> length bs" and mg: "\<forall>i < 4. bs ! i = WIRE_MAGIC ! i" and v: "uint (bs ! 4) = 1"
    using assms by (auto simp: decodeHeader_def result_simps WIRE_HEADER_LEN_def WIRE_VERSION_def
        list_ex_iff Let_def)
  let ?f = "\<lambda>k off. take k (drop off bs)"
  have h: "h = \<lparr>wh_version = jint 1, wh_msg_type = jint (uint (bs ! 5)), wh_flags = jint (of_le (?f 2 6)),
      wh_req_id = jint (of_le (?f 4 8)), wh_ns_id = jint (of_le (?f 4 12)),
      wh_payload_len = jint (of_le (?f 4 16)), wh_reserved = Some (jint 0)\<rparr>"
    and z: "of_le (?f 4 20) = 0"
    using assms len by (auto simp: decodeHeader_def result_simps WIRE_HEADER_LEN_def WIRE_VERSION_def
        Let_def reader_defs read_le_def)
  have b: "0 \<le> of_le (?f k off) \<and> of_le (?f k off) < 256 ^ k" if "off + k \<le> length bs" for k off
    using that of_le_nonneg of_le_bound [of "?f k off"] by simp
  have "uint (bs ! 5) < 256" using uint_lt2p [of "bs ! 5"] by simp
  then have wf: "header_wf h"
    using len b [of 6 2] b [of 8 4] b [of 12 4] b [of 16 4] by (simp add: h header_wf_def)
  have m: "take 4 bs = WIRE_MAGIC"
    using len mg by (intro nth_equalityI) auto
  have one: "bs ! 4 = 1" using v by (metis word_uint_eqI uint_1)
  have zero: "?f 4 20 = u32le (jint 0)"
    using len z u32le_of_le [of "?f 4 20"] by simp
  have "header_bytes h = take 4 bs @ [bs ! 4] @ [bs ! 5] @ ?f 2 6 @ ?f 4 8 @ ?f 4 12 @ ?f 4 16 @ ?f 4 20"
    using len by (simp add: header_bytes_def h m one zero u8_jint u16le_of_le u32le_of_le)
  then have "bs = header_bytes h @ drop 24 bs" using fields_24 [OF len] by simp
  then have "take 24 bs = header_bytes h" by (metis length_header_bytes take_append_exact)
  with wf len show ?thesis by simp
qed

lemma decodeHeader_iff:
  "decodeHeader bs = Inr h \<longleftrightarrow> header_wf h \<and> (\<exists>r. bs = header_bytes h @ r)"
  using decodeHeader_Inr header_bytes_fields by (metis append_take_drop_id)

subsection \<open>Packets\<close>

definition packet_bytes :: "WirePacket \<Rightarrow> bytes" where
  "packet_bytes p = header_bytes (wp_header p) @ (case wp_payload p of None \<Rightarrow> [] | Some q \<Rightarrow> q)"

lemma encodePacket_wf: "packet_wf p \<Longrightarrow> encodePacket p = Inr (packet_bytes p)"
proof -
  assume "packet_wf p"
  then obtain h q where p: "p = \<lparr>wp_header = h, wp_payload = Some q\<rparr>" and h: "header_wf h"
    and l: "wh_payload_len h = jint (int (length q))"
    by (cases p) (auto simp: packet_wf_def)
  have "h\<lparr>wh_payload_len := jint (int (length q))\<rparr> = h" unfolding l [symmetric] by simp
  with h show ?thesis by (simp add: p encodePacket_def packet_bytes_def encodeHeader_wf)
qed

lemma decodePacket_Inr:
  assumes "packet_wf p"
  shows "decodePacket (packet_bytes p @ r) = Inr p"
proof -
  obtain h q where p: "p = \<lparr>wp_header = h, wp_payload = Some q\<rparr>" and h: "header_wf h"
    and l: "wh_payload_len h = jint (int (length q))"
    using assms by (cases p) (auto simp: packet_wf_def)
  have "num_int (wh_payload_len h) = int (length q)" using l by (simp only: num_int_jint)
  then show ?thesis
    by (simp add: decodePacket_def p packet_bytes_def header_bytes_fields h WIRE_HEADER_LEN_def slice_simps)
qed

lemma decodePacket_Inr_iff:
  "decodePacket bs = Inr p \<longleftrightarrow> packet_wf p \<and> (\<exists>r. bs = packet_bytes p @ r)"
proof
  assume *: "decodePacket bs = Inr p"
  then obtain h where d: "decodeHeader bs = Inr h" by (auto simp: decodePacket_def result_simps)
  then obtain r where wf: "header_wf h" and bs: "bs = header_bytes h @ r"
    by (auto simp: decodeHeader_iff)
  from wf obtain n where n: "wh_payload_len h = jint n" "0 \<le> n"
    by (auto simp: header_wf_def in_range_iff)
  then have ni: "num_int (wh_payload_len h) = n" by simp
  have le: "n \<le> int (length r)" and p: "p = \<lparr>wp_header = h, wp_payload = Some (take (nat n) r)\<rparr>"
    using * n(2) by (auto simp: decodePacket_def d [unfolded bs] ni bs WIRE_HEADER_LEN_def Let_def slice_simps split: if_splits)
  have "packet_wf p" using wf n le by (simp add: p packet_wf_def)
  moreover have "bs = packet_bytes p @ drop (nat n) r" by (simp add: p packet_bytes_def bs)
  ultimately show "packet_wf p \<and> (\<exists>r. bs = packet_bytes p @ r)" by blast
qed (auto simp: decodePacket_Inr)

interpretation packet_codec: codec encodePacket decodePacket packet_wf
  by unfold_locales (metis append_Nil2 decodePacket_Inr encodePacket_wf)


subsection \<open>Payloads\<close>

lemma encodeQRY_wf: "qry_wf p \<Longrightarrow> encodeQRY p = Inr (qry_name_id p @ u16le (qry_qtype p) @ u64le (qry_min_seq p))"
  by (simp add: encodeQRY_def qry_wf_def)

interpretation qry_codec: strict_codec encodeQRY decodeQRY qry_wf
proof
  fix p assume wf: "qry_wf p"
  then obtain i where "qry_qtype p = jint i" "0 \<le> i" "i \<le> 0xffff" by (auto simp: qry_wf_def elim: in_rangeE)
  with wf show "\<exists>bs. encodeQRY p = Inr bs \<and> decodeQRY bs = Inr p"
    by (cases p) (simp add: encodeQRY_wf, simp add: decodeQRY_def qry_wf_def reader_defs read_le_def in_u64_mod slice_simps)
next
  fix bs p assume "decodeQRY bs = Inr p"
  then have len: "length bs = 42" and p: "p = \<lparr>qry_name_id = take 32 bs,
      qry_qtype = jint (of_le (take 2 (drop 32 bs))), qry_min_seq = of_le (take 8 (drop 34 bs))\<rparr>"
    by (auto simp: decodeQRY_def result_simps reader_defs read_le_def slice_simps split: if_splits)
  have wf: "qry_wf p" using len using of_le_field_range(3) [of "drop 34 bs"]
    by (simp add: p qry_wf_def of_le_field_range(1) del: in_range_jint)
  have "bs = take 32 bs @ take 2 (drop 32 bs) @ take 8 (drop 34 bs)"
    using take_drop_join [of 32 0 bs] take_drop_join [of 2 32 bs] len by simp
  with wf len show "qry_wf p \<and> encodeQRY p = Inr bs"
    by (simp add: encodeQRY_wf) (simp add: p u16le_of_le u64le_of_le)
qed

text \<open>\<open>ANS\<close> and \<open>ANC\<close> share their layout: a status byte and a length-prefixed blob.\<close>

definition blob_bytes :: "jsnum \<Rightarrow> bytes \<Rightarrow> bytes" where
  "blob_bytes st b = u8 st @ u32le (jint (int (length b))) @ b"

lemma blob_bytes_read:
  assumes "in_range 0xff st" "length b \<le> 0xffffffff"
  shows "length (blob_bytes st b) = 5 + length b" "jint (uint (blob_bytes st b ! 0)) = st"
    "readU32le (blob_bytes st b) (Suc 0) = Inr (int (length b))" "drop 5 (blob_bytes st b) = b"
  using assms by (auto simp: blob_bytes_def reader_defs read_le_def u8_jint uint_u8 elim!: in_rangeE)

lemma blob_bytes_split:
  assumes "5 \<le> length bs" "int (length bs) = 5 + of_le (take 4 (drop 1 bs))"
  shows "bs = blob_bytes (jint (uint (bs ! 0))) (drop 5 bs)"
    and "length (drop 5 bs) \<le> 0xffffffff"
proof -
  have l: "of_le (take 4 (drop 1 bs)) = int (length (drop 5 bs))" using assms by simp
  have "bs = [bs ! 0] @ take 4 (drop 1 bs) @ drop 5 bs"
    using assms(1) take_drop_join [of 4 1 bs] by (cases bs) auto
  moreover have "u32le (jint (int (length (drop 5 bs)))) = take 4 (drop 1 bs)"
    unfolding l [symmetric] using assms(1) by (intro u32le_of_le) simp
  ultimately show "bs = blob_bytes (jint (uint (bs ! 0))) (drop 5 bs)"
    unfolding blob_bytes_def u8_jint word_of_int_uint by metis
  show "length (drop 5 bs) \<le> 0xffffffff"
    using of_le_take_bound [of 4 "drop 1 bs"] l by simp
qed

lemma encodeANS_wf: "ans_wf p \<Longrightarrow> encodeANS p = Inr (blob_bytes (ans_status p) (ans_routeset p))"
  by (simp add: encodeANS_def ans_wf_def blob_bytes_def)

lemma encodeANC_wf: "anc_wf p \<Longrightarrow> encodeANC p = Inr (blob_bytes (anc_status p) (anc_anchor p))"
  by (simp add: encodeANC_def anc_wf_def blob_bytes_def)

interpretation ans_codec: strict_codec encodeANS decodeANS ans_wf
proof
  fix p assume "ans_wf p"
  then show "\<exists>bs. encodeANS p = Inr bs \<and> decodeANS bs = Inr p"
    by (cases p) (simp add: encodeANS_wf, simp add: decodeANS_def ans_wf_def blob_bytes_read slice_simps)
next
  fix bs p assume "decodeANS bs = Inr p"
  then have len: "5 \<le> length bs" "int (length bs) = 5 + of_le (take 4 (drop 1 bs))"
    and p: "p = \<lparr>ans_status = jint (uint (bs ! 0)), ans_routeset = drop 5 bs\<rparr>"
    by (auto simp: decodeANS_def result_simps reader_defs read_le_def Let_def slice_simps of_le_nonneg split: if_splits)
  have "ans_wf p"
    using blob_bytes_split(2) [OF len] by (simp add: p ans_wf_def uint_byte_range del: in_range_jint)
  with blob_bytes_split(1) [OF len] show "ans_wf p \<and> encodeANS p = Inr bs"
    by (simp add: encodeANS_wf) (simp add: p)
qed

interpretation anc_codec: strict_codec encodeANC decodeANC anc_wf
proof
  fix p assume "anc_wf p"
  then show "\<exists>bs. encodeANC p = Inr bs \<and> decodeANC bs = Inr p"
    by (cases p) (simp add: encodeANC_wf, simp add: decodeANC_def anc_wf_def blob_bytes_read slice_simps)
next
  fix bs p assume "decodeANC bs = Inr p"
  then have len: "5 \<le> length bs" "int (length bs) = 5 + of_le (take 4 (drop 1 bs))"
    and p: "p = \<lparr>anc_status = jint (uint (bs ! 0)), anc_anchor = drop 5 bs\<rparr>"
    by (auto simp: decodeANC_def result_simps reader_defs read_le_def Let_def slice_simps of_le_nonneg split: if_splits)
  have "anc_wf p"
    using blob_bytes_split(2) [OF len] by (simp add: p anc_wf_def uint_byte_range del: in_range_jint)
  with blob_bytes_split(1) [OF len] show "anc_wf p \<and> encodeANC p = Inr bs"
    by (simp add: encodeANC_wf) (simp add: p)
qed

lemma encodePUT_wf:
  "put_wf p \<Longrightarrow> encodePUT p = Inr (u32le (jint (int (length (put_routeset p)))) @ put_routeset p)"
  by (simp add: encodePUT_def put_wf_def)

interpretation put_codec: strict_codec encodePUT decodePUT put_wf
proof
  fix p assume "put_wf p"
  then show "\<exists>bs. encodePUT p = Inr bs \<and> decodePUT bs = Inr p"
    by (cases p) (simp add: encodePUT_wf, simp add: decodePUT_def put_wf_def reader_defs read_le_def slice_simps)
next
  fix bs p assume "decodePUT bs = Inr p"
  then have len: "4 \<le> length bs" "int (length bs) = 4 + of_le (take 4 bs)"
    and p: "p = \<lparr>put_routeset = drop 4 bs\<rparr>"
    by (auto simp: decodePUT_def result_simps reader_defs read_le_def slice_simps of_le_nonneg split: if_splits)
  have l: "of_le (take 4 bs) = int (length (drop 4 bs))" using len by simp
  have "put_wf p" using of_le_take_bound [of 4 bs] len by (simp add: p put_wf_def)
  moreover have "u32le (jint (int (length (drop 4 bs)))) = take 4 bs"
    unfolding l [symmetric] using len by (intro u32le_of_le) simp
  ultimately show "put_wf p \<and> encodePUT p = Inr bs"
    by (simp only: encodePUT_wf p PutPayload.simps) simp
qed

interpretation not_codec: codec encodeNOT decodeNOT not_wf
proof
  fix p assume wf: "not_wf p"
  then obtain c r where c: "not_code p = jint c" "0 \<le> c" "c \<le> 0xffff"
    and r: "not_retry p = jint r" "0 \<le> r" "r \<le> 0xffffffff"
    by (auto simp: not_wf_def elim!: in_rangeE)
  show "\<exists>bs. encodeNOT p = Inr bs \<and> decodeNOT bs = Inr p"
  proof (cases "not_msg p")
    case None
    with c r show ?thesis
      by (cases p) (simp add: encodeNOT_def decodeNOT_def reader_defs read_le_def Let_def of_le_u16le [of 0, simplified])
  next
    case (Some m)
    with wf have m: "m \<noteq> []" "hd m \<noteq> 0xFEFF" "well_formed m" "length (text_encode m) \<le> 0xffff"
      by (auto simp: not_wf_def)
    then have "text_decode (text_encode m) = m" "text_encode m \<noteq> []"
      by (simp_all add: text_decode_encode text_encode_eq_Nil)
    with c r m Some show ?thesis
      by (cases p) (simp add: encodeNOT_def decodeNOT_def reader_defs read_le_def Let_def slice_simps)
  qed
qed

interpretation gsp_codec: codec encodeGSP decodeGSP gsp_wf
proof
  fix p assume wf: "gsp_wf p"
  then obtain i where "gsp_hops p = jint i" "0 \<le> i" "i \<le> 0xff" by (auto simp: gsp_wf_def elim: in_rangeE)
  with wf show "\<exists>bs. encodeGSP p = Inr bs \<and> decodeGSP bs = Inr p"
    by (cases p) (simp add: encodeGSP_def decodeGSP_def gsp_wf_def reader_defs read_le_def
        in_u64_mod slice_simps nth_append u8_jint uint_u8)
qed

interpretation get_codec: codec encodeGET decodeGET get_wf
proof
  fix p assume wf: "get_wf p"
  then show "\<exists>bs. encodeGET p = Inr bs \<and> decodeGET bs = Inr p"
    by (cases p) (simp_all add: encodeGET_def decodeGET_def get_wf_def reader_defs read_le_def
        in_u64_mod slice_simps)
qed


subsection \<open>The guarded parser\<close>

text \<open>What the message of a packet has to satisfy under the limits: the blob it embeds decodes and
  is no longer than its own limit.\<close>

fun message_within :: "WireLimits \<Rightarrow> jsnum \<Rightarrow> bytes \<Rightarrow> bool" where
  "message_within L ty payload =
     (if ty = msg_code ANS then (\<exists>a. decodeANS payload = Inr a \<and> int (length (ans_routeset a)) \<le> maxRouteSetBytes L)
      else if ty = msg_code ANC then (\<exists>a. decodeANC payload = Inr a \<and> int (length (anc_anchor a)) \<le> maxAnchorBytes L)
      else if ty = msg_code NOT_MSG then (\<exists>n. decodeNOT payload = Inr n \<and>
        (\<forall>m. not_msg n = Some m \<longrightarrow> m = [] \<or> int (length (text_encode m)) \<le> maxNotMsgBytes L))
      else if ty = msg_code PUT then (\<exists>r. decodePUT payload = Inr r \<and> int (length (put_routeset r)) \<le> maxRouteSetBytes L)
      else True)"

lemma check_message_iff: "check_message L ty payload = Inr () \<longleftrightarrow> message_within L ty payload"
  by (auto simp: check_message_def result_simps not_less split: option.splits if_splits)

lemma decodePacket_length:
  assumes "decodePacket bs = Inr p"
  shows "\<exists>q. wp_payload p = Some q \<and> num_int (wh_payload_len (wp_header p)) = int (length q)"
  using assms by (force simp: decodePacket_Inr_iff packet_wf_def)

lemma parsePacketSafe_Inr:
  "parsePacketSafe bs limits = Inr p \<longleftrightarrow>
     decodePacket bs = Inr p \<and> int (length bs) \<le> maxPacketBytes (merge_limits limits) \<and>
     (\<exists>q. wp_payload p = Some q \<and> int (length q) \<le> maxPayloadBytes (merge_limits limits) \<and>
        message_within (merge_limits limits) (wh_msg_type (wp_header p)) q)"
  using decodePacket_length [of bs p]
  by (auto simp: parsePacketSafe_def result_simps Let_def check_message_iff not_less
      simp del: message_within.simps)

section \<open>Claims\<close>

text \<open>C1: the packet parser accepts a byte string as packet \<open>p\<close> exactly when \<open>p\<close> is in range, its
  payload length field is the length of its payload, and the string starts with the encoding of
  \<open>p\<close>. Nothing malformed is accepted, nothing well-formed is refused, and what follows the
  payload is ignored.\<close>

theorem decodePacket_exact:
  "decodePacket bs = Inr p \<longleftrightarrow> packet_wf p \<and> (\<exists>enc r. encodePacket p = Inr enc \<and> bs = enc @ r)"
  using encodePacket_wf by (auto simp: decodePacket_Inr_iff)

text \<open>C6: the decoders of the \<open>QRY\<close>, \<open>ANS\<close>, \<open>ANC\<close> and \<open>PUT\<close> payloads are exact inverses of
  their encoders: a byte string decodes to a value precisely when the value is in range and the
  string is its encoding, so a payload has one wire form.\<close>

theorem payload_codecs_strict:
  "(decodeQRY bs = Inr q \<longleftrightarrow> qry_wf q \<and> encodeQRY q = Inr bs) \<and>
   (decodeANS bs = Inr a \<longleftrightarrow> ans_wf a \<and> encodeANS a = Inr bs) \<and>
   (decodeANC bs = Inr c \<longleftrightarrow> anc_wf c \<and> encodeANC c = Inr bs) \<and>
   (decodePUT bs = Inr r \<longleftrightarrow> put_wf r \<and> encodePUT r = Inr bs)"
  by (intro conjI qry_codec.dec_iff ans_codec.dec_iff anc_codec.dec_iff put_codec.dec_iff)

text \<open>The \<open>NOT\<close>, \<open>GSP\<close> and \<open>GET\<close> payloads survive a round trip. A notice carries any
  well-formed text that is not empty and does not start with a byte order mark, whose UTF-8 form
  is at most 65535 bytes; sequence numbers and expiries are 64-bit.\<close>

theorem payload_codecs_roundtrip:
  assumes "not_wf n" "gsp_wf g" "get_wf t"
  shows "rbind (encodeNOT n) decodeNOT = Inr n \<and> rbind (encodeGSP g) decodeGSP = Inr g \<and>
    rbind (encodeGET t) decodeGET = Inr t"
  using assms by (intro conjI not_codec.roundtrip gsp_codec.roundtrip get_codec.roundtrip)

definition example_not :: NotPayload where
  "example_not = \<lparr>not_code = jint 404, not_retry = jint 30, not_msg = Some [0x6E, 0xE9, 0x20AC]\<rparr>"

definition example_gsp :: GspPayload where
  "example_gsp = \<lparr>gsp_name_id = replicate 32 1, gsp_seq = 7, gsp_exp = 9,
     gsp_routeset_hash = replicate 32 2, gsp_hops = jint 3\<rparr>"

theorem payload_codecs_roundtrip_witness:
  "rbind (encodeNOT example_not) decodeNOT = Inr example_not \<and>
   rbind (encodeGSP example_gsp) decodeGSP = Inr example_gsp \<and>
   rbind (encodeGET (GetByHash (replicate 32 5))) decodeGET = Inr (GetByHash (replicate 32 5))"
proof (rule payload_codecs_roundtrip)
  show "not_wf example_not"
    by (simp add: not_wf_def example_not_def in_range_def high_surrogate_def low_surrogate_def
        scalar_unit_def text_encode_def utf8_def)
  show "gsp_wf example_gsp" by (simp add: gsp_wf_def example_gsp_def in_u64_def in_range_def)
  show "get_wf (GetByHash (replicate 32 5))" by (simp add: get_wf_def)
qed

text \<open>C11: the guarded parser returns a packet exactly when the packet decodes, the datagram, the
  payload and the embedded route set, anchor or notice text are within the limits in force, and
  the embedded message decodes.\<close>

theorem parsePacketSafe_exact:
  "parsePacketSafe bs limits = Inr p \<longleftrightarrow>
     decodePacket bs = Inr p \<and> int (length bs) \<le> maxPacketBytes (merge_limits limits) \<and>
     (\<exists>q. wp_payload p = Some q \<and> int (length q) \<le> maxPayloadBytes (merge_limits limits) \<and>
        message_within (merge_limits limits) (wh_msg_type (wp_header p)) q)"
  by (rule parsePacketSafe_Inr)

end
