(* ===== verification/RouteSet.thy ===== *)
theory RouteSet
  imports Doc_Head Stable_Sort Crypto
begin

section \<open>Signed route sets (core/src/outeset.ts)\<close>

text \<open>
  A route set is the list of DNS records of a name with its sequence number, expiry and owner key,
  signed by the owner. The hash \<open>blake3\<close> and the signature scheme are parameters.
\<close>

record RecordV1 =
  rr_type :: jsnum
  rr_class :: jsnum
  rr_ttl :: jsnum
  rr_rdata :: bytes

record RouteSetV1 =
  rs_ns_id :: jsnum
  rs_name_id :: bytes
  rs_seq :: int
  rs_exp :: int
  rs_records :: "RecordV1 list"
  rs_owner_pub :: bytes
  rs_sig :: "bytes option"

definition RS_MAGIC :: bytes where
  "RS_MAGIC = ascii ''RSET''"

definition record_cmp :: "RecordV1 \<Rightarrow> RecordV1 \<Rightarrow> int" where
  "record_cmp a b =
     (if nneq (rr_type a) (rr_type b) then cmp_num (rr_type a) (rr_type b)
      else if nneq (rr_ttl a) (rr_ttl b) then cmp_num (rr_ttl a) (rr_ttl b)
      else cmp_list (map uint (rr_rdata a)) (map uint (rr_rdata b)))"

definition sortRecordsCanonical :: "RecordV1 list \<Rightarrow> RecordV1 list" where
  "sortRecordsCanonical recs = js_sort record_cmp recs"

definition encodeRecord :: "RecordV1 \<Rightarrow> bytes res" where
  "encodeRecord r =
     (if \<not> in_range 0xffff (rr_type r) then throw ''rr_type out of range''
      else if \<not> in_range 0xffff (rr_class r) then throw ''rr_class out of range''
      else if \<not> in_range 0xffffffff (rr_ttl r) then throw ''ttl out of range''
      else if length (rr_rdata r) > 0xffff then throw ''rdata too long''
      else Inr (concatBytes [u16le (rr_type r), u16le (rr_class r), u32le (rr_ttl r),
        u16le (jint (int (length (rr_rdata r)))), rr_rdata r]))"

definition encodeRouteSetV1 :: "RouteSetV1 \<Rightarrow> bool \<Rightarrow> bytes res" where
  "encodeRouteSetV1 rs canonicalize =
     (if length (rs_name_id rs) \<noteq> 32 then throw ''name_id must be 32 bytes''
      else if length (rs_owner_pub rs) \<noteq> 32 then throw ''owner_pub must be 32 bytes''
      else if \<not> in_range 0xffffffff (rs_ns_id rs) then throw ''ns_id out of range''
      else if (case rs_sig rs of None \<Rightarrow> False | Some s \<Rightarrow> length s \<noteq> 64) then throw ''sig must be 64 bytes''
      else let records = (if canonicalize then sortRecordsCanonical (rs_records rs) else rs_records rs) in
        rbind (traverse encodeRecord records) (\<lambda>recParts.
          let header = concatBytes [RS_MAGIC, u8 (jint 1), u32le (rs_ns_id rs), rs_name_id rs,
                u64le (rs_seq rs), u64le (rs_exp rs), u32le (jint (int (length records)))];
              body = concatBytes (recParts @ [rs_owner_pub rs]);
              withoutSig = concatBytes [header, body]
          in case rs_sig rs of None \<Rightarrow> Inr withoutSig | Some s \<Rightarrow> Inr (concatBytes [withoutSig, s])))"

text \<open>The record loop of the decoder, with the offset after the last record.\<close>

fun decode_records :: "nat \<Rightarrow> bytes \<Rightarrow> nat \<Rightarrow> (RecordV1 list \<times> nat) res" where
  "decode_records 0 bs off = Inr ([], off)"
| "decode_records (Suc n) bs off =
     rbind (readU16le bs off) (\<lambda>ty.
     rbind (readU16le bs (off + 2)) (\<lambda>cl.
     rbind (readU32le bs (off + 4)) (\<lambda>ttl.
     rbind (readU16le bs (off + 8)) (\<lambda>rlen.
       let rdata = js_slice bs (int off + 10) (int off + 10 + rlen) in
       rbind (decode_records n bs (off + 10 + nat rlen)) (\<lambda>(rs, off').
         Inr (\<lparr>rr_type = jint ty, rr_class = jint cl, rr_ttl = jint ttl, rr_rdata = rdata\<rparr> # rs, off'))))))"

definition decodeRouteSetV1 :: "bytes \<Rightarrow> RouteSetV1 res" where
  "decodeRouteSetV1 bs =
     (let magic = js_slice bs 0 4 in
      if list_ex (\<lambda>i. elem_at magic i \<noteq> Some (ascii ''RSET'' ! i)) [0..<4] then throw ''bad magic''
      else if elem_at bs 4 \<noteq> Some 1 then throw ''bad version''
      else
        rbind (readU32le bs 5) (\<lambda>ns_id.
        let name_id = js_slice bs 9 41 in
        rbind (readU64le bs 41) (\<lambda>sq.
        rbind (readU64le bs 49) (\<lambda>ex.
        rbind (readU32le bs 57) (\<lambda>record_count.
        rbind (decode_records (nat record_count) bs 61) (\<lambda>(records, off).
          let owner_pub = js_slice bs (int off) (int off + 32);
              sig = (if off + 32 + 64 \<le> length bs then Some (js_slice bs (int off + 32) (int off + 96)) else None)
          in Inr \<lparr>rs_ns_id = jint ns_id, rs_name_id = name_id, rs_seq = sq, rs_exp = ex,
                  rs_records = records, rs_owner_pub = owner_pub, rs_sig = sig\<rparr>))))))"

definition routesetHash :: "(bytes \<Rightarrow> bytes) \<Rightarrow> bytes \<Rightarrow> bytes" where
  "routesetHash blake3 routesetBytes = blake3 routesetBytes"

definition signRouteSetV1 :: "ed25519 \<Rightarrow> RouteSetV1 \<Rightarrow> bytes \<Rightarrow> RouteSetV1 res" where
  "signRouteSetV1 E rs privSeed32 =
     rbind (encodeRouteSetV1 (rs\<lparr>rs_sig := None\<rparr>) True) (\<lambda>bytesNoSig.
     rbind (ed25519Sign E privSeed32 bytesNoSig) (\<lambda>sig.
       Inr (rs\<lparr>rs_sig := Some sig\<rparr>)))"

definition verifyRouteSetV1 :: "ed25519 \<Rightarrow> bytes \<Rightarrow> bool \<Rightarrow> bool res" where
  "verifyRouteSetV1 E routesetBytes requireCanonical =
     rbind (decodeRouteSetV1 routesetBytes) (\<lambda>rs.
       case rs_sig rs of None \<Rightarrow> Inr False
       | Some sig \<Rightarrow>
           (let check = (\<lambda>_. let payload = js_slice routesetBytes 0 (int (length routesetBytes) - 64)
                             in ed25519Verify E (rs_owner_pub rs) payload sig)
            in if requireCanonical then
                 rbind (encodeRouteSetV1 rs True) (\<lambda>recoded.
                   if length recoded \<noteq> length routesetBytes then Inr False
                   else if list_ex (\<lambda>i. recoded ! i \<noteq> routesetBytes ! i) [0..<length recoded] then Inr False
                   else check ())
               else check ()))"


section \<open>Properties of route sets\<close>

definition record_wf :: "RecordV1 \<Rightarrow> bool" where
  "record_wf r \<longleftrightarrow> in_range 0xffff (rr_type r) \<and> in_range 0xffff (rr_class r) \<and>
     in_range 0xffffffff (rr_ttl r) \<and> length (rr_rdata r) \<le> 0xffff"

definition routeset_wf :: "RouteSetV1 \<Rightarrow> bool" where
  "routeset_wf rs \<longleftrightarrow> length (rs_name_id rs) = 32 \<and> length (rs_owner_pub rs) = 32 \<and>
     in_range 0xffffffff (rs_ns_id rs) \<and> in_u64 (rs_seq rs) \<and> in_u64 (rs_exp rs) \<and> list_all record_wf (rs_records rs) \<and>
     length (rs_records rs) \<le> 0xffffffff \<and> opt_sig_wf (rs_sig rs)"

definition record_bytes :: "RecordV1 \<Rightarrow> bytes" where
  "record_bytes r = u16le (rr_type r) @ u16le (rr_class r) @ u32le (rr_ttl r) @
     u16le (jint (int (length (rr_rdata r)))) @ rr_rdata r"

definition routeset_bytes :: "RouteSetV1 \<Rightarrow> bytes" where
  "routeset_bytes rs = doc_head RS_MAGIC (rs_ns_id rs) (rs_name_id rs) (rs_seq rs) (rs_exp rs) @
     u32le (jint (int (length (rs_records rs)))) @ concat (map record_bytes (rs_records rs)) @ rs_owner_pub rs"

subsection \<open>Canonical order\<close>

lemma record_cmp_key:
  assumes "record_wf a" "record_wf b"
  shows "record_cmp a b \<le> 0 \<longleftrightarrow>
    cmp_key (\<lambda>r. num_int (rr_type r)) (cmp_key (\<lambda>r. num_int (rr_ttl r))
      (\<lambda>x y. cmp_list (map uint (rr_rdata x)) (map uint (rr_rdata y)))) a b \<le> 0"
  using assms by (auto simp: record_cmp_def cmp_key_def record_wf_def in_range_iff)

lemma comparator_record_cmp: "list_all record_wf recs \<Longrightarrow> comparator_on (set recs) record_cmp"
  by (rule comparator_on_cong [OF comparator_on_cmp_key [OF comparator_on_cmp_key [OF comparator_on_cmp_list]]])
    (simp add: record_cmp_key list_all_iff)

lemma sortRecordsCanonical_simps [simp]:
  "mset (sortRecordsCanonical recs) = mset recs" "length (sortRecordsCanonical recs) = length recs"
  "set (sortRecordsCanonical recs) = set recs"
  by (simp_all add: sortRecordsCanonical_def)

lemma list_all_sortRecords [simp]: "list_all P (sortRecordsCanonical recs) = list_all P recs"
  by (simp add: list_all_iff)

lemma sortRecordsCanonical_idem:
  "list_all record_wf recs \<Longrightarrow> sortRecordsCanonical (sortRecordsCanonical recs) = sortRecordsCanonical recs"
  by (simp add: sortRecordsCanonical_def js_sort_idem comparator_record_cmp)

text \<open>Ties are between records that differ in their class at most.\<close>

lemma map_uint_inj: "map uint (xs :: byte list) = map uint ys \<longleftrightarrow> xs = ys"
  by (metis inj_map_eq_map inj_onI word_uint_eqI)

lemma record_cmp_antisym:
  assumes "record_wf a" "record_wf b" "record_cmp a b \<le> 0" "record_cmp b a \<le> 0" "rr_class a = rr_class b"
  shows "a = b"
proof -
  have ty: "rr_type a = rr_type b" and tt: "rr_ttl a = rr_ttl b"
    using assms by (auto simp: record_cmp_def record_wf_def in_range_iff split: if_splits)
  then have "\<not> nneq (rr_type a) (rr_type b)" "\<not> nneq (rr_ttl a) (rr_ttl b)"
    using assms(1) by (auto simp: record_wf_def in_range_iff)
  with assms(3,4) ty tt have "map uint (rr_rdata a) = map uint (rr_rdata b)"
    by (intro cmp_list_antisym) (simp_all add: record_cmp_def)
  with ty tt assms(5) show ?thesis by (cases a; cases b) (simp add: map_uint_inj)
qed

lemma sortRecordsCanonical_perm:
  assumes "list_all record_wf recs" "mset recs = mset recs'"
    "\<And>a b. a \<in> set recs \<Longrightarrow> b \<in> set recs \<Longrightarrow> rr_class a = rr_class b"
  shows "sortRecordsCanonical recs = sortRecordsCanonical recs'"
  unfolding sortRecordsCanonical_def
proof (rule js_sort_perm)
  show "comparator_on (set recs) record_cmp" using assms(1) by (rule comparator_record_cmp)
  show "mset recs = mset recs'" by (rule assms(2))
  fix a b
  assume "a \<in> set recs" "b \<in> set recs" "record_cmp a b \<le> 0" "record_cmp b a \<le> 0"
  then show "a = b" using assms(1,3) by (auto simp: list_all_iff intro: record_cmp_antisym)
qed

subsection \<open>Encoding\<close>

lemma encodeRecord_wf: "record_wf r \<Longrightarrow> encodeRecord r = Inr (record_bytes r)"
  by (simp add: encodeRecord_def record_wf_def record_bytes_def)

lemma encodeRecord_Inr: "encodeRecord r = Inr b \<Longrightarrow> record_wf r \<and> b = record_bytes r"
  by (auto simp: encodeRecord_def record_wf_def record_bytes_def result_simps)

lemma traverse_encodeRecord:
  "list_all record_wf recs \<Longrightarrow> traverse encodeRecord recs = Inr (map record_bytes recs)"
  by (rule traverse_Inr_map) (simp add: encodeRecord_wf list_all_iff)

definition canonical :: "bool \<Rightarrow> RouteSetV1 \<Rightarrow> RouteSetV1" where
  "canonical c rs = (if c then rs\<lparr>rs_records := sortRecordsCanonical (rs_records rs)\<rparr> else rs)"

lemma encodeRouteSetV1_wf:
  "routeset_wf rs \<Longrightarrow> encodeRouteSetV1 rs c = Inr (routeset_bytes (canonical c rs) @ opt_bytes (rs_sig rs))"
  by (auto simp: encodeRouteSetV1_def routeset_wf_def traverse_encodeRecord routeset_bytes_def
      doc_head_def canonical_def Let_def split: option.splits)

lemma canonical_wf [simp]: "routeset_wf (canonical c rs) = routeset_wf rs"
  by (simp add: routeset_wf_def canonical_def)


subsection \<open>Decoding\<close>

lemma length_record_bytes [simp]: "length (record_bytes r) = 10 + length (rr_rdata r)"
  by (simp add: record_bytes_def)

lemma record_read:
  fixes rest :: bytes
  assumes "record_wf r" "length pre = off"
  defines "bs \<equiv> pre @ record_bytes r @ (rest :: bytes)"
  shows "rmap jint (readU16le bs off) = Inr (rr_type r)"
    "rmap jint (readU16le bs (off + 2)) = Inr (rr_class r)"
    "rmap jint (readU32le bs (off + 4)) = Inr (rr_ttl r)"
    "readU16le bs (off + 8) = Inr (int (length (rr_rdata r)))"
    "js_slice bs (int off + 10) (int off + 10 + int (length (rr_rdata r))) = rr_rdata r"
  using assms by (auto simp: record_bytes_def record_wf_def reader_defs read_le_def slice_offset elim!: in_rangeE)

lemma decode_records_bytes:
  "length pre = off \<Longrightarrow> list_all record_wf recs \<Longrightarrow>
     decode_records (length recs) (pre @ concat (map record_bytes recs) @ rest) off =
       Inr (recs, off + length (concat (map record_bytes recs)))"
proof (induction recs arbitrary: pre off)
  case (Cons r recs)
  let ?rest = "concat (map record_bytes recs) @ rest"
  have wf: "record_wf r" using Cons.prems by simp
  have "length (pre @ record_bytes r) = off + 10 + length (rr_rdata r)"
    using Cons.prems by simp
  from Cons.IH [OF this] Cons.prems
  have IH: "decode_records (length recs) (pre @ record_bytes r @ ?rest) (off + 10 + length (rr_rdata r)) =
      Inr (recs, off + 10 + length (rr_rdata r) + length (concat (map record_bytes recs)))"
    by simp
  show ?case
    using record_read [OF wf Cons.prems(1), of ?rest] IH by (auto simp: rmap_eq_Inr Let_def)
qed simp

lemma decode_records_Inr:
  "decode_records n bs off = Inr (recs, off') \<Longrightarrow> off \<le> off' \<and> length recs = n \<and>
     (off' \<le> length bs \<longrightarrow> list_all record_wf recs \<and>
        take (off' - off) (drop off bs) = concat (map record_bytes recs))"
proof (induction n arbitrary: off recs)
  case (Suc n)
  let ?f = "\<lambda>k i. take k (drop (off + i) bs)"
  define m where "m = of_le (?f 2 8)"
  have m: "0 \<le> m" "m \<le> 0xffff"
    using of_le_take_bound [of 2 "drop (off + 8) bs"] by (simp_all add: m_def)
  from Suc.prems obtain recs' where len: "off + 10 \<le> length bs"
    and d: "decode_records n bs (off + 10 + nat m) = Inr (recs', off')"
    and r: "recs = \<lparr>rr_type = jint (of_le (?f 2 0)), rr_class = jint (of_le (?f 2 2)), rr_ttl = jint (of_le (?f 4 4)),
      rr_rdata = ?f (nat m) 10\<rparr> # recs'"
    using m by (auto simp: result_simps reader_defs read_le_def Let_def slice_offset m_def split: if_splits)
  note IH = Suc.IH [OF d]
  have "list_all record_wf recs \<and> take (off' - off) (drop off bs) = concat (map record_bytes recs)"
    if "off' \<le> length bs"
  proof -
    have nm: "length (?f (nat m) 10) = nat m" using that IH by (simp add: min_def) arith
    have rb: "record_bytes (hd recs) = ?f 2 0 @ ?f 2 2 @ ?f 4 4 @ ?f 2 8 @ ?f (nat m) 10"
      using len m nm by (simp add: r record_bytes_def u16le_of_le u32le_of_le) (simp add: m_def u16le_of_le)
    have j: "i + k = l \<Longrightarrow> ?f k i @ drop (off + l) bs = drop (off + i) bs" for i k l
      using take_drop_join [of k "off + i" bs] by (auto simp: add.assoc)
    have "drop (off + 0) bs = record_bytes (hd recs) @ drop (off + (10 + nat m)) bs"
      unfolding rb append_assoc by (subst j, simp)+ simp
    then have "drop off bs = record_bytes (hd recs) @ drop (off + 10 + nat m) bs"
      by (simp add: add.assoc)
    moreover have "length (record_bytes (hd recs)) = 10 + nat m" using nm by (simp add: r)
    moreover obtain e where "off' = off + 10 + nat m + e" using IH le_Suc_ex by blast
    ultimately have "take (off' - off) (drop off bs) =
        record_bytes (hd recs) @ take (off' - (off + 10 + nat m)) (drop (off + 10 + nat m) bs)"
      by (simp del: length_record_bytes)
    moreover have "record_wf (hd recs)"
      using m nm by (simp add: r record_wf_def of_le_field_range del: in_range_jint)
    ultimately show ?thesis using IH that by (simp add: r)
  qed
  with IH show ?case by (auto simp: r)
qed simp


lemma RS_MAGIC_simps [simp]: "length RS_MAGIC = 4"
  by (simp add: RS_MAGIC_def)

lemma decodeRouteSetV1_magic:
  "decodeRouteSetV1 bs =
     (if bad_magic RS_MAGIC bs then throw ''bad magic''
      else if elem_at bs 4 \<noteq> Some 1 then throw ''bad version''
      else
        rbind (readU32le bs 5) (\<lambda>ns_id.
        rbind (readU64le bs 41) (\<lambda>sq.
        rbind (readU64le bs 49) (\<lambda>ex.
        rbind (readU32le bs 57) (\<lambda>record_count.
        rbind (decode_records (nat record_count) bs 61) (\<lambda>(records, off).
          Inr \<lparr>rs_ns_id = jint ns_id, rs_name_id = js_slice bs 9 41, rs_seq = sq, rs_exp = ex,
               rs_records = records, rs_owner_pub = take 32 (drop off bs),
               rs_sig = (if off + 32 + 64 \<le> length bs then Some (take 64 (drop (off + 32) bs)) else None)\<rparr>))))))"
proof -
  have "js_slice bs (int off) (int off + 32) = take 32 (drop off bs)"
    "js_slice bs (int off + 32) (int off + 96) = take 64 (drop (off + 32) bs)" for off
    by (simp_all add: slice_nonneg nat_add_distrib)
  then show ?thesis
    unfolding decodeRouteSetV1_def bad_magic_def RS_MAGIC_def Let_def by (simp only:)
qed

lemma decodeRouteSetV1_bytes:
  assumes wf: "routeset_wf rs" and r: "rs_sig rs = None \<Longrightarrow> length r < 64"
  shows "decodeRouteSetV1 (routeset_bytes rs @ opt_bytes (rs_sig rs) @ r) = Inr rs"
proof -
  define count body tail where "count = u32le (jint (int (length (rs_records rs))))"
    and "body = concat (map record_bytes (rs_records rs))"
    and "tail = rs_owner_pub rs @ opt_bytes (rs_sig rs) @ r"
  define head where "head = doc_head RS_MAGIC (rs_ns_id rs) (rs_name_id rs) (rs_seq rs) (rs_exp rs)"
  define bs where "bs = head @ count @ body @ tail"
  have eq: "routeset_bytes rs @ opt_bytes (rs_sig rs) @ r = bs"
    by (simp add: routeset_bytes_def bs_def head_def count_def body_def tail_def)
  have lens: "length head = 57" "length count = 4"
    using wf by (simp_all add: head_def count_def length_doc_head routeset_wf_def)
  have hd: "\<not> bad_magic RS_MAGIC bs" "elem_at bs 4 = Some 1" "rmap jint (readU32le bs 5) = Inr (rs_ns_id rs)"
    "js_slice bs 9 41 = rs_name_id rs" "readU64le bs 41 = Inr (rs_seq rs)" "readU64le bs 49 = Inr (rs_exp rs)"
    unfolding bs_def head_def by (rule head_read; use wf in \<open>simp add: routeset_wf_def\<close>)+
  have cnt: "readU32le bs 57 = Inr (int (length (rs_records rs)))"
    using wf lens by (simp add: bs_def reader_defs read_le_def routeset_wf_def) (simp add: count_def)
  have rec: "decode_records (length (rs_records rs)) bs 61 = Inr (rs_records rs, 61 + length body)"
    using decode_records_bytes [of "head @ count" 61 "rs_records rs" tail] lens wf
    by (simp add: bs_def body_def routeset_wf_def)
  have drop: "drop (61 + length body) bs = tail" using lens by (simp add: bs_def)
  have pub: "take 32 (drop (61 + length body) bs) = rs_owner_pub rs"
    using wf by (simp add: drop tail_def routeset_wf_def)
  have "(if 61 + length body + 32 + 64 \<le> length bs then Some (take 64 (drop (61 + length body + 32) bs)) else None) = rs_sig rs"
  proof -
    have "drop (61 + length body + 32) bs = opt_bytes (rs_sig rs) @ r"
      using drop drop_drop [of 32 "61 + length body" bs] wf
      by (simp add: tail_def routeset_wf_def add.commute)
    moreover have "length bs = 61 + length body + 32 + length (opt_bytes (rs_sig rs) @ r)"
      using lens wf by (simp add: bs_def tail_def routeset_wf_def)
    ultimately show ?thesis using wf r by (cases "rs_sig rs") (auto simp: routeset_wf_def)
  qed
  with hd cnt rec pub show ?thesis
    unfolding eq decodeRouteSetV1_magic by (auto simp: rmap_eq_Inr)
qed


lemma decodeRouteSetV1_Inr:
  assumes "decodeRouteSetV1 bs = Inr rs" "length (rs_owner_pub rs) = 32"
  shows "routeset_wf rs \<and>
    (\<exists>r. bs = routeset_bytes rs @ opt_bytes (rs_sig rs) @ r \<and> (rs_sig rs = None \<longrightarrow> length r < 64))"
proof -
  let ?f = "\<lambda>k i. take k (drop i bs)"
  obtain recs off where len: "61 \<le> length bs"
    and mg: "\<not> bad_magic RS_MAGIC bs" and v: "elem_at bs 4 = Some 1"
    and rec: "decode_records (nat (of_le (?f 4 57))) bs 61 = Inr (recs, off)"
    and rs: "rs = \<lparr>rs_ns_id = jint (of_le (?f 4 5)), rs_name_id = ?f 32 9, rs_seq = of_le (?f 8 41),
      rs_exp = of_le (?f 8 49), rs_records = recs, rs_owner_pub = ?f 32 off,
      rs_sig = (if off + 32 + 64 \<le> length bs then Some (?f 64 (off + 32)) else None)\<rparr>"
    using assms(1) unfolding decodeRouteSetV1_magic
    by (auto simp: result_simps reader_defs read_le_def js_slice_9_41 split: if_splits)
  have off: "off + 32 \<le> length bs" using assms(2) by (simp add: rs min_def split: if_splits)
  note R = decode_records_Inr [OF rec]
  then have wfr: "list_all record_wf recs" and cat: "concat (map record_bytes recs) = ?f (off - 61) 61"
    and le: "61 \<le> off" and cnt: "int (length recs) = of_le (?f 4 57)"
    using off of_le_nonneg by auto
  have len57: "57 \<le> length bs" using len by simp
  note H = head_split [OF RS_MAGIC_simps mg v len57]
  have cb: "u32le (jint (int (length recs))) = ?f 4 57"
    unfolding cnt using len by (intro u32le_of_le) simp
  have j: "i + k = l \<Longrightarrow> ?f k i @ drop l bs = drop i bs" for i k l
    using take_drop_join [of k i bs] by auto
  have tail: "drop 57 bs = ?f 4 57 @ ?f (off - 61) 61 @ ?f 32 off @ drop (off + 32) bs"
    using j [of 57 4 61] j [of 61 "off - 61" off] j [of off 32 "off + 32"] le by simp
  have bs: "bs = routeset_bytes rs @ drop (off + 32) bs"
    using H(1) tail by (simp add: routeset_bytes_def rs cat cb)
  have "length recs \<le> 0xffffffff" using cnt of_le_take_bound [of 4 "drop 57 bs"] by simp
  then have wf: "routeset_wf rs"
    using H(2-5) wfr off by (simp add: rs routeset_wf_def del: in_range_jint)
  show ?thesis
  proof (cases "off + 32 + 64 \<le> length bs")
    case True
    then have "bs = routeset_bytes rs @ opt_bytes (rs_sig rs) @ drop (off + 32 + 64) bs"
      using bs j [of "off + 32" 64 "off + 32 + 64"] by (simp add: rs)
    with wf True show ?thesis by (auto simp: rs)
  next
    case False
    with wf bs show ?thesis by (auto simp: rs)
  qed
qed

interpretation routeset_codec: codec "\<lambda>rs. encodeRouteSetV1 rs False" decodeRouteSetV1 routeset_wf
proof
  fix rs assume "routeset_wf rs"
  then show "\<exists>bs. encodeRouteSetV1 rs False = Inr bs \<and> decodeRouteSetV1 bs = Inr rs"
    using decodeRouteSetV1_bytes [of rs "[]"] by (simp add: encodeRouteSetV1_wf canonical_def)
qed

interpretation canonical_codec: codec "\<lambda>rs. encodeRouteSetV1 rs True" decodeRouteSetV1
  "\<lambda>rs. routeset_wf rs \<and> sortRecordsCanonical (rs_records rs) = rs_records rs"
proof
  fix rs assume "routeset_wf rs \<and> sortRecordsCanonical (rs_records rs) = rs_records rs"
  then show "\<exists>bs. encodeRouteSetV1 rs True = Inr bs \<and> decodeRouteSetV1 bs = Inr rs"
    using decodeRouteSetV1_bytes [of rs "[]"] by (simp add: encodeRouteSetV1_wf canonical_def)
qed

subsection \<open>Signing and verifying\<close>

lemma encodeRouteSetV1_checks:
  "encodeRouteSetV1 rs c = Inr bs \<Longrightarrow> length (rs_owner_pub rs) = 32"
  by (auto simp: encodeRouteSetV1_def split: if_splits)

lemma list_ex_differ:
  "length xs = length ys \<Longrightarrow> list_ex (\<lambda>i. xs ! i \<noteq> ys ! i) [0..<length xs] \<longleftrightarrow> xs \<noteq> ys"
  unfolding list_ex_iff by (metis atLeastLessThan_iff nth_equalityI set_upt zero_le)

text \<open>Comparing two byte arrays by length and then element by element.\<close>

lemma byte_compare:
  "(if length xs \<noteq> length ys then n else if list_ex (\<lambda>i. xs ! i \<noteq> ys ! i) [0..<length xs] then n else k) =
     (if xs = ys then k else n)"
  using list_ex_differ [of xs ys] by auto

lemma verifyRouteSetV1_True:
  "verifyRouteSetV1 E bs rc = Inr True \<longleftrightarrow>
     (\<exists>rs sig. decodeRouteSetV1 bs = Inr rs \<and> rs_sig rs = Some sig \<and>
        (rc \<longrightarrow> encodeRouteSetV1 rs True = Inr bs) \<and>
        ed25519Verify E (rs_owner_pub rs) (js_slice bs 0 (int (length bs) - 64)) sig = Inr True)"
proof (cases "decodeRouteSetV1 bs")
  case (Inr rs)
  then show ?thesis
    unfolding verifyRouteSetV1_def Let_def byte_compare
    by (cases "rs_sig rs"; cases rc; cases "encodeRouteSetV1 rs True") simp_all
qed (simp add: verifyRouteSetV1_def)

lemma canonical_unsigned:
  "routeset_bytes (canonical c (rs\<lparr>rs_sig := s\<rparr>)) = routeset_bytes (canonical c rs)"
  by (simp add: canonical_def routeset_bytes_def)

lemma routeset_wf_unsigned: "routeset_wf rs \<Longrightarrow> opt_sig_wf s \<Longrightarrow> routeset_wf (rs\<lparr>rs_sig := s\<rparr>)"
  by (simp add: routeset_wf_def)

lemma signed_payload:
  "length sig = 64 \<Longrightarrow> js_slice (b @ sig) 0 (int (length (b @ sig)) - 64) = (b :: bytes)"
  using slice_drop_end [of 64 "b @ sig"] by simp

lemma verify_canonical_iff:
  "verifyRouteSetV1 E bs True = Inr True \<longleftrightarrow>
     (\<exists>rs sig m. rs_sig rs = Some sig \<and> routeset_wf rs \<and> sortRecordsCanonical (rs_records rs) = rs_records rs \<and>
        encodeRouteSetV1 rs True = Inr bs \<and> encodeRouteSetV1 (rs\<lparr>rs_sig := None\<rparr>) True = Inr m \<and>
        ed25519Verify E (rs_owner_pub rs) m sig = Inr True)" (is "?L = ?R")
proof
  assume ?L
  then obtain rs sig where d: "decodeRouteSetV1 bs = Inr rs" and s: "rs_sig rs = Some sig"
    and e: "encodeRouteSetV1 rs True = Inr bs"
    and v: "ed25519Verify E (rs_owner_pub rs) (js_slice bs 0 (int (length bs) - 64)) sig = Inr True"
    by (auto simp: verifyRouteSetV1_True)
  from d encodeRouteSetV1_checks [OF e] have wf: "routeset_wf rs" by (blast dest: decodeRouteSetV1_Inr)
  let ?c = "canonical True rs"
  have bs: "bs = routeset_bytes ?c @ sig" using e wf s by (simp add: encodeRouteSetV1_wf)
  have "decodeRouteSetV1 (routeset_bytes ?c @ opt_bytes (rs_sig ?c) @ []) = Inr ?c"
    by (rule decodeRouteSetV1_bytes) (use wf s in \<open>simp_all add: canonical_def routeset_wf_def\<close>)
  then have "?c = rs" using d bs s by (simp add: canonical_def)
  then have "sortRecordsCanonical (rs_records rs) = rs_records rs"
    by (metis canonical_def RouteSetV1.select_convs(5) RouteSetV1.surjective RouteSetV1.update_convs(5))
  moreover have "length sig = 64" using wf s by (simp add: routeset_wf_def)
  moreover have "encodeRouteSetV1 (rs\<lparr>rs_sig := None\<rparr>) True = Inr (routeset_bytes ?c)"
    using wf by (simp add: encodeRouteSetV1_wf routeset_wf_unsigned canonical_unsigned)
  moreover from calculation have "js_slice bs 0 (int (length bs) - 64) = routeset_bytes ?c"
    unfolding bs by (intro signed_payload)
  ultimately show ?R using s wf e v by auto
next
  assume ?R
  then obtain rs sig m where s: "rs_sig rs = Some sig" and wf: "routeset_wf rs"
    and srt: "sortRecordsCanonical (rs_records rs) = rs_records rs"
    and e: "encodeRouteSetV1 rs True = Inr bs" and m: "encodeRouteSetV1 (rs\<lparr>rs_sig := None\<rparr>) True = Inr m"
    and v: "ed25519Verify E (rs_owner_pub rs) m sig = Inr True" by blast
  have "length sig = 64" using wf s by (simp add: routeset_wf_def)
  moreover have "bs = m @ sig"
    using wf s e m by (simp add: encodeRouteSetV1_wf routeset_wf_unsigned canonical_unsigned)
  ultimately have "js_slice bs 0 (int (length bs) - 64) = m" using signed_payload by simp
  moreover have "decodeRouteSetV1 bs = Inr rs" using canonical_codec.decodes e wf srt by blast
  ultimately show ?L using s e v by (auto simp: verifyRouteSetV1_True)
qed


lemma sort_fields [simp]:
  "routeset_wf (rs\<lparr>rs_records := sortRecordsCanonical (rs_records rs)\<rparr>) = routeset_wf rs"
  using canonical_wf [of True rs] by (simp add: canonical_def)

lemma canonical_idem: "routeset_wf rs \<Longrightarrow> canonical True (canonical True rs) = canonical True rs"
  by (simp add: canonical_def routeset_wf_def sortRecordsCanonical_idem)

lemma signRouteSetV1_verifies:
  assumes E: "ed25519_laws E" "ed25519KeypairFromSeed E seed = Inr (rs_owner_pub rs, priv)"
    and wf: "routeset_wf rs"
  shows "\<exists>signed bs. signRouteSetV1 E rs priv = Inr signed \<and> encodeRouteSetV1 signed True = Inr bs \<and>
    verifyRouteSetV1 E bs c = Inr True"
proof -
  let ?m = "routeset_bytes (canonical True rs)"
  have seed: "length priv = 32" using E(2) by (auto simp: ed25519KeypairFromSeed_def split: if_splits)
  then obtain sig where sig: "ed25519Sign E priv ?m = Inr sig" by (simp add: ed25519Sign_def)
  note V = sign_verifies [OF E sig]
  let ?s = "rs\<lparr>rs_sig := Some sig\<rparr>"
  have s: "signRouteSetV1 E rs priv = Inr ?s"
    using sig wf by (simp add: signRouteSetV1_def encodeRouteSetV1_wf routeset_wf_unsigned canonical_unsigned)
  have wfs: "routeset_wf ?s" using wf V(3) by (simp add: routeset_wf_unsigned)
  have e: "encodeRouteSetV1 ?s True = Inr (?m @ sig)"
    using wfs by (simp add: encodeRouteSetV1_wf canonical_unsigned)
  let ?d = "canonical True ?s"
  have wfd: "routeset_wf ?d" using wfs by (simp only: canonical_wf)
  have dsig: "rs_sig ?d = Some sig" and dpub: "rs_owner_pub ?d = rs_owner_pub rs"
    by (simp_all add: canonical_def)
  have "decodeRouteSetV1 (?m @ sig) = Inr ?d"
    using decodeRouteSetV1_bytes [OF wfd, of "[]"] dsig by (simp add: canonical_unsigned)
  moreover have "encodeRouteSetV1 ?d True = Inr (?m @ sig)"
    using wfd wfs dsig by (simp add: encodeRouteSetV1_wf canonical_idem canonical_unsigned)
  ultimately have "verifyRouteSetV1 E (?m @ sig) c = Inr True"
    using V(1) dsig dpub signed_payload [OF V(3), of ?m] by (auto simp: verifyRouteSetV1_True)
  with s e show ?thesis by blast
qed

section \<open>Claims\<close>

text \<open>Decoding a route set whose owner key is complete succeeds exactly on the encodings of
  in-range route sets. Only bytes after the signature, or a tail too short to be one, are
  ignored.\<close>

theorem decodeRouteSetV1_exact:
  "decodeRouteSetV1 bs = Inr rs \<and> length (rs_owner_pub rs) = 32 \<longleftrightarrow>
     routeset_wf rs \<and> (\<exists>enc r. encodeRouteSetV1 rs False = Inr enc \<and> bs = enc @ r \<and>
       (case rs_sig rs of None \<Rightarrow> length r < 64 | Some _ \<Rightarrow> True))" (is "?L = ?R")
proof
  assume ?L
  then show ?R
    using decodeRouteSetV1_Inr [of bs rs]
    by (auto simp: encodeRouteSetV1_wf canonical_def split: option.splits)
next
  assume ?R
  then show ?L
    using decodeRouteSetV1_bytes [of rs]
    by (auto simp: encodeRouteSetV1_wf canonical_def routeset_wf_def split: option.splits)
qed

text \<open>C2: what a strict verification (\<open>requireCanonical\<close>) means: it answers true exactly for the
  canonical encoding of an in-range route set, with its records in canonical order, whose last 64
  bytes are a signature, under the owner key in it, of the encoding without signature. No byte can
  be appended, no record reordered.\<close>

theorem verifyRouteSetV1_strict:
  "verifyRouteSetV1 E bs True = Inr True \<longleftrightarrow>
     (\<exists>rs sig m. rs_sig rs = Some sig \<and> routeset_wf rs \<and> sortRecordsCanonical (rs_records rs) = rs_records rs \<and>
        encodeRouteSetV1 rs True = Inr bs \<and> encodeRouteSetV1 (rs\<lparr>rs_sig := None\<rparr>) True = Inr m \<and>
        ed25519Verify E (rs_owner_pub rs) m sig = Inr True)"
  by (rule verify_canonical_iff)

text \<open>A route set signed with the seed of its owner key verifies once encoded, with the canonical
  check and without it.\<close>

theorem signRouteSetV1_sound:
  assumes "ed25519_laws E" "ed25519KeypairFromSeed E seed = Inr (rs_owner_pub rs, priv)" "routeset_wf rs"
  shows "\<exists>signed bs. signRouteSetV1 E rs priv = Inr signed \<and> encodeRouteSetV1 signed True = Inr bs \<and>
    verifyRouteSetV1 E bs c = Inr True"
  using assms by (rule signRouteSetV1_verifies)

definition example_routeset :: RouteSetV1 where
  "example_routeset = \<lparr>rs_ns_id = jint 1, rs_name_id = replicate 32 7, rs_seq = 3, rs_exp = 99,
     rs_records = [\<lparr>rr_type = jint 28, rr_class = jint 1, rr_ttl = jint 60, rr_rdata = replicate 16 2\<rparr>,
       \<lparr>rr_type = jint 1, rr_class = jint 1, rr_ttl = jint 60, rr_rdata = [10, 0, 0, 1]\<rparr>],
     rs_owner_pub = replicate 32 9, rs_sig = None\<rparr>"

lemma example_routeset_wf: "routeset_wf example_routeset"
  by (simp add: routeset_wf_def example_routeset_def record_wf_def in_u64_def in_range_def)

theorem signRouteSetV1_sound_witness:
  "\<exists>signed bs. signRouteSetV1 toy_ed25519 example_routeset (replicate 32 9) = Inr signed \<and>
     encodeRouteSetV1 signed True = Inr bs \<and> verifyRouteSetV1 toy_ed25519 bs True = Inr True"
proof (rule signRouteSetV1_sound)
  show "ed25519_laws toy_ed25519" by (rule toy_ed25519_laws)
  show "ed25519KeypairFromSeed toy_ed25519 (replicate 32 9) = Inr (rs_owner_pub example_routeset, replicate 32 9)"
    by (simp add: ed25519KeypairFromSeed_def toy_ed25519_def example_routeset_def)
  show "routeset_wf example_routeset" by (rule example_routeset_wf)
qed

text \<open>The canonical encoding does not depend on the order in which the records are given, as long
  as they share one class; so the owner's signature does not either.\<close>

theorem encodeRouteSetV1_order:
  assumes "list_all record_wf recs" "mset recs = mset recs'" "list_all (\<lambda>r. rr_class r = cls) recs"
  shows "encodeRouteSetV1 (rs\<lparr>rs_records := recs\<rparr>) True = encodeRouteSetV1 (rs\<lparr>rs_records := recs'\<rparr>) True"
proof -
  have "sortRecordsCanonical recs = sortRecordsCanonical recs'"
    using assms by (intro sortRecordsCanonical_perm) (auto simp: list_all_iff)
  then show ?thesis by (simp add: encodeRouteSetV1_def)
qed

theorem encodeRouteSetV1_order_witness:
  "encodeRouteSetV1 example_routeset True =
     encodeRouteSetV1 (example_routeset\<lparr>rs_records := rev (rs_records example_routeset)\<rparr>) True"
  using encodeRouteSetV1_order [of "rs_records example_routeset" "rev (rs_records example_routeset)" "jint 1" example_routeset]
    example_routeset_wf
  by (simp add: routeset_wf_def) (simp add: example_routeset_def)

text \<open>The class is no sort key: two records that differ only in it keep the order they came in, and
  the two orders encode differently.\<close>

lemma encodeRouteSetV1_class_order:
  defines "r1 \<equiv> \<lparr>rr_type = jint 1, rr_class = jint 1, rr_ttl = jint 60, rr_rdata = []\<rparr>"
    and "r3 \<equiv> \<lparr>rr_type = jint 1, rr_class = jint 3, rr_ttl = jint 60, rr_rdata = []\<rparr>"
  shows "sortRecordsCanonical [r1, r3] = [r1, r3] \<and> sortRecordsCanonical [r3, r1] = [r3, r1] \<and> r1 \<noteq> r3"
  by (simp add: r1_def r3_def sortRecordsCanonical_def record_cmp_def)

end
