(* ===== verification/Anchor.thy ===== *)
theory Anchor
  imports RouteSet
begin

section \<open>Anchors (core/src/anchor.ts)\<close>

text \<open>
  An anchor commits to a route set by its hash: a signed document of fixed length. The default of
  \<open>verifyAnchorV1\<close> insists on that length.
\<close>

record AnchorV1 =
  an_ns_id :: jsnum
  an_name_id :: bytes
  an_seq :: int
  an_exp :: int
  an_routeset_hash :: bytes
  an_owner_pub :: bytes
  an_sig :: "bytes option"

definition AN_MAGIC :: bytes where
  "AN_MAGIC = ascii ''ANCH''"

definition ANCHOR_V1_LEN :: nat where
  "ANCHOR_V1_LEN = 185"

definition encodeAnchorV1 :: "AnchorV1 \<Rightarrow> bytes res" where
  "encodeAnchorV1 a =
     (if \<not> in_range 0xffffffff (an_ns_id a) then throw ''ns_id out of range''
      else if length (an_name_id a) \<noteq> 32 then throw ''name_id must be 32 bytes''
      else if length (an_routeset_hash a) \<noteq> 32 then throw ''routeset_hash must be 32 bytes''
      else if length (an_owner_pub a) \<noteq> 32 then throw ''owner_pub must be 32 bytes''
      else if (case an_sig a of None \<Rightarrow> False | Some s \<Rightarrow> length s \<noteq> 64) then throw ''sig must be 64 bytes''
      else let withoutSig = concatBytes [AN_MAGIC, u8 (jint 1), u32le (an_ns_id a), an_name_id a,
             u64le (an_seq a), u64le (an_exp a), an_routeset_hash a, an_owner_pub a]
        in case an_sig a of Some s \<Rightarrow> Inr (concatBytes [withoutSig, s]) | None \<Rightarrow> Inr withoutSig)"

definition decodeAnchorV1 :: "bytes \<Rightarrow> AnchorV1 res" where
  "decodeAnchorV1 bs =
     (if length bs < ANCHOR_V1_LEN - 64 then throw ''anchor too short''
      else let magic = js_slice bs 0 4 in
      if list_ex (\<lambda>i. elem_at magic i \<noteq> Some (ascii ''ANCH'' ! i)) [0..<4] then throw ''bad magic''
      else if elem_at bs 4 \<noteq> Some 1 then throw ''bad version''
      else
        rbind (readU32le bs 5) (\<lambda>ns_id.
        let name_id = js_slice bs 9 41 in
        rbind (readU64le bs 41) (\<lambda>sq.
        rbind (readU64le bs 49) (\<lambda>ex.
        let routeset_hash = js_slice bs 57 89;
            owner_pub = js_slice bs 89 121;
            sig = (if 121 + 64 \<le> length bs then Some (js_slice bs 121 185) else None)
        in Inr \<lparr>an_ns_id = jint ns_id, an_name_id = name_id, an_seq = sq, an_exp = ex,
             an_routeset_hash = routeset_hash, an_owner_pub = owner_pub, an_sig = sig\<rparr>))))"

definition buildAnchorV1 :: "ed25519 \<Rightarrow> AnchorV1 \<Rightarrow> bytes \<Rightarrow> bytes res" where
  "buildAnchorV1 E params privSeed32 =
     rbind (encodeAnchorV1 (params\<lparr>an_sig := None\<rparr>)) (\<lambda>noSigBytes.
     rbind (ed25519Sign E privSeed32 noSigBytes) (\<lambda>sig.
       encodeAnchorV1 (params\<lparr>an_sig := Some sig\<rparr>)))"

definition verifyAnchorV1 :: "ed25519 \<Rightarrow> bytes \<Rightarrow> bool \<Rightarrow> bool res" where
  "verifyAnchorV1 E anchorBytes requireLength =
     (if requireLength \<and> length anchorBytes \<noteq> ANCHOR_V1_LEN then Inr False
      else rbind (decodeAnchorV1 anchorBytes) (\<lambda>a.
        case an_sig a of None \<Rightarrow> Inr False
        | Some sig \<Rightarrow>
            (let payload = js_slice anchorBytes 0 (int (length anchorBytes) - 64)
             in ed25519Verify E (an_owner_pub a) payload sig)))"

definition anchorHash :: "(bytes \<Rightarrow> bytes) \<Rightarrow> bytes \<Rightarrow> bytes" where
  "anchorHash blake3 anchorBytes = blake3 anchorBytes"

text \<open>The loop compares the first 32 positions; a shorter hash reads \<open>undefined\<close>.\<close>

definition anchorMatchesRouteSet :: "(bytes \<Rightarrow> bytes) \<Rightarrow> bytes \<Rightarrow> bytes \<Rightarrow> bool res" where
  "anchorMatchesRouteSet blake3 anchorBytes routesetBytes =
     rbind (decodeAnchorV1 anchorBytes) (\<lambda>a.
       let h = routesetHash blake3 routesetBytes in
       Inr (\<not> list_ex (\<lambda>i. elem_at (an_routeset_hash a) i \<noteq> elem_at h i) [0..<32]))"

section \<open>Properties of anchors\<close>

definition anchor_wf :: "AnchorV1 \<Rightarrow> bool" where
  "anchor_wf a \<longleftrightarrow> in_range 0xffffffff (an_ns_id a) \<and> length (an_name_id a) = 32 \<and> in_u64 (an_seq a) \<and>
     in_u64 (an_exp a) \<and> length (an_routeset_hash a) = 32 \<and> length (an_owner_pub a) = 32 \<and>
     opt_sig_wf (an_sig a)"

definition anchor_bytes :: "AnchorV1 \<Rightarrow> bytes" where
  "anchor_bytes a = doc_head AN_MAGIC (an_ns_id a) (an_name_id a) (an_seq a) (an_exp a) @
     an_routeset_hash a @ an_owner_pub a"

lemma AN_MAGIC_simps [simp]: "length AN_MAGIC = 4"
  by (simp add: AN_MAGIC_def)

lemma length_anchor_bytes: "anchor_wf a \<Longrightarrow> length (anchor_bytes a) = 121"
  by (simp add: anchor_bytes_def anchor_wf_def length_doc_head)

lemma anchor_bytes_sig [simp]: "anchor_bytes (a\<lparr>an_sig := s\<rparr>) = anchor_bytes a"
  by (simp add: anchor_bytes_def)

lemma anchor_wf_sig: "anchor_wf a \<Longrightarrow> opt_sig_wf s \<Longrightarrow> anchor_wf (a\<lparr>an_sig := s\<rparr>)"
  by (simp add: anchor_wf_def)

lemma encodeAnchorV1_wf: "anchor_wf a \<Longrightarrow> encodeAnchorV1 a = Inr (anchor_bytes a @ opt_bytes (an_sig a))"
  by (auto simp: encodeAnchorV1_def anchor_wf_def anchor_bytes_def doc_head_def Let_def split: option.splits)

lemma decodeAnchorV1_magic:
  "decodeAnchorV1 bs =
     (if length bs < 121 then throw ''anchor too short''
      else if bad_magic AN_MAGIC bs then throw ''bad magic''
      else if elem_at bs 4 \<noteq> Some 1 then throw ''bad version''
      else
        rbind (readU32le bs 5) (\<lambda>ns_id.
        rbind (readU64le bs 41) (\<lambda>sq.
        rbind (readU64le bs 49) (\<lambda>ex.
          Inr \<lparr>an_ns_id = jint ns_id, an_name_id = js_slice bs 9 41, an_seq = sq, an_exp = ex,
               an_routeset_hash = take 32 (drop 57 bs), an_owner_pub = take 32 (drop 89 bs),
               an_sig = (if 185 \<le> length bs then Some (take 64 (drop 121 bs)) else None)\<rparr>))))"
proof -
  have "js_slice bs 57 89 = take 32 (drop 57 bs)" "js_slice bs 89 121 = take 32 (drop 89 bs)"
    "js_slice bs 121 185 = take 64 (drop 121 bs)"
    by (simp_all add: slice_nonneg)
  then show ?thesis
    unfolding decodeAnchorV1_def bad_magic_def AN_MAGIC_def Let_def ANCHOR_V1_LEN_def by simp
qed

lemma decodeAnchorV1_bytes:
  assumes wf: "anchor_wf a" and r: "an_sig a = None \<Longrightarrow> length r < 64"
  shows "decodeAnchorV1 (anchor_bytes a @ opt_bytes (an_sig a) @ r) = Inr a"
proof -
  define head where "head = doc_head AN_MAGIC (an_ns_id a) (an_name_id a) (an_seq a) (an_exp a)"
  define bs where "bs = head @ an_routeset_hash a @ an_owner_pub a @ opt_bytes (an_sig a) @ r"
  have eq: "anchor_bytes a @ opt_bytes (an_sig a) @ r = bs"
    by (simp add: anchor_bytes_def bs_def head_def)
  have l: "length head = 57" using wf by (simp add: head_def length_doc_head anchor_wf_def)
  have "\<not> bad_magic AN_MAGIC bs" "elem_at bs 4 = Some 1" "rmap jint (readU32le bs 5) = Inr (an_ns_id a)"
    "js_slice bs 9 41 = an_name_id a" "readU64le bs 41 = Inr (an_seq a)" "readU64le bs 49 = Inr (an_exp a)"
    unfolding bs_def head_def by (rule head_read; use wf in \<open>simp add: anchor_wf_def\<close>)+
  moreover have "take 32 (drop 57 bs) = an_routeset_hash a" "take 32 (drop 89 bs) = an_owner_pub a"
    "(if 185 \<le> length bs then Some (take 64 (drop 121 bs)) else None) = an_sig a" "121 \<le> length bs"
    using wf l r by (cases "an_sig a"; simp add: bs_def anchor_wf_def)+
  ultimately show ?thesis unfolding eq decodeAnchorV1_magic by (auto simp: rmap_eq_Inr)
qed

lemma decodeAnchorV1_Inr:
  assumes "decodeAnchorV1 bs = Inr a"
  shows "anchor_wf a \<and> (\<exists>r. bs = anchor_bytes a @ opt_bytes (an_sig a) @ r \<and> (an_sig a = None \<longrightarrow> length r < 64))"
proof -
  let ?f = "\<lambda>k i. take k (drop i bs)"
  have len: "121 \<le> length bs" and mg: "\<not> bad_magic AN_MAGIC bs" and v: "elem_at bs 4 = Some 1"
    and a: "a = \<lparr>an_ns_id = jint (of_le (?f 4 5)), an_name_id = ?f 32 9, an_seq = of_le (?f 8 41),
      an_exp = of_le (?f 8 49), an_routeset_hash = ?f 32 57, an_owner_pub = ?f 32 89,
      an_sig = (if 185 \<le> length bs then Some (?f 64 121) else None)\<rparr>"
    using assms unfolding decodeAnchorV1_magic
    by (auto simp: result_simps reader_defs read_le_def js_slice_9_41 split: if_splits)
  have len57: "57 \<le> length bs" using len by simp
  note H = head_split [OF AN_MAGIC_simps mg v len57]
  have j: "i + k = l \<Longrightarrow> ?f k i @ drop l bs = drop i bs" for i k l
    using take_drop_join [of k i bs] by auto
  have tail: "drop 57 bs = ?f 32 57 @ ?f 32 89 @ drop 121 bs"
    using j [of 57 32 89] j [of 89 32 121] by simp
  have bs: "bs = anchor_bytes a @ drop 121 bs"
    using H(1) tail by (simp add: anchor_bytes_def a)
  have wf: "anchor_wf a" using H(2-5) len by (simp add: a anchor_wf_def del: in_range_jint)
  show ?thesis
  proof (cases "185 \<le> length bs")
    case True
    then have "bs = anchor_bytes a @ opt_bytes (an_sig a) @ drop 185 bs"
      using bs j [of 121 64 185] by (simp add: a)
    with wf True show ?thesis by (auto simp: a)
  next
    case False
    with wf bs show ?thesis by (auto simp: a)
  qed
qed

interpretation anchor_codec: codec encodeAnchorV1 decodeAnchorV1 anchor_wf
proof
  fix a assume "anchor_wf a"
  then show "\<exists>bs. encodeAnchorV1 a = Inr bs \<and> decodeAnchorV1 bs = Inr a"
    using decodeAnchorV1_bytes [of a "[]"] by (simp add: encodeAnchorV1_wf)
qed

text \<open>With the length check, a verified anchor is the whole string, key and signature complete.\<close>

lemma verifyAnchorV1_exact:
  "verifyAnchorV1 E bs True = Inr True \<longleftrightarrow>
     (\<exists>a sig m. anchor_wf a \<and> an_sig a = Some sig \<and> encodeAnchorV1 a = Inr bs \<and>
        encodeAnchorV1 (a\<lparr>an_sig := None\<rparr>) = Inr m \<and> ed25519Verify E (an_owner_pub a) m sig = Inr True)"
  (is "?L = ?R")
proof
  assume ?L
  then obtain a sig where len: "length bs = 185" and d: "decodeAnchorV1 bs = Inr a" and s: "an_sig a = Some sig"
    and v: "ed25519Verify E (an_owner_pub a) (js_slice bs 0 (int (length bs) - 64)) sig = Inr True"
    by (auto simp: verifyAnchorV1_def ANCHOR_V1_LEN_def Let_def result_simps split: if_splits option.splits)
  from decodeAnchorV1_Inr [OF d] obtain r where wf: "anchor_wf a" and bs: "bs = anchor_bytes a @ sig @ r"
    using s by auto
  have l: "length sig = 64" using wf s by (simp add: anchor_wf_def)
  with wf bs len have "r = []" by (simp add: length_anchor_bytes)
  with l bs have "js_slice bs 0 (int (length bs) - 64) = anchor_bytes a"
    using signed_payload by simp
  with wf s v bs \<open>r = []\<close> show ?R
    by (auto simp: encodeAnchorV1_wf anchor_wf_sig intro!: exI [of _ a])
next
  assume ?R
  then obtain a sig m where wf: "anchor_wf a" and s: "an_sig a = Some sig" and e: "encodeAnchorV1 a = Inr bs"
    and m: "encodeAnchorV1 (a\<lparr>an_sig := None\<rparr>) = Inr m"
    and v: "ed25519Verify E (an_owner_pub a) m sig = Inr True" by blast
  have l: "length sig = 64" using wf s by (simp add: anchor_wf_def)
  have bs: "bs = m @ sig" using wf s e m by (simp add: encodeAnchorV1_wf anchor_wf_sig)
  have "m = anchor_bytes a" using wf m by (simp add: encodeAnchorV1_wf anchor_wf_sig)
  then have "length m = 121" using wf by (simp only: length_anchor_bytes)
  moreover have "js_slice bs 0 (int (length bs) - 64) = m" using l bs signed_payload by simp
  moreover have "decodeAnchorV1 bs = Inr a" using anchor_codec.decodes wf e by blast
  ultimately show ?L using s v l bs by (simp add: verifyAnchorV1_def ANCHOR_V1_LEN_def Let_def)
qed


lemma buildAnchorV1_wf:
  assumes E: "ed25519_laws E" "ed25519KeypairFromSeed E seed = Inr (an_owner_pub a, priv)" and wf: "anchor_wf a"
  shows "\<exists>sig. length sig = 64 \<and> buildAnchorV1 E a priv = Inr (anchor_bytes a @ sig) \<and>
    ed25519Verify E (an_owner_pub a) (anchor_bytes a) sig = Inr True"
proof -
  have "length priv = 32" using E(2) by (auto simp: ed25519KeypairFromSeed_def split: if_splits)
  then obtain sig where sig: "ed25519Sign E priv (anchor_bytes a) = Inr sig" by (simp add: ed25519Sign_def)
  note V = sign_verifies [OF E sig]
  then show ?thesis using wf sig
    by (auto simp: buildAnchorV1_def encodeAnchorV1_wf anchor_wf_sig)
qed

lemma elem_at_eq_prefix:
  "length xs = n \<Longrightarrow> length ys = n \<Longrightarrow> \<not> list_ex (\<lambda>i. elem_at xs i \<noteq> elem_at ys i) [0..<n] \<longleftrightarrow> xs = ys"
  by (auto simp: list_ex_iff elem_at_def intro: nth_equalityI)

lemma anchorMatchesRouteSet_bytes:
  assumes "anchor_wf a" "length sig = 64" "length (blake3 rsb) = 32"
  shows "anchorMatchesRouteSet blake3 (anchor_bytes a @ sig) rsb = Inr (an_routeset_hash a = blake3 rsb)"
proof -
  have "decodeAnchorV1 (anchor_bytes a @ sig) = Inr (a\<lparr>an_sig := Some sig\<rparr>)"
    using decodeAnchorV1_bytes [of "a\<lparr>an_sig := Some sig\<rparr>" "[]"] assms by (simp add: anchor_wf_sig)
  moreover have "length (an_routeset_hash a) = 32" using assms by (simp add: anchor_wf_def)
  ultimately show ?thesis
    using assms(3) elem_at_eq_prefix [of "an_routeset_hash a" 32 "blake3 rsb"]
    by (simp add: anchorMatchesRouteSet_def routesetHash_def)
qed

section \<open>Claims\<close>

text \<open>C20: \<open>verifyAnchorV1\<close> with its default length check answers true exactly for the 185-byte encoding
  of an in-range anchor whose signature, under the owner key in it, covers everything before the
  signature.\<close>

theorem verifyAnchorV1_strict:
  "verifyAnchorV1 E bs True = Inr True \<longleftrightarrow>
     (\<exists>a sig m. anchor_wf a \<and> an_sig a = Some sig \<and> encodeAnchorV1 a = Inr bs \<and>
        encodeAnchorV1 (a\<lparr>an_sig := None\<rparr>) = Inr m \<and> ed25519Verify E (an_owner_pub a) m sig = Inr True)"
  by (rule verifyAnchorV1_exact)

text \<open>An anchor built for an in-range document with the seed of its owner key verifies, and it
  matches a route set exactly when that route set's hash is the one it was built with.\<close>

theorem buildAnchorV1_sound:
  assumes "ed25519_laws E" "ed25519KeypairFromSeed E seed = Inr (an_owner_pub a, priv)" "anchor_wf a"
    "length (blake3 rsb) = 32"
  shows "\<exists>bs. buildAnchorV1 E a priv = Inr bs \<and> verifyAnchorV1 E bs c = Inr True \<and>
    anchorMatchesRouteSet blake3 bs rsb = Inr (an_routeset_hash a = blake3 rsb)"
proof -
  obtain sig where sig: "length sig = 64" and b: "buildAnchorV1 E a priv = Inr (anchor_bytes a @ sig)"
    and v: "ed25519Verify E (an_owner_pub a) (anchor_bytes a) sig = Inr True"
    using buildAnchorV1_wf assms by blast
  have "decodeAnchorV1 (anchor_bytes a @ sig) = Inr (a\<lparr>an_sig := Some sig\<rparr>)"
    using decodeAnchorV1_bytes [of "a\<lparr>an_sig := Some sig\<rparr>" "[]"] assms sig by (simp add: anchor_wf_sig)
  moreover have "length (anchor_bytes a @ sig) = 185"
    using assms sig by (simp add: length_anchor_bytes del: length_append_singleton)
  ultimately have "verifyAnchorV1 E (anchor_bytes a @ sig) c = Inr True"
    using v sig signed_payload [OF sig, of "anchor_bytes a"] by (simp add: verifyAnchorV1_def ANCHOR_V1_LEN_def Let_def)
  with b assms sig anchorMatchesRouteSet_bytes show ?thesis by blast
qed

definition example_anchor :: AnchorV1 where
  "example_anchor = \<lparr>an_ns_id = jint 1, an_name_id = replicate 32 7, an_seq = 3, an_exp = 99,
     an_routeset_hash = replicate 32 5, an_owner_pub = replicate 32 9, an_sig = None\<rparr>"

theorem buildAnchorV1_sound_witness:
  "\<exists>bs. buildAnchorV1 toy_ed25519 example_anchor (replicate 32 9) = Inr bs \<and>
     verifyAnchorV1 toy_ed25519 bs True = Inr True \<and>
     anchorMatchesRouteSet (\<lambda>m. replicate 32 (of_nat (length m))) bs [1, 2, 3, 4, 5] =
       Inr (an_routeset_hash example_anchor = replicate 32 (of_nat (length [1 :: byte, 2, 3, 4, 5])))"
proof (rule buildAnchorV1_sound)
  show "ed25519_laws toy_ed25519" by (rule toy_ed25519_laws)
  show "ed25519KeypairFromSeed toy_ed25519 (replicate 32 9) = Inr (an_owner_pub example_anchor, replicate 32 9)"
    by (simp add: ed25519KeypairFromSeed_def toy_ed25519_def example_anchor_def)
  show "anchor_wf example_anchor"
    by (simp add: anchor_wf_def example_anchor_def in_u64_def in_range_def)
  show "length (replicate 32 (of_nat (length [1 :: byte, 2, 3, 4, 5]))) = 32" by simp
qed

end
