(* ===== verification/GatewayRoutes.thy ===== *)
theory GatewayRoutes
  imports Doc_Head Stable_Sort Unicode
begin

section \<open>Gateway routes (core/src/gateway\_routes.ts)\<close>

text \<open>
  A document of the owner of a parent name: sets of gateways, and rules that send name patterns to
  a set. Labels are UTF-16 strings; they are written with \<open>ascii\<close> (the low byte of every unit)
  and read with \<open>TextDecoder\<close>. The decoder reads single bytes by index, so past the end it sees
  \<open>undefined\<close>; adding \<open>undefined\<close> to the offset makes it \<open>NaN\<close>, which \<open>None\<close>
  stands for, and \<open>DataView\<close> reads offset \<open>NaN\<close> as 0.
\<close>

definition GW_MAGIC :: bytes where
  "GW_MAGIC = ascii ''GWRT''"

definition GW_VERSION :: int where
  "GW_VERSION = 1"

datatype PatternKind = EXACT_KIND | WILDCARD_KIND

definition pattern_code :: "PatternKind \<Rightarrow> byte" where
  "pattern_code k = (case k of EXACT_KIND \<Rightarrow> 1 | WILDCARD_KIND \<Rightarrow> 2)"

record GatewayTarget =
  gt_kind :: jsnum
  gt_data :: bytes

record GatewaySet =
  gs_id :: jsnum
  gs_targets :: "GatewayTarget list"

datatype PatternLabel = WILDCARD | EXACT ustr

text \<open>\<open>priority\<close> and \<open>flags\<close> of a decoded rule may be \<open>undefined\<close>.\<close>

record GatewayRule =
  gr_priority :: "jsnum option"
  gr_flags :: "jsnum option"
  gr_pattern :: "PatternLabel list"
  gr_set_id :: jsnum

record GatewayRoutesV1 =
  gw_ns_id :: jsnum
  gw_parent_name_id :: bytes
  gw_seq :: int
  gw_exp :: int
  gw_sets :: "GatewaySet list"
  gw_rules :: "GatewayRule list"
  gw_owner_pub :: bytes
  gw_sig :: "bytes option"

subsection \<open>Encoding\<close>

definition ascii_units :: "ustr \<Rightarrow> bytes" where
  "ascii_units s = map (\<lambda>u. word_of_nat (u mod 256)) s"

definition encodePatternLabel :: "PatternLabel \<Rightarrow> bytes res" where
  "encodePatternLabel l =
     (case l of
        WILDCARD \<Rightarrow> Inr [pattern_code WILDCARD_KIND, 0]
      | EXACT label \<Rightarrow>
          (let bs = ascii_units label in
           if length bs < 1 \<or> length bs > 63 then throw ''label length''
           else Inr (concatBytes [[pattern_code EXACT_KIND, word_of_nat (length bs)], bs])))"

definition encodePattern :: "PatternLabel list \<Rightarrow> bytes res" where
  "encodePattern ls = rbind (traverse encodePatternLabel ls) (\<lambda>ps. Inr (concatBytes ps))"

definition sortGatewaySetsCanonical :: "GatewaySet list \<Rightarrow> GatewaySet list" where
  "sortGatewaySetsCanonical gs = js_sort (\<lambda>a b. cmp_num (gs_id a) (gs_id b)) gs"

text \<open>
  The comparator encodes both patterns and throws when a label has a bad length. The encoder throws
  that error for every such label anyway, in the rule loop; the model compares an unencodable
  pattern as empty and reports the error there.
\<close>

definition pattern_key :: "GatewayRule \<Rightarrow> bytes" where
  "pattern_key r = (case encodePattern (gr_pattern r) of Inl _ \<Rightarrow> [] | Inr bs \<Rightarrow> bs)"

definition cmp_priority :: "jsnum option \<Rightarrow> jsnum option \<Rightarrow> int" where
  "cmp_priority a b = (case (a, b) of (Some x, Some y) \<Rightarrow> cmp_num x y | _ \<Rightarrow> 0)"

definition rule_cmp :: "GatewayRule \<Rightarrow> GatewayRule \<Rightarrow> int" where
  "rule_cmp a b =
     (if length (gr_pattern a) \<noteq> length (gr_pattern b)
        then int (length (gr_pattern a)) - int (length (gr_pattern b))
      else let aBytes = map uint (pattern_key a); bBytes = map uint (pattern_key b) in
        if cmp_list aBytes bBytes \<noteq> 0 then cmp_list aBytes bBytes
        else if nneq (gr_set_id a) (gr_set_id b) then cmp_num (gr_set_id a) (gr_set_id b)
        else cmp_priority (gr_priority a) (gr_priority b))"

definition sortRulesCanonical :: "GatewayRule list \<Rightarrow> GatewayRule list" where
  "sortRulesCanonical rules = js_sort rule_cmp rules"

definition encodeTarget :: "GatewayTarget \<Rightarrow> bytes res" where
  "encodeTarget t =
     (if \<not> is_integer (gt_kind t) then throw ''invalid target kind''
      else if length (gt_data t) > 0xffff then throw ''target data too long''
      else Inr (concatBytes [u8 (gt_kind t), u16le (jint (int (length (gt_data t)))), gt_data t]))"

definition encodeGatewaySet :: "GatewaySet \<Rightarrow> bytes res" where
  "encodeGatewaySet s =
     (if \<not> in_range 0xffffffff (gs_id s) then throw ''gateway_set_id out of range''
      else if length (gs_targets s) > 255 then throw ''too many targets''
      else rbind (traverse encodeTarget (gs_targets s)) (\<lambda>targetParts.
        Inr (concatBytes ([u32le (gs_id s), u8 (jint (int (length (gs_targets s))))] @ targetParts))))"

text \<open>\<open>x & 0xff\<close> of a number or of \<open>undefined\<close>.\<close>

definition mask_byte :: "jsnum option \<Rightarrow> bytes" where
  "mask_byte n = (case n of None \<Rightarrow> [0] | Some x \<Rightarrow> u8 x)"

definition encodeRule :: "GatewayRule \<Rightarrow> bytes res" where
  "encodeRule r =
     (if length (gr_pattern r) > 255 then throw ''pattern too long''
      else rbind (encodePattern (gr_pattern r)) (\<lambda>pattBytes.
        Inr (concatBytes
          [mask_byte (gr_priority r), mask_byte (gr_flags r), u8 (jint (int (length (gr_pattern r)))),
           pattBytes, u32le (gr_set_id r)])))"

definition encodeGatewayRoutesV1 :: "GatewayRoutesV1 \<Rightarrow> bool \<Rightarrow> bytes res" where
  "encodeGatewayRoutesV1 gr canonicalize =
     (if length (gw_parent_name_id gr) \<noteq> 32 then throw ''parent_name_id must be 32 bytes''
      else if length (gw_owner_pub gr) \<noteq> 32 then throw ''owner_pub must be 32 bytes''
      else if \<not> in_range 0xffffffff (gw_ns_id gr) then throw ''ns_id out of range''
      else if (case gw_sig gr of None \<Rightarrow> False | Some s \<Rightarrow> length s \<noteq> 64) then throw ''sig must be 64 bytes''
      else let gateway_sets = (if canonicalize then sortGatewaySetsCanonical (gw_sets gr) else gw_sets gr);
               rules = (if canonicalize then sortRulesCanonical (gw_rules gr) else gw_rules gr) in
        rbind (traverse encodeGatewaySet gateway_sets) (\<lambda>gwParts.
        rbind (traverse encodeRule rules) (\<lambda>ruleParts.
          let header = concatBytes [GW_MAGIC, u8 (jint GW_VERSION), u32le (gw_ns_id gr),
                gw_parent_name_id gr, u64le (gw_seq gr), u64le (gw_exp gr),
                u16le (jint (int (length gateway_sets))), u16le (jint (int (length rules)))];
              body = concatBytes (gwParts @ ruleParts @ [gw_owner_pub gr]);
              withoutSig = concatBytes [header, body]
          in case gw_sig gr of Some s \<Rightarrow> Inr (concatBytes [withoutSig, s]) | None \<Rightarrow> Inr withoutSig)))"

subsection \<open>Decoding\<close>

definition byte_at :: "bytes \<Rightarrow> nat option \<Rightarrow> byte option" where
  "byte_at bs off = (case off of None \<Rightarrow> None | Some i \<Rightarrow> elem_at bs i)"

definition off_add :: "nat option \<Rightarrow> nat \<Rightarrow> nat option" where
  "off_add off k = (case off of None \<Rightarrow> None | Some i \<Rightarrow> Some (i + k))"

definition readU32le_off :: "bytes \<Rightarrow> nat option \<Rightarrow> int res" where
  "readU32le_off bs off = readU32le bs (case off of None \<Rightarrow> 0 | Some i \<Rightarrow> i)"

definition decodePatternLabel :: "bytes \<Rightarrow> nat option \<Rightarrow> PatternLabel \<times> nat option" where
  "decodePatternLabel bs off =
     (let kind = byte_at bs off; len = byte_at bs (off_add off 1); off2 = off_add off 2 in
      if kind = Some (pattern_code WILDCARD_KIND) then (WILDCARD, off2)
      else case (off2, len) of
          (Some i, Some l) \<Rightarrow>
            (EXACT (text_decode (js_slice bs (int i) (int i + uint l))), Some (i + unat l))
        | _ \<Rightarrow> (EXACT (text_decode []), None))"

text \<open>The read of \<open>dlen\<close> throws when \<open>bytes[off]\<close> is past the end, so \<open>kind\<close> is a byte.\<close>

fun decode_targets :: "nat \<Rightarrow> bytes \<Rightarrow> nat \<Rightarrow> (GatewayTarget list \<times> nat) res" where
  "decode_targets 0 bs off = Inr ([], off)"
| "decode_targets (Suc n) bs off =
     rbind (readU16le bs (off + 1)) (\<lambda>dlen.
       let dat = js_slice bs (int off + 3) (int off + 3 + dlen) in
       rbind (decode_targets n bs (off + 3 + nat dlen)) (\<lambda>(ts, off').
         Inr (\<lparr>gt_kind = jint (uint (bs ! off)), gt_data = dat\<rparr> # ts, off')))"

fun decode_sets :: "nat \<Rightarrow> bytes \<Rightarrow> nat \<Rightarrow> (GatewaySet list \<times> nat) res" where
  "decode_sets 0 bs off = Inr ([], off)"
| "decode_sets (Suc n) bs off =
     rbind (readU32le bs off) (\<lambda>gid.
       let target_count = (case elem_at bs (off + 4) of None \<Rightarrow> 0 | Some b \<Rightarrow> unat b) in
       rbind (decode_targets target_count bs (off + 5)) (\<lambda>(ts, off').
       rbind (decode_sets n bs off') (\<lambda>(ss, off'').
         Inr (\<lparr>gs_id = jint gid, gs_targets = ts\<rparr> # ss, off''))))"

fun decode_labels :: "nat \<Rightarrow> bytes \<Rightarrow> nat option \<Rightarrow> PatternLabel list \<times> nat option" where
  "decode_labels 0 bs off = ([], off)"
| "decode_labels (Suc n) bs off =
     (let (l, off') = decodePatternLabel bs off; (ls, off'') = decode_labels n bs off' in (l # ls, off''))"

definition opt_num :: "byte option \<Rightarrow> jsnum option" where
  "opt_num b = (case b of None \<Rightarrow> None | Some x \<Rightarrow> Some (jint (uint x)))"

fun decode_rules :: "nat \<Rightarrow> bytes \<Rightarrow> nat option \<Rightarrow> (GatewayRule list \<times> nat option) res" where
  "decode_rules 0 bs off = Inr ([], off)"
| "decode_rules (Suc n) bs off =
     (let pattern_len = (case byte_at bs (off_add off 2) of None \<Rightarrow> 0 | Some b \<Rightarrow> unat b);
          (pattern, off') = decode_labels pattern_len bs (off_add off 3) in
      rbind (readU32le_off bs off') (\<lambda>gid.
      rbind (decode_rules n bs (off_add off' 4)) (\<lambda>(rs, off'').
        Inr (\<lparr>gr_priority = opt_num (byte_at bs off), gr_flags = opt_num (byte_at bs (off_add off 1)),
             gr_pattern = pattern, gr_set_id = jint gid\<rparr> # rs, off''))))"

text \<open>The owner key and the signature: with offset \<open>NaN\<close> the slice is empty and the test false.\<close>

definition decodeGatewayRoutesV1 :: "bytes \<Rightarrow> GatewayRoutesV1 res" where
  "decodeGatewayRoutesV1 bs =
     (let magic = js_slice bs 0 4 in
      if list_ex (\<lambda>i. elem_at magic i \<noteq> Some (GW_MAGIC ! i)) [0..<4] then throw ''bad magic''
      else if elem_at bs 4 \<noteq> Some 1 then throw ''bad version''
      else
        rbind (readU32le bs 5) (\<lambda>ns_id.
        let parent_name_id = js_slice bs 9 41 in
        rbind (readU64le bs 41) (\<lambda>g_seq.
        rbind (readU64le bs 49) (\<lambda>g_exp.
        rbind (readU16le bs 57) (\<lambda>gwset_count.
        rbind (readU16le bs 59) (\<lambda>rule_count.
        rbind (decode_sets (nat gwset_count) bs 61) (\<lambda>(gateway_sets, off).
        rbind (decode_rules (nat rule_count) bs (Some off)) (\<lambda>(rules, off').
          let owner_pub = (case off' of None \<Rightarrow> [] | Some i \<Rightarrow> js_slice bs (int i) (int i + 32));
              sig = (case off' of None \<Rightarrow> None
                | Some i \<Rightarrow> if i + 32 + 64 \<le> length bs then Some (js_slice bs (int i + 32) (int i + 96)) else None)
          in Inr \<lparr>gw_ns_id = jint ns_id, gw_parent_name_id = parent_name_id, gw_seq = g_seq, gw_exp = g_exp,
                  gw_sets = gateway_sets, gw_rules = rules, gw_owner_pub = owner_pub, gw_sig = sig\<rparr>))))))))"


section \<open>Properties of gateway routes\<close>

definition label_wf :: "PatternLabel \<Rightarrow> bool" where
  "label_wf l \<longleftrightarrow> (case l of WILDCARD \<Rightarrow> True
     | EXACT s \<Rightarrow> 1 \<le> length s \<and> length s \<le> 63 \<and> list_all (\<lambda>u. u < 128) s)"

definition target_wf :: "GatewayTarget \<Rightarrow> bool" where
  "target_wf t \<longleftrightarrow> in_range 255 (gt_kind t) \<and> length (gt_data t) \<le> 0xffff"

definition set_wf :: "GatewaySet \<Rightarrow> bool" where
  "set_wf s \<longleftrightarrow> in_range 0xffffffff (gs_id s) \<and> length (gs_targets s) \<le> 255 \<and> list_all target_wf (gs_targets s)"

definition opt_byte_wf :: "jsnum option \<Rightarrow> bool" where
  "opt_byte_wf n \<longleftrightarrow> (case n of None \<Rightarrow> False | Some x \<Rightarrow> in_range 255 x)"

definition rule_wf :: "GatewayRule \<Rightarrow> bool" where
  "rule_wf r \<longleftrightarrow> opt_byte_wf (gr_priority r) \<and> opt_byte_wf (gr_flags r) \<and> length (gr_pattern r) \<le> 255 \<and>
     list_all label_wf (gr_pattern r) \<and> in_range 0xffffffff (gr_set_id r)"

definition routes_wf :: "GatewayRoutesV1 \<Rightarrow> bool" where
  "routes_wf g \<longleftrightarrow> in_range 0xffffffff (gw_ns_id g) \<and> length (gw_parent_name_id g) = 32 \<and>
     in_u64 (gw_seq g) \<and> in_u64 (gw_exp g) \<and> length (gw_sets g) \<le> 0xffff \<and> list_all set_wf (gw_sets g) \<and>
     length (gw_rules g) \<le> 0xffff \<and> list_all rule_wf (gw_rules g) \<and> length (gw_owner_pub g) = 32 \<and>
     opt_sig_wf (gw_sig g)"

definition label_bytes :: "PatternLabel \<Rightarrow> bytes" where
  "label_bytes l = (case l of WILDCARD \<Rightarrow> [2, 0] | EXACT s \<Rightarrow> [1, word_of_nat (length s)] @ ascii_units s)"

definition target_bytes :: "GatewayTarget \<Rightarrow> bytes" where
  "target_bytes t = u8 (gt_kind t) @ u16le (jint (int (length (gt_data t)))) @ gt_data t"

definition set_bytes :: "GatewaySet \<Rightarrow> bytes" where
  "set_bytes s = u32le (gs_id s) @ u8 (jint (int (length (gs_targets s)))) @ concat (map target_bytes (gs_targets s))"

definition rule_bytes :: "GatewayRule \<Rightarrow> bytes" where
  "rule_bytes r = mask_byte (gr_priority r) @ mask_byte (gr_flags r) @ u8 (jint (int (length (gr_pattern r)))) @
     concat (map label_bytes (gr_pattern r)) @ u32le (gr_set_id r)"

definition routes_bytes :: "GatewayRoutesV1 \<Rightarrow> bytes" where
  "routes_bytes g = doc_head GW_MAGIC (gw_ns_id g) (gw_parent_name_id g) (gw_seq g) (gw_exp g) @
     u16le (jint (int (length (gw_sets g)))) @ u16le (jint (int (length (gw_rules g)))) @
     concat (map set_bytes (gw_sets g)) @ concat (map rule_bytes (gw_rules g)) @ gw_owner_pub g"

lemma length_ascii_units [byte_simps, simp]: "length (ascii_units s) = length s"
  by (simp add: ascii_units_def)

lemma ascii_units_eq_Nil [simp]: "ascii_units s = [] \<longleftrightarrow> s = []"
  by (simp add: ascii_units_def)

lemma in_range_integer: "in_range hi n \<Longrightarrow> is_integer n"
  by (simp add: in_range_def)

subsection \<open>ASCII labels\<close>

lemma scalars_ascii: "list_all (\<lambda>u. u < 128) s \<Longrightarrow> scalars s = s"
  by (induction s rule: scalars.induct) (auto simp: high_surrogate_def low_surrogate_def scalar_unit_def)

lemma well_formed_ascii: "list_all (\<lambda>u. u < 128) s \<Longrightarrow> well_formed s"
  by (induction s rule: well_formed.induct) (auto simp: high_surrogate_def low_surrogate_def)

lemma text_encode_ascii: "list_all (\<lambda>u. u < 128) s \<Longrightarrow> text_encode s = ascii_units s"
proof -
  assume a: "list_all (\<lambda>u. u < 128) s"
  then have "concat (map utf8 s) = s" by (induction s) (auto simp: utf8_def)
  then have "text_encode s = map word_of_nat s" using a by (simp add: text_encode_def scalars_ascii)
  also have "\<dots> = ascii_units s" using a by (auto simp: ascii_units_def list_all_iff)
  finally show ?thesis .
qed

lemma text_decode_ascii: "list_all (\<lambda>u. u < 128) s \<Longrightarrow> text_decode (ascii_units s) = s"
proof -
  assume a: "list_all (\<lambda>u. u < 128) s"
  then have "s = [] \<or> hd s \<noteq> 0xFEFF" by (cases s) auto
  with a show ?thesis using text_decode_encode [of s] well_formed_ascii text_encode_ascii by simp
qed

subsection \<open>Encoders on well-formed values\<close>

lemma encodePatternLabel_wf: "label_wf l \<Longrightarrow> encodePatternLabel l = Inr (label_bytes l)"
  by (cases l) (auto simp: encodePatternLabel_def label_wf_def label_bytes_def pattern_code_def Let_def Suc_le_eq)

lemma encodePattern_wf: "list_all label_wf ls \<Longrightarrow> encodePattern ls = Inr (concat (map label_bytes ls))"
  using traverse_Inr_map [of ls encodePatternLabel label_bytes]
  by (simp add: encodePattern_def encodePatternLabel_wf list_all_iff)

lemma encodeTarget_wf: "target_wf t \<Longrightarrow> encodeTarget t = Inr (target_bytes t)"
  using in_range_integer [of 255 "gt_kind t"]
  by (simp add: encodeTarget_def target_wf_def target_bytes_def)

lemma encodeGatewaySet_wf: "set_wf s \<Longrightarrow> encodeGatewaySet s = Inr (set_bytes s)"
  using traverse_Inr_map [of "gs_targets s" encodeTarget target_bytes]
  by (simp add: encodeGatewaySet_def set_wf_def set_bytes_def encodeTarget_wf list_all_iff)

lemma encodeRule_wf: "rule_wf r \<Longrightarrow> encodeRule r = Inr (rule_bytes r)"
  by (simp add: encodeRule_def rule_wf_def rule_bytes_def encodePattern_wf)

definition routes_canonical :: "bool \<Rightarrow> GatewayRoutesV1 \<Rightarrow> GatewayRoutesV1" where
  "routes_canonical c g = (if c then g\<lparr>gw_sets := sortGatewaySetsCanonical (gw_sets g),
     gw_rules := sortRulesCanonical (gw_rules g)\<rparr> else g)"

lemma sort_lengths [simp]:
  "length (sortGatewaySetsCanonical gs) = length gs" "length (sortRulesCanonical rs) = length rs"
  "list_all P (sortGatewaySetsCanonical gs) = list_all P gs"
  "list_all Q (sortRulesCanonical rs) = list_all Q rs"
  by (simp_all add: sortGatewaySetsCanonical_def sortRulesCanonical_def list_all_iff)

lemma routes_canonical_wf [simp]: "routes_wf (routes_canonical c g) = routes_wf g"
  by (simp add: routes_wf_def routes_canonical_def)

lemma encodeGatewayRoutesV1_wf:
  assumes "routes_wf g"
  shows "encodeGatewayRoutesV1 g c = Inr (routes_bytes (routes_canonical c g) @ opt_bytes (gw_sig g))"
proof -
  have s: "traverse encodeGatewaySet ss = Inr (map set_bytes ss)" if "list_all set_wf ss" for ss
    using that by (intro traverse_Inr_map) (simp add: encodeGatewaySet_wf list_all_iff)
  have r: "traverse encodeRule rs = Inr (map rule_bytes rs)" if "list_all rule_wf rs" for rs
    using that by (intro traverse_Inr_map) (simp add: encodeRule_wf list_all_iff)
  show ?thesis
    using assms by (cases "gw_sig g") (auto simp: encodeGatewayRoutesV1_def routes_wf_def s r routes_bytes_def
        doc_head_def routes_canonical_def GW_VERSION_def Let_def)
qed

subsection \<open>Decoding loops\<close>

lemma target_read:
  fixes rest :: bytes
  assumes "target_wf t" "length pre = off"
  defines "bs \<equiv> pre @ target_bytes t @ rest"
  shows "readU16le bs (off + 1) = Inr (int (length (gt_data t)))"
    "jint (uint (bs ! off)) = gt_kind t"
    "js_slice bs (int off + 3) (int off + 3 + int (length (gt_data t))) = gt_data t"
  using assms
  by (auto simp: target_bytes_def target_wf_def reader_defs read_le_def slice_offset nth_append
      u8_jint uint_u8 elim!: in_rangeE)

lemma length_target_bytes [simp]: "length (target_bytes t) = 3 + length (gt_data t)"
  by (simp add: target_bytes_def)

lemma decode_targets_bytes:
  "length pre = off \<Longrightarrow> list_all target_wf ts \<Longrightarrow>
     decode_targets (length ts) (pre @ concat (map target_bytes ts) @ rest) off =
       Inr (ts, off + length (concat (map target_bytes ts)))"
proof (induction ts arbitrary: pre off)
  case (Cons t ts)
  let ?rest = "concat (map target_bytes ts) @ rest"
  have wf: "target_wf t" using Cons.prems by simp
  have "length (pre @ target_bytes t) = off + 3 + length (gt_data t)"
    using Cons.prems by simp
  from Cons.IH [OF this] Cons.prems
  have IH: "decode_targets (length ts) (pre @ target_bytes t @ ?rest) (off + 3 + length (gt_data t)) =
      Inr (ts, off + 3 + length (gt_data t) + length (concat (map target_bytes ts)))"
    by simp
  show ?case
    using target_read [OF wf Cons.prems(1), of ?rest] IH by (auto simp: Let_def)
qed simp

lemma decode_sets_bytes:
  "length pre = off \<Longrightarrow> list_all set_wf ss \<Longrightarrow>
     decode_sets (length ss) (pre @ concat (map set_bytes ss) @ rest) off =
       Inr (ss, off + length (concat (map set_bytes ss)))"
proof (induction ss arbitrary: pre off)
  case (Cons s ss)
  let ?tail = "concat (map set_bytes ss) @ rest"
  let ?bs = "pre @ set_bytes s @ ?tail"
  have wf: "set_wf s" using Cons.prems by simp
  then obtain i where i: "gs_id s = jint i" "0 \<le> i" "i \<le> 0xffffffff" and n: "length (gs_targets s) \<le> 255"
    and tw: "list_all target_wf (gs_targets s)"
    by (auto simp: set_wf_def elim: in_rangeE)
  have gid: "readU32le ?bs off = Inr i"
    using i Cons.prems(1) by (simp add: set_bytes_def reader_defs read_le_def)
  have cnt: "elem_at ?bs (off + 4) = Some (word_of_int (int (length (gs_targets s))))"
    using Cons.prems(1) by (simp add: set_bytes_def nth_append u8_jint)
  have cn: "unat (word_of_int (int (length (gs_targets s))) :: byte) = length (gs_targets s)"
    using n unat_u8 [of "int (length (gs_targets s))"] by simp
  have cnt': "(case elem_at ?bs (off + 4) of None \<Rightarrow> 0 | Some b \<Rightarrow> unat b) = length (gs_targets s)"
    unfolding cnt using cn by simp
  have ts: "decode_targets (length (gs_targets s)) ?bs (off + 5) =
      Inr (gs_targets s, off + length (set_bytes s))"
    using decode_targets_bytes [of "pre @ u32le (gs_id s) @ u8 (jint (int (length (gs_targets s))))" "off + 5"
        "gs_targets s" ?tail] Cons.prems(1) tw
    by (simp add: set_bytes_def add.assoc)
  have IH: "decode_sets (length ss) ?bs (off + length (set_bytes s)) =
      Inr (ss, off + length (set_bytes s) + length (concat (map set_bytes ss)))"
    using Cons.IH [of "pre @ set_bytes s" "off + length (set_bytes s)"] Cons.prems by simp
  have s: "\<lparr>gs_id = jint i, gs_targets = gs_targets s\<rparr> = s" using i by simp
  show ?case
    using gid cnt' ts IH s by (simp add: Let_def)
qed simp


lemma label_read:
  assumes "label_wf l" "length pre = off"
  shows "decodePatternLabel (pre @ label_bytes l @ rest) (Some off) = (l, Some (off + length (label_bytes l)))"
proof (cases l)
  case WILDCARD
  with assms show ?thesis
    by (simp add: decodePatternLabel_def byte_at_def off_add_def label_bytes_def pattern_code_def
        elem_at_def nth_append)
next
  case (EXACT s)
  let ?bs = "pre @ label_bytes l @ rest"
  have len: "1 \<le> length s" "length s \<le> 63" and a: "list_all (\<lambda>u. u < 128) s"
    using assms EXACT by (auto simp: label_wf_def)
  have u: "uint (word_of_nat (length s) :: byte) = int (length s)"
    "unat (word_of_nat (length s) :: byte) = length s"
    using len uint_u8 [of "int (length s)"] unat_u8 [of "int (length s)"]
    by (simp_all add: of_int_of_nat_eq)
  have at: "elem_at ?bs off = Some 1" "elem_at ?bs (off + 1) = Some (word_of_nat (length s))"
    using assms(2) by (simp_all add: EXACT label_bytes_def nth_append)
  have "js_slice ?bs (int (off + 2)) (int (off + 2) + int (length s)) = ascii_units s"
    using slice_offset(2) [of "int (length s)" ?bs "off + 2"] assms(2) by (simp add: EXACT label_bytes_def)
  then have "text_decode (js_slice ?bs (int (off + 2)) (int (off + 2) + int (length s))) = s"
    using a by (simp add: text_decode_ascii)
  with at u show ?thesis
    unfolding decodePatternLabel_def byte_at_def off_add_def option.case at Let_def
    by (simp add: EXACT pattern_code_def label_bytes_def)
qed

lemma decode_labels_bytes:
  "length pre = off \<Longrightarrow> list_all label_wf ls \<Longrightarrow>
     decode_labels (length ls) (pre @ concat (map label_bytes ls) @ rest) (Some off) =
       (ls, Some (off + length (concat (map label_bytes ls))))"
proof (induction ls arbitrary: pre off)
  case (Cons l ls)
  have "decodePatternLabel (pre @ label_bytes l @ concat (map label_bytes ls) @ rest) (Some off) =
      (l, Some (off + length (label_bytes l)))"
    using Cons.prems by (intro label_read) auto
  moreover have "decode_labels (length ls) ((pre @ label_bytes l) @ concat (map label_bytes ls) @ rest)
      (Some (off + length (label_bytes l))) =
      (ls, Some (off + length (label_bytes l) + length (concat (map label_bytes ls))))"
    using Cons.prems by (intro Cons.IH) auto
  ultimately show ?case by (simp add: Let_def)
qed simp

lemma mask_byte_wf:
  assumes "opt_byte_wf n"
  obtains b where "mask_byte n = [b]" "opt_num (Some b) = n"
proof -
  from assms obtain i where "n = Some (jint i)" "0 \<le> i" "i \<le> 255"
    by (auto simp: opt_byte_wf_def in_range_iff split: option.splits)
  then have "mask_byte n = [word_of_int i]" "opt_num (Some (word_of_int i)) = n"
    by (simp_all add: mask_byte_def u8_jint opt_num_def uint_u8)
  then show ?thesis by (rule that)
qed

lemma decode_rules_bytes:
  "length pre = off \<Longrightarrow> list_all rule_wf rs \<Longrightarrow>
     decode_rules (length rs) (pre @ concat (map rule_bytes rs) @ rest) (Some off) =
       Inr (rs, Some (off + length (concat (map rule_bytes rs))))"
proof (induction rs arbitrary: pre off)
  case (Cons r rs)
  let ?tail = "concat (map rule_bytes rs) @ rest"
  let ?bs = "pre @ rule_bytes r @ ?tail"
  let ?pat = "concat (map label_bytes (gr_pattern r))"
  have wf: "rule_wf r" using Cons.prems by simp
  obtain p where p: "mask_byte (gr_priority r) = [p]" "opt_num (Some p) = gr_priority r"
    using wf mask_byte_wf by (metis rule_wf_def)
  obtain f where f: "mask_byte (gr_flags r) = [f]" "opt_num (Some f) = gr_flags r"
    using wf mask_byte_wf by (metis rule_wf_def)
  define n :: byte where "n = word_of_int (int (length (gr_pattern r)))"
  have un: "unat n = length (gr_pattern r)"
    using wf unat_u8 [of "int (length (gr_pattern r))"] by (simp add: n_def rule_wf_def)
  obtain i where i: "gr_set_id r = jint i" "0 \<le> i" "i \<le> 0xffffffff"
    using wf by (auto simp: rule_wf_def elim: in_rangeE)
  have rb: "rule_bytes r = [p, f, n] @ ?pat @ u32le (jint i)"
    by (simp add: rule_bytes_def p f n_def u8_jint i)
  have at: "elem_at ?bs off = Some p" "elem_at ?bs (off + 1) = Some f" "elem_at ?bs (off + 2) = Some n"
    using Cons.prems(1) by (simp_all add: rb nth_append)
  have lab: "decode_labels (unat n) ?bs (Some (off + 3)) = (gr_pattern r, Some (off + 3 + length ?pat))"
    using decode_labels_bytes [of "pre @ [p, f, n]" "off + 3" "gr_pattern r" "u32le (jint i) @ ?tail"]
      Cons.prems(1) wf un by (simp add: rb rule_wf_def)
  have gid: "readU32le ?bs (off + 3 + length ?pat) = Inr i"
    using read_le_bytes [of "pre @ [p, f, n] @ ?pat" "off + 3 + length ?pat" "u32le (jint i)" 4 ?tail]
      Cons.prems(1) i by (simp add: rb reader_defs)
  have len: "off + length (rule_bytes r) = off + 3 + length ?pat + 4" by (simp add: rb)
  have IH: "decode_rules (length rs) ?bs (Some (off + 3 + length ?pat + 4)) =
      Inr (rs, Some (off + length (rule_bytes r) + length (concat (map rule_bytes rs))))"
    using Cons.IH [of "pre @ rule_bytes r" "off + length (rule_bytes r)"] Cons.prems by (simp add: len)
  have r: "\<lparr>gr_priority = opt_num (Some p), gr_flags = opt_num (Some f), gr_pattern = gr_pattern r,
      gr_set_id = jint i\<rparr> = r"
    by (simp add: p f i)
  have "decode_rules (Suc (length rs)) ?bs (Some off) =
      Inr (r # rs, Some (off + length (rule_bytes r) + length (concat (map rule_bytes rs))))"
    unfolding decode_rules.simps off_add_def byte_at_def option.case at Let_def lab prod.case
      readU32le_off_def gid rbind_Inr IH r ..
  then show ?case by (simp add: add.assoc)
qed simp


lemma GW_MAGIC_simps [simp]: "length GW_MAGIC = 4"
  by (simp add: GW_MAGIC_def)

lemma decodeGatewayRoutesV1_bytes:
  assumes wf: "routes_wf g" and r: "gw_sig g = None \<Longrightarrow> length r < 64"
  shows "decodeGatewayRoutesV1 (routes_bytes g @ opt_bytes (gw_sig g) @ r) = Inr g"
proof -
  define head sets rules tail where
    "head = doc_head GW_MAGIC (gw_ns_id g) (gw_parent_name_id g) (gw_seq g) (gw_exp g)"
    and "sets = concat (map set_bytes (gw_sets g))" and "rules = concat (map rule_bytes (gw_rules g))"
    and "tail = gw_owner_pub g @ opt_bytes (gw_sig g) @ r"
  define sc rc where "sc = u16le (jint (int (length (gw_sets g))))"
    and "rc = u16le (jint (int (length (gw_rules g))))"
  define bs where "bs = head @ sc @ rc @ sets @ rules @ tail"
  have eq: "routes_bytes g @ opt_bytes (gw_sig g) @ r = bs"
    by (simp add: routes_bytes_def bs_def head_def sc_def rc_def sets_def rules_def tail_def)
  have l: "length head = 57" "length sc = 2" "length rc = 2"
    using wf by (simp_all add: head_def sc_def rc_def length_doc_head routes_wf_def)
  have hd: "\<not> bad_magic GW_MAGIC bs" "elem_at bs 4 = Some 1" "rmap jint (readU32le bs 5) = Inr (gw_ns_id g)"
    "js_slice bs 9 41 = gw_parent_name_id g" "readU64le bs 41 = Inr (gw_seq g)" "readU64le bs 49 = Inr (gw_exp g)"
    unfolding bs_def head_def by (rule head_read; use wf in \<open>simp add: routes_wf_def\<close>)+
  have cnt: "readU16le bs 57 = Inr (int (length (gw_sets g)))" "readU16le bs 59 = Inr (int (length (gw_rules g)))"
    using read_le_bytes [of head 57 sc 2 "rc @ sets @ rules @ tail"]
      read_le_bytes [of "head @ sc" 59 rc 2 "sets @ rules @ tail"] l wf
    by (simp_all add: bs_def reader_defs routes_wf_def) (simp_all add: sc_def rc_def)
  have ds: "decode_sets (length (gw_sets g)) bs 61 = Inr (gw_sets g, 61 + length sets)"
    using decode_sets_bytes [of "head @ sc @ rc" 61 "gw_sets g" "rules @ tail"] l wf
    by (simp add: bs_def sets_def routes_wf_def)
  define off where "off = 61 + length sets + length rules"
  have dr: "decode_rules (length (gw_rules g)) bs (Some (61 + length sets)) = Inr (gw_rules g, Some off)"
    using decode_rules_bytes [of "head @ sc @ rc @ sets" "61 + length sets" "gw_rules g" tail] l wf
    by (simp add: bs_def rules_def off_def routes_wf_def)
  have drop: "drop off bs = tail" using l by (simp add: bs_def off_def)
  have pub: "js_slice bs (int off) (int off + 32) = gw_owner_pub g"
    using drop wf by (simp add: slice_nonneg tail_def routes_wf_def)
  have "js_slice bs (int off + 32) (int off + 96) = take 64 (opt_bytes (gw_sig g) @ r)"
    using drop wf drop_drop [of 32 off bs]
    by (simp add: slice_nonneg nat_add_distrib tail_def routes_wf_def add.commute)
  moreover have "length bs = off + 32 + length (opt_bytes (gw_sig g) @ r)"
    using l wf by (simp add: bs_def off_def tail_def routes_wf_def)
  ultimately have sig: "(if off + 32 + 64 \<le> length bs then Some (js_slice bs (int off + 32) (int off + 96)) else None) = gw_sig g"
    using wf r by (cases "gw_sig g") (auto simp: routes_wf_def)
  show ?thesis
    using hd(3) unfolding eq decodeGatewayRoutesV1_def Let_def bad_magic_def [symmetric]
    by (auto simp: hd(1,4,5,6) cnt ds dr pub rmap_eq_Inr bad_magic_def [symmetric] sig)
      (use hd(2) sig [symmetric] in \<open>auto intro!: GatewayRoutesV1.equality\<close>)
qed

interpretation routes_codec: codec "\<lambda>g. encodeGatewayRoutesV1 g False" decodeGatewayRoutesV1 routes_wf
proof
  fix g assume "routes_wf g"
  then show "\<exists>bs. encodeGatewayRoutesV1 g False = Inr bs \<and> decodeGatewayRoutesV1 bs = Inr g"
    using decodeGatewayRoutesV1_bytes [of g "[]"] by (simp add: encodeGatewayRoutesV1_wf routes_canonical_def)
qed


text \<open>After a label cut off behind its kind byte the offset is \<open>NaN\<close>; each rule still to be read is
  then made up of absent fields and the four magic bytes.\<close>

lemma decodePatternLabel_cut:
  "elem_at bs off \<noteq> Some (pattern_code WILDCARD_KIND) \<Longrightarrow> length bs \<le> off + 1 \<Longrightarrow>
     decodePatternLabel bs (Some off) = (EXACT [], None)"
  by (simp add: decodePatternLabel_def byte_at_def off_add_def elem_at_def text_decode_def utf8_decode_def utf8_loop.simps)

definition phantom_rule :: "bytes \<Rightarrow> GatewayRule" where
  "phantom_rule bs = \<lparr>gr_priority = None, gr_flags = None, gr_pattern = [],
     gr_set_id = jint (of_le (take 4 bs))\<rparr>"

lemma decode_rules_NaN: "4 \<le> length bs \<Longrightarrow> decode_rules n bs None = Inr (replicate n (phantom_rule bs), None)"
  by (induction n) (simp_all add: off_add_def byte_at_def opt_num_def readU32le_off_def reader_defs
      read_le_def phantom_rule_def)

section \<open>Claims\<close>

text \<open>An in-range gateway-routes document, with ASCII labels of 1 to 63 characters and up to 65535
  sets and rules, decodes to itself from its encoding; with canonical encoding, to itself with the
  sets and rules sorted.\<close>

theorem gatewayRoutes_roundtrip:
  assumes "routes_wf g"
  shows "rbind (encodeGatewayRoutesV1 g c) decodeGatewayRoutesV1 = Inr (routes_canonical c g)"
proof -
  have "gw_sig (routes_canonical c g) = gw_sig g" by (simp add: routes_canonical_def)
  then have "routes_bytes (routes_canonical c g) @ opt_bytes (gw_sig g) =
      routes_bytes (routes_canonical c g) @ opt_bytes (gw_sig (routes_canonical c g)) @ []" by simp
  then show ?thesis
    using assms decodeGatewayRoutesV1_bytes [of "routes_canonical c g" "[]"]
    by (simp add: encodeGatewayRoutesV1_wf)
qed

definition example_routes :: GatewayRoutesV1 where
  "example_routes = \<lparr>gw_ns_id = jint 1, gw_parent_name_id = replicate 32 7, gw_seq = 3, gw_exp = 99,
     gw_sets = [\<lparr>gs_id = jint 5, gs_targets = [\<lparr>gt_kind = jint 2, gt_data = [10, 0, 0, 1, 0, 53]\<rparr>]\<rparr>],
     gw_rules = [\<lparr>gr_priority = Some (jint 1), gr_flags = Some (jint 0),
       gr_pattern = [WILDCARD, EXACT [97, 112, 105]], gr_set_id = jint 5\<rparr>],
     gw_owner_pub = replicate 32 9, gw_sig = None\<rparr>"

theorem gatewayRoutes_roundtrip_witness:
  "rbind (encodeGatewayRoutesV1 example_routes True) decodeGatewayRoutesV1 =
     Inr (routes_canonical True example_routes)"
proof (rule gatewayRoutes_roundtrip)
  show "routes_wf example_routes"
    by (simp add: routes_wf_def example_routes_def in_u64_def set_wf_def target_wf_def rule_wf_def
        opt_byte_wf_def label_wf_def in_range_def)
qed

text \<open>A truncated document is not rejected. When the input ends inside the head of a label, every
  rule from there on is returned as an empty pattern to the gateway set whose number is the four
  magic bytes, and no error is thrown.\<close>

theorem gatewayRoutes_truncated_label:
  assumes "elem_at bs (off + 2) = Some 1" "elem_at bs (off + 3) \<noteq> Some (pattern_code WILDCARD_KIND)"
    "length bs \<le> off + 4" "4 \<le> length bs"
  shows "\<exists>r. gr_pattern r = [EXACT []] \<and> gr_set_id r = jint (of_le (take 4 bs)) \<and>
    decode_rules (Suc n) bs (Some off) = Inr (r # replicate n (phantom_rule bs), None)"
proof -
  have at: "byte_at bs (Some (off + 2)) = Some 1" using assms(1) by (simp add: byte_at_def)
  have lab: "decode_labels (unat (1 :: byte)) bs (Some (off + 3)) = ([EXACT []], None)"
    using decodePatternLabel_cut [OF assms(2)] assms(3) by (simp add: unat_1 Let_def)
  have gid: "readU32le_off bs None = Inr (of_le (take 4 bs))"
    using assms(4) by (simp add: readU32le_off_def reader_defs read_le_def)
  have nan: "decode_rules n bs (off_add None 4) = Inr (replicate n (phantom_rule bs), None)"
    using decode_rules_NaN assms(4) by (simp add: off_add_def)
  show ?thesis
    unfolding decode_rules.simps off_add_def option.case at Let_def lab prod.case gid rbind_Inr
      nan [unfolded off_add_def option.case]
    by simp
qed

theorem gatewayRoutes_truncated_label_witness:
  "\<exists>r. gr_pattern r = [EXACT []] \<and> gr_set_id r = jint (of_le (take 4 (ascii ''GWRT'' @ [0, 0, 1, 1]))) \<and>
     decode_rules (Suc 1) (ascii ''GWRT'' @ [0, 0, 1, 1]) (Some 4) =
       Inr (r # replicate 1 (phantom_rule (ascii ''GWRT'' @ [0, 0, 1, 1])), None)"
  by (rule gatewayRoutes_truncated_label)
    (simp_all add: pattern_code_def elem_at_def nth_append)

end
