(* ===== verification/Merkle.thy ===== *)
theory Merkle
  imports Json Bytes Unicode Stable_Sort
begin

section \<open>The registry tree (core/src/registry\_merkle.ts)\<close>

text \<open>
  The registry commits to its records with a Merkle tree over hexadecimal hashes. What the code
  takes from outside the repository are the fields of an environment: the hash \<open>blake3\<close>,
  \<open>punycode.toASCII\<close>, the collation of \<open>localeCompare\<close>, the protocol that \<open>new URL\<close> parses
  (\<open>None\<close> when it throws) and the printing of numbers.
\<close>

record registry_env =
  env_blake3 :: "bytes \<Rightarrow> bytes"
  env_toASCII :: "string \<Rightarrow> string"
  env_localeCompare :: "string \<Rightarrow> string \<Rightarrow> int"
  env_urlProtocol :: "string \<Rightarrow> string option"
  env_numstr :: "rat \<Rightarrow> string"

datatype entry_value = StringValue string | KeyValue string string

record RegistryEntry =
  re_type :: string
  re_value :: entry_value
  re_ttl :: "jsnum option"

record RegistryRecord =
  reg_name :: string
  reg_records :: "RegistryEntry list"
  reg_version :: jsnum
  reg_updatedAt :: string
  reg_owner :: "string option"

record RegistrySnapshot =
  snap_version :: jsnum
  snap_updatedAt :: string
  snap_records :: "RegistryRecord list"

datatype direction = LeftDir | RightDir

record MerkleProof =
  mp_siblings :: "string list"
  mp_directions :: "direction list"

definition ALLOWED_TYPES :: "string list" where
  "ALLOWED_TYPES = [''OWNER'', ''NODE_PUBKEY'', ''ENDPOINT'', ''CAPS'', ''TEXT'']"

definition ALLOWED_CAPS :: "string list" where
  "ALLOWED_CAPS = [''cache'', ''verify'', ''store'', ''proxy'', ''tor'']"

definition normalizeRegistryName :: "registry_env \<Rightarrow> string \<Rightarrow> string" where
  "normalizeRegistryName env name = env_toASCII env (lower (strip_dot (trim name)))"

text \<open>A normalized entry; \<open>JSON.stringify\<close> leaves an absent \<open>ttl\<close> out.\<close>

record NormalizedEntry =
  ne_type :: string
  ne_key :: string
  ne_value :: string
  ne_ttl :: "jsnum option"

definition normalizeEntry :: "registry_env \<Rightarrow> RegistryEntry \<Rightarrow> NormalizedEntry res" where
  "normalizeEntry env entry =
     (let ty = upper (re_type entry);
          out = (\<lambda>k v. Inr \<lparr>ne_type = ty, ne_key = k, ne_value = v, ne_ttl = re_ttl entry\<rparr>) in
      if ty \<notin> set ALLOWED_TYPES then throw (''unsupported record type '' @ ty)
      else if ty = ''TEXT'' then
        (case re_value entry of
           StringValue _ \<Rightarrow> throw ''TEXT record must be {key,value}''
         | KeyValue k v \<Rightarrow> if k = [] \<or> v = [] then throw ''TEXT record requires key/value'' else out k v)
      else if ty = ''ENDPOINT'' then
        (case re_value entry of
           KeyValue _ _ \<Rightarrow> throw ''ENDPOINT must be string''
         | StringValue v \<Rightarrow>
             (case env_urlProtocol env v of
                None \<Rightarrow> Inl TypeError
              | Some protocol \<Rightarrow> if protocol \<noteq> ''https:'' then throw ''ENDPOINT must be https'' else out [] v))
      else if ty = ''NODE_PUBKEY'' then
        (case re_value entry of
           KeyValue _ _ \<Rightarrow> throw ''NODE_PUBKEY must be string''
         | StringValue v \<Rightarrow>
             if \<not> starts_with v ''ed25519:'' then throw ''NODE_PUBKEY must be ed25519:<base64>'' else out [] v)
      else if ty = ''CAPS'' then
        (case re_value entry of
           KeyValue _ _ \<Rightarrow> throw ''CAPS must be string''
         | StringValue v \<Rightarrow>
             (let caps = filter (\<lambda>c. c \<noteq> []) (map (\<lambda>cap. lower (trim cap)) (split_on (CHR '','') v)) in
              case find (\<lambda>cap. cap \<notin> set ALLOWED_CAPS) caps of
                Some cap \<Rightarrow> throw (''unsupported cap '' @ cap)
              | None \<Rightarrow> out [] (join '','' (js_sort cmp_string (js_dedup caps)))))
      else
        (case re_value entry of
           KeyValue _ _ \<Rightarrow> throw (ty @ '' must be non-empty string'')
         | StringValue v \<Rightarrow> if v = [] then throw (ty @ '' must be non-empty string'') else out [] v))"

definition entry_key :: "NormalizedEntry \<Rightarrow> string" where
  "entry_key e = ne_type e @ ''|'' @ ne_key e @ ''|'' @ ne_value e"

definition normalizeRecordEntries :: "registry_env \<Rightarrow> RegistryEntry list \<Rightarrow> NormalizedEntry list res" where
  "normalizeRecordEntries env records =
     (if records = [] \<or> \<not> list_ex (\<lambda>entry. upper (re_type entry) = ''OWNER'') records
        then throw ''OWNER record required''
      else rbind (traverse (normalizeEntry env) records) (\<lambda>normalized.
        Inr (js_sort (\<lambda>a b. env_localeCompare env (entry_key a) (entry_key b)) normalized)))"

definition entry_json :: "NormalizedEntry \<Rightarrow> json" where
  "entry_json e = JObj ([(''type'', JStr (ne_type e)), (''key'', JStr (ne_key e)), (''value'', JStr (ne_value e))] @
     opt_field ''ttl'' (map_option JNum (ne_ttl e)))"

definition canonicalizeRecord :: "registry_env \<Rightarrow> RegistryRecord \<Rightarrow> string res" where
  "canonicalizeRecord env r =
     (let normalizedName = normalizeRegistryName env (reg_name r) in
      rbind (normalizeRecordEntries env (reg_records r)) (\<lambda>normalizedRecords.
        Inr (json_str (env_numstr env) (JObj
          ([(''name'', JStr normalizedName), (''version'', JNum (reg_version r)),
            (''updatedAt'', JStr (reg_updatedAt r)), (''records'', JArr (map entry_json normalizedRecords))] @
           (case reg_owner r of None \<Rightarrow> [] | Some ow \<Rightarrow> if ow = [] then [] else [(''owner'', JStr ow)]))))))"

text \<open>\<open>bytesToHex(blake3(new TextEncoder().encode(s)))\<close>.\<close>

definition hashText :: "(bytes \<Rightarrow> bytes) \<Rightarrow> string \<Rightarrow> string" where
  "hashText blake3 s = hex (blake3 (text_encode (map of_char s)))"

definition hashLeaf :: "registry_env \<Rightarrow> RegistryRecord \<Rightarrow> string res" where
  "hashLeaf env r =
     rbind (canonicalizeRecord env r) (\<lambda>canonical.
       let name = normalizeRegistryName env (reg_name r) in
       Inr (hashText (env_blake3 env) (name @ [CHR 0x0A] @ canonical)))"

record Leaf =
  leaf_name :: string
  leaf_hash :: string

definition buildLeaves :: "registry_env \<Rightarrow> RegistryRecord list \<Rightarrow> Leaf list res" where
  "buildLeaves env records =
     rbind (traverse (\<lambda>r. rbind (hashLeaf env r) (\<lambda>h.
         Inr \<lparr>leaf_name = normalizeRegistryName env (reg_name r), leaf_hash = h\<rparr>)) records) (\<lambda>leaves.
       Inr (js_sort (\<lambda>a b. env_localeCompare env (leaf_name a) (leaf_name b)) leaves))"

text \<open>One level of the tree: neighbours are joined, a last node without one is joined to itself.\<close>

fun level_inputs :: "string list \<Rightarrow> string list" where
  "level_inputs [] = []"
| "level_inputs [x] = [x @ x]"
| "level_inputs (x # y # zs) = (x @ y) # level_inputs zs"

definition next_level :: "(string \<Rightarrow> string) \<Rightarrow> string list \<Rightarrow> string list" where
  "next_level H level = map H (level_inputs level)"

lemma length_level_inputs: "length (level_inputs xs) = (length xs + 1) div 2"
  by (induction xs rule: level_inputs.induct) auto

function tree_layers :: "(string \<Rightarrow> string) \<Rightarrow> string list \<Rightarrow> string list list" where
  "tree_layers H level = (if length level \<le> 1 then [level] else level # tree_layers H (next_level H level))"
  by pat_completeness auto
termination
  by (relation "measure (\<lambda>(H, level). length level)") (auto simp: next_level_def length_level_inputs)

declare tree_layers.simps [simp del]

definition buildTree :: "registry_env \<Rightarrow> Leaf list \<Rightarrow> string list list" where
  "buildTree env leaves = tree_layers (hashText (env_blake3 env)) (map leaf_hash leaves)"

text \<open>\<open>tree.at(-1)?.[0]\<close>.\<close>

definition tree_root :: "string list list \<Rightarrow> string option" where
  "tree_root tree = (if tree = [] then None else elem_at (last tree) 0)"

definition or_default :: "'a option \<Rightarrow> 'a \<Rightarrow> 'a" where
  "or_default x d = (case x of None \<Rightarrow> d | Some v \<Rightarrow> v)"

definition buildMerkleRoot :: "registry_env \<Rightarrow> RegistryRecord list \<Rightarrow> string res" where
  "buildMerkleRoot env records =
     rbind (buildLeaves env records) (\<lambda>leaves.
       if length leaves = 0 then Inr (hashText (env_blake3 env) '''')
       else Inr (or_default (tree_root (buildTree env leaves)) ''''))"

text \<open>The loop over the levels below the root. A missing array element prints as \<open>undefined\<close>.\<close>

fun proof_loop :: "string list list \<Rightarrow> nat \<Rightarrow> string list \<times> direction list" where
  "proof_loop (layer # upper1 # rest) idx =
     (let isRight = (idx mod 2 = 1);
          pairIndex = (if isRight then idx - 1 else idx + 1);
          pairHash = or_default (elem_at layer pairIndex) (or_default (elem_at layer idx) ''undefined'');
          (siblings, directions) = proof_loop (upper1 # rest) (idx div 2)
      in (pairHash # siblings, (if isRight then LeftDir else RightDir) # directions))"
| "proof_loop _ idx = ([], [])"

fun find_index :: "('a \<Rightarrow> bool) \<Rightarrow> 'a list \<Rightarrow> nat option" where
  "find_index p [] = None"
| "find_index p (x # xs) = (if p x then Some 0 else map_option Suc (find_index p xs))"

definition buildProof :: "registry_env \<Rightarrow> RegistryRecord list \<Rightarrow> string \<Rightarrow> (string \<times> MerkleProof \<times> string) res" where
  "buildProof env records name =
     (let normalized = normalizeRegistryName env name in
      rbind (buildLeaves env records) (\<lambda>leaves.
        let tree = buildTree env leaves in
        case find_index (\<lambda>leaf. leaf_name leaf = normalized) leaves of
          None \<Rightarrow> Inr ('''', \<lparr>mp_siblings = [], mp_directions = []\<rparr>, or_default (tree_root tree) '''')
        | Some index \<Rightarrow>
            (let (siblings, directions) = proof_loop tree index
             in Inr (leaf_hash (leaves ! index), \<lparr>mp_siblings = siblings, mp_directions = directions\<rparr>,
                  or_default (tree_root tree) ''''))))"

fun verify_loop :: "(string \<Rightarrow> string) \<Rightarrow> string \<Rightarrow> string list \<Rightarrow> direction list \<Rightarrow> string" where
  "verify_loop H computed [] ds = computed"
| "verify_loop H computed (sibling # ss) ds =
     (let combined = (if elem_at ds 0 = Some LeftDir then sibling @ computed else computed @ sibling)
      in verify_loop H (H combined) ss (tl ds))"

definition verifyProof :: "registry_env \<Rightarrow> string \<Rightarrow> string \<Rightarrow> MerkleProof \<Rightarrow> bool" where
  "verifyProof env rt leaf proof \<longleftrightarrow>
     verify_loop (hashText (env_blake3 env)) leaf (mp_siblings proof) (mp_directions proof) = rt"

section \<open>Properties of the tree\<close>

lemma level_inputs_nth:
  "i < (length xs + 1) div 2 \<Longrightarrow>
     level_inputs xs ! i = xs ! (2 * i) @ (if 2 * i + 1 < length xs then xs ! (2 * i + 1) else xs ! (2 * i))"
proof (induction xs arbitrary: i rule: level_inputs.induct)
  case (3 x y zs)
  then show ?case by (cases i) auto
qed auto

lemma level_inputs_parts:
  "y \<in> set (level_inputs xs) \<Longrightarrow> \<exists>l r. l \<in> set xs \<and> r \<in> set xs \<and> y = l @ r"
  by (induction xs rule: level_inputs.induct) auto

lemma tree_layers_ne [simp]: "tree_layers H level \<noteq> []"
  by (subst tree_layers.simps) simp

lemma hd_tree_layers: "\<exists>rest. tree_layers H level = level # rest"
  by (subst tree_layers.simps) simp

lemma tree_root_step:
  "\<not> length level \<le> 1 \<Longrightarrow> tree_root (tree_layers H level) = tree_root (tree_layers H (next_level H level))"
  by (subst tree_layers.simps) (simp add: tree_root_def)

lemma tree_root_exists: "level \<noteq> [] \<Longrightarrow> \<exists>r. tree_root (tree_layers H level) = Some r"
proof (induction H level rule: tree_layers.induct)
  case (1 H level)
  show ?case
  proof (cases "length level \<le> 1")
    case True
    with 1 show ?thesis by (subst tree_layers.simps) (auto simp: tree_root_def elem_at_def)
  next
    case False
    moreover have "next_level H level \<noteq> []"
      using False length_level_inputs [of level] by (auto simp: next_level_def)
    ultimately show ?thesis using 1 by (simp add: tree_root_step)
  qed
qed

text \<open>A proof built from the tree recomputes the root.\<close>

lemma proof_loop_verifies:
  "idx < length level \<Longrightarrow> proof_loop (tree_layers H level) idx = (ss, ds) \<Longrightarrow>
     tree_root (tree_layers H level) = Some (verify_loop H (level ! idx) ss ds)"
proof (induction H level arbitrary: idx ss ds rule: tree_layers.induct)
  case (1 H level)
  show ?case
  proof (cases "length level \<le> 1")
    case True
    then have t: "tree_layers H level = [level]" by (subst tree_layers.simps) simp
    then have "ss = []" using 1 by simp
    moreover have "idx = 0" using True 1 by simp
    ultimately show ?thesis using 1 t by (simp add: tree_root_def)
  next
    case False
    let ?next = "next_level H level"
    obtain rest where rest: "tree_layers H ?next = ?next # rest" using hd_tree_layers by blast
    have t: "tree_layers H level = level # ?next # rest"
      using False rest by (subst tree_layers.simps) simp
    obtain ss' ds' where p: "proof_loop (tree_layers H ?next) (idx div 2) = (ss', ds')" by fastforce
    let ?pi = "if idx mod 2 = 1 then idx - 1 else idx + 1"
    let ?sib = "or_default (elem_at level ?pi) (or_default (elem_at level idx) ''undefined'')"
    have sd: "ss = ?sib # ss'" "ds = (if idx mod 2 = 1 then LeftDir else RightDir) # ds'"
      using 1 p t rest by (auto simp: Let_def)
    have half: "idx div 2 < (length level + 1) div 2" using 1 by linarith
    then have lt: "idx div 2 < length ?next" by (simp add: next_level_def length_level_inputs)
    let ?comb = "if idx mod 2 = 1 then ?sib @ level ! idx else level ! idx @ ?sib"
    have "level_inputs level ! (idx div 2) = ?comb"
    proof (cases "idx mod 2 = 1")
      case True
      then have "2 * (idx div 2) = idx - 1" "idx - 1 + 1 = idx" by presburger+
      moreover have "idx < length level" "idx - 1 < length level" using 1(2) by simp_all
      ultimately show ?thesis using True half
        by (simp add: level_inputs_nth or_default_def elem_at_def)
    next
      case False
      then have "2 * (idx div 2) = idx" by presburger
      with False half 1 show ?thesis
        by (simp add: level_inputs_nth or_default_def elem_at_def)
    qed
    then have "?next ! (idx div 2) = H ?comb"
      using lt by (simp add: next_level_def)
    moreover have "tree_root (tree_layers H ?next) = Some (verify_loop H (?next ! (idx div 2)) ss' ds')"
      using 1 False lt p by blast
    ultimately show ?thesis
      using False by (cases "idx mod 2 = 1") (simp_all add: tree_root_step sd Let_def)
  qed
qed

text \<open>
  Conversely, a proof of full height that recomputes the root starts from a leaf of the tree, or
  two different strings hashed by the verifier and by the builder have one hash.
\<close>

fun verify_inputs :: "(string \<Rightarrow> string) \<Rightarrow> string \<Rightarrow> string list \<Rightarrow> direction list \<Rightarrow> string list" where
  "verify_inputs H computed [] ds = []"
| "verify_inputs H computed (sibling # ss) ds =
     (let combined = (if elem_at ds 0 = Some LeftDir then sibling @ computed else computed @ sibling)
      in combined # verify_inputs H (H combined) ss (tl ds))"

definition tree_inputs :: "string list list \<Rightarrow> string list" where
  "tree_inputs tree = concat (map level_inputs (butlast tree))"

definition hash_collision :: "(string \<Rightarrow> string) \<Rightarrow> string list \<Rightarrow> string list \<Rightarrow> bool" where
  "hash_collision H xs ys \<longleftrightarrow> list_ex (\<lambda>x. list_ex (\<lambda>y. x \<noteq> y \<and> H x = H y) ys) xs"

lemma tree_inputs_step:
  "\<not> length level \<le> 1 \<Longrightarrow>
     tree_inputs (tree_layers H level) = level_inputs level @ tree_inputs (tree_layers H (next_level H level))"
  by (subst tree_layers.simps) (simp add: tree_inputs_def)

lemma verify_loop_sound:
  assumes H: "\<And>s. length (H s) = n"
  shows "level \<noteq> [] \<Longrightarrow> (\<And>x. x \<in> set level \<Longrightarrow> length x = n) \<Longrightarrow> length c = n \<Longrightarrow>
     (\<And>s. s \<in> set ss \<Longrightarrow> length s = n) \<Longrightarrow> Suc (length ss) = length (tree_layers H level) \<Longrightarrow>
     tree_root (tree_layers H level) = Some (verify_loop H c ss ds) \<Longrightarrow>
     c \<in> set level \<or> hash_collision H (verify_inputs H c ss ds) (tree_inputs (tree_layers H level))"
proof (induction level arbitrary: c ss ds rule: measure_induct_rule [where f = length])
  case (less level)
  note prems = less.prems
  show ?case
  proof (cases "length level \<le> 1")
    case True
    then have "tree_layers H level = [level]" by (subst tree_layers.simps) simp
    then have "elem_at level 0 = Some c" using prems(5,6) by (simp add: tree_root_def)
    then show ?thesis by auto
  next
    case False
    let ?next = "next_level H level"
    have t: "tree_layers H level = level # tree_layers H ?next"
      using False by (subst tree_layers.simps) simp
    obtain s ss' where ss: "ss = s # ss'" and l: "Suc (length ss') = length (tree_layers H ?next)"
      using prems(5) t by (cases ss) auto
    let ?comb = "if elem_at ds 0 = Some LeftDir then s @ c else c @ s"
    have v: "tree_root (tree_layers H ?next) = Some (verify_loop H (H ?comb) ss' (tl ds))"
      using prems(6) False by (simp add: tree_root_step ss Let_def)
    have lt: "length ?next < length level"
      using False by (simp add: next_level_def length_level_inputs)
    have ne: "?next \<noteq> []" using False length_level_inputs [of level] by (auto simp: next_level_def)
    have inp: "verify_inputs H c ss ds = ?comb # verify_inputs H (H ?comb) ss' (tl ds)"
      by (simp add: ss Let_def)
    have "H ?comb \<in> set ?next \<or>
        hash_collision H (verify_inputs H (H ?comb) ss' (tl ds)) (tree_inputs (tree_layers H ?next))"
      using prems(4) by (intro less.IH [OF lt ne _ _ _ l v]) (auto simp: H next_level_def ss)
    then show ?thesis
    proof
      assume "H ?comb \<in> set ?next"
      then obtain y where y: "y \<in> set (level_inputs level)" "H ?comb = H y" by (auto simp: next_level_def)
      show ?thesis
      proof (cases "?comb = y")
        case True
        obtain a b where ab: "a \<in> set level" "b \<in> set level" "y = a @ b" using level_inputs_parts [OF y(1)] by blast
        have "length s = n" using prems(4) ss by simp
        moreover have "length a = n" "length b = n" "length c = n" using ab prems(2,3) by auto
        ultimately have "c = a \<or> c = b" using True ab(3) by (auto split: if_splits)
        with ab show ?thesis by blast
      next
        case False
        then show ?thesis using y inp \<open>\<not> length level \<le> 1\<close>
          by (auto simp: hash_collision_def list_ex_iff tree_inputs_step)
      qed
    next
      assume "hash_collision H (verify_inputs H (H ?comb) ss' (tl ds)) (tree_inputs (tree_layers H ?next))"
      then show ?thesis using False
        unfolding inp by (auto simp: hash_collision_def list_ex_iff tree_inputs_step)
    qed
  qed
qed

section \<open>Claims\<close>

lemma find_index_Some:
  "find_index p xs = Some i \<Longrightarrow> i < length xs \<and> p (xs ! i)"
  by (induction xs arbitrary: i) (auto split: if_splits)

lemma find_index_exists: "x \<in> set xs \<Longrightarrow> p x \<Longrightarrow> \<exists>i. find_index p xs = Some i"
  by (induction xs) auto

text \<open>Every proof the registry builds for a name it holds verifies against the root it publishes,
  which is the root of \<open>buildMerkleRoot\<close>; and the proved leaf is one of the registry's leaves, with
  that normalized name.\<close>

theorem buildProof_complete:
  assumes "buildProof env records name = Inr (leaf, proof, rt)" "buildLeaves env records = Inr leaves"
    "normalizeRegistryName env name \<in> leaf_name ` set leaves"
  shows "verifyProof env rt leaf proof \<and> buildMerkleRoot env records = Inr rt \<and>
    \<lparr>leaf_name = normalizeRegistryName env name, leaf_hash = leaf\<rparr> \<in> set leaves"
proof -
  let ?H = "hashText (env_blake3 env)" and ?level = "map leaf_hash leaves"
  let ?p = "\<lambda>leaf. leaf_name leaf = normalizeRegistryName env name"
  obtain x where "x \<in> set leaves" "?p x" using assms(3) by auto
  then obtain i where i: "find_index ?p leaves = Some i" using find_index_exists [of x leaves ?p] by blast
  obtain ss ds where p: "proof_loop (tree_layers ?H ?level) i = (ss, ds)" by fastforce
  have idx: "i < length leaves" "leaf_name (leaves ! i) = normalizeRegistryName env name"
    using find_index_Some [OF i] by auto
  have root: "tree_root (tree_layers ?H ?level) = Some (verify_loop ?H (?level ! i) ss ds)"
    using idx p by (intro proof_loop_verifies) auto
  have out: "leaf = leaf_hash (leaves ! i)" "proof = \<lparr>mp_siblings = ss, mp_directions = ds\<rparr>"
    "rt = verify_loop ?H (?level ! i) ss ds"
    using assms(1,2) i p root by (auto simp: buildProof_def buildTree_def Let_def or_default_def)
  have "verifyProof env rt leaf proof" using idx by (simp add: verifyProof_def out)
  moreover have "buildMerkleRoot env records = Inr rt"
    using assms(2) idx root by (auto simp: buildMerkleRoot_def buildTree_def or_default_def out)
  moreover have "\<lparr>leaf_name = normalizeRegistryName env name, leaf_hash = leaf\<rparr> = leaves ! i"
    using idx(2) out(1) by simp
  ultimately show ?thesis using idx(1) by simp
qed

definition example_env :: registry_env where
  "example_env = \<lparr>env_blake3 = (\<lambda>m. replicate 32 (of_nat (length m))), env_toASCII = (\<lambda>s. s),
     env_localeCompare = cmp_string, env_urlProtocol = (\<lambda>_. None), env_numstr = (\<lambda>_. ''1'')\<rparr>"

definition example_record :: "string \<Rightarrow> RegistryRecord" where
  "example_record n = \<lparr>reg_name = n, reg_records = [\<lparr>re_type = ''owner'', re_value = StringValue ''alice'', re_ttl = None\<rparr>],
     reg_version = jint 1, reg_updatedAt = '''', reg_owner = None\<rparr>"

lemma example_name: "normalizeRegistryName example_env [c] = [lower_char c]" if "\<not> is_ws c" "c \<noteq> CHR ''.''"
  using that trim_id [of "[c]"]
  by (simp add: normalizeRegistryName_def example_env_def strip_dot_def lower_def)

lemma example_type: "upper ''owner'' = ''OWNER''"
  by code_simp

lemma example_hashLeaf: "\<exists>h. hashLeaf example_env (example_record n) = Inr h"
  by (simp add: hashLeaf_def canonicalizeRecord_def normalizeRecordEntries_def normalizeEntry_def
      example_record_def ALLOWED_TYPES_def example_type Let_def)

lemma example_buildLeaves:
  "\<exists>h1 h2. buildLeaves example_env [example_record ''b'', example_record ''a''] =
     Inr [\<lparr>leaf_name = ''a'', leaf_hash = h1\<rparr>, \<lparr>leaf_name = ''b'', leaf_hash = h2\<rparr>]"
proof -
  obtain h1 h2 where h: "hashLeaf example_env (example_record ''a'') = Inr h1"
    "hashLeaf example_env (example_record ''b'') = Inr h2"
    using example_hashLeaf by blast
  have n: "normalizeRegistryName example_env ''a'' = ''a''" "normalizeRegistryName example_env ''b'' = ''b''"
    by (simp_all add: example_name is_ws_def lower_char_def)
  have "reg_name (example_record m) = m" for m by (simp add: example_record_def)
  moreover have "env_localeCompare example_env = cmp_string" by (simp add: example_env_def)
  ultimately show ?thesis using h n by (simp add: buildLeaves_def cmp_string_def)
qed

lemma buildProof_total: "buildLeaves env records = Inr leaves \<Longrightarrow> \<exists>r. buildProof env records name = Inr r"
  by (auto simp: buildProof_def Let_def split: option.splits prod.splits)

theorem buildProof_complete_witness:
  "\<exists>leaf proof rt. buildProof example_env [example_record ''b'', example_record ''a''] ''a'' = Inr (leaf, proof, rt) \<and>
     verifyProof example_env rt leaf proof"
proof -
  obtain h1 h2 where L: "buildLeaves example_env [example_record ''b'', example_record ''a''] =
     Inr [\<lparr>leaf_name = ''a'', leaf_hash = h1\<rparr>, \<lparr>leaf_name = ''b'', leaf_hash = h2\<rparr>]"
    using example_buildLeaves by blast
  then obtain leaf pf rt where
    B: "buildProof example_env [example_record ''b'', example_record ''a''] ''a'' = Inr (leaf, pf, rt)"
    using buildProof_total by (metis prod_cases3)
  have "normalizeRegistryName example_env ''a'' = ''a''"
    by (simp add: example_name is_ws_def lower_char_def)
  then show ?thesis using B buildProof_complete [OF B L] by auto
qed

text \<open>C32: a proof that verifies against the published root and has one sibling for each level of the
  tree, all strings having the length of a hash, starts from a leaf of the registry; otherwise it
  exhibits a collision of the hash, between a string the verifier hashes and one the tree is built
  from. A shorter proof may start from an inner node: leaves and nodes are hashed alike.\<close>

theorem verifyProof_sound:
  assumes "buildLeaves env records = Inr leaves" "leaves \<noteq> []" "buildMerkleRoot env records = Inr rt"
    "verifyProof env rt leaf proof"
    "Suc (length (mp_siblings proof)) = length (buildTree env leaves)"
    "\<And>m. length (env_blake3 env m) = 32" "length leaf = 64" "list_all (\<lambda>s. length s = 64) (mp_siblings proof)"
  shows "leaf \<in> leaf_hash ` set leaves \<or>
    hash_collision (hashText (env_blake3 env))
      (verify_inputs (hashText (env_blake3 env)) leaf (mp_siblings proof) (mp_directions proof))
      (tree_inputs (buildTree env leaves))"
proof -
  let ?H = "hashText (env_blake3 env)" and ?level = "map leaf_hash leaves"
  have H: "length (?H s) = 64" for s using assms(6) by (simp add: hashText_def length_hex)
  have hl: "length h = 64" if "hashLeaf env r = Inr h" for r h
    using that H by (auto simp: hashLeaf_def result_simps Let_def)
  obtain as where as: "list_all2 (\<lambda>r l. rbind (hashLeaf env r) (\<lambda>h.
       Inr \<lparr>leaf_name = normalizeRegistryName env (reg_name r), leaf_hash = h\<rparr>) = Inr l) records as"
    and "set leaves = set as"
    using assms(1) by (auto simp: buildLeaves_def result_simps traverse_Inr_iff)
  have lv: "length x = 64" if x: "x \<in> set ?level" for x
  proof -
    obtain l where "l \<in> set as" "x = leaf_hash l" using x \<open>set leaves = set as\<close> by auto
    then obtain r where "rbind (hashLeaf env r) (\<lambda>h.
       Inr \<lparr>leaf_name = normalizeRegistryName env (reg_name r), leaf_hash = h\<rparr>) = Inr l"
      using as by (auto simp: list_all2_conv_all_nth in_set_conv_nth)
    then show ?thesis using hl \<open>x = leaf_hash l\<close> by (auto simp: result_simps)
  qed
  obtain r where r: "tree_root (tree_layers ?H ?level) = Some r"
    using tree_root_exists [of ?level] assms(2) by auto
  then have "rt = r" using assms(1-3) by (simp add: buildMerkleRoot_def buildTree_def or_default_def)
  then have "tree_root (tree_layers ?H ?level) = Some (verify_loop ?H leaf (mp_siblings proof) (mp_directions proof))"
    using r assms(4) by (simp add: verifyProof_def)
  then have "leaf \<in> set ?level \<or> hash_collision ?H
      (verify_inputs ?H leaf (mp_siblings proof) (mp_directions proof)) (tree_inputs (tree_layers ?H ?level))"
    using assms(2,5,7,8) by (intro verify_loop_sound [of ?H 64]) (auto simp: H lv list_all_iff buildTree_def)
  then show ?thesis by (simp add: buildTree_def)
qed

lemma example_blake3: "length (env_blake3 example_env m) = 32"
  by (simp add: example_env_def)

theorem verifyProof_sound_witness:
  "\<exists>rt leaves. buildLeaves example_env [example_record ''a''] = Inr leaves \<and>
     buildMerkleRoot example_env [example_record ''a''] = Inr rt \<and>
     (rt \<in> leaf_hash ` set leaves \<or>
      hash_collision (hashText (env_blake3 example_env))
        (verify_inputs (hashText (env_blake3 example_env)) rt [] []) (tree_inputs (buildTree example_env leaves)))"
proof -
  obtain h where h: "hashLeaf example_env (example_record ''a'') = Inr h"
    using example_hashLeaf by blast
  then have len: "length h = 64"
    by (auto simp: hashLeaf_def result_simps Let_def hashText_def length_hex example_env_def)
  let ?leaf = "\<lparr>leaf_name = normalizeRegistryName example_env (reg_name (example_record ''a'')), leaf_hash = h\<rparr>"
  have L: "buildLeaves example_env [example_record ''a''] = Inr [?leaf]"
    using h by (simp add: buildLeaves_def)
  have t: "buildTree example_env [?leaf] = [[h]]"
    by (simp add: buildTree_def tree_layers.simps)
  have R: "buildMerkleRoot example_env [example_record ''a''] = Inr h"
    unfolding buildMerkleRoot_def L by (simp add: t tree_root_def elem_at_def or_default_def)
  have "h \<in> leaf_hash ` set [?leaf] \<or> hash_collision (hashText (env_blake3 example_env))
      (verify_inputs (hashText (env_blake3 example_env)) h (mp_siblings \<lparr>mp_siblings = [], mp_directions = []\<rparr>)
        (mp_directions \<lparr>mp_siblings = [], mp_directions = []\<rparr>))
      (tree_inputs (buildTree example_env [?leaf]))"
    by (rule verifyProof_sound [OF L _ R]) (simp_all add: verifyProof_def t len example_blake3)
  with L R show ?thesis by (intro exI [of _ h] exI [of _ "[?leaf]"]) simp
qed

end
