(* ===== verification/GatewayRegistry.thy ===== *)
theory GatewayRegistry
  imports Merkle
begin

section \<open>The gateway's copy of the registry (gateway/src/registry.ts)\<close>

text \<open>
  The gateway carries its own copy of the registry code. The copy differs in how it treats an empty
  tree and adds the loading of snapshots with a two-second cache. Reading and parsing the file is
  the argument \<open>read\<close>; the module variable \<open>cached\<close> is explicit state.
\<close>

definition CACHE_TTL_MS :: int where
  "CACHE_TTL_MS = 2000"

definition gw_normalizeName :: "registry_env \<Rightarrow> string \<Rightarrow> string" where
  "gw_normalizeName env name = env_toASCII env (lower (strip_dot (trim name)))"

definition gw_canonicalizeRecord :: "registry_env \<Rightarrow> RegistryRecord \<Rightarrow> string res" where
  "gw_canonicalizeRecord env r =
     (let normalizedName = gw_normalizeName env (reg_name r) in
      rbind (normalizeRecordEntries env (reg_records r)) (\<lambda>normalizedRecords.
        Inr (json_str (env_numstr env) (JObj
          ([(''name'', JStr normalizedName), (''version'', JNum (reg_version r)),
            (''updatedAt'', JStr (reg_updatedAt r)), (''records'', JArr (map entry_json normalizedRecords))] @
           (case reg_owner r of None \<Rightarrow> [] | Some ow \<Rightarrow> if ow = [] then [] else [(''owner'', JStr ow)]))))))"

definition gw_hashLeaf :: "registry_env \<Rightarrow> RegistryRecord \<Rightarrow> string res" where
  "gw_hashLeaf env r =
     rbind (gw_canonicalizeRecord env r) (\<lambda>canonical.
       let name = gw_normalizeName env (reg_name r) in
       Inr (hashText (env_blake3 env) (name @ [CHR 0x0A] @ canonical)))"

definition gw_buildLeaves :: "registry_env \<Rightarrow> RegistryRecord list \<Rightarrow> Leaf list res" where
  "gw_buildLeaves env records =
     rbind (traverse (\<lambda>r. rbind (gw_hashLeaf env r) (\<lambda>h.
         Inr \<lparr>leaf_name = gw_normalizeName env (reg_name r), leaf_hash = h\<rparr>)) records) (\<lambda>leaves.
       Inr (js_sort (\<lambda>a b. env_localeCompare env (leaf_name a) (leaf_name b)) leaves))"

definition gw_buildMerkleRoot :: "registry_env \<Rightarrow> RegistryRecord list \<Rightarrow> string res" where
  "gw_buildMerkleRoot env records =
     rbind (gw_buildLeaves env records) (\<lambda>leaves.
       let tree = buildTree env leaves in
       Inr (or_default (tree_root tree) (hashText (env_blake3 env) '''')))"

definition validateSnapshot :: "registry_env \<Rightarrow> RegistrySnapshot \<Rightarrow> unit res" where
  "validateSnapshot env snapshot =
     rbind (traverse (\<lambda>r.
       let normalized = gw_normalizeName env (reg_name r) in
       if \<not> ends_with normalized ''.dns'' then throw (''invalid name '' @ reg_name r)
       else normalizeRecordEntries env (reg_records r)) (snap_records snapshot)) (\<lambda>_. Inr ())"

record SnapshotCache =
  sc_loadedAt :: int
  sc_snapshot :: RegistrySnapshot

definition loadSnapshot ::
  "registry_env \<Rightarrow> (string \<Rightarrow> RegistrySnapshot res) \<Rightarrow> int \<Rightarrow> string \<Rightarrow> SnapshotCache option \<Rightarrow>
     RegistrySnapshot res \<times> SnapshotCache option" where
  "loadSnapshot env read now registryPath cached =
     (case cached of
        Some c \<Rightarrow> if now - sc_loadedAt c < CACHE_TTL_MS then (Inr (sc_snapshot c), cached)
          else (case rbind (read registryPath) (\<lambda>snapshot. rbind (validateSnapshot env snapshot) (\<lambda>_. Inr snapshot)) of
             Inl e \<Rightarrow> (Inl e, cached)
           | Inr snapshot \<Rightarrow> (Inr snapshot, Some \<lparr>sc_loadedAt = now, sc_snapshot = snapshot\<rparr>))
      | None \<Rightarrow> (case rbind (read registryPath) (\<lambda>snapshot. rbind (validateSnapshot env snapshot) (\<lambda>_. Inr snapshot)) of
             Inl e \<Rightarrow> (Inl e, cached)
           | Inr snapshot \<Rightarrow> (Inr snapshot, Some \<lparr>sc_loadedAt = now, sc_snapshot = snapshot\<rparr>)))"

section \<open>Properties of the gateway's copy\<close>

lemma gw_normalizeName_eq: "gw_normalizeName = normalizeRegistryName"
  by (intro ext) (simp add: gw_normalizeName_def normalizeRegistryName_def)

lemma gw_buildLeaves_eq: "gw_buildLeaves = buildLeaves"
  by (intro ext) (simp add: gw_buildLeaves_def buildLeaves_def gw_hashLeaf_def hashLeaf_def
      gw_canonicalizeRecord_def canonicalizeRecord_def gw_normalizeName_eq)

text \<open>A cached snapshot has been validated; loading keeps this.\<close>

definition cache_ok :: "registry_env \<Rightarrow> SnapshotCache option \<Rightarrow> bool" where
  "cache_ok env c \<longleftrightarrow> (case c of None \<Rightarrow> True | Some s \<Rightarrow> validateSnapshot env (sc_snapshot s) = Inr ())"

lemma loadSnapshot_ok:
  "cache_ok env c \<Longrightarrow> loadSnapshot env read now path c = (res, c') \<Longrightarrow>
     cache_ok env c' \<and> (\<forall>s. res = Inr s \<longrightarrow> validateSnapshot env s = Inr ())"
  by (auto simp: loadSnapshot_def cache_ok_def result_simps split: option.splits if_splits sum.splits)

text \<open>Every sequence of loads, at any times and paths, starting from an empty cache.\<close>

fun load_all :: "registry_env \<Rightarrow> (string \<Rightarrow> RegistrySnapshot res) \<Rightarrow> (int \<times> string) list \<Rightarrow>
    SnapshotCache option \<Rightarrow> RegistrySnapshot res list \<times> SnapshotCache option" where
  "load_all env read [] c = ([], c)"
| "load_all env read ((now, path) # calls) c =
     (let (r, c') = loadSnapshot env read now path c; (rs, c'') = load_all env read calls c' in (r # rs, c''))"

lemma load_all_ok:
  "cache_ok env c \<Longrightarrow> load_all env read calls c = (rs, c') \<Longrightarrow>
     cache_ok env c' \<and> (\<forall>s. Inr s \<in> set rs \<longrightarrow> validateSnapshot env s = Inr ())"
proof (induction calls arbitrary: c rs)
  case (Cons call calls)
  obtain now path where call: "call = (now, path)" by fastforce
  obtain r c1 where r: "loadSnapshot env read now path c = (r, c1)" by fastforce
  obtain rs' where rs': "load_all env read calls c1 = (rs', c')" "rs = r # rs'"
    using Cons.prems(2) call r by (auto split: prod.splits)
  show ?case
    using loadSnapshot_ok [OF Cons.prems(1) r] Cons.IH [OF _ rs'(1)] rs'(2) by auto
qed simp

section \<open>Claims\<close>

text \<open>The gateway's copy of the tree code computes the same root as the core, for every list of
  records, the empty list included, and fails on the same records with the same error.\<close>

theorem gateway_root_agrees: "gw_buildMerkleRoot env records = buildMerkleRoot env records"
proof -
  have "or_default (tree_root (buildTree env leaves)) x = or_default (tree_root (buildTree env leaves)) y"
    if "leaves \<noteq> []" for leaves x y
    using tree_root_exists [of "map leaf_hash leaves" "hashText (env_blake3 env)"] that
    by (auto simp: buildTree_def or_default_def)
  moreover have "tree_root (buildTree env []) = None"
    by (simp add: buildTree_def tree_layers.simps tree_root_def elem_at_def)
  ultimately show ?thesis
    by (cases "buildLeaves env records")
      (auto simp: gw_buildMerkleRoot_def buildMerkleRoot_def gw_buildLeaves_eq or_default_def Let_def)
qed

text \<open>However often snapshots are loaded, from whatever paths and at whatever times, every snapshot
  the gateway hands out has passed validation. (The cache ignores the path, so a load may return
  the snapshot of another path; that one has been validated as well.)\<close>

theorem loadSnapshot_validated:
  "list_all (\<lambda>r. case r of Inl _ \<Rightarrow> True | Inr s \<Rightarrow> validateSnapshot env s = Inr ())
     (fst (load_all env read calls None))"
proof -
  obtain rs c where l: "load_all env read calls None = (rs, c)" by fastforce
  have "cache_ok env None" by (simp add: cache_ok_def)
  from load_all_ok [OF this l] l show ?thesis by (auto simp: list_all_iff split: sum.splits)
qed

lemma loadSnapshot_ignores_path:
  "loadSnapshot env read t p None = (Inr s, c) \<Longrightarrow> t' - t < CACHE_TTL_MS \<Longrightarrow>
     loadSnapshot env read t' q c = (Inr s, c)"
  by (auto simp: loadSnapshot_def split: sum.splits)

end
