(* ===== verification/Names.thy ===== *)
theory Names
  imports Bytes Unicode
begin

section \<open>Names and record data (core/src/normalize.ts, dns\_name.ts, name\_id.ts, rr\_helpers.ts)\<close>

text \<open>\<open>toASCII\<close> is \<open>punycode.toASCII\<close> and \<open>blake3\<close> the hash, both outside the repository.\<close>

definition label_char :: "char \<Rightarrow> bool" where
  "label_char c \<longleftrightarrow> (let n = (of_char c :: nat) in (97 \<le> n \<and> n \<le> 122) \<or> (48 \<le> n \<and> n \<le> 57) \<or> n = 45)"

text \<open>\<open>/^[a-z0-9-]{1,63}$/\<close>.\<close>

definition label_ok :: "string \<Rightarrow> bool" where
  "label_ok l \<longleftrightarrow> l \<noteq> [] \<and> length l \<le> 63 \<and> list_all label_char l"

definition validateNormalizedName :: "string \<Rightarrow> unit res" where
  "validateNormalizedName normalized =
     (if normalized = [] then throw ''empty normalized name''
      else if ends_with normalized ''.'' then throw ''normalized name must not end with dot''
      else let labels = split_on (CHR ''.'') normalized in
        if list_ex (\<lambda>l. length l = 0) labels then throw ''empty label''
        else case find (\<lambda>l. \<not> label_ok l) labels of
          Some l \<Rightarrow> throw (''invalid label: '' @ l)
        | None \<Rightarrow> if length normalized > 253 then throw ''name too long'' else Inr ())"

definition normalizeName :: "(string \<Rightarrow> string) \<Rightarrow> string \<Rightarrow> string res" where
  "normalizeName toASCII input =
     (let name = strip_dot (trim input) in
      if length name = 0 then throw ''empty name''
      else let labels = split_on (CHR ''.'') name in
        if list_ex (\<lambda>l. length l = 0) labels then throw ''empty label''
        else let outLabels = map toASCII labels;
                 normalized = lower (join ''.'' outLabels) in
          rbind (validateNormalizedName normalized) (\<lambda>_. Inr normalized))"

definition RESERVED :: "string list" where
  "RESERVED = [''fuck'', ''shit'', ''cunt'', ''bitch'', ''ass'']"

definition DNS_NAME_MIN :: nat where "DNS_NAME_MIN = 4"

definition DNS_NAME_MAX :: nat where "DNS_NAME_MAX = 13"

definition validateDnsLabel :: "string \<Rightarrow> unit res" where
  "validateDnsLabel label =
     (let lo = lower label in
      if length lo < DNS_NAME_MIN \<or> length lo > DNS_NAME_MAX then throw ''invalid length''
      else if \<not> (lo \<noteq> [] \<and> list_all label_char lo) then throw ''invalid characters''
      else if starts_with lo ''-'' \<or> ends_with lo ''-'' then throw ''invalid hyphen position''
      else if lo \<in> set RESERVED then throw ''reserved label''
      else Inr ())"

definition normalizeDnsLabel :: "string \<Rightarrow> string res" where
  "normalizeDnsLabel label = rbind (validateDnsLabel label) (\<lambda>_. Inr (lower label))"

definition deriveNameId :: "(bytes \<Rightarrow> bytes) \<Rightarrow> jsnum \<Rightarrow> string \<Rightarrow> bytes res" where
  "deriveNameId blake3 nsId normalizedName =
     (if \<not> in_range 0xffffffff nsId then throw ''nsId out of range''
      else let payload = concatBytes [u32le nsId, ascii normalizedName] in Inr (blake3 payload))"

subsection \<open>Record data\<close>

definition rrCNAME :: "string \<Rightarrow> bytes res" where
  "rrCNAME name = (if name = [] then throw ''empty cname'' else Inr (ascii (lower name)))"

definition rrTXT :: "ustr \<Rightarrow> bytes res" where
  "rrTXT txt = (let enc = text_encode txt in if length enc > 65535 then throw ''txt too long'' else Inr enc)"

text \<open>
  \<open>rrA\<close>: the parts are read with \<open>Number\<close>, the argument \<open>js_Number\<close>. \<open>rrAAAA\<close> reads groups
  with \<open>parseInt(p, 16)\<close>; of the pieces between \<open>::\<close> only the first two are used.
\<close>

definition rrA :: "(string \<Rightarrow> jsnum) \<Rightarrow> string \<Rightarrow> bytes res" where
  "rrA js_Number ipv4 =
     (let parts = map js_Number (split_on (CHR ''.'') ipv4) in
      if length parts \<noteq> 4 \<or> list_ex (\<lambda>p. \<not> in_range 255 p) parts then throw ''invalid ipv4''
      else Inr (concat (map u8 parts)))"

text \<open>\<open>split("::")\<close>: a two-character separator.\<close>

fun split_colons :: "string \<Rightarrow> string list" where
  "split_colons [] = [[]]"
| "split_colons [c] = [[c]]"
| "split_colons (c # d # cs) =
     (if c = CHR '':'' \<and> d = CHR '':'' then [] # split_colons cs
      else (case split_colons (d # cs) of [] \<Rightarrow> [[c]] | w # ws \<Rightarrow> (c # w) # ws))"

definition groups :: "string option \<Rightarrow> string list" where
  "groups part = (case part of None \<Rightarrow> [] | Some s \<Rightarrow> if s = [] then [] else filter (\<lambda>p. p \<noteq> []) (split_on (CHR '':'') s))"

definition group_bytes :: "string \<Rightarrow> bytes res" where
  "group_bytes p =
     (let val = parse_int16 p in
      if \<not> is_finite val \<or> nlt val (Fin 0) \<or> nlt (jint 0xffff) val then throw ''invalid ipv6''
      else Inr [word_of_int (num_int val div 256), word_of_int (num_int val)])"

definition rrAAAA :: "string \<Rightarrow> bytes res" where
  "rrAAAA ipv6 =
     (let pieces = split_colons ipv6;
          leftParts = groups (elem_at pieces 0);
          rightParts = groups (elem_at pieces 1) in
      if length leftParts + length rightParts > 8 then throw ''invalid ipv6''
      else let zerosToInsert = 8 - (length leftParts + length rightParts);
               parts = leftParts @ replicate zerosToInsert ''0'' @ rightParts in
        if length parts \<noteq> 8 then throw ''invalid ipv6''
        else rbind (traverse group_bytes parts) (\<lambda>out. Inr (concat out)))"

section \<open>Properties of names\<close>

lemma label_ok_no_dot: "label_ok l \<Longrightarrow> CHR ''.'' \<notin> set l"
  by (auto simp: label_ok_def label_char_def list_all_iff Let_def)

lemma label_char_lower: "label_char c \<Longrightarrow> lower_char c = c"
  by (auto simp: label_char_def lower_char_def Let_def)

lemma label_ok_lower: "label_ok l \<Longrightarrow> lower l = l"
  by (auto simp: label_ok_def lower_def list_all_iff label_char_lower map_idI)

lemma label_char_not_ws: "label_char c \<Longrightarrow> \<not> is_ws c"
  by (auto simp: label_char_def is_ws_def Let_def)

lemma split_on_snoc: "split_on d (t @ [d]) = split_on d t @ [[]]"
  by (induction t) (auto split: list.splits)

lemma validateNormalizedName_Inr:
  "validateNormalizedName n = Inr () \<longleftrightarrow>
     n \<noteq> [] \<and> length n \<le> 253 \<and> list_all label_ok (split_on (CHR ''.'') n)"
proof -
  have "\<not> ends_with n ''.''" if "list_all label_ok (split_on (CHR ''.'') n)"
  proof
    assume "ends_with n ''.''"
    then obtain t where "n = t @ ''.''" by (auto simp: ends_with_iff)
    then have "[] \<in> set (split_on (CHR ''.'') n)" by (simp add: split_on_snoc)
    with that show False by (auto simp: list_all_iff label_ok_def)
  qed
  moreover have "\<not> list_ex (\<lambda>l. length l = 0) ls" if "list_all label_ok ls" for ls
    using that by (auto simp: list_all_iff list_ex_iff label_ok_def)
  ultimately show ?thesis
    by (auto simp: validateNormalizedName_def Let_def find_None_iff find_Some_iff list_all_iff split: option.splits)
qed

lemma set_join: "set (join sep ws) \<subseteq> set sep \<union> \<Union> (set ` set ws)"
  by (induction sep ws rule: join.induct) auto

lemma normalized_chars:
  assumes "validateNormalizedName n = Inr ()" "c \<in> set n"
  shows "c = CHR ''.'' \<or> label_char c"
proof -
  have "c \<in> set (join [CHR ''.''] (split_on (CHR ''.'') n))" using assms(2) by (simp add: join_split_on)
  then have "c = CHR ''.'' \<or> (\<exists>l \<in> set (split_on (CHR ''.'') n). c \<in> set l)"
    using set_join by fastforce
  then show ?thesis using assms(1) by (auto simp: validateNormalizedName_Inr list_all_iff label_ok_def)
qed

lemma normalized_fixed:
  assumes "validateNormalizedName n = Inr ()"
  shows "trim n = n" "strip_dot n = n" "lower n = n"
proof -
  have nw: "\<not> is_ws c" if "c \<in> set n" for c
    using normalized_chars [OF assms that] label_char_not_ws by (auto simp: is_ws_def)
  show "trim n = n" by (rule trim_id) (use nw in \<open>cases n; auto\<close>)
  show "strip_dot n = n"
  proof (cases "n = []")
    case False
    have "last n \<noteq> CHR ''.''"
    proof
      assume "last n = CHR ''.''"
      with False have "n = butlast n @ ''.''" by (metis append_butlast_last_id)
      then have "[] \<in> set (split_on (CHR ''.'') n)" using split_on_snoc [of "CHR ''.''" "butlast n"] by simp
      then show False using assms by (auto simp: validateNormalizedName_Inr list_all_iff label_ok_def)
    qed
    then show ?thesis by (simp add: strip_dot_def)
  qed (simp add: strip_dot_def)
  have "lower_char c = c" if "c \<in> set n" for c
    using normalized_chars [OF assms that] label_char_lower by auto
  then show "lower n = n" by (simp add: lower_def map_idI)
qed

lemma normalizeName_fixed:
  assumes v: "validateNormalizedName n = Inr ()" and A: "\<And>l. label_ok l \<Longrightarrow> toASCII l = l"
  shows "normalizeName toASCII n = Inr n"
proof -
  have l: "list_all label_ok (split_on (CHR ''.'') n)" "n \<noteq> []"
    using v by (auto simp: validateNormalizedName_Inr)
  then have "map toASCII (split_on (CHR ''.'') n) = split_on (CHR ''.'') n"
    using A by (intro map_idI) (auto simp: list_all_iff)
  moreover have "\<not> list_ex (\<lambda>l. length l = 0) (split_on (CHR ''.'') n)"
    using l by (auto simp: list_ex_iff list_all_iff label_ok_def)
  ultimately show ?thesis
    using v l normalized_fixed [OF v] by (simp add: normalizeName_def Let_def join_split_on)
qed

lemma rr_IPv4:
  "(rrA js_Number s = Inr bs) \<longleftrightarrow>
     (\<exists>a b c d. map js_Number (split_on (CHR ''.'') s) = [jint a, jint b, jint c, jint d] \<and>
        a \<in> {0..255} \<and> b \<in> {0..255} \<and> c \<in> {0..255} \<and> d \<in> {0..255} \<and>
        bs = map word_of_int [a, b, c, d])" (is "?L \<longleftrightarrow> ?R")
proof
  assume ?L
  then have len: "length (map js_Number (split_on (CHR ''.'') s)) = 4"
    and r: "\<And>p. p \<in> set (map js_Number (split_on (CHR ''.'') s)) \<Longrightarrow> in_range 255 p"
    and bs: "bs = concat (map u8 (map js_Number (split_on (CHR ''.'') s)))"
    by (auto simp: rrA_def Let_def list_ex_iff split: if_splits)
  obtain w x y z where p: "map js_Number (split_on (CHR ''.'') s) = [w, x, y, z]"
    using len by (auto simp: numeral_eq_Suc length_Suc_conv)
  with r [of w] r [of x] r [of y] r [of z] obtain a b c d where "w = jint a" "x = jint b" "y = jint c" "z = jint d"
    "a \<in> {0..255}" "b \<in> {0..255}" "c \<in> {0..255}" "d \<in> {0..255}"
    by (auto simp: in_range_iff)
  with p bs show ?R by (auto simp: u8_jint)
next
  assume ?R
  then show ?L
  proof (elim exE conjE)
    fix a b c d
    assume p: "map js_Number (split_on (CHR ''.'') s) = [jint a, jint b, jint c, jint d]"
      and r: "a \<in> {0..255}" "b \<in> {0..255}" "c \<in> {0..255}" "d \<in> {0..255}"
      and bs: "bs = map word_of_int [a, b, c, d]"
    show ?L unfolding rrA_def p using r by (simp add: u8_jint bs)
  qed
qed

lemma traverse_length: "traverse f xs = Inr ys \<Longrightarrow> length ys = length xs"
  by (auto simp: traverse_Inr_iff list_all2_lengthD)

lemma rrAAAA_length: "rrAAAA s = Inr bs \<Longrightarrow> length bs = 16"
proof -
  assume a: "rrAAAA s = Inr bs"
  obtain parts out where p: "length parts = 8" "traverse group_bytes parts = Inr out" "bs = concat out"
    using a unfolding rrAAAA_def Let_def result_simps sum.inject not_not by metis
  have "length x = 2" if x: "x \<in> set out" for x
  proof -
    obtain q where "group_bytes q = Inr x"
      using x p(2) by (auto simp: traverse_Inr_iff list_all2_conv_all_nth in_set_conv_nth)
    then show ?thesis by (auto simp: group_bytes_def Let_def split: if_splits)
  qed
  then have "map length out = replicate (length out) 2" by (simp add: map_replicate_const [symmetric] cong: map_cong)
  then have "length bs = 2 * length out" by (simp add: p(3) length_concat sum_list_replicate)
  then show ?thesis using p traverse_length by fastforce
qed

section \<open>Claims\<close>

text \<open>Whatever \<open>normalizeName\<close> returns is in normal form: between 1 and 253 characters, every label
  1 to 63 lower-case letters, digits or hyphens. Normalizing it again changes nothing, provided
  \<open>toASCII\<close> leaves such labels alone.\<close>

theorem normalizeName_normal:
  assumes "normalizeName toASCII s = Inr n" "\<And>l. label_ok l \<Longrightarrow> toASCII l = l"
  shows "n \<noteq> [] \<and> length n \<le> 253 \<and> list_all label_ok (split_on (CHR ''.'') n) \<and> normalizeName toASCII n = Inr n"
proof -
  have v: "validateNormalizedName n = Inr ()"
    using assms(1) by (auto simp: normalizeName_def Let_def result_simps split: if_splits)
  then show ?thesis using normalizeName_fixed assms(2) by (simp add: validateNormalizedName_Inr)
qed

theorem normalizeName_normal_witness:
  "normalizeName (\<lambda>l. l) '' Alice.DNS. '' = Inr ''alice.dns'' \<and>
   list_all label_ok (split_on (CHR ''.'') ''alice.dns'')"
proof -
  have n: "normalizeName (\<lambda>l. l) '' Alice.DNS. '' = Inr ''alice.dns''" by code_simp
  from normalizeName_normal [OF n] n show ?thesis by blast
qed

end
