(* ===== verification/Ledger.thy ===== *)
theory Ledger
  imports Account Js_Strings
begin

section \<open>The credits ledger (core/src/credits/ledger.ts)\<close>

text \<open>
  Balances and a log of entries in one JSON file. The file is the state: absent, not JSON, or an
  object whose \<open>balances\<close> and \<open>entries\<close> may be missing. \<open>balances\<close> is a plain JavaScript
  object, so a key that is not an own property may be inherited from \<open>Object.prototype\<close>; of those,
  \<open>constructor\<close> and \<open>__proto__\<close> survive lower-casing. An inherited value is an object, and
  \<open>Number\<close> makes it \<open>NaN\<close>. Saved \<open>NaN\<close> reads back as \<open>null\<close>; both are falsy.
\<close>

datatype entry_kind = CreditEntry | DebitEntry

record CreditsLedgerEntry =
  le_domain_or_owner :: string
  le_amount :: jsnum
  le_reason :: string
  le_ts :: string
  le_kind :: entry_kind

record CreditsLedgerStore =
  ls_balances :: "string \<rightharpoonup> jsnum"
  ls_entries :: "CreditsLedgerEntry list"

datatype ledger_file = NoFile | Garbage
  | Parsed "(string \<rightharpoonup> jsnum) option" "CreditsLedgerEntry list option"

definition normalizeKey :: "string \<Rightarrow> string" where
  "normalizeKey value = lower (trim value)"

definition defaultStore :: CreditsLedgerStore where
  "defaultStore = \<lparr>ls_balances =
     [''good-traffic.com'' \<mapsto> jint 180, ''low-traffic.com'' \<mapsto> jint 20, ''active.com'' \<mapsto> jint 75],
     ls_entries = []\<rparr>"

definition saveStore :: "CreditsLedgerStore \<Rightarrow> ledger_file" where
  "saveStore store = Parsed (Some (ls_balances store)) (Some (ls_entries store))"

definition ensureStore :: "ledger_file \<Rightarrow> CreditsLedgerStore \<times> ledger_file" where
  "ensureStore file =
     (case file of
        NoFile \<Rightarrow> (defaultStore, saveStore defaultStore)
      | Garbage \<Rightarrow> (defaultStore, file)
      | Parsed None _ \<Rightarrow> (defaultStore, file)
      | Parsed (Some b) es \<Rightarrow>
          (\<lparr>ls_balances = b, ls_entries = (case es of None \<Rightarrow> [] | Some l \<Rightarrow> l)\<rparr>, file))"

definition inherited_key :: "string \<Rightarrow> bool" where
  "inherited_key key \<longleftrightarrow> key = ''constructor'' \<or> key = ''__proto__''"

text \<open>\<open>Number(balances[key] || 0)\<close>, and \<open>balances[key] = v\<close>.\<close>

definition read_balance :: "(string \<rightharpoonup> jsnum) \<Rightarrow> string \<Rightarrow> jsnum" where
  "read_balance b key =
     (case b key of Some n \<Rightarrow> nor n (Fin 0) | None \<Rightarrow> if inherited_key key then NaN else Fin 0)"

definition set_balance :: "(string \<rightharpoonup> jsnum) \<Rightarrow> string \<Rightarrow> jsnum \<Rightarrow> (string \<rightharpoonup> jsnum)" where
  "set_balance b key v = (if key = ''__proto__'' \<and> b key = None then b else b(key \<mapsto> v))"

definition raw_balance :: "(string \<rightharpoonup> jsnum) \<Rightarrow> string \<Rightarrow> jsnum" where
  "raw_balance b key = (case b key of Some n \<Rightarrow> n | None \<Rightarrow> NaN)"

definition ledger_getBalance :: "string \<Rightarrow> ledger_file \<Rightarrow> jsnum \<times> ledger_file" where
  "ledger_getBalance domainOrOwner file =
     (let key = normalizeKey domainOrOwner in
      if key = [] then (Fin 0, file)
      else let (store, file') = ensureStore file in (read_balance (ls_balances store) key, file'))"

definition or_reason :: "string \<Rightarrow> string \<Rightarrow> string" where
  "or_reason reason d = (if reason = [] then d else reason)"

definition ledger_credit :: "string \<Rightarrow> jsnum \<Rightarrow> string \<Rightarrow> string \<Rightarrow> ledger_file \<Rightarrow> jsnum res \<times> ledger_file" where
  "ledger_credit domainOrOwner amount reason ts file =
     (let key = normalizeKey domainOrOwner in
      if key = [] then (throw ''invalid_key'', file)
      else if \<not> is_finite amount \<or> nle amount (Fin 0) then (throw ''invalid_amount'', file)
      else let (store, file') = ensureStore file;
               b = set_balance (ls_balances store) key (nadd (read_balance (ls_balances store) key) amount);
               e = \<lparr>le_domain_or_owner = key, le_amount = amount, le_reason = or_reason reason ''credit'',
                    le_ts = ts, le_kind = CreditEntry\<rparr>
           in (Inr (raw_balance b key), saveStore \<lparr>ls_balances = b, ls_entries = ls_entries store @ [e]\<rparr>))"

definition ledger_debit :: "string \<Rightarrow> jsnum \<Rightarrow> string \<Rightarrow> string \<Rightarrow> ledger_file \<Rightarrow> jsnum res \<times> ledger_file" where
  "ledger_debit domainOrOwner amount reason ts file =
     (let key = normalizeKey domainOrOwner in
      if key = [] then (throw ''invalid_key'', file)
      else if \<not> is_finite amount \<or> nle amount (Fin 0) then (throw ''invalid_amount'', file)
      else let (store, file') = ensureStore file;
               current = read_balance (ls_balances store) key
           in if nlt current amount then (throw ''insufficient_credits'', file')
              else let b = set_balance (ls_balances store) key (nsub current amount);
                       e = \<lparr>le_domain_or_owner = key, le_amount = amount, le_reason = or_reason reason ''debit'',
                            le_ts = ts, le_kind = DebitEntry\<rparr>
                   in (Inr (raw_balance b key), saveStore \<lparr>ls_balances = b, ls_entries = ls_entries store @ [e]\<rparr>))"

record RenewalSubsidy =
  sub_credits_balance :: jsnum
  sub_renewal_cost_estimate :: jsnum
  sub_covered_by_credits :: bool
  sub_covered_amount :: jsnum

definition ledger_estimateRenewalSubsidy :: "string \<Rightarrow> ledger_file \<Rightarrow> RenewalSubsidy \<times> ledger_file" where
  "ledger_estimateRenewalSubsidy domain file =
     (let (credits, file') = ledger_getBalance domain file;
          renewalCostEstimate = jint 110;
          coveredAmount = nmin renewalCostEstimate credits
      in (\<lparr>sub_credits_balance = credits, sub_renewal_cost_estimate = renewalCostEstimate,
           sub_covered_by_credits = nle renewalCostEstimate coveredAmount,
           sub_covered_amount = coveredAmount\<rparr>, file'))"

section \<open>Properties of the ledger\<close>

text \<open>Balances are finite and not negative; the accounts of the contract are the non-empty keys that
  are not inherited.\<close>

definition ledger_inv :: "ledger_file \<Rightarrow> bool" where
  "ledger_inv file \<longleftrightarrow> (\<forall>k v. ls_balances (fst (ensureStore file)) k = Some v \<longrightarrow> (\<exists>q. v = Fin q \<and> 0 \<le> q))"

definition ledger_usable :: "string \<Rightarrow> bool" where
  "ledger_usable k \<longleftrightarrow> normalizeKey k \<noteq> [] \<and> \<not> inherited_key (normalizeKey k)"

definition ledger_bal :: "ledger_file \<Rightarrow> string \<Rightarrow> rat" where
  "ledger_bal file k = fin_part (fst (ledger_getBalance k file))"

definition credit_entry :: "string \<Rightarrow> rat \<Rightarrow> ledger_file \<Rightarrow> ledger_file" where
  "credit_entry k a file = snd (ledger_credit k (Fin a) [] [] file)"

definition debit_entry :: "string \<Rightarrow> rat \<Rightarrow> ledger_file \<Rightarrow> bool \<times> ledger_file" where
  "debit_entry k a file =
     (case ledger_debit k (Fin a) [] [] file of (r, file') \<Rightarrow> ((case r of Inl _ \<Rightarrow> False | Inr _ \<Rightarrow> True), file'))"

lemma ensureStore_saveStore [simp]: "ensureStore (saveStore s) = (s, saveStore s)"
  by (simp add: ensureStore_def saveStore_def)

lemma ensureStore_idem [simp]: "fst (ensureStore (snd (ensureStore file))) = fst (ensureStore file)"
  by (auto simp: ensureStore_def saveStore_def split: ledger_file.splits option.splits)

lemma read_balance_inv:
  assumes "ledger_inv file" "\<not> inherited_key key"
  shows "\<exists>q. read_balance (ls_balances (fst (ensureStore file))) key = Fin q \<and> 0 \<le> q"
  using assms
  by (cases "ls_balances (fst (ensureStore file)) key") (force simp: read_balance_def ledger_inv_def nor_def)+

lemma ledger_bal_read:
  "ledger_usable k \<Longrightarrow> ledger_bal file k = fin_part (read_balance (ls_balances (fst (ensureStore file))) (normalizeKey k))"
  by (simp add: ledger_bal_def ledger_getBalance_def ledger_usable_def split: prod.splits)

lemma read_set_balance:
  "\<not> inherited_key key \<Longrightarrow> read_balance (set_balance b key (Fin q)) j = (if j = key then Fin q else read_balance b j)"
  by (auto simp: read_balance_def set_balance_def inherited_key_def nor_def)

lemma set_balance_inv:
  assumes "ledger_inv file" "0 \<le> q"
  shows "ledger_inv (saveStore \<lparr>ls_balances = set_balance (ls_balances (fst (ensureStore file))) key (Fin q), ls_entries = es\<rparr>)"
  using assms by (auto simp: ledger_inv_def set_balance_def split: if_splits)

lemma credit_entry_eq:
  assumes "ledger_usable k" "0 < a" "ledger_inv file"
  shows "credit_entry k a file = saveStore \<lparr>ls_balances =
    set_balance (ls_balances (fst (ensureStore file))) (normalizeKey k) (Fin (ledger_bal file k + a)),
    ls_entries = ls_entries (fst (ensureStore file)) @ [\<lparr>le_domain_or_owner = normalizeKey k, le_amount = Fin a,
        le_reason = ''credit'', le_ts = [], le_kind = CreditEntry\<rparr>]\<rparr>"
proof -
  obtain q where q: "read_balance (ls_balances (fst (ensureStore file))) (normalizeKey k) = Fin q"
    using read_balance_inv assms by (meson ledger_usable_def)
  show ?thesis using assms q
    by (simp add: credit_entry_def ledger_credit_def ledger_bal_read fin_part_def ledger_usable_def
        split_beta Let_def or_reason_def)
qed

lemma debit_entry_eq:
  assumes "ledger_usable k" "0 < a" "ledger_inv file"
  shows "debit_entry k a file = (if a \<le> ledger_bal file k
    then (True, saveStore \<lparr>ls_balances =
      set_balance (ls_balances (fst (ensureStore file))) (normalizeKey k) (Fin (ledger_bal file k - a)),
      ls_entries = ls_entries (fst (ensureStore file)) @ [\<lparr>le_domain_or_owner = normalizeKey k, le_amount = Fin a,
        le_reason = ''debit'', le_ts = [], le_kind = DebitEntry\<rparr>]\<rparr>)
    else (False, snd (ensureStore file)))"
proof -
  obtain q where q: "read_balance (ls_balances (fst (ensureStore file))) (normalizeKey k) = Fin q"
    using read_balance_inv assms by (meson ledger_usable_def)
  show ?thesis using assms q
    by (simp add: debit_entry_def ledger_debit_def ledger_bal_read fin_part_def ledger_usable_def
        split_beta Let_def or_reason_def)
qed

lemma ledger_inv_ensure: "ledger_inv file \<Longrightarrow> ledger_inv (snd (ensureStore file))"
  by (simp add: ledger_inv_def)

lemma ledger_bal_ensure: "ledger_usable k \<Longrightarrow> ledger_bal (snd (ensureStore file)) k = ledger_bal file k"
  by (simp add: ledger_bal_read)

interpretation ledger: account_store ledger_bal credit_entry debit_entry ledger_inv ledger_usable
  "\<lambda>k j. normalizeKey k = normalizeKey j"
proof
  fix fl k
  assume "ledger_inv fl" "ledger_usable k"
  then show nn: "0 \<le> ledger_bal fl k"
    using read_balance_inv [of fl "normalizeKey k"] by (auto simp: ledger_bal_read fin_part_def ledger_usable_def)
next
  fix fl k j and a :: rat
  assume A: "ledger_inv fl" "ledger_usable k" "0 < a"
  have nn: "0 \<le> ledger_bal fl k"
    using A read_balance_inv [of fl "normalizeKey k"] by (auto simp: ledger_bal_read fin_part_def ledger_usable_def)
  obtain es where c: "credit_entry k a fl = saveStore \<lparr>ls_balances =
    set_balance (ls_balances (fst (ensureStore fl))) (normalizeKey k) (Fin (ledger_bal fl k + a)), ls_entries = es\<rparr>"
    using credit_entry_eq A by blast
  then show "ledger_inv (credit_entry k a fl)" using A nn by (simp add: set_balance_inv)
  show "ledger_inv (snd (debit_entry k a fl))"
    using A by (simp add: debit_entry_eq set_balance_inv ledger_inv_ensure)
  show "fst (debit_entry k a fl) = (a \<le> ledger_bal fl k)" using A by (simp add: debit_entry_eq)
  assume j: "ledger_usable j"
  then show "ledger_bal (credit_entry k a fl) j =
      (if normalizeKey k = normalizeKey j then ledger_bal fl j + a else ledger_bal fl j)"
    using A c by (auto simp: ledger_bal_read read_set_balance ledger_usable_def fin_part_def)
  show "ledger_bal (snd (debit_entry k a fl)) j =
      (if normalizeKey k = normalizeKey j \<and> a \<le> ledger_bal fl k then ledger_bal fl j - a else ledger_bal fl j)"
    using A j by (auto simp: debit_entry_eq ledger_bal_ensure) (auto simp: ledger_bal_read read_set_balance ledger_usable_def fin_part_def)
qed (simp add: ledger_bal_def ledger_getBalance_def)

section \<open>Claims\<close>

text \<open>Over any history of credits and debits with positive amounts, the balance of every account is
  what the accepted operations leave of the initial one, and it never becomes negative; a debit is
  accepted exactly when the balance covers it. Spellings of an account that differ in case or
  surrounding white space are one account. (Accounts named \<open>constructor\<close> and \<open>__proto__\<close> are
  excluded.)\<close>

theorem ledger_history:
  assumes "ledger_inv file" "list_all (op_ok ledger_usable) ops" "ledger_usable k"
  defines "final \<equiv> fold (\<lambda>op f. case op of Credit j a \<Rightarrow> credit_entry j a f | Debit j a \<Rightarrow> snd (debit_entry j a f)) ops file"
  shows "ledger_inv final \<and> 0 \<le> ledger_bal final k \<and>
    ledger_bal final k = net_effect (\<lambda>i j. normalizeKey i = normalizeKey j) k (ledger_bal file k) ops"
proof -
  have "(\<lambda>op f. case op of Credit j a \<Rightarrow> credit_entry j a f | Debit j a \<Rightarrow> snd (debit_entry j a f)) = ledger.apply_op"
    by (intro ext) (simp split: account_op.split)
  then show ?thesis
    using ledger.history [OF assms(1-3)] ledger.history_nonneg [OF assms(1-3)] by (simp add: final_def)
qed

theorem ledger_history_witness:
  "ledger_bal (snd (debit_entry '' ACTIVE.com'' 30 (credit_entry ''active.com'' 5 NoFile))) ''active.com'' = 50"
proof -
  have n: "normalizeKey ''active.com'' = ''active.com''" "normalizeKey '' ACTIVE.com'' = ''active.com''"
    by code_simp+
  have "ledger_inv NoFile"
    by (auto simp: ledger_inv_def ensureStore_def defaultStore_def split: if_splits)
  moreover have "list_all (op_ok ledger_usable) [Credit ''active.com'' 5, Debit '' ACTIVE.com'' 30]"
    by (simp add: ledger_usable_def n inherited_key_def)
  moreover have u: "ledger_usable ''active.com''" by (simp add: ledger_usable_def n inherited_key_def)
  moreover have "ledger_bal NoFile ''active.com'' = 75"
    by (simp add: ledger_bal_read [OF u] n ensureStore_def defaultStore_def read_balance_def fin_part_def nor_def)
  ultimately show ?thesis
    using ledger_history [of NoFile "[Credit ''active.com'' 5, Debit '' ACTIVE.com'' 30]" "''active.com''"] n
    by simp
qed

text \<open>The account \<open>constructor\<close> is not protected by the balance check: as long as it holds no own
  balance, any finite positive amount can be debited from it, and the debit is logged.\<close>

theorem ledger_debit_unbacked:
  assumes "ls_balances (fst (ensureStore file)) ''constructor'' = None" "0 < a"
  shows "fst (ledger_debit ''Constructor'' (Fin a) reason ts file) = Inr NaN"
proof -
  have "normalizeKey ''Constructor'' = ''constructor''" by code_simp
  then show ?thesis using assms
    by (simp add: ledger_debit_def split_beta Let_def read_balance_def inherited_key_def set_balance_def
        raw_balance_def nsub_def)
qed

theorem ledger_debit_unbacked_witness:
  "fst (ledger_debit ''Constructor'' (Fin 1000000) ''x'' ''t'' NoFile) = Inr NaN"
  by (rule ledger_debit_unbacked) (simp_all add: ensureStore_def defaultStore_def)

end
