(* ===== verification/Policy.thy ===== *)
theory Policy
  imports Json
begin

section \<open>Domain continuity policy (core/src/domain\_continuity\_policy.ts)\<close>

text \<open>
  From the state of a domain the policy computes its phase, whether it is protected, and advice.
  \<open>Date.parse\<close> is the argument \<open>parse\<close>, \<open>None\<close> for an invalid date. The unused inputs
  \<open>seo_value_signal\<close> and \<open>last_seen_at\<close> are kept.
\<close>

datatype TrafficSignal = TrafficNone | TrafficLow | TrafficReal
datatype SeoValueSignal = SeoLow | SeoMedium | SeoHigh
datatype ContinuityPhase = A_SOFT_WARNING | B_HARD_WARNING | HOLD_BANNER | C_SAFE_PARKED | D_REGISTRY_FINALIZATION

record DomainContinuityPolicyInput =
  dc_domain :: string
  dc_ns_status :: bool
  dc_verified_control :: bool
  dc_traffic_signal :: TrafficSignal
  dc_seo_value_signal :: "SeoValueSignal option"
  dc_credit_balance :: jsnum
  dc_renewal_cost_estimate :: jsnum
  dc_renewal_due_date :: "string option"
  dc_last_seen_at :: "string option"
  dc_abuse_flag :: bool

record DomainContinuityPolicyOutput =
  do_eligible :: bool
  do_phase :: ContinuityPhase
  do_hold_banner_active :: bool
  do_reason_codes :: "string list"
  do_next_steps :: "string list"
  do_credits_estimate :: int
  do_renewal_covered_by_credits :: bool

definition DAY_MS :: int where
  "DAY_MS = 24 * 60 * 60 * 1000"

definition normalizeDomain :: "string \<Rightarrow> string" where
  "normalizeDomain value = strip_dot (lower (trim value))"

definition daysUntil :: "(string \<Rightarrow> int option) \<Rightarrow> string option \<Rightarrow> int \<Rightarrow> int option" where
  "daysUntil parse dateMaybe nowMs =
     (case dateMaybe of
        None \<Rightarrow> None
      | Some d \<Rightarrow> if d = [] then None
          else (case parse d of None \<Rightarrow> None | Some ts \<Rightarrow> Some ((ts - nowMs) div DAY_MS)))"

definition basePhaseFor :: "int option \<Rightarrow> ContinuityPhase" where
  "basePhaseFor daysUntilDue =
     (case daysUntilDue of
        None \<Rightarrow> A_SOFT_WARNING
      | Some d \<Rightarrow> if d \<ge> 7 then A_SOFT_WARNING
          else if d \<ge> 0 then B_HARD_WARNING
          else if d \<ge> -30 then C_SAFE_PARKED
          else D_REGISTRY_FINALIZATION)"

definition creditsEstimateFor :: "TrafficSignal \<Rightarrow> bool \<Rightarrow> bool \<Rightarrow> int" where
  "creditsEstimateFor traffic nsStatus verified =
     (if \<not> nsStatus \<and> \<not> verified then 0
      else if traffic = TrafficReal then 40
      else if traffic = TrafficLow then 15
      else 5)"

definition evaluateDomainContinuityPolicy ::
  "(string \<Rightarrow> int option) \<Rightarrow> DomainContinuityPolicyInput \<Rightarrow> int \<Rightarrow> DomainContinuityPolicyOutput" where
  "evaluateDomainContinuityPolicy parse input nowMs =
     (let domain = normalizeDomain (dc_domain input);
          p1 = (if domain = [] then [(''INVALID_DOMAIN'', ''Provide a valid ICANN domain'')] else []);
          p2 = (if dc_abuse_flag input
                then [(''ABUSE_FLAGGED'', ''Resolve abuse flag before continuity protection'')] else []);
          p3 = (if \<not> dc_ns_status input \<and> \<not> dc_verified_control input
                then [(''NO_CONTROL_PATH'', ''Point NS to TollDNS or complete ownership verification'')] else []);
          p4 = (if dc_traffic_signal input = TrafficNone
                then [(''NO_TRAFFIC_SIGNAL'', ''Serve active content to establish real traffic signal'')] else []);
          dueInDays = daysUntil parse (dc_renewal_due_date input) nowMs;
          phase0 = basePhaseFor dueInDays;
          overdue = (case dueInDays of None \<Rightarrow> False | Some d \<Rightarrow> d < 0);
          holdEligible = (dc_traffic_signal input = TrafficReal \<and>
            (dc_ns_status input \<or> dc_verified_control input) \<and> \<not> dc_abuse_flag input);
          phase = (if overdue \<and> holdEligible then HOLD_BANNER else phase0);
          p5 = (if overdue \<and> holdEligible
                then [(''TRAFFIC_HOLD_ELIGIBLE'',
                  ''Traffic-based hold active: keep service online while renewal is pending'')] else []);
          reasonCodes = map fst (p1 @ p2 @ p3 @ p4 @ p5);
          creditsEstimate = creditsEstimateFor (dc_traffic_signal input) (dc_ns_status input) (dc_verified_control input);
          renewalCoveredByCredits =
            nle (nor (dc_renewal_cost_estimate input) (Fin 0)) (nor (dc_credit_balance input) (Fin 0));
          s1 = (if phase = HOLD_BANNER \<and> overdue then
                  (if renewalCoveredByCredits
                   then ''Renew now to exit traffic-based hold; credits can fully cover the renewal''
                   else ''Renew now to exit traffic-based hold using available credits + fallback payment method'')
                else if renewalCoveredByCredits then ''Renewal can be fully covered by credits''
                else ''Renew with available credits + fallback payment method'');
          s2 = (if phase = B_HARD_WARNING then [''Renew soon to avoid hold/banner or parked mode'']
                else if phase = C_SAFE_PARKED then [''Renew during grace window to restore full serving'']
                else if phase = D_REGISTRY_FINALIZATION
                then [''Registry finalization window reached; immediate manual renewal required''] else []);
          nextSteps = map snd (p1 @ p2 @ p3 @ p4 @ p5) @ [s1] @ s2;
          eligible = (''INVALID_DOMAIN'' \<notin> set reasonCodes \<and> ''ABUSE_FLAGGED'' \<notin> set reasonCodes \<and>
            ''NO_CONTROL_PATH'' \<notin> set reasonCodes)
      in \<lparr>do_eligible = eligible, do_phase = phase, do_hold_banner_active = (phase = HOLD_BANNER),
          do_reason_codes = js_dedup reasonCodes, do_next_steps = js_dedup nextSteps,
          do_credits_estimate = creditsEstimate, do_renewal_covered_by_credits = renewalCoveredByCredits\<rparr>)"

section \<open>Properties of the policy\<close>

definition hold_eligible :: "DomainContinuityPolicyInput \<Rightarrow> bool" where
  "hold_eligible i \<longleftrightarrow> dc_traffic_signal i = TrafficReal \<and>
     (dc_ns_status i \<or> dc_verified_control i) \<and> \<not> dc_abuse_flag i"

text \<open>How far a phase is from normal service; a held domain and a parked one are equally far.\<close>

fun phase_rank :: "ContinuityPhase \<Rightarrow> nat" where
  "phase_rank A_SOFT_WARNING = 0"
| "phase_rank B_HARD_WARNING = 1"
| "phase_rank HOLD_BANNER = 2"
| "phase_rank C_SAFE_PARKED = 2"
| "phase_rank D_REGISTRY_FINALIZATION = 3"

lemma phase_eq:
  "do_phase (evaluateDomainContinuityPolicy parse i now) =
     (case daysUntil parse (dc_renewal_due_date i) now of
        None \<Rightarrow> A_SOFT_WARNING
      | Some d \<Rightarrow> if d < 0 \<and> hold_eligible i then HOLD_BANNER else basePhaseFor (Some d))"
  by (simp add: evaluateDomainContinuityPolicy_def Let_def hold_eligible_def basePhaseFor_def split: option.split)

lemma daysUntil_mono:
  "now \<le> now' \<Longrightarrow> daysUntil parse due now' = Some d' \<Longrightarrow> \<exists>d. daysUntil parse due now = Some d \<and> d' \<le> d"
  by (auto simp: daysUntil_def DAY_MS_def zdiv_mono1 split: option.splits if_splits)

lemma daysUntil_None: "daysUntil parse due now' = None \<longleftrightarrow> daysUntil parse due now = None"
  by (auto simp: daysUntil_def split: option.splits if_splits)

section \<open>Claims\<close>


definition example_domain :: DomainContinuityPolicyInput where
  "example_domain = \<lparr>dc_domain = ''example.com'', dc_ns_status = True, dc_verified_control = False,
     dc_traffic_signal = TrafficReal, dc_seo_value_signal = None, dc_credit_balance = jint 20,
     dc_renewal_cost_estimate = jint 110, dc_renewal_due_date = Some ''2026-01-01'', dc_last_seen_at = None,
     dc_abuse_flag = False\<rparr>"


end
