(* ===== verification/AttackMode.thy ===== *)
theory AttackMode
  imports Js_Strings
begin

section \<open>Attack mode (packages/attack-mode/src/index.ts)\<close>

text \<open>
  A state machine that turns health signals into a mode, and the modes into a write policy; and the
  reading of one account from several RPC endpoints. How a number prints in a reason is the argument
  \<open>numstr\<close>; the answers of the endpoints, in the order they arrive, are the argument of
  \<open>fetchAccountMultiRpc\<close>.
\<close>

datatype AttackMode = NORMAL | SUSPICIOUS | UNDER_ATTACK | ISOLATED | RECOVERY

record AttackSignals =
  as_rpcFailPct :: "jsnum option"
  as_rpcDisagreement :: "bool option"
  as_invalidReceiptPct :: "jsnum option"
  as_receiptSampleSize :: "jsnum option"
  as_canonicalFlipCount :: "jsnum option"
  as_ipfsFailPct :: "jsnum option"
  as_gatewayErrorPct :: "jsnum option"
  as_nowUnix :: "jsnum option"

record AttackPolicy =
  ap_minRpcQuorum :: nat
  ap_requireStakeForReceipts :: bool
  ap_maxReceiptsPerWalletPerMin :: nat
  ap_maxWritesPerWalletPerHour :: nat
  ap_freezeWrites :: bool
  ap_ttlClampS :: nat

record AttackThresholds =
  at_rpcFailPctSuspicious :: jsnum
  at_invalidReceiptPctUnderAttack :: jsnum
  at_invalidReceiptMinSample :: jsnum
  at_canonicalFlipLimit :: jsnum
  at_recoveryStableSecs :: jsnum

record AttackDecision =
  ad_nextMode :: AttackMode
  ad_score :: int
  ad_reasons :: "string list"
  ad_lastStableUnix :: "jsnum option"

text \<open>\<open>Number(v)\<close> of an environment variable is the argument \<open>js_Number\<close>.\<close>

definition num_or :: "(string option \<Rightarrow> jsnum) \<Rightarrow> string option \<Rightarrow> int \<Rightarrow> jsnum" where
  "num_or js_Number v def = (let n = js_Number v in if is_finite n then n else jint def)"

definition defaultThresholdsFromEnv :: "(string option \<Rightarrow> jsnum) \<Rightarrow> (string \<Rightarrow> string option) \<Rightarrow> AttackThresholds" where
  "defaultThresholdsFromEnv js_Number env =
     \<lparr>at_rpcFailPctSuspicious = num_or js_Number (env ''ATTACK_RPC_FAIL_PCT'') 30,
      at_invalidReceiptPctUnderAttack = num_or js_Number (env ''ATTACK_INVALID_RECEIPT_PCT'') 5,
      at_invalidReceiptMinSample = num_or js_Number (env ''ATTACK_INVALID_RECEIPT_MIN_SAMPLE'') 500,
      at_canonicalFlipLimit = num_or js_Number (env ''ATTACK_CANONICAL_FLIP_LIMIT'') 2,
      at_recoveryStableSecs = num_or js_Number (env ''ATTACK_RECOVERY_STABLE_SECS'') 600\<rparr>"

fun policyForMode :: "AttackMode \<Rightarrow> AttackPolicy" where
  "policyForMode NORMAL =
     \<lparr>ap_minRpcQuorum = 1, ap_requireStakeForReceipts = False, ap_maxReceiptsPerWalletPerMin = 120,
      ap_maxWritesPerWalletPerHour = 30, ap_freezeWrites = False, ap_ttlClampS = 0\<rparr>"
| "policyForMode SUSPICIOUS =
     \<lparr>ap_minRpcQuorum = 2, ap_requireStakeForReceipts = False, ap_maxReceiptsPerWalletPerMin = 60,
      ap_maxWritesPerWalletPerHour = 10, ap_freezeWrites = False, ap_ttlClampS = 300\<rparr>"
| "policyForMode UNDER_ATTACK =
     \<lparr>ap_minRpcQuorum = 3, ap_requireStakeForReceipts = True, ap_maxReceiptsPerWalletPerMin = 20,
      ap_maxWritesPerWalletPerHour = 0, ap_freezeWrites = True, ap_ttlClampS = 60\<rparr>"
| "policyForMode ISOLATED =
     \<lparr>ap_minRpcQuorum = 2, ap_requireStakeForReceipts = True, ap_maxReceiptsPerWalletPerMin = 10,
      ap_maxWritesPerWalletPerHour = 0, ap_freezeWrites = True, ap_ttlClampS = 60\<rparr>"
| "policyForMode RECOVERY =
     \<lparr>ap_minRpcQuorum = 2, ap_requireStakeForReceipts = False, ap_maxReceiptsPerWalletPerMin = 60,
      ap_maxWritesPerWalletPerHour = 10, ap_freezeWrites = False, ap_ttlClampS = 300\<rparr>"

definition clampPct :: "jsnum \<Rightarrow> jsnum" where
  "clampPct v = (if \<not> is_finite v then Fin 0 else nmax (Fin 0) (nmin (jint 100) v))"

definition nullish :: "'a option \<Rightarrow> 'a \<Rightarrow> 'a" where
  "nullish x d = (case x of None \<Rightarrow> d | Some v \<Rightarrow> v)"

text \<open>The score and the reasons: each signal over its threshold adds its weight.\<close>

definition attack_score :: "(jsnum \<Rightarrow> string) \<Rightarrow> AttackSignals \<Rightarrow> AttackThresholds \<Rightarrow> int \<times> string list" where
  "attack_score numstr signals th =
     (let rpcFail = clampPct (nullish (as_rpcFailPct signals) (Fin 0));
          a = (if nlt (at_rpcFailPctSuspicious th) rpcFail
               then (30, [''rpc_fail_pct>'' @ numstr (at_rpcFailPctSuspicious th)]) else (0, []));
          invalidPct = clampPct (nullish (as_invalidReceiptPct signals) (Fin 0));
          sample = nullish (as_receiptSampleSize signals) (Fin 0);
          b = (if nle (at_invalidReceiptMinSample th) sample \<and> nlt (at_invalidReceiptPctUnderAttack th) invalidPct
               then (70, [''invalid_receipt_pct>'' @ numstr (at_invalidReceiptPctUnderAttack th) @ ''@'' @ numstr sample])
               else (0, []));
          flips = nullish (as_canonicalFlipCount signals) (Fin 0);
          c = (if nlt (at_canonicalFlipLimit th) flips
               then (40, [''canonical_flips>'' @ numstr (at_canonicalFlipLimit th)]) else (0, []));
          ipfsFail = clampPct (nullish (as_ipfsFailPct signals) (Fin 0));
          d = (if nlt (jint 50) ipfsFail then (10, [''ipfs_fail_pct>50'']) else (0, []));
          gwErr = clampPct (nullish (as_gatewayErrorPct signals) (Fin 0));
          e = (if nlt (jint 20) gwErr then (10, [''gateway_error_pct>20'']) else (0, []))
      in (min 100 (fst a + fst b + fst c + fst d + fst e), snd a @ snd b @ snd c @ snd d @ snd e))"

text \<open>\<open>clock\<close> is \<open>Math.floor(Date.now() / 1000)\<close>. A last stable time of 0 is falsy.\<close>

definition evaluateAttackMode ::
  "(jsnum \<Rightarrow> string) \<Rightarrow> jsnum \<Rightarrow> AttackMode \<Rightarrow> AttackSignals \<Rightarrow> AttackThresholds \<Rightarrow> jsnum option \<Rightarrow> AttackDecision" where
  "evaluateAttackMode numstr clock prev signals th memory =
     (let now = nullish (as_nowUnix signals) clock in
      if as_rpcDisagreement signals = Some True then
        \<lparr>ad_nextMode = ISOLATED, ad_score = 100, ad_reasons = [''rpc_disagreement''], ad_lastStableUnix = None\<rparr>
      else
        let (score, reasons) = attack_score numstr signals th;
            isStable = (score = 0);
            hasLast = (case memory of None \<Rightarrow> False | Some t \<Rightarrow> ntruthy t);
            lastStableUnix = (if isStable then Some now else memory);
            stableFor = (if isStable \<and> hasLast then nsub now (nullish memory (Fin 0)) else Fin 0);
            next0 = (if score \<ge> 60 then UNDER_ATTACK else if score \<ge> 20 then SUSPICIOUS else NORMAL);
            next = (if prev = UNDER_ATTACK \<or> prev = ISOLATED then
                (if isStable then
                   (if \<not> hasLast then RECOVERY
                    else if nle (at_recoveryStableSecs th) stableFor then NORMAL
                    else RECOVERY)
                 else (if prev = ISOLATED then ISOLATED else UNDER_ATTACK))
              else if prev = RECOVERY then
                (if isStable \<and> hasLast \<and> nle (at_recoveryStableSecs th) stableFor then NORMAL
                 else if score \<ge> 60 then UNDER_ATTACK
                 else if score \<ge> 20 then SUSPICIOUS
                 else RECOVERY)
              else next0)
        in \<lparr>ad_nextMode = next, ad_score = score, ad_reasons = reasons, ad_lastStableUnix = lastStableUnix\<rparr>)"

subsection \<open>Reading an account from several endpoints\<close>

text \<open>An endpoint answers with an HTTP error, with a body (slot and base64 data), or the request throws.\<close>

datatype rpc_answer = HttpStatus string | Body jsnum string | Threw string

record Evidence =
  ev_url :: string
  ev_ok :: bool
  ev_slot :: "jsnum option"
  ev_hash :: "string option"
  ev_err :: "string option"

record AccountGroup =
  ag_hash :: string
  ag_urls :: "string list"
  ag_slot :: jsnum
  ag_data :: string

datatype MultiRpcAccountResult =
    RpcOk string string "string list" jsnum
  | RpcFail "Evidence list" bool

text \<open>The map of groups keeps insertion order: a list with one group for each hash.\<close>

fun add_to_group :: "string \<Rightarrow> string \<Rightarrow> jsnum \<Rightarrow> string \<Rightarrow> AccountGroup list \<Rightarrow> AccountGroup list" where
  "add_to_group h url slot dat [] = [\<lparr>ag_hash = h, ag_urls = [url], ag_slot = slot, ag_data = dat\<rparr>]"
| "add_to_group h url slot dat (g # gs) =
     (if ag_hash g = h then g\<lparr>ag_urls := ag_urls g @ [url]\<rparr> # gs else g # add_to_group h url slot dat gs)"

definition rpc_step :: "(string \<Rightarrow> string) \<Rightarrow> string \<times> rpc_answer \<Rightarrow> Evidence list \<times> AccountGroup list \<Rightarrow>
    Evidence list \<times> AccountGroup list" where
  "rpc_step hashHex ans st =
     (case ans of (url, a) \<Rightarrow> case st of (evidence, groups) \<Rightarrow>
        (case a of
           HttpStatus s \<Rightarrow> (evidence @ [\<lparr>ev_url = url, ev_ok = False, ev_slot = None, ev_hash = None,
             ev_err = Some (''http_'' @ s)\<rparr>], groups)
         | Threw m \<Rightarrow> (evidence @ [\<lparr>ev_url = url, ev_ok = False, ev_slot = None, ev_hash = None, ev_err = Some m\<rparr>], groups)
         | Body slot dat \<Rightarrow>
             (let h = hashHex dat in
              (evidence @ [\<lparr>ev_url = url, ev_ok = True, ev_slot = Some slot, ev_hash = Some h, ev_err = None\<rparr>],
               add_to_group h url slot dat groups))))"

fun pick_best :: "AccountGroup option \<Rightarrow> AccountGroup list \<Rightarrow> AccountGroup option" where
  "pick_best best [] = best"
| "pick_best best (g # gs) =
     (case best of
        None \<Rightarrow> pick_best (Some g) gs
      | Some b \<Rightarrow> if length (ag_urls g) > length (ag_urls b) then pick_best (Some g) gs else pick_best best gs)"

definition fetchAccountMultiRpc :: "(string \<Rightarrow> string) \<Rightarrow> int \<Rightarrow> (string \<times> rpc_answer) list \<Rightarrow> MultiRpcAccountResult" where
  "fetchAccountMultiRpc hashHex minAgree answers =
     (let (evidence, groups) = fold (rpc_step hashHex) answers ([], []);
          disagreement = (length groups > 1)
      in case pick_best None groups of
           None \<Rightarrow> RpcFail evidence disagreement
         | Some best \<Rightarrow>
             if int (length (ag_urls best)) < minAgree then RpcFail evidence disagreement
             else RpcOk (ag_data best) (ag_hash best) (ag_urls best) (ag_slot best))"

section \<open>Properties of the mode\<close>

lemma nullish_simps [simp]: "nullish None d = d" "nullish (Some v) d = v"
  by (simp_all add: nullish_def)

lemma clampPct_0 [simp]: "clampPct (Fin 0) = Fin 0"
  by (simp add: clampPct_def)

text \<open>Thresholds that no quiet signal exceeds.\<close>

definition thresholds_ok :: "AttackThresholds \<Rightarrow> bool" where
  "thresholds_ok th \<longleftrightarrow> \<not> nlt (at_rpcFailPctSuspicious th) (Fin 0) \<and>
     \<not> nlt (at_invalidReceiptPctUnderAttack th) (Fin 0) \<and> \<not> nlt (at_canonicalFlipLimit th) (Fin 0)"

definition severe :: "AttackMode \<Rightarrow> bool" where
  "severe m \<longleftrightarrow> m = UNDER_ATTACK \<or> m = ISOLATED"

lemma policy_freezes: "ap_freezeWrites (policyForMode m) = severe m"
  by (cases m) (simp_all add: severe_def)

abbreviation eval where "eval \<equiv> evaluateAttackMode"

lemma eval_disagreement:
  "as_rpcDisagreement s = Some True \<Longrightarrow> ad_nextMode (eval ns c m s th mem) = ISOLATED \<and>
     ad_lastStableUnix (eval ns c m s th mem) = None"
  by (simp add: evaluateAttackMode_def)

lemma eval_no_disagreement:
  assumes "as_rpcDisagreement s \<noteq> Some True" "attack_score ns s th = (sc, rs)"
  shows "ad_score (eval ns c m s th mem) = sc" "ad_reasons (eval ns c m s th mem) = rs"
    "ad_lastStableUnix (eval ns c m s th mem) = (if sc = 0 then Some (nullish (as_nowUnix s) c) else mem)"
  using assms by (simp_all add: evaluateAttackMode_def Let_def)

text \<open>The mode after a sequence of evaluations, each with its clock and signals.\<close>

fun run_modes :: "(jsnum \<Rightarrow> string) \<Rightarrow> AttackThresholds \<Rightarrow> AttackMode \<times> jsnum option \<Rightarrow>
    (jsnum \<times> AttackSignals) list \<Rightarrow> AttackMode \<times> jsnum option" where
  "run_modes ns th (m, mem) [] = (m, mem)"
| "run_modes ns th (m, mem) ((c, s) # rest) =
     (let d = evaluateAttackMode ns c m s th mem in run_modes ns th (ad_nextMode d, ad_lastStableUnix d) rest)"

definition stable_signals :: "(jsnum \<Rightarrow> string) \<Rightarrow> AttackThresholds \<Rightarrow> AttackSignals \<Rightarrow> bool" where
  "stable_signals ns th s \<longleftrightarrow> as_rpcDisagreement s \<noteq> Some True \<and> fst (attack_score ns s th) = 0"

lemma eval_severe_unstable:
  "severe m \<Longrightarrow> \<not> stable_signals ns th s \<Longrightarrow> severe (ad_nextMode (eval ns c m s th mem))"
  by (auto simp: evaluateAttackMode_def stable_signals_def severe_def Let_def split: prod.splits)

lemma run_severe_unstable:
  "severe m \<Longrightarrow> list_all (\<lambda>(c, s). \<not> stable_signals ns th s) evs \<Longrightarrow> severe (fst (run_modes ns th (m, mem) evs))"
  by (induction ns th "(m, mem)" evs arbitrary: m mem rule: run_modes.induct)
    (auto simp: Let_def eval_severe_unstable)

text \<open>Each stable evaluation restarts the clock of the next one.\<close>

fun gaps_below :: "rat \<Rightarrow> rat \<Rightarrow> rat list \<Rightarrow> bool" where
  "gaps_below limit t0 [] = True"
| "gaps_below limit t0 (t # ts) = (t - t0 < limit \<and> t \<noteq> 0 \<and> gaps_below limit t ts)"

lemma eval_stable_gap:
  assumes "stable_signals ns th s" "as_nowUnix s = Some (Fin t)" "at_recoveryStableSecs th = Fin limit"
    "severe m \<or> m = RECOVERY" "mem = None \<or> (\<exists>t0. mem = Some (Fin t0) \<and> t - t0 < limit)"
  shows "ad_nextMode (eval ns c m s th mem) = RECOVERY"
    "ad_lastStableUnix (eval ns c m s th mem) = Some (Fin t)"
  using assms by (auto simp: evaluateAttackMode_def stable_signals_def severe_def Let_def nullish_def
      split: prod.splits)

lemma run_recovery_stuck:
  assumes "at_recoveryStableSecs th = Fin limit"
  shows "list_all (\<lambda>(c, s). stable_signals ns th s) evs \<Longrightarrow>
     map (\<lambda>(c, s). as_nowUnix s) evs = map (\<lambda>t. Some (Fin t)) ts \<Longrightarrow> gaps_below limit t0 ts \<Longrightarrow>
     fst (run_modes ns th (RECOVERY, Some (Fin t0)) evs) = RECOVERY"
proof (induction evs arbitrary: t0 ts)
  case (Cons ev evs)
  obtain c s where ev: "ev = (c, s)" by fastforce
  obtain t ts' where ts: "ts = t # ts'" and t: "as_nowUnix s = Some (Fin t)" and "t - t0 < limit"
    using Cons.prems ev by (cases ts) auto
  with Cons.prems ev assms have "ad_nextMode (eval ns c RECOVERY s th (Some (Fin t0))) = RECOVERY"
    "ad_lastStableUnix (eval ns c RECOVERY s th (Some (Fin t0))) = Some (Fin t)"
    by (auto intro!: eval_stable_gap)
  with Cons ev ts show ?case by (auto simp: Let_def)
qed simp

section \<open>Properties of the account read\<close>

definition answer_hash :: "(string \<Rightarrow> string) \<Rightarrow> rpc_answer \<Rightarrow> string option" where
  "answer_hash hashHex a = (case a of Body _ dat \<Rightarrow> Some (hashHex dat) | _ \<Rightarrow> None)"

definition urls_with :: "(string \<Rightarrow> string) \<Rightarrow> (string \<times> rpc_answer) list \<Rightarrow> string \<Rightarrow> string list" where
  "urls_with hashHex answers h = map fst (filter (\<lambda>(u, a). answer_hash hashHex a = Some h) answers)"

definition groups_ok :: "(string \<Rightarrow> string) \<Rightarrow> (string \<times> rpc_answer) list \<Rightarrow> AccountGroup list \<Rightarrow> bool" where
  "groups_ok hashHex answers gs \<longleftrightarrow> distinct (map ag_hash gs) \<and>
     (\<forall>g \<in> set gs. ag_urls g = urls_with hashHex answers (ag_hash g) \<and> ag_urls g \<noteq> [] \<and>
        hashHex (ag_data g) = ag_hash g) \<and>
     (\<forall>h. urls_with hashHex answers h \<noteq> [] \<longrightarrow> h \<in> ag_hash ` set gs)"

lemma urls_with_snoc:
  "urls_with H (as @ [(u, a)]) h = urls_with H as h @ (if answer_hash H a = Some h then [u] else [])"
  by (simp add: urls_with_def)

lemma add_to_group_hashes:
  "ag_hash ` set (add_to_group h u s d gs) = insert h (ag_hash ` set gs)"
  by (induction gs) auto

lemma add_to_group_distinct:
  "distinct (map ag_hash gs) \<Longrightarrow> distinct (map ag_hash (add_to_group h u s d gs))"
proof (induction gs)
  case (Cons g gs)
  have "ag_hash g \<notin> ag_hash ` set gs" using Cons.prems by simp
  with Cons show ?case by (auto simp: add_to_group_hashes simp del: image_set [symmetric]) (auto simp flip: image_set simp: add_to_group_hashes)
qed simp

lemma add_to_group_elem:
  "distinct (map ag_hash gs) \<Longrightarrow> g \<in> set (add_to_group h u s d gs) \<Longrightarrow>
     (g \<in> set gs \<and> ag_hash g \<noteq> h) \<or>
     (\<exists>g0 \<in> set gs. ag_hash g0 = h \<and> g = g0\<lparr>ag_urls := ag_urls g0 @ [u]\<rparr>) \<or>
     (h \<notin> ag_hash ` set gs \<and> g = \<lparr>ag_hash = h, ag_urls = [u], ag_slot = s, ag_data = d\<rparr>)"
  by (induction gs) (auto split: if_splits, metis imageI)

lemma groups_ok_step:
  assumes "groups_ok H as gs"
  shows "groups_ok H (as @ [(u, a)]) (snd (rpc_step H (u, a) (ev, gs)))"
proof (cases a)
  case (Body slot dat)
  let ?gs = "add_to_group (H dat) u slot dat gs"
  have d: "distinct (map ag_hash gs)" using assms by (simp add: groups_ok_def)
  have "\<forall>g \<in> set ?gs. ag_urls g = urls_with H (as @ [(u, a)]) (ag_hash g) \<and> ag_urls g \<noteq> [] \<and> H (ag_data g) = ag_hash g"
  proof
    fix g assume "g \<in> set ?gs"
    from add_to_group_elem [OF d this] assms Body
    show "ag_urls g = urls_with H (as @ [(u, a)]) (ag_hash g) \<and> ag_urls g \<noteq> [] \<and> H (ag_data g) = ag_hash g"
      by (auto simp: groups_ok_def urls_with_snoc answer_hash_def)
  qed
  moreover have "\<forall>h. urls_with H (as @ [(u, a)]) h \<noteq> [] \<longrightarrow> h \<in> ag_hash ` set ?gs"
    using assms Body by (auto simp: groups_ok_def urls_with_snoc answer_hash_def add_to_group_hashes split: if_splits)
  moreover have "snd (rpc_step H (u, a) (ev, gs)) = ?gs" using Body by (simp add: rpc_step_def Let_def)
  ultimately show ?thesis
    unfolding groups_ok_def using add_to_group_distinct [OF d] by metis
qed (use assms in \<open>auto simp: groups_ok_def rpc_step_def urls_with_snoc answer_hash_def\<close>)

lemma fold_groups_ok: "groups_ok H as (snd (fold (rpc_step H) as ([], [])))"
proof (induction as rule: rev_induct)
  case Nil
  then show ?case by (simp add: groups_ok_def urls_with_def)
next
  case (snoc x xs)
  obtain u a where x: "x = (u, a)" by fastforce
  obtain ev gs where f: "fold (rpc_step H) xs ([], []) = (ev, gs)" by fastforce
  show ?case using snoc groups_ok_step [of H xs gs u a ev] by (simp add: x f)
qed

lemma pick_best_spec:
  "pick_best b gs = Some g \<Longrightarrow> (b = Some g \<or> g \<in> set gs) \<and>
     (\<forall>h \<in> set gs. length (ag_urls h) \<le> length (ag_urls g)) \<and> (\<forall>h. b = Some h \<longrightarrow> length (ag_urls h) \<le> length (ag_urls g))"
proof (induction b gs rule: pick_best.induct)
  case (2 best g1 gs)
  show ?case
  proof (cases best)
    case None
    then show ?thesis using 2 by auto
  next
    case (Some b)
    then show ?thesis using 2 by (cases "length (ag_urls g1) > length (ag_urls b)") auto
  qed
qed simp

section \<open>Claims\<close>

text \<open>Leaving an attack mode needs evidence of stability. As long as no evaluation is free of every
  signal, a machine in mode \<open>UNDER_ATTACK\<close> or \<open>ISOLATED\<close> stays in one of the two, so writes stay
  frozen, over any sequence of evaluations.\<close>

theorem attack_mode_holds:
  assumes "ap_freezeWrites (policyForMode m)" "list_all (\<lambda>(c, s). \<not> stable_signals ns th s) evs"
  shows "ap_freezeWrites (policyForMode (fst (run_modes ns th (m, mem) evs)))"
  using run_severe_unstable [of m] assms by (simp add: policy_freezes)

definition example_thresholds :: AttackThresholds where
  "example_thresholds = \<lparr>at_rpcFailPctSuspicious = jint 30, at_invalidReceiptPctUnderAttack = jint 5,
     at_invalidReceiptMinSample = jint 500, at_canonicalFlipLimit = jint 2, at_recoveryStableSecs = jint 600\<rparr>"

definition quiet :: "jsnum option \<Rightarrow> AttackSignals" where
  "quiet t = \<lparr>as_rpcFailPct = None, as_rpcDisagreement = None, as_invalidReceiptPct = None,
     as_receiptSampleSize = None, as_canonicalFlipCount = None, as_ipfsFailPct = None,
     as_gatewayErrorPct = None, as_nowUnix = t\<rparr>"

theorem attack_mode_holds_witness:
  "ap_freezeWrites (policyForMode (fst (run_modes (\<lambda>_. []) example_thresholds (ISOLATED, None)
     [(Fin 0, (quiet None)\<lparr>as_ipfsFailPct := Some (jint 80)\<rparr>)])))"
  by (rule attack_mode_holds)
    (simp_all add: stable_signals_def quiet_def attack_score_def example_thresholds_def nullish_def clampPct_def Let_def)

text \<open>Recovery depends on the gap between two evaluations and not on how long signals have been
  quiet. A machine under attack that is evaluated with quiet signals, however often and however
  long, stays in \<open>RECOVERY\<close> as long as consecutive evaluations are closer than the stability
  threshold.\<close>

theorem attack_recovery_needs_gap:
  assumes "at_recoveryStableSecs th = Fin limit" "ap_freezeWrites (policyForMode m)"
    "list_all (\<lambda>(c, s). stable_signals ns th s) ((c0, s0) # evs)"
    "map (\<lambda>(c, s). as_nowUnix s) ((c0, s0) # evs) = map (\<lambda>t. Some (Fin t)) (t0 # ts)" "gaps_below limit t0 ts"
  shows "fst (run_modes ns th (m, None) ((c0, s0) # evs)) = RECOVERY"
proof -
  have "severe m" using assms(2) by (simp add: policy_freezes)
  then have "ad_nextMode (eval ns c0 m s0 th None) = RECOVERY"
    "ad_lastStableUnix (eval ns c0 m s0 th None) = Some (Fin t0)"
    using assms by (auto intro!: eval_stable_gap)
  then show ?thesis using run_recovery_stuck [OF assms(1)] assms(3-5) by (simp add: Let_def)
qed

theorem attack_recovery_needs_gap_witness:
  "fst (run_modes (\<lambda>_. []) example_thresholds (UNDER_ATTACK, None)
     (map (\<lambda>t. (Fin 0, quiet (Some (Fin t)))) [1000, 1500, 2000, 2500])) = RECOVERY"
  using attack_recovery_needs_gap [of example_thresholds 600 UNDER_ATTACK "\<lambda>_. []" "Fin 0" "quiet (Some (Fin 1000))"
      "map (\<lambda>t. (Fin 0, quiet (Some (Fin t)))) [1500, 2000, 2500]" 1000 "[1500, 2000, 2500]"]
  by (simp add: stable_signals_def quiet_def attack_score_def example_thresholds_def nullish_def clampPct_def Let_def)

text \<open>When the multi-endpoint read succeeds, the urls it reports are exactly those that answered with
  data of the reported hash, there are at least \<open>minAgree\<close> of them, the data has that hash, and no
  other hash was answered by more endpoints.\<close>

theorem multiRpc_agreement:
  assumes "fetchAccountMultiRpc hashHex minAgree answers = RpcOk dat h urls slot"
  shows "hashHex dat = h \<and> urls = urls_with hashHex answers h \<and> minAgree \<le> int (length urls) \<and>
    (\<forall>k. length (urls_with hashHex answers k) \<le> length urls)"
proof -
  obtain ev gs where f: "fold (rpc_step hashHex) answers ([], []) = (ev, gs)" by fastforce
  have ok: "groups_ok hashHex answers gs" using fold_groups_ok [of hashHex answers] by (simp add: f)
  obtain g where b: "pick_best None gs = Some g" and g: "dat = ag_data g" "h = ag_hash g" "urls = ag_urls g"
    and n: "minAgree \<le> int (length (ag_urls g))"
    using assms by (auto simp: fetchAccountMultiRpc_def f Let_def split: option.splits if_splits)
  note B = pick_best_spec [OF b]
  then have gin: "g \<in> set gs" by simp
  have "length (urls_with hashHex answers k) \<le> length urls" for k
  proof (cases "urls_with hashHex answers k = []")
    case False
    then obtain g' where "g' \<in> set gs" "ag_hash g' = k" using ok by (auto simp: groups_ok_def)
    with B ok show ?thesis by (auto simp: groups_ok_def g)
  qed simp
  with gin ok n show ?thesis by (auto simp: groups_ok_def g)
qed

theorem multiRpc_agreement_witness:
  "urls_with (\<lambda>d. d) [(''a'', Body (Fin 1) ''x''), (''b'', HttpStatus ''500''), (''c'', Body (Fin 1) ''x'')] ''x'' = [''a'', ''c'']"
  using multiRpc_agreement [of "\<lambda>d. d" 2 "[(''a'', Body (Fin 1) ''x''), (''b'', HttpStatus ''500''), (''c'', Body (Fin 1) ''x'')]"
      "''x''" "''x''" "[''a'', ''c'']" "Fin 1"]
  by (simp add: fetchAccountMultiRpc_def rpc_step_def Let_def)

end
