(* ===== verification/Payments.thy ===== *)
theory Payments
  imports Prelude
begin

section \<open>The mock payments provider (packages/payments/src/index.ts)\<close>

text \<open>
  Quotes and checkouts live in two maps. Dates are kept as text; formatting and parsing them are the
  arguments \<open>toISO\<close> and \<open>parseDate\<close> (\<open>None\<close> for an invalid date). Expiry is judged by the wall
  clock \<open>Date.now()\<close>, the argument \<open>wall\<close>, while quotes are stamped with the injected \<open>now()\<close>.
  \<open>randomUUID\<close> is the argument \<open>uuid\<close>.
\<close>

record date_env =
  toISO :: "jsnum \<Rightarrow> string"
  parseDate :: "string \<Rightarrow> rat option"

record Money =
  amountCents :: jsnum
  currency :: string

datatype PaymentRail = Card | Ach | Usdc | Sol | Eth | Btc | OtherRail

record QuoteRequest =
  qr_sku :: string
  qr_money :: Money
  qr_rails :: "PaymentRail list"
  qr_customerHint :: "string option"

record Quote =
  q_id :: string
  q_money :: Money
  q_expiresAt :: string
  q_rails :: "PaymentRail list"
  q_payWith :: "PaymentRail \<Rightarrow> string"

record CheckoutRequest =
  cr_quoteId :: string
  cr_rail :: PaymentRail
  cr_returnUrl :: string

record CheckoutSession =
  co_id :: string
  co_rail :: PaymentRail
  co_url :: string
  co_expiresAt :: string

datatype PaymentStatus = Pending | Paid | Expired | Failed | Refunded

record QuoteRecord =
  qrec_quote :: Quote
  qrec_status :: PaymentStatus

record CheckoutRecord =
  crec_checkout :: CheckoutSession
  crec_quoteId :: string
  crec_status :: PaymentStatus

record PayState =
  ps_quotes :: "string \<rightharpoonup> QuoteRecord"
  ps_checkouts :: "string \<rightharpoonup> CheckoutRecord"

definition MOCK_QUOTE_TTL_MS :: rat where
  "MOCK_QUOTE_TTL_MS = 120 * 1000"

fun DISPLAY_LABELS :: "PaymentRail \<Rightarrow> string" where
  "DISPLAY_LABELS Card = ''Card''"
| "DISPLAY_LABELS Ach = ''ACH''"
| "DISPLAY_LABELS Usdc = ''USDC''"
| "DISPLAY_LABELS Sol = ''SOL''"
| "DISPLAY_LABELS Eth = ''ETH''"
| "DISPLAY_LABELS Btc = ''BTC''"
| "DISPLAY_LABELS OtherRail = ''Other''"

definition makeId :: "string \<Rightarrow> string \<Rightarrow> string" where
  "makeId prefix uuid = prefix @ ''_'' @ uuid"

definition paymentLabels :: "PaymentRail list \<Rightarrow> PaymentRail \<Rightarrow> string" where
  "paymentLabels rails = fold (\<lambda>rail output. output(rail := DISPLAY_LABELS rail)) rails DISPLAY_LABELS"

definition ensureUsd :: "Money \<Rightarrow> unit res" where
  "ensureUsd money =
     (if currency money \<noteq> ''USD'' then throw ''unsupported_currency''
      else if \<not> is_finite (amountCents money) \<or> nle (amountCents money) (Fin 0) then throw ''invalid_amount''
      else Inr ())"

definition isExpired :: "date_env \<Rightarrow> rat \<Rightarrow> string \<Rightarrow> bool" where
  "isExpired D wall expiresAt = (case parseDate D expiresAt of None \<Rightarrow> True | Some ts \<Rightarrow> ts \<le> wall)"

definition createQuote :: "date_env \<Rightarrow> rat \<Rightarrow> string \<Rightarrow> QuoteRequest \<Rightarrow> PayState \<Rightarrow> Quote res \<times> PayState" where
  "createQuote D now uuid req st =
     (if qr_sku req = [] then (throw ''invalid_sku'', st)
      else case ensureUsd (qr_money req) of
        Inl e \<Rightarrow> (Inl e, st)
      | Inr _ \<Rightarrow>
          if length (qr_rails req) = 0 then (throw ''invalid_rails'', st)
          else let i = makeId ''quote'' uuid;
                   expiresAt = toISO D (Fin (now + MOCK_QUOTE_TTL_MS));
                   quote = \<lparr>q_id = i, q_money = qr_money req, q_expiresAt = expiresAt,
                            q_rails = qr_rails req, q_payWith = paymentLabels (qr_rails req)\<rparr>
               in (Inr quote, st\<lparr>ps_quotes := (ps_quotes st)(i \<mapsto> \<lparr>qrec_quote = quote, qrec_status = Pending\<rparr>)\<rparr>))"

definition createCheckout :: "date_env \<Rightarrow> rat \<Rightarrow> string \<Rightarrow> CheckoutRequest \<Rightarrow> PayState \<Rightarrow> CheckoutSession res \<times> PayState" where
  "createCheckout D wall uuid req st =
     (case ps_quotes st (cr_quoteId req) of
        None \<Rightarrow> (throw ''quote_not_found'', st)
      | Some qr \<Rightarrow>
          if isExpired D wall (q_expiresAt (qrec_quote qr)) then
            (throw ''quote_expired'',
             st\<lparr>ps_quotes := (ps_quotes st)(cr_quoteId req \<mapsto> qr\<lparr>qrec_status := Expired\<rparr>)\<rparr>)
          else if cr_rail req \<notin> set (q_rails (qrec_quote qr)) then (throw ''rail_not_supported'', st)
          else let i = makeId ''checkout'' uuid;
                   checkout = \<lparr>co_id = i, co_rail = cr_rail req, co_url = ''/mock-pay/checkout/'' @ i,
                               co_expiresAt = q_expiresAt (qrec_quote qr)\<rparr>
               in (Inr checkout, st\<lparr>ps_checkouts := (ps_checkouts st)(i \<mapsto>
                    \<lparr>crec_checkout = checkout, crec_quoteId = cr_quoteId req, crec_status = Pending\<rparr>)\<rparr>))"

definition pay_getStatus :: "date_env \<Rightarrow> rat \<Rightarrow> string \<Rightarrow> PayState \<Rightarrow> PaymentStatus \<times> PayState" where
  "pay_getStatus D wall i st =
     (case ps_checkouts st i of
        None \<Rightarrow> (Failed, st)
      | Some cr \<Rightarrow>
          if crec_status cr = Pending \<and> isExpired D wall (co_expiresAt (crec_checkout cr)) then
            (Expired, st\<lparr>ps_checkouts := (ps_checkouts st)(i \<mapsto> cr\<lparr>crec_status := Expired\<rparr>)\<rparr>)
          else (crec_status cr, st))"

definition verifyWebhook :: "'event \<Rightarrow> bool" where
  "verifyWebhook event = True"

definition markPaid :: "date_env \<Rightarrow> rat \<Rightarrow> string \<Rightarrow> PayState \<Rightarrow> bool \<times> PayState" where
  "markPaid D wall i st =
     (case ps_checkouts st i of
        None \<Rightarrow> (False, st)
      | Some cr \<Rightarrow>
          if isExpired D wall (co_expiresAt (crec_checkout cr)) then
            (False, st\<lparr>ps_checkouts := (ps_checkouts st)(i \<mapsto> cr\<lparr>crec_status := Expired\<rparr>)\<rparr>)
          else (True, st\<lparr>ps_checkouts := (ps_checkouts st)(i \<mapsto> cr\<lparr>crec_status := Paid\<rparr>)\<rparr>))"

section \<open>Properties of the provider\<close>

text \<open>One call of the provider; the wall clock does not go back, and a fresh UUID is not in use.\<close>

inductive pay_step :: "date_env \<Rightarrow> rat \<times> PayState \<Rightarrow> rat \<times> PayState \<Rightarrow> bool" for D where
  quote: "t \<le> t' \<Longrightarrow> pay_step D (t, st) (t', snd (createQuote D now uuid req st))"
| checkout: "t \<le> t' \<Longrightarrow> ps_checkouts st (makeId ''checkout'' uuid) = None \<Longrightarrow>
    pay_step D (t, st) (t', snd (createCheckout D t' uuid creq st))"
| status: "t \<le> t' \<Longrightarrow> pay_step D (t, st) (t', snd (pay_getStatus D t' i st))"
| paid: "t \<le> t' \<Longrightarrow> pay_step D (t, st) (t', snd (markPaid D t' i st))"

inductive_cases pay_stepE: "pay_step D (t, st) (t', st')"

definition no_payments :: PayState where
  "no_payments = \<lparr>ps_quotes = (\<lambda>_. None), ps_checkouts = (\<lambda>_. None)\<rparr>"

lemma isExpired_mono: "isExpired D t x \<Longrightarrow> t \<le> t' \<Longrightarrow> isExpired D t' x"
  by (auto simp: isExpired_def split: option.splits)

lemma createQuote_checkouts [simp]: "ps_checkouts (snd (createQuote D n u r st)) = ps_checkouts st"
  by (auto simp: createQuote_def Let_def split: sum.splits)

text \<open>How one step changes a checkout that exists: its session stays, its status moves.\<close>

definition status_move :: "date_env \<Rightarrow> rat \<Rightarrow> CheckoutRecord \<Rightarrow> CheckoutRecord \<Rightarrow> bool" where
  "status_move D t c c' \<longleftrightarrow> crec_checkout c' = crec_checkout c \<and>
     (c' = c \<or> crec_status c' = Expired \<and> isExpired D t (co_expiresAt (crec_checkout c))
      \<or> crec_status c' = Paid \<and> \<not> isExpired D t (co_expiresAt (crec_checkout c)))"

lemma pay_step_move:
  assumes "pay_step D (t, st) (t', st')" "ps_checkouts st i = Some c"
  shows "t \<le> t' \<and> (\<exists>c'. ps_checkouts st' i = Some c' \<and> status_move D t' c c')"
  using assms
  by (elim pay_stepE) (auto simp: createCheckout_def pay_getStatus_def markPaid_def status_move_def Let_def
      split: option.splits)

lemma pay_step_new:
  assumes "pay_step D (t, st) (t', st')" "ps_checkouts st i = None" "ps_checkouts st' i = Some c"
  shows "crec_status c = Pending"
  using assms
  by (elim pay_stepE) (auto simp: createCheckout_def pay_getStatus_def markPaid_def Let_def
      split: option.splits if_splits)

definition pay_inv :: "date_env \<Rightarrow> rat \<times> PayState \<Rightarrow> bool" where
  "pay_inv D s \<longleftrightarrow> (\<forall>i c. ps_checkouts (snd s) i = Some c \<and> crec_status c = Expired \<longrightarrow>
     isExpired D (fst s) (co_expiresAt (crec_checkout c)))"

lemma pay_step_inv:
  assumes "pay_step D s s'" "pay_inv D s"
  shows "pay_inv D s'"
proof -
  obtain t st t' st' where s: "s = (t, st)" "s' = (t', st')" by fastforce
  have "isExpired D t' (co_expiresAt (crec_checkout c))"
    if c: "ps_checkouts st' i = Some c" "crec_status c = Expired" for i c
  proof (cases "ps_checkouts st i")
    case None
    then show ?thesis using pay_step_new assms(1) c s by fastforce
  next
    case (Some c0)
    with pay_step_move assms(1) s have "t \<le> t'" "status_move D t' c0 c" using c by fastforce+
    with Some c assms(2) s show ?thesis
      by (auto simp: status_move_def pay_inv_def intro: isExpired_mono)
  qed
  then show ?thesis unfolding pay_inv_def s by auto
qed

lemma pay_reachable_inv: "(pay_step D)\<^sup>*\<^sup>* s s' \<Longrightarrow> pay_inv D s \<Longrightarrow> pay_inv D s'"
  by (induction rule: rtranclp_induct) (auto intro: pay_step_inv)

lemma expired_stays:
  assumes "pay_step D s s'" "pay_inv D s" "ps_checkouts (snd s) i = Some c" "crec_status c = Expired"
  shows "\<exists>c'. ps_checkouts (snd s') i = Some c' \<and> crec_status c' = Expired"
proof -
  obtain t st t' st' where s: "s = (t, st)" "s' = (t', st')" by fastforce
  have "isExpired D t (co_expiresAt (crec_checkout c))" using assms s by (auto simp: pay_inv_def)
  then show ?thesis using pay_step_move [of D t st t' st' i c] assms s
    by (auto simp: status_move_def dest: isExpired_mono)
qed

section \<open>Claims\<close>

text \<open>In every run of the provider from its empty state, under a clock that does not go back, a
  checkout once seen expired stays expired: no later call marks it paid.\<close>

theorem payments_expired_final:
  assumes "(pay_step D)\<^sup>*\<^sup>* (t0, no_payments) s" "(pay_step D)\<^sup>*\<^sup>* s s'"
    "ps_checkouts (snd s) i = Some c" "crec_status c = Expired"
  shows "\<exists>c'. ps_checkouts (snd s') i = Some c' \<and> crec_status c' = Expired"
proof -
  have "pay_inv D s" using assms(1) pay_reachable_inv by (fastforce simp: pay_inv_def no_payments_def)
  from assms(2) this assms(3,4)
  have "pay_inv D s' \<and> (\<exists>c'. ps_checkouts (snd s') i = Some c' \<and> crec_status c' = Expired)"
  proof (induction rule: rtranclp_induct)
    case (step y z)
    then show ?case using expired_stays pay_step_inv by blast
  qed auto
  then show ?thesis by blast
qed

definition example_dates :: date_env where
  "example_dates = \<lparr>toISO = (\<lambda>n. case n of Fin q \<Rightarrow> if q \<le> 200000 then ''early'' else ''late'' | _ \<Rightarrow> ''''),
     parseDate = (\<lambda>s. if s = ''early'' then Some 120000 else Some 400000)\<rparr>"

definition example_request :: QuoteRequest where
  "example_request = \<lparr>qr_sku = ''renewal'', qr_money = \<lparr>amountCents = jint 500, currency = ''USD''\<rparr>,
     qr_rails = [Card, Usdc], qr_customerHint = None\<rparr>"

definition example_checkout :: CheckoutRequest where
  "example_checkout = \<lparr>cr_quoteId = ''quote_1'', cr_rail = Card, cr_returnUrl = ''/''\<rparr>"

definition quoted :: PayState where
  "quoted = snd (createQuote example_dates 0 ''1'' example_request no_payments)"

definition checked_out :: PayState where
  "checked_out = snd (createCheckout example_dates 10 ''1'' example_checkout quoted)"

lemma checked_out_checkout:
  "ps_checkouts checked_out ''checkout_1'' = Some \<lparr>crec_checkout = \<lparr>co_id = ''checkout_1'', co_rail = Card,
     co_url = ''/mock-pay/checkout/checkout_1'', co_expiresAt = ''early''\<rparr>,
     crec_quoteId = ''quote_1'', crec_status = Pending\<rparr>"
  by (simp add: checked_out_def createCheckout_def quoted_def createQuote_def example_request_def
      example_checkout_def example_dates_def no_payments_def ensureUsd_def makeId_def isExpired_def
      MOCK_QUOTE_TTL_MS_def Let_def)

lemma checked_out_steps: "(pay_step example_dates)\<^sup>*\<^sup>* (0, no_payments) (10, checked_out)"
proof -
  have "pay_step example_dates (0, no_payments) (5, quoted)"
    unfolding quoted_def by (rule quote) simp
  moreover have "pay_step example_dates (5, quoted) (10, checked_out)"
    unfolding checked_out_def by (rule checkout) (simp_all add: quoted_def no_payments_def)
  ultimately show ?thesis by (meson converse_rtranclp_into_rtranclp rtranclp.rtrancl_refl)
qed

theorem payments_expired_final_witness:
  "\<exists>c'. ps_checkouts (snd (markPaid example_dates 120002 ''checkout_1''
       (snd (pay_getStatus example_dates 120001 ''checkout_1'' checked_out)))) ''checkout_1'' = Some c' \<and>
     crec_status c' = Expired"
proof -
  let ?st = "snd (pay_getStatus example_dates 120001 ''checkout_1'' checked_out)"
  have a: "pay_step example_dates (10, checked_out) (120001, ?st)" by (rule status) simp
  have b: "pay_step example_dates (120001, ?st) (120002, snd (markPaid example_dates 120002 ''checkout_1'' ?st))"
    by (rule paid) simp
  obtain c where c: "ps_checkouts (snd (120001 :: rat, ?st)) ''checkout_1'' = Some c" "crec_status c = Expired"
    by (auto simp: pay_getStatus_def checked_out_checkout isExpired_def example_dates_def)
  have "(pay_step example_dates)\<^sup>*\<^sup>* (0, no_payments) (120001, ?st)"
    using checked_out_steps a by (rule rtranclp.rtrancl_into_rtrancl)
  moreover have "(pay_step example_dates)\<^sup>*\<^sup>* (120001, ?st)
      (120002, snd (markPaid example_dates 120002 ''checkout_1'' ?st))"
    using b by (rule r_into_rtranclp)
  ultimately show ?thesis using payments_expired_final c by fastforce
qed

text \<open>Being paid is not final. A second \<open>markPaid\<close> on a paid checkout after its expiry turns the
  status to expired and reports failure; reading the status does not.\<close>

theorem payments_paid_reverts:
  assumes "ps_checkouts st i = Some c" "crec_status c = Paid" "isExpired D wall (co_expiresAt (crec_checkout c))"
  shows "pay_getStatus D wall i st = (Paid, st) \<and> fst (markPaid D wall i st) = False \<and>
    fst (pay_getStatus D wall i (snd (markPaid D wall i st))) = Expired"
  using assms by (simp add: pay_getStatus_def markPaid_def)

theorem payments_paid_reverts_witness:
  "fst (pay_getStatus example_dates 130000 ''checkout_1''
     (snd (markPaid example_dates 130000 ''checkout_1'' (snd (markPaid example_dates 100 ''checkout_1'' checked_out))))) = Expired"
proof -
  have "\<exists>c. ps_checkouts (snd (markPaid example_dates 100 ''checkout_1'' checked_out)) ''checkout_1'' = Some c \<and>
     crec_status c = Paid \<and> isExpired example_dates 130000 (co_expiresAt (crec_checkout c))"
    by (simp add: markPaid_def checked_out_checkout isExpired_def example_dates_def)
  then show ?thesis using payments_paid_reverts by blast
qed

end
