(* ===== verification/MinerWitness.thy ===== *)
theory MinerWitness
  imports AttackMode
begin

section \<open>The miner witness (services/miner-witness/src/index.ts)\<close>

text \<open>
  A service that counts receipts submitted by miners, feeds the share of invalid ones to the attack
  mode and admits receipts under the policy of the current mode. The module variables are one
  record; \<open>now\<close> is the request time in seconds. An element of the request that is no object with a
  string wallet is \<open>None\<close>.
\<close>

record ReceiptIn =
  ri_wallet :: string
  ri_valid :: bool
  ri_hasStake :: bool

record WalletWindow =
  ww_count :: nat
  ww_windowStartUnix :: int

record WitnessState =
  mw_mode :: AttackMode
  mw_lastStableUnix :: "jsnum option"
  mw_score :: int
  mw_reasons :: "string list"
  mw_total :: nat
  mw_invalid :: nat
  mw_lastResetUnix :: int
  mw_perWallet :: "string \<rightharpoonup> WalletWindow"

record WitnessConfig =
  mc_enabled :: bool
  mc_window_secs :: jsnum
  mc_thresholds :: AttackThresholds
  mc_numstr :: "jsnum \<Rightarrow> string"

definition maybeReset :: "WitnessConfig \<Rightarrow> int \<Rightarrow> WitnessState \<Rightarrow> WitnessState" where
  "maybeReset cfg now st =
     (if nle (mc_window_secs cfg) (jint (now - mw_lastResetUnix st))
      then st\<lparr>mw_total := 0, mw_invalid := 0, mw_lastResetUnix := now, mw_perWallet := (\<lambda>_. None)\<rparr>
      else st)"

definition invalid_pct :: "WitnessState \<Rightarrow> rat" where
  "invalid_pct st = (if mw_total st \<noteq> 0 then of_nat (mw_invalid st * 100) / of_nat (mw_total st) else 0)"

definition witness_signals :: "int \<Rightarrow> WitnessState \<Rightarrow> AttackSignals" where
  "witness_signals now st =
     \<lparr>as_rpcFailPct = None, as_rpcDisagreement = None, as_invalidReceiptPct = Some (Fin (invalid_pct st)),
      as_receiptSampleSize = Some (jint (int (mw_total st))), as_canonicalFlipCount = None,
      as_ipfsFailPct = None, as_gatewayErrorPct = None, as_nowUnix = Some (jint now)\<rparr>"

definition mw_updateMode :: "WitnessConfig \<Rightarrow> int \<Rightarrow> WitnessState \<Rightarrow> WitnessState" where
  "mw_updateMode cfg now st =
     (if \<not> mc_enabled cfg then st\<lparr>mw_mode := NORMAL, mw_score := 0, mw_reasons := [''disabled'']\<rparr>
      else let d = evaluateAttackMode (mc_numstr cfg) (jint now) (mw_mode st) (witness_signals now st)
             (mc_thresholds cfg) (mw_lastStableUnix st)
        in st\<lparr>mw_mode := ad_nextMode d, mw_lastStableUnix := ad_lastStableUnix d,
              mw_score := ad_score d, mw_reasons := ad_reasons d\<rparr>)"

text \<open>One receipt: counted, then rejected or accepted; \<open>policy\<close> is that of the start of the request.\<close>

definition submit_one :: "AttackPolicy \<Rightarrow> int \<Rightarrow> ReceiptIn option \<Rightarrow> WitnessState \<Rightarrow> bool \<times> WitnessState" where
  "submit_one policy now r st =
     (let st1 = st\<lparr>mw_total := mw_total st + 1\<rparr> in
      case r of
        None \<Rightarrow> (False, st1\<lparr>mw_invalid := mw_invalid st1 + 1\<rparr>)
      | Some rc \<Rightarrow>
          (let st2 = (if \<not> ri_valid rc then st1\<lparr>mw_invalid := mw_invalid st1 + 1\<rparr> else st1) in
           if ap_requireStakeForReceipts policy \<and> \<not> ri_hasStake rc then (False, st2)
           else let w = ri_wallet rc;
                    rec0 = (case mw_perWallet st2 w of None \<Rightarrow> \<lparr>ww_count = 0, ww_windowStartUnix = now\<rparr> | Some x \<Rightarrow> x);
                    rec1 = (if now - ww_windowStartUnix rec0 \<ge> 60
                            then \<lparr>ww_count = 0, ww_windowStartUnix = now\<rparr> else rec0);
                    rec2 = rec1\<lparr>ww_count := ww_count rec1 + 1\<rparr>;
                    st3 = st2\<lparr>mw_perWallet := (mw_perWallet st2)(w \<mapsto> rec2)\<rparr>
                in (ww_count rec2 \<le> ap_maxReceiptsPerWalletPerMin policy, st3)))"

fun submit_loop :: "AttackPolicy \<Rightarrow> int \<Rightarrow> ReceiptIn option list \<Rightarrow> WitnessState \<Rightarrow> nat \<times> nat \<times> WitnessState" where
  "submit_loop policy now [] st = (0, 0, st)"
| "submit_loop policy now (r # rs) st =
     (let (ok, st1) = submit_one policy now r st; (a, j, st2) = submit_loop policy now rs st1
      in if ok then (a + 1, j, st2) else (a, j + 1, st2))"

datatype witness_reply = WitnessError nat string | WitnessOk nat nat AttackMode AttackPolicy

definition submit_receipts :: "WitnessConfig \<Rightarrow> int \<Rightarrow> ReceiptIn option list \<Rightarrow> WitnessState \<Rightarrow> witness_reply \<times> WitnessState" where
  "submit_receipts cfg now receipts st =
     (let st1 = mw_updateMode cfg now (maybeReset cfg now st);
          policy = policyForMode (mw_mode st1) in
      if receipts = [] then (WitnessError 400 ''missing_receipts'', st1)
      else let (accepted, rejected, st2) = submit_loop policy now receipts st1;
               st3 = mw_updateMode cfg now st2
           in (WitnessOk accepted rejected (mw_mode st3) (policyForMode (mw_mode st3)), st3))"

definition witness_health :: "WitnessConfig \<Rightarrow> int \<Rightarrow> WitnessState \<Rightarrow> AttackMode \<times> AttackPolicy \<times> rat \<times> WitnessState" where
  "witness_health cfg now st =
     (let st1 = mw_updateMode cfg now (maybeReset cfg now st)
      in (mw_mode st1, policyForMode (mw_mode st1), invalid_pct st1, st1))"

section \<open>Properties of the miner witness\<close>

lemma updateMode_counters [simp]:
  "mw_total (mw_updateMode cfg now st) = mw_total st" "mw_invalid (mw_updateMode cfg now st) = mw_invalid st"
  "mw_perWallet (mw_updateMode cfg now st) = mw_perWallet st"
  by (simp_all add: mw_updateMode_def Let_def)

lemma submit_one_counters:
  "submit_one p now r st = (ok, st') \<Longrightarrow> mw_total st' = mw_total st + 1 \<and>
     mw_invalid st' = mw_invalid st + (case r of None \<Rightarrow> 1 | Some x \<Rightarrow> if ri_valid x then 0 else 1)"
  by (auto simp: submit_one_def Let_def split: option.splits if_splits)

definition count_invalid :: "ReceiptIn option list \<Rightarrow> nat" where
  "count_invalid rs = length (filter (\<lambda>r. case r of None \<Rightarrow> True | Some x \<Rightarrow> \<not> ri_valid x) rs)"

lemma submit_loop_counters:
  "submit_loop p now rs st = (a, j, st') \<Longrightarrow> a + j = length rs \<and>
     mw_total st' = mw_total st + length rs \<and> mw_invalid st' = mw_invalid st + count_invalid rs"
proof (induction rs arbitrary: st a j st')
  case (Cons r rs)
  obtain ok st1 where o: "submit_one p now r st = (ok, st1)" by fastforce
  obtain a1 j1 st2 where l: "submit_loop p now rs st1 = (a1, j1, st2)" by (metis prod_cases3)
  show ?case using Cons.prems Cons.IH [OF l] submit_one_counters [OF o] o l
    by (auto simp: count_invalid_def split: if_splits option.splits)
qed (simp add: count_invalid_def)

definition witness_inv :: "WitnessState \<Rightarrow> bool" where
  "witness_inv st \<longleftrightarrow> mw_invalid st \<le> mw_total st"

lemma count_invalid_le: "count_invalid rs \<le> length rs"
  by (simp add: count_invalid_def)

lemma submit_inv: "witness_inv st \<Longrightarrow> witness_inv (snd (submit_receipts cfg now rs st))"
proof -
  assume inv: "witness_inv st"
  let ?st1 = "mw_updateMode cfg now (maybeReset cfg now st)"
  have i1: "witness_inv ?st1" using inv by (simp add: witness_inv_def maybeReset_def)
  obtain a j st2 where l: "submit_loop (policyForMode (mw_mode ?st1)) now rs ?st1 = (a, j, st2)" by (metis prod_cases3)
  show ?thesis using i1 submit_loop_counters [OF l] count_invalid_le [of rs]
    by (auto simp: submit_receipts_def l Let_def witness_inv_def)
qed

lemma submit_one_unstaked:
  "ap_requireStakeForReceipts p \<Longrightarrow> submit_one p now r st = (True, st') \<Longrightarrow> \<exists>x. r = Some x \<and> ri_hasStake x"
  by (auto simp: submit_one_def Let_def split: option.splits if_splits)

lemma submit_loop_unstaked:
  "ap_requireStakeForReceipts p \<Longrightarrow> submit_loop p now rs st = (a, j, st') \<Longrightarrow>
     a \<le> length (filter (\<lambda>r. case r of None \<Rightarrow> False | Some x \<Rightarrow> ri_hasStake x) rs)"
proof (induction rs arbitrary: st a j st')
  case (Cons r rs)
  obtain ok st1 where o: "submit_one p now r st = (ok, st1)" by fastforce
  obtain a1 j1 st2 where l: "submit_loop p now rs st1 = (a1, j1, st2)" by (metis prod_cases3)
  have "a1 \<le> length (filter (\<lambda>r. case r of None \<Rightarrow> False | Some x \<Rightarrow> ri_hasStake x) rs)"
    using Cons.IH [OF Cons.prems(1) l] .
  with Cons.prems o l show ?case
    by (cases ok) (auto dest!: submit_one_unstaked)
qed simp

lemma severe_stake: "severe m \<Longrightarrow> ap_requireStakeForReceipts (policyForMode m)"
  by (auto simp: severe_def)

section \<open>Claims\<close>

text \<open>A submission accounts for every receipt: accepted plus rejected is the number submitted, and the
  counters grow by the number submitted and by the number of invalid ones. While the mode at the
  start of the request is an attack mode, no more receipts are accepted than carry stake.\<close>

theorem submit_receipts_accounts:
  assumes "submit_receipts cfg now rs st = (WitnessOk accepted rejected m p, st')"
  defines "st1 \<equiv> mw_updateMode cfg now (maybeReset cfg now st)"
  shows "accepted + rejected = length rs \<and> mw_total st' = mw_total st1 + length rs \<and>
    mw_invalid st' = mw_invalid st1 + count_invalid rs \<and>
    (if severe (mw_mode st1) then accepted \<le>
       length (filter (\<lambda>r. case r of None \<Rightarrow> False | Some x \<Rightarrow> ri_hasStake x) rs) else True)"
proof -
  obtain a j st2 where l: "submit_loop (policyForMode (mw_mode st1)) now rs st1 = (a, j, st2)" by (metis prod_cases3)
  have "a = accepted" "j = rejected" "st' = mw_updateMode cfg now st2"
    using assms(1) l by (auto simp: submit_receipts_def st1_def Let_def split: if_splits)
  with submit_loop_counters [OF l] submit_loop_unstaked [OF _ l] severe_stake show ?thesis by auto
qed

lemma submit_receipts_ok:
  "rs \<noteq> [] \<Longrightarrow> \<exists>a r m p st'. submit_receipts cfg now rs st = (WitnessOk a r m p, st')"
  by (auto simp: submit_receipts_def Let_def split: prod.splits)

definition example_config :: WitnessConfig where
  "example_config = \<lparr>mc_enabled = True, mc_window_secs = jint 120, mc_thresholds = example_thresholds,
     mc_numstr = (\<lambda>_. [])\<rparr>"

definition example_witness :: WitnessState where
  "example_witness = \<lparr>mw_mode = ISOLATED, mw_lastStableUnix = None, mw_score = 0, mw_reasons = [],
     mw_total = 600, mw_invalid = 60, mw_lastResetUnix = 0, mw_perWallet = (\<lambda>_. None)\<rparr>"

theorem submit_receipts_accounts_witness:
  "\<exists>a r m p st'. submit_receipts example_config 10 [None, Some \<lparr>ri_wallet = ''w'', ri_valid = True, ri_hasStake = False\<rparr>]
     example_witness = (WitnessOk a r m p, st') \<and> a + r = 2 \<and> mw_total st' = 602"
proof -
  let ?rs = "[None, Some \<lparr>ri_wallet = ''w'', ri_valid = True, ri_hasStake = False\<rparr>]"
  obtain a r m p st' where s: "submit_receipts example_config 10 ?rs example_witness = (WitnessOk a r m p, st')"
    using submit_receipts_ok by blast
  have "mw_total (mw_updateMode example_config 10 (maybeReset example_config 10 example_witness)) = 600"
    by (simp add: maybeReset_def example_config_def example_witness_def)
  with submit_receipts_accounts [OF s] s show ?thesis by auto
qed

end
