(* ===== verification/TollBooth.thy ===== *)
theory TollBooth
  imports AttackMode Json
begin

section \<open>The route toll booth (services/toll-booth/src/index.ts)\<close>

text \<open>
  Accepts route records attested by a quorum of trusted witnesses, stores them by hash and credits
  their owner. The environment holds what is outside the service: the hash, the verification of a
  detached signature (which may throw), the list of trusted witnesses, and whether an owner has a
  toll pass. Requests are parsed JSON.
\<close>

record tollbooth_env =
  tb_numstr :: "rat \<Rightarrow> string"
  tb_modestr :: "jsnum \<Rightarrow> string"
  tb_sha256hex :: "string \<Rightarrow> string"
  tb_verify :: "string \<Rightarrow> string \<Rightarrow> string \<Rightarrow> bool res"
  tb_trusted :: "string list"
  tb_hasTollPass :: "string \<Rightarrow> bool"
  tb_quorum :: jsnum
  tb_attack_enabled :: bool
  tb_window_secs :: jsnum
  tb_thresholds :: AttackThresholds

record Attestation =
  wa_v :: jsnum
  wa_route_id :: string
  wa_witness :: string
  wa_sig :: string
  wa_ts :: jsnum

record TollState =
  ts_windowStart :: int
  ts_totalWrites :: nat
  ts_writeErrors :: nat
  ts_mode :: AttackMode
  ts_memory :: "jsnum option"
  ts_score :: int
  ts_reasons :: "string list"
  ts_routes :: "string \<rightharpoonup> (json \<times> Attestation list)"
  ts_credits :: "string \<rightharpoonup> int"

definition resetAttackWindow :: "tollbooth_env \<Rightarrow> int \<Rightarrow> TollState \<Rightarrow> TollState" where
  "resetAttackWindow env nowUnix st =
     (if nle (tb_window_secs env) (jint (nowUnix - ts_windowStart st))
      then st\<lparr>ts_windowStart := nowUnix, ts_totalWrites := 0, ts_writeErrors := 0\<rparr> else st)"

definition gateway_signals :: "int \<Rightarrow> rat \<Rightarrow> AttackSignals" where
  "gateway_signals nowUnix writeErrPct =
     \<lparr>as_rpcFailPct = None, as_rpcDisagreement = None, as_invalidReceiptPct = None, as_receiptSampleSize = None,
      as_canonicalFlipCount = None, as_ipfsFailPct = None, as_gatewayErrorPct = Some (Fin writeErrPct),
      as_nowUnix = Some (jint nowUnix)\<rparr>"

definition currentAttackPolicy :: "tollbooth_env \<Rightarrow> int \<Rightarrow> TollState \<Rightarrow> AttackPolicy \<times> TollState" where
  "currentAttackPolicy env nowUnix st0 =
     (let st = resetAttackWindow env nowUnix st0 in
      if \<not> tb_attack_enabled env
      then (policyForMode NORMAL, st\<lparr>ts_mode := NORMAL, ts_score := 0, ts_reasons := [''disabled'']\<rparr>)
      else let writeErrPct = (if ts_totalWrites st \<noteq> 0
                 then of_nat (ts_writeErrors st * 100) / of_nat (ts_totalWrites st) else 0);
               d = evaluateAttackMode (tb_modestr env) (jint nowUnix) (ts_mode st)
                     (gateway_signals nowUnix writeErrPct) (tb_thresholds env) (ts_memory st)
           in (policyForMode (ad_nextMode d),
               st\<lparr>ts_mode := ad_nextMode d, ts_memory := ad_lastStableUnix d, ts_score := ad_score d,
                 ts_reasons := ad_reasons d\<rparr>))"

text \<open>\<open>canonicalize\<close>: object keys sorted, infinite numbers refused.\<close>

primrec canonicalize :: "(rat \<Rightarrow> string) \<Rightarrow> json \<Rightarrow> string res" where
  "canonicalize numstr JNull = Inr ''null''"
| "canonicalize numstr (JBool b) = Inr (if b then ''true'' else ''false'')"
| "canonicalize numstr (JNum n) = (case n of Fin q \<Rightarrow> Inr (numstr q) | _ \<Rightarrow> throw ''non-finite number'')"
| "canonicalize numstr (JStr s) = Inr (json_quote s)"
| "canonicalize numstr (JArr xs) =
     rbind (traverse (\<lambda>r. r) (map (canonicalize numstr) xs)) (\<lambda>ps. Inr (''['' @ join '','' ps @ '']''))"
| "canonicalize numstr (JObj kvs) =
     rbind (traverse (\<lambda>(k, r). rbind r (\<lambda>v. Inr (json_quote k @ '':'' @ v)))
         (js_sort (\<lambda>a b. cmp_string (fst a) (fst b)) (map (map_prod id (canonicalize numstr)) kvs)))
       (\<lambda>parts. Inr (''{'' @ join '','' parts @ ''}''))"

definition routeId :: "tollbooth_env \<Rightarrow> json \<Rightarrow> string res" where
  "routeId env route = rbind (canonicalize (tb_numstr env) route) (\<lambda>canonical. Inr (tb_sha256hex env canonical))"

definition finite_number :: "json option \<Rightarrow> bool" where
  "finite_number v = (case v of Some (JNum (Fin _)) \<Rightarrow> True | _ \<Rightarrow> False)"

definition positive_number :: "json option \<Rightarrow> bool" where
  "positive_number v = (case v of Some (JNum n) \<Rightarrow> \<not> nle n (Fin 0) | _ \<Rightarrow> False)"

definition isValidRoute :: "json option \<Rightarrow> string option" where
  "isValidRoute r =
     (case r of
        None \<Rightarrow> Some ''invalid route version''
      | Some route \<Rightarrow>
          if \<not> jtruthy r \<or> jprop route ''v'' \<noteq> Some (JNum (jint 1)) then Some ''invalid route version''
          else if \<not> jtruthy (jprop route ''name'') \<or> \<not> jtruthy (jprop route ''dest'') \<or> \<not> jtruthy (jprop route ''owner'')
            then Some ''missing fields''
          else if \<not> finite_number (jprop route ''ttl'') \<or> \<not> positive_number (jprop route ''ttl'') then Some ''invalid ttl''
          else if \<not> jtruthy (jprop route ''issued_at'') \<or> \<not> jtruthy (jprop route ''expires_at'')
            then Some ''missing timestamps''
          else None)"

definition verifyWitness :: "tollbooth_env \<Rightarrow> string \<Rightarrow> Attestation \<Rightarrow> string list \<Rightarrow> bool res" where
  "verifyWitness env routeHashHex att trusted =
     (if wa_v att \<noteq> jint 1 then Inr False
      else if wa_witness att \<notin> set trusted then Inr False
      else tb_verify env routeHashHex (wa_sig att) (wa_witness att))"

text \<open>The loop over the attestations, collecting distinct witnesses.\<close>

fun collect_witnesses :: "tollbooth_env \<Rightarrow> string \<Rightarrow> string list \<Rightarrow> Attestation list \<Rightarrow> string list \<Rightarrow> string list res" where
  "collect_witnesses env computedId trusted [] valid = Inr valid"
| "collect_witnesses env computedId trusted (w # ws) valid =
     (if wa_route_id w \<noteq> computedId then collect_witnesses env computedId trusted ws valid
      else rbind (verifyWitness env computedId w trusted) (\<lambda>ok.
        collect_witnesses env computedId trusted ws (if ok then List.insert (wa_witness w) valid else valid)))"

datatype toll_reply = TollOk string | TollFrozen | TollBad string | TollQuorum nat | TollServerError

definition route_owner :: "tollbooth_env \<Rightarrow> json \<Rightarrow> string" where
  "route_owner env route = (case jprop route ''owner'' of None \<Rightarrow> ''undefined'' | Some v \<Rightarrow> js_to_string (tb_numstr env) v)"

definition submit_route :: "tollbooth_env \<Rightarrow> int \<Rightarrow> json option \<Rightarrow> Attestation list \<Rightarrow> TollState \<Rightarrow> toll_reply \<times> TollState" where
  "submit_route env now route_opt witnesses st0 =
     (let (policy, st1) = currentAttackPolicy env now st0;
          st = st1\<lparr>ts_totalWrites := ts_totalWrites st1 + 1\<rparr>;
          server_error = (TollServerError, st\<lparr>ts_writeErrors := ts_writeErrors st + 1\<rparr>) in
      if ap_freezeWrites policy then (TollFrozen, st)
      else case isValidRoute route_opt of
        Some err \<Rightarrow> (TollBad err, st)
      | None \<Rightarrow>
          (let route = the route_opt in
           case routeId env route of
             Inl _ \<Rightarrow> server_error
           | Inr computedId \<Rightarrow>
               (case collect_witnesses env computedId (tb_trusted env) witnesses [] of
                  Inl _ \<Rightarrow> server_error
                | Inr validWitnesses \<Rightarrow>
                    if nlt (jint (int (length validWitnesses))) (tb_quorum env)
                      then (TollQuorum (length validWitnesses), st)
                    else if \<not> tb_hasTollPass env (route_owner env route) then (TollBad ''owner has no toll pass'', st)
                    else let ow = route_owner env route;
                             points = (case ts_credits st ow of None \<Rightarrow> 0 | Some p \<Rightarrow> p)
                         in (TollOk computedId, st\<lparr>ts_routes := (ts_routes st)(computedId \<mapsto> (route, witnesses)),
                              ts_credits := (ts_credits st)(ow \<mapsto> points + 1)\<rparr>))))"

section \<open>Properties of the toll booth\<close>

subsection \<open>The attack mode never fires\<close>

text \<open>The only signal the service reports weighs 10, below the first threshold of 20.\<close>

lemma gateway_score: "thresholds_ok th \<Longrightarrow> fst (attack_score ns (gateway_signals t p) th) \<le> 10"
  by (auto simp: attack_score_def gateway_signals_def Let_def thresholds_ok_def)

lemma gateway_mode_normal:
  "thresholds_ok th \<Longrightarrow> ad_nextMode (evaluateAttackMode ns c NORMAL (gateway_signals t p) th mem) = NORMAL"
  using gateway_score [of th ns t p]
  by (auto simp: evaluateAttackMode_def gateway_signals_def Let_def split: prod.split)

lemma currentAttackPolicy_normal:
  assumes "thresholds_ok (tb_thresholds env)" "ts_mode st = NORMAL" "currentAttackPolicy env now st = (policy, st')"
  shows "policy = policyForMode NORMAL \<and> ts_mode st' = NORMAL \<and> ts_routes st' = ts_routes st \<and> ts_credits st' = ts_credits st"
proof -
  have "ts_mode (resetAttackWindow env now st) = NORMAL" "ts_routes (resetAttackWindow env now st) = ts_routes st"
    "ts_credits (resetAttackWindow env now st) = ts_credits st"
    using assms(2) by (simp_all add: resetAttackWindow_def)
  then show ?thesis using assms(1,3)
    by (auto simp: currentAttackPolicy_def Let_def gateway_mode_normal split: if_splits)
qed

lemma currentAttackPolicy_stores:
  "currentAttackPolicy env now st = (policy, st') \<Longrightarrow> ts_routes st' = ts_routes st \<and> ts_credits st' = ts_credits st"
  by (auto simp: currentAttackPolicy_def resetAttackWindow_def Let_def split: if_splits)

subsection \<open>Stored routes are attested\<close>

definition good_witness :: "tollbooth_env \<Rightarrow> string \<Rightarrow> Attestation list \<Rightarrow> string \<Rightarrow> bool" where
  "good_witness env rid atts w \<longleftrightarrow> w \<in> set (tb_trusted env) \<and>
     (\<exists>a \<in> set atts. wa_witness a = w \<and> wa_route_id a = rid \<and> tb_verify env rid (wa_sig a) w = Inr True)"

definition attested :: "tollbooth_env \<Rightarrow> string \<Rightarrow> json \<Rightarrow> Attestation list \<Rightarrow> bool" where
  "attested env rid route atts \<longleftrightarrow> routeId env route = Inr rid \<and> tb_hasTollPass env (route_owner env route) \<and>
     (\<exists>ws. distinct ws \<and> \<not> nlt (jint (int (length ws))) (tb_quorum env) \<and> (\<forall>w \<in> set ws. good_witness env rid atts w))"

lemma collect_witnesses_good:
  "collect_witnesses env rid (tb_trusted env) ws valid = Inr out \<Longrightarrow> set ws \<subseteq> set atts \<Longrightarrow> distinct valid \<Longrightarrow>
     (\<forall>w \<in> set valid. good_witness env rid atts w) \<Longrightarrow> distinct out \<and> (\<forall>w \<in> set out. good_witness env rid atts w)"
proof (induction ws arbitrary: valid)
  case (Cons w ws)
  show ?case
  proof (cases "wa_route_id w = rid")
    case True
    then obtain ok where ok: "verifyWitness env rid w (tb_trusted env) = Inr ok"
      and c: "collect_witnesses env rid (tb_trusted env) ws (if ok then List.insert (wa_witness w) valid else valid) = Inr out"
      using Cons.prems(1) by (auto simp: result_simps)
    have "good_witness env rid atts (wa_witness w)" if ok
      using ok that True Cons.prems(2) by (auto simp: verifyWitness_def good_witness_def split: if_splits)
    then show ?thesis using Cons.prems by (intro Cons.IH [OF c]) auto
  qed (use Cons in auto)
qed auto

definition toll_inv :: "tollbooth_env \<Rightarrow> TollState \<Rightarrow> bool" where
  "toll_inv env st \<longleftrightarrow> (\<forall>rid route atts. ts_routes st rid = Some (route, atts) \<longrightarrow> attested env rid route atts)"

lemma submit_route_ok:
  assumes "submit_route env now r atts st = (reply, st')"
  shows "(ts_routes st' = ts_routes st \<and> ts_credits st' = ts_credits st \<and> (\<forall>rid. reply \<noteq> TollOk rid)) \<or>
    (\<exists>route rid. r = Some route \<and> reply = TollOk rid \<and> attested env rid route atts \<and>
       ts_routes st' = (ts_routes st)(rid \<mapsto> (route, atts)) \<and>
       ts_credits st' = (ts_credits st)(route_owner env route \<mapsto>
         (case ts_credits st (route_owner env route) of None \<Rightarrow> 0 | Some p \<Rightarrow> p) + 1))"
proof -
  obtain policy st1 where p: "currentAttackPolicy env now st = (policy, st1)" by fastforce
  note P = currentAttackPolicy_stores [OF p]
  show ?thesis
  proof (cases "isValidRoute r")
    case (Some e)
    then show ?thesis using assms P by (auto simp: submit_route_def p Let_def split: if_splits)
  next
    case None
    then obtain route where r: "r = Some route" by (cases r) (auto simp: isValidRoute_def)
    show ?thesis
    proof (cases "routeId env route")
      case (Inl e)
      then show ?thesis using assms P None r by (auto simp: submit_route_def p Let_def split: if_splits)
    next
      case (Inr rid)
      show ?thesis
      proof (cases "collect_witnesses env rid (tb_trusted env) atts []")
        case (Inl e)
        then show ?thesis using assms P None r Inr by (auto simp: submit_route_def p Let_def split: if_splits)
      next
        case c: (Inr ws)
        from collect_witnesses_good [OF c, of atts] have ws: "distinct ws" "\<forall>w \<in> set ws. good_witness env rid atts w"
          by auto
        have "attested env rid route atts"
          if "\<not> nlt (jint (int (length ws))) (tb_quorum env)" "tb_hasTollPass env (route_owner env route)"
          using ws that Inr by (auto simp: attested_def)
        then show ?thesis using assms P None r Inr c
          by (auto simp: submit_route_def p Let_def split: if_splits)
      qed
    qed
  qed
qed

section \<open>Claims\<close>

text \<open>One request: a submission, or the reading of the attack mode.\<close>

inductive toll_step :: "tollbooth_env \<Rightarrow> TollState \<Rightarrow> TollState \<Rightarrow> bool" for env where
  submit: "toll_step env st (snd (submit_route env now r atts st))"
| mode: "toll_step env st (snd (currentAttackPolicy env now st))"

definition toll_init :: "int \<Rightarrow> TollState" where
  "toll_init t = \<lparr>ts_windowStart = t, ts_totalWrites = 0, ts_writeErrors = 0, ts_mode = NORMAL, ts_memory = None,
     ts_score = 0, ts_reasons = [], ts_routes = (\<lambda>_. None), ts_credits = (\<lambda>_. None)\<rparr>"

lemma toll_step_inv: "toll_step env st st' \<Longrightarrow> toll_inv env st \<Longrightarrow> toll_inv env st'"
proof (induction rule: toll_step.induct)
  case (submit st now r atts)
  obtain reply st1 where s: "submit_route env now r atts st = (reply, st1)" by fastforce
  then show ?case using submit_route_ok [OF s] submit by (auto simp: toll_inv_def split: if_splits)
next
  case (mode st now)
  obtain p st1 where s: "currentAttackPolicy env now st = (p, st1)" by fastforce
  then show ?case using currentAttackPolicy_stores [OF s] mode by (simp add: toll_inv_def)
qed

lemma toll_step_normal:
  assumes "thresholds_ok (tb_thresholds env)"
  shows "toll_step env st st' \<Longrightarrow> ts_mode st = NORMAL \<Longrightarrow> ts_mode st' = NORMAL"
proof (induction rule: toll_step.induct)
  case (submit st now r atts)
  obtain p st1 where s: "currentAttackPolicy env now st = (p, st1)" by fastforce
  then show ?case using currentAttackPolicy_normal [OF assms submit s]
    by (auto simp: submit_route_def Let_def split: option.split sum.split)
next
  case (mode st now)
  obtain p st1 where s: "currentAttackPolicy env now st = (p, st1)" by fastforce
  then show ?case using currentAttackPolicy_normal [OF assms mode s] by simp
qed

definition example_toll_env :: tollbooth_env where
  "example_toll_env = \<lparr>tb_numstr = (\<lambda>_. ''1''), tb_modestr = (\<lambda>_. []), tb_sha256hex = (\<lambda>_. ''rid''),
     tb_verify = (\<lambda>h s w. Inr (s = ''good'')), tb_trusted = [''w1'', ''w2''], tb_hasTollPass = (\<lambda>ow. ow = ''alice''),
     tb_quorum = jint 2, tb_attack_enabled = True, tb_window_secs = jint 120, tb_thresholds = example_thresholds\<rparr>"

definition example_route :: json where
  "example_route = JObj [(''v'', JNum (Fin 1)), (''name'', JStr ''a''), (''dest'', JStr ''b''), (''ttl'', JNum (Fin 60)),
     (''issued_at'', JNum (Fin 5)), (''expires_at'', JNum (Fin 9)), (''owner'', JStr ''alice'')]"

definition example_atts :: "Attestation list" where
  "example_atts = [\<lparr>wa_v = Fin 1, wa_route_id = ''rid'', wa_witness = ''w1'', wa_sig = ''good'', wa_ts = Fin 5\<rparr>,
     \<lparr>wa_v = Fin 1, wa_route_id = ''rid'', wa_witness = ''w2'', wa_sig = ''good'', wa_ts = Fin 5\<rparr>]"

lemma example_thresholds_ok: "thresholds_ok (tb_thresholds example_toll_env)"
  by (simp add: example_toll_env_def thresholds_ok_def example_thresholds_def)

lemma example_routeId: "routeId example_toll_env example_route = Inr ''rid''"
  by (simp add: routeId_def example_toll_env_def example_route_def cmp_string_def)

lemma example_valid: "isValidRoute (Some example_route) = None"
  by (simp add: isValidRoute_def example_route_def jprop_def finite_number_def positive_number_def)

lemma example_collect: "collect_witnesses example_toll_env ''rid'' (tb_trusted example_toll_env) example_atts [] = Inr [''w2'', ''w1'']"
  by (simp add: example_toll_env_def example_atts_def verifyWitness_def)

lemma example_owner: "route_owner example_toll_env example_route = ''alice''"
  by (simp add: route_owner_def example_route_def jprop_def js_to_string_def)

lemma example_submit:
  assumes "ts_mode st = NORMAL"
  shows "\<exists>st'. submit_route example_toll_env now (Some example_route) example_atts st = (TollOk ''rid'', st')"
proof -
  obtain p st1 where s: "currentAttackPolicy example_toll_env now st = (p, st1)" by fastforce
  from currentAttackPolicy_normal [OF example_thresholds_ok assms s] have "\<not> ap_freezeWrites p" by simp
  moreover have "tb_hasTollPass example_toll_env ''alice''" "tb_quorum example_toll_env = jint 2"
    by (simp_all add: example_toll_env_def)
  ultimately show ?thesis
    by (simp add: submit_route_def s Let_def example_valid example_routeId example_collect example_owner)
qed

text \<open>C21: in every state the toll booth can reach, each stored route is stored under its own hash, its
  owner has a toll pass, and at least a quorum of distinct trusted witnesses signed that hash.\<close>

theorem tollbooth_routes_attested:
  assumes "(toll_step env)\<^sup>*\<^sup>* (toll_init t) st" "ts_routes st rid = Some (route, atts)"
  shows "attested env rid route atts"
proof -
  have "toll_inv env st"
    using assms(1) by (induction rule: rtranclp_induct) (auto simp: toll_inv_def toll_init_def dest: toll_step_inv [unfolded toll_inv_def])
  then show ?thesis using assms(2) by (simp add: toll_inv_def)
qed

theorem tollbooth_routes_attested_witness:
  "\<exists>st. (toll_step example_toll_env)\<^sup>*\<^sup>* (toll_init 0) st \<and> ts_routes st ''rid'' = Some (example_route, example_atts) \<and>
     attested example_toll_env ''rid'' example_route example_atts"
proof -
  obtain st' where s: "submit_route example_toll_env 5 (Some example_route) example_atts (toll_init 0) = (TollOk ''rid'', st')"
    using example_submit by (fastforce simp: toll_init_def)
  then have step: "(toll_step example_toll_env)\<^sup>*\<^sup>* (toll_init 0) st'"
    using toll_step.submit [of example_toll_env "toll_init 0" 5 "Some example_route" example_atts] by auto
  have r: "ts_routes st' ''rid'' = Some (example_route, example_atts)" using submit_route_ok [OF s] by auto
  from tollbooth_routes_attested [OF step r] step r show ?thesis by blast
qed

text \<open>Writes are never frozen. The only signal the toll booth feeds to the attack mode is its error
  rate, whose weight never reaches a threshold: in every reachable state the mode is \<open>NORMAL\<close>,
  whatever the error rate, so the freeze of writes it implements is dead code.\<close>

theorem tollbooth_never_freezes:
  assumes "(toll_step env)\<^sup>*\<^sup>* (toll_init t) st" "thresholds_ok (tb_thresholds env)"
  shows "ts_mode st = NORMAL \<and> \<not> ap_freezeWrites (fst (currentAttackPolicy env now st))"
proof -
  have m: "ts_mode st = NORMAL"
    using assms(1) by (induction rule: rtranclp_induct) (auto simp: toll_init_def intro: toll_step_normal [OF assms(2)])
  obtain p st1 where s: "currentAttackPolicy env now st = (p, st1)" by fastforce
  from currentAttackPolicy_normal [OF assms(2) m s] m s show ?thesis by simp
qed

theorem tollbooth_never_freezes_witness:
  "\<not> ap_freezeWrites (fst (currentAttackPolicy example_toll_env 500
     ((toll_init 0)\<lparr>ts_totalWrites := 0\<rparr>)))"
proof -
  have "(toll_init 0)\<lparr>ts_totalWrites := 0\<rparr> = toll_init 0" by (simp add: toll_init_def)
  then show ?thesis
    using tollbooth_never_freezes [of example_toll_env 0 "toll_init 0" 500] example_thresholds_ok by simp
qed

text \<open>Resubmitting a stored route pays again. The same request, repeated under an unchanged
  environment, is accepted again and adds another point to the owner each time.\<close>

theorem tollbooth_replay_pays:
  assumes "submit_route env now r atts st = (TollOk rid, st')" "ts_mode st = NORMAL"
    "thresholds_ok (tb_thresholds env)"
  shows "\<exists>st''. submit_route env now' r atts st' = (TollOk rid, st'') \<and> ts_routes st'' = ts_routes st' \<and>
    (\<exists>ow p. ts_credits st' ow = Some p \<and> ts_credits st'' ow = Some (p + 1))"
proof -
  obtain p1 st1 where s1: "currentAttackPolicy env now st = (p1, st1)" by fastforce
  have "toll_step env st st'" using assms(1) toll_step.submit [of env st now r atts] by simp
  then have m': "ts_mode st' = NORMAL" using toll_step_normal assms by blast
  obtain p2 st2 where s2: "currentAttackPolicy env now' st' = (p2, st2)" by fastforce
  note N1 = currentAttackPolicy_normal [OF assms(3,2) s1] and N2 = currentAttackPolicy_normal [OF assms(3) m' s2]
  obtain reply st'' where S: "submit_route env now' r atts st' = (reply, st'')" by fastforce
  have "reply = TollOk rid" using assms(1) S N1 N2
    by (auto simp: submit_route_def s1 s2 Let_def split: option.splits sum.splits if_splits)
  then show ?thesis using submit_route_ok [OF assms(1)] submit_route_ok [OF S] S
    by (auto split: option.splits)
qed

theorem tollbooth_replay_pays_witness:
  "\<exists>st' st''. submit_route example_toll_env 5 (Some example_route) example_atts (toll_init 0) = (TollOk ''rid'', st') \<and>
     submit_route example_toll_env 6 (Some example_route) example_atts st' = (TollOk ''rid'', st'') \<and>
     (\<exists>ow p. ts_credits st' ow = Some p \<and> ts_credits st'' ow = Some (p + 1))"
proof -
  have m: "ts_mode (toll_init 0) = NORMAL" by (simp add: toll_init_def)
  obtain st' where s: "submit_route example_toll_env 5 (Some example_route) example_atts (toll_init 0) = (TollOk ''rid'', st')"
    using example_submit [OF m] by blast
  from tollbooth_replay_pays [OF s m example_thresholds_ok, of 6] s show ?thesis by blast
qed

end
