(* ===== verification/Comments.thy ===== *)
theory Comments
  imports CoordCredits
begin

section \<open>Comment tickets (coordinator/src/routes/comments.ts)\<close>

text \<open>
  A commenter's credits are put on hold under a ticket; the site submits the comment and finally
  reports how it was moderated. Approved comments get the credits back, those of spam and trash are
  distributed by the caller. Tickets live in a map; random identifiers are arguments.
\<close>

datatype HoldStatus = Held | Submitted | Approved | Spam | Trash

record CommentHold =
  ho_ticket_id :: string
  ho_wallet :: string
  ho_site_id :: string
  ho_post_id :: string
  ho_amount :: jsnum
  ho_status :: HoldStatus
  ho_createdAt :: int
  ho_expiresAt :: jsnum
  ho_comment_hash :: "string option"

record CommentState =
  cm_holds :: "string \<rightharpoonup> CommentHold"
  cm_walletRate :: "string \<rightharpoonup> RateWindow"
  cm_siteRate :: "string \<rightharpoonup> RateWindow"
  cm_walletCooldown :: "string \<rightharpoonup> int"

record CommentConfig =
  cc_holdTtlMs :: jsnum
  cc_maxPerMinuteWallet :: jsnum
  cc_maxPerMinuteSite :: jsnum
  cc_bonusMax :: jsnum
  cc_walletCooldownMs :: jsnum

record HoldRequest =
  hr_wallet :: "string option"
  hr_site_id :: "string option"
  hr_post_id :: "string option"
  hr_amount :: "jsnum option"

record FinalizeRequest =
  fr_ticket_id :: "string option"
  fr_result :: "string option"
  fr_bonus_multiplier :: "jsnum option"
  fr_site_id :: "string option"

definition text_field :: "string option \<Rightarrow> string" where
  "text_field v = trim (case v of None \<Rightarrow> [] | Some s \<Rightarrow> s)"

definition num_field :: "jsnum option \<Rightarrow> jsnum \<Rightarrow> jsnum" where
  "num_field v d = (case v of None \<Rightarrow> d | Some n \<Rightarrow> nor n d)"

definition createHold ::
  "int \<Rightarrow> string \<Rightarrow> CreditsState \<Rightarrow> CommentState \<Rightarrow> HoldRequest \<Rightarrow> CommentConfig \<Rightarrow>
     (string + string \<times> jsnum) \<times> CreditsState \<times> CommentState" where
  "createHold now rnd credits comments payload cfg =
     (let wallet = text_field (hr_wallet payload);
          site_id = text_field (hr_site_id payload);
          post_id = text_field (hr_post_id payload);
          amount = num_field (hr_amount payload) (Fin 0) in
      if wallet = [] \<or> site_id = [] \<or> post_id = [] \<or> \<not> ntruthy amount \<or> nle amount (Fin 0)
      then (Inl ''INVALID_REQUEST'', credits, comments)
      else let (walletOk, wr) = applyRateLimit now (cc_maxPerMinuteWallet cfg) wallet (cm_walletRate comments);
               comments1 = comments\<lparr>cm_walletRate := wr\<rparr> in
      if \<not> walletOk then (Inl ''RATE_LIMITED'', credits, comments1)
      else let (siteOk, sr) = applyRateLimit now (cc_maxPerMinuteSite cfg) site_id (cm_siteRate comments1);
               comments2 = comments1\<lparr>cm_siteRate := sr\<rparr> in
      if \<not> siteOk then (Inl ''RATE_LIMITED'', credits, comments2)
      else let lastHold = (case cm_walletCooldown comments2 wallet of None \<Rightarrow> 0 | Some t \<Rightarrow> t) in
      if nlt (jint (now - lastHold)) (cc_walletCooldownMs cfg) then (Inl ''COOLDOWN_ACTIVE'', credits, comments2)
      else let balance = getBalance credits wallet in
      if nlt balance amount then (Inl ''INSUFFICIENT_CREDITS'', credits, comments2)
      else let ticket_id = ''hold_'' @ rnd;
               expiresAt = nadd (jint now) (cc_holdTtlMs cfg);
               hold = \<lparr>ho_ticket_id = ticket_id, ho_wallet = wallet, ho_site_id = site_id, ho_post_id = post_id,
                 ho_amount = amount, ho_status = Held, ho_createdAt = now, ho_expiresAt = expiresAt,
                 ho_comment_hash = None\<rparr>
           in (Inr (ticket_id, expiresAt),
               credits\<lparr>cs_credits := (cs_credits credits)(wallet \<mapsto> nsub balance amount)\<rparr>,
               comments2\<lparr>cm_walletCooldown := (cm_walletCooldown comments2)(wallet \<mapsto> now),
                 cm_holds := (cm_holds comments2)(ticket_id \<mapsto> hold)\<rparr>))"

definition submitHold ::
  "int \<Rightarrow> CommentState \<Rightarrow> string option \<Rightarrow> string option \<Rightarrow> string option \<times> CommentState" where
  "submitHold now comments ticket hash_opt =
     (let ticket_id = text_field ticket; comment_hash = text_field hash_opt in
      if ticket_id = [] \<or> comment_hash = [] then (Some ''INVALID_REQUEST'', comments)
      else case cm_holds comments ticket_id of
        None \<Rightarrow> (Some ''TICKET_NOT_FOUND'', comments)
      | Some hold \<Rightarrow>
          if nlt (ho_expiresAt hold) (jint now) then (Some ''TICKET_EXPIRED'', comments)
          else (None, comments\<lparr>cm_holds := (cm_holds comments)(ticket_id \<mapsto>
                 hold\<lparr>ho_comment_hash := Some comment_hash, ho_status := Submitted\<rparr>)\<rparr>))"

definition status_of_result :: "string \<Rightarrow> HoldStatus option" where
  "status_of_result r =
     (if r = ''approved'' then Some Approved else if r = ''spam'' then Some Spam
      else if r = ''trash'' then Some Trash else None)"

definition finalizeHold ::
  "int \<Rightarrow> CreditsState \<Rightarrow> CommentState \<Rightarrow> FinalizeRequest \<Rightarrow>
     (string + string \<times> jsnum \<times> CommentHold) \<times> CreditsState \<times> CommentState" where
  "finalizeHold now credits comments payload =
     (let ticket_id = text_field (fr_ticket_id payload); result = text_field (fr_result payload) in
      if ticket_id = [] \<or> result = [] then (Inl ''INVALID_REQUEST'', credits, comments)
      else case cm_holds comments ticket_id of
        None \<Rightarrow> (Inl ''TICKET_NOT_FOUND'', credits, comments)
      | Some hold \<Rightarrow>
          if nlt (ho_expiresAt hold) (jint now) then (Inl ''TICKET_EXPIRED'', credits, comments)
          else case status_of_result result of
            None \<Rightarrow> (Inl ''INVALID_RESULT'', credits, comments)
          | Some status \<Rightarrow>
              let wallet = ho_wallet hold;
                  credits1 = (if status = Approved
                    then credits\<lparr>cs_credits := (cs_credits credits)(wallet \<mapsto> nadd (getBalance credits wallet) (ho_amount hold))\<rparr>
                    else credits);
                  hold1 = hold\<lparr>ho_status := status\<rparr>
              in (Inr (wallet, getBalance credits1 wallet, hold1), credits1,
                  comments\<lparr>cm_holds := (cm_holds comments)(ticket_id \<mapsto> hold1)\<rparr>))"

section \<open>Properties of tickets\<close>

text \<open>The credits on hold: those of tickets that are neither approved nor rejected.\<close>

definition hold_open :: "CommentHold \<Rightarrow> bool" where
  "hold_open h \<longleftrightarrow> ho_status h = Held \<or> ho_status h = Submitted"

definition on_hold :: "CommentHold \<Rightarrow> rat" where
  "on_hold h = (if hold_open h then fin_part (ho_amount h) else 0)"

definition holds_total :: "CommentState \<Rightarrow> rat" where
  "holds_total cm = map_total on_hold (cm_holds cm)"

definition comments_inv :: "CommentState \<Rightarrow> bool" where
  "comments_inv cm \<longleftrightarrow> finite (dom (cm_holds cm)) \<and>
     (\<forall>t h. cm_holds cm t = Some h \<longrightarrow> (\<exists>q. ho_amount h = Fin q \<and> 0 < q))"

definition credits_total :: "CreditsState \<Rightarrow> rat" where
  "credits_total st = map_total fin_part (cs_credits st)"

definition credits_fin :: "CreditsState \<Rightarrow> bool" where
  "credits_fin st \<longleftrightarrow> credits_inv st \<and> finite (dom (cs_credits st))"

lemma entry_balance: "credits_inv st \<Longrightarrow> entry_value fin_part (cs_credits st) w = balance st w"
  unfolding credits_inv_def entry_value_def balance_def getBalance_def credit_of_def
  by (cases "cs_credits st w") force+

lemma credits_total_upd:
  "credits_fin st \<Longrightarrow> map_total fin_part ((cs_credits st)(w \<mapsto> Fin q)) = credits_total st - balance st w + q"
  by (simp add: credits_fin_def credits_total_def map_total_upd entry_balance)

lemma credits_fin_upd: "credits_fin st \<Longrightarrow> 0 \<le> q \<Longrightarrow> credits_fin (st\<lparr>cs_credits := (cs_credits st)(w \<mapsto> Fin q)\<rparr>)"
  by (simp add: credits_fin_def credits_inv_upd)

lemma getBalance_eq: "credits_fin st \<Longrightarrow> getBalance st w = Fin (balance st w)"
  using getBalance_Fin by (auto simp: credits_fin_def)

lemma balance_nonneg: "credits_fin st \<Longrightarrow> 0 \<le> balance st w"
  using getBalance_Fin by (auto simp: credits_fin_def)

text \<open>What a successful hold does.\<close>

lemma createHold_ok:
  assumes "createHold now rnd cs cm p cfg = (Inr (ticket, expires), cs', cm')" "credits_fin cs"
  shows "\<exists>q h. ticket = ''hold_'' @ rnd \<and> 0 < q \<and> q \<le> balance cs (text_field (hr_wallet p)) \<and>
    ho_amount h = Fin q \<and> ho_status h = Held \<and> ho_wallet h = text_field (hr_wallet p) \<and>
    cs' = cs\<lparr>cs_credits := (cs_credits cs)(ho_wallet h \<mapsto> Fin (balance cs (ho_wallet h) - q))\<rparr> \<and>
    cm_holds cm' = (cm_holds cm)(ticket \<mapsto> h)"
proof -
  define w where "w = text_field (hr_wallet p)"
  define a where "a = num_field (hr_amount p) (Fin 0)"
  have bal: "getBalance cs w = Fin (balance cs w)" using assms(2) by (rule getBalance_eq)
  from assms(1) have g: "ntruthy a" "\<not> nle a (Fin 0)" "\<not> nlt (Fin (balance cs w)) a"
    by (auto simp: createHold_def Let_def w_def [symmetric] a_def [symmetric] bal split: if_splits prod.splits)
  then obtain q where q: "a = Fin q" "0 < q" "q \<le> balance cs w" by (cases a) (auto simp: nle_def)
  define h where "h = \<lparr>ho_ticket_id = ''hold_'' @ rnd, ho_wallet = w, ho_site_id = text_field (hr_site_id p),
    ho_post_id = text_field (hr_post_id p), ho_amount = a, ho_status = Held, ho_createdAt = now,
    ho_expiresAt = nadd (jint now) (cc_holdTtlMs cfg), ho_comment_hash = None\<rparr>"
  from assms(1) have "ticket = ''hold_'' @ rnd" "cm_holds cm' = (cm_holds cm)(ticket \<mapsto> h)"
    "cs' = cs\<lparr>cs_credits := (cs_credits cs)(w \<mapsto> Fin (balance cs w - q))\<rparr>"
    unfolding createHold_def Let_def w_def [symmetric] a_def [symmetric] bal h_def q(1)
    by (auto split: if_splits prod.splits)
  moreover have "ho_wallet h = w" "ho_amount h = Fin q" "ho_status h = Held" by (simp_all add: h_def q)
  ultimately show ?thesis using q unfolding w_def [symmetric] by blast
qed

lemma createHold_error:
  assumes "createHold now rnd cs cm p cfg = (Inl err, cs', cm')"
  shows "cs' = cs \<and> cm_holds cm' = cm_holds cm"
  using assms unfolding createHold_def Let_def by (simp split: if_splits prod.splits) auto

lemma submitHold_cases:
  assumes "submitHold now cm t hsh = (r, cm')"
  shows "if r = None then \<exists>h. cm_holds cm (text_field t) = Some h \<and>
      cm' = cm\<lparr>cm_holds := (cm_holds cm)(text_field t \<mapsto> h\<lparr>ho_comment_hash := Some (text_field hsh), ho_status := Submitted\<rparr>)\<rparr>
    else cm' = cm"
  using assms by (auto simp: submitHold_def Let_def split: if_splits option.splits)

lemma finalizeHold_ok:
  assumes "finalizeHold now cs cm p = (Inr (w, b, h'), cs', cm')"
  shows "\<exists>h status. cm_holds cm (text_field (fr_ticket_id p)) = Some h \<and> \<not> nlt (ho_expiresAt h) (jint now) \<and>
    status_of_result (text_field (fr_result p)) = Some status \<and>
    w = ho_wallet h \<and> h' = h\<lparr>ho_status := status\<rparr> \<and> b = getBalance cs' w \<and>
    cm' = cm\<lparr>cm_holds := (cm_holds cm)(text_field (fr_ticket_id p) \<mapsto> h')\<rparr> \<and>
    cs' = (if status = Approved then coord_credit cs (ho_wallet h) (ho_amount h) else cs)"
  using assms
  by (auto simp: finalizeHold_def coord_credit_def getBalance_def Let_def split: if_splits option.splits)

lemma finalizeHold_error:
  assumes "finalizeHold now cs cm p = (Inl err, cs', cm')"
  shows "cs' = cs \<and> cm' = cm"
  using assms by (auto simp: finalizeHold_def Let_def split: if_splits option.splits)

text \<open>How the total on hold changes when one ticket is written.\<close>

lemma holds_total_upd:
  assumes "comments_inv cm" "cm_holds cm' = (cm_holds cm)(t \<mapsto> h)"
  shows "holds_total cm' = holds_total cm - entry_value on_hold (cm_holds cm) t + on_hold h"
  using assms by (simp add: holds_total_def comments_inv_def map_total_upd)

lemma comments_inv_upd:
  assumes "comments_inv cm" "cm_holds cm' = (cm_holds cm)(t \<mapsto> h)" "ho_amount h = Fin q" "0 < q"
  shows "comments_inv cm'"
  using assms by (auto simp: comments_inv_def)

lemma comments_inv_cong: "comments_inv cm \<Longrightarrow> cm_holds cm' = cm_holds cm \<Longrightarrow> comments_inv cm'"
  by (simp add: comments_inv_def)

lemma comments_amount: "comments_inv cm \<Longrightarrow> cm_holds cm t = Some h \<Longrightarrow> ho_amount h = Fin (fin_part (ho_amount h)) \<and> 0 < fin_part (ho_amount h)"
  unfolding comments_inv_def by force

subsection \<open>Every operation accounts for the credits it moves\<close>

definition comment_credits :: "CreditsState \<Rightarrow> CommentState \<Rightarrow> rat" where
  "comment_credits cs cm = credits_total cs + holds_total cm"

lemma createHold_conserves:
  assumes "createHold now rnd cs cm p cfg = (r, cs', cm')" "credits_fin cs" "comments_inv cm"
    "cm_holds cm (''hold_'' @ rnd) = None"
  shows "credits_fin cs' \<and> comments_inv cm' \<and> comment_credits cs' cm' = comment_credits cs cm"
proof (cases r)
  case (Inl err)
  with assms(1) createHold_error [of now rnd cs cm p cfg err cs' cm'] have "cs' = cs" "cm_holds cm' = cm_holds cm" by auto
  with assms show ?thesis by (auto simp: comment_credits_def holds_total_def intro: comments_inv_cong)
next
  case (Inr te)
  obtain t ex where "te = (t, ex)" by force
  with Inr assms(1) have "createHold now rnd cs cm p cfg = (Inr (t, ex), cs', cm')" by simp
  from createHold_ok [OF this assms(2)] obtain q h where
    A: "t = ''hold_'' @ rnd" "0 < q" "q \<le> balance cs (ho_wallet h)" "ho_amount h = Fin q" "ho_status h = Held"
      "cs' = cs\<lparr>cs_credits := (cs_credits cs)(ho_wallet h \<mapsto> Fin (balance cs (ho_wallet h) - q))\<rparr>"
      "cm_holds cm' = (cm_holds cm)(t \<mapsto> h)" by metis
  have "credits_total cs' = credits_total cs - q"
    using credits_total_upd [OF assms(2), of "ho_wallet h" "balance cs (ho_wallet h) - q"] A(6)
    by (simp add: credits_total_def)
  moreover have "holds_total cm' = holds_total cm + q"
    using holds_total_upd [OF assms(3) A(7)] A assms(4) by (simp add: entry_value_def on_hold_def hold_open_def)
  moreover have "credits_fin cs'" using A(3,6) credits_fin_upd [OF assms(2)] by simp
  moreover have "comments_inv cm'" using comments_inv_upd [OF assms(3) A(7,4,2)] .
  ultimately show ?thesis by (simp add: comment_credits_def)
qed

text \<open>A ticket that has been settled and is submitted again is open again.\<close>

definition settled_amount :: "CommentState \<Rightarrow> string \<Rightarrow> rat" where
  "settled_amount cm t =
     (case cm_holds cm t of None \<Rightarrow> 0 | Some h \<Rightarrow> if hold_open h then 0 else fin_part (ho_amount h))"

lemma submitHold_accounts:
  assumes "submitHold now cm t hsh = (r, cm')" "comments_inv cm"
  shows "comments_inv cm' \<and>
    holds_total cm' = holds_total cm + (if r = None then settled_amount cm (text_field t) else 0)"
proof (cases "r = None")
  case True
  with submitHold_cases [OF assms(1)] obtain h where h: "cm_holds cm (text_field t) = Some h"
    "cm' = cm\<lparr>cm_holds := (cm_holds cm)(text_field t \<mapsto> h\<lparr>ho_comment_hash := Some (text_field hsh), ho_status := Submitted\<rparr>)\<rparr>"
    by auto
  then have upd: "cm_holds cm' = (cm_holds cm)(text_field t \<mapsto> h\<lparr>ho_comment_hash := Some (text_field hsh), ho_status := Submitted\<rparr>)"
    by simp
  from comments_amount [OF assms(2) h(1)] have "comments_inv cm'"
    by (intro comments_inv_upd [OF assms(2) upd]) auto
  with True holds_total_upd [OF assms(2) upd] h(1) show ?thesis
    by (auto simp: entry_value_def on_hold_def hold_open_def settled_amount_def)
next
  case False
  with submitHold_cases [OF assms(1)] assms(2) show ?thesis by auto
qed

text \<open>Finalizing an approved ticket pays its amount out of the hold if the ticket is open; if it has
  been settled before, the amount appears from nowhere. A rejected ticket leaves the hold, and its
  amount is the caller's to distribute.\<close>

lemma finalizeHold_accounts:
  assumes "finalizeHold now cs cm p = (Inr (w, b, h'), cs', cm')" "credits_fin cs" "comments_inv cm"
  shows "credits_fin cs' \<and> comments_inv cm' \<and> 0 < fin_part (ho_amount h') \<and> ho_amount h' = Fin (fin_part (ho_amount h')) \<and>
    comment_credits cs' cm' + (if ho_status h' = Approved then 0 else fin_part (ho_amount h')) =
      comment_credits cs cm + settled_amount cm (text_field (fr_ticket_id p))"
proof -
  let ?t = "text_field (fr_ticket_id p)"
  from finalizeHold_ok [OF assms(1)] obtain h status where A: "cm_holds cm ?t = Some h"
    "status_of_result (text_field (fr_result p)) = Some status" "h' = h\<lparr>ho_status := status\<rparr>"
    "cm' = cm\<lparr>cm_holds := (cm_holds cm)(?t \<mapsto> h')\<rparr>"
    "cs' = (if status = Approved then coord_credit cs (ho_wallet h) (ho_amount h) else cs)" by blast
  from comments_amount [OF assms(3) A(1)] obtain q where q: "ho_amount h = Fin q" "0 < q" by auto
  have inv: "credits_inv cs" using assms(2) by (simp add: credits_fin_def)
  have closed: "\<not> hold_open h'"
    using A(2,3) by (auto simp: hold_open_def status_of_result_def split: if_splits)
  have "cm_holds cm' = (cm_holds cm)(?t \<mapsto> h')" using A(4) by simp
  from holds_total_upd [OF assms(3) this] comments_inv_upd [OF assms(3) this, of q] A(1,3) q closed
  have B: "holds_total cm' = holds_total cm - on_hold h" "comments_inv cm'"
    by (simp_all add: entry_value_def on_hold_def)
  have "credits_total cs' = credits_total cs + (if status = Approved then q else 0) \<and> credits_fin cs'"
  proof (cases "status = Approved")
    case True
    have "credits_total cs' = credits_total cs + q"
      using credits_total_upd [OF assms(2), of "ho_wallet h" "balance cs (ho_wallet h) + q"] A(5) True
      by (simp add: q coord_credit_Fin [OF inv] credits_total_def)
    moreover have "credits_fin cs'"
      using credits_fin_upd [OF assms(2)] balance_nonneg [OF assms(2), of "ho_wallet h"] A(5) True q
      by (simp add: coord_credit_Fin [OF inv])
    ultimately show ?thesis using True by simp
  qed (use A(5) assms(2) in simp)
  with B q A(1,3) show ?thesis
    by (auto simp: comment_credits_def settled_amount_def on_hold_def)
qed

end
