(* ===== verification/Challenges.thy ===== *)
theory Challenges
  imports Receipts
begin

section \<open>Interface of a challenge store\<close>

text \<open>
  Logging in means signing a challenge the service has issued for a key. The contract: an attempt
  succeeds only while a challenge is pending for its key, and uses it up; no attempt makes a challenge
  pending (one that has expired may be dropped). So a key logs in at most as often as challenges were issued for it.
\<close>

datatype ('k, 'a) auth_call = Issue int 'k string | Attempt int 'k 'a

locale challenge_store =
  fixes pending :: "'s \<Rightarrow> 'k \<Rightarrow> string option"
    and issue :: "int \<Rightarrow> 'k \<Rightarrow> string \<Rightarrow> 's \<Rightarrow> 's"
    and attempt :: "int \<Rightarrow> 'k \<Rightarrow> 'a \<Rightarrow> 's \<Rightarrow> bool \<times> 's"
  assumes issue_pending: "pending (issue now k c s) j = (if j = k then Some c else pending s j)"
    and attempt_needs: "fst (attempt now k a s) \<Longrightarrow> pending s k \<noteq> None"
    and attempt_consumes: "fst (attempt now k a s) \<Longrightarrow> pending (snd (attempt now k a s)) k = None"
    and attempt_keeps: "pending (snd (attempt now k a s)) j \<in> {None, pending s j}"
begin

fun logins :: "'k \<Rightarrow> ('k, 'a) auth_call list \<Rightarrow> 's \<Rightarrow> nat" where
  "logins k [] s = 0"
| "logins k (Issue now j c # calls) s = logins k calls (issue now j c s)"
| "logins k (Attempt now j a # calls) s =
     (if j = k \<and> fst (attempt now j a s) then 1 else 0) + logins k calls (snd (attempt now j a s))"

lemma logins_bound:
  "logins k calls s \<le> length (filter (\<lambda>c. case c of Issue now j ch \<Rightarrow> j = k | _ \<Rightarrow> False) calls) +
     (if pending s k = None then 0 else 1)"
proof (induction k calls s rule: logins.induct)
  case (2 k now j c calls s)
  then show ?case by (auto simp: issue_pending split: if_splits)
next
  case (3 k now j a calls s)
  show ?case
    using 3 attempt_needs [of now j a s] attempt_consumes [of now j a s] attempt_keeps [of now j a s k] by (auto split: if_splits)
qed simp

end

section \<open>Comment logins (coordinator/src/routes/comment-auth.ts)\<close>

text \<open>
  The packages \<open>bs58\<close> and \<open>tweetnacl\<close> and \<open>Buffer\<close>'s base64 are the environment: decoding
  may fail, and the detached verification throws on keys and signatures of a wrong size.
\<close>

record sol_env =
  so_bs58 :: "string \<Rightarrow> bytes option"
  so_unbase64 :: "string \<Rightarrow> bytes"
  so_nacl_verify :: "bytes \<Rightarrow> bytes \<Rightarrow> bytes \<Rightarrow> bool res"

record LoginChallenge =
  lc_wallet :: string
  lc_challenge :: string
  lc_expiresAt :: jsnum

type_synonym CommentAuthState = "string \<rightharpoonup> LoginChallenge"

definition createCommentChallenge :: "int \<Rightarrow> string \<Rightarrow> CommentAuthState \<Rightarrow> string \<Rightarrow> jsnum \<Rightarrow> CommentAuthState" where
  "createCommentChallenge now rnd st wallet ttlMs =
     st(wallet \<mapsto> \<lparr>lc_wallet = wallet, lc_challenge = rnd, lc_expiresAt = nadd (jint now) ttlMs\<rparr>)"

definition comment_verifySolSignature :: "sol_env \<Rightarrow> string \<Rightarrow> string \<Rightarrow> string \<Rightarrow> bool res" where
  "comment_verifySolSignature env pubkey message signatureBase64 =
     (case so_bs58 env pubkey of
        None \<Rightarrow> Inr False
      | Some pubBytes \<Rightarrow>
          so_nacl_verify env (utf8_bytes message) (so_unbase64 env signatureBase64) pubBytes)"

definition verifyCommentSignature ::
  "sol_env \<Rightarrow> int \<Rightarrow> CommentAuthState \<Rightarrow> string \<Rightarrow> string \<Rightarrow> string option \<Rightarrow> bool res \<times> CommentAuthState" where
  "verifyCommentSignature env now st wallet signatureBase64 challenge =
     (case st wallet of
        None \<Rightarrow> (Inr False, st)
      | Some entry \<Rightarrow>
          if nlt (lc_expiresAt entry) (jint now) then (Inr False, st)
          else if (case challenge of None \<Rightarrow> False | Some c \<Rightarrow> c \<noteq> [] \<and> c \<noteq> lc_challenge entry)
            then (Inr False, st)
          else case comment_verifySolSignature env wallet (''ddns-comments-login:'' @ lc_challenge entry) signatureBase64 of
            Inl ex \<Rightarrow> (Inl ex, st)
          | Inr ok \<Rightarrow> (Inr ok, if ok then st(wallet := None) else st))"

section \<open>Properties of comment logins\<close>

definition comment_attempt ::
  "sol_env \<Rightarrow> int \<Rightarrow> string \<Rightarrow> string \<times> string option \<Rightarrow> CommentAuthState \<Rightarrow> bool \<times> CommentAuthState" where
  "comment_attempt env now wallet cred st =
     (case verifyCommentSignature env now st wallet (fst cred) (snd cred) of (r, st') \<Rightarrow> (r = Inr True, st'))"

definition comment_pending :: "CommentAuthState \<Rightarrow> string \<Rightarrow> string option" where
  "comment_pending st wallet = map_option lc_challenge (st wallet)"

lemma verifyCommentSignature_cases:
  assumes "verifyCommentSignature env now st wallet sig ch = (r, st')"
  shows "if r = Inr True
    then \<exists>entry. st wallet = Some entry \<and> \<not> nlt (lc_expiresAt entry) (jint now) \<and> st' = st(wallet := None) \<and>
      comment_verifySolSignature env wallet (''ddns-comments-login:'' @ lc_challenge entry) sig = Inr True
    else st' = st"
  using assms by (auto simp: verifyCommentSignature_def split: option.splits if_splits sum.splits)

interpretation comment_login: challenge_store comment_pending
  "\<lambda>now wallet rnd st. createCommentChallenge now rnd st wallet ttl" "comment_attempt env"
  for ttl :: jsnum and env :: sol_env
proof
  fix now wallet rnd j cred and st :: CommentAuthState
  show "comment_pending (createCommentChallenge now rnd st wallet ttl) j =
      (if j = wallet then Some rnd else comment_pending st j)"
    by (simp add: comment_pending_def createCommentChallenge_def)
  obtain r st' where v: "verifyCommentSignature env now st wallet (fst cred) (snd cred) = (r, st')"
    by force
  from verifyCommentSignature_cases [OF v]
  show "comment_pending (snd (comment_attempt env now wallet cred st)) j \<in> {None, comment_pending st j}"
    by (auto simp: comment_attempt_def v comment_pending_def split: if_splits)
  show "comment_pending (snd (comment_attempt env now wallet cred st)) wallet = None" if "fst (comment_attempt env now wallet cred st)"
    using verifyCommentSignature_cases [OF v] that
    by (auto simp: comment_attempt_def v comment_pending_def split: if_splits)
  show "comment_pending st wallet \<noteq> None" if "fst (comment_attempt env now wallet cred st)"
    using verifyCommentSignature_cases [OF v] that
    by (auto simp: comment_attempt_def v comment_pending_def split: if_splits)
qed

end
