(* ===== verification/ResolveHash.thy ===== *)
theory ResolveHash
  imports Receipts
begin

section \<open>The hash of a resolution (core/src/resolve\_hash.ts, core/src/resolve\_schema.ts)\<close>

text \<open>
  What a resolver signs is the base64 of the BLAKE3 hash of a canonical JSON text. The canonical
  form is that of receipts (\<open>stableStringify\<close>, of which the file has its own copy).
\<close>

definition computeResolveResultHash :: "receipt_env \<Rightarrow> (bytes \<Rightarrow> bytes) \<Rightarrow> string \<Rightarrow> string \<Rightarrow> json list \<Rightarrow> string" where
  "computeResolveResultHash env blake3 name network records =
     re_base64 env (blake3 (utf8_bytes (stableStringify env
       (JObj [(''name'', JStr name), (''network'', JStr network), (''records'', JArr records)]))))"

definition is_str :: "json option \<Rightarrow> bool" where
  "is_str v = (case v of Some (JStr _) \<Rightarrow> True | _ \<Rightarrow> False)"

definition is_object :: "json option \<Rightarrow> bool" where
  "is_object v = (case v of Some (JObj _) \<Rightarrow> True | Some (JArr _) \<Rightarrow> True | _ \<Rightarrow> False)"

definition isResolveResponse :: "json \<Rightarrow> bool" where
  "isResolveResponse v =
     (if \<not> is_object (Some v) then False
      else if \<not> is_str (jprop v ''name'') \<or> \<not> is_str (jprop v ''network'') then False
      else case jprop v ''records'' of
        Some (JArr records) \<Rightarrow>
          if records = [] then False
          else if \<not> list_ex (\<lambda>r. jtruthy (Some r) \<and> is_str (jprop r ''type'') \<and> is_str (jprop r ''value'')) records
          then False
          else is_object (jprop v ''metadata'')
      | _ \<Rightarrow> False)"

text \<open>The hash does not see the order in which a resolver lists the properties of a record.\<close>

lemma computeResolveResultHash_order:
  assumes "locale_laws (re_locale env)" "list_all2 same_value rs rs'"
  shows "computeResolveResultHash env blake3 name network rs = computeResolveResultHash env blake3 name network rs'"
proof -
  have "same_value (JArr rs) (JArr rs')" using assms(2) by (rule same_value.arr)
  from stableStringify_same_value [OF assms(1) this]
  show ?thesis by (simp add: computeResolveResultHash_def)
qed

end
