(* ===== verification/CoordState.thy ===== *)
theory CoordState
  imports Comments Challenges ResolveHash Merkle
begin

section \<open>The coordinator's state (coordinator/src/server.ts)\<close>

text \<open>
  The module variables of the server as one record, its environment variables as another, and what
  lies outside it as a third. A handler takes the time, the parsed request and the state; it answers
  \<open>Done\<close> with a value, \<open>Deny\<close> with status and error code, or \<open>Crash\<close> when an exception leaves
  it, and returns the state. Requests have the field types the code declares; absent fields are
  \<open>None\<close> or the empty string, which the code treats alike.
\<close>

datatype 'a reply = Done 'a | Deny nat string | Crash js_error

record CoordConfig =
  cf_sessionTtlMs :: jsnum
  cf_authChain :: string
  cf_receipts :: ReceiptConfig
  cf_passportEnabled :: bool
  cf_passportRpc :: string
  cf_passportContract :: string
  cf_passportTokenType :: string
  cf_dailyCreditCap :: jsnum
  cf_comments :: CommentConfig
  cf_commentsSiteToken :: string
  cf_commentsAuthTtlMs :: jsnum
  cf_poolDailyCap :: jsnum
  cf_poolForfeitSplit :: jsnum
  cf_bonusDailyCap :: jsnum
  cf_adminToken :: string
  cf_governanceTimelockMs :: jsnum
  cf_publicLedgerEnabled :: bool

record coord_env =
  ce_receipts :: receipts_env
  ce_sol :: sol_env
  ce_registry_env :: registry_env
  ce_evm_recover :: "string \<Rightarrow> string \<Rightarrow> string option"
  ce_balanceOf :: "int \<Rightarrow> string \<Rightarrow> bool res"
  ce_snapshot :: "int \<Rightarrow> RegistrySnapshot option"

record Session =
  se_nodeId :: string
  se_evmAddress :: "string option"
  se_expiresAt :: jsnum

record SiteReceipt =
  sr_ts :: int
  sr_type :: string
  sr_payload :: json

record GovernanceItem =
  gi_id :: string
  gi_action :: string
  gi_payload :: json
  gi_executeAfter :: jsnum

record Coord =
  co_credits :: CreditsState
  co_sessions :: "string \<rightharpoonup> Session"
  co_authChallenges :: "string \<rightharpoonup> LoginChallenge"
  co_authBindings :: "string \<rightharpoonup> string \<times> int"
  co_passportCache :: "string \<rightharpoonup> bool \<times> int"
  co_creditWindows :: "string \<rightharpoonup> DayWindow"
  co_comments :: CommentState
  co_commentAuth :: CommentAuthState
  co_sitePools :: "string \<rightharpoonup> jsnum"
  co_poolWindows :: "string \<rightharpoonup> DayWindow"
  co_bonusWindows :: "string \<rightharpoonup> DayWindow"
  co_nodeVerifications :: "string \<rightharpoonup> string \<times> int"
  co_treasury :: jsnum
  co_treasuryPolicy :: "json option"
  co_nodeRegistryLoadedAt :: int
  co_allocations :: "(int \<times> (string \<times> jsnum) list) list"
  co_governanceQueue :: "GovernanceItem list"
  co_siteReceipts :: "string \<rightharpoonup> SiteReceipt list"

subsection \<open>Daily caps\<close>

definition applyDailyCap :: "CoordConfig \<Rightarrow> int \<Rightarrow> string \<Rightarrow> jsnum \<Rightarrow> Coord \<Rightarrow> bool \<times> Coord" where
  "applyDailyCap cfg now wallet delta st =
     (let (ok, ws) = window_step (cf_dailyCreditCap cfg) now wallet delta (co_creditWindows st)
      in (ok, st\<lparr>co_creditWindows := ws\<rparr>))"

definition applyPoolCap :: "CoordConfig \<Rightarrow> int \<Rightarrow> string \<Rightarrow> jsnum \<Rightarrow> Coord \<Rightarrow> bool \<times> Coord" where
  "applyPoolCap cfg now siteId delta st =
     (let (ok, ws) = window_step (cf_poolDailyCap cfg) now siteId delta (co_poolWindows st)
      in (ok, st\<lparr>co_poolWindows := ws\<rparr>))"

definition applyBonusCap :: "CoordConfig \<Rightarrow> int \<Rightarrow> string \<Rightarrow> jsnum \<Rightarrow> Coord \<Rightarrow> bool \<times> Coord" where
  "applyBonusCap cfg now wallet delta st =
     (let (ok, ws) = window_step (cf_bonusDailyCap cfg) now wallet delta (co_bonusWindows st)
      in (ok, st\<lparr>co_bonusWindows := ws\<rparr>))"

definition creditDelta :: "CoordConfig \<Rightarrow> json option \<Rightarrow> jsnum" where
  "creditDelta cfg type =
     (if type = Some (JStr ''SERVE'') then rc_serveCredits (cf_receipts cfg)
      else if type = Some (JStr ''VERIFY'') then rc_verifyCredits (cf_receipts cfg)
      else if type = Some (JStr ''STORE'') then rc_storeCredits (cf_receipts cfg) else Fin 0)"

subsection \<open>Wallet formats\<close>

definition isEvmAddress :: "string \<Rightarrow> bool" where
  "isEvmAddress v \<longleftrightarrow> length v = 42 \<and> starts_with v ''0x'' \<and> list_all (\<lambda>c. hex_value c \<noteq> None) (drop 2 v)"

definition isSolPubkey :: "coord_env \<Rightarrow> string \<Rightarrow> bool" where
  "isSolPubkey env v = (case so_bs58 (ce_sol env) v of None \<Rightarrow> False | Some d \<Rightarrow> length d = 32)"

datatype chain = Evm | Solana

definition inferChain :: "coord_env \<Rightarrow> CoordConfig \<Rightarrow> string \<Rightarrow> chain option" where
  "inferChain env cfg v =
     (if cf_authChain cfg = ''evm'' then Some Evm
      else if cf_authChain cfg = ''solana'' then Some Solana
      else if isEvmAddress v then Some Evm
      else if isSolPubkey env v then Some Solana
      else None)"

definition walletAllowedForChain :: "coord_env \<Rightarrow> CoordConfig \<Rightarrow> string \<Rightarrow> bool" where
  "walletAllowedForChain env cfg wallet =
     (if cf_authChain cfg = ''auto'' then isEvmAddress wallet \<or> isSolPubkey env wallet
      else if cf_authChain cfg = ''evm'' then isEvmAddress wallet
      else if cf_authChain cfg = ''solana'' then isSolPubkey env wallet
      else False)"

subsection \<open>Registered node keys\<close>

text \<open>A value of the registry as a string; an object prints as such.\<close>

definition entry_text :: "RegistryEntry \<Rightarrow> string" where
  "entry_text r = (case re_value r of StringValue s \<Rightarrow> s | KeyValue _ _ \<Rightarrow> ''[object Object]'')"

definition find_type :: "string \<Rightarrow> RegistryEntry list \<Rightarrow> RegistryEntry option" where
  "find_type ty rs = find (\<lambda>r. upper (re_type r) = ty) rs"

definition strip_ed25519 :: "string \<Rightarrow> string" where
  "strip_ed25519 v = (if starts_with v ''ed25519:'' then drop (length ''ed25519:'') v else v)"

definition normalizeNodePubkey :: "coord_env \<Rightarrow> string \<Rightarrow> string option" where
  "normalizeNodePubkey env v =
     (let cleaned = strip_ed25519 v in
      if length (so_unbase64 (ce_sol env) cleaned) \<noteq> 32 then None else Some cleaned)"

definition node_keys :: "coord_env \<Rightarrow> RegistryRecord list \<Rightarrow> string list" where
  "node_keys env records = concat (map (\<lambda>entry.
     (case find_type ''NODE_PUBKEY'' (reg_records entry) of
        None \<Rightarrow> []
      | Some r \<Rightarrow> if entry_text r = [] then []
          else (case normalizeNodePubkey env (entry_text r) of None \<Rightarrow> [] | Some k \<Rightarrow> if k = [] then [] else [k]))) records)"

definition refreshNodePubkeys :: "coord_env \<Rightarrow> int \<Rightarrow> bool \<Rightarrow> Coord \<Rightarrow> Coord" where
  "refreshNodePubkeys env now force st =
     (if \<not> force \<and> now - co_nodeRegistryLoadedAt st < 60000 then st
      else st\<lparr>co_nodeRegistryLoadedAt := now,
             co_credits := (co_credits st)\<lparr>cs_nodePubkeys :=
               (case ce_snapshot env now of None \<Rightarrow> {} | Some s \<Rightarrow> set (node_keys env (snap_records s)))\<rparr>\<rparr>)"

definition getRegistryNodePubkey :: "coord_env \<Rightarrow> int \<Rightarrow> string \<Rightarrow> string option" where
  "getRegistryNodePubkey env now nodeName =
     (case ce_snapshot env now of
        None \<Rightarrow> None
      | Some s \<Rightarrow>
          let normalized = normalizeRegistryName (ce_registry_env env) nodeName in
          (case find (\<lambda>r. normalizeRegistryName (ce_registry_env env) (reg_name r) = normalized) (snap_records s) of
             None \<Rightarrow> None
           | Some entry \<Rightarrow>
               (case find_type ''NODE_PUBKEY'' (reg_records entry) of
                  None \<Rightarrow> None
                | Some r \<Rightarrow> if entry_text r = [] then None else Some (entry_text r))))"

definition matchesRegistryPubkey :: "coord_env \<Rightarrow> string \<Rightarrow> string \<Rightarrow> bool" where
  "matchesRegistryPubkey env receiptPubkey registryPubkey =
     (case (normalizeNodePubkey env receiptPubkey, normalizeNodePubkey env registryPubkey) of
        (Some a, Some b) \<Rightarrow> a \<noteq> [] \<and> b \<noteq> [] \<and> a = b
      | _ \<Rightarrow> False)"

definition verifyNodeReceiptSignature :: "coord_env \<Rightarrow> json \<Rightarrow> string \<Rightarrow> string \<Rightarrow> bool res" where
  "verifyNodeReceiptSignature env receipt signatureB64 nodePubkey =
     so_nacl_verify (ce_sol env)
       (utf8_bytes (''node_receipt'' @ [CHR 0x0A] @ stableStringify (rx_env (ce_receipts env)) receipt))
       (so_unbase64 (ce_sol env) signatureB64)
       (so_unbase64 (ce_sol env) (strip_ed25519 nodePubkey))"

section \<open>Properties\<close>

subsection \<open>The three caps are daily caps\<close>

lemma applyDailyCap_frame: "snd (applyDailyCap cfg now w d st) = st\<lparr>co_creditWindows := co_creditWindows (snd (applyDailyCap cfg now w d st))\<rparr>"
  by (simp add: applyDailyCap_def split: prod.splits)

lemma applyPoolCap_frame: "snd (applyPoolCap cfg now w d st) = st\<lparr>co_poolWindows := co_poolWindows (snd (applyPoolCap cfg now w d st))\<rparr>"
  by (simp add: applyPoolCap_def split: prod.splits)

lemma applyBonusCap_frame: "snd (applyBonusCap cfg now w d st) = st\<lparr>co_bonusWindows := co_bonusWindows (snd (applyBonusCap cfg now w d st))\<rparr>"
  by (simp add: applyBonusCap_def split: prod.splits)

text \<open>A cap on windows kept in a component of a larger state.\<close>

lemma creditDelta_amount: "creditDelta cfg t = receipt_amount (cf_receipts cfg) t"
  by (cases "(cf_receipts cfg, t)" rule: receipt_amount.cases) (auto simp: creditDelta_def)

end
