(* ===== verification/CoordHandlers.thy ===== *)
theory CoordHandlers
  imports CoordState
begin

section \<open>Handlers of credits, receipts and comments (coordinator/src/server.ts)\<close>

definition admin_authorized :: "CoordConfig \<Rightarrow> string option \<Rightarrow> bool" where
  "admin_authorized cfg token \<longleftrightarrow> cf_adminToken cfg \<noteq> [] \<and> token = Some (cf_adminToken cfg)"

definition site_authorized :: "CoordConfig \<Rightarrow> string option \<Rightarrow> bool" where
  "site_authorized cfg token \<longleftrightarrow> cf_commentsSiteToken cfg \<noteq> [] \<and> token = Some (cf_commentsSiteToken cfg)"

subsection \<open>Credits and receipts\<close>

definition get_credits :: "coord_env \<Rightarrow> CoordConfig \<Rightarrow> string \<Rightarrow> Coord \<Rightarrow> jsnum reply" where
  "get_credits env cfg wallet st =
     (if wallet = [] then Deny 400 ''missing_wallet''
      else if \<not> walletAllowedForChain env cfg wallet then Deny 400 ''invalid_wallet_format''
      else Done (getBalance (co_credits st) wallet))"

definition live_session :: "int \<Rightarrow> Coord \<Rightarrow> string option \<Rightarrow> Session option" where
  "live_session now st token =
     (case token of
        None \<Rightarrow> None
      | Some t \<Rightarrow> if t = [] then None
          else (case co_sessions st t of
             None \<Rightarrow> None
           | Some s \<Rightarrow> if nlt (se_expiresAt s) (jint now) then None else Some s))"

definition spend_handler :: "int \<Rightarrow> string option \<Rightarrow> jsnum option \<Rightarrow> Coord \<Rightarrow> jsnum reply \<times> Coord" where
  "spend_handler now token amount_opt st =
     (case live_session now st token of
        None \<Rightarrow> (Deny 401 ''not_authenticated'', st)
      | Some session \<Rightarrow>
          let wallet = se_nodeId session; amount = num_field amount_opt (Fin 0) in
          if \<not> ntruthy amount \<or> nle amount (Fin 0) then (Deny 400 ''invalid_amount'', st)
          else (case spendCredits (co_credits st) wallet amount of
             (Some err, cs) \<Rightarrow> (Deny 400 err, st\<lparr>co_credits := cs\<rparr>)
           | (None, cs) \<Rightarrow> (Done (getBalance cs wallet), st\<lparr>co_credits := cs\<rparr>)))"

text \<open>\<open>now\<close> is the clock up to the verification of the signature, \<open>now'\<close> after it.\<close>

definition receipts_handler ::
  "coord_env \<Rightarrow> CoordConfig \<Rightarrow> int \<Rightarrow> int \<Rightarrow> ReceiptEnvelope \<Rightarrow> Coord \<Rightarrow> jsnum reply \<times> Coord" where
  "receipts_handler env cfg now now' e st0 =
     (if \<not> jtruthy (jprop (en_receipt e) ''node_id'') then (Deny 400 ''missing_node_id'', st0)
      else let nodeId = receipt_node e;
               st = refreshNodePubkeys env now False st0;
               before = getBalance (co_credits st) nodeId;
               receiptId = receiptIdFromEnvelope (ce_receipts env) e in
      case applyReceipt (ce_receipts env) now now' (co_credits st) e (cf_receipts cfg) of
        (Inl ex, cs) \<Rightarrow> (Crash ex, st\<lparr>co_credits := cs\<rparr>)
      | (Inr (Some err), cs) \<Rightarrow> (Deny 400 err, st\<lparr>co_credits := cs\<rparr>)
      | (Inr None, cs) \<Rightarrow>
          (let delta = creditDelta cfg (jprop (en_receipt e) ''type'');
               (ok, st2) = applyDailyCap cfg now' nodeId delta (st\<lparr>co_credits := cs\<rparr>)
           in if \<not> ok
              then (Deny 400 ''credit_cap_exceeded'',
                    st2\<lparr>co_credits := (co_credits st2)\<lparr>
                      cs_credits := (cs_credits (co_credits st2))(nodeId \<mapsto> before),
                      cs_receipts := (cs_receipts (co_credits st2))(receiptId := None)\<rparr>\<rparr>)
              else (Done (getBalance (co_credits st2) nodeId), st2)))"

subsection \<open>Comment logins\<close>

definition comment_challenge_handler :: "coord_env \<Rightarrow> CoordConfig \<Rightarrow> int \<Rightarrow> string \<Rightarrow> string \<Rightarrow> Coord \<Rightarrow> string reply \<times> Coord" where
  "comment_challenge_handler env cfg now rnd wallet st =
     (if wallet = [] then (Deny 400 ''missing_wallet'', st)
      else if \<not> isSolPubkey env wallet then (Deny 400 ''invalid_wallet_format'', st)
      else (Done rnd, st\<lparr>co_commentAuth :=
              createCommentChallenge now rnd (co_commentAuth st) wallet (cf_commentsAuthTtlMs cfg)\<rparr>))"

definition comment_verify_handler ::
  "coord_env \<Rightarrow> int \<Rightarrow> string \<Rightarrow> string \<Rightarrow> string option \<Rightarrow> Coord \<Rightarrow> unit reply \<times> Coord" where
  "comment_verify_handler env now wallet signature challenge st =
     (if wallet = [] \<or> signature = [] then (Deny 400 ''missing_fields'', st)
      else if \<not> isSolPubkey env wallet then (Deny 400 ''invalid_wallet_format'', st)
      else case verifyCommentSignature (ce_sol env) now (co_commentAuth st) wallet signature challenge of
        (Inl ex, ca) \<Rightarrow> (Crash ex, st\<lparr>co_commentAuth := ca\<rparr>)
      | (Inr False, ca) \<Rightarrow> (Deny 403 ''invalid_signature'', st\<lparr>co_commentAuth := ca\<rparr>)
      | (Inr True, ca) \<Rightarrow> (Done (), st\<lparr>co_commentAuth := ca\<rparr>))"

subsection \<open>Comment tickets\<close>

definition hold_handler ::
  "coord_env \<Rightarrow> CoordConfig \<Rightarrow> int \<Rightarrow> string \<Rightarrow> string option \<Rightarrow> HoldRequest \<Rightarrow> Coord \<Rightarrow> (string \<times> jsnum) reply \<times> Coord" where
  "hold_handler env cfg now rnd token p st =
     (if \<not> site_authorized cfg token then (Deny 403 ''unauthorized'', st)
      else if (case hr_wallet p of None \<Rightarrow> False | Some w \<Rightarrow> w \<noteq> [] \<and> \<not> walletAllowedForChain env cfg w)
        then (Deny 400 ''invalid_wallet_format'', st)
      else case createHold now rnd (co_credits st) (co_comments st) p (cf_comments cfg) of
        (Inl err, cs, cm) \<Rightarrow> (Deny 400 err, st\<lparr>co_credits := cs, co_comments := cm\<rparr>)
      | (Inr r, cs, cm) \<Rightarrow> (Done r, st\<lparr>co_credits := cs, co_comments := cm\<rparr>))"

definition submit_handler ::
  "CoordConfig \<Rightarrow> int \<Rightarrow> string option \<Rightarrow> string option \<Rightarrow> string option \<Rightarrow> Coord \<Rightarrow> unit reply \<times> Coord" where
  "submit_handler cfg now token ticket hash_opt st =
     (if \<not> site_authorized cfg token then (Deny 403 ''unauthorized'', st)
      else case submitHold now (co_comments st) ticket hash_opt of
        (Some err, cm) \<Rightarrow> (Deny 400 err, st\<lparr>co_comments := cm\<rparr>)
      | (None, cm) \<Rightarrow> (Done (), st\<lparr>co_comments := cm\<rparr>))"

text \<open>The bonus of an approved comment, paid by the site's pool if the pool can. The test is on the
  result as sent, while \<open>finalizeHold\<close> has trimmed it.\<close>

definition settle_bonus ::
  "CoordConfig \<Rightarrow> int \<Rightarrow> string \<Rightarrow> CommentHold \<Rightarrow> FinalizeRequest \<Rightarrow> Coord \<Rightarrow> bool \<times> Coord" where
  "settle_bonus cfg now wallet hold p st =
     (if fr_result p \<noteq> Some ''approved'' then (True, st)
      else let multiplier = nmin (num_field (fr_bonus_multiplier p) (Fin 1)) (cc_bonusMax (cf_comments cfg));
               bonus = (if nlt (Fin 1) multiplier then nmul (ho_amount hold) (nsub multiplier (Fin 1)) else Fin 0) in
      if \<not> nlt (Fin 0) bonus then (True, st)
      else case applyBonusCap cfg now wallet bonus st of
        (False, st1) \<Rightarrow> (False, st1)
      | (True, st1) \<Rightarrow>
          (let site = ho_site_id hold; pool = credit_of (co_sitePools st1) site in
           if nle bonus pool then
             (True, st1\<lparr>co_sitePools := (co_sitePools st1)(site \<mapsto> nsub pool bonus),
                        co_credits := (co_credits st1)\<lparr>cs_credits := (cs_credits (co_credits st1))
                          (wallet \<mapsto> nadd (getBalance (co_credits st1) wallet) bonus)\<rparr>\<rparr>)
           else (True, st1)))"

definition settle_forfeit :: "CoordConfig \<Rightarrow> CommentHold \<Rightarrow> FinalizeRequest \<Rightarrow> Coord \<Rightarrow> Coord" where
  "settle_forfeit cfg hold p st =
     (if fr_result p = Some ''spam'' \<or> fr_result p = Some ''trash'' then
        let split = (if is_finite (cf_poolForfeitSplit cfg) then cf_poolForfeitSplit cfg else Fin (1 / 2));
            poolShare = nmul (ho_amount hold) (nmax (Fin 0) (nmin split (Fin 1)));
            treasuryShare = nsub (ho_amount hold) poolShare;
            site = ho_site_id hold;
            poolBalance = credit_of (co_sitePools st) site
        in st\<lparr>co_sitePools := (co_sitePools st)(site \<mapsto> nadd poolBalance poolShare),
              co_treasury := nadd (co_treasury st) treasuryShare\<rparr>
      else st)"

definition push_receipt :: "string \<Rightarrow> SiteReceipt \<Rightarrow> Coord \<Rightarrow> Coord" where
  "push_receipt site r st =
     (let entries = (case co_siteReceipts st site of None \<Rightarrow> [] | Some es \<Rightarrow> es)
      in st\<lparr>co_siteReceipts := (co_siteReceipts st)(site \<mapsto> take 200 (r # entries))\<rparr>)"

definition finalize_handler ::
  "CoordConfig \<Rightarrow> int \<Rightarrow> string option \<Rightarrow> FinalizeRequest \<Rightarrow> Coord \<Rightarrow> (string \<times> jsnum \<times> CommentHold) reply \<times> Coord" where
  "finalize_handler cfg now token p st =
     (if \<not> site_authorized cfg token then (Deny 403 ''unauthorized'', st)
      else case finalizeHold now (co_credits st) (co_comments st) p of
        (Inl err, cs, cm) \<Rightarrow> (Deny 400 err, st\<lparr>co_credits := cs, co_comments := cm\<rparr>)
      | (Inr (wallet, bal, hold0), cs, cm) \<Rightarrow>
          let hold = (case fr_site_id p of None \<Rightarrow> hold0
                      | Some s \<Rightarrow> if s = [] then hold0 else hold0\<lparr>ho_site_id := s\<rparr>);
              st1 = st\<lparr>co_credits := cs,
                co_comments := cm\<lparr>cm_holds := (cm_holds cm)(text_field (fr_ticket_id p) \<mapsto> hold)\<rparr>\<rparr> in
          (case settle_bonus cfg now wallet hold p st1 of
             (False, st2) \<Rightarrow> (Deny 400 ''bonus_cap_exceeded'', st2)
           | (True, st2) \<Rightarrow>
               (let st3 = settle_forfeit cfg hold p st2;
                    payload = JObj ([(''ticket_id'', JStr (ho_ticket_id hold))] @
                      opt_field ''result'' (map_option JStr (fr_result p)) @
                      [(''amount'', JNum (ho_amount hold)), (''wallet'', JStr (ho_wallet hold))])
                in (Done (wallet, bal, hold),
                    push_receipt (ho_site_id hold)
                      \<lparr>sr_ts = now, sr_type = ''comment_finalized'', sr_payload = payload\<rparr> st3))))"

definition get_site_pool :: "CoordConfig \<Rightarrow> string option \<Rightarrow> string \<Rightarrow> Coord \<Rightarrow> jsnum reply" where
  "get_site_pool cfg token siteId st =
     (if \<not> site_authorized cfg token then Deny 403 ''unauthorized''
      else if siteId = [] then Deny 400 ''missing_site_id''
      else Done (credit_of (co_sitePools st) siteId))"

end
