(* ===== verification/CoordNode.thy ===== *)
theory CoordNode
  imports CoordHandlers
begin

section \<open>Handlers of nodes, treasury and governance (coordinator/src/server.ts)\<close>

subsection \<open>Verified nodes report their work\<close>

record NodeVerifyRequest =
  nv_entry :: "RegistryRecord option"
  nv_proof :: "MerkleProof option"
  nv_root :: string
  nv_site_id :: string
  nv_authority_sig :: string
  nv_result_hash :: string

definition entry_value_json :: "entry_value \<Rightarrow> json" where
  "entry_value_json v = (case v of StringValue s \<Rightarrow> JStr s | KeyValue k x \<Rightarrow> JObj [(''key'', JStr k), (''value'', JStr x)])"

definition raw_entry_json :: "RegistryEntry \<Rightarrow> json" where
  "raw_entry_json r = JObj ([(''type'', JStr (re_type r)), (''value'', entry_value_json (re_value r))] @
     opt_field ''ttl'' (map_option JNum (re_ttl r)))"

text \<open>An owner record that disagrees with the entry's owner.\<close>

definition owner_mismatch :: "RegistryRecord \<Rightarrow> bool" where
  "owner_mismatch entry =
     (case reg_owner entry of
        None \<Rightarrow> False
      | Some ow \<Rightarrow> if ow = [] then False
          else (case find_type ''OWNER'' (reg_records entry) of
             None \<Rightarrow> False
           | Some r \<Rightarrow> (case re_value r of StringValue s \<Rightarrow> s \<noteq> [] \<and> s \<noteq> ow | KeyValue _ _ \<Rightarrow> True)))"

definition node_verify_handler ::
  "coord_env \<Rightarrow> CoordConfig \<Rightarrow> int \<Rightarrow> string \<Rightarrow> string option \<Rightarrow> NodeVerifyRequest \<Rightarrow> Coord \<Rightarrow> string reply \<times> Coord" where
  "node_verify_handler env cfg now rnd token q st =
     (if \<not> site_authorized cfg token then (Deny 403 ''unauthorized'', st)
      else case (nv_entry q, nv_proof q) of
        (Some entry, Some prf) \<Rightarrow>
          if nv_root q = [] \<or> nv_site_id q = [] then (Deny 400 ''missing_fields'', st)
          else if owner_mismatch entry then (Deny 400 ''owner_mismatch'', st)
          else let ok = (case hashLeaf (ce_registry_env env) entry of
                 Inl _ \<Rightarrow> False | Inr leaf \<Rightarrow> verifyProof (ce_registry_env env) (nv_root q) leaf prf) in
          if \<not> ok then (Deny 400 ''invalid_proof'', st)
          else let key = (case rc_resolverPubkeyHex (cf_receipts cfg) of None \<Rightarrow> [] | Some k \<Rightarrow> k);
                   verified = (Done rnd, st\<lparr>co_nodeVerifications :=
                     (co_nodeVerifications st)(rnd \<mapsto> (nv_site_id q, now + 600000))\<rparr>) in
          if key = [] then verified
          else if nv_authority_sig q = [] \<or> nv_result_hash q = [] then (Deny 400 ''authority_sig_required'', st)
          else let renv = rx_env (ce_receipts env);
                   expectedHash = computeResolveResultHash renv (env_blake3 (ce_registry_env env)) (reg_name entry)
                     ''dns'' (map raw_entry_json (reg_records entry)) in
          if nv_result_hash q \<noteq> expectedHash then (Deny 400 ''result_hash_mismatch'', st)
          else (case verifyEd25519Message renv key (''resolve'' @ [CHR 0x0A] @ nv_result_hash q) (nv_authority_sig q) of
             Inl ex \<Rightarrow> (Crash ex, st)
           | Inr ok' \<Rightarrow> if \<not> ok' then (Deny 400 ''authority_sig_invalid'', st) else verified)
      | _ \<Rightarrow> (Deny 400 ''missing_fields'', st))"

text \<open>A string property of a receipt; a value that is no string makes the string operations throw.\<close>

definition str_prop :: "json \<Rightarrow> string \<Rightarrow> string res" where
  "str_prop r k = (case jprop r k of Some (JStr s) \<Rightarrow> Inr s | _ \<Rightarrow> Inl TypeError)"

definition receipt_verification :: "json \<Rightarrow> Coord \<Rightarrow> (string \<times> int) option" where
  "receipt_verification r st =
     (case jprop r ''verification_id'' of
        Some (JStr s) \<Rightarrow> co_nodeVerifications st s
      | v \<Rightarrow> if jtruthy v then None else co_nodeVerifications st [])"

definition node_receipts_handler ::
  "coord_env \<Rightarrow> CoordConfig \<Rightarrow> int \<Rightarrow> string option \<Rightarrow> json \<Rightarrow> string \<Rightarrow> string \<Rightarrow> Coord \<Rightarrow> jsnum reply \<times> Coord" where
  "node_receipts_handler env cfg now token receipt signature siteId st =
     (if \<not> site_authorized cfg token then (Deny 403 ''unauthorized'', st)
      else if \<not> jtruthy (Some receipt) \<or> signature = [] \<or> siteId = [] then (Deny 400 ''missing_fields'', st)
      else if \<not> jtruthy (jprop receipt ''node_name'') \<or> \<not> jtruthy (jprop receipt ''node_pubkey'')
        then (Deny 400 ''missing_node_identity'', st)
      else if (case receipt_verification receipt st of
                 None \<Rightarrow> True | Some (site, expires) \<Rightarrow> expires < now \<or> site \<noteq> siteId)
        then (Deny 400 ''verification_required'', st)
      else case rbind (str_prop receipt ''node_name'') (\<lambda>name.
          case getRegistryNodePubkey env now name of
            None \<Rightarrow> Inr None
          | Some reg \<Rightarrow> rbind (str_prop receipt ''node_pubkey'') (\<lambda>pub.
              Inr (if matchesRegistryPubkey env pub reg then Some pub else None))) of
        Inl ex \<Rightarrow> (Crash ex, st)
      | Inr None \<Rightarrow> (Deny 400 ''node_pubkey_mismatch'', st)
      | Inr (Some pub) \<Rightarrow>
          (case verifyNodeReceiptSignature env receipt signature pub of
             Inl ex \<Rightarrow> (Crash ex, st)
           | Inr False \<Rightarrow> (Deny 400 ''invalid_signature'', st)
           | Inr True \<Rightarrow>
               (case applyPoolCap cfg now siteId (Fin 1) st of
                  (False, st1) \<Rightarrow> (Deny 400 ''pool_cap_exceeded'', st1)
                | (True, st1) \<Rightarrow>
                    (let pool = credit_of (co_sitePools st1) siteId;
                         st2 = st1\<lparr>co_sitePools := (co_sitePools st1)(siteId \<mapsto> nadd pool (Fin 1))\<rparr>
                     in (Done (credit_of (co_sitePools st2) siteId),
                         push_receipt siteId \<lparr>sr_ts = now, sr_type = ''node_receipt'', sr_payload = receipt\<rparr> st2)))))"

definition get_site_receipts :: "CoordConfig \<Rightarrow> string option \<Rightarrow> string \<Rightarrow> Coord \<Rightarrow> SiteReceipt list reply" where
  "get_site_receipts cfg token siteId st =
     (if \<not> site_authorized cfg token then Deny 403 ''unauthorized''
      else if siteId = [] then Deny 400 ''missing_site_id''
      else Done (case co_siteReceipts st siteId of None \<Rightarrow> [] | Some es \<Rightarrow> es))"

subsection \<open>Treasury\<close>

record Bucket =
  bk_name :: string
  bk_fraction :: jsnum

text \<open>\<open>Number(v)\<close> of a parsed value is the argument \<open>num\<close>: it reads numeric strings.\<close>

definition present :: "json option \<Rightarrow> bool" where
  "present v \<longleftrightarrow> v \<noteq> None \<and> v \<noteq> Some JNull"

definition bucket_name :: "(rat \<Rightarrow> string) \<Rightarrow> json \<Rightarrow> string" where
  "bucket_name numstr bucket =
     (case jprop bucket ''name'' of
        None \<Rightarrow> []
      | Some v \<Rightarrow> if jtruthy (Some v) then trim (js_to_string numstr v) else [])"

definition parse_bucket :: "(rat \<Rightarrow> string) \<Rightarrow> (json \<Rightarrow> jsnum) \<Rightarrow> json \<Rightarrow> string + Bucket" where
  "parse_bucket numstr num bucket =
     (let name = bucket_name numstr bucket;
          percent = jprop bucket ''percent''; fraction = jprop bucket ''fraction'' in
      if name = [] then Inl ''bucket_name_required''
      else if present percent \<and> present fraction then Inl ''bucket_percent_and_fraction''
      else if \<not> present percent \<and> \<not> present fraction then Inl ''bucket_missing_percent''
      else if present percent then
        (let p = num (the percent) in
         if \<not> is_finite p \<or> nlt p (Fin 0) \<or> nlt (Fin 100) p then Inl ''bucket_percent_invalid''
         else Inr \<lparr>bk_name = name, bk_fraction = nmul p (Fin (1 / 100))\<rparr>)
      else
        (let f = num (the fraction) in
         if \<not> is_finite f \<or> nlt f (Fin 0) \<or> nlt (Fin 1) f then Inl ''bucket_fraction_invalid''
         else Inr \<lparr>bk_name = name, bk_fraction = f\<rparr>))"

fun parse_buckets :: "(rat \<Rightarrow> string) \<Rightarrow> (json \<Rightarrow> jsnum) \<Rightarrow> json list \<Rightarrow> jsnum \<Rightarrow> string + jsnum \<times> Bucket list" where
  "parse_buckets numstr num [] tot = Inr (tot, [])"
| "parse_buckets numstr num (b # bs) tot =
     (case parse_bucket numstr num b of
        Inl err \<Rightarrow> Inl err
      | Inr bk \<Rightarrow> (case parse_buckets numstr num bs (nadd tot (bk_fraction bk)) of
          Inl err \<Rightarrow> Inl err | Inr (t, bks) \<Rightarrow> Inr (t, bk # bks)))"

definition validateTreasuryPolicy :: "(rat \<Rightarrow> string) \<Rightarrow> (json \<Rightarrow> jsnum) \<Rightarrow> json option \<Rightarrow> string + Bucket list" where
  "validateTreasuryPolicy numstr num policy =
     (case (case policy of None \<Rightarrow> None | Some p \<Rightarrow> jprop p ''buckets'') of
        Some (JArr bs) \<Rightarrow>
          (case parse_buckets numstr num bs (Fin 0) of
             Inl err \<Rightarrow> Inl err
           | Inr (tot, buckets) \<Rightarrow>
               if nlt (Fin (10001 / 10000)) tot then Inl ''bucket_total_exceeds_100'' else Inr buckets)
      | _ \<Rightarrow> Inl ''policy_missing'')"

text \<open>An object written key by key: a repeated name keeps its place and takes the last value.\<close>

definition allocation_table :: "jsnum \<Rightarrow> Bucket list \<Rightarrow> (string \<times> jsnum) list" where
  "allocation_table funds buckets =
     fold (\<lambda>b t. AList.update (bk_name b) (nfloor (nmul funds (bk_fraction b))) t) buckets []"

definition allocate_handler ::
  "coord_env \<Rightarrow> (json \<Rightarrow> jsnum) \<Rightarrow> CoordConfig \<Rightarrow> int \<Rightarrow> string option \<Rightarrow> Coord \<Rightarrow> (string \<times> jsnum) list reply \<times> Coord" where
  "allocate_handler env num cfg now token st =
     (if \<not> admin_authorized cfg token then (Deny 403 ''unauthorized'', st)
      else case validateTreasuryPolicy (re_numstr (rx_env (ce_receipts env))) num (co_treasuryPolicy st) of
        Inl err \<Rightarrow> (Deny 400 err, st)
      | Inr buckets \<Rightarrow>
          (let allocations = allocation_table (co_treasury st) buckets
           in (Done allocations, st\<lparr>co_allocations := co_allocations st @ [(now, allocations)]\<rparr>)))"

subsection \<open>Governance and audits\<close>

definition governance_handler ::
  "CoordConfig \<Rightarrow> int \<Rightarrow> string \<Rightarrow> string option \<Rightarrow> string \<Rightarrow> json \<Rightarrow> Coord \<Rightarrow> (string \<times> jsnum) reply \<times> Coord" where
  "governance_handler cfg now rnd token action payload st =
     (if \<not> admin_authorized cfg token then (Deny 403 ''unauthorized'', st)
      else if action = [] then (Deny 400 ''missing_action'', st)
      else let executeAfter = nadd (jint now) (cf_governanceTimelockMs cfg)
           in (Done (rnd, executeAfter), st\<lparr>co_governanceQueue := co_governanceQueue st @
                [\<lparr>gi_id = rnd, gi_action = action,
                  gi_payload = (if jtruthy (Some payload) then payload else JObj []),
                  gi_executeAfter = executeAfter\<rparr>]\<rparr>))"

definition audit_challenge_handler ::
  "CoordConfig \<Rightarrow> int \<Rightarrow> string \<Rightarrow> string option \<Rightarrow> string \<Rightarrow> string \<Rightarrow> Coord \<Rightarrow> string reply \<times> Coord" where
  "audit_challenge_handler cfg now uuid token wallet chunkHash st =
     (if \<not> admin_authorized cfg token then (Deny 403 ''unauthorized'', st)
      else if wallet = [] \<or> chunkHash = [] then (Deny 400 ''missing_fields'', st)
      else (Done uuid, st\<lparr>co_credits := createChallenge now uuid (co_credits st) wallet chunkHash 300000\<rparr>))"

end
