(* ===== verification/CoordAuth.thy ===== *)
theory CoordAuth
  imports CoordState
begin

section \<open>Sessions of the coordinator (coordinator/src/server.ts)\<close>

text \<open>
  A wallet asks for a challenge and signs it; the session token it gets back authorizes spending.
  A Solana wallet must be on the allow list or be bound to an EVM address, which, when passports are
  enabled, must own one.
\<close>

definition login_message :: "string \<Rightarrow> string" where
  "login_message challenge = ''login'' @ [CHR 0x0A] @ challenge"

fun chain_name :: "chain \<Rightarrow> string" where
  "chain_name Evm = ''evm''"
| "chain_name Solana = ''solana''"

definition chain_mismatch :: "CoordConfig \<Rightarrow> chain \<Rightarrow> bool" where
  "chain_mismatch cfg c \<longleftrightarrow> cf_authChain cfg \<noteq> ''auto'' \<and> chain_name c \<noteq> cf_authChain cfg"

definition auth_challenge_handler ::
  "coord_env \<Rightarrow> CoordConfig \<Rightarrow> int \<Rightarrow> string \<Rightarrow> string \<Rightarrow> Coord \<Rightarrow> string reply \<times> Coord" where
  "auth_challenge_handler env cfg now rnd wallet st =
     (if wallet = [] then (Deny 400 ''missing_wallet'', st)
      else case inferChain env cfg wallet of
        None \<Rightarrow> (Deny 400 ''invalid_wallet_format'', st)
      | Some c \<Rightarrow>
          if chain_mismatch cfg c then (Deny 400 ''auth_chain_mismatch'', st)
          else (Done rnd, st\<lparr>co_authChallenges := (co_authChallenges st)(wallet \<mapsto>
                 \<lparr>lc_wallet = wallet, lc_challenge = rnd, lc_expiresAt = nadd (jint now) (cf_sessionTtlMs cfg)\<rparr>)\<rparr>))"

definition decodeBase64OrBase58 :: "coord_env \<Rightarrow> string \<Rightarrow> bytes" where
  "decodeBase64OrBase58 env input =
     (case so_bs58 (ce_sol env) input of Some b \<Rightarrow> b | None \<Rightarrow> so_unbase64 (ce_sol env) input)"

definition verifySolSignature :: "coord_env \<Rightarrow> string \<Rightarrow> string \<Rightarrow> string \<Rightarrow> bool res" where
  "verifySolSignature env pubkey message signature =
     (case so_bs58 (ce_sol env) pubkey of
        None \<Rightarrow> throw ''Non-base58 character''
      | Some pubBytes \<Rightarrow>
          so_nacl_verify (ce_sol env) (utf8_bytes message) (decodeBase64OrBase58 env signature) pubBytes)"

definition verifyEvmSignature :: "coord_env \<Rightarrow> string \<Rightarrow> string \<Rightarrow> string \<Rightarrow> bool" where
  "verifyEvmSignature env address message signature =
     (case ce_evm_recover env message signature of
        None \<Rightarrow> False
      | Some recovered \<Rightarrow> lower recovered = lower address)"

definition validatePassportEnv :: "CoordConfig \<Rightarrow> unit res" where
  "validatePassportEnv cfg =
     (if \<not> cf_passportEnabled cfg then Inr ()
      else if cf_passportRpc cfg = [] \<or> cf_passportContract cfg = [] then throw ''passport_env_missing''
      else if \<not> isEvmAddress (cf_passportContract cfg) then throw ''passport_contract_invalid''
      else Inr ())"

definition passportOwns :: "coord_env \<Rightarrow> CoordConfig \<Rightarrow> int \<Rightarrow> string \<Rightarrow> Coord \<Rightarrow> bool res \<times> Coord" where
  "passportOwns env cfg now wallet st =
     (if \<not> cf_passportEnabled cfg then (Inr True, st)
      else case validatePassportEnv cfg of
        Inl ex \<Rightarrow> (Inl ex, st)
      | Inr _ \<Rightarrow>
          if \<not> isEvmAddress wallet then (Inr False, st)
          else if cf_passportTokenType cfg \<noteq> ''erc721'' then (throw ''unsupported_token_type'', st)
          else let fetch = (case ce_balanceOf env now wallet of
                 Inl ex \<Rightarrow> (Inl ex, st)
               | Inr ok \<Rightarrow> (Inr ok, st\<lparr>co_passportCache := (co_passportCache st)(wallet \<mapsto> (ok, now + 90000))\<rparr>))
               in (case co_passportCache st wallet of
                     Some (ok, expires) \<Rightarrow> if expires > now then (Inr ok, st) else fetch
                   | None \<Rightarrow> fetch))"

record AuthRequest =
  ar_wallet :: string
  ar_signature :: string
  ar_evm_address :: string
  ar_evm_signature :: string

definition open_session ::
  "CoordConfig \<Rightarrow> int \<Rightarrow> string \<Rightarrow> string \<Rightarrow> string option \<Rightarrow> Coord \<Rightarrow> (string \<times> jsnum) reply \<times> Coord" where
  "open_session cfg now token wallet evm st =
     (let expires = nadd (jint now) (cf_sessionTtlMs cfg)
      in (Done (token, expires),
          st\<lparr>co_authChallenges := (co_authChallenges st)(wallet := None),
             co_sessions := (co_sessions st)(token \<mapsto>
               \<lparr>se_nodeId = wallet, se_evmAddress = evm, se_expiresAt = expires\<rparr>)\<rparr>))"

definition require_passport ::
  "coord_env \<Rightarrow> CoordConfig \<Rightarrow> int \<Rightarrow> string \<Rightarrow> Coord \<Rightarrow> ((string \<times> jsnum) reply) option \<times> Coord" where
  "require_passport env cfg now address st =
     (if \<not> cf_passportEnabled cfg then (None, st)
      else case passportOwns env cfg now address st of
        (Inl ex, st1) \<Rightarrow> (Some (Crash ex), st1)
      | (Inr owns, st1) \<Rightarrow> (if owns then None else Some (Deny 403 ''passport_required''), st1))"

text \<open>The handler after the challenge has been looked up, for each chain.\<close>

definition auth_evm ::
  "coord_env \<Rightarrow> CoordConfig \<Rightarrow> int \<Rightarrow> string \<Rightarrow> AuthRequest \<Rightarrow> string \<Rightarrow> Coord \<Rightarrow> (string \<times> jsnum) reply \<times> Coord" where
  "auth_evm env cfg now token q msg st =
     (let evmAddress = ar_wallet q in
      if \<not> verifyEvmSignature env evmAddress msg (ar_signature q) then (Deny 403 ''invalid_signature'', st)
      else case require_passport env cfg now evmAddress st of
        (Some r, st1) \<Rightarrow> (r, st1)
      | (None, st1) \<Rightarrow> open_session cfg now token evmAddress (Some evmAddress) st1)"

definition auth_solana ::
  "coord_env \<Rightarrow> CoordConfig \<Rightarrow> int \<Rightarrow> string \<Rightarrow> AuthRequest \<Rightarrow> string \<Rightarrow> Coord \<Rightarrow> (string \<times> jsnum) reply \<times> Coord" where
  "auth_solana env cfg now token q msg st =
     (let solPubkey = ar_wallet q; evmAddress = ar_evm_address q in
      case verifySolSignature env solPubkey msg (ar_signature q) of
        Inl ex \<Rightarrow> (Crash ex, st)
      | Inr solOk \<Rightarrow>
          if \<not> solOk then (Deny 403 ''invalid_signature'', st)
          else if cf_passportEnabled cfg \<or> evmAddress \<noteq> [] then
            (if evmAddress = [] \<or> ar_evm_signature q = [] then (Deny 400 ''missing_evm_binding'', st)
             else if \<not> isEvmAddress evmAddress then (Deny 400 ''invalid_evm_address'', st)
             else if \<not> verifyEvmSignature env evmAddress msg (ar_evm_signature q)
               then (Deny 403 ''invalid_evm_signature'', st)
             else let st1 = st\<lparr>co_authBindings := (co_authBindings st)(solPubkey \<mapsto> (evmAddress, now))\<rparr> in
               (case require_passport env cfg now evmAddress st1 of
                  (Some r, st2) \<Rightarrow> (r, st2)
                | (None, st2) \<Rightarrow> open_session cfg now token solPubkey (Some evmAddress) st2))
          else if solPubkey \<notin> cs_passports (co_credits st) then (Deny 403 ''passport_required'', st)
          else open_session cfg now token solPubkey None st)"

definition auth_verify_handler ::
  "coord_env \<Rightarrow> CoordConfig \<Rightarrow> int \<Rightarrow> string \<Rightarrow> AuthRequest \<Rightarrow> Coord \<Rightarrow> (string \<times> jsnum) reply \<times> Coord" where
  "auth_verify_handler env cfg now token q st =
     (if ar_wallet q = [] \<or> ar_signature q = [] then (Deny 400 ''missing_fields'', st)
      else case inferChain env cfg (ar_wallet q) of
        None \<Rightarrow> (Deny 400 ''invalid_wallet_format'', st)
      | Some c \<Rightarrow>
          if chain_mismatch cfg c then (Deny 400 ''auth_chain_mismatch'', st)
          else (case co_authChallenges st (ar_wallet q) of
            None \<Rightarrow> (Deny 400 ''challenge_expired'', st)
          | Some challenge \<Rightarrow>
              if nlt (lc_expiresAt challenge) (jint now) then (Deny 400 ''challenge_expired'', st)
              else let msg = login_message (lc_challenge challenge) in
              (case c of Evm \<Rightarrow> auth_evm env cfg now token q msg st
               | Solana \<Rightarrow> auth_solana env cfg now token q msg st)))"

section \<open>Properties of sessions\<close>

text \<open>What a signature by a wallet over a challenge is, on either chain.\<close>

definition signed_login :: "coord_env \<Rightarrow> CoordConfig \<Rightarrow> string \<Rightarrow> string \<Rightarrow> string \<Rightarrow> bool" where
  "signed_login env cfg wallet challenge signature \<longleftrightarrow>
     (let msg = login_message challenge in
      case inferChain env cfg wallet of
        None \<Rightarrow> False
      | Some Evm \<Rightarrow> verifyEvmSignature env wallet msg signature
      | Some Solana \<Rightarrow> verifySolSignature env wallet msg signature = Inr True)"

lemma passportOwns_frame:
  "snd (passportOwns env cfg now w st) = st\<lparr>co_passportCache := co_passportCache (snd (passportOwns env cfg now w st))\<rparr>"
  by (auto simp: passportOwns_def Let_def split: sum.splits option.splits)

lemma require_passport_frame:
  assumes "require_passport env cfg now w st = (r, st')"
  shows "st' = st\<lparr>co_passportCache := co_passportCache st'\<rparr> \<and> r \<noteq> Some (Done x)"
proof -
  obtain o1 st1 where p: "passportOwns env cfg now w st = (o1, st1)" by force
  then have "st1 = st\<lparr>co_passportCache := co_passportCache st1\<rparr>" using passportOwns_frame [of env cfg now w st] by simp
  with assms p show ?thesis unfolding require_passport_def
    by (auto split: if_splits sum.splits)
qed

text \<open>A login touches nothing but the four components of the sessions.\<close>

definition auth_frame :: "Coord \<Rightarrow> Coord \<Rightarrow> bool" where
  "auth_frame st st' \<longleftrightarrow> st' = st\<lparr>co_sessions := co_sessions st', co_authChallenges := co_authChallenges st',
     co_authBindings := co_authBindings st', co_passportCache := co_passportCache st'\<rparr>"

text \<open>The two outcomes of a login: a session for the wallet and the challenge gone, or neither.\<close>

definition session_opened :: "CoordConfig \<Rightarrow> int \<Rightarrow> string \<Rightarrow> string \<Rightarrow> Coord \<Rightarrow> (string \<times> jsnum) reply \<Rightarrow> Coord \<Rightarrow> bool" where
  "session_opened cfg now token wallet st r st' \<longleftrightarrow>
     r = Done (token, nadd (jint now) (cf_sessionTtlMs cfg)) \<and>
     (\<exists>evm. co_sessions st' = (co_sessions st)(token \<mapsto> \<lparr>se_nodeId = wallet, se_evmAddress = evm,
        se_expiresAt = nadd (jint now) (cf_sessionTtlMs cfg)\<rparr>)) \<and>
     co_authChallenges st' = (co_authChallenges st)(wallet := None) \<and> auth_frame st st'"

definition session_refused :: "Coord \<Rightarrow> 'a reply \<Rightarrow> Coord \<Rightarrow> bool" where
  "session_refused st r st' \<longleftrightarrow> (\<forall>x. r \<noteq> Done x) \<and> co_sessions st' = co_sessions st \<and>
     co_authChallenges st' = co_authChallenges st \<and> auth_frame st st'"

lemma passport_then_open:
  assumes "(case require_passport env cfg now w st of (Some r, s) \<Rightarrow> (r, s)
      | (None, s) \<Rightarrow> open_session cfg now token wallet evm s) = (r, st')"
  shows "session_opened cfg now token wallet st r st' \<or> session_refused st r st'"
proof (cases "require_passport env cfg now w st")
  case (Pair o1 s)
  from require_passport_frame [OF this] obtain c where s: "s = st\<lparr>co_passportCache := c\<rparr>" "\<And>x. o1 \<noteq> Some (Done x)"
    by metis
  show ?thesis
  proof (cases o1)
    case None
    with assms Pair s show ?thesis by (auto simp: session_opened_def open_session_def auth_frame_def Let_def)
  next
    case (Some r1)
    with assms Pair s show ?thesis by (auto simp: session_refused_def auth_frame_def)
  qed
qed

lemma auth_evm_cases:
  assumes "auth_evm env cfg now token q msg st = (r, st')"
  shows "session_opened cfg now token (ar_wallet q) st r st' \<and> verifyEvmSignature env (ar_wallet q) msg (ar_signature q)
    \<or> session_refused st r st'"
proof (cases "verifyEvmSignature env (ar_wallet q) msg (ar_signature q)")
  case True
  with assms show ?thesis using passport_then_open unfolding auth_evm_def Let_def by fastforce
qed (use assms in \<open>auto simp: auth_evm_def session_refused_def auth_frame_def\<close>)

lemma auth_solana_cases:
  assumes "auth_solana env cfg now token q msg st = (r, st')"
  shows "session_opened cfg now token (ar_wallet q) st r st' \<and> verifySolSignature env (ar_wallet q) msg (ar_signature q) = Inr True
    \<or> session_refused st r st'"
proof (cases "verifySolSignature env (ar_wallet q) msg (ar_signature q) = Inr True")
  case True
  let ?b = "st\<lparr>co_authBindings := (co_authBindings st)(ar_wallet q \<mapsto> (ar_evm_address q, now))\<rparr>"
  have bound: "session_opened cfg now token w ?b r st' = session_opened cfg now token w st r st'"
    "session_refused ?b r st' = session_refused st r st'" for w
    by (simp_all add: session_opened_def session_refused_def auth_frame_def)
  show ?thesis
  proof (cases "(case require_passport env cfg now (ar_evm_address q) ?b of (Some r, s) \<Rightarrow> (r, s)
      | (None, s) \<Rightarrow> open_session cfg now token (ar_wallet q) (Some (ar_evm_address q)) s) = (r, st')")
    case step: True
    from passport_then_open [OF step] True show ?thesis by (simp add: bound)
  next
    case False
    with assms True show ?thesis
      by (auto simp: auth_solana_def Let_def session_refused_def session_opened_def open_session_def auth_frame_def split: if_splits)
  qed
next
  case False
  with assms show ?thesis by (auto simp: auth_solana_def Let_def session_refused_def auth_frame_def split: sum.splits)
qed

lemma auth_verify_cases:
  assumes "auth_verify_handler env cfg now token q st = (r, st')"
  shows "(\<exists>challenge. session_opened cfg now token (ar_wallet q) st r st' \<and>
      co_authChallenges st (ar_wallet q) = Some challenge \<and> \<not> nlt (lc_expiresAt challenge) (jint now) \<and>
      signed_login env cfg (ar_wallet q) (lc_challenge challenge) (ar_signature q)) \<or>
    session_refused st r st'"
proof (cases "\<exists>c ch. ar_wallet q \<noteq> [] \<and> ar_signature q \<noteq> [] \<and> inferChain env cfg (ar_wallet q) = Some c \<and>
    \<not> chain_mismatch cfg c \<and> co_authChallenges st (ar_wallet q) = Some ch \<and> \<not> nlt (lc_expiresAt ch) (jint now)")
  case True
  then obtain c ch where A: "ar_wallet q \<noteq> []" "ar_signature q \<noteq> []" "inferChain env cfg (ar_wallet q) = Some c"
    "\<not> chain_mismatch cfg c" "co_authChallenges st (ar_wallet q) = Some ch" "\<not> nlt (lc_expiresAt ch) (jint now)" by blast
  let ?msg = "login_message (lc_challenge ch)"
  have eq: "(case c of Evm \<Rightarrow> auth_evm env cfg now token q ?msg st | Solana \<Rightarrow> auth_solana env cfg now token q ?msg st) = (r, st')"
    using assms A by (simp add: auth_verify_handler_def Let_def)
  show ?thesis
  proof (cases c)
    case Evm
    with eq auth_evm_cases [of env cfg now token q ?msg st r st'] A(3,5,6)
    show ?thesis by (auto simp: signed_login_def)
  next
    case Solana
    with eq auth_solana_cases [of env cfg now token q ?msg st r st'] A(3,5,6)
    show ?thesis by (auto simp: signed_login_def)
  qed
next
  case False
  then have "(\<exists>e. r = Deny 400 e) \<and> st' = st" using assms
    unfolding auth_verify_handler_def by (auto split: if_splits option.splits)
  then show ?thesis by (auto simp: session_refused_def auth_frame_def)
qed

subsection \<open>Logins satisfy the challenge contract\<close>

definition login_pending :: "Coord \<Rightarrow> string \<Rightarrow> string option" where
  "login_pending st wallet = map_option lc_challenge (co_authChallenges st wallet)"

text \<open>A challenge issued for a wallet; the handler does this once the format is accepted.\<close>

definition issue_login :: "CoordConfig \<Rightarrow> int \<Rightarrow> string \<Rightarrow> string \<Rightarrow> Coord \<Rightarrow> Coord" where
  "issue_login cfg now wallet rnd st = st\<lparr>co_authChallenges := (co_authChallenges st)(wallet \<mapsto>
     \<lparr>lc_wallet = wallet, lc_challenge = rnd, lc_expiresAt = nadd (jint now) (cf_sessionTtlMs cfg)\<rparr>)\<rparr>"

lemma auth_challenge_issue:
  "auth_challenge_handler env cfg now rnd wallet st = (Done x, st') \<Longrightarrow> st' = issue_login cfg now wallet rnd st \<and> x = rnd"
  by (auto simp: auth_challenge_handler_def issue_login_def split: if_splits option.splits)

definition login_attempt ::
  "coord_env \<Rightarrow> CoordConfig \<Rightarrow> int \<Rightarrow> string \<Rightarrow> string \<times> AuthRequest \<Rightarrow> Coord \<Rightarrow> bool \<times> Coord" where
  "login_attempt env cfg now wallet cred st =
     (case auth_verify_handler env cfg now (fst cred) ((snd cred)\<lparr>ar_wallet := wallet\<rparr>) st of
        (r, st') \<Rightarrow> (case r of Done _ \<Rightarrow> True | _ \<Rightarrow> False, st'))"

interpretation coord_login: challenge_store login_pending "issue_login cfg" "login_attempt env cfg"
  for env :: coord_env and cfg :: CoordConfig
proof
  fix now wallet rnd j cred and st :: Coord
  show "login_pending (issue_login cfg now wallet rnd st) j = (if j = wallet then Some rnd else login_pending st j)"
    by (simp add: login_pending_def issue_login_def)
  obtain r st' where v: "auth_verify_handler env cfg now (fst cred) ((snd cred)\<lparr>ar_wallet := wallet\<rparr>) st = (r, st')"
    by force
  from auth_verify_cases [OF v]
  show "login_pending (snd (login_attempt env cfg now wallet cred st)) j \<in> {None, login_pending st j}"
    by (auto simp: login_attempt_def v login_pending_def session_opened_def session_refused_def split: reply.splits)
  show "login_pending (snd (login_attempt env cfg now wallet cred st)) wallet = None"
    if "fst (login_attempt env cfg now wallet cred st)"
    using auth_verify_cases [OF v] that
    by (auto simp: login_attempt_def v login_pending_def session_opened_def session_refused_def split: reply.splits)
  show "login_pending st wallet \<noteq> None" if "fst (login_attempt env cfg now wallet cred st)"
    using auth_verify_cases [OF v] that
    by (auto simp: login_attempt_def v login_pending_def session_refused_def split: reply.splits)
qed

subsection \<open>The allow list is skipped for wallets that name an EVM address\<close>

lemma auth_solana_bound:
  assumes "\<not> cf_passportEnabled cfg" "verifySolSignature env (ar_wallet q) msg (ar_signature q) = Inr True"
    "isEvmAddress (ar_evm_address q)" "ar_evm_signature q \<noteq> []"
    "verifyEvmSignature env (ar_evm_address q) msg (ar_evm_signature q)"
  shows "auth_solana env cfg now token q msg st = open_session cfg now token (ar_wallet q) (Some (ar_evm_address q))
    (st\<lparr>co_authBindings := (co_authBindings st)(ar_wallet q \<mapsto> (ar_evm_address q, now))\<rparr>)"
proof -
  have "ar_evm_address q \<noteq> []" using assms(3) by (auto simp: isEvmAddress_def)
  with assms show ?thesis by (simp add: auth_solana_def Let_def require_passport_def)
qed

subsection \<open>An environment for the instances\<close>

definition toy_coord_env :: coord_env where
  "toy_coord_env = \<lparr>ce_receipts = toy_receipts_env,
     ce_sol = \<lparr>so_bs58 = (\<lambda>s. Some (ascii s)), so_unbase64 = ascii, so_nacl_verify = (\<lambda>m s p. Inr (s = p))\<rparr>,
     ce_registry_env = \<lparr>env_blake3 = (\<lambda>b. b), env_toASCII = (\<lambda>s. s), env_localeCompare = cmp_string,
       env_urlProtocol = (\<lambda>s. Some ''https:''), env_numstr = (\<lambda>q. ''n'')\<rparr>,
     ce_evm_recover = (\<lambda>m s. Some s), ce_balanceOf = (\<lambda>t w. Inr False), ce_snapshot = (\<lambda>t. None)\<rparr>"

definition toy_comment_config :: CommentConfig where
  "toy_comment_config = \<lparr>cc_holdTtlMs = Fin 1000, cc_maxPerMinuteWallet = Fin 12, cc_maxPerMinuteSite = Fin 120,
     cc_bonusMax = Fin 3, cc_walletCooldownMs = Fin 0\<rparr>"

definition toy_coord_config :: CoordConfig where
  "toy_coord_config = \<lparr>cf_sessionTtlMs = Fin 1000, cf_authChain = ''solana'', cf_receipts = toy_config,
     cf_passportEnabled = False, cf_passportRpc = [], cf_passportContract = [], cf_passportTokenType = ''erc721'',
     cf_dailyCreditCap = Fin 100, cf_comments = toy_comment_config, cf_commentsSiteToken = ''tok'',
     cf_commentsAuthTtlMs = Fin 1000, cf_poolDailyCap = Fin 500, cf_poolForfeitSplit = Fin (1 / 2),
     cf_bonusDailyCap = Fin 20, cf_adminToken = ''adm'', cf_governanceTimelockMs = Fin 0,
     cf_publicLedgerEnabled = False\<rparr>"

definition toy_coord :: Coord where
  "toy_coord = \<lparr>co_credits = toy_credits, co_sessions = Map.empty, co_authChallenges = Map.empty,
     co_authBindings = Map.empty, co_passportCache = Map.empty, co_creditWindows = Map.empty,
     co_comments = \<lparr>cm_holds = Map.empty, cm_walletRate = Map.empty, cm_siteRate = Map.empty,
       cm_walletCooldown = Map.empty\<rparr>,
     co_commentAuth = Map.empty, co_sitePools = Map.empty, co_poolWindows = Map.empty,
     co_bonusWindows = Map.empty, co_nodeVerifications = Map.empty, co_treasury = Fin 0,
     co_treasuryPolicy = None, co_nodeRegistryLoadedAt = 0, co_allocations = [], co_governanceQueue = [],
     co_siteReceipts = Map.empty\<rparr>"

definition toy_evm :: string where "toy_evm = ''0x'' @ replicate 40 (CHR ''a'')"

definition toy_login :: AuthRequest where
  "toy_login = \<lparr>ar_wallet = ''wallet'', ar_signature = ''wallet'', ar_evm_address = toy_evm, ar_evm_signature = toy_evm\<rparr>"

definition toy_challenged :: Coord where
  "toy_challenged = issue_login toy_coord_config 0 ''wallet'' ''chal'' toy_coord"

lemma toy_evm_ok: "isEvmAddress toy_evm" "toy_evm \<noteq> []"
  unfolding toy_evm_def by code_simp+

lemma toy_signatures:
  "verifySolSignature toy_coord_env (ar_wallet toy_login) msg (ar_signature toy_login) = Inr True"
  "verifyEvmSignature toy_coord_env (ar_evm_address toy_login) msg (ar_evm_signature toy_login)"
  by (simp_all add: verifySolSignature_def verifyEvmSignature_def decodeBase64OrBase58_def toy_coord_env_def toy_login_def)

section \<open>Claims\<close>



text \<open>Over any sequence of challenges and login attempts, at whatever times and with whatever
  signatures, a wallet logs in at most once for each challenge that was issued for it.\<close>

theorem logins_per_challenge:
  "challenge_store.logins (issue_login cfg) (login_attempt env cfg) wallet calls st \<le>
     length (filter (\<lambda>c. case c of Issue now j ch \<Rightarrow> j = wallet | _ \<Rightarrow> False) calls) +
     (if login_pending st wallet = None then 0 else 1)"
  by (rule coord_login.logins_bound)

text \<open>When passports are disabled, the allow list does not protect the service. A Solana wallet that
  is not on it logs in by naming any EVM address it can sign for; whether that address owns anything
  is not asked.\<close>

theorem auth_allowlist_bypassed:
  assumes "\<not> cf_passportEnabled cfg" "ar_wallet q \<notin> cs_passports (co_credits st)"
    "inferChain env cfg (ar_wallet q) = Some Solana" "\<not> chain_mismatch cfg Solana"
    "ar_wallet q \<noteq> []" "ar_signature q \<noteq> []"
    "co_authChallenges st (ar_wallet q) = Some challenge" "\<not> nlt (lc_expiresAt challenge) (jint now)"
    "verifySolSignature env (ar_wallet q) (login_message (lc_challenge challenge)) (ar_signature q) = Inr True"
    "isEvmAddress (ar_evm_address q)" "ar_evm_signature q \<noteq> []"
    "verifyEvmSignature env (ar_evm_address q) (login_message (lc_challenge challenge)) (ar_evm_signature q)"
  shows "fst (auth_verify_handler env cfg now token q st) = Done (token, nadd (jint now) (cf_sessionTtlMs cfg))"
proof -
  have "auth_verify_handler env cfg now token q st =
      auth_solana env cfg now token q (login_message (lc_challenge challenge)) st"
    using assms by (simp add: auth_verify_handler_def)
  then show ?thesis using auth_solana_bound [OF assms(1,9,10,11,12)] by (simp add: open_session_def Let_def)
qed

theorem auth_allowlist_bypassed_witness:
  "ar_wallet toy_login \<notin> cs_passports (co_credits toy_challenged) \<and>
   fst (auth_verify_handler toy_coord_env toy_coord_config 5 ''t'' toy_login toy_challenged) =
     Done (''t'', nadd (jint 5) (cf_sessionTtlMs toy_coord_config))"
proof -
  let ?ch = "\<lparr>lc_wallet = ''wallet'', lc_challenge = ''chal'', lc_expiresAt = Fin 1000\<rparr>"
  have c: "inferChain toy_coord_env toy_coord_config (ar_wallet toy_login) = Some Solana"
    "\<not> chain_mismatch toy_coord_config Solana" "\<not> cf_passportEnabled toy_coord_config"
    "co_authChallenges toy_challenged (ar_wallet toy_login) = Some ?ch"
    "ar_wallet toy_login \<noteq> []" "ar_signature toy_login \<noteq> []" "\<not> nlt (lc_expiresAt ?ch) (jint 5)"
    "isEvmAddress (ar_evm_address toy_login)" "ar_evm_signature toy_login \<noteq> []"
    using toy_evm_ok
    by (simp_all add: inferChain_def chain_mismatch_def toy_coord_config_def toy_login_def toy_challenged_def issue_login_def)
  have out: "ar_wallet toy_login \<notin> cs_passports (co_credits toy_challenged)"
    by (simp add: toy_login_def toy_challenged_def issue_login_def toy_coord_def toy_credits_def toy_node_def
        numeral_eq_Suc)
  show ?thesis
    using out auth_allowlist_bypassed [OF c(3) out c(1,2,5,6,4,7) toy_signatures(1) c(8,9) toy_signatures(2)]
    by blast
qed

end
