(* ===== verification/CoordRun.thy ===== *)
theory CoordRun
  imports CoordNode CoordAuth
begin

section \<open>The coordinator as a whole\<close>

text \<open>
  Every request that changes state, as one datatype; one step of the server; and the runs of the
  server, which serves one request after the other. The arguments of a request are the clock
  readings and random identifiers of its handler, then the request's own fields.
\<close>

datatype coord_call =
    CallAuthChallenge int string string
  | CallAuthVerify int string AuthRequest
  | CallSpend int "string option" "jsnum option"
  | CallReceipt int int ReceiptEnvelope
  | CallCommentChallenge int string string
  | CallCommentVerify int string string "string option"
  | CallHold int string "string option" HoldRequest
  | CallSubmit int "string option" "string option" "string option"
  | CallFinalize int "string option" FinalizeRequest
  | CallNodeVerify int string "string option" NodeVerifyRequest
  | CallNodeReceipt int "string option" json string string
  | CallAllocate int "string option"
  | CallGovernance int string "string option" string json
  | CallAudit int string "string option" string string

definition is_done :: "'a reply \<Rightarrow> bool" where
  "is_done r = (case r of Done _ \<Rightarrow> True | _ \<Rightarrow> False)"

definition answered :: "'a reply \<times> Coord \<Rightarrow> bool \<times> Coord" where
  "answered p = (is_done (fst p), snd p)"

fun coord_step :: "coord_env \<Rightarrow> (json \<Rightarrow> jsnum) \<Rightarrow> CoordConfig \<Rightarrow> coord_call \<Rightarrow> Coord \<Rightarrow> bool \<times> Coord" where
  "coord_step env num cfg (CallAuthChallenge now rnd w) st = answered (auth_challenge_handler env cfg now rnd w st)"
| "coord_step env num cfg (CallAuthVerify now rnd q) st = answered (auth_verify_handler env cfg now rnd q st)"
| "coord_step env num cfg (CallSpend now tok a) st = answered (spend_handler now tok a st)"
| "coord_step env num cfg (CallReceipt now now' e) st = answered (receipts_handler env cfg now now' e st)"
| "coord_step env num cfg (CallCommentChallenge now rnd w) st = answered (comment_challenge_handler env cfg now rnd w st)"
| "coord_step env num cfg (CallCommentVerify now w sig ch) st = answered (comment_verify_handler env now w sig ch st)"
| "coord_step env num cfg (CallHold now rnd tok p) st = answered (hold_handler env cfg now rnd tok p st)"
| "coord_step env num cfg (CallSubmit now tok t h) st = answered (submit_handler cfg now tok t h st)"
| "coord_step env num cfg (CallFinalize now tok p) st = answered (finalize_handler cfg now tok p st)"
| "coord_step env num cfg (CallNodeVerify now rnd tok q) st = answered (node_verify_handler env cfg now rnd tok q st)"
| "coord_step env num cfg (CallNodeReceipt now tok r sig site) st =
     answered (node_receipts_handler env cfg now tok r sig site st)"
| "coord_step env num cfg (CallAllocate now tok) st = answered (allocate_handler env num cfg now tok st)"
| "coord_step env num cfg (CallGovernance now rnd tok act p) st = answered (governance_handler cfg now rnd tok act p st)"
| "coord_step env num cfg (CallAudit now uuid tok w h) st = answered (audit_challenge_handler cfg now uuid tok w h st)"

fun coord_run :: "coord_env \<Rightarrow> (json \<Rightarrow> jsnum) \<Rightarrow> CoordConfig \<Rightarrow> coord_call list \<Rightarrow> Coord \<Rightarrow> Coord" where
  "coord_run env num cfg [] st = st"
| "coord_run env num cfg (c # cs) st = coord_run env num cfg cs (snd (coord_step env num cfg c st))"

section \<open>The supply of credits\<close>

text \<open>
  All credits in the system: balances, open tickets, site pools and treasury. A request changes the
  supply by exactly what \<open>supply_change\<close> says: receipts of nodes add their amount, spending
  removes its amount, node receipts of sites add one. Besides, and against the intent of the code, a ticket
  that has already been settled brings its amount back when it is submitted or finalized once more,
  and the amount of a rejected ticket is lost when the result has white space around it.
\<close>

definition pools_total :: "Coord \<Rightarrow> rat" where
  "pools_total st = map_total fin_part (co_sitePools st)"

definition credit_supply :: "Coord \<Rightarrow> rat" where
  "credit_supply st = comment_credits (co_credits st) (co_comments st) + pools_total st + fin_part (co_treasury st)"

definition lost_amount :: "FinalizeRequest \<Rightarrow> CommentHold \<Rightarrow> rat" where
  "lost_amount p h =
     (if ho_status h = Approved \<or> fr_result p = Some ''spam'' \<or> fr_result p = Some ''trash'' then 0
      else fin_part (ho_amount h))"

fun supply_change :: "coord_env \<Rightarrow> CoordConfig \<Rightarrow> coord_call \<Rightarrow> bool \<Rightarrow> Coord \<Rightarrow> rat" where
  "supply_change env cfg (CallReceipt now now' e) ok st = (if ok then paid_for (cf_receipts cfg) e else 0)"
| "supply_change env cfg (CallNodeReceipt now tok r sig site) ok st = (if ok then 1 else 0)"
| "supply_change env cfg (CallSpend now tok a) ok st = (if ok then - fin_part (num_field a (Fin 0)) else 0)"
| "supply_change env cfg (CallSubmit now tok t h) ok st = (if ok then settled_amount (co_comments st) (text_field t) else 0)"
| "supply_change env cfg (CallFinalize now tok p) ok st =
     (if \<not> site_authorized cfg tok then 0
      else case fst (finalizeHold now (co_credits st) (co_comments st) p) of
        Inl _ \<Rightarrow> 0
      | Inr (w, b, h) \<Rightarrow> settled_amount (co_comments st) (text_field (fr_ticket_id p)) - lost_amount p h)"
| "supply_change env cfg _ ok st = 0"

text \<open>A new ticket's random identifier is not in use.\<close>

fun fresh_call :: "coord_call \<Rightarrow> Coord \<Rightarrow> bool" where
  "fresh_call (CallHold now rnd tok p) st = (cm_holds (co_comments st) (''hold_'' @ rnd) = None)"
| "fresh_call _ st = True"

fun run_fresh :: "coord_env \<Rightarrow> (json \<Rightarrow> jsnum) \<Rightarrow> CoordConfig \<Rightarrow> coord_call list \<Rightarrow> Coord \<Rightarrow> bool" where
  "run_fresh env num cfg [] st = True"
| "run_fresh env num cfg (c # cs) st = (fresh_call c st \<and> run_fresh env num cfg cs (snd (coord_step env num cfg c st)))"

fun run_change :: "coord_env \<Rightarrow> (json \<Rightarrow> jsnum) \<Rightarrow> CoordConfig \<Rightarrow> coord_call list \<Rightarrow> Coord \<Rightarrow> rat" where
  "run_change env num cfg [] st = 0"
| "run_change env num cfg (c # cs) st =
     (let (ok, st') = coord_step env num cfg c st
      in supply_change env cfg c ok st + run_change env num cfg cs st')"

text \<open>The invariant: every amount is a number that is not negative.\<close>

definition money_ok :: "('k \<rightharpoonup> jsnum) \<Rightarrow> bool" where
  "money_ok m \<longleftrightarrow> finite (dom m) \<and> (\<forall>k v. m k = Some v \<longrightarrow> (\<exists>q. v = Fin q \<and> 0 \<le> q))"

definition coord_inv :: "Coord \<Rightarrow> bool" where
  "coord_inv st \<longleftrightarrow> money_ok (cs_credits (co_credits st)) \<and> comments_inv (co_comments st) \<and>
     money_ok (co_sitePools st) \<and> (\<exists>q. co_treasury st = Fin q \<and> 0 \<le> q)"

lemma credits_fin_money: "credits_fin cs \<longleftrightarrow> money_ok (cs_credits cs)"
  by (auto simp: credits_fin_def credits_inv_def money_ok_def)

lemma credit_of_money: "money_ok m \<Longrightarrow> credit_of m k = Fin (entry_value fin_part m k) \<and> 0 \<le> entry_value fin_part m k"
  unfolding money_ok_def credit_of_def entry_value_def by (cases "m k") force+

lemma money_ok_upd: "money_ok m \<Longrightarrow> 0 \<le> q \<Longrightarrow> money_ok (m(k \<mapsto> Fin q))"
  by (auto simp: money_ok_def)

lemma money_total_upd:
  "money_ok m \<Longrightarrow> map_total fin_part (m(k \<mapsto> Fin q)) = map_total fin_part m - entry_value fin_part m k + q"
  by (simp add: money_ok_def map_total_upd)

text \<open>Supply and invariant depend on four components of the state.\<close>

definition same_money :: "Coord \<Rightarrow> Coord \<Rightarrow> bool" where
  "same_money st st' \<longleftrightarrow> cs_credits (co_credits st') = cs_credits (co_credits st) \<and>
     cm_holds (co_comments st') = cm_holds (co_comments st) \<and> co_sitePools st' = co_sitePools st \<and>
     co_treasury st' = co_treasury st"

lemma supply_alt: "credit_supply st = map_total fin_part (cs_credits (co_credits st)) +
    map_total on_hold (cm_holds (co_comments st)) + map_total fin_part (co_sitePools st) + fin_part (co_treasury st)"
  by (simp add: credit_supply_def comment_credits_def credits_total_def holds_total_def pools_total_def)

lemma coord_inv_alt: "coord_inv st \<longleftrightarrow> money_ok (cs_credits (co_credits st)) \<and>
    (finite (dom (cm_holds (co_comments st))) \<and>
      (\<forall>t h. cm_holds (co_comments st) t = Some h \<longrightarrow> (\<exists>q. ho_amount h = Fin q \<and> 0 < q))) \<and>
    money_ok (co_sitePools st) \<and> (\<exists>q. co_treasury st = Fin q \<and> 0 \<le> q)"
  by (simp add: coord_inv_def comments_inv_def)

lemma same_money_supply: "same_money st st' \<Longrightarrow> credit_supply st' = credit_supply st"
  by (simp add: same_money_def supply_alt)

lemma same_money_inv: "same_money st st' \<Longrightarrow> coord_inv st \<Longrightarrow> coord_inv st'"
  by (simp add: same_money_def coord_inv_alt)

lemma same_money_refl [simp]: "same_money st st"
  by (simp add: same_money_def)

subsection \<open>Requests that move no credits\<close>

lemma auth_challenge_money: "same_money st (snd (auth_challenge_handler env cfg now rnd w st))"
  by (auto simp: auth_challenge_handler_def same_money_def split: option.splits)

lemma auth_verify_money: "same_money st (snd (auth_verify_handler env cfg now rnd q st))"
proof -
  obtain r st' where v: "auth_verify_handler env cfg now rnd q st = (r, st')" by force
  from auth_verify_cases [OF v] have "auth_frame st st'"
    by (auto simp: session_opened_def session_refused_def)
  then obtain a b c d where "st' = st\<lparr>co_sessions := a, co_authChallenges := b, co_authBindings := c,
      co_passportCache := d\<rparr>"
    by (auto simp: auth_frame_def)
  then have "same_money st st'" by (simp add: same_money_def)
  then show ?thesis by (simp add: v)
qed

lemma comment_challenge_money: "same_money st (snd (comment_challenge_handler env cfg now rnd w st))"
  by (auto simp: comment_challenge_handler_def same_money_def)

lemma comment_verify_money: "same_money st (snd (comment_verify_handler env now w sig ch st))"
  by (auto simp: comment_verify_handler_def same_money_def split: prod.splits sum.splits bool.splits)

lemma node_verify_money: "same_money st (snd (node_verify_handler env cfg now rnd tok q st))"
  by (auto simp: node_verify_handler_def same_money_def Let_def split: option.splits sum.splits bool.splits)

lemma allocate_money: "same_money st (snd (allocate_handler env num cfg now tok st))"
  by (auto simp: allocate_handler_def same_money_def Let_def split: sum.splits)

lemma governance_money: "same_money st (snd (governance_handler cfg now rnd tok act p st))"
  by (auto simp: governance_handler_def same_money_def Let_def)

lemma audit_money: "same_money st (snd (audit_challenge_handler cfg now uuid tok w h st))"
  by (auto simp: audit_challenge_handler_def same_money_def createChallenge_def)

lemmas quiet_calls = auth_challenge_money auth_verify_money comment_challenge_money comment_verify_money
  node_verify_money allocate_money governance_money audit_money

subsection \<open>Requests that move credits\<close>

text \<open>\<open>accounts_for st d st'\<close>: the invariant is kept and the supply has changed by \<open>d\<close>.\<close>

definition accounts_for :: "Coord \<Rightarrow> rat \<Rightarrow> Coord \<Rightarrow> bool" where
  "accounts_for st d st' \<longleftrightarrow> coord_inv st' \<and> credit_supply st' = credit_supply st + d"

lemma accounts_same: "coord_inv st \<Longrightarrow> same_money st st' \<Longrightarrow> accounts_for st 0 st'"
  by (simp add: accounts_for_def same_money_inv same_money_supply)

lemma accounts_trans: "accounts_for st d st1 \<Longrightarrow> same_money st1 st2 \<Longrightarrow> accounts_for st d st2"
  by (simp add: accounts_for_def same_money_inv same_money_supply)

lemma spend_accounts:
  assumes "coord_inv st"
  shows "accounts_for st (supply_change env cfg (CallSpend now tok a) (is_done (fst (spend_handler now tok a st))) st)
     (snd (spend_handler now tok a st))"
proof (cases "live_session now st tok")
  case None
  then show ?thesis using assms by (simp add: spend_handler_def is_done_def accounts_same)
next
  case (Some se)
  define amt where "amt = num_field a (Fin 0)"
  have fin: "credits_fin (co_credits st)" using assms by (simp add: coord_inv_def credits_fin_money)
  show ?thesis
  proof (cases "ntruthy amt \<and> \<not> nle amt (Fin 0) \<and> fst (spendCredits (co_credits st) (se_nodeId se) amt) = None")
    case True
    have bal: "credit_of (cs_credits (co_credits st)) (se_nodeId se) = Fin (balance (co_credits st) (se_nodeId se))"
      using getBalance_eq [OF fin] by (simp add: getBalance_def)
    from True obtain q where q: "amt = Fin q" "0 < q" "q \<le> balance (co_credits st) (se_nodeId se)"
      by (cases amt) (auto simp: nle_def spendCredits_def bal split: if_splits)
    define cs where "cs = (co_credits st)\<lparr>cs_credits := (cs_credits (co_credits st))(se_nodeId se \<mapsto> Fin (balance (co_credits st) (se_nodeId se) - q))\<rparr>"
    have step: "spend_handler now tok a st = (Done (getBalance cs (se_nodeId se)), st\<lparr>co_credits := cs\<rparr>)"
      using Some True q by (simp add: spend_handler_def Let_def amt_def [symmetric] spendCredits_def bal cs_def nle_def)
    have "credits_fin cs" unfolding cs_def using fin q by (intro credits_fin_upd) auto
    moreover have "credits_total cs = credits_total (co_credits st) - q"
      using credits_total_upd [OF fin] by (simp add: cs_def credits_total_def)
    ultimately show ?thesis using assms q
      by (simp add: step is_done_def accounts_for_def coord_inv_def credit_supply_def comment_credits_def pools_total_def
          amt_def [symmetric] credits_fin_money)
  next
    case False
    have "\<not> is_done (fst (spend_handler now tok a st)) \<and> snd (spend_handler now tok a st) = st"
    proof -
      obtain err cs where "spendCredits (co_credits st) (se_nodeId se) amt = (err, cs)" by force
      moreover from this have "err \<noteq> None \<Longrightarrow> cs = co_credits st"
        by (auto simp: spendCredits_def Let_def split: if_splits)
      ultimately show ?thesis using Some False
        by (cases err) (auto simp: spend_handler_def is_done_def Let_def amt_def [symmetric])
    qed
    then show ?thesis using assms by (simp add: accounts_same)
  qed
qed

lemma refresh_money: "same_money st (refreshNodePubkeys env now f st) \<and>
    cs_receipts (co_credits (refreshNodePubkeys env now f st)) = cs_receipts (co_credits st)"
  by (simp add: refreshNodePubkeys_def same_money_def)

lemma daily_cap_money: "same_money st (snd (applyDailyCap cfg now w d st)) \<and> co_credits (snd (applyDailyCap cfg now w d st)) = co_credits st"
  by (auto simp: applyDailyCap_def same_money_def split: prod.splits)

lemma coord_inv_credits: "coord_inv st \<Longrightarrow> credits_fin (co_credits st)"
  by (simp add: coord_inv_def credits_fin_money)

text \<open>Replacing the balances changes the supply by what their total changes.\<close>

lemma accounts_credits:
  assumes "coord_inv st" "credits_fin cs"
  shows "accounts_for st (credits_total cs - credits_total (co_credits st)) (st\<lparr>co_credits := cs\<rparr>)"
  using assms by (simp add: accounts_for_def coord_inv_def credit_supply_def comment_credits_def pools_total_def credits_fin_money)

lemma accounts_add: "accounts_for st d st1 \<Longrightarrow> accounts_for st1 e st2 \<Longrightarrow> accounts_for st (d + e) st2"
  by (simp add: accounts_for_def)

lemma accepted_total:
  assumes "applyReceipt env now now' cs e cfg = (r, cs')" "credits_fin cs" "config_ok cfg"
  shows "credits_fin cs' \<and> credits_total cs' = credits_total cs + (if r = Inr None then paid_for cfg e else 0)"
proof -
  have inv: "credits_inv cs" using assms(2) by (simp add: credits_fin_def)
  note bal = balance_nonneg [OF assms(2), of "receipt_node e"]
  show ?thesis
  proof (cases "r = Inr None")
    case True
    with applyReceipt_accepted [OF _ inv assms(3)] assms(1) obtain rate where cs': "cs' = cs\<lparr>cs_rate := rate,
      cs_credits := (cs_credits cs)(receipt_node e \<mapsto> Fin (balance cs (receipt_node e) + paid_for cfg e)),
      cs_receipts := (cs_receipts cs)(receiptIdFromEnvelope env e \<mapsto> e)\<rparr>" by blast
    have "credits_total cs' = credits_total cs + paid_for cfg e"
      using credits_total_upd [OF assms(2), of "receipt_node e" "balance cs (receipt_node e) + paid_for cfg e"]
      by (simp add: cs' credits_total_def)
    moreover have "credits_fin cs'"
      using assms(2) bal config_ok_paid [OF assms(3), of e] unfolding credits_fin_money
      by (simp add: cs' money_ok_upd)
    ultimately show ?thesis using True by simp
  next
    case False
    obtain rate where "cs' = cs\<lparr>cs_rate := rate\<rparr>" using applyReceipt_rejected [OF assms(1) False] by blast
    with False assms(2) show ?thesis by (simp add: credits_fin_money credits_total_def)
  qed
qed

lemma receipts_accounts:
  assumes "coord_inv st" "config_ok (cf_receipts cfg)"
  shows "accounts_for st (supply_change env cfg (CallReceipt now now' e) (is_done (fst (receipts_handler env cfg now now' e st))) st)
     (snd (receipts_handler env cfg now now' e st))"
proof (cases "jtruthy (jprop (en_receipt e) ''node_id'')")
  case False
  then show ?thesis using assms(1) by (simp add: receipts_handler_def is_done_def accounts_same)
next
  case True
  define st1 where "st1 = refreshNodePubkeys env now False st"
  have ref: "same_money st st1" using refresh_money by (simp add: st1_def)
  then have inv1: "coord_inv st1" and acc1: "accounts_for st 0 st1"
    using assms(1) same_money_inv accounts_same by blast+
  have fin: "credits_fin (co_credits st1)" using inv1 by (rule coord_inv_credits)
  obtain r cs where ap: "applyReceipt (ce_receipts env) now now' (co_credits st1) e (cf_receipts cfg) = (r, cs)" by force
  note tot = accepted_total [OF ap fin assms(2)]
  have acc2: "accounts_for st (if r = Inr None then paid_for (cf_receipts cfg) e else 0) (st1\<lparr>co_credits := cs\<rparr>)"
    using accounts_add [OF acc1 accounts_credits [OF inv1, of cs]] tot by simp
  show ?thesis
  proof (cases "r = Inr None")
    case False
    then have "\<not> is_done (fst (receipts_handler env cfg now now' e st)) \<and>
        snd (receipts_handler env cfg now now' e st) = st1\<lparr>co_credits := cs\<rparr>"
      using True ap by (auto simp: receipts_handler_def is_done_def Let_def st1_def split: sum.splits option.splits)
    with acc2 False show ?thesis by simp
  next
    case ok: True
    define delta where "delta = creditDelta cfg (jprop (en_receipt e) ''type'')"
    obtain capped st2 where cap: "applyDailyCap cfg now' (receipt_node e) delta (st1\<lparr>co_credits := cs\<rparr>) = (capped, st2)" by force
    with daily_cap_money [of "st1\<lparr>co_credits := cs\<rparr>" cfg now' "receipt_node e" delta]
    have m2: "same_money (st1\<lparr>co_credits := cs\<rparr>) st2" "co_credits st2 = cs" by simp_all
    have acc3: "accounts_for st (paid_for (cf_receipts cfg) e) st2" using accounts_trans [OF acc2 m2(1)] ok by simp
    show ?thesis
    proof (cases capped)
      case True
      have "receipts_handler env cfg now now' e st = (Done (getBalance cs (receipt_node e)), st2)"
        using \<open>jtruthy _\<close> ap ok cap m2 True by (simp add: receipts_handler_def Let_def st1_def [symmetric] delta_def [symmetric])
      with acc3 show ?thesis by (simp add: is_done_def)
    next
      case False
      define cs3 where "cs3 = cs\<lparr>cs_credits := (cs_credits cs)(receipt_node e \<mapsto> getBalance (co_credits st1) (receipt_node e)),
        cs_receipts := (cs_receipts cs)(receiptIdFromEnvelope (ce_receipts env) e := None)\<rparr>"
      have h: "receipts_handler env cfg now now' e st = (Deny 400 ''credit_cap_exceeded'', st2\<lparr>co_credits := cs3\<rparr>)"
        using \<open>jtruthy _\<close> ap ok cap m2 False
        by (simp add: receipts_handler_def Let_def st1_def [symmetric] delta_def [symmetric] cs3_def)
      have before: "getBalance (co_credits st1) (receipt_node e) = Fin (balance (co_credits st1) (receipt_node e))"
        using getBalance_eq [OF fin] .
      have "balance cs (receipt_node e) = balance (co_credits st1) (receipt_node e) + paid_for (cf_receipts cfg) e"
        using applyReceipt_accepted [OF ap [unfolded ok] _ assms(2)] fin by (auto simp: credits_fin_def)
      then have "credits_total cs3 = credits_total (co_credits st1)"
        using credits_total_upd [of cs "receipt_node e" "balance (co_credits st1) (receipt_node e)"] tot ok
        by (simp add: cs3_def before credits_total_def)
      moreover have "credits_fin cs3"
        using tot balance_nonneg [OF fin] unfolding credits_fin_money by (simp add: cs3_def before money_ok_upd)
      moreover have "coord_inv st2" using acc3 by (simp add: accounts_for_def)
      ultimately have "accounts_for st2 (- paid_for (cf_receipts cfg) e) (st2\<lparr>co_credits := cs3\<rparr>)"
        using accounts_credits [of st2 cs3] m2(2) tot ok by simp
      from accounts_add [OF acc3 this] h show ?thesis by (simp add: is_done_def)
    qed
  qed
qed

text \<open>Replacing balances and tickets together.\<close>

lemma accounts_comments:
  assumes "coord_inv st" "credits_fin cs" "comments_inv cm"
  shows "accounts_for st (comment_credits cs cm - comment_credits (co_credits st) (co_comments st))
    (st\<lparr>co_credits := cs, co_comments := cm\<rparr>)"
  using assms by (simp add: accounts_for_def coord_inv_def credit_supply_def pools_total_def credits_fin_money)

lemma hold_accounts:
  assumes "coord_inv st" "fresh_call (CallHold now rnd tok p) st"
  shows "accounts_for st 0 (snd (hold_handler env cfg now rnd tok p st))"
proof -
  obtain r cs cm where c: "createHold now rnd (co_credits st) (co_comments st) p (cf_comments cfg) = (r, cs, cm)"
    by (metis prod_cases3)
  have inv: "credits_fin (co_credits st)" "comments_inv (co_comments st)"
    using assms(1) coord_inv_credits by (auto simp: coord_inv_def)
  from createHold_conserves [OF c inv] assms(2)
  have "credits_fin cs \<and> comments_inv cm \<and> comment_credits cs cm = comment_credits (co_credits st) (co_comments st)" by simp
  with accounts_comments [OF assms(1), of cs cm] have "accounts_for st 0 (st\<lparr>co_credits := cs, co_comments := cm\<rparr>)" by simp
  moreover have "snd (hold_handler env cfg now rnd tok p st) \<in> {st, st\<lparr>co_credits := cs, co_comments := cm\<rparr>}"
    using c by (simp add: hold_handler_def split: sum.splits)
  ultimately show ?thesis using assms(1) accounts_same by fastforce
qed

lemma submit_accounts:
  assumes "coord_inv st"
  shows "accounts_for st (supply_change env cfg (CallSubmit now tok t h) (is_done (fst (submit_handler cfg now tok t h st))) st)
     (snd (submit_handler cfg now tok t h st))"
proof (cases "site_authorized cfg tok")
  case False
  then show ?thesis using assms by (simp add: submit_handler_def is_done_def accounts_same)
next
  case True
  obtain r cm where s: "submitHold now (co_comments st) t h = (r, cm)" by force
  have inv: "credits_fin (co_credits st)" "comments_inv (co_comments st)"
    using assms coord_inv_credits by (auto simp: coord_inv_def)
  from submitHold_accounts [OF s inv(2)] accounts_comments [OF assms inv(1), of cm]
  have "accounts_for st (if r = None then settled_amount (co_comments st) (text_field t) else 0) (st\<lparr>co_comments := cm\<rparr>)"
    by (simp add: comment_credits_def)
  then show ?thesis using True s by (cases r) (simp_all add: submit_handler_def is_done_def)
qed

lemma accounts_pools:
  assumes "coord_inv st" "money_ok pools"
  shows "accounts_for st (map_total fin_part pools - pools_total st) (st\<lparr>co_sitePools := pools\<rparr>)"
  using assms by (simp add: accounts_for_def coord_inv_def credit_supply_def pools_total_def)

lemma accounts_treasury:
  assumes "coord_inv st" "0 \<le> q"
  shows "accounts_for st (q - fin_part (co_treasury st)) (st\<lparr>co_treasury := Fin q\<rparr>)"
  using assms by (simp add: accounts_for_def coord_inv_def credit_supply_def pools_total_def)

lemma accounts_inv: "accounts_for st d st' \<Longrightarrow> coord_inv st'"
  by (simp add: accounts_for_def)

text \<open>Adding to a pool, and paying from one.\<close>

lemma pool_upd:
  assumes "coord_inv st" "credit_of (co_sitePools st) site = Fin b" "0 \<le> b + d"
  shows "accounts_for st d (st\<lparr>co_sitePools := (co_sitePools st)(site \<mapsto> Fin (b + d))\<rparr>)"
proof -
  have ok: "money_ok (co_sitePools st)" using assms(1) by (simp add: coord_inv_def)
  with assms(2) credit_of_money [OF ok, of site] have "entry_value fin_part (co_sitePools st) site = b" by simp
  with money_total_upd [OF ok, of site "b + d"] accounts_pools [OF assms(1) money_ok_upd [OF ok assms(3), of site]]
  show ?thesis by (simp add: pools_total_def)
qed

lemma pool_balance: "coord_inv st \<Longrightarrow> \<exists>b. credit_of (co_sitePools st) site = Fin b \<and> 0 \<le> b"
  using credit_of_money [of "co_sitePools st" site] by (auto simp: coord_inv_def)

lemma bonus_cap_money: "same_money st (snd (applyBonusCap cfg now w d st))"
  by (auto simp: applyBonusCap_def same_money_def split: prod.splits)

lemma pool_cap_money: "same_money st (snd (applyPoolCap cfg now w d st))"
  by (auto simp: applyPoolCap_def same_money_def split: prod.splits)

lemma push_receipt_money: "same_money st (push_receipt site r st)"
  by (simp add: push_receipt_def same_money_def Let_def)

lemma settle_bonus_accounts:
  assumes "coord_inv st"
  shows "accounts_for st 0 (snd (settle_bonus cfg now w hold p st))"
proof -
  define mult where "mult = nmin (num_field (fr_bonus_multiplier p) (Fin 1)) (cc_bonusMax (cf_comments cfg))"
  define bonus where "bonus = (if nlt (Fin 1) mult then nmul (ho_amount hold) (nsub mult (Fin 1)) else Fin 0)"
  obtain ok st1 where cap: "applyBonusCap cfg now w bonus st = (ok, st1)" by force
  with bonus_cap_money [of st cfg now w bonus] have m1: "same_money st st1" by simp
  then have inv1: "coord_inv st1" and acc1: "accounts_for st 0 st1" using assms same_money_inv accounts_same by blast+
  let ?pool = "credit_of (co_sitePools st1) (ho_site_id hold)"
  obtain b where b: "?pool = Fin b" "0 \<le> b" using pool_balance [OF inv1] by blast
  have fin: "credits_fin (co_credits st1)" using inv1 by (rule coord_inv_credits)
  consider (quiet) "fr_result p \<noteq> Some ''approved'' \<or> \<not> nlt (Fin 0) bonus"
    | (unpaid) "fr_result p = Some ''approved''" "nlt (Fin 0) bonus" "\<not> ok \<or> \<not> nle bonus ?pool"
    | (paid) "fr_result p = Some ''approved''" "ok" "bonus = Fin (fin_part bonus)" "0 < fin_part bonus" "fin_part bonus \<le> b"
    using b by (cases bonus) (auto simp: nle_def not_less less_le)
  then show ?thesis
  proof cases
    case quiet
    then have "snd (settle_bonus cfg now w hold p st) = st"
      by (auto simp: settle_bonus_def Let_def mult_def [symmetric] bonus_def [symmetric])
    then show ?thesis using assms by (simp add: accounts_same)
  next
    case unpaid
    then have "snd (settle_bonus cfg now w hold p st) = st1"
      using cap by (cases ok) (simp_all add: settle_bonus_def Let_def mult_def [symmetric] bonus_def [symmetric])
    then show ?thesis using acc1 by simp
  next
    case paid
    define q where "q = fin_part bonus"
    note paid = paid [folded q_def]
    define st2 where "st2 = st1\<lparr>co_sitePools := (co_sitePools st1)(ho_site_id hold \<mapsto> Fin (b + - q))\<rparr>"
    define cs where "cs = (co_credits st1)\<lparr>cs_credits := (cs_credits (co_credits st1))(w \<mapsto> Fin (balance (co_credits st1) w + q))\<rparr>"
    have acc2: "accounts_for st1 (- q) st2"
      unfolding st2_def using inv1 b paid by (intro pool_upd) auto
    have "credits_fin cs" unfolding cs_def using fin paid balance_nonneg [OF fin, of w] by (intro credits_fin_upd) auto
    moreover have "credits_total cs = credits_total (co_credits st1) + q"
      using credits_total_upd [OF fin] by (simp add: cs_def credits_total_def)
    moreover have "co_credits st2 = co_credits st1" by (simp add: st2_def)
    ultimately have acc3: "accounts_for st2 q (st2\<lparr>co_credits := cs\<rparr>)"
      using accounts_credits [OF accounts_inv [OF acc2], of cs] by simp
    have "snd (settle_bonus cfg now w hold p st) = st2\<lparr>co_credits := cs\<rparr>"
      using paid cap b getBalance_eq [OF fin, of w]
      by (simp add: settle_bonus_def Let_def mult_def [symmetric] bonus_def [symmetric] st2_def cs_def)
    with accounts_add [OF accounts_add [OF acc1 acc2] acc3] show ?thesis by simp
  qed
qed

lemma settle_forfeit_accounts:
  assumes "coord_inv st" "ho_amount hold = Fin q" "0 < q"
  shows "accounts_for st (if fr_result p = Some ''spam'' \<or> fr_result p = Some ''trash'' then q else 0)
     (settle_forfeit cfg hold p st)"
proof (cases "fr_result p = Some ''spam'' \<or> fr_result p = Some ''trash''")
  case False
  then show ?thesis using assms by (simp add: settle_forfeit_def accounts_same)
next
  case True
  have "is_finite (if is_finite (cf_poolForfeitSplit cfg) then cf_poolForfeitSplit cfg else Fin (1 / 2))"
    by simp
  then obtain s where s: "(if is_finite (cf_poolForfeitSplit cfg) then cf_poolForfeitSplit cfg else Fin (1 / 2)) = Fin s"
    unfolding is_finite_iff ..
  define share where "share = q * max 0 (min s 1)"
  have share: "0 \<le> share" "share \<le> q"
    using assms(3) mult_left_mono [of "max 0 (min s 1)" 1 q] by (auto simp: share_def)
  obtain b where b: "credit_of (co_sitePools st) (ho_site_id hold) = Fin b" "0 \<le> b" using pool_balance [OF assms(1)] by blast
  obtain t where t: "co_treasury st = Fin t" "0 \<le> t" using assms(1) by (auto simp: coord_inv_def)
  define st1 where "st1 = st\<lparr>co_sitePools := (co_sitePools st)(ho_site_id hold \<mapsto> Fin (b + share))\<rparr>"
  have acc1: "accounts_for st share st1"
    unfolding st1_def using assms(1) b share by (intro pool_upd) auto
  have acc2: "accounts_for st1 (q - share) (st1\<lparr>co_treasury := Fin (t + (q - share))\<rparr>)"
    using accounts_treasury [OF accounts_inv [OF acc1], of "t + (q - share)"] share t by (simp add: st1_def)
  have "settle_forfeit cfg hold p st = st1\<lparr>co_treasury := Fin (t + (q - share))\<rparr>"
    unfolding settle_forfeit_def Let_def using True b t s
    by (simp add: assms(2) st1_def share_def)
  with accounts_add [OF acc1 acc2] True show ?thesis by simp
qed

lemma trim_results: "trim ''approved'' = ''approved''" "trim ''spam'' = ''spam''" "trim ''trash'' = ''trash''"
  by code_simp+

lemma finalize_accounts:
  assumes "coord_inv st"
  shows "accounts_for st (supply_change env cfg (CallFinalize now tok p) ok st) (snd (finalize_handler cfg now tok p st))"
proof (cases "site_authorized cfg tok")
  case False
  then show ?thesis using assms by (simp add: finalize_handler_def accounts_same)
next
  case auth: True
  have inv: "credits_fin (co_credits st)" "comments_inv (co_comments st)"
    using assms coord_inv_credits by (auto simp: coord_inv_def)
  obtain r cs cm where f: "finalizeHold now (co_credits st) (co_comments st) p = (r, cs, cm)" by (metis prod_cases3)
  show ?thesis
  proof (cases r)
    case (Inl err)
    with f finalizeHold_error have "cs = co_credits st" "cm = co_comments st" by blast+
    with auth Inl f assms show ?thesis by (simp add: finalize_handler_def accounts_same)
  next
    case (Inr x)
    then obtain w b h where x: "r = Inr (w, b, h)" by (cases x) auto
    note acc = finalizeHold_accounts [OF f [unfolded x] inv]
    define t where "t = text_field (fr_ticket_id p)"
    obtain h0 status where h0: "cm_holds (co_comments st) t = Some h0" "h = h0\<lparr>ho_status := status\<rparr>"
      "cm = (co_comments st)\<lparr>cm_holds := (cm_holds (co_comments st))(t \<mapsto> h)\<rparr>"
      "status_of_result (text_field (fr_result p)) = Some status"
      using finalizeHold_ok [OF f [unfolded x]] unfolding t_def by blast
    define hold where "hold = (case fr_site_id p of None \<Rightarrow> h | Some s \<Rightarrow> if s = [] then h else h\<lparr>ho_site_id := s\<rparr>)"
    have hold: "ho_amount hold = ho_amount h" "on_hold hold = on_hold h" "ho_status hold = ho_status h"
      by (auto simp: hold_def on_hold_def hold_open_def split: option.splits)
    obtain q where q: "ho_amount h = Fin q" "0 < q" using acc by auto
    define cm1 where "cm1 = cm\<lparr>cm_holds := (cm_holds cm)(t \<mapsto> hold)\<rparr>"
    have upd: "cm_holds cm1 = (cm_holds cm)(t \<mapsto> hold)" by (simp add: cm1_def)
    have cinv: "comments_inv cm" "credits_fin cs" using acc by auto
    have "cm_holds cm t = Some h" using h0(3) by simp
    with holds_total_upd [OF cinv(1) upd] comments_inv_upd [OF cinv(1) upd, of q] hold q
    have cm1: "holds_total cm1 = holds_total cm" "comments_inv cm1" by (simp_all add: entry_value_def)
    define st1 where "st1 = st\<lparr>co_credits := cs, co_comments := cm1\<rparr>"
    have "comment_credits cs cm1 - comment_credits (co_credits st) (co_comments st) =
        settled_amount (co_comments st) t - (if ho_status h = Approved then 0 else q)"
      using acc q by (simp add: comment_credits_def cm1 t_def [symmetric] split: if_splits)
    with accounts_comments [OF assms cinv(2) cm1(2)]
    have acc1: "accounts_for st (settled_amount (co_comments st) t - (if ho_status h = Approved then 0 else q)) st1"
      by (simp add: st1_def)
    obtain okb st2 where sb: "settle_bonus cfg now w hold p st1 = (okb, st2)" by force
    with settle_bonus_accounts [OF accounts_inv [OF acc1], of cfg now w hold p]
    have acc2: "accounts_for st1 0 st2" by simp
    have step: "finalize_handler cfg now tok p st = (case settle_bonus cfg now w hold p st1 of
             (False, st2) \<Rightarrow> (Deny 400 ''bonus_cap_exceeded'', st2)
           | (True, st2) \<Rightarrow> (Done (w, b, hold), push_receipt (ho_site_id hold)
               \<lparr>sr_ts = now, sr_type = ''comment_finalized'', sr_payload = JObj ([(''ticket_id'', JStr (ho_ticket_id hold))] @
                      opt_field ''result'' (map_option JStr (fr_result p)) @
                      [(''amount'', JNum (ho_amount hold)), (''wallet'', JStr (ho_wallet hold))])\<rparr>
               (settle_forfeit cfg hold p st2)))"
      unfolding finalize_handler_def Let_def st1_def cm1_def hold_def t_def by (simp add: auth f x)
    have change: "supply_change env cfg (CallFinalize now tok p) ok st = settled_amount (co_comments st) t - lost_amount p h"
      using auth f x by (simp add: t_def)
    show ?thesis
    proof (cases "fr_result p = Some ''spam'' \<or> fr_result p = Some ''trash''")
      case rej: True
      then have "status \<noteq> Approved" using h0(4) by (auto simp: text_field_def status_of_result_def trim_results)
      have okb: okb using rej sb by (auto simp: settle_bonus_def)
      with step sb settle_forfeit_accounts [OF accounts_inv [OF acc2], of hold q p cfg] q hold rej
      have acc3: "accounts_for st2 q (settle_forfeit cfg hold p st2)" by simp
      have "accounts_for st (settled_amount (co_comments st) t) (settle_forfeit cfg hold p st2)"
        using accounts_add [OF accounts_add [OF acc1 acc2] acc3] \<open>status \<noteq> Approved\<close> h0(2) by simp
      with accounts_trans [OF this push_receipt_money] okb rej show ?thesis
        unfolding step sb change by (simp add: lost_amount_def)
    next
      case False
      have acc12: "accounts_for st (settled_amount (co_comments st) t - lost_amount p h) st2"
        using accounts_add [OF acc1 acc2] False q by (auto simp: lost_amount_def split: if_splits)
      have "settle_forfeit cfg hold p st2 = st2" using False by (simp add: settle_forfeit_def)
      with accounts_trans [OF acc12 push_receipt_money] acc12 show ?thesis
        unfolding step sb change by (cases okb) simp_all
    qed
  qed
qed

lemma node_receipt_accounts:
  assumes "coord_inv st"
  shows "accounts_for st (supply_change env cfg (CallNodeReceipt now tok r sig site)
       (is_done (fst (node_receipts_handler env cfg now tok r sig site st))) st)
     (snd (node_receipts_handler env cfg now tok r sig site st))"
proof -
  obtain ok st1 where cap: "applyPoolCap cfg now site (Fin 1) st = (ok, st1)" by force
  with pool_cap_money [of st cfg now site "Fin 1"] have m: "same_money st st1" by simp
  then have inv1: "coord_inv st1" and acc1: "accounts_for st 0 st1" using assms same_money_inv accounts_same by blast+
  obtain b where b: "credit_of (co_sitePools st1) site = Fin b" "0 \<le> b" using pool_balance [OF inv1] by blast
  define st2 where "st2 = st1\<lparr>co_sitePools := (co_sitePools st1)(site \<mapsto> Fin (b + 1))\<rparr>"
  have "accounts_for st1 1 st2" unfolding st2_def using inv1 b by (intro pool_upd) auto
  from accounts_trans [OF accounts_add [OF acc1 this] push_receipt_money]
  have acc2: "accounts_for st 1 (push_receipt site r' st2)" for r' by simp
  have "(let h = node_receipts_handler env cfg now tok r sig site st in
      (\<not> is_done (fst h) \<and> (snd h = st \<or> snd h = st1)) \<or>
      (is_done (fst h) \<and> (\<exists>r'. snd h = push_receipt site r' st2)))"
    unfolding node_receipts_handler_def Let_def cap st2_def
    using b by (auto simp: is_done_def cap split: option.splits sum.splits bool.splits prod.splits)
  then show ?thesis using acc1 acc2 assms accounts_same by (fastforce simp: Let_def)
qed

subsection \<open>Every request, and every run\<close>

lemma step_accounts:
  assumes "coord_inv st" "fresh_call c st" "config_ok (cf_receipts cfg)"
  shows "accounts_for st (supply_change env cfg c (fst (coord_step env num cfg c st)) st) (snd (coord_step env num cfg c st))"
proof (cases c)
  case (CallSpend now tok a)
  then show ?thesis using spend_accounts [OF assms(1)] by (simp add: answered_def)
next
  case (CallReceipt now now' e)
  then show ?thesis using receipts_accounts [OF assms(1,3)] by (simp add: answered_def)
next
  case (CallHold now rnd tok p)
  then show ?thesis using hold_accounts [OF assms(1)] assms(2) by (simp add: answered_def)
next
  case (CallSubmit now tok t h)
  then show ?thesis using submit_accounts [OF assms(1)] by (simp add: answered_def)
next
  case (CallFinalize now tok p)
  then show ?thesis using finalize_accounts [OF assms(1)] by (simp add: answered_def del: supply_change.simps)
next
  case (CallNodeReceipt now tok r sig site)
  then show ?thesis using node_receipt_accounts [OF assms(1)] by (simp add: answered_def)
qed (simp_all add: answered_def accounts_same [OF assms(1)] quiet_calls)

lemma run_accounts:
  "coord_inv st \<Longrightarrow> config_ok (cf_receipts cfg) \<Longrightarrow> run_fresh env num cfg calls st \<Longrightarrow>
     accounts_for st (run_change env num cfg calls st) (coord_run env num cfg calls st)"
proof (induction calls arbitrary: st)
  case Nil
  then show ?case by (simp add: accounts_same)
next
  case (Cons c cs)
  let ?st = "snd (coord_step env num cfg c st)"
  have acc: "accounts_for st (supply_change env cfg c (fst (coord_step env num cfg c st)) st) ?st"
    using Cons.prems by (intro step_accounts) auto
  from accounts_add [OF acc Cons.IH [OF accounts_inv [OF acc]]] Cons.prems
  show ?case by (simp add: case_prod_beta Let_def)
qed

end
