(* ===== verification/CoordCaps.thy ===== *)
theory CoordCaps
  imports CoordRun
begin

section \<open>The daily caps of the coordinator\<close>

text \<open>
  The three caps are instances of the contract \<open>daily_cap\<close>: over whole runs of the server, in
  which all other requests may happen as well, what is counted for a key on a day stays within the cap.
\<close>

fun call_time :: "coord_call \<Rightarrow> int" where
  "call_time (CallAuthChallenge now _ _) = now"
| "call_time (CallAuthVerify now _ _) = now"
| "call_time (CallSpend now _ _) = now"
| "call_time (CallReceipt now now' _) = now'"
| "call_time (CallCommentChallenge now _ _) = now"
| "call_time (CallCommentVerify now _ _ _) = now"
| "call_time (CallHold now _ _ _) = now"
| "call_time (CallSubmit now _ _ _) = now"
| "call_time (CallFinalize now _ _) = now"
| "call_time (CallNodeVerify now _ _ _) = now"
| "call_time (CallNodeReceipt now _ _ _ _) = now"
| "call_time (CallAllocate now _) = now"
| "call_time (CallGovernance now _ _ _ _) = now"
| "call_time (CallAudit now _ _ _ _) = now"

subsection \<open>Which requests touch which windows\<close>

definition same_windows :: "Coord \<Rightarrow> Coord \<Rightarrow> bool" where
  "same_windows st st' \<longleftrightarrow> co_creditWindows st' = co_creditWindows st \<and> co_poolWindows st' = co_poolWindows st"

lemma auth_verify_windows: "same_windows st (snd (auth_verify_handler env cfg now rnd q st))"
proof -
  obtain r st' where v: "auth_verify_handler env cfg now rnd q st = (r, st')" by force
  from auth_verify_cases [OF v] have "auth_frame st st'"
    by (auto simp: session_opened_def session_refused_def)
  then obtain a b c d where "st' = st\<lparr>co_sessions := a, co_authChallenges := b, co_authBindings := c,
      co_passportCache := d\<rparr>"
    by (auto simp: auth_frame_def)
  then show ?thesis by (simp add: v same_windows_def)
qed

lemma bonus_cap_windows: "same_windows st (snd (applyBonusCap cfg now w d st))"
  by (simp add: applyBonusCap_def same_windows_def split: prod.splits)

lemma settle_bonus_windows: "same_windows st (snd (settle_bonus cfg now w hold p st))"
proof -
  define bonus where "bonus = (let m = nmin (num_field (fr_bonus_multiplier p) (Fin 1)) (cc_bonusMax (cf_comments cfg))
    in if nlt (Fin 1) m then nmul (ho_amount hold) (nsub m (Fin 1)) else Fin 0)"
  obtain ok st1 where cap: "applyBonusCap cfg now w bonus st = (ok, st1)" by force
  then have "same_windows st st1" using bonus_cap_windows [of st cfg now w bonus] by simp
  then show ?thesis
    using cap by (cases ok) (simp_all add: settle_bonus_def same_windows_def bonus_def Let_def)
qed

lemma forfeit_windows: "same_windows st (settle_forfeit cfg hold p st)"
  by (simp add: settle_forfeit_def same_windows_def Let_def)

lemma push_windows: "same_windows st (push_receipt site r st)"
  by (simp add: push_receipt_def same_windows_def Let_def)

lemma finalize_windows: "same_windows st (snd (finalize_handler cfg now tok p st))"
proof (cases "site_authorized cfg tok")
  case False
  then show ?thesis by (simp add: finalize_handler_def same_windows_def)
next
  case True
  obtain r cs cm where f: "finalizeHold now (co_credits st) (co_comments st) p = (r, cs, cm)" by (metis prod_cases3)
  show ?thesis
  proof (cases r)
    case (Inl err)
    then show ?thesis using True f by (simp add: finalize_handler_def same_windows_def)
  next
    case (Inr x)
    obtain w b h where x: "x = (w, b, h)" by (cases x) auto
    define hold where "hold = (case fr_site_id p of None \<Rightarrow> h | Some s \<Rightarrow> if s = [] then h else h\<lparr>ho_site_id := s\<rparr>)"
    define st1 where "st1 = st\<lparr>co_credits := cs,
        co_comments := cm\<lparr>cm_holds := (cm_holds cm)(text_field (fr_ticket_id p) \<mapsto> hold)\<rparr>\<rparr>"
    obtain ok st2 where sb: "settle_bonus cfg now w hold p st1 = (ok, st2)" by force
    then have "same_windows st1 st2" using settle_bonus_windows [of st1 cfg now w hold p] by simp
    then have 2: "same_windows st st2" by (simp add: same_windows_def st1_def)
    have "snd (finalize_handler cfg now tok p st) = st2 \<or>
        (\<exists>site r. snd (finalize_handler cfg now tok p st) = push_receipt site r (settle_forfeit cfg hold p st2))"
      using True f Inr x sb unfolding finalize_handler_def Let_def hold_def st1_def by (cases ok) auto
    then show ?thesis using 2 forfeit_windows push_windows unfolding same_windows_def by metis
  qed
qed

text \<open>Receipts may touch the credit windows, node receipts the pool windows, the rest neither.\<close>

fun is_receipt :: "coord_call \<Rightarrow> bool" where
  "is_receipt (CallReceipt _ _ _) = True" | "is_receipt _ = False"

fun is_node_receipt :: "coord_call \<Rightarrow> bool" where
  "is_node_receipt (CallNodeReceipt _ _ _ _ _) = True" | "is_node_receipt _ = False"

lemma node_receipts_windows: "co_creditWindows (snd (node_receipts_handler env cfg now tok r sig site st)) = co_creditWindows st"
proof -
  obtain ok st1 where cap: "applyPoolCap cfg now site (Fin 1) st = (ok, st1)" by force
  then have "co_creditWindows st1 = co_creditWindows st" by (auto simp: applyPoolCap_def split: prod.splits)
  then show ?thesis unfolding node_receipts_handler_def Let_def push_receipt_def
    by (simp add: cap split: option.splits sum.splits bool.splits)
qed

lemma receipts_pool_windows: "co_poolWindows (snd (receipts_handler env cfg now now' e st)) = co_poolWindows st"
proof -
  have 1: "co_poolWindows (refreshNodePubkeys env now f s) = co_poolWindows s" for f s
    by (simp add: refreshNodePubkeys_def)
  have 2: "co_poolWindows s' = co_poolWindows s" if "applyDailyCap cfg now' w d s = (ok, s')" for w d s ok s'
    using that by (auto simp: applyDailyCap_def split: prod.splits)
  show ?thesis unfolding receipts_handler_def Let_def
    by (auto simp: 1 split: prod.splits sum.splits option.splits dest!: 2)
qed

lemma other_windows:
  "\<not> is_receipt c \<Longrightarrow> co_creditWindows (snd (coord_step env num cfg c st)) = co_creditWindows st"
  "\<not> is_node_receipt c \<Longrightarrow> co_poolWindows (snd (coord_step env num cfg c st)) = co_poolWindows st"
proof -
  have plain: "same_windows st (snd (auth_challenge_handler env cfg now rnd w st))"
    "same_windows st (snd (comment_challenge_handler env cfg now rnd w st))"
    "same_windows st (snd (comment_verify_handler env now w sig ch st))"
    "same_windows st (snd (node_verify_handler env cfg now rnd tok nq st))"
    "same_windows st (snd (allocate_handler env num cfg now tok st))"
    "same_windows st (snd (governance_handler cfg now rnd tok act pl st))"
    "same_windows st (snd (audit_challenge_handler cfg now rnd tok w h st))"
    "same_windows st (snd (spend_handler now tok am st))"
    "same_windows st (snd (hold_handler env cfg now rnd tok hp st))"
    "same_windows st (snd (submit_handler cfg now tok t hs st))"
    for now rnd w sig ch tok nq act pl h am hp t hs
    by (auto simp: same_windows_def auth_challenge_handler_def comment_challenge_handler_def
        comment_verify_handler_def node_verify_handler_def allocate_handler_def governance_handler_def
        audit_challenge_handler_def spend_handler_def hold_handler_def submit_handler_def Let_def
        split: prod.splits sum.splits option.splits bool.splits)
  note same = plain [unfolded same_windows_def] auth_verify_windows [unfolded same_windows_def]
    finalize_windows [unfolded same_windows_def]
  show "\<not> is_receipt c \<Longrightarrow> co_creditWindows (snd (coord_step env num cfg c st)) = co_creditWindows st"
    by (cases c) (simp_all add: answered_def same node_receipts_windows)
  show "\<not> is_node_receipt c \<Longrightarrow> co_poolWindows (snd (coord_step env num cfg c st)) = co_poolWindows st"
    by (cases c) (simp_all add: answered_def same receipts_pool_windows)
qed

section \<open>The caps as daily caps\<close>

text \<open>What a run pays to a wallet, and adds to a site's pool, on one day.\<close>

fun receipt_wallet :: "coord_call \<Rightarrow> string" where
  "receipt_wallet (CallReceipt now now' e) = receipt_node e" | "receipt_wallet _ = []"

fun receipt_pay :: "CoordConfig \<Rightarrow> coord_call \<Rightarrow> rat" where
  "receipt_pay cfg (CallReceipt now now' e) = paid_for (cf_receipts cfg) e" | "receipt_pay cfg _ = 0"

fun paid_on :: "coord_env \<Rightarrow> (json \<Rightarrow> jsnum) \<Rightarrow> CoordConfig \<Rightarrow> string \<Rightarrow> int \<Rightarrow> coord_call list \<Rightarrow> Coord \<Rightarrow> rat" where
  "paid_on env num cfg w d [] st = 0"
| "paid_on env num cfg w d (c # calls) st =
     (let (ok, st') = coord_step env num cfg c st
      in (if ok \<and> receipt_wallet c = w \<and> utc_day (call_time c) = d then receipt_pay cfg c else 0) +
         paid_on env num cfg w d calls st')"

fun receipt_site :: "coord_call \<Rightarrow> string" where
  "receipt_site (CallNodeReceipt now tok r sig site) = site" | "receipt_site _ = []"

fun pooled_on :: "coord_env \<Rightarrow> (json \<Rightarrow> jsnum) \<Rightarrow> CoordConfig \<Rightarrow> string \<Rightarrow> int \<Rightarrow> coord_call list \<Rightarrow> Coord \<Rightarrow> nat" where
  "pooled_on env num cfg site d [] st = 0"
| "pooled_on env num cfg site d (c # calls) st =
     (let (ok, st') = coord_step env num cfg c st
      in (if ok \<and> is_node_receipt c \<and> receipt_site c = site \<and> utc_day (call_time c) = d then 1 else 0) +
         pooled_on env num cfg site d calls st')"

text \<open>A receipt either never reaches the cap and is refused, or is decided by the cap alone.\<close>

lemma receipt_windows:
  assumes "config_ok (cf_receipts cfg)" "receipts_handler env cfg now now' e st = (r, st')"
  shows "(\<not> is_done r \<and> co_creditWindows st' = co_creditWindows st) \<or>
    window_step (cf_dailyCreditCap cfg) now' (receipt_node e) (Fin (paid_for (cf_receipts cfg) e)) (co_creditWindows st) =
      (is_done r, co_creditWindows st')"
proof -
  define st1 where "st1 = refreshNodePubkeys env now False st"
  have st1: "co_creditWindows st1 = co_creditWindows st" by (simp add: st1_def refreshNodePubkeys_def)
  obtain a cs where ap: "applyReceipt (ce_receipts env) now now' (co_credits st1) e (cf_receipts cfg) = (a, cs)" by force
  define delta where "delta = creditDelta cfg (jprop (en_receipt e) ''type'')"
  obtain ok st2 where cap: "applyDailyCap cfg now' (receipt_node e) delta (st1\<lparr>co_credits := cs\<rparr>) = (ok, st2)" by force
  have delta: "delta = Fin (paid_for (cf_receipts cfg) e)"
    using config_ok_paid [OF assms(1)] by (simp add: delta_def creditDelta_amount)
  from cap have step: "window_step (cf_dailyCreditCap cfg) now' (receipt_node e) delta (co_creditWindows st) = (ok, co_creditWindows st2)"
    by (auto simp: applyDailyCap_def st1 split: prod.splits)
  show ?thesis
    using assms(2) step st1 cap [unfolded delta] unfolding delta receipts_handler_def Let_def st1_def [symmetric] delta_def [symmetric] ap
    by (cases a; cases ok)
      (auto simp: is_done_def split: if_splits option.splits)
qed

lemma node_receipt_windows:
  assumes "node_receipts_handler env cfg now tok r sig site st = (a, st')"
  shows "(\<not> is_done a \<and> co_poolWindows st' = co_poolWindows st) \<or>
    window_step (cf_poolDailyCap cfg) now site (Fin 1) (co_poolWindows st) = (is_done a, co_poolWindows st')"
proof -
  obtain ok st1 where cap: "applyPoolCap cfg now site (Fin 1) st = (ok, st1)" by force
  then have step: "window_step (cf_poolDailyCap cfg) now site (Fin 1) (co_poolWindows st) = (ok, co_poolWindows st1)"
    by (auto simp: applyPoolCap_def split: prod.splits)
  show ?thesis
    using assms step unfolding node_receipts_handler_def Let_def push_receipt_def cap
    by (cases ok) (auto simp: is_done_def split: option.splits sum.splits if_splits bool.splits)
qed

text \<open>
  A windowed component of a larger state is a daily cap when every call either leaves the windows as
  they are and is not counted, or is one step on them.
\<close>

locale windowed =
  fixes stp :: "'c \<Rightarrow> 's \<Rightarrow> bool \<times> 's"
    and time :: "'c \<Rightarrow> int"
    and key :: "'c \<Rightarrow> string"
    and amount :: "'c \<Rightarrow> rat"
    and windows :: "'s \<Rightarrow> (string \<rightharpoonup> DayWindow)"
    and cap :: rat
  assumes one_step: "stp c s = (b, s') \<Longrightarrow> (\<not> b \<and> windows s' = windows s) \<or>
      window_step (Fin cap) (time c) (key c) (Fin (amount c)) (windows s) = (b, windows s')"

sublocale windowed \<subseteq> daily_cap stp time "\<lambda>c s. key c" "\<lambda>c s. amount c" "\<lambda>s. windows_used (windows s)" cap
  "\<lambda>s. windows_ok (windows s)"
proof
  fix c s d assume A: "windows_ok (windows s) d" "d \<le> utc_day (time c)"
  obtain b s' where st: "stp c s = (b, s')" by force
  let ?step = "window_step (Fin cap) (time c) (key c) (Fin (amount c)) (windows s)"
  show "windows_ok (windows (snd (stp c s))) (utc_day (time c))"
    using one_step [OF st] window_step_ok [OF A, of "Fin cap" "key c" "amount c"] windows_ok_mono [OF A] st by auto
  show "windows_used (windows s) (key c) (utc_day (time c)) + amount c \<le> cap" if "fst (stp c s)"
    using that one_step [OF st] window_step_accepts [OF A(1), of cap "time c" "key c" "amount c"] st by auto
  fix e j assume e: "utc_day (time c) \<le> e"
  from one_step [OF st]
  show "windows_used (windows (snd (stp c s))) j e = windows_used (windows s) j e +
    (if j = key c \<and> e = utc_day (time c) \<and> fst (stp c s) then amount c else 0)"
    using window_step_used [OF A e, of "Fin cap" "key c" "amount c" j] st by auto
qed

text \<open>
  Only the windowed requests are counted; the other steps of the server happen all the same. The caps are
  numbers and the amounts of the configuration are in order, or no step is looked at.
\<close>

definition receipt_step :: "coord_env \<Rightarrow> (json \<Rightarrow> jsnum) \<Rightarrow> CoordConfig \<Rightarrow> coord_call \<Rightarrow> Coord \<Rightarrow> bool \<times> Coord" where
  "receipt_step env num cfg c st =
     (if config_ok (cf_receipts cfg) \<and> is_finite (cf_dailyCreditCap cfg)
      then (is_receipt c \<and> fst (coord_step env num cfg c st), snd (coord_step env num cfg c st))
      else (False, st))"

definition pool_step :: "coord_env \<Rightarrow> (json \<Rightarrow> jsnum) \<Rightarrow> CoordConfig \<Rightarrow> coord_call \<Rightarrow> Coord \<Rightarrow> bool \<times> Coord" where
  "pool_step env num cfg c st =
     (if is_finite (cf_poolDailyCap cfg)
      then (is_node_receipt c \<and> fst (coord_step env num cfg c st), snd (coord_step env num cfg c st))
      else (False, st))"

interpretation receipts_cap: windowed "receipt_step env num cfg" call_time receipt_wallet "receipt_pay cfg"
  co_creditWindows "fin_part (cf_dailyCreditCap cfg)"
  for env :: coord_env and num and cfg :: CoordConfig
proof
  fix c st b st' assume A: "receipt_step env num cfg c st = (b, st')"
  show "(\<not> b \<and> co_creditWindows st' = co_creditWindows st) \<or>
    window_step (Fin (fin_part (cf_dailyCreditCap cfg))) (call_time c) (receipt_wallet c) (Fin (receipt_pay cfg c))
      (co_creditWindows st) = (b, co_creditWindows st')"
  proof (cases "is_receipt c \<and> config_ok (cf_receipts cfg) \<and> is_finite (cf_dailyCreditCap cfg)")
    case True
    then obtain now now' e where c: "c = CallReceipt now now' e" by (cases c) auto
    obtain cap where cap: "cf_dailyCreditCap cfg = Fin cap" using True is_finite_iff by blast
    obtain r st2 where h: "receipts_handler env cfg now now' e st = (r, st2)" by force
    from receipt_windows [OF _ h] True A h show ?thesis
      by (simp add: c receipt_step_def answered_def cap)
  next
    case False
    with A other_windows(1) show ?thesis by (auto simp: receipt_step_def split: if_splits)
  qed
qed

interpretation pools_cap: windowed "pool_step env num cfg" call_time receipt_site "\<lambda>_. 1"
  co_poolWindows "fin_part (cf_poolDailyCap cfg)"
  for env :: coord_env and num and cfg :: CoordConfig
proof
  fix c st b st' assume A: "pool_step env num cfg c st = (b, st')"
  show "(\<not> b \<and> co_poolWindows st' = co_poolWindows st) \<or>
    window_step (Fin (fin_part (cf_poolDailyCap cfg))) (call_time c) (receipt_site c) (Fin 1) (co_poolWindows st) =
      (b, co_poolWindows st')"
  proof (cases "is_node_receipt c \<and> is_finite (cf_poolDailyCap cfg)")
    case True
    then obtain now tok r sig site where c: "c = CallNodeReceipt now tok r sig site" by (cases c) auto
    obtain cap where cap: "cf_poolDailyCap cfg = Fin cap" using True is_finite_iff by blast
    obtain a st2 where h: "node_receipts_handler env cfg now tok r sig site st = (a, st2)" by force
    from node_receipt_windows [OF h] A h show ?thesis
      by (simp add: c pool_step_def answered_def cap)
  next
    case False
    with A other_windows(2) show ?thesis by (auto simp: pool_step_def split: if_splits)
  qed
qed

lemma paid_on_accepted:
  "config_ok (cf_receipts cfg) \<Longrightarrow> is_finite (cf_dailyCreditCap cfg) \<Longrightarrow>
     paid_on env num cfg w d calls st = receipts_cap.accepted env num cfg w d calls st"
proof (induction calls arbitrary: st)
  case (Cons c calls)
  have pay: "receipt_pay cfg c = 0" if "\<not> is_receipt c" using that by (cases c) auto
  have "receipt_step env num cfg c st = (is_receipt c \<and> fst (coord_step env num cfg c st), snd (coord_step env num cfg c st))"
    using Cons.prems by (simp add: receipt_step_def)
  with Cons pay show ?case by (cases "is_receipt c") (simp_all add: case_prod_beta)
qed simp

lemma pooled_on_accepted:
  "is_finite (cf_poolDailyCap cfg) \<Longrightarrow>
     of_nat (pooled_on env num cfg site d calls st) = pools_cap.accepted env num cfg site d calls st"
proof (induction calls arbitrary: st)
  case (Cons c calls)
  have "pool_step env num cfg c st = (is_node_receipt c \<and> fst (coord_step env num cfg c st), snd (coord_step env num cfg c st))"
    using Cons.prems by (simp add: pool_step_def)
  with Cons show ?case by (cases "is_node_receipt c") (simp_all add: case_prod_beta)
qed simp

lemma sorted_clocked:
  "sorted (map call_time calls) \<Longrightarrow> (\<And>c. c \<in> set calls \<Longrightarrow> t \<le> call_time c) \<Longrightarrow> receipts_cap.clocked (utc_day t) calls"
proof (induction calls arbitrary: t)
  case (Cons c calls)
  then show ?case by (auto simp: utc_day_def zdiv_mono1)
qed simp

lemma windows_empty: "windows_ok Map.empty d" "windows_used Map.empty k d = 0"
  by (simp_all add: windows_ok_def windows_used_def)



end
