(* ===== verification/CoordSupply.thy ===== *)
theory CoordSupply
  imports CoordRun
begin

section \<open>The credits of the coordinator over whole runs\<close>

text \<open>
  The supply of credits over any run of requests, and the way the settling of tickets breaks its
  conservation.
\<close>

lemma nmin_one: "\<not> nlt (Fin 1) (nmin (Fin 1) x)"
  by (cases x) (auto simp: nmin_def split: if_splits)

lemma trim_approved: "text_field (Some ''approved'') = ''approved''"
  by (simp add: text_field_def trim_results)

text \<open>Approving a ticket without a bonus, whatever its status is.\<close>

lemma approve_handler:
  assumes "site_authorized cfg tok" "text_field (fr_ticket_id p) = t" "t \<noteq> []"
    "cm_holds (co_comments st) t = Some h" "\<not> nlt (ho_expiresAt h) (jint now)"
    "fr_result p = Some ''approved''" "fr_bonus_multiplier p = None" "fr_site_id p = None"
  shows "\<exists>b st'. finalize_handler cfg now tok p st = (Done (ho_wallet h, b, h\<lparr>ho_status := Approved\<rparr>), st') \<and>
    cm_holds (co_comments st') = (cm_holds (co_comments st))(t \<mapsto> h\<lparr>ho_status := Approved\<rparr>)"
proof -
  have "\<exists>b. finalizeHold now (co_credits st) (co_comments st) p =
      (Inr (ho_wallet h, b, h\<lparr>ho_status := Approved\<rparr>),
       (co_credits st)\<lparr>cs_credits := (cs_credits (co_credits st))(ho_wallet h \<mapsto>
          nadd (getBalance (co_credits st) (ho_wallet h)) (ho_amount h))\<rparr>,
       (co_comments st)\<lparr>cm_holds := (cm_holds (co_comments st))(t \<mapsto> h\<lparr>ho_status := Approved\<rparr>)\<rparr>)"
    using assms by (simp add: finalizeHold_def Let_def trim_approved status_of_result_def)
  then obtain b cs where f: "finalizeHold now (co_credits st) (co_comments st) p = (Inr (ho_wallet h, b, h\<lparr>ho_status := Approved\<rparr>),
      cs, (co_comments st)\<lparr>cm_holds := (cm_holds (co_comments st))(t \<mapsto> h\<lparr>ho_status := Approved\<rparr>)\<rparr>)" by blast
  have b: "settle_bonus cfg now w hold p s = (True, s)" for w hold s
    using assms(7) by (simp add: settle_bonus_def num_field_def nmin_one)
  have g: "settle_forfeit cfg hold p s = s" for hold s
    using assms(6) by (simp add: settle_forfeit_def)
  show ?thesis
    using assms(1,2,8) unfolding finalize_handler_def f by (simp add: b g push_receipt_def Let_def)
qed


lemma toy_coord_inv: "coord_inv toy_coord" "config_ok (cf_receipts toy_coord_config)"
  using toy_credits_ok
  by (auto simp: coord_inv_def toy_coord_def money_ok_def comments_inv_def toy_credits_def toy_coord_config_def)

lemma toy_coord_holds: "cm_holds (co_comments toy_coord) = Map.empty" "co_sessions toy_coord = Map.empty"
  by (simp_all add: toy_coord_def)


text \<open>A ticket that has been settled can be finalized again until it expires: each further request
  to approve it creates its amount out of nothing.\<close>

theorem refinalize_mints:
  assumes "coord_inv st" "site_authorized cfg tok" "text_field (fr_ticket_id p) = t" "t \<noteq> []"
    "cm_holds (co_comments st) t = Some h" "\<not> hold_open h" "\<not> nlt (ho_expiresAt h) (jint now)"
    "fr_result p = Some ''approved''" "fr_bonus_multiplier p = None" "fr_site_id p = None"
  shows "credit_supply (coord_run env num cfg (replicate n (CallFinalize now tok p)) st) =
    credit_supply st + of_nat n * fin_part (ho_amount h)"
  using assms
proof (induction n arbitrary: st h)
  case (Suc n)
  obtain b st' where step: "finalize_handler cfg now tok p st = (Done (ho_wallet h, b, h\<lparr>ho_status := Approved\<rparr>), st')"
    "cm_holds (co_comments st') = (cm_holds (co_comments st))(t \<mapsto> h\<lparr>ho_status := Approved\<rparr>)"
    using approve_handler [OF Suc.prems(2-5,7-10)] by blast
  have "supply_change env cfg (CallFinalize now tok p) True st = fin_part (ho_amount h)"
  proof -
    have "\<exists>b h'. fst (finalizeHold now (co_credits st) (co_comments st) p) = Inr (ho_wallet h, b, h') \<and> ho_status h' = Approved"
      using Suc.prems by (simp add: finalizeHold_def Let_def trim_approved status_of_result_def)
    then obtain b h' where fh: "fst (finalizeHold now (co_credits st) (co_comments st) p) = Inr (ho_wallet h, b, h')"
      "ho_status h' = Approved" by blast
    show ?thesis using Suc.prems(2,3,5,6) by (simp add: fh lost_amount_def settled_amount_def)
  qed
  with finalize_accounts [OF Suc.prems(1), of env cfg now tok p True] step(1)
  have acc: "coord_inv st'" "credit_supply st' = credit_supply st + fin_part (ho_amount h)"
    by (simp_all add: accounts_for_def)
  have "credit_supply (coord_run env num cfg (replicate n (CallFinalize now tok p)) st') =
      credit_supply st' + of_nat n * fin_part (ho_amount (h\<lparr>ho_status := Approved\<rparr>))"
    by (rule Suc.IH [OF acc(1) Suc.prems(2-4)]) (use step(2) Suc.prems in \<open>simp_all add: hold_open_def\<close>)
  then show ?case by (simp add: step(1) answered_def acc(2) algebra_simps)
qed simp

definition toy_hold :: CommentHold where
  "toy_hold = \<lparr>ho_ticket_id = ''hold_a'', ho_wallet = ''w'', ho_site_id = ''s'', ho_post_id = ''p'', ho_amount = Fin 7,
     ho_status = Approved, ho_createdAt = 0, ho_expiresAt = Fin 1000, ho_comment_hash = None\<rparr>"

theorem refinalize_mints_witness:
  "\<exists>p. credit_supply (coord_run toy_coord_env (\<lambda>_. NaN) toy_coord_config
     (replicate 3 (CallFinalize 10 (Some ''tok'') p))
     (toy_coord\<lparr>co_comments := (co_comments toy_coord)\<lparr>cm_holds := [''hold_a'' \<mapsto> toy_hold]\<rparr>\<rparr>)) =
   credit_supply (toy_coord\<lparr>co_comments := (co_comments toy_coord)\<lparr>cm_holds := [''hold_a'' \<mapsto> toy_hold]\<rparr>\<rparr>) + 21"
proof -
  let ?p = "\<lparr>fr_ticket_id = Some ''hold_a'', fr_result = Some ''approved'', fr_bonus_multiplier = None, fr_site_id = None\<rparr>"
  let ?st = "toy_coord\<lparr>co_comments := (co_comments toy_coord)\<lparr>cm_holds := [''hold_a'' \<mapsto> toy_hold]\<rparr>\<rparr>"
  have "coord_inv ?st" using toy_coord_inv(1) by (simp add: coord_inv_def comments_inv_def toy_hold_def)
  moreover have "site_authorized toy_coord_config (Some ''tok'')" by (simp add: site_authorized_def toy_coord_config_def)
  moreover have "text_field (fr_ticket_id ?p) = ''hold_a''" by code_simp
  moreover have "\<not> hold_open toy_hold" "\<not> nlt (ho_expiresAt toy_hold) (jint 10)"
    by (simp_all add: toy_hold_def hold_open_def)
  ultimately have "credit_supply (coord_run toy_coord_env (\<lambda>_. NaN) toy_coord_config
      (replicate 3 (CallFinalize 10 (Some ''tok'') ?p)) ?st) = credit_supply ?st + of_nat 3 * fin_part (ho_amount toy_hold)"
    by (intro refinalize_mints [of _ _ _ _ "''hold_a''"]) simp_all
  then show ?thesis by (intro exI [of _ ?p]) (simp add: toy_hold_def)
qed

end
