(* ===== verification/Recursive.thy ===== *)
theory Recursive
  imports Json
begin

section \<open>The recursive resolver: answers and their selection (gateway/src/adapters/recursive.ts)\<close>

text \<open>
  Names outside \<open>.dns\<close> are resolved by asking several DNS-over-HTTPS servers and comparing what
  they say. This theory holds the part without state: reading one answer, and choosing among all of them.
  SHA-256, \<open>localeCompare\<close>, \<open>punycode.toASCII\<close>, the printing of numbers and \<open>Number(...)\<close> of a
  parsed value are fields of the environment.
\<close>

record rec_env =
  rv_sha256hex :: "string \<Rightarrow> string"
  rv_locale :: "string \<Rightarrow> string \<Rightarrow> int"
  rv_toASCII :: "string \<Rightarrow> string"
  rv_numstr :: "rat \<Rightarrow> string"
  rv_number :: "json \<Rightarrow> jsnum"

datatype UpStatus = NOERROR | NXDOMAIN | UP_ERROR

datatype ConfidenceLevel = HighConf | MediumConf | LowConf

datatype qtype = QA | QAAAA

fun qtype_text :: "qtype \<Rightarrow> string" where
  "qtype_text QA = ''A''" | "qtype_text QAAAA = ''AAAA''"

record DnsRecord =
  dr_name :: string
  dr_type :: string
  dr_data :: string
  dr_ttl :: jsnum

text \<open>What is read from one answer, and the result of one query: the same with the server and its time.\<close>

record Extract =
  ex_status :: UpStatus
  ex_chain :: "string list"
  ex_answers :: "DnsRecord list"
  ex_ips :: "string list"
  ex_answersCount :: nat
  ex_ttlS :: jsnum
  ex_rrsetHash :: string

record UpstreamResult = Extract +
  ur_url :: string
  ur_rttMs :: int

definition normalizeHost :: "string \<Rightarrow> string" where
  "normalizeHost s = strip_dot (lower (trim s))"

definition mapType :: "rec_env \<Rightarrow> json option \<Rightarrow> string" where
  "mapType env type = (case type of
     None \<Rightarrow> ''undefined''
   | Some (JStr s) \<Rightarrow> upper s
   | Some v \<Rightarrow> if v = JNum (Fin 1) then ''A'' else if v = JNum (Fin 28) then ''AAAA''
       else if v = JNum (Fin 5) then ''CNAME'' else if v = JNum (Fin 16) then ''TXT''
       else js_to_string (rv_numstr env) v)"

definition overlapRatio :: "string list \<Rightarrow> string list \<Rightarrow> rat" where
  "overlapRatio a b =
     (if a = [] \<or> b = [] then 0
      else of_nat (length (filter (\<lambda>ip. ip \<in> set b) (js_dedup a))) /
        of_nat (max 1 (min (card (set a)) (card (set b)))))"

definition hasSharedIp :: "string list \<Rightarrow> string list \<Rightarrow> bool" where
  "hasSharedIp a b = (if a = [] \<or> b = [] then False else list_ex (\<lambda>ip. ip \<in> set b) a)"

text \<open>\<open>Math.min(...xs)\<close>, which is infinite for no arguments.\<close>

definition min_of :: "jsnum list \<Rightarrow> jsnum" where
  "min_of xs = fold (\<lambda>x m. nmin m x) xs PosInf"

definition minTtl :: "DnsRecord list \<Rightarrow> jsnum \<Rightarrow> jsnum" where
  "minTtl records fallback = (if records = [] then fallback else nmax (Fin 1) (min_of (map dr_ttl records)))"

subsection \<open>Reading an answer\<close>

text \<open>\<open>String(v || "")\<close>.\<close>

definition text_or_empty :: "rec_env \<Rightarrow> json option \<Rightarrow> string" where
  "text_or_empty env v = (if jtruthy v then js_to_string (rv_numstr env) (the v) else [])"

definition read_record :: "rec_env \<Rightarrow> json \<Rightarrow> DnsRecord" where
  "read_record env a =
     \<lparr>dr_name = normalizeHost (text_or_empty env (jprop a ''name'')),
      dr_type = mapType env (jprop a ''type''),
      dr_data = text_or_empty env (jprop a ''data''),
      dr_ttl = nmax (Fin 1) (if jtruthy (jprop a ''TTL'') then rv_number env (the (jprop a ''TTL'')) else Fin 60)\<rparr>"

definition read_records :: "rec_env \<Rightarrow> json \<Rightarrow> DnsRecord list" where
  "read_records env v =
     filter (\<lambda>r. dr_name r \<noteq> [] \<and> dr_type r \<noteq> [] \<and> dr_data r \<noteq> [])
       (map (read_record env) (case jprop v ''Answer'' of Some (JArr xs) \<Rightarrow> xs | _ \<Rightarrow> []))"

definition by_name :: "DnsRecord list \<Rightarrow> (string \<rightharpoonup> DnsRecord list)" where
  "by_name records = fold (\<lambda>r m. m(dr_name r \<mapsto> (case m (dr_name r) of None \<Rightarrow> [] | Some b \<Rightarrow> b) @ [r])) records Map.empty"

definition named :: "(string \<rightharpoonup> DnsRecord list) \<Rightarrow> string \<Rightarrow> DnsRecord list" where
  "named m n = (case m n of None \<Rightarrow> [] | Some b \<Rightarrow> b)"

text \<open>Following aliases: at most ten, and never from the same name twice.\<close>

fun cname_loop :: "nat \<Rightarrow> (string \<rightharpoonup> DnsRecord list) \<Rightarrow> string \<Rightarrow> string set \<Rightarrow> string list \<times> string" where
  "cname_loop 0 m current visited = ([], current)"
| "cname_loop (Suc n) m current visited =
     (if current \<in> visited then ([], current)
      else case filter (\<lambda>r. dr_type r = ''CNAME'') (named m current) of
        [] \<Rightarrow> ([], current)
      | c # _ \<Rightarrow>
          (let target = normalizeHost (dr_data c) in
           if target = [] then ([], current)
           else let (chain, final) = cname_loop n m target (insert current visited) in (target # chain, final)))"

definition failed_extract :: "rec_env \<Rightarrow> UpStatus \<Rightarrow> jsnum \<Rightarrow> qtype \<Rightarrow> string \<Rightarrow> string \<Rightarrow> Extract" where
  "failed_extract env status ttl qtype qname tag =
     \<lparr>ex_status = status, ex_chain = [], ex_answers = [], ex_ips = [], ex_answersCount = 0, ex_ttlS = ttl,
      ex_rrsetHash = rv_sha256hex env (qtype_text qtype @ ''|'' @ normalizeHost qname @ ''|'' @ tag)\<rparr>"

definition normalizeAndExtract :: "rec_env \<Rightarrow> string \<Rightarrow> qtype \<Rightarrow> json \<Rightarrow> Extract" where
  "normalizeAndExtract env qname qtype v =
     (let statusCode = (case jprop v ''Status'' of None \<Rightarrow> Fin 2 | Some JNull \<Rightarrow> Fin 2 | Some s \<Rightarrow> rv_number env s);
          records = read_records env v in
      if statusCode = Fin 3 then failed_extract env NXDOMAIN (Fin 30) qtype qname ''NXDOMAIN''
      else if statusCode \<noteq> Fin 0 then failed_extract env UP_ERROR (Fin 1) qtype qname ''ERROR''
      else
        let m = by_name records;
            (chain, current) = cname_loop 10 m (normalizeHost qname) {};
            finalAnswers = filter (\<lambda>r. dr_type r = qtype_text qtype) (named m current);
            fallbackAnswers = filter (\<lambda>r. dr_type r = qtype_text qtype \<and> dr_name r = normalizeHost qname) records;
            usable = (if finalAnswers \<noteq> [] then finalAnswers else fallbackAnswers);
            ips = js_sort (rv_locale env) (js_dedup (map dr_data usable))
        in \<lparr>ex_status = NOERROR, ex_chain = chain, ex_answers = usable, ex_ips = ips,
            ex_answersCount = length usable, ex_ttlS = minTtl usable (Fin 60),
            ex_rrsetHash = rv_sha256hex env (qtype_text qtype @ ''|'' @ current @ ''|'' @ join '','' ips)\<rparr>)"

text \<open>One query: the server's reply, an HTTP error, or any exception (the time-out among them).\<close>

datatype fetched = HttpError int | Body json | FetchFailed

definition queryOneUpstream :: "rec_env \<Rightarrow> string \<Rightarrow> string \<Rightarrow> qtype \<Rightarrow> fetched \<Rightarrow> int \<Rightarrow> UpstreamResult" where
  "queryOneUpstream env upstream qname qtype reply rtt =
     Extract.extend
       (case reply of
          HttpError code \<Rightarrow> failed_extract env UP_ERROR (Fin 1) qtype qname (''HTTP_'' @ rv_numstr env (of_int code))
        | Body v \<Rightarrow> normalizeAndExtract env qname qtype v
        | FetchFailed \<Rightarrow> failed_extract env UP_ERROR (Fin 1) qtype qname ''TIMEOUT'')
       (UpstreamResult.fields upstream rtt)"

subsection \<open>Choosing among the answers\<close>

record Selection =
  sl_status :: UpStatus
  sl_confidence :: ConfidenceLevel
  sl_chosen :: UpstreamResult
  sl_considered :: "UpstreamResult list"
  sl_ttlS :: jsnum

definition answered_ok :: "UpstreamResult \<Rightarrow> bool" where
  "answered_ok u \<longleftrightarrow> ex_status u = NOERROR \<and> ex_ips u \<noteq> []"

text \<open>A \<open>Map\<close> keeps its keys in the order of their first insertion.\<close>

fun add_group :: "UpstreamResult \<Rightarrow> (string \<times> UpstreamResult list) list \<Rightarrow> (string \<times> UpstreamResult list) list" where
  "add_group u [] = [(ex_rrsetHash u, [u])]"
| "add_group u ((h, us) # gs) = (if h = ex_rrsetHash u then (h, us @ [u]) # gs else (h, us) # add_group u gs)"

definition hash_groups :: "UpstreamResult list \<Rightarrow> UpstreamResult list list" where
  "hash_groups us =
     js_sort (\<lambda>a b. int (length b) - int (length a)) (map snd (fold add_group us []))"

definition fastest :: "UpstreamResult list \<Rightarrow> UpstreamResult" where
  "fastest us = hd (js_sort (\<lambda>a b. ur_rttMs a - ur_rttMs b) us)"

definition overlaps :: "jsnum \<Rightarrow> UpstreamResult \<Rightarrow> UpstreamResult \<Rightarrow> bool" where
  "overlaps threshold a b \<longleftrightarrow>
     hasSharedIp (ex_ips a) (ex_ips b) \<or> nle threshold (Fin (overlapRatio (ex_ips a) (ex_ips b)))"

fun overlap_pairs :: "jsnum \<Rightarrow> UpstreamResult list \<Rightarrow> UpstreamResult list" where
  "overlap_pairs threshold [] = []"
| "overlap_pairs threshold (a # us) =
     concat (map (\<lambda>b. if overlaps threshold a b then [a, b] else []) us) @ overlap_pairs threshold us"

definition unique_by_url :: "UpstreamResult list \<Rightarrow> UpstreamResult list" where
  "unique_by_url us = map snd (fold (\<lambda>c m. AList.update (ur_url c) c m) us [])"

definition selectBest :: "UpstreamResult list \<Rightarrow> jsnum \<Rightarrow> jsnum \<Rightarrow> jsnum \<Rightarrow> Selection res" where
  "selectBest upstreams quorumMin overlapThreshold ttlCapS =
     (let successful = filter answered_ok upstreams in
      if successful \<noteq> [] then
        (let strongest = hd (hash_groups successful) in
         if nle quorumMin (jint (int (length strongest))) then
           Inr \<lparr>sl_status = NOERROR, sl_confidence = HighConf, sl_chosen = fastest strongest, sl_considered = strongest,
             sl_ttlS = nmax (Fin 1) (nmin (min_of (map ex_ttlS strongest)) ttlCapS)\<rparr>
         else let overlapCandidates = overlap_pairs overlapThreshold successful in
           if overlapCandidates \<noteq> [] then
             (let considered = unique_by_url overlapCandidates in
              Inr \<lparr>sl_status = NOERROR, sl_confidence = MediumConf, sl_chosen = fastest considered,
                sl_considered = considered,
                sl_ttlS = nmax (Fin 1) (nmin (nmin (min_of (map ex_ttlS considered)) ttlCapS) (Fin 120))\<rparr>)
           else let chosen = fastest successful in
              Inr \<lparr>sl_status = NOERROR, sl_confidence = LowConf, sl_chosen = chosen, sl_considered = [chosen],
                sl_ttlS = nmax (Fin 1) (nmin (nmin (ex_ttlS chosen) ttlCapS) (Fin 30))\<rparr>)
      else let nxdomain = filter (\<lambda>u. ex_status u = NXDOMAIN) upstreams in
        if nxdomain \<noteq> [] then
          Inr \<lparr>sl_status = NXDOMAIN,
            sl_confidence = (if nle quorumMin (jint (int (length nxdomain))) then MediumConf else LowConf),
            sl_chosen = fastest nxdomain, sl_considered = nxdomain,
            sl_ttlS = nmax (Fin 1) (nmin (min_of (map (\<lambda>n. nor (ex_ttlS n) (Fin 30)) nxdomain)) (Fin 30))\<rparr>
        else throw ''UPSTREAM_FAILED'')"

section \<open>Properties\<close>

subsection \<open>Aliases\<close>

lemma by_name_named: "named (by_name records) n = filter (\<lambda>r. dr_name r = n) records"
proof -
  let ?add = "\<lambda>r m. m(dr_name r \<mapsto> (case m (dr_name r) of None \<Rightarrow> [] | Some b \<Rightarrow> b) @ [r])"
  have "named (fold ?add records m) n = named m n @ filter (\<lambda>r. dr_name r = n) records" for m
    by (induction records arbitrary: m) (auto simp: named_def)
  from this [of Map.empty] show ?thesis by (simp add: by_name_def named_def)
qed

text \<open>The alias a set of records gives a name: the target of its first CNAME record.\<close>

definition alias_of :: "DnsRecord list \<Rightarrow> string \<Rightarrow> string option" where
  "alias_of records n =
     (case filter (\<lambda>r. dr_name r = n \<and> dr_type r = ''CNAME'') records of
        [] \<Rightarrow> None
      | c # _ \<Rightarrow> if normalizeHost (dr_data c) = [] then None else Some (normalizeHost (dr_data c)))"

fun alias_path :: "DnsRecord list \<Rightarrow> string \<Rightarrow> string list \<Rightarrow> bool" where
  "alias_path records n [] = True"
| "alias_path records n (t # ts) = (alias_of records n = Some t \<and> alias_path records t ts)"

lemma cname_loop_Suc:
  "cname_loop (Suc n) (by_name records) current visited =
     (if current \<in> visited then ([], current)
      else case alias_of records current of
        None \<Rightarrow> ([], current)
      | Some target \<Rightarrow> (let (chain, final) = cname_loop n (by_name records) target (insert current visited) in (target # chain, final)))"
  by (simp add: alias_of_def by_name_named conj_commute Let_def split: list.splits)

lemma cname_loop_path:
  assumes "cname_loop n (by_name records) q visited = (chain, final)"
  shows "alias_path records q chain \<and> final = last (q # chain) \<and> length chain \<le> n \<and>
    distinct (butlast (q # chain)) \<and> set (butlast (q # chain)) \<inter> visited = {} \<and>
    (length chain < n \<longrightarrow> alias_of records final = None \<or> final \<in> visited \<union> set (butlast (q # chain)))"
  using assms
proof (induction n arbitrary: q visited chain)
  case (Suc n)
  show ?case
  proof (cases "q \<in> visited \<or> alias_of records q = None")
    case True
    with Suc.prems show ?thesis by (auto simp del: cname_loop.simps simp: cname_loop_Suc split: if_splits)
  next
    case False
    then obtain t ts where t: "alias_of records q = Some t"
      "cname_loop n (by_name records) t (insert q visited) = (ts, final)" "chain = t # ts"
      using Suc.prems by (auto simp del: cname_loop.simps simp: cname_loop_Suc Let_def split: prod.splits)
    from Suc.IH [OF t(2)] t(1,3) False show ?thesis by (auto simp: Let_def)
  qed
qed simp

subsection \<open>Groups of agreeing servers\<close>

definition votes :: "UpstreamResult list \<Rightarrow> string \<Rightarrow> UpstreamResult list" where
  "votes us h = filter (\<lambda>u. ex_rrsetHash u = h) us"

lemma add_group_votes:
  assumes "distinct (map fst gs)" "\<And>h us. (h, us) \<in> set gs \<Longrightarrow> us = votes seen h \<and> us \<noteq> []"
    "\<And>u. u \<in> set seen \<Longrightarrow> ex_rrsetHash u \<in> fst ` set gs"
  shows "distinct (map fst (add_group v gs)) \<and> fst ` set (add_group v gs) = insert (ex_rrsetHash v) (fst ` set gs) \<and>
    (\<forall>(h, us) \<in> set (add_group v gs). us = votes (seen @ [v]) h \<and> us \<noteq> [])"
proof -
  have keys: "fst ` set (add_group v gs) = insert (ex_rrsetHash v) (fst ` set gs)" for v gs
    by (induction v gs rule: add_group.induct) auto
  have dist: "distinct (map fst gs) \<Longrightarrow> distinct (map fst (add_group v gs))" for v gs
  proof (induction v gs rule: add_group.induct)
    case (2 u h us gs)
    from 2 have "h \<noteq> ex_rrsetHash u \<Longrightarrow> h \<notin> set (map fst (add_group u gs))" by (simp add: keys)
    with 2 show ?case by (cases "h = ex_rrsetHash u") (simp_all del: set_map)
  qed simp
  have vals: "distinct (map fst gs) \<Longrightarrow> (h, us) \<in> set (add_group v gs) \<Longrightarrow>
      (h \<noteq> ex_rrsetHash v \<and> (h, us) \<in> set gs) \<or>
      (h = ex_rrsetHash v \<and> ((\<exists>ws. (h, ws) \<in> set gs \<and> us = ws @ [v]) \<or> (h \<notin> fst ` set gs \<and> us = [v])))" for v gs h us
  proof (induction v gs rule: add_group.induct)
    case (2 u k ws gs)
    then show ?case by (force split: if_splits)
  qed auto
  have "us = votes (seen @ [v]) h \<and> us \<noteq> []" if "(h, us) \<in> set (add_group v gs)" for h us
    using vals [OF assms(1) that] assms(2,3) by (force simp: votes_def filter_empty_conv)
  then show ?thesis using keys dist assms(1) by auto
qed

lemma fold_groups:
  "distinct (map fst (fold add_group us [])) \<and> fst ` set (fold add_group us []) = ex_rrsetHash ` set us \<and>
   (\<forall>(h, ws) \<in> set (fold add_group us []). ws = votes us h \<and> ws \<noteq> [])"
proof (induction us rule: rev_induct)
  case (snoc v us)
  have "distinct (map fst (add_group v (fold add_group us []))) \<and>
      fst ` set (add_group v (fold add_group us [])) = insert (ex_rrsetHash v) (fst ` set (fold add_group us [])) \<and>
      (\<forall>(h, ws) \<in> set (add_group v (fold add_group us [])). ws = votes (us @ [v]) h \<and> ws \<noteq> [])"
    using snoc by (intro add_group_votes) auto
  with snoc show ?case by simp
qed simp

lemma longest_group:
  assumes "us \<noteq> []"
  obtains h where "hd (hash_groups us) = votes us h" "votes us h \<noteq> []"
    "\<And>h'. length (votes us h') \<le> length (votes us h)"
proof -
  let ?gs = "map snd (fold add_group us [])"
  let ?cmp = "\<lambda>a b :: UpstreamResult list. int (length b) - int (length a)"
  have "fst ` set (fold add_group us []) \<noteq> {}" using fold_groups [of us] assms by simp
  then have gs: "?gs \<noteq> []" by auto
  then have "hash_groups us \<noteq> []" by (simp add: hash_groups_def)
  then have hd: "hd (hash_groups us) \<in> set ?gs" using hd_in_set [of "hash_groups us"] by (simp add: hash_groups_def)
  have cmp: "comparator_on (set ?gs) ?cmp" by (auto simp: comparator_on_def)
  have least: "length ws \<le> length (hd (hash_groups us))" if "ws \<in> set ?gs" for ws
    using js_sort_hd_least [OF cmp gs that] by (simp add: hash_groups_def)
  from hd obtain h where h: "(h, hd (hash_groups us)) \<in> set (fold add_group us [])" by auto
  have eq: "hd (hash_groups us) = votes us h \<and> hd (hash_groups us) \<noteq> []"
    using bspec [OF conjunct2 [OF conjunct2 [OF fold_groups [of us]]] h] unfolding prod.case .
  then have ne: "votes us h \<noteq> []" by metis
  have "length (votes us h') \<le> length (hd (hash_groups us))" for h'
  proof (cases "votes us h' = []")
    case False
    then have "h' \<in> ex_rrsetHash ` set us" by (auto simp: votes_def filter_empty_conv)
    then have "h' \<in> fst ` set (fold add_group us [])" using fold_groups [of us] by simp
    then obtain ws where ws: "(h', ws) \<in> set (fold add_group us [])" by auto
    have "ws = votes us h'" using bspec [OF conjunct2 [OF conjunct2 [OF fold_groups [of us]]] ws] by simp
    moreover have "ws \<in> set ?gs" using ws by force
    ultimately show ?thesis using least by blast
  qed simp
  with eq ne show ?thesis using that [of h] by metis
qed

lemma fastest_least:
  assumes "us \<noteq> []"
  shows "fastest us \<in> set us" "v \<in> set us \<Longrightarrow> ur_rttMs (fastest us) \<le> ur_rttMs v"
proof -
  have "js_sort (\<lambda>a b. ur_rttMs a - ur_rttMs b) us \<noteq> []" using assms by simp
  then show "fastest us \<in> set us" using hd_in_set [of "js_sort (\<lambda>a b. ur_rttMs a - ur_rttMs b) us"] by (simp add: fastest_def)
  show "ur_rttMs (fastest us) \<le> ur_rttMs v" if "v \<in> set us"
    using js_sort_hd_least [OF comparator_on_key assms that] by (simp add: fastest_def)
qed

lemma overlap_pairs_set: "set (overlap_pairs t us) \<subseteq> set us"
  by (induction t us rule: overlap_pairs.induct) auto

lemma unique_by_url_set: "set (unique_by_url us) \<subseteq> set us" "us \<noteq> [] \<Longrightarrow> unique_by_url us \<noteq> []"
proof -
  have upd: "set (map snd (AList.update k c m)) \<subseteq> insert c (set (map snd m))" for k and c :: UpstreamResult and m
    by (induction m) auto
  have "set (map snd (fold (\<lambda>c m. AList.update (ur_url c) c m) us m)) \<subseteq> set us \<union> set (map snd m)" for m
  proof (induction us arbitrary: m)
    case (Cons u us)
    from Cons [of "AList.update (ur_url u) u m"] upd [of "ur_url u" u m] show ?case by auto
  qed simp
  from this [of "[]"] show "set (unique_by_url us) \<subseteq> set us" by (simp add: unique_by_url_def)
  have ne: "AList.update k c m \<noteq> []" for k and c :: UpstreamResult and m by (cases m) auto
  have "m \<noteq> [] \<Longrightarrow> fold (\<lambda>c m. AList.update (ur_url c) c m) us m \<noteq> []" for m and us :: "UpstreamResult list"
    by (induction us arbitrary: m) (auto simp: ne)
  then show "us \<noteq> [] \<Longrightarrow> unique_by_url us \<noteq> []"
    by (cases us) (simp_all add: unique_by_url_def)
qed

subsection \<open>Every way an answer is selected\<close>

text \<open>How many servers agree on a set of addresses.\<close>

definition support :: "UpstreamResult list \<Rightarrow> string \<Rightarrow> nat" where
  "support us h = length (votes (filter answered_ok us) h)"

lemma nle_mono: "nle q (jint (int a)) \<Longrightarrow> a \<le> b \<Longrightarrow> nle q (jint (int b))"
  by (cases q) (auto simp: nle_def)

lemma votes_set: "set (votes us h) \<subseteq> set us"
  by (auto simp: votes_def)

lemma selectBest_cases:
  assumes "selectBest us q t c = Inr r"
  obtains (high) h where "sl_status r = NOERROR" "sl_confidence r = HighConf"
     "sl_chosen r = fastest (votes (filter answered_ok us) h)" "sl_considered r = votes (filter answered_ok us) h"
     "sl_ttlS r = nmax (Fin 1) (nmin (min_of (map ex_ttlS (votes (filter answered_ok us) h))) c)"
     "votes (filter answered_ok us) h \<noteq> []" "nle q (jint (int (support us h)))" "\<And>h'. support us h' \<le> support us h"
  | (medium) vs where "sl_status r = NOERROR" "sl_confidence r = MediumConf" "sl_chosen r = fastest vs"
     "sl_considered r = vs" "sl_ttlS r = nmax (Fin 1) (nmin (nmin (min_of (map ex_ttlS vs)) c) (Fin 120))"
     "vs \<noteq> []" "set vs \<subseteq> set (filter answered_ok us)" "\<And>h. \<not> nle q (jint (int (support us h)))"
  | (low) v where "sl_status r = NOERROR" "sl_confidence r = LowConf" "sl_chosen r = v" "sl_considered r = [v]"
     "sl_ttlS r = nmax (Fin 1) (nmin (nmin (ex_ttlS v) c) (Fin 30))"
     "v = fastest (filter answered_ok us)" "filter answered_ok us \<noteq> []" "\<And>h. \<not> nle q (jint (int (support us h)))"
  | (none) vs where "vs = filter (\<lambda>u. ex_status u = NXDOMAIN) us" "vs \<noteq> []" "filter answered_ok us = []"
     "sl_status r = NXDOMAIN" "sl_confidence r \<noteq> HighConf" "sl_chosen r = fastest vs" "sl_considered r = vs"
     "sl_ttlS r = nmax (Fin 1) (nmin (min_of (map (\<lambda>n. nor (ex_ttlS n) (Fin 30)) vs)) (Fin 30))"
proof (cases "filter answered_ok us = []")
  case True
  with assms show ?thesis
    by (intro none [of "filter (\<lambda>u. ex_status u = NXDOMAIN) us"]) (auto simp: selectBest_def Let_def split: if_splits)
next
  case False
  let ?ok = "filter answered_ok us"
  obtain h where h: "hd (hash_groups ?ok) = votes ?ok h" "votes ?ok h \<noteq> []"
    "\<And>h'. length (votes ?ok h') \<le> length (votes ?ok h)" using longest_group [OF False] by blast
  show ?thesis
  proof (cases "nle q (jint (int (length (votes ?ok h))))")
    case True
    with assms False h show ?thesis
      by (intro high [of h]) (auto simp: selectBest_def Let_def support_def)
  next
    case no: False
    then have none: "\<not> nle q (jint (int (support us h')))" for h'
      using h(3) nle_mono unfolding support_def by blast
    show ?thesis
    proof (cases "overlap_pairs t ?ok = []")
      case True
      with assms False no h none show ?thesis
        by (intro low [of "fastest ?ok"]) (auto simp: selectBest_def Let_def)
    next
      case ov: False
      note set = subset_trans [OF unique_by_url_set(1) overlap_pairs_set]
      let ?vs = "unique_by_url (overlap_pairs t ?ok)"
      have "r = \<lparr>sl_status = NOERROR, sl_confidence = MediumConf, sl_chosen = fastest ?vs, sl_considered = ?vs,
          sl_ttlS = nmax (Fin 1) (nmin (nmin (min_of (map ex_ttlS ?vs)) c) (Fin 120))\<rparr>"
        using assms False no h(1) ov by (simp add: selectBest_def Let_def)
      with set unique_by_url_set(2) [OF ov] none show ?thesis
        by (intro medium [of ?vs]) (simp_all del: set_filter)
    qed
  qed
qed

lemma selectBest_fails:
  "selectBest us q t c = Inl e \<longleftrightarrow>
     e = JsError ''UPSTREAM_FAILED'' \<and> filter answered_ok us = [] \<and> filter (\<lambda>u. ex_status u = NXDOMAIN) us = []"
  by (auto simp: selectBest_def Let_def)

subsection \<open>Lifetimes\<close>

lemma min_of_number:
  assumes "NaN \<notin> set xs"
  shows "min_of xs \<noteq> NaN"
proof -
  have "m \<noteq> NaN \<Longrightarrow> fold (\<lambda>x m. nmin m x) xs m \<noteq> NaN" for m
    using assms by (induction xs arbitrary: m) (auto simp: nmin_def)
  then show ?thesis by (simp add: min_of_def)
qed

lemma clamp:
  "x \<noteq> NaN \<Longrightarrow> \<exists>s. nmax (Fin 1) (nmin x (Fin c)) = Fin s \<and> 1 \<le> s \<and> s \<le> max 1 c"
  "x \<noteq> NaN \<Longrightarrow> \<exists>s. nmax (Fin 1) (nmin (nmin x (Fin c)) (Fin d)) = Fin s \<and> 1 \<le> s \<and> s \<le> max 1 c \<and> s \<le> max 1 d"
  by (cases x; auto simp: nmin_def nmax_def max_def)+

lemma nor_number: "NaN \<notin> A \<Longrightarrow> NaN \<notin> (\<lambda>x. nor x (Fin d)) ` A"
  by (auto simp: nor_def split: if_splits)

lemma selected_ttl:
  assumes "selectBest us q t (Fin c) = Inr r" "1 \<le> c" "NaN \<notin> ex_ttlS ` set us"
  shows "\<exists>s. sl_ttlS r = Fin s \<and> 1 \<le> s \<and> s \<le> (if sl_status r = NXDOMAIN then 30
    else case sl_confidence r of HighConf \<Rightarrow> c | MediumConf \<Rightarrow> min c 120 | LowConf \<Rightarrow> min c 30)"
proof -
  have number: "min_of (map ex_ttlS vs) \<noteq> NaN" "min_of (map (\<lambda>n. nor (ex_ttlS n) (Fin 30)) vs) \<noteq> NaN"
    if "set vs \<subseteq> set us" for vs
  proof -
    have ok: "NaN \<notin> ex_ttlS ` set vs" using image_mono [OF that, of ex_ttlS] assms(3) by blast
    then show "min_of (map ex_ttlS vs) \<noteq> NaN" by (intro min_of_number) (simp only: set_map not_False_eq_True)
    have "NaN \<notin> (\<lambda>x. nor x (Fin 30)) ` ex_ttlS ` set vs" using ok by (rule nor_number)
    then show "min_of (map (\<lambda>n. nor (ex_ttlS n) (Fin 30)) vs) \<noteq> NaN" by (intro min_of_number) (simp only: set_map image_image not_False_eq_True)
  qed
  from assms(1) show ?thesis
  proof (cases rule: selectBest_cases)
    case (high h)
    have "set (votes (filter answered_ok us) h) \<subseteq> set us" by (auto simp: votes_def)
    from clamp(1) [OF number(1) [OF this], of c] high assms(2) show ?thesis by (auto simp: max_def)
  next
    case (medium vs)
    have "set vs \<subseteq> set us" using medium(7) by auto
    from clamp(2) [OF number(1) [OF this], of c 120] medium assms(2) show ?thesis by (auto simp: max_def)
  next
    case (low v)
    have "v \<in> set us" using fastest_least(1) [OF low(7)] low(6) by auto
    then have "ex_ttlS v \<in> ex_ttlS ` set us" by (rule imageI)
    then have "ex_ttlS v \<noteq> NaN" using assms(3) by metis
    from clamp(2) [OF this, of c 30] low assms(2) show ?thesis by (auto simp: max_def)
  next
    case (none vs)
    have "set vs \<subseteq> set us" using none(1) by auto
    from clamp(1) [OF number(2) [OF this], of 30] none(4,8) show ?thesis by (auto simp: max_def)
  qed
qed

section \<open>Claims\<close>


definition toy_rec_env :: rec_env where
  "toy_rec_env = \<lparr>rv_sha256hex = (\<lambda>s. s), rv_locale = cmp_string, rv_toASCII = (\<lambda>s. s), rv_numstr = (\<lambda>q. ''n''),
     rv_number = (\<lambda>v. case v of JNum n \<Rightarrow> n | _ \<Rightarrow> NaN)\<rparr>"

definition toy_up :: "string \<Rightarrow> string \<Rightarrow> int \<Rightarrow> UpstreamResult" where
  "toy_up url ip rtt = \<lparr>ex_status = NOERROR, ex_chain = [], ex_answers = [], ex_ips = [ip], ex_answersCount = 1,
     ex_ttlS = Fin 900, ex_rrsetHash = ip, ur_url = url, ur_rttMs = rtt\<rparr>"

definition toy_ups :: "UpstreamResult list" where
  "toy_ups = [toy_up ''u1'' ''9.9.9.9'' 3, toy_up ''u2'' ''1.2.3.4'' 20, toy_up ''u3'' ''1.2.3.4'' 10]"

lemma toy_selected: "\<exists>r. selectBest toy_ups (Fin 2) (Fin (34 / 100)) (Fin 300) = Inr r \<and> sl_chosen r = toy_up ''u3'' ''1.2.3.4'' 10 \<and>
    sl_confidence r = HighConf"
  by (simp add: selectBest_def Let_def toy_ups_def toy_up_def answered_ok_def hash_groups_def fastest_def nle_def)


text \<open>The lifetime of an answer is at least a second and at most the configured cap, at most two minutes
  when the servers merely overlap, and at most half a minute when they disagree or the name does not exist.\<close>

theorem selectBest_ttl:
  assumes "selectBest us q t (Fin c) = Inr r" "1 \<le> c" "NaN \<notin> ex_ttlS ` set us"
  shows "\<exists>s. sl_ttlS r = Fin s \<and> 1 \<le> s \<and> s \<le> (if sl_status r = NXDOMAIN then 30
    else case sl_confidence r of HighConf \<Rightarrow> c | MediumConf \<Rightarrow> min c 120 | LowConf \<Rightarrow> min c 30)"
  using assms by (rule selected_ttl)

theorem selectBest_ttl_witness:
  "\<exists>r s. selectBest toy_ups (Fin 2) (Fin (34 / 100)) (Fin 300) = Inr r \<and> sl_ttlS r = Fin s \<and> 1 \<le> s \<and> s \<le> 300"
proof -
  obtain r where r: "selectBest toy_ups (Fin 2) (Fin (34 / 100)) (Fin 300) = Inr r" using toy_selected by blast
  have "NaN \<notin> ex_ttlS ` set toy_ups" by (simp add: toy_ups_def toy_up_def)
  with selectBest_ttl [OF r] r show ?thesis
    by (fastforce split: if_splits ConfidenceLevel.splits)
qed

text \<open>Resolution fails exactly when no server returned addresses and none said that the name does not
  exist. So a name that exists without addresses of the type asked for is reported as a failure of the servers.\<close>

theorem selectBest_fails_iff:
  "(\<exists>e. selectBest us q t c = Inl e) = ({u \<in> set us. answered_ok u \<or> ex_status u = NXDOMAIN} = {})"
  by (auto simp: selectBest_fails filter_empty_conv)

text \<open>Aliases are followed along the CNAME records of the answer, at most ten times and never twice from one
  name; it stops only at a name without an alias, at a name seen before, or after ten steps.\<close>

theorem cname_loop_bounded:
  assumes "cname_loop 10 (by_name records) (normalizeHost qname) {} = (chain, final)"
  shows "alias_path records (normalizeHost qname) chain \<and> final = last (normalizeHost qname # chain) \<and>
    length chain \<le> 10 \<and> distinct (butlast (normalizeHost qname # chain)) \<and>
    (length chain = 10 \<or> alias_of records final = None \<or> final \<in> set (butlast (normalizeHost qname # chain)))"
  using cname_loop_path [OF assms] by auto

definition toy_cname :: "string \<Rightarrow> string \<Rightarrow> DnsRecord" where
  "toy_cname a b = \<lparr>dr_name = a, dr_type = ''CNAME'', dr_data = b, dr_ttl = Fin 60\<rparr>"

theorem cname_loop_bounded_witness:
  "alias_path [toy_cname ''a'' ''b'', toy_cname ''b'' ''a''] ''a'' [''b'', ''a'']"
proof -
  have h: "normalizeHost ''a'' = ''a''" "normalizeHost ''b'' = ''b''" by code_simp+
  have "cname_loop 10 (by_name [toy_cname ''a'' ''b'', toy_cname ''b'' ''a'']) (normalizeHost ''a'') {} = ([''b'', ''a''], ''a'')"
    by (simp add: by_name_def named_def toy_cname_def h Let_def eval_nat_numeral)
  from cname_loop_bounded [OF this] show ?thesis by (simp add: h)
qed

end
