(* ===== verification/Upstreams.thy ===== *)
theory Upstreams
  imports Recursive
begin

section \<open>Asking all servers: a pool of workers (queryUpstreams)\<close>

text \<open>
  \<open>queryUpstreams\<close> starts a few asynchronous workers that take the next index until none is left.
  A step is what one worker does between two \<open>await\<close>s; which worker moves next is not
  determined. \<open>answer i\<close> is the result the query of the \<open>i\<close>-th server will have.
\<close>

datatype worker = Idle | Busy nat | Stopped

record 'r pool =
  pl_next :: nat
  pl_workers :: "worker list"
  pl_out :: "'r option list"

inductive pool_move :: "(nat \<Rightarrow> 'r) \<Rightarrow> 'r pool \<Rightarrow> 'r pool \<Rightarrow> bool" for answer :: "nat \<Rightarrow> 'r" where
  take: "w < length (pl_workers p) \<Longrightarrow> pl_workers p ! w = Idle \<Longrightarrow> pl_next p < length (pl_out p) \<Longrightarrow>
    pool_move answer p (p\<lparr>pl_next := Suc (pl_next p), pl_workers := (pl_workers p)[w := Busy (pl_next p)]\<rparr>)"
| stop: "w < length (pl_workers p) \<Longrightarrow> pl_workers p ! w = Idle \<Longrightarrow> length (pl_out p) \<le> pl_next p \<Longrightarrow>
    pool_move answer p (p\<lparr>pl_next := Suc (pl_next p), pl_workers := (pl_workers p)[w := Stopped]\<rparr>)"
| finish: "w < length (pl_workers p) \<Longrightarrow> pl_workers p ! w = Busy i \<Longrightarrow>
    pool_move answer p (p\<lparr>pl_out := (pl_out p)[i := Some (answer i)], pl_workers := (pl_workers p)[w := Idle]\<rparr>)"

inductive_cases pool_moveE: "pool_move answer p p'"

text \<open>The number of workers: a length that is not a number makes an empty array.\<close>

definition worker_count :: "jsnum \<Rightarrow> nat \<Rightarrow> nat" where
  "worker_count maxConcurrency n =
     (case nmax (Fin 1) (nmin maxConcurrency (jint (int n))) of Fin q \<Rightarrow> nat \<lfloor>q\<rfloor> | _ \<Rightarrow> 0)"

definition pool_start :: "nat \<Rightarrow> nat \<Rightarrow> 'r pool" where
  "pool_start n k = \<lparr>pl_next = 0, pl_workers = replicate k Idle, pl_out = replicate n None\<rparr>"

text \<open>What it computes, as shown below: the result of every server, in the order of the list. The reply and the
  duration of the \<open>i\<close>-th query are \<open>replies ! i\<close>.\<close>

definition queryUpstreams :: "rec_env \<Rightarrow> string list \<Rightarrow> string \<Rightarrow> qtype \<Rightarrow> (fetched \<times> int) list \<Rightarrow> UpstreamResult list" where
  "queryUpstreams env urls qname qtype replies =
     map (\<lambda>i. queryOneUpstream env (urls ! i) qname qtype (fst (replies ! i)) (snd (replies ! i))) [0..<length urls]"

section \<open>Properties\<close>

fun work_left :: "worker \<Rightarrow> nat" where
  "work_left Idle = 1" | "work_left (Busy i) = 2" | "work_left Stopped = 0"

definition pool_work :: "'r pool \<Rightarrow> nat" where
  "pool_work p = 2 * (length (pl_out p) - pl_next p) + sum_list (map work_left (pl_workers p))"

lemma sum_list_replace:
  "i < length ws \<Longrightarrow> sum_list (map f (ws[i := x])) + f (ws ! i) = sum_list (map f ws) + (f x :: nat)"
  by (induction ws arbitrary: i) (auto split: nat.splits)

text \<open>Every step does one unit of work.\<close>

lemma pool_work_decreases: "pool_move answer p p' \<Longrightarrow> pool_work p = Suc (pool_work p')"
proof (induction rule: pool_move.induct)
  case (take w p)
  then show ?case using sum_list_replace [of w "pl_workers p" work_left "Busy (pl_next p)"] by (simp add: pool_work_def)
next
  case (stop w p)
  then show ?case using sum_list_replace [of w "pl_workers p" work_left Stopped] by (simp add: pool_work_def)
next
  case (finish w p i)
  then show ?case using sum_list_replace [of w "pl_workers p" work_left Idle] by (simp add: pool_work_def)
qed

definition pool_inv :: "(nat \<Rightarrow> 'r) \<Rightarrow> nat \<Rightarrow> nat \<Rightarrow> 'r pool \<Rightarrow> bool" where
  "pool_inv answer n k p \<longleftrightarrow> length (pl_out p) = n \<and> length (pl_workers p) = k \<and>
     (\<forall>i < n. i < pl_next p \<longrightarrow> pl_out p ! i = Some (answer i) \<or> Busy i \<in> set (pl_workers p)) \<and>
     (\<forall>i. Busy i \<in> set (pl_workers p) \<longrightarrow> i < n) \<and> (Stopped \<in> set (pl_workers p) \<longrightarrow> n \<le> pl_next p)"

lemma pool_inv_move: "pool_move answer p p' \<Longrightarrow> pool_inv answer n k p \<Longrightarrow> pool_inv answer n k p'"
proof (induction rule: pool_move.induct)
  case (take w p)
  have old: "x \<in> set ((pl_workers p)[w := y])" if "x \<in> set (pl_workers p)" "x \<noteq> Idle" for x y
    using that take(1,2) by (metis in_set_conv_nth length_list_update nth_list_update_neq)
  have new: "Busy (pl_next p) \<in> set ((pl_workers p)[w := Busy (pl_next p)])" using take(1) by (rule set_update_memI)
  have "set ((pl_workers p)[w := Busy (pl_next p)]) \<subseteq> insert (Busy (pl_next p)) (set (pl_workers p))" by (rule set_update_subset_insert)
  with take old new show ?case unfolding pool_inv_def by (auto simp: less_Suc_eq)
next
  case (stop w p)
  have old: "x \<in> set ((pl_workers p)[w := y])" if "x \<in> set (pl_workers p)" "x \<noteq> Idle" for x y
    using that stop(1,2) by (metis in_set_conv_nth length_list_update nth_list_update_neq)
  have "set ((pl_workers p)[w := Stopped]) \<subseteq> insert Stopped (set (pl_workers p))" by (rule set_update_subset_insert)
  with stop old show ?case unfolding pool_inv_def by auto
next
  case (finish w p i)
  have old: "x \<in> set ((pl_workers p)[w := y])" if "x \<in> set (pl_workers p)" "x \<noteq> Busy i" for x y
    using that finish(1,2) by (metis in_set_conv_nth length_list_update nth_list_update_neq)
  have "set ((pl_workers p)[w := Idle]) \<subseteq> insert Idle (set (pl_workers p))" by (rule set_update_subset_insert)
  moreover have "Busy i \<in> set (pl_workers p)" using finish(1,2) by (metis nth_mem)
  moreover have "(pl_out p)[i := Some (answer i)] ! j = Some (answer j) \<or> Busy j \<in> set ((pl_workers p)[w := Idle])"
    if "j < n" "j < pl_next p" for j
    using that finish(3) old [of "Busy j" Idle] by (cases "j = i") (auto simp: pool_inv_def)
  ultimately show ?case using finish(3) unfolding pool_inv_def by auto
qed

lemma pool_inv_start: "pool_inv answer n k (pool_start n k)"
  by (auto simp: pool_inv_def pool_start_def)

lemma pool_run:
  "(pool_move answer ^^ m) (pool_start n k) p \<Longrightarrow> pool_inv answer n k p \<and> m + pool_work p = 2 * n + k"
proof (induction m arbitrary: p)
  case 0
  then show ?case using pool_inv_start by (auto simp: pool_work_def pool_start_def sum_list_replicate)
next
  case (Suc m)
  then obtain p0 where "(pool_move answer ^^ m) (pool_start n k) p0" "pool_move answer p0 p" by auto
  with Suc.IH pool_inv_move pool_work_decreases show ?case by fastforce
qed

text \<open>Only when all workers have stopped can no one move.\<close>

lemma pool_stuck:
  assumes "pool_inv answer n k p" "\<nexists>p'. pool_move answer p p'" "1 \<le> k"
  shows "pl_out p = map (\<lambda>i. Some (answer i)) [0..<n] \<and> pool_work p = 0"
proof -
  have "x = Stopped" if x: "x \<in> set (pl_workers p)" for x
  proof -
    obtain w where w: "w < length (pl_workers p)" "pl_workers p ! w = x" using x unfolding in_set_conv_nth by blast
    show ?thesis
    proof (cases x)
      case Idle
      with w assms(2) pool_move.take [of w p answer] pool_move.stop [of w p answer] show ?thesis by force
    next
      case (Busy i)
      with w assms(2) pool_move.finish [of w p i answer] show ?thesis by blast
    qed simp
  qed
  then have all: "pl_workers p = replicate k Stopped"
    using assms(1) by (metis pool_inv_def replicate_eqI)
  with assms(1,3) have past: "n \<le> pl_next p" and len: "length (pl_out p) = n" by (auto simp: pool_inv_def)
  have "pl_out p ! i = Some (answer i)" if "i < n" for i
    using that assms(1) past unfolding pool_inv_def all by auto
  then have "pl_out p = map (\<lambda>i. Some (answer i)) [0..<n]" using len by (intro nth_equalityI) simp_all
  moreover have "sum_list (map work_left (pl_workers p)) = 0" unfolding all by (induction k) simp_all
  then have "pool_work p = 0" using past len by (simp add: pool_work_def)
  ultimately show ?thesis by blast
qed

lemma worker_count_pos: "c \<noteq> NaN \<Longrightarrow> 1 \<le> worker_count c n"
  by (cases c) (auto simp: worker_count_def nmin_def nmax_def le_nat_iff le_floor_iff)

text \<open>C24: However the workers are interleaved, asking the servers ends: every run has at most two steps
  for each server and one for each worker, and a run that cannot go on has taken exactly these steps and has
  put the result of each server at its own place.\<close>

theorem queryUpstreams_ends:
  assumes "(pool_move (\<lambda>i. queryOneUpstream env (urls ! i) qname qtype (fst (replies ! i)) (snd (replies ! i))) ^^ m)
      (pool_start (length urls) (worker_count maxConcurrency (length urls))) p" "maxConcurrency \<noteq> NaN"
  shows "m \<le> 2 * length urls + worker_count maxConcurrency (length urls) \<and>
    ((\<exists>p'. pool_move (\<lambda>i. queryOneUpstream env (urls ! i) qname qtype (fst (replies ! i)) (snd (replies ! i))) p p') \<or>
     (m = 2 * length urls + worker_count maxConcurrency (length urls) \<and>
      pl_out p = map Some (queryUpstreams env urls qname qtype replies)))"
proof -
  note run = pool_run [OF assms(1)]
  show ?thesis
    using run pool_stuck [OF conjunct1 [OF run] _ worker_count_pos [OF assms(2)]]
    by (fastforce simp: queryUpstreams_def)
qed

definition toy_replies :: "(fetched \<times> int) list" where
  "toy_replies = [(FetchFailed, 5)]"

theorem queryUpstreams_ends_witness:
  "\<exists>p. (pool_move (\<lambda>i. queryOneUpstream toy_rec_env ([''u''] ! i) ''a'' QA (fst (toy_replies ! i)) (snd (toy_replies ! i))) ^^ 3)
      (pool_start 1 1) p \<and> pl_out p = map Some (queryUpstreams toy_rec_env [''u''] ''a'' QA toy_replies)"
proof -
  define ans where "ans = (\<lambda>i. queryOneUpstream toy_rec_env ([''u''] ! i) ''a'' QA (fst (toy_replies ! i)) (snd (toy_replies ! i)))"
  define p1 where "p1 = \<lparr>pl_next = 1, pl_workers = [Busy 0], pl_out = [None :: UpstreamResult option]\<rparr>"
  define p2 where "p2 = \<lparr>pl_next = 1, pl_workers = [Idle], pl_out = [Some (ans 0)]\<rparr>"
  define p3 where "p3 = \<lparr>pl_next = 2, pl_workers = [Stopped], pl_out = [Some (ans 0)]\<rparr>"
  have k: "worker_count (Fin 3) 1 = 1" "length [''u''] = 1" by (simp_all add: worker_count_def)
  have "pool_move ans (pool_start 1 1) p1" using pool_move.take [of 0 "pool_start 1 1" ans] by (simp add: pool_start_def p1_def)
  moreover have "pool_move ans p1 p2" using pool_move.finish [of 0 p1 0 ans] by (simp add: p1_def p2_def)
  moreover have "pool_move ans p2 p3" using pool_move.stop [of 0 p2 ans] by (simp add: p2_def p3_def eval_nat_numeral)
  ultimately have run: "(pool_move ans ^^ 3) (pool_start 1 1) p3" by (auto simp: eval_nat_numeral)
  have "\<nexists>p'. pool_move ans p3 p'" by (auto simp: p3_def elim: pool_moveE)
  with queryUpstreams_ends [where env = toy_rec_env and urls = "[''u'']" and qname = "''a''" and qtype = QA
      and replies = toy_replies and m = 3 and maxConcurrency = "Fin 3", folded ans_def, unfolded k, OF run] run
  show ?thesis unfolding ans_def [symmetric] by (intro exI [of _ p3]) auto
qed

end
