(* ===== verification/RouteAnswers.thy ===== *)
theory RouteAnswers
  imports Recursive Receipts
begin

section \<open>What an adapter answers (gateway/src/adapters/types.ts)\<close>

text \<open>
  The gateway resolves a name through one of several adapters; all answer with a \<open>RouteAnswer\<close>.
  The hash functions work on the UTF-8 bytes of the normalized text: \<open>sha\<close> is SHA-256, a parameter.
\<close>

datatype SourceKind = KPkdns | KRecursive | KEns | KSns | KHandshake | KIpfs | KFilecoin | KArweave

datatype PolicyStatus = PolicyOk | PolicyWarn | PolicyQuarantine

record Policy =
  po_status :: PolicyStatus
  po_confidenceBps :: int
  po_flags :: int
  po_penaltyBps :: int
  po_recommendedTtlCap :: "int option"

record CanonicalInfo =
  ci_programId :: string
  ci_canonicalPda :: string
  ci_destHashHex :: string
  ci_ttlS :: int
  ci_updatedAtSlot :: string

record RouteAnswer =
  ra_name :: string
  ra_nameHashHex :: string
  ra_dest :: "string option"
  ra_destHashHex :: string
  ra_ttlS :: jsnum
  ra_verified :: "bool option"
  ra_canonical :: "CanonicalInfo option"
  ra_error :: "(string \<times> string) option"
  ra_kind :: SourceKind
  ra_ref :: string
  ra_confidenceBps :: int
  ra_policy :: "Policy option"
  ra_proofType :: string
  ra_payload :: json

definition normalizeNameForHash :: "(string \<Rightarrow> string) \<Rightarrow> string \<Rightarrow> string" where
  "normalizeNameForHash toASCII name = toASCII (lower (strip_dot (trim name)))"

definition sha256Bytes :: "(bytes \<Rightarrow> bytes) \<Rightarrow> string \<Rightarrow> bytes" where
  "sha256Bytes sha s = sha (utf8_bytes s)"

definition sha256Hex :: "(bytes \<Rightarrow> bytes) \<Rightarrow> string \<Rightarrow> string" where
  "sha256Hex sha s = ''0x'' @ hex (sha256Bytes sha s)"

definition nameHashBytes :: "(bytes \<Rightarrow> bytes) \<Rightarrow> (string \<Rightarrow> string) \<Rightarrow> string \<Rightarrow> bytes" where
  "nameHashBytes sha toASCII name = sha256Bytes sha (normalizeNameForHash toASCII name)"

definition nameHashHex :: "(bytes \<Rightarrow> bytes) \<Rightarrow> (string \<Rightarrow> string) \<Rightarrow> string \<Rightarrow> string" where
  "nameHashHex sha toASCII name = sha256Hex sha (normalizeNameForHash toASCII name)"

definition normalizeDest :: "string \<Rightarrow> string" where
  "normalizeDest dest = trim dest"

definition destHashHex :: "(bytes \<Rightarrow> bytes) \<Rightarrow> string \<Rightarrow> string" where
  "destHashHex sha dest = sha256Hex sha (normalizeDest dest)"

text \<open>\<open>Object.entries\<close> of an object, or of an array, which is an object too.\<close>

definition object_entries :: "(rat \<Rightarrow> string) \<Rightarrow> json \<Rightarrow> (string \<times> json) list option" where
  "object_entries numstr v = (case v of
     JObj kvs \<Rightarrow> Some kvs
   | JArr xs \<Rightarrow> Some (zip (map (\<lambda>i. numstr (of_nat i)) [0..<length xs]) xs)
   | _ \<Rightarrow> None)"

subsection \<open>Adapters (gateway/src/adapters/shim.ts)\<close>

text \<open>
  A request, with the options that some adapter reads: an absent string option is the empty string where the code tests
  it with \<open>||\<close>. An adapter answers \<open>None\<close> when the name is not its own or is not found, or it throws.
\<close>

record AdapterInput =
  in_name :: string
  in_network :: "string option"
  in_dest :: "string option"
  in_witnessUrl :: "string option"
  in_ipfsHead :: bool
  in_ttlS :: "jsnum option"
  in_mock :: bool
  in_mockDest :: string
  in_evmRpcUrl :: string
  in_solanaRpcUrl :: string
  in_chainId :: "json option"
  in_sourceOverride :: string
  in_qtype :: "string option"

type_synonym adapter = "AdapterInput \<Rightarrow> RouteAnswer option res"

text \<open>What every adapter promises of its answers: they carry its kind, and the hash of the destination they name.\<close>

definition answer_ok :: "(bytes \<Rightarrow> bytes) \<Rightarrow> SourceKind \<Rightarrow> RouteAnswer \<Rightarrow> bool" where
  "answer_ok sha kind a \<longleftrightarrow> ra_kind a = kind \<and> (\<forall>d. ra_dest a = Some d \<longrightarrow> ra_destHashHex a = destHashHex sha d)"

locale route_adapter =
  fixes sha :: "bytes \<Rightarrow> bytes"
    and kind :: SourceKind
    and resolve :: adapter
  assumes answer: "resolve i = Inr (Some a) \<Longrightarrow> answer_ok sha kind a"
begin

lemma dest_hash: "resolve i = Inr (Some a) \<Longrightarrow> ra_dest a = Some d \<Longrightarrow> ra_destHashHex a = destHashHex sha d"
  using answer by (simp add: answer_ok_def)

lemma kind_of: "resolve i = Inr (Some a) \<Longrightarrow> ra_kind a = kind"
  using answer by (simp add: answer_ok_def)

end

lemma answer_okI:
  assumes "ra_kind a = kind" "\<And>d. ra_dest a = Some d \<Longrightarrow> ra_destHashHex a = destHashHex sha d"
  shows "answer_ok sha kind a"
  using assms by (simp add: answer_ok_def)

end
