(* ===== verification/RecursiveCache.thy ===== *)
theory RecursiveCache
  imports Upstreams RouteAnswers
begin

section \<open>The recursive resolver: cache and requests in flight (createRecursiveAdapter)\<close>

text \<open>
  The adapter keeps a cache of answers, which it writes to a file after every change, and a table of the
  queries in flight, so that a name is not asked for twice at the same time. Its asynchronous functions are
  cut at their \<open>await\<close>s: \<open>resolve_start\<close> runs until the answer is known or a query is awaited,
  \<open>flight_end\<close> runs when the servers have replied, \<open>resolve_finish\<close> when a waiting request is
  resumed. \<open>now\<close> is in seconds. Answers and audits are kept as the JSON values that go to the file;
  \<open>disk\<close> is the exception that writing the file raises, if any.
\<close>

record RecursiveConfig =
  rg_upstreamDohUrls :: "string list"
  rg_staleMaxS :: jsnum
  rg_prefetchFraction :: jsnum
  rg_cacheMaxEntries :: jsnum
  rg_maxConcurrency :: "jsnum option"
  rg_quorumMin :: "jsnum option"
  rg_overlapRatio :: "jsnum option"
  rg_ttlCapS :: "jsnum option"

record CacheEntry =
  ca_qname :: string
  ca_qtype :: string
  ca_answers :: "json list"
  ca_ttlS :: jsnum
  ca_fetchedAt :: jsnum
  ca_expiresAt :: jsnum
  ca_staleUntil :: jsnum
  ca_sourceStatus :: UpStatus
  ca_confidence :: ConfidenceLevel
  ca_rrsetHash :: string
  ca_upstreamsUsed :: "json list"
  ca_chosenUpstream :: json

type_synonym rec_cache = "(string \<times> CacheEntry) list"

datatype ResSource = FromCache | FromUpstream | FromStale

record ResolveResult =
  rz_name :: string
  rz_type :: string
  rz_answers :: "json list"
  rz_ttlS :: jsnum
  rz_source :: ResSource
  rz_status :: UpStatus
  rz_confidence :: ConfidenceLevel
  rz_upstreamsUsed :: "json list"
  rz_chosenUpstream :: json
  rz_rrsetHash :: string

text \<open>A query in flight: a plain one, or a prefetch, which answers the old entry when it fails.\<close>

datatype flight = PlainFlight | PrefetchFlight CacheEntry

record RecursiveState =
  ad_cache :: rec_cache
  ad_inFlight :: "string \<rightharpoonup> flight"
  ad_file :: "json option"

definition nowS :: "int \<Rightarrow> int" where
  "nowS ms = ms div 1000"

subsection \<open>Settings\<close>

definition rec_urls :: "RecursiveConfig \<Rightarrow> string list res" where
  "rec_urls cfg =
     (let urls = filter (\<lambda>u. u \<noteq> []) (rg_upstreamDohUrls cfg)
      in if urls = [] then throw ''UPSTREAM_DOH_URLS_EMPTY'' else Inr urls)"

definition rec_quorumMin :: "RecursiveConfig \<Rightarrow> string list \<Rightarrow> jsnum" where
  "rec_quorumMin cfg urls =
     nmax (Fin 1) (case rg_quorumMin cfg of Some q \<Rightarrow> q | None \<Rightarrow> if length urls \<ge> 2 then Fin 2 else Fin 1)"

definition rec_overlap :: "RecursiveConfig \<Rightarrow> jsnum" where
  "rec_overlap cfg = (case rg_overlapRatio cfg of Some r \<Rightarrow> r | None \<Rightarrow> Fin (34 / 100))"

definition rec_ttlCap :: "RecursiveConfig \<Rightarrow> jsnum" where
  "rec_ttlCap cfg = nmax (Fin 1) (case rg_ttlCapS cfg of Some c \<Rightarrow> c | None \<Rightarrow> Fin 300)"

definition rec_concurrency :: "RecursiveConfig \<Rightarrow> jsnum" where
  "rec_concurrency cfg = nmax (Fin 1) (case rg_maxConcurrency cfg of Some c \<Rightarrow> c | None \<Rightarrow> Fin 3)"

definition cache_key :: "(string \<Rightarrow> string) \<Rightarrow> string \<Rightarrow> qtype \<Rightarrow> string" where
  "cache_key toASCII name q = normalizeNameForHash toASCII name @ '':'' @ upper (qtype_text q)"

subsection \<open>The cache and its file\<close>

definition status_text :: "UpStatus \<Rightarrow> string" where
  "status_text s = (case s of NOERROR \<Rightarrow> ''NOERROR'' | NXDOMAIN \<Rightarrow> ''NXDOMAIN'' | UP_ERROR \<Rightarrow> ''ERROR'')"

definition conf_text :: "ConfidenceLevel \<Rightarrow> string" where
  "conf_text c = (case c of HighConf \<Rightarrow> ''high'' | MediumConf \<Rightarrow> ''medium'' | LowConf \<Rightarrow> ''low'')"

definition record_json :: "DnsRecord \<Rightarrow> json" where
  "record_json r = JObj [(''name'', JStr (dr_name r)), (''type'', JStr (dr_type r)), (''data'', JStr (dr_data r)),
     (''ttl'', JNum (dr_ttl r))]"

definition audit_json :: "UpstreamResult \<Rightarrow> json" where
  "audit_json u = JObj [(''url'', JStr (ur_url u)), (''rttMs'', JNum (jint (ur_rttMs u))),
     (''status'', JStr (status_text (ex_status u))), (''answersCount'', JNum (jint (int (ex_answersCount u))))]"

definition chosen_json :: "string \<Rightarrow> jsnum \<Rightarrow> json" where
  "chosen_json url rtt = JObj [(''url'', JStr url), (''rttMs'', JNum rtt)]"

definition entry_json :: "CacheEntry \<Rightarrow> json" where
  "entry_json e = JObj [(''qname'', JStr (ca_qname e)), (''qtype'', JStr (ca_qtype e)), (''answers'', JArr (ca_answers e)),
     (''ttlS'', JNum (ca_ttlS e)), (''fetchedAt'', JNum (ca_fetchedAt e)), (''expiresAt'', JNum (ca_expiresAt e)),
     (''staleUntil'', JNum (ca_staleUntil e)), (''sourceStatus'', JStr (status_text (ca_sourceStatus e))),
     (''confidence'', JStr (conf_text (ca_confidence e))), (''rrsetHash'', JStr (ca_rrsetHash e)),
     (''upstreamsUsed'', JArr (ca_upstreamsUsed e)), (''chosenUpstream'', ca_chosenUpstream e)]"

text \<open>What a value is after \<open>JSON.stringify\<close> and \<open>JSON.parse\<close>: numbers that are not finite become
  \<open>null\<close>.\<close>

primrec json_stored :: "json \<Rightarrow> json" where
  "json_stored JNull = JNull"
| "json_stored (JBool b) = JBool b"
| "json_stored (JNum n) = (if is_finite n then JNum n else JNull)"
| "json_stored (JStr s) = JStr s"
| "json_stored (JArr xs) = JArr (map json_stored xs)"
| "json_stored (JObj kvs) = JObj (map (map_prod id json_stored) kvs)"

definition cache_json :: "rec_cache \<Rightarrow> json" where
  "cache_json cache = JObj [(''version'', JNum (Fin 2)), (''entries'', JObj (map (map_prod id entry_json) cache))]"

definition persist :: "js_error option \<Rightarrow> RecursiveState \<Rightarrow> unit res \<times> RecursiveState" where
  "persist disk st = (case disk of
     Some e \<Rightarrow> (Inl e, st)
   | None \<Rightarrow> (Inr (), st\<lparr>ad_file := Some (json_stored (cache_json (ad_cache st)))\<rparr>))"

definition num_or_default :: "rec_env \<Rightarrow> json option \<Rightarrow> jsnum \<Rightarrow> jsnum" where
  "num_or_default env v d = (case v of None \<Rightarrow> d | Some JNull \<Rightarrow> d | Some x \<Rightarrow> rv_number env x)"

definition arr_or_empty :: "json option \<Rightarrow> json list" where
  "arr_or_empty v = (case v of Some (JArr xs) \<Rightarrow> xs | _ \<Rightarrow> [])"

definition load_entry :: "rec_env \<Rightarrow> int \<Rightarrow> json \<Rightarrow> CacheEntry option" where
  "load_entry env now v =
     (case (jprop v ''qname'', jprop v ''qtype'') of
        (Some (JStr qname), Some (JStr qtype)) \<Rightarrow>
          let chosen = (case jprop v ''chosenUpstream'' of
                 Some c \<Rightarrow> (case (jprop c ''url'', jprop c ''rttMs'') of
                     (Some (JStr _), Some (JNum _)) \<Rightarrow> c | _ \<Rightarrow> chosen_json ''unknown'' (Fin 0))
               | None \<Rightarrow> chosen_json ''unknown'' (Fin 0))
          in Some \<lparr>ca_qname = qname, ca_qtype = qtype, ca_answers = arr_or_empty (jprop v ''answers''),
               ca_ttlS = num_or_default env (jprop v ''ttlS'') (Fin 60),
               ca_fetchedAt = num_or_default env (jprop v ''fetchedAt'') (jint now),
               ca_expiresAt = num_or_default env (jprop v ''expiresAt'') (jint now),
               ca_staleUntil = num_or_default env (jprop v ''staleUntil'') (jint now),
               ca_sourceStatus = (if jprop v ''sourceStatus'' = Some (JStr ''NXDOMAIN'') then NXDOMAIN else NOERROR),
               ca_confidence = (if jprop v ''confidence'' = Some (JStr ''high'') then HighConf
                 else if jprop v ''confidence'' = Some (JStr ''medium'') then MediumConf else LowConf),
               ca_rrsetHash = (case jprop v ''rrsetHash'' of Some (JStr h) \<Rightarrow> h
                 | _ \<Rightarrow> rv_sha256hex env (qtype @ ''|'' @ qname @ ''|'')),
               ca_upstreamsUsed = arr_or_empty (jprop v ''upstreamsUsed''),
               ca_chosenUpstream = chosen\<rparr>
      | _ \<Rightarrow> None)"

text \<open>\<open>file\<close> is the parsed file, if there is one that parses.\<close>

definition loadCache :: "rec_env \<Rightarrow> int \<Rightarrow> json option \<Rightarrow> rec_cache" where
  "loadCache env now file =
     (case (case file of None \<Rightarrow> None | Some p \<Rightarrow> jprop p ''entries'') of
        None \<Rightarrow> []
      | Some es \<Rightarrow> (case object_entries (rv_numstr env) es of
          None \<Rightarrow> []
        | Some kvs \<Rightarrow> fold (\<lambda>(k, e) m. AList.update k e m)
            (List.map_filter (\<lambda>(k, v). map_option (Pair k) (load_entry env now v)) kvs) []))"

definition evict_count :: "nat \<Rightarrow> jsnum \<Rightarrow> nat" where
  "evict_count n maxEntries = (case nsub (jint (int n)) maxEntries of Fin q \<Rightarrow> nat \<lceil>q\<rceil> | _ \<Rightarrow> 0)"

definition evictIfNeeded :: "RecursiveConfig \<Rightarrow> rec_cache \<Rightarrow> rec_cache" where
  "evictIfNeeded cfg cache =
     (let maxEntries = nmax (Fin 1) (nor (rg_cacheMaxEntries cfg) (Fin 50000)) in
      if nle (jint (int (length cache))) maxEntries then cache
      else let items = js_sort (\<lambda>a b. cmp_num (ca_fetchedAt (snd a)) (ca_fetchedAt (snd b))) cache
           in fold (\<lambda>(k, e) m. AList.delete k m) (take (evict_count (length items) maxEntries) items) cache)"

subsection \<open>Queries\<close>

definition from_entry :: "string \<Rightarrow> qtype \<Rightarrow> jsnum \<Rightarrow> ResSource \<Rightarrow> CacheEntry \<Rightarrow> ResolveResult" where
  "from_entry qname q ttl source e =
     \<lparr>rz_name = qname, rz_type = qtype_text q, rz_answers = ca_answers e, rz_ttlS = ttl, rz_source = source,
      rz_status = ca_sourceStatus e, rz_confidence = ca_confidence e, rz_upstreamsUsed = ca_upstreamsUsed e,
      rz_chosenUpstream = ca_chosenUpstream e, rz_rrsetHash = ca_rrsetHash e\<rparr>"

definition new_entry :: "RecursiveConfig \<Rightarrow> int \<Rightarrow> string \<Rightarrow> qtype \<Rightarrow> UpstreamResult list \<Rightarrow> Selection \<Rightarrow> CacheEntry" where
  "new_entry cfg now qname q upstreams sel =
     \<lparr>ca_qname = qname, ca_qtype = qtype_text q,
      ca_answers = (if sl_status sel = NOERROR then map record_json (ex_answers (sl_chosen sel)) else []),
      ca_ttlS = sl_ttlS sel, ca_fetchedAt = jint now, ca_expiresAt = nadd (jint now) (sl_ttlS sel),
      ca_staleUntil = nadd (nadd (jint now) (sl_ttlS sel)) (nmax (Fin 0) (nor (rg_staleMaxS cfg) (Fin 1800))),
      ca_sourceStatus = sl_status sel, ca_confidence = sl_confidence sel, ca_rrsetHash = ex_rrsetHash (sl_chosen sel),
      ca_upstreamsUsed = map audit_json upstreams,
      ca_chosenUpstream = chosen_json (ur_url (sl_chosen sel)) (jint (ur_rttMs (sl_chosen sel)))\<rparr>"

definition refresh ::
  "rec_env \<Rightarrow> RecursiveConfig \<Rightarrow> string list \<Rightarrow> int \<Rightarrow> js_error option \<Rightarrow> string \<Rightarrow> qtype \<Rightarrow> string \<Rightarrow>
     (fetched \<times> int) list \<Rightarrow> RecursiveState \<Rightarrow> ResolveResult res \<times> RecursiveState" where
  "refresh env cfg urls now disk qname q key replies st =
     (let upstreams = queryUpstreams env urls qname q replies in
      case selectBest upstreams (rec_quorumMin cfg urls) (rec_overlap cfg) (rec_ttlCap cfg) of
        Inl e \<Rightarrow> (Inl e, st)
      | Inr sel \<Rightarrow>
          (let entry = new_entry cfg now qname q upstreams sel;
               st1 = st\<lparr>ad_cache := evictIfNeeded cfg (AList.update key entry (ad_cache st))\<rparr> in
           case persist disk st1 of
             (Inl e, st2) \<Rightarrow> (Inl e, st2)
           | (Inr _, st2) \<Rightarrow> (Inr (from_entry qname q (ca_ttlS entry) FromUpstream entry), st2)))"

datatype resolve_state =
    Rejected js_error
  | Resolved ResolveResult
  | Waiting string string qtype int "CacheEntry option"

definition parse_qtype :: "string \<Rightarrow> qtype option" where
  "parse_qtype s = (if upper s = ''A'' then Some QA else if upper s = ''AAAA'' then Some QAAAA else None)"

definition resolve_start ::
  "rec_env \<Rightarrow> RecursiveConfig \<Rightarrow> int \<Rightarrow> string \<Rightarrow> string \<Rightarrow> RecursiveState \<Rightarrow> resolve_state \<times> RecursiveState" where
  "resolve_start env cfg now name qtype st =
     (let qname = normalizeNameForHash (rv_toASCII env) name in
      case parse_qtype qtype of
        None \<Rightarrow> (Rejected (JsError (''Unsupported qtype '' @ [CHR 0x22] @ qtype @ [CHR 0x22] @
            ''. Only A and AAAA are supported by the recursive adapter.'')), st)
      | Some q \<Rightarrow>
          let k = cache_key (rv_toASCII env) qname q;
              wait = (Waiting k qname q now (map_of (ad_cache st) k),
                if ad_inFlight st k \<noteq> None then st else st\<lparr>ad_inFlight := (ad_inFlight st)(k \<mapsto> PlainFlight)\<rparr>) in
          (case map_of (ad_cache st) k of
             None \<Rightarrow> wait
           | Some existing \<Rightarrow>
               if \<not> nlt (jint now) (ca_expiresAt existing) then wait
               else let left = nsub (ca_expiresAt existing) (jint now);
                        threshold = nmax (Fin 5) (nfloor (nmul (ca_ttlS existing) (nor (rg_prefetchFraction cfg) (Fin (1 / 10)))));
                        st1 = (if nlt left threshold \<and> ad_inFlight st k = None
                          then st\<lparr>ad_inFlight := (ad_inFlight st)(k \<mapsto> PrefetchFlight existing)\<rparr> else st)
                    in (Resolved (from_entry qname q left FromCache existing), st1)))"

definition flight_end ::
  "rec_env \<Rightarrow> RecursiveConfig \<Rightarrow> string list \<Rightarrow> int \<Rightarrow> js_error option \<Rightarrow> string \<Rightarrow> qtype \<Rightarrow> string \<Rightarrow>
     (fetched \<times> int) list \<Rightarrow> RecursiveState \<Rightarrow> ResolveResult res \<times> RecursiveState" where
  "flight_end env cfg urls now disk qname q key replies st =
     (let (r, st1) = refresh env cfg urls now disk qname q key replies st;
          r1 = (case (r, ad_inFlight st key) of
             (Inl e, Some (PrefetchFlight existing)) \<Rightarrow>
               Inr (from_entry qname q (nmax (Fin 0) (nsub (ca_expiresAt existing) (jint now))) FromStale existing)
           | _ \<Rightarrow> r)
      in (r1, st1\<lparr>ad_inFlight := (ad_inFlight st1)(key := None)\<rparr>))"

text \<open>\<open>now\<close> and \<open>existing\<close> are those of the start of the request.\<close>

definition resolve_finish :: "string \<Rightarrow> qtype \<Rightarrow> int \<Rightarrow> CacheEntry option \<Rightarrow> ResolveResult res \<Rightarrow> ResolveResult res" where
  "resolve_finish qname q now existing_opt r =
     (case r of
        Inr x \<Rightarrow> Inr x
      | Inl e \<Rightarrow> (case existing_opt of
          None \<Rightarrow> Inl e
        | Some existing \<Rightarrow> if nle (jint now) (ca_staleUntil existing)
            then Inr (from_entry qname q (nmax (Fin 0) (nsub (ca_expiresAt existing) (jint now))) FromStale existing)
            else Inl e))"

text \<open>The adapter's answer for a resolved name.\<close>

definition recursive_answer :: "(bytes \<Rightarrow> bytes) \<Rightarrow> rec_env \<Rightarrow> ResolveResult \<Rightarrow> RouteAnswer" where
  "recursive_answer sha env out =
     (let first = (case rz_answers out of [] \<Rightarrow> [] | a # _ \<Rightarrow> (case jprop a ''data'' of Some (JStr s) \<Rightarrow> s | _ \<Rightarrow> []))
      in \<lparr>ra_name = rz_name out, ra_nameHashHex = nameHashHex sha (rv_toASCII env) (rz_name out),
          ra_dest = (if first = [] then None else Some first), ra_destHashHex = destHashHex sha first,
          ra_ttlS = rz_ttlS out, ra_verified = None, ra_canonical = None, ra_error = None, ra_kind = KRecursive,
          ra_ref = (case jprop (rz_chosenUpstream out) ''url'' of Some (JStr u) \<Rightarrow> u | _ \<Rightarrow> []),
          ra_confidenceBps = (case rz_confidence out of HighConf \<Rightarrow> 9500 | MediumConf \<Rightarrow> 7500 | LowConf \<Rightarrow> 5500),
          ra_policy = None, ra_proofType = ''none'',
          ra_payload = JObj [(''name'', JStr (rz_name out)), (''type'', JStr (rz_type out)),
            (''status'', JStr (status_text (rz_status out))), (''answers'', JArr (rz_answers out)),
            (''ttl_s'', JNum (rz_ttlS out)),
            (''source'', JStr (case rz_source out of FromCache \<Rightarrow> ''cache'' | FromUpstream \<Rightarrow> ''upstream'' | FromStale \<Rightarrow> ''stale'')),
            (''confidence'', JStr (conf_text (rz_confidence out))), (''rrset_hash'', JStr (rz_rrsetHash out)),
            (''upstreams_used'', JArr (rz_upstreamsUsed out)), (''chosen_upstream'', rz_chosenUpstream out)]\<rparr>)"

section \<open>Properties\<close>

subsection \<open>The entries of the cache\<close>

definition stale_span :: "RecursiveConfig \<Rightarrow> rat" where
  "stale_span cfg = max 0 (fin_part (nor (rg_staleMaxS cfg) (Fin 1800)))"

definition ttl_limit :: "RecursiveConfig \<Rightarrow> rat" where
  "ttl_limit cfg = max 30 (fin_part (rec_ttlCap cfg))"

text \<open>Settings that are numbers.\<close>

definition config_numbers :: "RecursiveConfig \<Rightarrow> bool" where
  "config_numbers cfg \<longleftrightarrow> is_finite (rec_ttlCap cfg) \<and> is_finite (nor (rg_staleMaxS cfg) (Fin 1800))"

text \<open>A value that the file keeps.\<close>

definition storable :: "json \<Rightarrow> bool" where
  "storable v \<longleftrightarrow> json_stored v = v"

definition entry_ok :: "RecursiveConfig \<Rightarrow> CacheEntry \<Rightarrow> bool" where
  "entry_ok cfg e \<longleftrightarrow> (\<exists>f s. ca_ttlS e = Fin s \<and> 1 \<le> s \<and> s \<le> ttl_limit cfg \<and> ca_fetchedAt e = jint f \<and>
     ca_expiresAt e = Fin (of_int f + s) \<and> ca_staleUntil e = Fin (of_int f + s + stale_span cfg)) \<and>
     ca_sourceStatus e \<noteq> UP_ERROR \<and> list_all storable (ca_answers e) \<and> list_all storable (ca_upstreamsUsed e) \<and>
     (\<exists>url rtt. ca_chosenUpstream e = chosen_json url (Fin rtt))"

text \<open>Replies in which every lifetime is a number, one for each server.\<close>

definition replies_ok :: "rec_env \<Rightarrow> string list \<Rightarrow> (fetched \<times> int) list \<Rightarrow> bool" where
  "replies_ok env urls replies \<longleftrightarrow> length replies = length urls \<and>
     list_all (\<lambda>(f, t). case f of Body v \<Rightarrow> list_all (\<lambda>r. is_finite (dr_ttl r)) (read_records env v) | _ \<Rightarrow> True) replies"

lemma min_of_finite:
  assumes "xs \<noteq> []" "\<And>x. x \<in> set xs \<Longrightarrow> is_finite x"
  shows "is_finite (min_of xs)"
proof -
  have step: "is_finite m \<Longrightarrow> list_all is_finite ys \<Longrightarrow> is_finite (fold (\<lambda>x m. nmin m x) ys m)" for ys m
    by (induction ys arbitrary: m) (auto simp: is_finite_iff nmin_def)
  obtain y ys where xs: "xs = y # ys" using assms(1) by (cases xs) auto
  then have "is_finite y" "list_all is_finite ys" using assms(2) by (simp_all add: list_all_iff)
  moreover from \<open>is_finite y\<close> have "is_finite (nmin PosInf y)" by (auto simp: is_finite_iff nmin_def)
  ultimately have "is_finite (nmin PosInf y)" "list_all is_finite ys" by blast+
  from step [OF this] show ?thesis by (simp add: xs min_of_def)
qed

lemma extract_finite:
  assumes "list_all (\<lambda>r. is_finite (dr_ttl r)) (read_records env v)"
  shows "is_finite (ex_ttlS (normalizeAndExtract env qname q v)) \<and>
    list_all (\<lambda>r. is_finite (dr_ttl r)) (ex_answers (normalizeAndExtract env qname q v))"
proof -
  have sub: "set us \<subseteq> set (read_records env v) \<Longrightarrow> is_finite (minTtl us (Fin 60)) \<and> list_all (\<lambda>r. is_finite (dr_ttl r)) us" for us
  proof -
    assume us: "set us \<subseteq> set (read_records env v)"
    then have fin: "list_all (\<lambda>r. is_finite (dr_ttl r)) us" using assms unfolding list_all_iff by blast
    have "is_finite (nmax (Fin 1) x)" if "is_finite x" for x using that by (auto simp: is_finite_iff)
    moreover have "us \<noteq> [] \<Longrightarrow> is_finite (min_of (map dr_ttl us))"
      using fin by (intro min_of_finite) (auto simp: list_all_iff)
    ultimately show ?thesis using fin by (simp add: minTtl_def)
  qed
  show ?thesis
    unfolding normalizeAndExtract_def Let_def
    by (auto simp: failed_extract_def by_name_named intro!: sub [THEN conjunct1] sub [THEN conjunct2] split: prod.splits)
qed

lemma query_fields:
  "ex_ttlS (queryOneUpstream env u qname q f t) = (case f of Body v \<Rightarrow> ex_ttlS (normalizeAndExtract env qname q v) | _ \<Rightarrow> Fin 1)"
  "ex_answers (queryOneUpstream env u qname q f t) = (case f of Body v \<Rightarrow> ex_answers (normalizeAndExtract env qname q v) | _ \<Rightarrow> [])"
  by (simp_all add: queryOneUpstream_def Extract.defs UpstreamResult.defs failed_extract_def split: fetched.splits)

lemma queries_finite:
  assumes "replies_ok env urls replies" "u \<in> set (queryUpstreams env urls qname q replies)"
  shows "is_finite (ex_ttlS u) \<and> list_all (\<lambda>r. is_finite (dr_ttl r)) (ex_answers u)"
proof -
  from assms obtain i where i: "i < length replies"
    "u = queryOneUpstream env (urls ! i) qname q (fst (replies ! i)) (snd (replies ! i))"
    by (auto simp: queryUpstreams_def replies_ok_def)
  then have "case fst (replies ! i) of Body v \<Rightarrow> list_all (\<lambda>r. is_finite (dr_ttl r)) (read_records env v) | _ \<Rightarrow> True"
    using assms(1) nth_mem [OF i(1)] by (auto simp: replies_ok_def list_all_iff case_prod_beta)
  then show ?thesis using extract_finite by (auto simp: i(2) query_fields split: fetched.splits)
qed

lemma storable_values: "is_finite (dr_ttl r) \<Longrightarrow> storable (record_json r)" "storable (audit_json u)"
    "storable (chosen_json url (Fin rtt))"
  by (simp_all add: storable_def record_json_def audit_json_def chosen_json_def)

lemma new_entry_ok:
  assumes "config_numbers cfg" "replies_ok env urls replies" "us = queryUpstreams env urls qname q replies"
    "selectBest us a b (rec_ttlCap cfg) = Inr sel"
  shows "entry_ok cfg (new_entry cfg now qname q us sel)"
proof -
  have one: "1 \<le> c" if "rec_ttlCap cfg = Fin c" for c
    using that by (cases "case rg_ttlCapS cfg of Some c \<Rightarrow> c | None \<Rightarrow> Fin 300") (auto simp: rec_ttlCap_def nmax_def split: if_splits)
  from assms(1) obtain c f where c: "rec_ttlCap cfg = Fin c" "nor (rg_staleMaxS cfg) (Fin 1800) = Fin f"
    by (auto simp: config_numbers_def is_finite_iff)
  note fin = queries_finite [OF assms(2), folded assms(3)]
  have "NaN \<notin> ex_ttlS ` set us"
  proof
    assume "NaN \<in> ex_ttlS ` set us"
    then obtain u where "u \<in> set us" "ex_ttlS u = NaN" by (metis imageE)
    with assms(3) queries_finite [OF assms(2)] show False by (metis is_finite_simps(2))
  qed
  from selected_ttl [OF assms(4) [unfolded c(1)] one [OF c(1)] this]
  obtain s where s: "sl_ttlS sel = Fin s" "1 \<le> s" "s \<le> (if sl_status sel = NXDOMAIN then 30
    else case sl_confidence sel of HighConf \<Rightarrow> c | MediumConf \<Rightarrow> min c 120 | LowConf \<Rightarrow> min c 30)" by blast
  have "s \<le> ttl_limit cfg"
    using s(3) c(1) by (auto simp: ttl_limit_def split: if_splits ConfidenceLevel.splits)
  moreover have "sl_chosen sel \<in> set us \<and> sl_status sel \<noteq> UP_ERROR"
    using assms(4) by (cases rule: selectBest_cases) (use fastest_least(1) votes_set in \<open>fastforce\<close>)+
  ultimately show ?thesis
    using s c queries_finite [OF assms(2), of "sl_chosen sel" qname q]
    by (auto simp: entry_ok_def new_entry_def stale_span_def assms(3) storable_values list_all_iff)
qed

subsection \<open>Eviction\<close>

lemma delete_keys: "fst ` set (AList.delete k c) = fst ` set c - {k}"
  by (induction c) auto

lemma delete_subset: "set (AList.delete k c) \<subseteq> set c"
  by (induction c) auto

lemma delete_all:
  "set (fold (\<lambda>(k, e) m. AList.delete k m) ds c) \<subseteq> set c"
  "distinct (map fst c) \<Longrightarrow> distinct (map fst (fold (\<lambda>(k, e) m. AList.delete k m) ds c))"
proof (induction ds arbitrary: c)
  case (Cons d ds)
  { case 1
    show ?case using Cons.IH(1) [of "AList.delete (fst d) c"] delete_subset [of "fst d" c] by (simp add: case_prod_beta subset_trans) }
  { case 2
    show ?case using Cons.IH(2) [of "AList.delete (fst d) c"] 2 by (simp add: case_prod_beta AList.distinct_delete) }
qed simp_all

lemma length_delete: "distinct (map fst c) \<Longrightarrow> k \<in> fst ` set c \<Longrightarrow> Suc (length (AList.delete k c)) = length c"
proof (induction c)
  case (Cons a c)
  have "AList.delete k c = c" if "k \<notin> fst ` set c" using that by (induction c) auto
  with Cons show ?case by (cases "fst a = k") auto
qed simp

lemma length_delete_all:
  "distinct (map fst c) \<Longrightarrow> distinct (map fst ds) \<Longrightarrow> fst ` set ds \<subseteq> fst ` set c \<Longrightarrow>
     length (fold (\<lambda>(k, e) m. AList.delete k m) ds c) + length ds = length c"
proof (induction ds arbitrary: c)
  case (Cons d ds)
  obtain k e where d: "d = (k, e)" by force
  have len: "Suc (length (AList.delete k c)) = length c" using Cons.prems d by (intro length_delete) auto
  have "fst ` set ds \<subseteq> fst ` set (AList.delete k c)" using Cons.prems(2,3) d unfolding delete_keys
    by (simp add: subset_Diff_insert)
  with Cons.IH [of "AList.delete k c"] Cons.prems len d show ?case by (simp add: AList.distinct_delete)
qed simp

lemma evict_subset: "set (evictIfNeeded cfg c) \<subseteq> set c"
  by (simp add: evictIfNeeded_def Let_def delete_all)

lemma evict_distinct: "distinct (map fst c) \<Longrightarrow> distinct (map fst (evictIfNeeded cfg c))"
  by (simp add: evictIfNeeded_def Let_def delete_all)

lemma sort_keys: "distinct (map fst c) \<Longrightarrow> distinct (map fst (js_sort cmp c))"
  by (metis distinct_map distinct_count_atmost_1 mset_js_sort set_js_sort set_mset_mset)

lemma evict_size:
  assumes "nmax (Fin 1) (nor (rg_cacheMaxEntries cfg) (Fin 50000)) = jint n" "distinct (map fst c)"
  shows "int (length (evictIfNeeded cfg c)) = min (int (length c)) n"
proof (cases "int (length c) \<le> n")
  case True
  then show ?thesis by (simp add: evictIfNeeded_def assms(1))
next
  case False
  let ?items = "js_sort (\<lambda>a b. cmp_num (ca_fetchedAt (snd a)) (ca_fetchedAt (snd b))) c"
  let ?k = "nat (int (length c) - n)"
  have n: "1 \<le> n"
    using assms(1) by (cases "nor (rg_cacheMaxEntries cfg) (Fin 50000)") (auto simp: nmax_def split: if_splits)
  have "\<lceil>of_int (int (length c)) - (of_int n :: rat)\<rceil> = int (length c) - n"
    unfolding of_int_diff [symmetric] ceiling_of_int ..
  then have count: "evict_count (length ?items) (jint n) = ?k" by (simp add: evict_count_def)
  have e: "evictIfNeeded cfg c = fold (\<lambda>(k, e) m. AList.delete k m) (take ?k ?items) c"
    using False count by (simp add: evictIfNeeded_def assms(1))
  have "distinct (map fst (take ?k ?items))" using sort_keys [OF assms(2)] by (simp add: take_map [symmetric])
  moreover have "fst ` set (take ?k ?items) \<subseteq> fst ` set c" using set_take_subset [of ?k ?items] by auto
  ultimately have "length (evictIfNeeded cfg c) + length (take ?k ?items) = length c"
    unfolding e by (intro length_delete_all assms(2))
  moreover have "length (take ?k ?items) = ?k" using False n by simp
  ultimately show ?thesis using False n by linarith
qed

subsection \<open>The file\<close>

text \<open>\<open>Number\<close> of a number is that number.\<close>

definition number_law :: "rec_env \<Rightarrow> bool" where
  "number_law env \<longleftrightarrow> (\<forall>q. rv_number env (JNum (Fin q)) = Fin q)"

lemma stored_list: "list_all storable xs \<Longrightarrow> map json_stored xs = xs"
  by (induction xs) (auto simp: storable_def)

lemma load_entry_stored:
  assumes "entry_ok cfg e" "number_law env"
  shows "load_entry env now (json_stored (entry_json e)) = Some e"
proof -
  from assms(1) obtain f s url rtt where e: "ca_ttlS e = Fin s" "ca_fetchedAt e = jint f" "ca_expiresAt e = Fin (of_int f + s)"
    "ca_staleUntil e = Fin (of_int f + s + stale_span cfg)" "ca_chosenUpstream e = chosen_json url (Fin rtt)"
    "ca_sourceStatus e \<noteq> UP_ERROR" "list_all storable (ca_answers e)" "list_all storable (ca_upstreamsUsed e)"
    by (auto simp: entry_ok_def)
  show ?thesis
    using e(1-6) assms(2) stored_list [OF e(7)] stored_list [OF e(8)]
    by (cases e; cases "ca_sourceStatus e"; cases "ca_confidence e")
      (simp_all add: load_entry_def entry_json_def jprop_def chosen_json_def num_or_default_def arr_or_empty_def
        number_law_def status_text_def conf_text_def)
qed

definition cache_ok :: "RecursiveConfig \<Rightarrow> rec_cache \<Rightarrow> bool" where
  "cache_ok cfg c \<longleftrightarrow> distinct (map fst c) \<and> (\<forall>(k, e) \<in> set c. entry_ok cfg e)"

lemma update_new: "k \<notin> fst ` set m \<Longrightarrow> AList.update k e m = m @ [(k, e)]"
  by (induction m) auto

lemma update_all:
  "distinct (map fst (m @ c)) \<Longrightarrow> fold (\<lambda>(k, e) m. AList.update k e m) c m = m @ c"
proof (induction c arbitrary: m)
  case (Cons x c)
  obtain k e where x: "x = (k, e)" by force
  have "AList.update k e m = m @ [(k, e)]" using Cons.prems x by (intro update_new) auto
  with Cons.IH [of "m @ [(k, e)]"] Cons.prems x show ?case by simp
qed simp

lemma loadCache_stored:
  assumes "cache_ok cfg c" "number_law env"
  shows "loadCache env now (Some (json_stored (cache_json c))) = c"
proof -
  have "List.map_filter (\<lambda>(k, v). map_option (Pair k) (load_entry env now v)) (map (map_prod id json_stored) (map (map_prod id entry_json) c)) = c"
    using assms by (induction c) (auto simp: cache_ok_def List.map_filter_def load_entry_stored)
  moreover have "fold (\<lambda>(k, e) m. AList.update k e m) c [] = c"
    using assms(1) update_all [of "[]" c] by (simp add: cache_ok_def)
  ultimately show ?thesis by (simp add: loadCache_def cache_json_def jprop_def object_entries_def)
qed

section \<open>Runs of the adapter\<close>

text \<open>
  A request, or the end of a query in flight with the replies of the servers. A query for a key that is not
  in flight does not end.
\<close>

datatype rec_event =
    Request int string string
  | Reply int "js_error option" string qtype "(fetched \<times> int) list"

fun rec_step :: "rec_env \<Rightarrow> RecursiveConfig \<Rightarrow> string list \<Rightarrow> rec_event \<Rightarrow> RecursiveState \<Rightarrow> RecursiveState" where
  "rec_step env cfg urls (Request now name qtype) st = snd (resolve_start env cfg now name qtype st)"
| "rec_step env cfg urls (Reply now disk qname q replies) st =
     (let key = cache_key (rv_toASCII env) qname q
      in if ad_inFlight st key = None then st
         else snd (flight_end env cfg urls now disk qname q key replies st))"

fun event_ok :: "rec_env \<Rightarrow> string list \<Rightarrow> rec_event \<Rightarrow> bool" where
  "event_ok env urls (Request now name qtype) = True"
| "event_ok env urls (Reply now disk qname q replies) = replies_ok env urls replies"

fun disk_works :: "rec_event \<Rightarrow> bool" where
  "disk_works (Reply now disk qname q replies) = (disk = None)"
| "disk_works _ = True"

definition rec_start :: RecursiveState where
  "rec_start = \<lparr>ad_cache = [], ad_inFlight = Map.empty, ad_file = None\<rparr>"

definition rec_run :: "rec_env \<Rightarrow> RecursiveConfig \<Rightarrow> string list \<Rightarrow> rec_event list \<Rightarrow> RecursiveState" where
  "rec_run env cfg urls evs = fold (rec_step env cfg urls) evs rec_start"

lemma resolve_start_cache:
  "ad_cache (snd (resolve_start env cfg now name qt st)) = ad_cache st"
  "ad_file (snd (resolve_start env cfg now name qt st)) = ad_file st"
  by (auto simp: resolve_start_def Let_def split: option.splits)

lemma refresh_cases:
  assumes "refresh env cfg urls now disk qname q key replies st = (r, st')"
  obtains (failed) e where "r = Inl e" "st' = st"
      "selectBest (queryUpstreams env urls qname q replies) (rec_quorumMin cfg urls) (rec_overlap cfg) (rec_ttlCap cfg) = Inl e"
  | (stored) sel where
      "selectBest (queryUpstreams env urls qname q replies) (rec_quorumMin cfg urls) (rec_overlap cfg) (rec_ttlCap cfg) = Inr sel"
      "ad_cache st' = evictIfNeeded cfg (AList.update key (new_entry cfg now qname q (queryUpstreams env urls qname q replies) sel) (ad_cache st))"
      "disk = None \<Longrightarrow> ad_file st' = Some (json_stored (cache_json (ad_cache st')))"
      "ad_inFlight st' = ad_inFlight st"
  using assms
proof (cases "selectBest (queryUpstreams env urls qname q replies) (rec_quorumMin cfg urls) (rec_overlap cfg) (rec_ttlCap cfg)")
  case (Inl e)
  with assms show ?thesis by (intro failed [of e]) (simp_all add: refresh_def)
next
  case (Inr sel)
  with assms show ?thesis
    by (intro stored [of sel]) (cases disk; auto simp: refresh_def persist_def Let_def)+
qed

lemma update_ok:
  assumes "cache_ok cfg c" "entry_ok cfg e"
  shows "cache_ok cfg (AList.update k e c)"
proof -
  have "set (AList.update k e c) \<subseteq> insert (k, e) (set c)" by (induction c) auto
  with assms show ?thesis unfolding cache_ok_def by (auto simp: AList.distinct_update)
qed

lemma evict_ok: "cache_ok cfg c \<Longrightarrow> cache_ok cfg (evictIfNeeded cfg c)"
  using evict_subset evict_distinct unfolding cache_ok_def by blast

text \<open>What holds of every reachable state; \<open>ok\<close> says that no write to the file has failed.\<close>

definition rec_inv :: "rec_env \<Rightarrow> RecursiveConfig \<Rightarrow> bool \<Rightarrow> RecursiveState \<Rightarrow> bool" where
  "rec_inv env cfg ok st \<longleftrightarrow> cache_ok cfg (ad_cache st) \<and>
     (\<forall>n. nmax (Fin 1) (nor (rg_cacheMaxEntries cfg) (Fin 50000)) = jint n \<longrightarrow> int (length (ad_cache st)) \<le> max 0 n) \<and>
     (ok \<longrightarrow> (ad_file st = None \<and> ad_cache st = []) \<or> ad_file st = Some (json_stored (cache_json (ad_cache st))))"

lemma flight_end_frame:
  assumes "refresh env cfg urls now disk qname q key replies st = (r, st1)"
  shows "ad_cache (snd (flight_end env cfg urls now disk qname q key replies st)) = ad_cache st1"
    "ad_file (snd (flight_end env cfg urls now disk qname q key replies st)) = ad_file st1"
  by (simp_all add: flight_end_def assms)

lemma rec_inv_step:
  assumes "rec_inv env cfg ok st" "config_numbers cfg" "event_ok env urls ev"
  shows "rec_inv env cfg (ok \<and> disk_works ev) (rec_step env cfg urls ev st)"
proof (cases ev)
  case (Request now name qt)
  with assms(1) show ?thesis by (auto simp: rec_inv_def resolve_start_cache)
next
  case (Reply now disk qname q replies)
  let ?key = "cache_key (rv_toASCII env) qname q"
  let ?us = "queryUpstreams env urls qname q replies"
  show ?thesis
  proof (cases "ad_inFlight st ?key = None")
    case True
    with Reply assms(1) show ?thesis by (auto simp: rec_inv_def)
  next
    case False
    obtain r st1 where ref: "refresh env cfg urls now disk qname q ?key replies st = (r, st1)" by force
    then have "rec_inv env cfg (ok \<and> disk = None) st1"
    proof (cases rule: refresh_cases)
      case (failed e)
      with assms(1) show ?thesis by (auto simp: rec_inv_def)
    next
      case (stored sel)
      have "entry_ok cfg (new_entry cfg now qname q ?us sel)"
        using new_entry_ok [OF assms(2) _ refl stored(1)] assms(3) Reply by simp
      then have upd: "cache_ok cfg (AList.update ?key (new_entry cfg now qname q ?us sel) (ad_cache st))"
        using assms(1) update_ok unfolding rec_inv_def by blast
      have "int (length (ad_cache st1)) \<le> max 0 n" if "nmax (Fin 1) (nor (rg_cacheMaxEntries cfg) (Fin 50000)) = jint n" for n
        using evict_size [OF that] upd unfolding stored(2) cache_ok_def by simp
      with stored(2,3) evict_ok [OF upd] show ?thesis unfolding rec_inv_def by metis
    qed
    moreover have "rec_step env cfg urls ev st = snd (flight_end env cfg urls now disk qname q ?key replies st)"
      using Reply False by (auto simp: Let_def)
    then have "ad_cache (rec_step env cfg urls ev st) = ad_cache st1" "ad_file (rec_step env cfg urls ev st) = ad_file st1"
      by (simp_all only: flight_end_frame [OF ref])
    ultimately show ?thesis
      using Reply unfolding rec_inv_def by (simp only: disk_works.simps) blast
  qed
qed

lemma rec_run_inv:
  assumes "config_numbers cfg" "list_all (event_ok env urls) evs"
  shows "rec_inv env cfg (list_all disk_works evs) (rec_run env cfg urls evs)"
proof -
  have "rec_inv env cfg ok st \<Longrightarrow> list_all (event_ok env urls) evs \<Longrightarrow>
      rec_inv env cfg (ok \<and> list_all disk_works evs) (fold (rec_step env cfg urls) evs st)" for ok st
  proof (induction evs arbitrary: ok st)
    case (Cons ev evs)
    have "rec_inv env cfg (ok \<and> disk_works ev) (rec_step env cfg urls ev st)"
      using Cons.prems by (intro rec_inv_step assms(1)) simp_all
    from Cons.IH [OF this] Cons.prems show ?case by (simp add: conj_assoc)
  qed simp
  from this [of True rec_start] assms(2) show ?thesis
    by (simp add: rec_run_def) (simp add: rec_inv_def rec_start_def cache_ok_def)
qed

section \<open>Claims\<close>

subsection \<open>A concrete run\<close>

definition toy_rec_config :: RecursiveConfig where
  "toy_rec_config = \<lparr>rg_upstreamDohUrls = [''u''], rg_staleMaxS = Fin 1800, rg_prefetchFraction = Fin (1 / 10),
     rg_cacheMaxEntries = Fin 5, rg_maxConcurrency = None, rg_quorumMin = None, rg_overlapRatio = None, rg_ttlCapS = None\<rparr>"

definition toy_reply :: json where
  "toy_reply = JObj [(''Status'', JNum (Fin 0)), (''Answer'', JArr [JObj [(''name'', JStr ''a''), (''type'', JNum (Fin 1)),
     (''data'', JStr ''9''), (''TTL'', JNum (Fin 60))]])]"

definition toy_events :: "rec_event list" where
  "toy_events = [Request 100 ''a'' ''A'', Reply 101 None ''a'' QA [(Body toy_reply, 7)]]"

lemma toy_rec_ok: "config_numbers toy_rec_config" "number_law toy_rec_env"
    "list_all (event_ok toy_rec_env [''u'']) toy_events" "list_all disk_works toy_events"
  by (simp_all add: config_numbers_def toy_rec_config_def rec_ttlCap_def nor_Fin number_law_def toy_rec_env_def toy_events_def
      replies_ok_def toy_reply_def read_records_def read_record_def jprop_def)

text \<open>C25: A restart loses nothing: after any run in which the writes succeed and the lifetimes received are numbers,
  loading the file gives back the cache, entry for entry.\<close>

theorem recursive_restart:
  assumes "config_numbers cfg" "number_law env" "list_all (event_ok env urls) evs" "list_all disk_works evs"
  shows "loadCache env now (ad_file (rec_run env cfg urls evs)) = ad_cache (rec_run env cfg urls evs)"
proof -
  have inv: "rec_inv env cfg True (rec_run env cfg urls evs)"
    using rec_run_inv [OF assms(1,3)] assms(4) by simp
  show ?thesis
  proof (cases "ad_file (rec_run env cfg urls evs)")
    case None
    with inv show ?thesis by (auto simp: rec_inv_def loadCache_def)
  next
    case (Some f)
    with inv have "f = json_stored (cache_json (ad_cache (rec_run env cfg urls evs)))" by (auto simp: rec_inv_def)
    with Some inv assms(2) show ?thesis using loadCache_stored by (auto simp: rec_inv_def)
  qed
qed

theorem recursive_restart_witness:
  "loadCache toy_rec_env 500 (ad_file (rec_run toy_rec_env toy_rec_config [''u''] toy_events)) =
     ad_cache (rec_run toy_rec_env toy_rec_config [''u''] toy_events)"
  by (rule recursive_restart [OF toy_rec_ok])


text \<open>The cache never holds more entries than configured, whatever is asked and answered.\<close>

theorem recursive_cache_bounded:
  assumes "config_numbers cfg" "list_all (event_ok env urls) evs" "rg_cacheMaxEntries cfg = jint n" "1 \<le> n"
  shows "int (length (ad_cache (rec_run env cfg urls evs))) \<le> n"
proof -
  have "nmax (Fin 1) (nor (rg_cacheMaxEntries cfg) (Fin 50000)) = jint n"
    using assms(3,4) by (auto simp: nor_Fin max_def)
  with rec_run_inv [OF assms(1,2)] assms(4) show ?thesis unfolding rec_inv_def by fastforce
qed

theorem recursive_cache_bounded_witness:
  "int (length (ad_cache (rec_run toy_rec_env toy_rec_config [''u''] toy_events))) \<le> 5"
  by (rule recursive_cache_bounded [OF toy_rec_ok(1,3)]) (simp_all add: toy_rec_config_def)



definition toy_rec_state :: RecursiveState where
  "toy_rec_state = rec_run toy_rec_env toy_rec_config [''u''] toy_events"


end
