(* ===== verification/Radix.thy ===== *)
theory Radix
  imports Prelude
begin

section \<open>Digits in a base\<close>

text \<open>
  Encoders and decoders of big numbers keep a little-endian list of digits and fold the input into it: every digit is
  multiplied by a factor and the carry goes on, then what is left of the carry is pushed at the end. Here is this step
  for any factor and base, with its effect on the number that the digits spell.
\<close>

fun radix_mul :: "nat \<Rightarrow> nat \<Rightarrow> nat list \<Rightarrow> nat \<Rightarrow> nat list \<times> nat" where
  "radix_mul m b [] c = ([], c)"
| "radix_mul m b (d # ds) c = (let v = d * m + c; (ds', c') = radix_mul m b ds (v div b) in (v mod b # ds', c'))"

fun radix_push :: "nat \<Rightarrow> nat \<Rightarrow> nat list" where
  "radix_push b c = (if 0 < c \<and> 2 \<le> b then c mod b # radix_push b (c div b) else [])"

declare radix_push.simps [simp del]

definition radix_step :: "nat \<Rightarrow> nat \<Rightarrow> nat list \<Rightarrow> nat \<Rightarrow> nat list" where
  "radix_step m b ds x = (let (ds', c) = radix_mul m b ds x in ds' @ radix_push b c)"

definition radix_value :: "nat \<Rightarrow> nat list \<Rightarrow> nat" where
  "radix_value b ds = horner_sum id b ds"

text \<open>Digits in normal form: below the base, and no leading zero but for the number zero.\<close>

definition radix_ok :: "nat \<Rightarrow> nat list \<Rightarrow> bool" where
  "radix_ok b ds \<longleftrightarrow> ds \<noteq> [] \<and> list_all (\<lambda>d. d < b) ds \<and> (ds = [0] \<or> last ds \<noteq> 0)"

lemma radix_value_simps [simp]:
  "radix_value b [] = 0" "radix_value b (d # ds) = d + b * radix_value b ds"
  by (simp_all add: radix_value_def)

lemma radix_value_append: "radix_value b (ds @ es) = radix_value b ds + b ^ length ds * radix_value b es"
  by (induction ds) (simp_all add: algebra_simps)

lemma radix_bound: "list_all (\<lambda>d. d < b) ds \<Longrightarrow> radix_value b ds < b ^ length ds"
proof (induction ds)
  case (Cons d ds)
  then have "d + b * radix_value b ds < b * (radix_value b ds + 1)" by simp
  also have "\<dots> \<le> b * b ^ length ds" using Cons by (intro mult_le_mono2) simp
  finally show ?case by simp
qed simp

lemma radix_last: "ds \<noteq> [] \<Longrightarrow> b ^ (length ds - 1) * last ds \<le> radix_value b ds"
proof (induction ds)
  case (Cons d ds)
  show ?case
  proof (cases "ds = []")
    case False
    then have "b ^ length ds * last ds = b * (b ^ (length ds - 1) * last ds)" by (cases ds) simp_all
    also have "\<dots> \<le> b * radix_value b ds" using Cons.IH False by (intro mult_le_mono2) simp
    finally show ?thesis using False by simp
  qed simp
qed simp

lemma radix_foldl_rev: "foldl (\<lambda>n x. b * n + x) 0 (rev ds) = radix_value b ds"
  by (induction ds) simp_all

text \<open>Two numbers with the same number of digits agree in their leading digits when they agree in their quotient.\<close>

lemma radix_drop: "list_all (\<lambda>d. d < b) ds \<Longrightarrow> radix_value b (drop k ds) = radix_value b ds div b ^ k"
proof (induction ds arbitrary: k)
  case (Cons d ds)
  then show ?case by (cases k) (auto simp: div_mult2_eq)
qed simp

lemma radix_mul_value:
  "radix_mul m b ds c = (ds', c') \<Longrightarrow> 0 < b \<Longrightarrow>
     radix_value b ds' + b ^ length ds * c' = m * radix_value b ds + c \<and> length ds' = length ds \<and> list_all (\<lambda>d. d < b) ds'"
proof (induction m b ds c arbitrary: ds' rule: radix_mul.induct)
  case (2 m b d ds c)
  obtain es where es: "radix_mul m b ds ((d * m + c) div b) = (es, c')" "ds' = (d * m + c) mod b # es"
    using "2.prems" by (auto simp: Let_def split: prod.splits)
  have "radix_value b ds' + b ^ length (d # ds) * c' = (d * m + c) mod b + b * (radix_value b es + b ^ length ds * c')"
    by (simp add: es(2) algebra_simps)
  also have "\<dots> = (d * m + c) mod b + b * (m * radix_value b ds + (d * m + c) div b)"
    using "2.IH" [OF refl es(1)] "2.prems"(2) by simp
  also have "\<dots> = m * radix_value b (d # ds) + c"
    using div_mult_mod_eq [of "d * m + c" b] by (simp add: algebra_simps)
  finally show ?case using "2.IH" [OF refl es(1)] "2.prems"(2) es(2) by simp
qed simp

lemma radix_push_value:
  assumes "2 \<le> b"
  shows "radix_value b (radix_push b c) = c \<and> list_all (\<lambda>d. d < b) (radix_push b c) \<and>
    (radix_push b c \<noteq> [] \<longrightarrow> last (radix_push b c) \<noteq> 0) \<and> (radix_push b c = [] \<longleftrightarrow> c = 0)"
  using assms
proof (induction b c rule: radix_push.induct)
  case (1 b c)
  show ?case
  proof (cases "0 < c")
    case True
    with 1 show ?thesis by (subst (1 2 3 4 5) radix_push.simps) (auto simp: algebra_simps div_eq_0_iff)
  qed (simp add: radix_push.simps)
qed

text \<open>One step multiplies the number and adds the new digit; the normal form is kept.\<close>

lemma radix_step_ok:
  assumes "radix_ok b ds" "2 \<le> b" "1 \<le> m"
  shows "radix_ok b (radix_step m b ds x) \<and> radix_value b (radix_step m b ds x) = m * radix_value b ds + x"
proof -
  obtain es c where m: "radix_mul m b ds x = (es, c)" by force
  have v: "radix_value b es + b ^ length ds * c = m * radix_value b ds + x" "length es = length ds" "list_all (\<lambda>d. d < b) es"
    using radix_mul_value [OF m] assms(2) by simp_all
  note push = radix_push_value [OF assms(2), of c]
  have step: "radix_step m b ds x = es @ radix_push b c" by (simp add: radix_step_def m)
  have "es \<noteq> []" using v assms(1) by (auto simp: radix_ok_def)
  have "es @ radix_push b c = [0] \<or> last (es @ radix_push b c) \<noteq> 0"
  proof (cases "c = 0")
    case True
    show ?thesis
    proof (cases "last es = 0 \<and> length es \<noteq> 1")
      case True
      then obtain es' where es': "es = es' @ [0]" "es' \<noteq> []" using \<open>es \<noteq> []\<close>
        by (metis append_butlast_last_id append_self_conv2 length_0_conv length_append_singleton One_nat_def)
      with v(2) assms(1) have "last ds \<noteq> 0" by (auto simp: radix_ok_def)
      then have "b ^ (length ds - 1) * 1 \<le> b ^ (length ds - 1) * last ds" by (intro mult_le_mono2) simp
      also have "\<dots> \<le> radix_value b ds" using assms(1) by (intro radix_last) (simp add: radix_ok_def)
      also have "\<dots> \<le> m * radix_value b ds" using assms(3) by simp
      also have "\<dots> \<le> radix_value b es" using v(1) \<open>c = 0\<close> by simp
      also have "\<dots> = radix_value b es'" by (simp add: es'(1) radix_value_append)
      also have "\<dots> < b ^ (length ds - 1)" using radix_bound [of b es'] v(2,3) es'(1) by (metis diff_add_inverse2 length_append_singleton list_all_append Suc_eq_plus1)
      finally show ?thesis by simp
    next
      case False
      then show ?thesis using \<open>es \<noteq> []\<close> push \<open>c = 0\<close> by (auto simp: length_Suc_conv)
    qed
  qed (use push in auto)
  with v push \<open>es \<noteq> []\<close> show ?thesis by (simp add: step radix_ok_def radix_value_append)
qed

lemma radix_foldl_ok:
  assumes "radix_ok b ds" "2 \<le> b" "1 \<le> m"
  shows "radix_ok b (foldl (radix_step m b) ds xs) \<and>
    radix_value b (foldl (radix_step m b) ds xs) = foldl (\<lambda>n x. m * n + x) (radix_value b ds) xs"
  using assms(1)
proof (induction xs arbitrary: ds)
  case (Cons x xs)
  show ?case using Cons.IH [of "radix_step m b ds x"] radix_step_ok [OF Cons.prems assms(2,3), of x] by simp
qed simp

text \<open>Digits in normal form are determined by their number.\<close>

lemma radix_pos:
  assumes "radix_ok b ds" "ds \<noteq> [0]" "2 \<le> b"
  shows "0 < radix_value b ds"
proof -
  have "ds \<noteq> []" "last ds \<noteq> 0" using assms(1,2) by (auto simp: radix_ok_def)
  then show ?thesis using radix_last [of ds b] assms(3) by (simp add: Suc_le_eq) (metis mult_pos_pos neq0_conv order_less_le_trans zero_less_power less_le_trans pos2)
qed

lemma radix_unique: "radix_ok b ds \<Longrightarrow> radix_ok b es \<Longrightarrow> 2 \<le> b \<Longrightarrow> radix_value b ds = radix_value b es \<Longrightarrow> ds = es"
proof (induction ds arbitrary: es)
  case (Cons d ds)
  obtain e es' where es: "es = e # es'" using Cons.prems(2) by (cases es) (auto simp: radix_ok_def)
  have lt: "d < b" "e < b" using Cons.prems(1,2) by (simp_all add: radix_ok_def es)
  have v: "d + b * radix_value b ds = e + b * radix_value b es'" using Cons.prems(4) by (simp add: es)
  then have "(d + b * radix_value b ds) mod b = (e + b * radix_value b es') mod b"
    and "(d + b * radix_value b ds) div b = (e + b * radix_value b es') div b" by simp_all
  with lt have eq: "d = e" "radix_value b ds = radix_value b es'" by simp_all
  have tail: "radix_ok b t \<and> 0 < radix_value b t" if "radix_ok b (x # t)" "t \<noteq> []" for x t
  proof -
    have "radix_ok b t" "t \<noteq> [0]" using that by (auto simp: radix_ok_def)
    with radix_pos [OF _ _ Cons.prems(3)] show ?thesis by blast
  qed
  show ?case
  proof (cases "ds = [] \<or> es' = []")
    case True
    with tail [OF Cons.prems(1)] tail [OF Cons.prems(2) [unfolded es]] eq have "ds = []" "es' = []" by force+
    with eq show ?thesis by (simp add: es)
  next
    case False
    with tail Cons.prems(1,2) have "radix_ok b ds" "radix_ok b es'" by (auto simp: es)
    from Cons.IH [OF this Cons.prems(3) eq(2)] eq(1) show ?thesis by (simp add: es)
  qed
qed (simp add: radix_ok_def)

end
