(* ===== verification/Hosting.thy ===== *)
theory Hosting
  imports Js_Strings Bytes Radix
begin

unbundle bit_operations_syntax

section \<open>Hosting targets (gateway/src/hosting/targets.ts)\<close>

text \<open>
  Names of other systems point to content on IPFS or Arweave, as text or as a binary content hash. The
  decoders work on 32-bit integers as JavaScript does: \<open><<\<close> and \<open>|\<close> wrap at 32 bits, and a shift
  count is taken modulo 32. \<open>b64\<close> is \<open>Buffer\<close>'s base64 encoding.
\<close>

datatype HostingScheme = Ipfs | Ar

record HostingTarget =
  ht_scheme :: HostingScheme
  ht_value :: string
  ht_dest :: string

definition IPFS_NS_CODE :: int where "IPFS_NS_CODE = 0xe3"
definition ARWEAVE_NS_CODE :: int where "ARWEAVE_NS_CODE = 0xb29910"

definition between :: "char \<Rightarrow> char \<Rightarrow> char \<Rightarrow> bool" where
  "between a b c \<longleftrightarrow> (of_char a :: nat) \<le> of_char c \<and> (of_char c :: nat) \<le> of_char b"

definition is_digit_char :: "char \<Rightarrow> bool" where
  "is_digit_char c \<longleftrightarrow> between (CHR ''0'') (CHR ''9'') c"

definition is_alnum :: "char \<Rightarrow> bool" where
  "is_alnum c \<longleftrightarrow> is_digit_char c \<or> between (CHR ''a'') (CHR ''z'') c \<or> between (CHR ''A'') (CHR ''Z'') c"

text \<open>The class \<open>[1-9A-HJ-NP-Za-km-z]\<close>.\<close>

definition is_base58 :: "char \<Rightarrow> bool" where
  "is_base58 c \<longleftrightarrow> is_alnum c \<and> c \<notin> {CHR ''0'', CHR ''I'', CHR ''O'', CHR ''l''}"

definition CIDV1_BASE32_RE :: "string \<Rightarrow> bool" where
  "CIDV1_BASE32_RE s \<longleftrightarrow> lower (take 4 s) = ''bafy'' \<and> 20 \<le> length (drop 4 s) \<and> list_all is_alnum (drop 4 s)"

definition CIDV0_BASE58_RE :: "string \<Rightarrow> bool" where
  "CIDV0_BASE58_RE s \<longleftrightarrow> take 2 s = ''Qm'' \<and> 40 \<le> length (drop 2 s) \<and> list_all is_base58 (drop 2 s)"

definition isCidLike :: "string \<Rightarrow> bool" where
  "isCidLike s \<longleftrightarrow> CIDV1_BASE32_RE s \<or> CIDV0_BASE58_RE s"

definition isArweaveTxLike :: "string \<Rightarrow> bool" where
  "isArweaveTxLike s \<longleftrightarrow> 43 \<le> length s \<and> length s \<le> 64 \<and>
     list_all (\<lambda>c. is_alnum c \<or> c = CHR ''_'' \<or> c = CHR ''-'') s"

definition ipfs_target :: "string \<Rightarrow> HostingTarget" where
  "ipfs_target v = \<lparr>ht_scheme = Ipfs, ht_value = v, ht_dest = ''ipfs://'' @ v\<rparr>"

definition ar_target :: "string \<Rightarrow> HostingTarget" where
  "ar_target v = \<lparr>ht_scheme = Ar, ht_value = v, ht_dest = ''ar://'' @ v\<rparr>"

text \<open>\<open>split(/[/?#]/)[0]\<close>.\<close>

definition path_head :: "string \<Rightarrow> string" where
  "path_head s = takeWhile (\<lambda>c. c \<notin> {CHR ''/'', CHR ''?'', CHR ''#''}) s"

definition parseHostingTarget :: "string \<Rightarrow> HostingTarget option" where
  "parseHostingTarget raw =
     (let trimmed = trim raw in
      if trimmed = [] then None
      else if starts_with (lower trimmed) ''ipfs://'' then
        (let value = path_head (drop 7 trimmed) in if isCidLike value then Some (ipfs_target value) else None)
      else if starts_with (lower trimmed) ''ar://'' then
        (let value = path_head (drop 5 trimmed) in if isArweaveTxLike value then Some (ar_target value) else None)
      else if isCidLike trimmed then Some (ipfs_target trimmed)
      else if isArweaveTxLike trimmed then Some (ar_target trimmed)
      else None)"

subsection \<open>Binary content hashes\<close>

definition contenthash_bytes :: "string \<Rightarrow> bytes option" where
  "contenthash_bytes value =
     (let t = trim value; clean = (if starts_with (lower t) ''0x'' then drop 2 t else t) in
      if clean = [] \<or> length clean mod 2 \<noteq> 0 \<or> \<not> list_all (\<lambda>c. hex_value c \<noteq> None) clean then None
      else Some (hex_pairs clean))"

definition shl32 :: "byte \<Rightarrow> nat \<Rightarrow> 32 word" where
  "shl32 b s = push_bit (s mod 32) (ucast b)"

text \<open>\<open>n\<close> is the number of bytes that may still be read, ten at first.\<close>

fun uvarint_loop :: "nat \<Rightarrow> bytes \<Rightarrow> nat \<Rightarrow> 32 word \<Rightarrow> nat \<Rightarrow> (int \<times> nat) option" where
  "uvarint_loop 0 bs i x s = None"
| "uvarint_loop (Suc n) bs i x s =
     (if i < length bs then
        let b = bs ! i in
        if b < 0x80 then (if n = 0 \<and> b > 1 then None else Some (sint (x OR shl32 b s), Suc i))
        else uvarint_loop n bs (Suc i) (x OR shl32 (b AND 0x7f) s) (s + 7)
      else None)"

definition readUvarint :: "bytes \<Rightarrow> nat \<Rightarrow> (int \<times> nat) option" where
  "readUvarint bs off = uvarint_loop 10 bs off 0 0"

definition B32 :: string where "B32 = ''abcdefghijklmnopqrstuvwxyz234567''"

fun b32_flush :: "nat \<Rightarrow> 32 word \<Rightarrow> string \<times> nat" where
  "b32_flush bits value =
     (if 5 \<le> bits then let (out, r) = b32_flush (bits - 5) value
        in (B32 ! unat (drop_bit (bits - 5) value AND 31) # out, r)
      else ([], bits))"

declare b32_flush.simps [simp del]

fun b32_loop :: "bytes \<Rightarrow> nat \<Rightarrow> 32 word \<Rightarrow> string" where
  "b32_loop [] bits value = (if 0 < bits then [B32 ! unat (push_bit (5 - bits) value AND 31)] else [])"
| "b32_loop (b # bs) bits value =
     (let value' = push_bit 8 value OR ucast b;
          (out, bits') = b32_flush (bits + 8) value'
      in out @ b32_loop bs bits' value')"

definition base32LowerNoPad :: "bytes \<Rightarrow> string" where
  "base32LowerNoPad bs = b32_loop bs 0 0"

definition B58 :: string where "B58 = ''123456789ABCDEFGHJKLMNPQRSTUVWXYZabcdefghijkmnopqrstuvwxyz''"

fun b58_mul :: "nat list \<Rightarrow> nat \<Rightarrow> nat list \<times> nat" where
  "b58_mul [] carry = ([], carry)"
| "b58_mul (d # ds) carry =
     (let v = d * 256 + carry; (ds', c) = b58_mul ds (v div 58) in (v mod 58 # ds', c))"

fun b58_push :: "nat \<Rightarrow> nat list" where
  "b58_push carry = (if 0 < carry then carry mod 58 # b58_push (carry div 58) else [])"

declare b58_push.simps [simp del]

definition b58_byte :: "nat list \<Rightarrow> byte \<Rightarrow> nat list" where
  "b58_byte digits b = (let (ds, c) = b58_mul digits (unat b) in ds @ b58_push c)"

definition base58btc :: "bytes \<Rightarrow> string" where
  "base58btc bs =
     replicate (length (takeWhile (\<lambda>b. b = 0) bs)) (CHR ''1'') @ map (\<lambda>d. B58 ! d) (rev (foldl b58_byte [0] bs))"

definition cidBytesToString :: "bytes \<Rightarrow> string" where
  "cidBytesToString bs =
     (if length bs = 34 \<and> bs ! 0 = 0x12 \<and> bs ! 1 = 0x20 then base58btc bs else ''b'' @ base32LowerNoPad bs)"

definition bytesToBase64Url :: "(bytes \<Rightarrow> string) \<Rightarrow> bytes \<Rightarrow> string" where
  "bytesToBase64Url b64 bs =
     rev (dropWhile (\<lambda>c. c = CHR ''='') (rev
       (map (\<lambda>c. if c = CHR ''+'' then CHR ''-'' else if c = CHR ''/'' then CHR ''_'' else c) (b64 bs))))"

definition decodeEnsContenthash :: "(bytes \<Rightarrow> string) \<Rightarrow> string \<Rightarrow> HostingTarget option" where
  "decodeEnsContenthash b64 rawValue =
     (case contenthash_bytes rawValue of
        None \<Rightarrow> None
      | Some bs \<Rightarrow> (case readUvarint bs 0 of
          None \<Rightarrow> None
        | Some (codec, nxt) \<Rightarrow>
            (let payload = drop nxt bs in
             if payload = [] then None
             else if codec = IPFS_NS_CODE then
               (let cid = cidBytesToString payload in if isCidLike cid then Some (ipfs_target cid) else None)
             else if codec = ARWEAVE_NS_CODE then
               (let tx = bytesToBase64Url b64 payload in if isArweaveTxLike tx then Some (ar_target tx) else None)
             else None)))"

subsection \<open>Text records\<close>

record SelectedText =
  st_key :: string
  st_rawValue :: string
  st_parsed :: "HostingTarget option"

definition TEXT_ORDER :: "string list" where
  "TEXT_ORDER = [''content'', ''ipfs'', ''arweave'', ''url'']"

definition selectPreferredTextRecord :: "(string \<times> string) list \<Rightarrow> SelectedText option" where
  "selectPreferredTextRecord entries =
     (let normalized = map (\<lambda>(k, v). (trim (lower k), trim v)) entries;
          hit = (\<lambda>key. find (\<lambda>(k, v). k = key \<and> v \<noteq> []) normalized) in
      case find (\<lambda>key. hit key \<noteq> None) TEXT_ORDER of
        None \<Rightarrow> None
      | Some key \<Rightarrow> (case hit key of
          None \<Rightarrow> None
        | Some (k, v) \<Rightarrow> Some \<lparr>st_key = key, st_rawValue = v, st_parsed = parseHostingTarget v\<rparr>))"

definition selectTextHostingTarget :: "(string \<times> string) list \<Rightarrow> (HostingTarget \<times> string \<times> string) option" where
  "selectTextHostingTarget entries =
     (case selectPreferredTextRecord entries of
        None \<Rightarrow> None
      | Some s \<Rightarrow> (case st_parsed s of None \<Rightarrow> None | Some p \<Rightarrow> Some (p, st_key s, st_rawValue s)))"

datatype RecordSource = FromContenthash | FromText

record HostingProofFields =
  hp_recordSource :: RecordSource
  hp_recordKey :: "string option"
  hp_rawValue :: string
  hp_parsedTarget :: "HostingScheme \<times> string"

definition toHostingProofFieldsFromContenthash :: "(bytes \<Rightarrow> string) \<Rightarrow> string \<Rightarrow> HostingProofFields option" where
  "toHostingProofFieldsFromContenthash b64 rawValue =
     (case decodeEnsContenthash b64 rawValue of
        None \<Rightarrow> None
      | Some parsed \<Rightarrow> Some \<lparr>hp_recordSource = FromContenthash, hp_recordKey = None, hp_rawValue = rawValue,
          hp_parsedTarget = (ht_scheme parsed, ht_value parsed)\<rparr>)"

section \<open>Properties\<close>

subsection \<open>Base 32\<close>

text \<open>The reference: the bits of the bytes, most significant first, in groups of five, the last one filled with zeros.\<close>

definition byte_bits :: "byte \<Rightarrow> bool list" where
  "byte_bits b = map (bit b) (rev [0..<8])"

definition b32_char :: "bool list \<Rightarrow> char" where
  "b32_char xs = B32 ! horner_sum of_bool 2 (rev xs)"

fun b32_groups :: "bool list \<Rightarrow> string" where
  "b32_groups [] = []"
| "b32_groups (a # b # c # d # e # xs) = b32_char [a, b, c, d, e] # b32_groups xs"
| "b32_groups xs = [b32_char (xs @ replicate (5 - length xs) False)]"

definition pending :: "32 word \<Rightarrow> nat \<Rightarrow> bool list" where
  "pending value bits = map (bit value) (rev [0..<bits])"

lemma upt_shift: "[k..<k + n] = map ((+) k) [0..<n]"
  by (induction n) simp_all

lemma pending_split: "pending v (k + 5) = map (bit v) (rev [k..<k + 5]) @ pending v k"
  by (simp add: pending_def upt_add_eq_append [OF le0])

lemma b32_char_bits:
  fixes w :: "32 word"
  shows "b32_char (map (bit w) (rev [0..<5])) = B32 ! unat (w AND 31)"
proof -
  have "map (bit w) [0..<5] = map (bit (unat w)) [0..<5]" by (simp add: bit_unsigned_iff)
  then have "horner_sum of_bool 2 (map (bit w) [0..<5]) = take_bit 5 (unat w)"
    by (simp only: horner_sum_bit_eq_take_bit)
  moreover have "w AND 31 = take_bit 5 w" by (simp add: take_bit_eq_mask mask_eq_exp_minus_1)
  ultimately show ?thesis by (simp add: b32_char_def rev_map unsigned_take_bit_eq)
qed

lemma b32_char_pending: "b32_char (map (bit v) (rev [k..<k + 5])) = B32 ! unat (drop_bit k v AND 31)" for v :: "32 word"
proof -
  have "map (bit v) (rev [k..<k + 5]) = map (bit (drop_bit k v)) (rev [0..<5])"
    unfolding upt_shift by (simp add: rev_map bit_drop_bit_eq comp_def)
  then show ?thesis using b32_char_bits [of "drop_bit k v"] by simp
qed

lemma b32_groups_five: "length xs = 5 \<Longrightarrow> b32_groups (xs @ ys) = b32_char xs # b32_groups ys"
  by (auto simp: length_Suc_conv eval_nat_numeral)

lemma b32_groups_last: "0 < length xs \<Longrightarrow> length xs < 5 \<Longrightarrow> b32_groups xs = [b32_char (xs @ replicate (5 - length xs) False)]"
  by (cases xs rule: b32_groups.cases) auto

lemma b32_flush_groups:
  "b32_flush n v = (out, r) \<Longrightarrow> r < 5 \<and> b32_groups (pending v n @ ys) = out @ b32_groups (pending v r @ ys)"
proof (induction n v arbitrary: out rule: b32_flush.induct)
  case (1 n v)
  show ?case
  proof (cases "5 \<le> n")
    case True
    then obtain k where k: "n = k + 5" by (metis le_add_diff_inverse2)
    obtain o' where o': "b32_flush k v = (o', r)" "out = B32 ! unat (drop_bit k v AND 31) # o'"
      using "1.prems" by (subst (asm) b32_flush.simps) (auto simp: k Let_def split: prod.splits)
    have "b32_groups (pending v n @ ys) = b32_char (map (bit v) (rev [k..<k + 5])) # b32_groups (pending v k @ ys)"
      by (simp add: k pending_split b32_groups_five)
    with "1.IH" [OF True] o' show ?thesis by (simp add: k b32_char_pending)
  next
    case False
    with "1.prems" show ?thesis by (subst (asm) b32_flush.simps) simp
  qed
qed

text \<open>Shifting in a byte adds its bits; that the word has only 32 of them does not matter.\<close>

lemma pending_byte:
  assumes "n < 5"
  shows "pending (push_bit 8 v OR ucast b) (n + 8) = pending v n @ byte_bits b"
proof -
  have "[0..<n + 8] = [0..<8] @ map ((+) 8) [0..<n]"
    using upt_add_eq_append [of 0 8 n] unfolding upt_shift by (simp add: add.commute)
  moreover have "bit (push_bit 8 v OR ucast b) i = bit b i" if "i < 8" for i
    using that by (simp add: bit_or_iff bit_push_bit_iff bit_unsigned_iff)
  moreover have "bit (push_bit 8 v OR ucast b) (8 + i) = bit v i" if "i < n" for i
    using that assms bit_imp_le_length [of b "8 + i"] by (auto simp: bit_or_iff bit_push_bit_iff bit_unsigned_iff)
  ultimately show ?thesis by (simp add: pending_def byte_bits_def rev_map comp_def)
qed

lemma b32_loop_groups: "n < 5 \<Longrightarrow> b32_loop bs n v = b32_groups (pending v n @ concat (map byte_bits bs))"
proof (induction bs arbitrary: n v)
  case Nil
  show ?case
  proof (cases "n = 0")
    case False
    have "map (bit (push_bit (5 - n) v)) (rev [0..<5]) = pending v n @ replicate (5 - n) False"
    proof -
      have "[0..<5] = [0..<5 - n] @ map ((+) (5 - n)) [0..<n]"
        using upt_add_eq_append [of 0 "5 - n" n] Nil unfolding upt_shift by simp
      moreover have "map (bit (push_bit (5 - n) v)) (rev [0..<5 - n]) = replicate (5 - n) False"
        by (rule nth_equalityI) (auto simp: rev_nth bit_push_bit_iff)
      ultimately show ?thesis using Nil by (auto simp: pending_def rev_map comp_def bit_push_bit_iff)
    qed
    with b32_char_bits [of "push_bit (5 - n) v"] Nil False b32_groups_last [of "pending v n"]
    show ?thesis by (simp add: pending_def)
  qed (simp add: pending_def)
next
  case (Cons b bs)
  obtain out r where f: "b32_flush (n + 8) (push_bit 8 v OR ucast b) = (out, r)" by force
  from b32_flush_groups [OF f, of "concat (map byte_bits bs)"] Cons f show ?case
    by (simp add: pending_byte)
qed

lemma base32_reference: "base32LowerNoPad bs = b32_groups (concat (map byte_bits bs))"
  by (simp add: base32LowerNoPad_def b32_loop_groups pending_def)

subsection \<open>Base 58\<close>

text \<open>The digits of base 58 are those of \<open>Radix\<close>, with factor 256; the number big-endian bytes spell.\<close>

abbreviation digits_value :: "nat list \<Rightarrow> nat" where
  "digits_value \<equiv> radix_value 58"

definition bytes_value :: "bytes \<Rightarrow> nat" where
  "bytes_value bs = foldl (\<lambda>n b. 256 * n + unat b) 0 bs"

lemma b58_mul_radix: "b58_mul ds c = radix_mul 256 58 ds c"
  by (induction ds c rule: b58_mul.induct) simp_all

lemma b58_push_radix: "b58_push c = radix_push 58 c"
  by (induction c rule: b58_push.induct) (simp add: b58_push.simps radix_push.simps)

lemma b58_byte_radix: "b58_byte ds b = radix_step 256 58 ds (unat b)"
  by (simp add: b58_byte_def radix_step_def b58_mul_radix b58_push_radix)

lemma b58_foldl: "foldl b58_byte ds bs = foldl (radix_step 256 58) ds (map unat bs)"
  by (induction bs arbitrary: ds) (simp_all add: b58_byte_radix)

lemma b58_digits:
  "radix_ok 58 (foldl b58_byte [0] bs) \<and> digits_value (foldl b58_byte [0] bs) = bytes_value bs"
  using radix_foldl_ok [of 58 "[0]" 256 "map unat bs"] by (simp add: radix_ok_def b58_foldl bytes_value_def foldl_map)

subsection \<open>Content hashes\<close>

lemma hex_value_facts: "hex_value c \<noteq> None \<Longrightarrow> \<not> is_ws c"
  by (auto simp: hex_value_def is_ws_def Let_def split: if_splits)

lemma contenthash_hex:
  assumes "bs \<noteq> []"
  shows "contenthash_bytes (''0x'' @ hex bs) = Some bs"
proof -
  have ne: "hex bs \<noteq> []" using assms by simp
  then have "last (hex bs) \<in> set (hex bs)" by simp
  then have "\<not> is_ws (last (hex bs))" using hex_chars [of bs] hex_value_facts by (auto simp: list_all_iff)
  moreover have "\<not> is_ws (CHR ''0'')" "lower (take 2 ''0x'') = ''0x''" by code_simp+
  ultimately have t: "trim (''0x'' @ hex bs) = ''0x'' @ hex bs" using ne by (intro trim_id) simp
  have "starts_with (lower (''0x'' @ hex bs)) ''0x''"
    using \<open>lower (take 2 ''0x'') = ''0x''\<close> by (simp add: starts_with_def lower_def)
  then show ?thesis
    using ne hex_chars [of bs] unfolding contenthash_bytes_def t by (simp add: length_hex hex_pairs_hex)
qed

lemma uvarint_loop_numeral:
  "uvarint_loop (numeral k) bs i x s =
     (if i < length bs then
        let b = bs ! i in
        if b < 0x80 then (if pred_numeral k = 0 \<and> b > 1 then None else Some (sint (x OR shl32 b s), Suc i))
        else uvarint_loop (pred_numeral k) bs (Suc i) (x OR shl32 (b AND 0x7f) s) (s + 7)
      else None)"
  by (simp add: numeral_eq_Suc)

text \<open>The prefix of IPFS, and a sequence of bytes whose fifth shift drops its bits: it is read as the same code.\<close>

lemma uvarint_ipfs: "readUvarint (0xe3 # 0x01 # p) 0 = Some (IPFS_NS_CODE, 2)"
  by (simp add: uvarint_loop_numeral Let_def shl32_def readUvarint_def IPFS_NS_CODE_def)

lemma uvarint_wraps: "readUvarint (0xe3 # 0x81 # 0x80 # 0x80 # 0x10 # p) 0 = Some (IPFS_NS_CODE, 5)"
  by (simp add: uvarint_loop_numeral Let_def shl32_def readUvarint_def IPFS_NS_CODE_def)

lemma bytes_value_from: "foldl (\<lambda>n b. 256 * n + unat b) n bs = n * 256 ^ length bs + bytes_value bs"
  unfolding bytes_value_def
proof (induction bs rule: rev_induct)
  case (snoc b bs)
  then show ?case by (simp add: distrib_left mult.assoc mult.left_commute)
qed simp

lemma bytes_value_Cons: "bytes_value (b # bs) = unat b * 256 ^ length bs + bytes_value bs"
  using bytes_value_from [of "unat b" bs] by (simp add: bytes_value_def)

lemma bytes_value_bound: "bytes_value bs < 256 ^ length bs"
proof (induction bs)
  case (Cons b bs)
  have "unat b < 256" using unsigned_less [of b] by simp
  then have "unat b * 256 ^ length bs + bytes_value bs < (unat b + 1) * 256 ^ length bs" using Cons by simp
  also have "\<dots> \<le> 256 * 256 ^ length bs" using \<open>unat b < 256\<close> by (intro mult_le_mono1) simp
  finally show ?case by (simp add: bytes_value_Cons)
qed (simp add: bytes_value_def)

text \<open>The base-58 text of a version 0 identifier: 46 characters, the first two \<open>Qm\<close>.\<close>

lemma b58_chars: "d < 58 \<Longrightarrow> is_base58 (B58 ! d)"
proof -
  have "list_all is_base58 B58" "length B58 = 58" by code_simp+
  then show "d < 58 \<Longrightarrow> is_base58 (B58 ! d)" by (simp add: list_all_length)
qed

lemma cidv0_text:
  assumes "length h = 32"
  shows "CIDV0_BASE58_RE (base58btc (0x12 # 0x20 # h))"
proof -
  let ?bs = "0x12 # 0x20 # h"
  define ds where "ds = foldl b58_byte [0] ?bs"
  have ok: "radix_ok 58 ds" "digits_value ds = 0x1220 * 256 ^ 32 + bytes_value h" "bytes_value h < 256 ^ 32"
    using b58_digits [of ?bs] assms bytes_value_bound [of h] by (simp_all add: ds_def bytes_value_Cons)
  then have all: "list_all (\<lambda>d. d < 58) ds" "ds \<noteq> []" by (simp_all add: radix_ok_def)
  have v: "58 ^ 45 \<le> digits_value ds" "digits_value ds < 58 ^ 46" using ok by simp_all
  have "ds \<noteq> [0]" using v(1) by auto
  then have "1 \<le> last ds" using ok(1) by (auto simp: radix_ok_def)
  then have "58 ^ (length ds - 1) * 1 \<le> 58 ^ (length ds - 1) * last ds" by (intro mult_le_mono2)
  with radix_last [OF all(2), of 58] v(2) have "(58 :: nat) ^ (length ds - 1) < 58 ^ 46" by linarith
  then have "length ds - 1 < 46" by (rule power_less_imp_less_exp [rotated]) simp
  moreover have "(58 :: nat) ^ 45 < 58 ^ length ds" using radix_bound [OF all(1)] v(1) by linarith
  then have "45 < length ds" by (rule power_less_imp_less_exp [rotated]) simp
  ultimately have len: "length ds = 46" by linarith
  then obtain x y where xy: "drop 44 ds = [x, y]" using length_drop [of 44 ds] by (auto simp: length_Suc_conv eval_nat_numeral)
  then have "x + 58 * y = digits_value ds div 58 ^ 44" using radix_drop [OF all(1), of 44] by simp
  moreover have "1378 * 58 ^ 44 \<le> digits_value ds" "digits_value ds < 1379 * 58 ^ 44" using ok by simp_all
  then have "digits_value ds div 58 ^ 44 = 1378" by (intro div_nat_eqI) simp_all
  moreover have "x < 58" "y < 58" using all(1) xy set_drop_subset [of 44 ds] by (auto simp: list_all_iff)
  ultimately have "x + 58 * y = 1378" "x < 58" "y < 58" by simp_all
  then have "x = 44 \<and> y = 23" by presburger
  then have "x = 44" "y = 23" by simp_all
  have "rev ds = rev (drop 44 ds) @ rev (take 44 ds)" by (metis append_take_drop_id rev_append)
  then have rev: "rev ds = 23 # 44 # rev (take 44 ds)" by (simp add: xy \<open>x = 44\<close> \<open>y = 23\<close>)
  have "base58btc ?bs = CHR ''Q'' # CHR ''m'' # map ((!) B58) (rev (take 44 ds))"
    unfolding base58btc_def ds_def [symmetric] rev by (simp add: B58_def)
  moreover have "list_all is_base58 (map ((!) B58) (rev (take 44 ds)))"
    using all(1) set_take_subset [of 44 ds] b58_chars by (auto simp: list_all_iff)
  ultimately show ?thesis using len by (simp add: CIDV0_BASE58_RE_def)
qed

text \<open>The base-32 text of a version 1 identifier.\<close>

lemma b32_groups_length: "length (b32_groups xs) = (length xs + 4) div 5"
  by (induction xs rule: b32_groups.induct) auto

lemma b32_char_alnum: "length xs = 5 \<Longrightarrow> is_alnum (b32_char xs)"
proof -
  assume "length xs = 5"
  then have "horner_sum of_bool 2 (rev xs) < (2 :: nat) ^ 5" using horner_sum_of_bool_2_less [of "rev xs"] by simp
  moreover have "list_all is_alnum B32" "length B32 = 32" by code_simp+
  ultimately show ?thesis by (simp add: b32_char_def list_all_length)
qed

lemma b32_groups_alnum: "list_all is_alnum (b32_groups xs)"
  by (induction xs rule: b32_groups.induct) (simp_all add: b32_char_alnum)

lemma byte_bits_length [simp]: "length (byte_bits b) = 8"
  by (simp add: byte_bits_def)

lemma cidv1_text:
  assumes "length h = 32"
  shows "CIDV1_BASE32_RE (''b'' @ base32LowerNoPad (0x01 # 0x70 # 0x12 # 0x20 # h))"
proof -
  let ?rest = "byte_bits 0x20 @ concat (map byte_bits h)"
  have "byte_bits 0x01 @ byte_bits 0x70 @ byte_bits 0x12 = [False, False, False, False, False] @ [False, False, True, False, True] @
      [True, True, False, False, False] @ [False, False, False, False, True] @ [False, False, True, False]"
    by code_simp
  then have "base32LowerNoPad (0x01 # 0x70 # 0x12 # 0x20 # h) =
      b32_char [False, False, False, False, False] # b32_char [False, False, True, False, True] #
      b32_char [True, True, False, False, False] # b32_groups ([False, False, False, False, True] @ [False, False, True, False] @ ?rest)"
    unfolding base32_reference by (simp flip: append_assoc)
  moreover have "b32_char [False, False, False, False, False] = CHR ''a''" "b32_char [False, False, True, False, True] = CHR ''f''"
    "b32_char [True, True, False, False, False] = CHR ''y''" by (simp_all add: b32_char_def B32_def)
  ultimately have t: "base32LowerNoPad (0x01 # 0x70 # 0x12 # 0x20 # h) =
      ''afy'' @ b32_groups ([False, False, False, False, True] @ [False, False, True, False] @ ?rest)" by simp
  have "length (concat (map byte_bits h)) = 256" using assms by (simp add: length_concat comp_def sum_list_triv)
  then have "length (b32_groups ([False, False, False, False, True] @ [False, False, True, False] @ ?rest)) = 55"
    by (simp add: b32_groups_length)
  moreover have "lower ''bafy'' = ''bafy''" by code_simp
  ultimately show ?thesis
    using b32_groups_alnum [of "[False, False, False, False, True] @ [False, False, True, False] @ ?rest"]
    unfolding CIDV1_BASE32_RE_def t by simp
qed


text \<open>The reference for base 58: one \<open>1\<close> for each leading zero byte, then the number the bytes spell, written in base 58.\<close>

fun digits58 :: "nat \<Rightarrow> nat list" where
  "digits58 n = (if n < 58 then [n] else digits58 (n div 58) @ [n mod 58])"

declare digits58.simps [simp del]

definition base58_reference :: "bytes \<Rightarrow> string" where
  "base58_reference bs =
     replicate (length (takeWhile (\<lambda>b. b = 0) bs)) (CHR ''1'') @ map (\<lambda>d. B58 ! d) (digits58 (bytes_value bs))"

lemma digits_unique: "radix_ok 58 ds \<Longrightarrow> rev ds = digits58 (digits_value ds)"
proof (induction ds)
  case (Cons d ds)
  show ?case
  proof (cases "ds = []")
    case True
    with Cons.prems show ?thesis by (simp add: radix_ok_def digits58.simps [of d])
  next
    case False
    with Cons.prems have ok: "radix_ok 58 ds" "last ds \<noteq> 0" "d < 58" by (auto simp: radix_ok_def)
    have "0 < 58 ^ (length ds - 1) * last ds" using ok(2) by simp
    with radix_last [OF False, of 58] have "0 < digits_value ds" by linarith
    then have "digits58 (digits_value (d # ds)) = digits58 (digits_value ds) @ [d]"
      using ok(3) by (subst digits58.simps) simp
    with Cons.IH [OF ok(1)] show ?thesis by simp
  qed
qed (simp add: radix_ok_def)

text \<open>Both text encodings of content identifiers are what they are meant to be, for bytes of any length: base 32 writes
  the bits of the bytes in groups of five although its accumulator is a 32-bit integer that overflows, and base 58 writes
  the number the bytes spell after one \<open>1\<close> for each leading zero.\<close>

theorem cid_encodings_reference:
  "base32LowerNoPad bs = b32_groups (concat (map byte_bits bs)) \<and> base58btc bs = base58_reference bs"
  using b58_digits [of bs] digits_unique [of "foldl b58_byte [0] bs"]
  by (simp add: base32_reference base58btc_def base58_reference_def)

subsection \<open>Content hashes of the name service\<close>

text \<open>The identifiers of a directory with a 32-byte digest, in the versions 0 and 1.\<close>

definition cid0_bytes :: "bytes \<Rightarrow> bytes" where
  "cid0_bytes h = 0x12 # 0x20 # h"

definition cid1_bytes :: "bytes \<Rightarrow> bytes" where
  "cid1_bytes h = 0x01 # 0x70 # 0x12 # 0x20 # h"

lemma decode_ipfs:
  assumes "readUvarint (p @ cid) 0 = Some (IPFS_NS_CODE, length p)" "cid \<noteq> []" "isCidLike (cidBytesToString cid)"
  shows "decodeEnsContenthash b64 (''0x'' @ hex (p @ cid)) = Some (ipfs_target (cidBytesToString cid))"
  using assms unfolding decodeEnsContenthash_def
  by (subst contenthash_hex) (simp_all add: Let_def)

lemma cid0_string: "length h = 32 \<Longrightarrow> cidBytesToString (cid0_bytes h) = base58btc (cid0_bytes h)"
  by (simp add: cidBytesToString_def cid0_bytes_def)

lemma cid1_string: "length h = 32 \<Longrightarrow> cidBytesToString (cid1_bytes h) = ''b'' @ base32LowerNoPad (cid1_bytes h)"
  by (simp add: cidBytesToString_def cid1_bytes_def)

text \<open>The gateway reads the content hash of every directory on IPFS: for every 32-byte digest, in version 0 it answers
  \<open>ipfs://\<close> and the base-58 text of the identifier, in version 1 \<open>b\<close> and its base-32 text, and both texts pass the
  check for identifiers. The code of the namespace is not read strictly: a longer prefix whose high bits are lost in a
  32-bit shift is taken for IPFS as well.\<close>

theorem ens_ipfs_decodes:
  assumes "length h = 32"
  shows "decodeEnsContenthash b64 (''0x'' @ hex ([0xe3, 0x01] @ cid0_bytes h)) = Some (ipfs_target (base58btc (cid0_bytes h))) \<and>
    decodeEnsContenthash b64 (''0x'' @ hex ([0xe3, 0x01] @ cid1_bytes h)) =
      Some (ipfs_target (''b'' @ base32LowerNoPad (cid1_bytes h))) \<and>
    decodeEnsContenthash b64 (''0x'' @ hex ([0xe3, 0x81, 0x80, 0x80, 0x10] @ cid1_bytes h)) =
      decodeEnsContenthash b64 (''0x'' @ hex ([0xe3, 0x01] @ cid1_bytes h))"
proof -
  have "isCidLike (cidBytesToString (cid0_bytes h))" "isCidLike (cidBytesToString (cid1_bytes h))"
    using cidv0_text [OF assms] cidv1_text [OF assms] assms
    by (simp_all add: cid0_string cid1_string isCidLike_def) (simp_all add: cid0_bytes_def cid1_bytes_def)
  moreover have "cid0_bytes h \<noteq> []" "cid1_bytes h \<noteq> []" by (simp_all add: cid0_bytes_def cid1_bytes_def)
  ultimately show ?thesis
    using decode_ipfs [of "[0xe3, 0x01]" "cid0_bytes h" b64] decode_ipfs [of "[0xe3, 0x01]" "cid1_bytes h" b64]
      decode_ipfs [of "[0xe3, 0x81, 0x80, 0x80, 0x10]" "cid1_bytes h" b64] assms
    by (simp add: uvarint_ipfs uvarint_wraps cid0_string cid1_string)
qed

theorem ens_ipfs_decodes_witness:
  "decodeEnsContenthash (\<lambda>_. '''') (''0x'' @ hex ([0xe3, 0x01] @ cid0_bytes (replicate 32 7))) =
     Some (ipfs_target (base58btc (cid0_bytes (replicate 32 7))))"
  using ens_ipfs_decodes [of "replicate 32 7" "\<lambda>_. ''''"] by simp

end
