(* ===== verification/Pkdns.thy ===== *)
theory Pkdns
  imports RouteAnswers
begin

section \<open>Names on the chain (gateway/src/adapters/pkdns.ts)\<close>

text \<open>
  For a name under \<open>.dns\<close> the chain holds only the hash of the destination. The adapter reads that account,
  takes a candidate destination from the caller or from a witness server, and answers it when its hash is the
  one on the chain. Public keys are their 32 bytes; the Solana library (keys from text, base 58, program
  addresses), the accounts of the chain and the replies of the witness are parameters. \<open>pk_policyAccount\<close>
  is \<open>None\<close> when the request fails or takes too long, \<open>pk_http\<close> when there is no JSON reply.
\<close>

record pkdns_env =
  pk_sha :: "bytes \<Rightarrow> bytes"
  pk_toASCII :: "string \<Rightarrow> string"
  pk_publicKey :: "string \<Rightarrow> bytes res"
  pk_toBase58 :: "bytes \<Rightarrow> string"
  pk_pda :: "bytes list \<Rightarrow> bytes \<Rightarrow> bytes res"
  pk_bigint :: "int \<Rightarrow> string"
  pk_account :: "bytes \<Rightarrow> (int \<times> bytes option) res"
  pk_policyAccount :: "bytes \<Rightarrow> (bytes option) option"
  pk_http :: "string \<Rightarrow> (bool \<times> json) option"

record PkdnsAdapterConfig =
  pc_ddnsRegistryProgramId :: string
  pc_ddnsWatchdogPolicyProgramId :: string

record CanonicalRouteDecoded =
  cr_nameHash :: bytes
  cr_destHash :: bytes
  cr_ttlS :: int
  cr_version :: int
  cr_updatedAtSlot :: int
  cr_lastAggregate :: bytes
  cr_bump :: int

record CanonicalDestHash =
  cd_programId :: bytes
  cd_canonicalPda :: bytes
  cd_slot :: int
  cd_decoded :: CanonicalRouteDecoded
  cd_canonical :: CanonicalInfo

subsection \<open>Accounts\<close>

definition decodeCanonicalRoute :: "bytes \<Rightarrow> CanonicalRouteDecoded res" where
  "decodeCanonicalRoute data =
     rbind (read_le 4 data 72) (\<lambda>ttlS.
     rbind (read_le 8 data 76) (\<lambda>version.
     rbind (read_le 8 data 84) (\<lambda>updatedAtSlot.
     rbind (read_le 1 data 124) (\<lambda>bump.
       Inr \<lparr>cr_nameHash = take 32 (drop 8 data), cr_destHash = take 32 (drop 40 data), cr_ttlS = ttlS,
         cr_version = version, cr_updatedAtSlot = updatedAtSlot, cr_lastAggregate = take 32 (drop 92 data),
         cr_bump = bump\<rparr>))))"

definition decodeNamePolicyState :: "bytes \<Rightarrow> Policy res" where
  "decodeNamePolicyState data =
     rbind (read_le 1 data 40) (\<lambda>statusU8.
     rbind (read_le 2 data 41) (\<lambda>confidenceBps.
     rbind (read_le 4 data 43) (\<lambda>flags.
     rbind (read_le 2 data 77) (\<lambda>penaltyBps.
     rbind (read_le 4 data 79) (\<lambda>cap.
       Inr \<lparr>po_status = (if statusU8 = 2 then PolicyQuarantine else if statusU8 = 1 then PolicyWarn else PolicyOk),
         po_confidenceBps = confidenceBps, po_flags = flags, po_penaltyBps = penaltyBps,
         po_recommendedTtlCap = (if cap = 0 then None else Some cap)\<rparr>)))))"

definition pk_name :: "pkdns_env \<Rightarrow> string \<Rightarrow> string" where
  "pk_name env = normalizeNameForHash (pk_toASCII env)"

definition pk_hash :: "pkdns_env \<Rightarrow> string \<Rightarrow> bytes" where
  "pk_hash env = nameHashBytes (pk_sha env) (pk_toASCII env)"

definition getCanonicalDestHash :: "pkdns_env \<Rightarrow> PkdnsAdapterConfig \<Rightarrow> string \<Rightarrow> CanonicalDestHash option res" where
  "getCanonicalDestHash env cfg name =
     (let normalized = pk_name env name in
      if \<not> ends_with normalized ''.dns'' then Inr None
      else rbind (pk_publicKey env (pc_ddnsRegistryProgramId cfg)) (\<lambda>programId.
        let nameHash = pk_hash env normalized in
        rbind (pk_pda env [ascii ''canonical'', nameHash] programId) (\<lambda>canonicalPda.
        rbind (pk_account env canonicalPda) (\<lambda>(slot, info).
          case info of
            None \<Rightarrow> Inr None
          | Some data \<Rightarrow> rbind (decodeCanonicalRoute data) (\<lambda>decoded.
              if cr_nameHash decoded \<noteq> nameHash then throw ''PKDNS_NAME_HASH_MISMATCH''
              else Inr (Some \<lparr>cd_programId = programId, cd_canonicalPda = canonicalPda, cd_slot = slot, cd_decoded = decoded,
                cd_canonical = \<lparr>ci_programId = pk_toBase58 env programId, ci_canonicalPda = pk_toBase58 env canonicalPda,
                  ci_destHashHex = ''0x'' @ hex (cr_destHash decoded), ci_ttlS = cr_ttlS decoded,
                  ci_updatedAtSlot = pk_bigint env (cr_updatedAtSlot decoded)\<rparr>\<rparr>))))))"

definition tryFetchPolicy :: "pkdns_env \<Rightarrow> PkdnsAdapterConfig \<Rightarrow> bytes \<Rightarrow> Policy option res" where
  "tryFetchPolicy env cfg nameHash =
     (if pc_ddnsWatchdogPolicyProgramId cfg = [] then Inr None
      else rbind (pk_publicKey env (pc_ddnsWatchdogPolicyProgramId cfg)) (\<lambda>programId.
        rbind (pk_pda env [ascii ''name_policy'', nameHash] programId) (\<lambda>pda.
          Inr (case pk_policyAccount env pda of
             None \<Rightarrow> None
           | Some None \<Rightarrow> None
           | Some (Some data) \<Rightarrow> (case decodeNamePolicyState data of Inl _ \<Rightarrow> None | Inr p \<Rightarrow> Some p)))))"

subsection \<open>The witness\<close>

definition uri_unreserved :: "byte \<Rightarrow> bool" where
  "uri_unreserved b \<longleftrightarrow> (let n = unat b in
     (48 \<le> n \<and> n \<le> 57) \<or> (65 \<le> n \<and> n \<le> 90) \<or> (97 \<le> n \<and> n \<le> 122) \<or> n \<in> {33, 39, 40, 41, 42, 45, 46, 95, 126})"

definition encodeURIComponent :: "string \<Rightarrow> string" where
  "encodeURIComponent s =
     concat (map (\<lambda>b. if uri_unreserved b then [char_of (unat b)] else CHR ''%'' # upper (hex2 b)) (utf8_bytes s))"

definition buildWitnessUrl :: "string \<Rightarrow> string \<Rightarrow> string" where
  "buildWitnessUrl base name =
     base @ (if CHR ''?'' \<in> set base then ''&'' else ''?'') @ ''name='' @ encodeURIComponent name"

definition tryFetchWitnessDest :: "pkdns_env \<Rightarrow> string \<Rightarrow> string \<Rightarrow> string option" where
  "tryFetchWitnessDest env witnessUrl name =
     (case pk_http env (buildWitnessUrl witnessUrl name) of
        Some (True, v) \<Rightarrow> (case jprop v ''dest'' of Some (JStr d) \<Rightarrow> Some d | _ \<Rightarrow> None)
      | _ \<Rightarrow> None)"

subsection \<open>Answers\<close>

definition route_fields :: "pkdns_env \<Rightarrow> CanonicalDestHash \<Rightarrow> json" where
  "route_fields env c =
     (let d = cd_decoded c in
      JObj [(''nameHashHex'', JStr (''0x'' @ hex (cr_nameHash d))), (''destHashHex'', JStr (ci_destHashHex (cd_canonical c))),
        (''ttlS'', JNum (jint (ci_ttlS (cd_canonical c)))), (''version'', JStr (pk_bigint env (cr_version d))),
        (''updatedAtSlot'', JStr (pk_bigint env (cr_updatedAtSlot d))),
        (''lastAggregate'', JStr (pk_toBase58 env (cr_lastAggregate d))), (''bump'', JNum (jint (cr_bump d)))])"

definition pkdns_answer ::
  "pkdns_env \<Rightarrow> string \<Rightarrow> CanonicalDestHash \<Rightarrow> string option \<Rightarrow> bool \<Rightarrow> (string \<times> string) option \<Rightarrow> int \<Rightarrow> Policy option \<Rightarrow>
     (string \<times> json) list \<Rightarrow> RouteAnswer" where
  "pkdns_answer env normalized c dest verified err confidence policy extra =
     \<lparr>ra_name = normalized, ra_nameHashHex = nameHashHex (pk_sha env) (pk_toASCII env) normalized, ra_dest = dest,
      ra_destHashHex = ci_destHashHex (cd_canonical c), ra_ttlS = jint (ci_ttlS (cd_canonical c)), ra_verified = Some verified,
      ra_canonical = Some (cd_canonical c), ra_error = err, ra_kind = KPkdns, ra_ref = pk_toBase58 env (cd_canonicalPda c),
      ra_confidenceBps = confidence, ra_policy = policy, ra_proofType = ''onchain'',
      ra_payload = JObj ([(''programId'', JStr (pk_toBase58 env (cd_programId c))),
        (''canonicalPda'', JStr (pk_toBase58 env (cd_canonicalPda c))), (''slot'', JNum (jint (cd_slot c)))] @ extra @
        [(''fields'', route_fields env c)])\<rparr>"

definition verifyCandidateDest ::
  "pkdns_env \<Rightarrow> PkdnsAdapterConfig \<Rightarrow> string \<Rightarrow> string \<Rightarrow> CanonicalDestHash option \<Rightarrow> Policy option \<Rightarrow> RouteAnswer res" where
  "verifyCandidateDest env cfg name dest override policy =
     (let normalized = pk_name env name in
      rbind (case override of Some c \<Rightarrow> Inr (Some c) | None \<Rightarrow> getCanonicalDestHash env cfg normalized) (\<lambda>canonical.
        case canonical of
          None \<Rightarrow> throw ''NOT_FOUND''
        | Some c \<Rightarrow>
            let destNormalized = normalizeDest dest;
                dh = sha256Bytes (pk_sha env) destNormalized;
                ok = (cr_destHash (cd_decoded c) = dh)
            in Inr (pkdns_answer env normalized c (if ok then Some destNormalized else None) ok
                 (if ok then None else Some (''DEST_HASH_MISMATCH'', ''Candidate dest does not match canonical dest_hash.''))
                 (if ok then 10000 else 5000) policy
                 ((if ok then [(''candidateDest'', JStr destNormalized)] else []) @
                  [(''candidateDestHashHex'', JStr (''0x'' @ hex dh))]))))"

definition dest_required :: "pkdns_env \<Rightarrow> string \<Rightarrow> CanonicalDestHash \<Rightarrow> Policy option \<Rightarrow> RouteAnswer" where
  "dest_required env normalized c policy =
     pkdns_answer env normalized c None False
       (Some (''DEST_REQUIRED'', ''PKDNS canonical route stores dest_hash only. Supply ?dest=... to verify, or configure DDNS_WITNESS_URL for resolve+verify.''))
       10000 policy []"

definition dest_candidate :: "pkdns_env \<Rightarrow> AdapterInput \<Rightarrow> string \<Rightarrow> string option" where
  "dest_candidate env input normalized =
     (let fromQuery = (case in_dest input of Some d \<Rightarrow> if trim d \<noteq> [] then Some d else None | None \<Rightarrow> None) in
      case fromQuery of
        Some d \<Rightarrow> Some d
      | None \<Rightarrow> (case in_witnessUrl input of
          Some w \<Rightarrow> if w \<noteq> [] then tryFetchWitnessDest env w normalized else None
        | None \<Rightarrow> None))"

definition pkdns_resolve :: "pkdns_env \<Rightarrow> PkdnsAdapterConfig \<Rightarrow> adapter" where
  "pkdns_resolve env cfg input =
     (let normalized = pk_name env (in_name input) in
      if in_name input = [] \<or> \<not> ends_with normalized ''.dns'' then Inr None
      else if pc_ddnsRegistryProgramId cfg = [] then throw ''DDNS_REGISTRY_PROGRAM_ID_MISSING''
      else rbind (getCanonicalDestHash env cfg normalized) (\<lambda>found.
        case found of
          None \<Rightarrow> Inr None
        | Some c \<Rightarrow> rbind (tryFetchPolicy env cfg (pk_hash env normalized)) (\<lambda>policy.
            case dest_candidate env input normalized of
              None \<Rightarrow> Inr (Some (dest_required env normalized c policy))
            | Some d \<Rightarrow> if trim d = [] then Inr (Some (dest_required env normalized c policy))
                else rmap Some (verifyCandidateDest env cfg normalized d (Some c) policy))))"

section \<open>Properties\<close>

lemma dest_required_simps [simp]:
  "ra_dest (dest_required env n c p) = None" "ra_kind (dest_required env n c p) = KPkdns" "ra_name (dest_required env n c p) = n"
  by (simp_all add: dest_required_def pkdns_answer_def)

text \<open>The cases of a resolution: the route found, and what becomes of the candidate.\<close>

lemma verify_given:
  "verifyCandidateDest env cfg name dest (Some c) policy = Inr a \<Longrightarrow>
     ra_name a = pk_name env name \<and> ra_kind a = KPkdns \<and>
     (if cr_destHash (cd_decoded c) = sha256Bytes (pk_sha env) (trim dest)
      then ra_dest a = Some (trim dest) \<and> ra_verified a = Some True else ra_dest a = None \<and> ra_verified a = Some False) \<and>
     ra_destHashHex a = ci_destHashHex (cd_canonical c)"
  by (auto simp: verifyCandidateDest_def pkdns_answer_def Let_def rbind_def normalizeDest_def)

lemma pkdns_resolve_cases:
  assumes "pkdns_resolve env cfg input = Inr (Some a)"
  obtains c policy where "getCanonicalDestHash env cfg (pk_name env (in_name input)) = Inr (Some c)"
    "in_name input \<noteq> []" "ends_with (pk_name env (in_name input)) ''.dns''"
    "a = dest_required env (pk_name env (in_name input)) c policy \<or>
     (\<exists>d. dest_candidate env input (pk_name env (in_name input)) = Some d \<and> trim d \<noteq> [] \<and>
        verifyCandidateDest env cfg (pk_name env (in_name input)) d (Some c) policy = Inr a)"
  using assms
  by (auto simp: pkdns_resolve_def Let_def rbind_def rmap_def split: if_splits sum.splits option.splits)

lemma getCanonical_cases:
  assumes "getCanonicalDestHash env cfg name = Inr (Some c)"
  obtains key pda slot data where "pk_publicKey env (pc_ddnsRegistryProgramId cfg) = Inr key"
    "pk_pda env [ascii ''canonical'', pk_hash env (pk_name env name)] key = Inr pda"
    "pk_account env pda = Inr (slot, Some data)" "decodeCanonicalRoute data = Inr (cd_decoded c)"
    "cr_nameHash (cd_decoded c) = pk_hash env (pk_name env name)"
    "ci_destHashHex (cd_canonical c) = ''0x'' @ hex (cr_destHash (cd_decoded c))"
    "ends_with (pk_name env name) ''.dns''"
  using assms
  by (auto simp: getCanonicalDestHash_def Let_def rbind_def split: if_splits sum.splits option.splits prod.splits)

interpretation pkdns: route_adapter "pk_sha env" KPkdns "pkdns_resolve env cfg" for env cfg
proof
  fix i a
  assume "pkdns_resolve env cfg i = Inr (Some a)"
  then show "answer_ok (pk_sha env) KPkdns a"
  proof (cases rule: pkdns_resolve_cases)
    case (1 c policy)
    from 1(1) have h: "ci_destHashHex (cd_canonical c) = ''0x'' @ hex (cr_destHash (cd_decoded c))"
      by (cases rule: getCanonical_cases)
    from 1(4) show ?thesis
    proof (elim disjE exE conjE)
      fix d
      assume "verifyCandidateDest env cfg (pk_name env (in_name i)) d (Some c) policy = Inr a"
      from verify_given [OF this] h show ?thesis
        by (auto simp: answer_ok_def destHashHex_def sha256Hex_def normalizeDest_def split: if_splits)
    qed (simp add: answer_ok_def)
  qed
qed

text \<open>An ASCII name is normalized by trimming it, dropping one final dot and mapping it to lower case; \<open>toASCII\<close>
  leaves ASCII text alone.\<close>

definition is_ascii :: "string \<Rightarrow> bool" where
  "is_ascii s \<longleftrightarrow> list_all (\<lambda>c. (of_char c :: nat) < 128) s"

definition ascii_law :: "(string \<Rightarrow> string) \<Rightarrow> bool" where
  "ascii_law toASCII \<longleftrightarrow> (\<forall>s. is_ascii s \<longrightarrow> toASCII s = s)"

lemma ascii_lower_char: "(of_char c :: nat) < 128 \<Longrightarrow> (of_char (lower_char c) :: nat) < 128"
  by (simp add: of_char_lower_char Let_def)

lemma trim_set: "set (trim s) \<subseteq> set s"
  unfolding trim_def by (auto dest!: set_dropWhileD)

lemma is_ascii_plain: "is_ascii s \<Longrightarrow> is_ascii (lower (strip_dot (trim s)))"
proof -
  assume "is_ascii s"
  moreover have "set (strip_dot (trim s)) \<subseteq> set s"
    using trim_set [of s] by (auto simp: strip_dot_def dest: in_set_butlastD)
  ultimately show ?thesis by (auto simp: is_ascii_def lower_def list_all_iff intro: ascii_lower_char)
qed

lemma pk_name_ascii:
  assumes "ascii_law (pk_toASCII env)" "is_ascii s"
  shows "pk_name env s = lower (strip_dot (trim s))"
  using assms is_ascii_plain [of s] by (simp add: pk_name_def normalizeNameForHash_def ascii_law_def)

lemma pk_name_fixed:
  assumes "ascii_law (pk_toASCII env)" "is_ascii s" "ends_with (pk_name env s) ''.dns''"
  shows "pk_name env (pk_name env s) = pk_name env s"
proof -
  define t where "t = strip_dot (trim s)"
  have n: "pk_name env s = lower t" using assms(1,2) by (simp add: pk_name_ascii t_def)
  obtain p where p: "lower t = p @ ''.dns''"
    using assms(3) unfolding n ends_with_def by (metis append_take_drop_id)
  then have ne: "t \<noteq> []" by (auto simp: lower_def)
  have last: "last (lower t) = CHR ''s''" unfolding p by simp
  have "hd t = hd (trim s)" using ne by (cases "trim s") (auto simp: t_def strip_dot_def split: if_splits)
  moreover have "trim s \<noteq> []" using ne by (auto simp: t_def strip_dot_def)
  ultimately have "\<not> is_ws (hd (lower t))" using trim_hd [of s] ne by (simp add: lower_def hd_map)
  moreover have "\<not> is_ws (last (lower t))" unfolding last by (simp add: is_ws_def)
  ultimately have "trim (lower t) = lower t" by (simp add: trim_id)
  moreover have "strip_dot (lower t) = lower t" using last by (simp add: strip_dot_def)
  moreover have "is_ascii (lower t)" using is_ascii_plain [OF assms(2)] by (simp add: t_def)
  ultimately show ?thesis unfolding n using assms(1) by (simp add: pk_name_ascii)
qed

text \<open>The route held on the chain for a name: an account, at the address derived from the hash of the name, that carries
  this hash.\<close>

definition route_on_chain :: "pkdns_env \<Rightarrow> PkdnsAdapterConfig \<Rightarrow> bytes \<Rightarrow> CanonicalRouteDecoded \<Rightarrow> bool" where
  "route_on_chain env cfg h r \<longleftrightarrow>
     (\<exists>key pda slot data. pk_publicKey env (pc_ddnsRegistryProgramId cfg) = Inr key \<and>
        pk_pda env [ascii ''canonical'', h] key = Inr pda \<and> pk_account env pda = Inr (slot, Some data) \<and>
        decodeCanonicalRoute data = Inr r \<and> cr_nameHash r = h)"

lemma pkdns_answer_exact:
  assumes "ascii_law (pk_toASCII env)" "is_ascii (in_name input)"
    and "pkdns_resolve env cfg input = Inr (Some a)" "ra_dest a = Some d"
  shows "ra_name a = lower (strip_dot (trim (in_name input))) \<and> ra_verified a = Some True \<and>
    (\<exists>r. route_on_chain env cfg (pk_sha env (utf8_bytes (ra_name a))) r \<and> cr_destHash r = pk_sha env (utf8_bytes d))"
  using assms(3)
proof (cases rule: pkdns_resolve_cases)
  case (1 c policy)
  let ?n = "pk_name env (in_name input)"
  note fixed = pk_name_fixed [OF assms(1,2) 1(3)]
  from 1(4) assms(4) obtain x where x: "verifyCandidateDest env cfg ?n x (Some c) policy = Inr a" by auto
  from verify_given [OF x] assms(4)
  have a: "ra_name a = ?n" "ra_verified a = Some True" "cr_destHash (cd_decoded c) = sha256Bytes (pk_sha env) d"
    by (auto simp: fixed split: if_splits)
  have h: "pk_hash env ?n = pk_sha env (utf8_bytes ?n)"
    using fixed by (simp add: pk_hash_def nameHashBytes_def sha256Bytes_def pk_name_def)
  from 1(1) show ?thesis
  proof (cases rule: getCanonical_cases)
    case (1 key pda slot data)
    then have "route_on_chain env cfg (pk_sha env (utf8_bytes ?n)) (cd_decoded c)"
      unfolding fixed h route_on_chain_def by blast
    with a show ?thesis using pk_name_ascii [OF assms(1,2)] by (auto simp: sha256Bytes_def)
  qed
qed

text \<open>A chain that holds one route, with a constant for the hash.\<close>

definition toy_pkdns :: pkdns_env where
  "toy_pkdns = \<lparr>pk_sha = (\<lambda>_. replicate 32 7), pk_toASCII = id, pk_publicKey = (\<lambda>_. Inr [1]), pk_toBase58 = (\<lambda>_. ''k''),
     pk_pda = (\<lambda>_ _. Inr [2]), pk_bigint = (\<lambda>_. ''0''),
     pk_account = (\<lambda>_. Inr (9, Some (replicate 8 0 @ replicate 64 7 @ replicate 53 0))), pk_policyAccount = (\<lambda>_. None),
     pk_http = (\<lambda>_. None)\<rparr>"

definition toy_request :: "string \<Rightarrow> AdapterInput" where
  "toy_request name = \<lparr>in_name = name, in_network = None, in_dest = Some ''https://a '', in_witnessUrl = None, in_ipfsHead = False,
     in_ttlS = None, in_mock = False, in_mockDest = [], in_evmRpcUrl = [], in_solanaRpcUrl = [], in_chainId = None,
     in_sourceOverride = [], in_qtype = None\<rparr>"

definition toy_pkdns_config :: PkdnsAdapterConfig where
  "toy_pkdns_config = \<lparr>pc_ddnsRegistryProgramId = ''p'', pc_ddnsWatchdogPolicyProgramId = []\<rparr>"

lemma toy_pkdns_run:
  obtains a where "pkdns_resolve toy_pkdns toy_pkdns_config (toy_request ''Alice.dns'') = Inr (Some a)" "ra_dest a = Some ''https://a''"
proof -
  have "rmap (map_option ra_dest) (pkdns_resolve toy_pkdns toy_pkdns_config (toy_request ''Alice.dns'')) = Inr (Some (Some ''https://a''))"
    by code_simp
  then show ?thesis by (auto simp: rmap_def rbind_def split: sum.splits intro: that)
qed

end
