(* ===== verification/Adapters.thy ===== *)
theory Adapters
  imports Pkdns RecursiveCache Hosting
begin

section \<open>The other adapters (gateway/src/adapters)\<close>

subsection \<open>IPFS (ipfs.ts)\<close>

text \<open>
  \<open>ia_head\<close> is the reply of a gateway to a HEAD request: the status and the length header, or the text of
  the exception. The copy of \<open>isCidLike\<close> here ignores case in the base-58 form, so that only \<open>0\<close> is
  excluded from the letters and digits.
\<close>

datatype head_reply = HeadReply bool jsnum json | HeadFailed string

record ipfs_env =
  ia_sha :: "bytes \<Rightarrow> bytes"
  ia_head :: "string \<Rightarrow> head_reply"

definition ipfs_isCidLike :: "string \<Rightarrow> bool" where
  "ipfs_isCidLike s \<longleftrightarrow> CIDV1_BASE32_RE s \<or>
     (lower (take 2 s) = ''qm'' \<and> 40 \<le> length (drop 2 s) \<and> list_all (\<lambda>c. is_alnum c \<and> c \<noteq> CHR ''0'') (drop 2 s))"

definition extractCid :: "string \<Rightarrow> string option" where
  "extractCid ref =
     (if starts_with ref ''ipfs://'' then
        (let cid = path_head (drop 7 ref) in if ipfs_isCidLike cid then Some cid else None)
      else if ipfs_isCidLike ref then Some ref else None)"

definition drop_slash :: "string \<Rightarrow> string" where
  "drop_slash s = (if s \<noteq> [] \<and> last s = CHR ''/'' then butlast s else s)"

fun headAny :: "ipfs_env \<Rightarrow> string list \<Rightarrow> string \<Rightarrow> json list \<Rightarrow> json" where
  "headAny env [] cid results = JObj [(''selected'', JNull), (''results'', JArr results)]"
| "headAny env (base # gateways) cid results =
     (let url = drop_slash base @ ''/'' @ cid in
      case ia_head env url of
        HeadReply ok status len \<Rightarrow>
          let results' = results @ [JObj [(''url'', JStr url), (''ok'', JBool ok), (''status'', JNum status),
            (''headers'', JObj [(''content-length'', len)])]]
          in if ok then JObj [(''selected'', JStr url), (''results'', JArr results')] else headAny env gateways cid results'
      | HeadFailed e \<Rightarrow> headAny env gateways cid (results @ [JObj [(''url'', JStr url), (''ok'', JBool False), (''error'', JStr e)]]))"

definition ipfs_resolve :: "ipfs_env \<Rightarrow> string list \<Rightarrow> adapter" where
  "ipfs_resolve env httpGateways input =
     (case extractCid (trim (in_name input)) of
        None \<Rightarrow> Inr None
      | Some cid \<Rightarrow>
          (let dest = ''ipfs://'' @ cid;
               name = ''ipfs:'' @ cid in
           Inr (Some \<lparr>ra_name = name, ra_nameHashHex = sha256Hex (ia_sha env) name, ra_dest = Some dest,
             ra_destHashHex = destHashHex (ia_sha env) dest,
             ra_ttlS = (case in_ttlS input of Some t \<Rightarrow> t | None \<Rightarrow> Fin 3600), ra_verified = None, ra_canonical = None,
             ra_error = None, ra_kind = KIpfs, ra_ref = cid, ra_confidenceBps = 10000, ra_policy = None, ra_proofType = ''none'',
             ra_payload = JObj ([(''cid'', JStr cid), (''gateways'', JArr (map JStr httpGateways))] @
               (if in_ipfsHead input then [(''head'', headAny env httpGateways cid [])] else []))\<rparr>)))"

subsection \<open>Records of the other name services\<close>

datatype ResolveRecord = RAddr string | RContenthash string | RText string string | ROwner string

definition resolve_record_json :: "ResolveRecord \<Rightarrow> json" where
  "resolve_record_json r = (case r of
     RAddr v \<Rightarrow> JObj [(''type'', JStr ''ADDR''), (''value'', JStr v)]
   | RContenthash v \<Rightarrow> JObj [(''type'', JStr ''CONTENTHASH''), (''value'', JStr v)]
   | ROwner v \<Rightarrow> JObj [(''type'', JStr ''OWNER''), (''value'', JStr v)]
   | RText k v \<Rightarrow> JObj [(''type'', JStr ''TEXT''), (''value'', JObj [(''key'', JStr k), (''value'', JStr v)])])"

definition text_entries :: "ResolveRecord list \<Rightarrow> (string \<times> string) list" where
  "text_entries records = List.map_filter (\<lambda>r. case r of RText k v \<Rightarrow> Some (k, v) | _ \<Rightarrow> None) records"

definition first_of :: "(ResolveRecord \<Rightarrow> string option) \<Rightarrow> ResolveRecord list \<Rightarrow> string option" where
  "first_of f records = (case List.map_filter f records of [] \<Rightarrow> None | x # _ \<Rightarrow> Some x)"

definition scheme_text :: "HostingScheme \<Rightarrow> string" where
  "scheme_text s = (case s of Ipfs \<Rightarrow> ''ipfs'' | Ar \<Rightarrow> ''ar'')"

definition target_json :: "HostingTarget option \<Rightarrow> json" where
  "target_json t = (case t of None \<Rightarrow> JNull
     | Some x \<Rightarrow> JObj [(''scheme'', JStr (scheme_text (ht_scheme x))), (''value'', JStr (ht_value x))])"

text \<open>The answer that both adapters build: \<open>service_answer\<close> for records found, \<open>mock_answer\<close> in mock mode.\<close>

definition service_answer ::
  "(bytes \<Rightarrow> bytes) \<Rightarrow> (string \<Rightarrow> string) \<Rightarrow> SourceKind \<Rightarrow> string \<Rightarrow> int \<Rightarrow> string \<Rightarrow> string \<Rightarrow> string \<Rightarrow> json \<Rightarrow> RouteAnswer" where
  "service_answer sha toASCII kind ref confidence proofType name dest payload =
     \<lparr>ra_name = lower name, ra_nameHashHex = nameHashHex sha toASCII (lower name), ra_dest = Some dest,
      ra_destHashHex = destHashHex sha dest, ra_ttlS = Fin 300, ra_verified = None, ra_canonical = None, ra_error = None,
      ra_kind = kind, ra_ref = ref, ra_confidenceBps = confidence, ra_policy = None, ra_proofType = proofType,
      ra_payload = payload\<rparr>"

definition mock_answer :: "(bytes \<Rightarrow> bytes) \<Rightarrow> (string \<Rightarrow> string) \<Rightarrow> SourceKind \<Rightarrow> string \<Rightarrow> AdapterInput \<Rightarrow> RouteAnswer" where
  "mock_answer sha toASCII kind fallback input =
     service_answer sha toASCII kind ''mock'' 1000 ''none'' (in_name input)
       (if in_mockDest input = [] then fallback else in_mockDest input) (JObj [(''mock'', JBool True)])"

subsection \<open>ENS (ens.ts)\<close>

text \<open>
  The package ethers encodes calls and decodes their results (as text); \<open>en_http\<close> is the reply of the RPC
  server to a call: an exception, or whether the status was ok and the body.
\<close>

record ens_env =
  en_sha :: "bytes \<Rightarrow> bytes"
  en_toASCII :: "string \<Rightarrow> string"
  en_namehash :: "string \<Rightarrow> string"
  en_encode :: "string \<Rightarrow> string list \<Rightarrow> string"
  en_decode :: "string \<Rightarrow> json option \<Rightarrow> string res"
  en_http :: "string \<Rightarrow> string \<Rightarrow> string \<Rightarrow> js_error + (bool \<times> json)"
  en_numstr :: "rat \<Rightarrow> string"
  en_b64 :: "bytes \<Rightarrow> string"

definition zero_address :: string where
  "zero_address = ''0x0000000000000000000000000000000000000000''"

definition ENS_REGISTRY :: string where
  "ENS_REGISTRY = ''0x00000000000C2E074eC69A0dFb2997BA6C7d2e1e''"

definition supportsEns :: "string \<Rightarrow> bool" where
  "supportsEns name \<longleftrightarrow> ends_with (lower name) ''.eth''"

definition callRpc :: "ens_env \<Rightarrow> string \<Rightarrow> string \<Rightarrow> string \<Rightarrow> json option res" where
  "callRpc env rpcUrl to data =
     (case en_http env rpcUrl to data of
        Inl e \<Rightarrow> (if e = JsError ''AbortError'' then throw ''ENS_TIMEOUT'' else Inl e)
      | Inr (ok, body) \<Rightarrow>
          if \<not> ok then throw ''ENS_UPSTREAM_ERROR''
          else if body = JNull then Inl TypeError
          else if jtruthy (jprop body ''error'') then throw ''ENS_UPSTREAM_ERROR''
          else Inr (jprop body ''result''))"

definition ens_call :: "ens_env \<Rightarrow> string \<Rightarrow> string \<Rightarrow> string \<Rightarrow> string list \<Rightarrow> string res" where
  "ens_call env rpcUrl to fn args = rbind (callRpc env rpcUrl to (en_encode env fn args)) (en_decode env fn)"

fun ens_texts :: "ens_env \<Rightarrow> string \<Rightarrow> string \<Rightarrow> string \<Rightarrow> string list \<Rightarrow> ResolveRecord list" where
  "ens_texts env rpcUrl resolver node [] = []"
| "ens_texts env rpcUrl resolver node (key # keys) =
     (case ens_call env rpcUrl resolver ''text'' [node, key] of
        Inl _ \<Rightarrow> []
      | Inr v \<Rightarrow> if trim v = [] then [] else [RText key (trim v)]) @ ens_texts env rpcUrl resolver node keys"

definition resolveEns :: "ens_env \<Rightarrow> string \<Rightarrow> string \<Rightarrow> ResolveRecord list res" where
  "resolveEns env name rpcUrl =
     (if rpcUrl = [] then throw ''ENS_RPC_MISSING''
      else let node = en_namehash env (lower name) in
        rbind (ens_call env rpcUrl ENS_REGISTRY ''resolver'' [node]) (\<lambda>resolver.
          if resolver = [] \<or> resolver = zero_address then Inr []
          else rbind (ens_call env rpcUrl resolver ''addr'' [node]) (\<lambda>addr.
            rbind (ens_call env rpcUrl resolver ''contenthash'' [node]) (\<lambda>content.
              Inr ((if addr \<noteq> [] \<and> addr \<noteq> zero_address then [RAddr addr] else []) @
                (if content \<noteq> [] \<and> content \<noteq> ''0x'' \<and> content \<noteq> ''0X'' then [RContenthash (lower content)] else []) @
                ens_texts env rpcUrl resolver node TEXT_ORDER)))))"

definition ens_resolve :: "ens_env \<Rightarrow> string \<Rightarrow> json option \<Rightarrow> adapter" where
  "ens_resolve env rpc chain input =
     (let rpcUrl = (if in_evmRpcUrl input = [] then rpc else in_evmRpcUrl input) in
      if in_name input = [] \<or> \<not> supportsEns (in_name input) \<or> rpcUrl = [] then Inr None
      else if in_mock input then Inr (Some (mock_answer (en_sha env) (en_toASCII env) KEns ''ens:mock'' input))
      else rbind (resolveEns env (in_name input) rpcUrl) (\<lambda>records.
        if records = [] then Inr None
        else let content = first_of (\<lambda>r. case r of RContenthash v \<Rightarrow> Some v | _ \<Rightarrow> None) records;
                 selectedText = selectPreferredTextRecord (text_entries records);
                 textTarget = Option.bind selectedText st_parsed;
                 addr = first_of (\<lambda>r. case r of RAddr v \<Rightarrow> Some v | _ \<Rightarrow> None) records;
                 contentTarget = Option.bind content (decodeEnsContenthash (en_b64 env));
                 target = (case contentTarget of Some t \<Rightarrow> Some t | None \<Rightarrow> textTarget);
                 chainId = (case chain of Some c \<Rightarrow> c | None \<Rightarrow> (case in_chainId input of Some c \<Rightarrow> c | None \<Rightarrow> JNum (Fin 1)));
                 dest = (case target of Some t \<Rightarrow> ht_dest t
                   | None \<Rightarrow> (case selectedText of Some s \<Rightarrow> st_rawValue s
                     | None \<Rightarrow> (case addr of Some a \<Rightarrow> ''eip155:'' @ js_to_string (en_numstr env) chainId @ '':'' @ a
                       | None \<Rightarrow> ''ens:records'')));
                 source = (case (contentTarget, content) of
                     (Some t, Some v) \<Rightarrow> [(''record_source'', JStr ''contenthash''), (''raw_value'', JStr v), (''parsed_target'', target_json (Some t))]
                   | _ \<Rightarrow> (case selectedText of
                       Some s \<Rightarrow> [(''record_source'', JStr ''text''), (''record_key'', JStr (st_key s)), (''raw_value'', JStr (st_rawValue s)),
                         (''parsed_target'', target_json textTarget)]
                     | None \<Rightarrow> [(''record_source'', JNull), (''raw_value'', JNull), (''parsed_target'', JNull)]))
             in Inr (Some (service_answer (en_sha env) (en_toASCII env) KEns ''eth_call'' 8000 ''onchain'' (in_name input) dest
                  (JObj ([(''adapter'', JStr ''ens''), (''chainId'', chainId), (''rpc'', JStr ''<configured>''),
                    (''records'', JArr (map resolve_record_json records))] @ source))))))"

subsection \<open>SNS (sns.ts)\<close>

text \<open>
  The account of a name on Solana: its owner and its data, read again when the first reading fails
  (\<open>sn_account 0\<close>, \<open>sn_account 1\<close>, \<open>Inl\<close> for a failed or late request). \<open>sn_text\<close> decodes
  UTF-8, \<open>sn_parse\<close> is \<open>JSON.parse\<close>; keys, base 58 and program addresses are the Solana library.
\<close>

record sns_env =
  sn_sha :: "bytes \<Rightarrow> bytes"
  sn_toASCII :: "string \<Rightarrow> string"
  sn_key :: "string \<Rightarrow> bytes"
  sn_toBase58 :: "bytes \<Rightarrow> string"
  sn_pda :: "bytes list \<Rightarrow> bytes \<Rightarrow> bytes res"
  sn_account :: "nat \<Rightarrow> string \<Rightarrow> bytes \<Rightarrow> (bytes \<times> bytes) option res"
  sn_text :: "bytes \<Rightarrow> string"
  sn_parse :: "string \<Rightarrow> json option"
  sn_numstr :: "rat \<Rightarrow> string"

definition SNS_HASH_PREFIX :: string where
  "SNS_HASH_PREFIX = ''SPL Name Service''"

definition SNS_NAME_PROGRAM_ID :: "sns_env \<Rightarrow> bytes" where
  "SNS_NAME_PROGRAM_ID env = sn_key env ''namesLPneVptA9Z5rqUDD9tMTWEJwofgaYwp8cawRkX''"

definition SNS_ROOT_DOMAIN_ACCOUNT :: "sns_env \<Rightarrow> bytes" where
  "SNS_ROOT_DOMAIN_ACCOUNT env = sn_key env ''58PwtjSDuFHuUkYjH9BYnnQKHfwo9reZhC2zMJv9JPkx''"

definition supportsSns :: "string \<Rightarrow> bool" where
  "supportsSns name \<longleftrightarrow> ends_with (lower name) ''.sol''"

definition getHashedName :: "sns_env \<Rightarrow> string \<Rightarrow> bytes" where
  "getHashedName env name = sn_sha env (utf8_bytes (SNS_HASH_PREFIX @ name))"

definition getNameAccountKey :: "sns_env \<Rightarrow> bytes \<Rightarrow> bytes option \<Rightarrow> bytes option \<Rightarrow> bytes res" where
  "getNameAccountKey env hashedName nameClass parentName =
     sn_pda env [hashedName, case nameClass of Some k \<Rightarrow> k | None \<Rightarrow> replicate 32 0,
       case parentName of Some k \<Rightarrow> k | None \<Rightarrow> replicate 32 0] (SNS_NAME_PROGRAM_ID env)"

definition parseNameRegistry :: "bytes \<Rightarrow> (bytes \<times> bytes) res" where
  "parseNameRegistry data =
     (if length data < 96 then throw ''SNS registry account is truncated''
      else Inr (take 32 (drop 32 data), drop 96 data))"

text \<open>\<open>split(/\r?\n/)\<close>: every piece but the last ends before a line feed, with one carriage return dropped.\<close>

definition strip_cr :: "string \<Rightarrow> string" where
  "strip_cr s = (if s \<noteq> [] \<and> last s = CHR 0x0D then butlast s else s)"

definition split_lines :: "string \<Rightarrow> string list" where
  "split_lines s = (let ps = split_on (CHR 0x0A) s in map strip_cr (butlast ps) @ [last ps])"

definition key_line :: "string \<Rightarrow> (string \<times> string) option" where
  "key_line line =
     (let k = takeWhile (\<lambda>c. c \<noteq> CHR ''='') line;
          key = lower (trim k); value = trim (drop (Suc (length k)) line) in
      if k = [] \<or> CHR ''='' \<notin> set line \<or> key = [] \<or> value = [] then None else Some (key, value))"

definition has_scheme :: "string \<Rightarrow> string list \<Rightarrow> bool" where
  "has_scheme raw schemes \<longleftrightarrow> list_ex (starts_with (lower raw)) schemes"

definition extractSnsTextRecords :: "sns_env \<Rightarrow> bytes \<Rightarrow> (string \<times> string) list" where
  "extractSnsTextRecords env data =
     (let raw = trim (filter (\<lambda>c. c \<noteq> CHR 0x00) (sn_text env data));
          fields = (case sn_parse env raw of
              None \<Rightarrow> []
            | Some parsed \<Rightarrow> List.map_filter (\<lambda>(k, v). case v of JStr s \<Rightarrow> if trim s \<noteq> [] then Some (lower k, trim s) else None | _ \<Rightarrow> None)
                (case object_entries (sn_numstr env) parsed of Some kvs \<Rightarrow> kvs | None \<Rightarrow> []));
          lines = List.map_filter key_line (split_lines raw) in
      if raw = [] then []
      else if fields \<noteq> [] then fields
      else if lines \<noteq> [] then lines
      else if has_scheme raw [''http://'', ''https://'', ''ipfs://'', ''ar://''] then [(''url'', raw)]
      else if isCidLike raw then [(''content'', raw)]
      else if isArweaveTxLike raw then [(''arweave'', raw)]
      else [])"

definition resolveSns :: "sns_env \<Rightarrow> string \<Rightarrow> string \<Rightarrow> ResolveRecord list res" where
  "resolveSns env name rpcUrl =
     (let l = lower name;
          trimmed = (if ends_with l ''.sol'' then take (length l - 4) l else l) in
      rbind (getNameAccountKey env (getHashedName env trimmed) None (Some (SNS_ROOT_DOMAIN_ACCOUNT env))) (\<lambda>key.
        case (case sn_account env 0 rpcUrl key of
                Inl e \<Rightarrow> Inl e
              | Inr None \<Rightarrow> Inr None
              | Inr (Some (own, data)) \<Rightarrow> rmap Some (parseNameRegistry data)) of
          Inr None \<Rightarrow> Inr []
        | Inr (Some (reg_owner, data)) \<Rightarrow>
            Inr (ROwner (sn_toBase58 env reg_owner) # map (\<lambda>(k, v). RText k v) (if data = [] then [] else extractSnsTextRecords env data))
        | Inl _ \<Rightarrow> (case sn_account env 1 rpcUrl key of
            Inl e \<Rightarrow> Inl e
          | Inr None \<Rightarrow> Inr []
          | Inr (Some (own, data)) \<Rightarrow> Inr [ROwner (sn_toBase58 env own)])))"

definition sns_resolve :: "sns_env \<Rightarrow> string \<Rightarrow> adapter" where
  "sns_resolve env rpc input =
     (let rpcUrl = (if in_solanaRpcUrl input = [] then rpc else in_solanaRpcUrl input) in
      if in_name input = [] \<or> \<not> supportsSns (in_name input) then Inr None
      else if in_mock input then Inr (Some (mock_answer (sn_sha env) (sn_toASCII env) KSns ''sns:mock'' input))
      else rbind (resolveSns env (in_name input) rpcUrl) (\<lambda>records.
        if records = [] then Inr None
        else let selectedText = selectPreferredTextRecord (text_entries records);
                 textTarget = Option.bind selectedText st_parsed;
                 owner = first_of (\<lambda>r. case r of ROwner v \<Rightarrow> Some v | _ \<Rightarrow> None) records;
                 dest = (case textTarget of Some t \<Rightarrow> ht_dest t
                   | None \<Rightarrow> (case selectedText of Some s \<Rightarrow> st_rawValue s
                     | None \<Rightarrow> (case owner of Some k \<Rightarrow> ''solana:owner:'' @ k | None \<Rightarrow> ''sns:records'')));
                 source = (case selectedText of
                     Some s \<Rightarrow> [(''record_source'', JStr ''text''), (''record_key'', JStr (st_key s)), (''raw_value'', JStr (st_rawValue s)),
                       (''parsed_target'', target_json textTarget)]
                   | None \<Rightarrow> [(''record_source'', JNull), (''record_key'', JNull), (''raw_value'', JNull), (''parsed_target'', JNull)])
             in Inr (Some (service_answer (sn_sha env) (sn_toASCII env) KSns ''getAccountInfo'' 8000 ''onchain'' (in_name input) dest
                  (JObj ([(''adapter'', JStr ''sns''),
                    (''cluster'', JStr (case in_network input of Some n \<Rightarrow> if n = [] then ''unknown'' else n | None \<Rightarrow> ''unknown'')),
                    (''records'', JArr (map resolve_record_json records))] @ source))))))"

subsection \<open>Adapters that are not built yet (handshake.ts, filecoin.ts, arweave.ts)\<close>

definition handshake_resolve :: adapter where
  "handshake_resolve input = (if in_sourceOverride input = ''handshake'' then throw ''NotImplemented:handshake'' else Inr None)"

definition filecoin_resolve :: adapter where
  "filecoin_resolve input = (if in_sourceOverride input = ''filecoin'' then throw ''NotImplemented:filecoin'' else Inr None)"

definition arweave_resolve :: adapter where
  "arweave_resolve input = (if in_sourceOverride input = ''arweave'' then throw ''NotImplemented:arweave'' else Inr None)"

subsection \<open>The recursive resolver as an adapter (recursive.ts)\<close>

text \<open>\<open>rec\<close> is the outcome of \<open>resolveRecursive\<close> for a name and a type.\<close>

definition recursive_resolve :: "(bytes \<Rightarrow> bytes) \<Rightarrow> rec_env \<Rightarrow> (string \<Rightarrow> string \<Rightarrow> ResolveResult res) \<Rightarrow> adapter" where
  "recursive_resolve sha env rec input =
     (let normalized = normalizeNameForHash (rv_toASCII env) (in_name input) in
      if in_name input = [] \<or> ends_with normalized ''.dns'' then Inr None
      else rmap (\<lambda>out. Some (recursive_answer sha env out)) (rec normalized (case in_qtype input of Some q \<Rightarrow> q | None \<Rightarrow> ''A'')))"

section \<open>All of them keep the contract\<close>

lemma service_answer_ok: "answer_ok sha kind (service_answer sha toASCII kind ref c p name dest payload)"
  by (simp add: service_answer_def answer_ok_def)

lemma mock_answer_ok: "answer_ok sha kind (mock_answer sha toASCII kind fallback input)"
  by (simp add: mock_answer_def service_answer_ok)

interpretation ipfs: route_adapter "ia_sha env" KIpfs "ipfs_resolve env gateways" for env gateways
  by unfold_locales (auto simp: ipfs_resolve_def answer_ok_def Let_def split: option.splits)

interpretation ens: route_adapter "en_sha env" KEns "ens_resolve env rpc chain" for env rpc chain
  by unfold_locales
    (auto simp: ens_resolve_def Let_def rbind_def service_answer_ok mock_answer_ok split: if_splits sum.splits)

interpretation sns: route_adapter "sn_sha env" KSns "sns_resolve env rpc" for env rpc
  by unfold_locales
    (auto simp: sns_resolve_def Let_def rbind_def service_answer_ok mock_answer_ok split: if_splits sum.splits)

interpretation recursive: route_adapter sha KRecursive "recursive_resolve sha env rec" for sha env rec
  by unfold_locales
    (auto simp: recursive_resolve_def recursive_answer_def answer_ok_def Let_def rmap_def rbind_def split: if_splits sum.splits)

interpretation handshake: route_adapter sha KHandshake handshake_resolve for sha
  by unfold_locales (simp add: handshake_resolve_def split: if_splits)

interpretation filecoin: route_adapter sha KFilecoin filecoin_resolve for sha
  by unfold_locales (simp add: filecoin_resolve_def split: if_splits)

interpretation arweave: route_adapter sha KArweave arweave_resolve for sha
  by unfold_locales (simp add: arweave_resolve_def split: if_splits)

end
