(* ===== verification/AdapterRegistry.thy ===== *)
theory AdapterRegistry
  imports Adapters
begin

section \<open>Choosing an adapter (gateway/src/adapters/registry.ts)\<close>

record AdapterSet =
  as_pkdns :: "adapter option"
  as_recursive :: "adapter option"
  as_ipfs :: "adapter option"
  as_ens :: "adapter option"
  as_sns :: "adapter option"
  as_handshake :: "adapter option"
  as_filecoin :: "adapter option"
  as_arweave :: "adapter option"

record AdapterRegistry =
  ar_pkdns :: adapter
  ar_recursive :: adapter
  ar_ipfs :: adapter
  ar_ens :: adapter
  ar_sns :: adapter
  ar_handshake :: "adapter option"
  ar_filecoin :: "adapter option"
  ar_arweave :: "adapter option"

definition must :: "'a option \<Rightarrow> string \<Rightarrow> 'a res" where
  "must v name = (case v of Some x \<Rightarrow> Inr x | None \<Rightarrow> throw (''missing_adapter:'' @ name))"

definition createAdapterRegistry :: "AdapterSet \<Rightarrow> AdapterRegistry res" where
  "createAdapterRegistry s =
     rbind (must (as_pkdns s) ''pkdns'') (\<lambda>pkdns.
     rbind (must (as_recursive s) ''recursive'') (\<lambda>recursive.
     rbind (must (as_ipfs s) ''ipfs'') (\<lambda>ipfs.
     rbind (must (as_ens s) ''ens'') (\<lambda>ens.
     rbind (must (as_sns s) ''sns'') (\<lambda>sns.
       Inr \<lparr>ar_pkdns = pkdns, ar_recursive = recursive, ar_ipfs = ipfs, ar_ens = ens, ar_sns = sns,
         ar_handshake = as_handshake s, ar_filecoin = as_filecoin s, ar_arweave = as_arweave s\<rparr>)))))"

definition by_kind :: "AdapterRegistry \<Rightarrow> SourceKind \<Rightarrow> adapter option" where
  "by_kind R k = (case k of
     KPkdns \<Rightarrow> Some (ar_pkdns R) | KRecursive \<Rightarrow> Some (ar_recursive R) | KIpfs \<Rightarrow> Some (ar_ipfs R)
   | KEns \<Rightarrow> Some (ar_ens R) | KSns \<Rightarrow> Some (ar_sns R) | KHandshake \<Rightarrow> ar_handshake R
   | KFilecoin \<Rightarrow> ar_filecoin R | KArweave \<Rightarrow> ar_arweave R)"

text \<open>Setting a property of an object literal: in its place when it is there, else at the end. The payload of a
  proof is an object in every adapter.\<close>

definition obj_set :: "json \<Rightarrow> string \<Rightarrow> json \<Rightarrow> json" where
  "obj_set v k x = (case v of JObj kvs \<Rightarrow> JObj (AList.update k x kvs) | _ \<Rightarrow> JObj [(k, x)])"

definition enrich_payload :: "json \<Rightarrow> json \<Rightarrow> json" where
  "enrich_payload payload ipfs =
     obj_set payload ''enrichment''
       (obj_set (case jprop payload ''enrichment'' of Some e \<Rightarrow> e | None \<Rightarrow> JObj []) ''ipfs'' ipfs)"

definition enrichContent :: "AdapterRegistry \<Rightarrow> RouteAnswer \<Rightarrow> AdapterInput \<Rightarrow> RouteAnswer res" where
  "enrichContent R answer baseInput =
     (case ra_dest answer of
        None \<Rightarrow> Inr answer
      | Some dest \<Rightarrow>
          if starts_with (lower dest) ''ipfs://'' \<and> ra_kind answer \<noteq> KIpfs then
            rbind (ar_ipfs R (baseInput\<lparr>in_name := dest\<rparr>)) (\<lambda>enriched.
              Inr (case enriched of
                 None \<Rightarrow> answer
               | Some e \<Rightarrow> answer\<lparr>ra_payload := enrich_payload (ra_payload answer) (ra_payload e)\<rparr>))
          else Inr answer)"

definition found :: "AdapterRegistry \<Rightarrow> AdapterInput \<Rightarrow> string \<Rightarrow> RouteAnswer option \<Rightarrow> RouteAnswer res" where
  "found R input missing ans = (case ans of None \<Rightarrow> throw missing | Some a \<Rightarrow> enrichContent R a input)"

definition resolveAuto :: "AdapterRegistry \<Rightarrow> AdapterInput \<Rightarrow> RouteAnswer res" where
  "resolveAuto R input =
     (let lowered = lower (trim (in_name input)) in
      if in_name input = [] then throw ''missing_name''
      else if ends_with lowered ''.dns'' then rbind (ar_pkdns R input) (found R input ''NOT_FOUND'')
      else if starts_with lowered ''ipfs://'' then rbind (ar_ipfs R input) (found R input ''NOT_FOUND'')
      else if ends_with lowered ''.eth'' then rbind (ar_ens R input) (found R input ''NOT_FOUND'')
      else if ends_with lowered ''.sol'' then rbind (ar_sns R input) (found R input ''NOT_FOUND'')
      else rbind (ar_recursive R input) (found R input ''NO_ADAPTER_MATCH''))"

definition kind_text :: "SourceKind \<Rightarrow> string" where
  "kind_text k = (case k of KPkdns \<Rightarrow> ''pkdns'' | KRecursive \<Rightarrow> ''recursive'' | KEns \<Rightarrow> ''ens'' | KSns \<Rightarrow> ''sns''
     | KHandshake \<Rightarrow> ''handshake'' | KIpfs \<Rightarrow> ''ipfs'' | KFilecoin \<Rightarrow> ''filecoin'' | KArweave \<Rightarrow> ''arweave'')"

definition resolveWithSource :: "AdapterRegistry \<Rightarrow> SourceKind \<Rightarrow> AdapterInput \<Rightarrow> RouteAnswer res" where
  "resolveWithSource R source input =
     (case by_kind R source of
        None \<Rightarrow> throw (''UNKNOWN_SOURCE:'' @ kind_text source)
      | Some a \<Rightarrow> rbind (a input) (found R input ''NOT_FOUND''))"

section \<open>Properties\<close>

text \<open>The kind of adapter that a name is sent to.\<close>

definition auto_kind :: "string \<Rightarrow> SourceKind" where
  "auto_kind name =
     (let lowered = lower (trim name) in
      if ends_with lowered ''.dns'' then KPkdns
      else if starts_with lowered ''ipfs://'' then KIpfs
      else if ends_with lowered ''.eth'' then KEns
      else if ends_with lowered ''.sol'' then KSns else KRecursive)"

lemma found_cases:
  assumes "found R input missing ans = Inr a"
  obtains b where "ans = Some b" "ra_dest a = ra_dest b" "ra_name a = ra_name b" "ra_verified a = ra_verified b"
    "ra_kind a = ra_kind b" "ra_destHashHex a = ra_destHashHex b"
  using assms by (auto simp: found_def enrichContent_def rbind_def split: option.splits if_splits sum.splits)

lemma resolveAuto_by_kind:
  assumes "resolveAuto R input = Inr a"
  obtains adapter ans missing where "by_kind R (auto_kind (in_name input)) = Some adapter" "adapter input = Inr ans"
    "found R input missing ans = Inr a"
  using assms
  by (auto simp: resolveAuto_def auto_kind_def by_kind_def Let_def rbind_def split: if_splits sum.splits)

text \<open>A registry whose adapters keep the contract keeps it.\<close>

locale adapter_registry =
  fixes sha :: "bytes \<Rightarrow> bytes" and R :: AdapterRegistry
  assumes members: "by_kind R k = Some a \<Longrightarrow> route_adapter sha k a"
begin

lemma found_ok: "route_adapter sha k adapter \<Longrightarrow> adapter i = Inr ans \<Longrightarrow> found R i missing ans = Inr a \<Longrightarrow> answer_ok sha k a"
  by (erule found_cases) (auto simp: answer_ok_def dest: route_adapter.answer)

lemma auto_ok: "resolveAuto R i = Inr a \<Longrightarrow> answer_ok sha (auto_kind (in_name i)) a"
  by (erule resolveAuto_by_kind) (metis members found_ok)

lemma source_ok: "resolveWithSource R k i = Inr a \<Longrightarrow> answer_ok sha k a"
  unfolding resolveWithSource_def by (auto simp: rbind_def split: option.splits sum.splits dest: members intro: found_ok)

end

text \<open>The registry of the gateway (\<open>server.ts\<close>): five adapters over one hash function.\<close>

record gateway_env =
  ge_sha :: "bytes \<Rightarrow> bytes"
  ge_pkdns :: pkdns_env
  ge_rec :: rec_env
  ge_ipfs :: ipfs_env
  ge_ens :: ens_env
  ge_sns :: sns_env

record gateway_config =
  gc_pkdns :: PkdnsAdapterConfig
  gc_rec :: "string \<Rightarrow> string \<Rightarrow> ResolveResult res"
  gc_ipfsGateways :: "string list"
  gc_ethRpcUrl :: string
  gc_solanaRpcUrl :: string

definition the_pkdns :: "gateway_env \<Rightarrow> pkdns_env" where
  "the_pkdns G = (ge_pkdns G)\<lparr>pk_sha := ge_sha G\<rparr>"

definition gateway_registry :: "gateway_env \<Rightarrow> gateway_config \<Rightarrow> AdapterRegistry" where
  "gateway_registry G c =
     \<lparr>ar_pkdns = pkdns_resolve (the_pkdns G) (gc_pkdns c),
      ar_recursive = recursive_resolve (ge_sha G) (ge_rec G) (gc_rec c),
      ar_ipfs = ipfs_resolve ((ge_ipfs G)\<lparr>ia_sha := ge_sha G\<rparr>) (gc_ipfsGateways c),
      ar_ens = ens_resolve ((ge_ens G)\<lparr>en_sha := ge_sha G\<rparr>) (gc_ethRpcUrl c) (Some (JNum (Fin 1))),
      ar_sns = sns_resolve ((ge_sns G)\<lparr>sn_sha := ge_sha G\<rparr>) (gc_solanaRpcUrl c),
      ar_handshake = None, ar_filecoin = None, ar_arweave = None\<rparr>"

subsection \<open>The older entry point (gateway/src/route_adapters/index.ts)\<close>

text \<open>The adapters as a list with their kinds; the first of a kind is taken.\<close>

definition buildDefaultAdapters :: "gateway_env \<Rightarrow> gateway_config \<Rightarrow> (SourceKind \<times> adapter) list" where
  "buildDefaultAdapters G c =
     [(KPkdns, ar_pkdns (gateway_registry G c)), (KRecursive, ar_recursive (gateway_registry G c)),
      (KIpfs, ar_ipfs (gateway_registry G c)), (KEns, ar_ens (gateway_registry G c)), (KSns, ar_sns (gateway_registry G c)),
      (KHandshake, handshake_resolve), (KFilecoin, filecoin_resolve), (KArweave, arweave_resolve)]"

definition adapters_registry :: "(SourceKind \<times> adapter) list \<Rightarrow> AdapterRegistry res" where
  "adapters_registry adapters =
     createAdapterRegistry \<lparr>as_pkdns = map_of adapters KPkdns, as_recursive = map_of adapters KRecursive,
       as_ipfs = map_of adapters KIpfs, as_ens = map_of adapters KEns, as_sns = map_of adapters KSns,
       as_handshake = map_of adapters KHandshake, as_filecoin = map_of adapters KFilecoin,
       as_arweave = map_of adapters KArweave\<rparr>"

definition resolveRouteAnswer :: "(SourceKind \<times> adapter) list \<Rightarrow> AdapterInput \<Rightarrow> RouteAnswer res" where
  "resolveRouteAnswer adapters input = rbind (adapters_registry adapters) (\<lambda>R. resolveAuto R input)"

definition default_registry :: "gateway_env \<Rightarrow> gateway_config \<Rightarrow> AdapterRegistry" where
  "default_registry G c = (gateway_registry G c)\<lparr>ar_handshake := Some handshake_resolve, ar_filecoin := Some filecoin_resolve,
     ar_arweave := Some arweave_resolve\<rparr>"

lemma default_adapters: "adapters_registry (buildDefaultAdapters G c) = Inr (default_registry G c)"
  by (simp add: adapters_registry_def buildDefaultAdapters_def createAdapterRegistry_def must_def default_registry_def
      gateway_registry_def)

text \<open>Both registries keep the contract.\<close>

lemma gateway_members: "by_kind (gateway_registry G c) k = Some a \<Longrightarrow> route_adapter (ge_sha G) k a"
  using pkdns.route_adapter_axioms [of "the_pkdns G" "gc_pkdns c"]
    ipfs.route_adapter_axioms [of "(ge_ipfs G)\<lparr>ia_sha := ge_sha G\<rparr>" "gc_ipfsGateways c"]
    ens.route_adapter_axioms [of "(ge_ens G)\<lparr>en_sha := ge_sha G\<rparr>" "gc_ethRpcUrl c" "Some (JNum (Fin 1))"]
    sns.route_adapter_axioms [of "(ge_sns G)\<lparr>sn_sha := ge_sha G\<rparr>" "gc_solanaRpcUrl c"]
    recursive.route_adapter_axioms [of "ge_sha G" "ge_rec G" "gc_rec c"]
  by (auto simp: by_kind_def gateway_registry_def the_pkdns_def split: SourceKind.splits)

interpretation gateway: adapter_registry "ge_sha G" "gateway_registry G c" for G c
  by (rule adapter_registry.intro) (rule gateway_members)

interpretation legacy: adapter_registry "ge_sha G" "default_registry G c" for G c
proof (rule adapter_registry.intro)
  fix k a
  assume "by_kind (default_registry G c) k = Some a"
  then show "route_adapter (ge_sha G) k a"
    using gateway_members [of G c k a] handshake.route_adapter_axioms filecoin.route_adapter_axioms arweave.route_adapter_axioms
    by (auto simp: by_kind_def default_registry_def split: SourceKind.splits)
qed

subsection \<open>Names under .dns\<close>

lemma ends_with_append: "ends_with (s @ t) t"
  by (simp add: ends_with_def)

lemma ends_withE: "ends_with s t \<Longrightarrow> (\<And>p. s = p @ t \<Longrightarrow> P) \<Longrightarrow> P"
  unfolding ends_with_def by (metis append_take_drop_id)

text \<open>A name in the domain: normalized, it ends in \<open>.dns\<close>.\<close>

definition dns_name :: "string \<Rightarrow> bool" where
  "dns_name name \<longleftrightarrow> ends_with (lower (strip_dot (trim name))) ''.dns''"

lemma dns_name_cases:
  assumes "dns_name name"
  shows "ends_with (lower (trim name)) ''.dns'' \<or> (\<exists>p. lower (trim name) = p @ ''.dns.'')"
proof (cases "trim name \<noteq> [] \<and> last (trim name) = CHR ''.''")
  case True
  then have "trim name = strip_dot (trim name) @ ''.''" by (metis append_butlast_last_id strip_dot_def)
  then have "lower (trim name) = lower (strip_dot (trim name)) @ ''.''"
    by (metis lower_append lower_def list.simps(8,9) lower_char_eq_dot)
  with assms show ?thesis unfolding dns_name_def by (auto elim!: ends_withE)
next
  case False
  with assms show ?thesis by (auto simp: dns_name_def strip_dot_def)
qed

lemma dotted_suffix: "lower (trim name) = p @ ''.dns.'' \<Longrightarrow>
    \<not> ends_with (lower (trim name)) ''.dns'' \<and> \<not> ends_with (lower (trim name)) ''.eth'' \<and> \<not> ends_with (lower (trim name)) ''.sol''"
  by (auto elim!: ends_withE simp: append_eq_append_conv2 append_eq_Cons_conv)

text \<open>C22: whatever the gateway answers, the hash of the destination it reports is the SHA-256 of the destination it names,
  and the answer comes from the adapter that the form of the name calls for: this holds for names resolved automatically
  and for names resolved through a named source, in the gateway and in the older entry point.\<close>

theorem gateway_answers_hashed:
  "(resolveAuto (gateway_registry G c) i = Inr a \<longrightarrow> answer_ok (ge_sha G) (auto_kind (in_name i)) a) \<and>
   (resolveWithSource (gateway_registry G c) k i = Inr a \<longrightarrow> answer_ok (ge_sha G) k a) \<and>
   (resolveRouteAnswer (buildDefaultAdapters G c) i = Inr a \<longrightarrow> answer_ok (ge_sha G) (auto_kind (in_name i)) a)"
  using gateway.auto_ok gateway.source_ok legacy.auto_ok
  by (simp add: resolveRouteAnswer_def default_adapters)

text \<open>C4: no other adapter can answer for a name under \<open>.dns\<close>. Whatever the upstream resolvers, the witness, the other
  name services and the caller say, a destination answered for an ASCII name that normalizes to one under \<open>.dns\<close> is the
  one whose hash its owner put on the chain. (A name that starts with \<open>ipfs://\<close> is content, not a domain.)\<close>

theorem dns_names_attested:
  assumes "ascii_law (pk_toASCII (ge_pkdns G))" "rv_toASCII (ge_rec G) = pk_toASCII (ge_pkdns G)"
    and "is_ascii (in_name i)" "dns_name (in_name i)" "\<not> starts_with (lower (trim (in_name i))) ''ipfs://''"
    and "resolveAuto (gateway_registry G c) i = Inr a" "ra_dest a = Some d"
  shows "ra_verified a = Some True \<and> (\<exists>r. route_on_chain (the_pkdns G) (gc_pkdns c) (ge_sha G (utf8_bytes (ra_name a))) r \<and>
    cr_destHash r = ge_sha G (utf8_bytes d))"
proof -
  let ?n = "lower (trim (in_name i))"
  have rec: "ar_recursive (gateway_registry G c) i = Inr None"
    using assms(1-4) is_ascii_plain [of "in_name i"]
    by (simp add: gateway_registry_def recursive_resolve_def normalizeNameForHash_def ascii_law_def dns_name_def)
  show ?thesis
  proof (cases "ends_with ?n ''.dns''")
    case True
    then have "auto_kind (in_name i) = KPkdns" by (simp add: auto_kind_def)
    from assms(6) obtain b where b: "pkdns_resolve (the_pkdns G) (gc_pkdns c) i = Inr (Some b)" "ra_dest b = Some d"
        "ra_name a = ra_name b" "ra_verified a = ra_verified b"
      using assms(7) by (elim resolveAuto_by_kind found_cases)
        (auto simp: \<open>auto_kind (in_name i) = KPkdns\<close> by_kind_def gateway_registry_def)
    have sha: "pk_sha (the_pkdns G) = ge_sha G" by (simp add: the_pkdns_def)
    have "ascii_law (pk_toASCII (the_pkdns G))" using assms(1) by (simp add: the_pkdns_def)
    from pkdns_answer_exact [OF this assms(3) b(1,2)] show ?thesis unfolding b(3,4) sha by blast
  next
    case False
    with dns_name_cases [OF assms(4)] obtain p where "?n = p @ ''.dns.''" by blast
    from dotted_suffix [OF this] assms(5) False have "auto_kind (in_name i) = KRecursive" by (simp add: auto_kind_def)
    with assms(6) rec show ?thesis
      by (elim resolveAuto_by_kind found_cases) (auto simp: by_kind_def)
  qed
qed

text \<open>A gateway over the chain of \<open>toy_pkdns\<close>, whose other services do not answer.\<close>

definition toy_gateway :: gateway_env where
  "toy_gateway = \<lparr>ge_sha = pk_sha toy_pkdns, ge_pkdns = toy_pkdns, ge_rec = toy_rec_env\<lparr>rv_toASCII := id\<rparr>,
     ge_ipfs = \<lparr>ia_sha = (\<lambda>_. []), ia_head = (\<lambda>_. HeadFailed ''down'')\<rparr>,
     ge_ens = \<lparr>en_sha = (\<lambda>_. []), en_toASCII = id, en_namehash = id, en_encode = (\<lambda>_ _. []), en_decode = (\<lambda>_ _. Inl TypeError),
       en_http = (\<lambda>_ _ _. Inl TypeError), en_numstr = (\<lambda>_. []), en_b64 = (\<lambda>_. [])\<rparr>,
     ge_sns = \<lparr>sn_sha = (\<lambda>_. []), sn_toASCII = id, sn_key = (\<lambda>_. []), sn_toBase58 = (\<lambda>_. []), sn_pda = (\<lambda>_ _. Inl TypeError),
       sn_account = (\<lambda>_ _ _. Inr None), sn_text = (\<lambda>_. []), sn_parse = (\<lambda>_. None), sn_numstr = (\<lambda>_. [])\<rparr>\<rparr>"

definition toy_gateway_config :: gateway_config where
  "toy_gateway_config = \<lparr>gc_pkdns = toy_pkdns_config, gc_rec = (\<lambda>_ _. Inl TypeError), gc_ipfsGateways = [], gc_ethRpcUrl = [],
     gc_solanaRpcUrl = []\<rparr>"

lemma toy_gateway_run:
  obtains a where "resolveAuto (gateway_registry toy_gateway toy_gateway_config) (toy_request ''Alice.dns'') = Inr a"
    "ra_dest a = Some ''https://a''"
proof -
  have "rmap ra_dest (resolveAuto (gateway_registry toy_gateway toy_gateway_config) (toy_request ''Alice.dns'')) = Inr (Some ''https://a'')"
    by code_simp
  then show ?thesis by (auto simp: rmap_def rbind_def split: sum.splits intro: that)
qed

theorem gateway_answers_hashed_witness:
  "\<exists>a. resolveAuto (gateway_registry toy_gateway toy_gateway_config) (toy_request ''Alice.dns'') = Inr a \<and>
     answer_ok (ge_sha toy_gateway) KPkdns a"
proof -
  obtain a where a: "resolveAuto (gateway_registry toy_gateway toy_gateway_config) (toy_request ''Alice.dns'') = Inr a"
    by (rule toy_gateway_run)
  moreover have "auto_kind (in_name (toy_request ''Alice.dns'')) = KPkdns" by code_simp
  ultimately show ?thesis
    using gateway_answers_hashed [of toy_gateway toy_gateway_config "toy_request ''Alice.dns''" a] by auto
qed

theorem dns_names_attested_witness:
  "\<exists>a r. resolveAuto (gateway_registry toy_gateway toy_gateway_config) (toy_request ''Alice.dns'') = Inr a \<and>
     ra_dest a = Some ''https://a'' \<and>
     route_on_chain (the_pkdns toy_gateway) (gc_pkdns toy_gateway_config) (ge_sha toy_gateway (utf8_bytes (ra_name a))) r"
proof -
  obtain a where a: "resolveAuto (gateway_registry toy_gateway toy_gateway_config) (toy_request ''Alice.dns'') = Inr a"
      "ra_dest a = Some ''https://a''"
    by (rule toy_gateway_run)
  have "ascii_law (pk_toASCII (ge_pkdns toy_gateway))" by (simp add: ascii_law_def toy_gateway_def toy_pkdns_def)
  moreover have "rv_toASCII (ge_rec toy_gateway) = pk_toASCII (ge_pkdns toy_gateway)"
    by (simp add: toy_gateway_def toy_pkdns_def)
  moreover have "is_ascii (in_name (toy_request ''Alice.dns''))" "dns_name (in_name (toy_request ''Alice.dns''))"
    "\<not> starts_with (lower (trim (in_name (toy_request ''Alice.dns'')))) ''ipfs://''" by code_simp+
  ultimately show ?thesis using dns_names_attested [OF _ _ _ _ _ a] a by blast
qed

text \<open>The final dot of a fully qualified name is not dropped before the adapter is chosen, so that such a name is never
  resolved, although the adapter it belongs to would accept it.\<close>

lemma dotted_dns_unresolved:
  assumes "ascii_law (rv_toASCII (ge_rec G))" "is_ascii (in_name i)" "lower (trim (in_name i)) = p @ ''.dns.''"
    and "\<not> starts_with (lower (trim (in_name i))) ''ipfs://''"
  shows "resolveAuto (gateway_registry G c) i = throw ''NO_ADAPTER_MATCH''"
proof -
  have "trim (in_name i) \<noteq> []" using assms(3) by (auto simp: lower_def)
  have "lower (strip_dot (trim (in_name i))) = strip_dot (p @ ''.dns.'')"
    using assms(3) by (simp flip: strip_dot_lower)
  then have "dns_name (in_name i)" by (simp add: dns_name_def strip_dot_def butlast_append ends_with_append)
  then have "ar_recursive (gateway_registry G c) i = Inr None"
    using assms(1,2) is_ascii_plain [of "in_name i"]
    by (simp add: gateway_registry_def recursive_resolve_def normalizeNameForHash_def ascii_law_def dns_name_def)
  moreover have "in_name i \<noteq> []" using assms(3) by (auto simp: lower_def)
  ultimately show ?thesis
    using dotted_suffix [OF assms(3)] assms(4) by (simp add: resolveAuto_def found_def Let_def rbind_def)
qed

end
