(* ===== verification/Registrar.thy ===== *)
theory Registrar
  imports Ledger Policy
begin

section \<open>Registrars (gateway/src/lib/registrar\_mock.ts, registrar\_porkbun.ts, core/src/registrar)\<close>

text \<open>
  The gateway renews domains and sets name servers through a registrar: a mock one, which keeps its domains in
  a JSON file, or Porkbun over HTTP. \<open>now\<close> is the clock in milliseconds; \<open>iso\<close> is
  \<open>new Date(ms).toISOString()\<close>, which throws for a time that no date has. As in the credits ledger the domains
  are a plain object, so the two keys \<open>constructor\<close> and \<open>__proto__\<close> find an inherited object without
  fields of its own; the fields of a record are therefore optional.
\<close>

datatype RegistrarDomainStatus = RActive | RExpiring | RExpired | RRedemption | RPendingTransfer | RUnknown

record RegistrarDomainRecord =
  rd_domain :: "string option"
  rd_status :: "RegistrarDomainStatus option"
  rd_renewal_due_date :: "string option"
  rd_grace_expires_at :: "string option"
  rd_ns :: "string list option"
  rd_traffic_signal :: "TrafficSignal option"
  rd_credits_balance :: "jsnum option"

record RenewalQuote =
  rq_price_usd :: jsnum
  rq_price_sol :: jsnum
  rq_supported :: bool
  rq_expires_at :: string

record RenewalResult =
  rn_submitted :: bool
  rn_provider_ref :: string
  rn_errors :: "string list"

record DnsUpdateResult =
  du_ok :: bool
  du_provider_ref :: string
  du_errors :: "string list"

record RegistrarPayment =
  py_use_credits :: bool
  py_credits_amount :: jsnum
  py_payment_method :: string

type_synonym domains = "string \<rightharpoonup> RegistrarDomainRecord"

text \<open>The file: absent, not JSON, an object without usable \<open>domains\<close>, or with them.\<close>

datatype reg_file = RegNone | RegGarbage | RegNoDomains | RegDomains domains

record reg_env =
  rv_iso :: "jsnum \<Rightarrow> string res"
  rv_int :: "int \<Rightarrow> string"
  rv_now :: int

definition day_ms :: rat where
  "day_ms = 24 * 60 * 60 * 1000"

definition at_day :: "reg_env \<Rightarrow> jsnum \<Rightarrow> string res" where
  "at_day env days = rv_iso env (nadd (jint (rv_now env)) (nmul days (Fin day_ms)))"

subsection \<open>The mock registrar\<close>

definition no_record :: RegistrarDomainRecord where
  "no_record = \<lparr>rd_domain = None, rd_status = None, rd_renewal_due_date = None, rd_grace_expires_at = None, rd_ns = None,
     rd_traffic_signal = None, rd_credits_balance = None\<rparr>"

definition unknown_record :: "string \<Rightarrow> RegistrarDomainRecord" where
  "unknown_record key = \<lparr>rd_domain = Some key, rd_status = Some RUnknown, rd_renewal_due_date = None,
     rd_grace_expires_at = None, rd_ns = Some [], rd_traffic_signal = Some TrafficNone, rd_credits_balance = Some (Fin 0)\<rparr>"

definition seed_record ::
  "reg_env \<Rightarrow> string \<Rightarrow> RegistrarDomainStatus \<Rightarrow> int \<Rightarrow> int \<Rightarrow> TrafficSignal \<Rightarrow> int \<Rightarrow> RegistrarDomainRecord res" where
  "seed_record env name status due grace traffic credits =
     rbind (at_day env (jint due)) (\<lambda>d. rbind (at_day env (jint grace)) (\<lambda>g.
       Inr \<lparr>rd_domain = Some name, rd_status = Some status, rd_renewal_due_date = Some d, rd_grace_expires_at = Some g,
         rd_ns = Some [''ns1.tolldns.io'', ''ns2.tolldns.io''], rd_traffic_signal = Some traffic,
         rd_credits_balance = Some (jint credits)\<rparr>))"

definition reg_defaultStore :: "reg_env \<Rightarrow> domains res" where
  "reg_defaultStore env =
     rbind (seed_record env ''good-traffic.com'' RExpiring 7 37 TrafficReal 180) (\<lambda>good.
     rbind (seed_record env ''low-traffic.com'' RExpired (-3) 14 TrafficLow 20) (\<lambda>low.
     rbind (seed_record env ''active.com'' RActive 180 210 TrafficReal 75) (\<lambda>act.
       Inr [''good-traffic.com'' \<mapsto> good, ''low-traffic.com'' \<mapsto> low, ''active.com'' \<mapsto> act])))"

definition reg_ensureStore :: "reg_env \<Rightarrow> reg_file \<Rightarrow> domains res \<times> reg_file" where
  "reg_ensureStore env file =
     (case file of
        RegNone \<Rightarrow> (case reg_defaultStore env of Inl e \<Rightarrow> (Inl e, file) | Inr s \<Rightarrow> (Inr s, RegDomains s))
      | RegGarbage \<Rightarrow> (throw ''SyntaxError'', file)
      | RegNoDomains \<Rightarrow> (reg_defaultStore env, file)
      | RegDomains s \<Rightarrow> (Inr s, file))"

definition find_domain :: "domains \<Rightarrow> string \<Rightarrow> RegistrarDomainRecord" where
  "find_domain s key =
     (case s key of Some r \<Rightarrow> r | None \<Rightarrow> if inherited_key key then no_record else unknown_record key)"

definition set_domain :: "domains \<Rightarrow> string \<Rightarrow> RegistrarDomainRecord \<Rightarrow> domains" where
  "set_domain s key r = (if key = ''__proto__'' \<and> s key = None then s else s(key \<mapsto> r))"

definition mock_getDomain :: "reg_env \<Rightarrow> string \<Rightarrow> reg_file \<Rightarrow> RegistrarDomainRecord res \<times> reg_file" where
  "mock_getDomain env domain file =
     (let (r, file') = reg_ensureStore env file in (rmap (\<lambda>s. find_domain s (normalizeDomain domain)) r, file'))"

text \<open>\<open>Number(x.toFixed(n))\<close>.\<close>

definition to_fixed :: "nat \<Rightarrow> jsnum \<Rightarrow> jsnum" where
  "to_fixed f n =
     (case n of
        Fin q \<Rightarrow> if \<bar>q\<bar> \<ge> 10 ^ 21 then Fin q
          else Fin (sgn q * of_int \<lfloor>\<bar>q\<bar> * 10 ^ f + 1 / 2\<rfloor> / 10 ^ f)
      | _ \<Rightarrow> n)"

definition mock_price :: "RegistrarDomainRecord \<Rightarrow> int" where
  "mock_price r = (if rd_status r = Some RExpired then 14 else 11)"

definition mock_getRenewalQuote :: "reg_env \<Rightarrow> string \<Rightarrow> reg_file \<Rightarrow> RenewalQuote res \<times> reg_file" where
  "mock_getRenewalQuote env domain file =
     (let (r, file') = mock_getDomain env domain file in
      (rbind r (\<lambda>rec. rbind (rv_iso env (jint (rv_now env + 10 * 60 * 1000))) (\<lambda>expires.
         Inr \<lparr>rq_price_usd = jint (mock_price rec), rq_price_sol = to_fixed 4 (Fin (of_int (mock_price rec) / 100)),
           rq_supported = (rd_status rec \<noteq> Some RUnknown), rq_expires_at = expires\<rparr>)), file'))"

definition nceil :: "jsnum \<Rightarrow> jsnum" where
  "nceil n = (case n of Fin q \<Rightarrow> jint \<lceil>q\<rceil> | _ \<Rightarrow> n)"

definition credits_of :: "RegistrarDomainRecord \<Rightarrow> jsnum" where
  "credits_of r = (case rd_credits_balance r of None \<Rightarrow> Fin 0 | Some c \<Rightarrow> nor c (Fin 0))"

text \<open>
  What both versions of the mock do: \<open>charge\<close> computes from the record the credits to take, by asking for a
  quote first in the gateway's version, from the payment in the core's.
\<close>

definition refused :: "string \<Rightarrow> string \<Rightarrow> RenewalResult" where
  "refused ref e = \<lparr>rn_submitted = False, rn_provider_ref = ref, rn_errors = [e]\<rparr>"

definition renewed_record :: "reg_env \<Rightarrow> RegistrarDomainRecord \<Rightarrow> jsnum \<Rightarrow> jsnum \<Rightarrow> RegistrarDomainRecord res" where
  "renewed_record env r years charge =
     rbind (at_day env (nmul years (Fin 365))) (\<lambda>due.
     rbind (at_day env (nadd (nmul years (Fin 365)) (Fin 30))) (\<lambda>grace.
       Inr (r\<lparr>rd_status := Some RActive, rd_renewal_due_date := Some due, rd_grace_expires_at := Some grace,
         rd_credits_balance := Some (nmax (Fin 0) (nsub (credits_of r) charge))\<rparr>)))"

definition mock_renew ::
  "(reg_env \<Rightarrow> string \<Rightarrow> RegistrarDomainRecord \<Rightarrow> reg_file \<Rightarrow> jsnum res \<times> reg_file) \<Rightarrow> reg_env \<Rightarrow> string \<Rightarrow> jsnum \<Rightarrow> reg_file \<Rightarrow>
     RenewalResult res \<times> reg_file" where
  "mock_renew charge env domain years file =
     (let key = normalizeDomain domain in
      if \<not> is_finite years \<or> nlt years (Fin 1) then (Inr (refused ''mock-renew-invalid'' ''invalid_years''), file)
      else (case reg_ensureStore env file of
          (Inl e, file1) \<Rightarrow> (Inl e, file1)
        | (Inr store, file1) \<Rightarrow>
            (let existing = find_domain store key in
             if rd_status existing = Some RUnknown then (Inr (refused ''mock-renew-unsupported'' ''domain_unknown''), file1)
             else (case charge env key existing file1 of
                 (Inl e, file2) \<Rightarrow> (Inl e, file2)
               | (Inr c, file2) \<Rightarrow> (case renewed_record env existing years c of
                     Inl e \<Rightarrow> (Inl e, file2)
                   | Inr r \<Rightarrow> (Inr \<lparr>rn_submitted = True, rn_provider_ref = ''mock-renew-'' @ rv_int env (rv_now env), rn_errors = []\<rparr>,
                       RegDomains (set_domain store key r)))))))"

definition quote_charge :: "RegistrarPayment option \<Rightarrow> reg_env \<Rightarrow> string \<Rightarrow> RegistrarDomainRecord \<Rightarrow> reg_file \<Rightarrow> jsnum res \<times> reg_file" where
  "quote_charge payment env key r file =
     (let (q, file') = mock_getRenewalQuote env key file in
      (rmap (\<lambda>quote. let creditsNeeded = nceil (nmul (rq_price_usd quote) (Fin 10)) in
         case payment of Some p \<Rightarrow> if py_use_credits p then nmin (credits_of r) creditsNeeded else Fin 0 | None \<Rightarrow> Fin 0) q, file'))"

definition payment_charge :: "RegistrarPayment option \<Rightarrow> reg_env \<Rightarrow> string \<Rightarrow> RegistrarDomainRecord \<Rightarrow> reg_file \<Rightarrow> jsnum res \<times> reg_file" where
  "payment_charge payment env key r file =
     (Inr (case payment of Some p \<Rightarrow> nor (py_credits_amount p) (Fin 0) | None \<Rightarrow> Fin 0), file)"

definition mock_renewDomain :: "reg_env \<Rightarrow> string \<Rightarrow> jsnum \<Rightarrow> RegistrarPayment option \<Rightarrow> reg_file \<Rightarrow> RenewalResult res \<times> reg_file" where
  "mock_renewDomain env domain years payment file = mock_renew (quote_charge payment) env domain years file"

definition core_renewDomain :: "reg_env \<Rightarrow> string \<Rightarrow> jsnum \<Rightarrow> RegistrarPayment option \<Rightarrow> reg_file \<Rightarrow> RenewalResult res \<times> reg_file" where
  "core_renewDomain env domain years payment file = mock_renew (payment_charge payment) env domain years file"

definition clean_ns :: "string list \<Rightarrow> string list" where
  "clean_ns ns = filter (\<lambda>s. s \<noteq> []) (map (\<lambda>e. lower (trim e)) ns)"

definition mock_setNameServers :: "reg_env \<Rightarrow> string \<Rightarrow> string list \<Rightarrow> reg_file \<Rightarrow> DnsUpdateResult res \<times> reg_file" where
  "mock_setNameServers env domain ns file =
     (let key = normalizeDomain domain; normalized = clean_ns ns in
      if length normalized < 2 then (Inr \<lparr>du_ok = False, du_provider_ref = ''mock-ns-invalid'', du_errors = [''invalid_ns'']\<rparr>, file)
      else (case reg_ensureStore env file of
          (Inl e, file1) \<Rightarrow> (Inl e, file1)
        | (Inr store, file1) \<Rightarrow>
            (Inr \<lparr>du_ok = True, du_provider_ref = ''mock-ns-'' @ rv_int env (rv_now env), du_errors = []\<rparr>,
             RegDomains (set_domain store key ((find_domain store key)\<lparr>rd_ns := Some normalized\<rparr>)))))"

definition mock_getNameServers :: "reg_env \<Rightarrow> string \<Rightarrow> reg_file \<Rightarrow> string list res \<times> reg_file" where
  "mock_getNameServers env domain file =
     (let (r, file') = mock_getDomain env domain file in
      (rmap (\<lambda>rec. case rd_ns rec of Some ns \<Rightarrow> ns | None \<Rightarrow> []) r, file'))"

subsection \<open>Porkbun\<close>

text \<open>
  \<open>pb_http\<close> is the reply to a POST: an exception, or the status and the body, \<open>None\<close> when it is not JSON;
  \<open>pb_date\<close> is \<open>new Date(v).toISOString()\<close> and \<open>pb_number\<close> is \<open>Number\<close>.
\<close>

record porkbun_env =
  pb_reg :: reg_env
  pb_http :: "string \<Rightarrow> json \<Rightarrow> js_error + (int \<times> json option)"
  pb_date :: "json \<Rightarrow> string res"
  pb_number :: "json \<Rightarrow> jsnum"
  pb_numstr :: "rat \<Rightarrow> string"

record PorkbunOptions =
  po_apiKey :: string
  po_secretApiKey :: string
  po_endpoint :: string
  po_dryRun :: bool

definition baseUrl :: "string \<Rightarrow> string" where
  "baseUrl endpoint =
     rev (dropWhile (\<lambda>c. c = CHR ''/'') (rev (if endpoint = [] then ''https://api.porkbun.com/api/json/v3'' else endpoint)))"

definition hasCreds :: "PorkbunOptions \<Rightarrow> bool" where
  "hasCreds opts \<longleftrightarrow> po_apiKey opts \<noteq> [] \<and> po_secretApiKey opts \<noteq> []"

definition providerRef :: "porkbun_env \<Rightarrow> string \<Rightarrow> string" where
  "providerRef env prefix = prefix @ ''-'' @ rv_int (pb_reg env) (rv_now (pb_reg env))"

definition postJson :: "porkbun_env \<Rightarrow> string \<Rightarrow> json \<Rightarrow> json res" where
  "postJson env url body =
     (case pb_http env url body of
        Inl e \<Rightarrow> (if e = JsError ''AbortError'' then throw ''provider_timeout'' else Inl e)
      | Inr (status, None) \<Rightarrow> throw ''SyntaxError''
      | Inr (status, Some v) \<Rightarrow>
          if status < 200 \<or> 299 < status then throw (''provider_http_'' @ rv_int (pb_reg env) status) else Inr v)"

definition creds :: "PorkbunOptions \<Rightarrow> (string \<times> json) list" where
  "creds opts = [(''apikey'', JStr (po_apiKey opts)), (''secretapikey'', JStr (po_secretApiKey opts))]"

definition pb_dry :: "PorkbunOptions \<Rightarrow> bool" where
  "pb_dry opts \<longleftrightarrow> po_dryRun opts \<or> \<not> hasCreds opts"

definition dryRunDomain :: "porkbun_env \<Rightarrow> string \<Rightarrow> RegistrarDomainRecord res" where
  "dryRunDomain env domain =
     (let good = (domain = ''good-traffic.com'') in
      rbind (at_day (pb_reg env) (jint (if good then 5 else 90))) (\<lambda>due.
      rbind (at_day (pb_reg env) (jint (if good then 35 else 120))) (\<lambda>grace.
        Inr \<lparr>rd_domain = Some domain, rd_status = Some (if good then RExpiring else RActive), rd_renewal_due_date = Some due,
          rd_grace_expires_at = Some grace, rd_ns = Some [''ns1.tolldns.io'', ''ns2.tolldns.io''],
          rd_traffic_signal = Some (if good then TrafficReal else TrafficLow),
          rd_credits_balance = Some (if good then jint 180 else jint 40)\<rparr>)))"

text \<open>\<open>v?.k\<close>, \<open>String(v || "")\<close> and \<open>Number(v || d)\<close>.\<close>

definition jget :: "json option \<Rightarrow> string \<Rightarrow> json option" where
  "jget v k = Option.bind v (\<lambda>x. jprop x k)"

definition text_of :: "porkbun_env \<Rightarrow> json option \<Rightarrow> string \<Rightarrow> string" where
  "text_of env v d = (case v of Some x \<Rightarrow> if jtruthy v then js_to_string (pb_numstr env) x else d | None \<Rightarrow> d)"

definition number_of :: "porkbun_env \<Rightarrow> json option \<Rightarrow> int \<Rightarrow> jsnum" where
  "number_of env v d = (case v of Some x \<Rightarrow> if jtruthy v then pb_number env x else jint d | None \<Rightarrow> jint d)"

definition status_of_text :: "string \<Rightarrow> RegistrarDomainStatus" where
  "status_of_text s = (if s = ''active'' then RActive else if s = ''expiring'' then RExpiring else if s = ''expired'' then RExpired
     else if s = ''redemption'' then RRedemption else RUnknown)"

definition porkbun_getDomain :: "porkbun_env \<Rightarrow> PorkbunOptions \<Rightarrow> string \<Rightarrow> RegistrarDomainRecord res" where
  "porkbun_getDomain env opts domainRaw =
     (let domain = normalizeDomain domainRaw in
      if pb_dry opts then dryRunDomain env domain
      else rbind (postJson env (baseUrl (po_endpoint opts) @ ''/domain/getDomainInfo/'' @ domain) (JObj (creds opts))) (\<lambda>result.
        let d = jprop result ''domain'';
            expiration = (if jtruthy (jget d ''expirationDate'') then the (jget d ''expirationDate'')
              else if jtruthy (jget d ''expireDate'') then the (jget d ''expireDate'')
              else JNum (nadd (jint (rv_now (pb_reg env))) (Fin (90 * day_ms))));
            trafficEstimate = number_of env (jget d ''estimatedTraffic'') 0 in
        rbind (pb_date env expiration) (\<lambda>due.
        rbind (at_day (pb_reg env) (jint 30)) (\<lambda>grace.
          Inr \<lparr>rd_domain = Some domain, rd_status = Some (status_of_text (lower (text_of env (jprop result ''status'') []))),
            rd_renewal_due_date = Some due, rd_grace_expires_at = Some grace,
            rd_ns = Some (case jget d ''ns'' of Some (JArr xs) \<Rightarrow> map (js_to_string (pb_numstr env)) xs | _ \<Rightarrow> []),
            rd_traffic_signal = Some (if nle trafficEstimate (Fin 0) then TrafficNone else if nlt trafficEstimate (Fin 200) then TrafficLow
              else TrafficReal),
            rd_credits_balance = Some (Fin 0)\<rparr>))))"

definition porkbun_getRenewalQuote :: "porkbun_env \<Rightarrow> PorkbunOptions \<Rightarrow> string \<Rightarrow> RenewalQuote res" where
  "porkbun_getRenewalQuote env opts domainRaw =
     (let domain = normalizeDomain domainRaw in
      rbind (if pb_dry opts then Inr (if length domain \<le> 6 then jint 14 else jint 11)
        else rbind (postJson env (baseUrl (po_endpoint opts) @ ''/domain/getPricing/'' @ domain) (JObj (creds opts)))
          (\<lambda>result. Inr (number_of env (jget (jprop result ''pricing'') ''renew'') 12))) (\<lambda>priceUsd.
      rbind (rv_iso (pb_reg env) (jint (rv_now (pb_reg env) + 10 * 60 * 1000))) (\<lambda>expires.
        Inr \<lparr>rq_price_usd = priceUsd, rq_price_sol = to_fixed 4 (nmul priceUsd (Fin (1 / 100))), rq_supported = True,
          rq_expires_at = expires\<rparr>)))"

definition porkbun_renewDomain :: "porkbun_env \<Rightarrow> PorkbunOptions \<Rightarrow> string \<Rightarrow> jsnum \<Rightarrow> RegistrarPayment option \<Rightarrow> RenewalResult res" where
  "porkbun_renewDomain env opts domainRaw years payment =
     (let domain = normalizeDomain domainRaw in
      if \<not> is_finite years \<or> nlt years (Fin 1) then Inr (refused (providerRef env ''porkbun-invalid'') ''invalid_years'')
      else if pb_dry opts then Inr \<lparr>rn_submitted = True, rn_provider_ref = providerRef env ''porkbun-dryrun-renew'', rn_errors = []\<rparr>
      else rbind (postJson env (baseUrl (po_endpoint opts) @ ''/domain/renew/'' @ domain) (JObj (creds opts @
          [(''years'', JNum years), (''payment_method'', JStr (case payment of
              Some p \<Rightarrow> if py_payment_method p = [] then ''credits'' else py_payment_method p | None \<Rightarrow> ''credits''))]))) (\<lambda>result.
        if lower (text_of env (jprop result ''status'') []) \<noteq> ''success''
        then Inr (refused (providerRef env ''porkbun-renew'') (text_of env (jprop result ''message'') ''renew_failed''))
        else Inr \<lparr>rn_submitted = True, rn_provider_ref = providerRef env ''porkbun-renew'', rn_errors = []\<rparr>))"

definition porkbun_setNameServers :: "porkbun_env \<Rightarrow> PorkbunOptions \<Rightarrow> string \<Rightarrow> string list \<Rightarrow> DnsUpdateResult res" where
  "porkbun_setNameServers env opts domainRaw ns =
     (let domain = normalizeDomain domainRaw; normalized = clean_ns ns in
      if length normalized < 2
      then Inr \<lparr>du_ok = False, du_provider_ref = providerRef env ''porkbun-ns'', du_errors = [''invalid_ns'']\<rparr>
      else if pb_dry opts then Inr \<lparr>du_ok = True, du_provider_ref = providerRef env ''porkbun-dryrun-ns'', du_errors = []\<rparr>
      else rbind (postJson env (baseUrl (po_endpoint opts) @ ''/domain/updateNs/'' @ domain)
          (JObj (creds opts @ [(''ns'', JArr (map JStr normalized))]))) (\<lambda>result.
        if lower (text_of env (jprop result ''status'') []) \<noteq> ''success''
        then Inr \<lparr>du_ok = False, du_provider_ref = providerRef env ''porkbun-ns'',
          du_errors = [text_of env (jprop result ''message'') ''ns_failed'']\<rparr>
        else Inr \<lparr>du_ok = True, du_provider_ref = providerRef env ''porkbun-ns'', du_errors = []\<rparr>))"

definition porkbun_getNameServers :: "porkbun_env \<Rightarrow> PorkbunOptions \<Rightarrow> string \<Rightarrow> string list res" where
  "porkbun_getNameServers env opts domainRaw =
     (let domain = normalizeDomain domainRaw in
      if pb_dry opts then Inr [''ns1.tolldns.io'', ''ns2.tolldns.io'']
      else rbind (postJson env (baseUrl (po_endpoint opts) @ ''/domain/getNs/'' @ domain) (JObj (creds opts))) (\<lambda>result.
        Inr (filter (\<lambda>s. s \<noteq> []) (map (\<lambda>v. lower (text_of env (Some v) []))
          (case jprop result ''ns'' of Some (JArr xs) \<Rightarrow> xs | _ \<Rightarrow> [])))))"

section \<open>The interface (core/src/registrar/adapter.ts) and its providers (gateway/src/lib/registrar\_provider.ts)\<close>

record RegistrarAdapter =
  rga_getDomain :: "string \<Rightarrow> reg_file \<Rightarrow> RegistrarDomainRecord res \<times> reg_file"
  rga_getRenewalQuote :: "string \<Rightarrow> reg_file \<Rightarrow> RenewalQuote res \<times> reg_file"
  rga_renewDomain :: "string \<Rightarrow> jsnum \<Rightarrow> RegistrarPayment option \<Rightarrow> reg_file \<Rightarrow> RenewalResult res \<times> reg_file"
  rga_setNameServers :: "string \<Rightarrow> string list \<Rightarrow> reg_file \<Rightarrow> DnsUpdateResult res \<times> reg_file"
  rga_getNameServers :: "string \<Rightarrow> reg_file \<Rightarrow> string list res \<times> reg_file"

definition createMockRegistrar :: "reg_env \<Rightarrow> RegistrarAdapter" where
  "createMockRegistrar env = \<lparr>rga_getDomain = mock_getDomain env, rga_getRenewalQuote = mock_getRenewalQuote env,
     rga_renewDomain = mock_renewDomain env, rga_setNameServers = mock_setNameServers env,
     rga_getNameServers = mock_getNameServers env\<rparr>"

definition core_createMockRegistrar :: "reg_env \<Rightarrow> RegistrarAdapter" where
  "core_createMockRegistrar env = (createMockRegistrar env)\<lparr>rga_renewDomain := core_renewDomain env\<rparr>"

definition createPorkbunRegistrarAdapter :: "porkbun_env \<Rightarrow> PorkbunOptions \<Rightarrow> RegistrarAdapter" where
  "createPorkbunRegistrarAdapter env opts =
     \<lparr>rga_getDomain = (\<lambda>d f. (porkbun_getDomain env opts d, f)),
      rga_getRenewalQuote = (\<lambda>d f. (porkbun_getRenewalQuote env opts d, f)),
      rga_renewDomain = (\<lambda>d y p f. (porkbun_renewDomain env opts d y p, f)),
      rga_setNameServers = (\<lambda>d ns f. (porkbun_setNameServers env opts d ns, f)),
      rga_getNameServers = (\<lambda>d f. (porkbun_getNameServers env opts d, f))\<rparr>"

datatype RegistrarProvider = MockProvider | PorkbunProvider

record RegistrarProviderConfig =
  rp_enabled :: bool
  rp_provider :: RegistrarProvider
  rp_dryRun :: bool
  rp_porkbun :: PorkbunOptions

record RegistrarProviderRuntime =
  rt_adapter :: RegistrarAdapter
  rt_enabled :: bool
  rt_provider :: RegistrarProvider
  rt_dryRun :: bool

definition parseRegistrarProvider :: "string \<Rightarrow> RegistrarProvider" where
  "parseRegistrarProvider value = (if lower value = ''porkbun'' then PorkbunProvider else MockProvider)"

definition createRegistrarProvider :: "porkbun_env \<Rightarrow> RegistrarProviderConfig \<Rightarrow> RegistrarProviderRuntime res" where
  "createRegistrarProvider env config =
     (let hasSecrets = hasCreds (rp_porkbun config) in
      if \<not> rp_enabled config then
        Inr \<lparr>rt_adapter = createMockRegistrar (pb_reg env), rt_enabled = False, rt_provider = MockProvider, rt_dryRun = True\<rparr>
      else if rp_provider config = MockProvider then
        Inr \<lparr>rt_adapter = createMockRegistrar (pb_reg env), rt_enabled = True, rt_provider = MockProvider, rt_dryRun = True\<rparr>
      else if \<not> rp_dryRun config \<and> \<not> hasSecrets then
        throw ''registrar_config_error: REGISTRAR_ENABLED=1 requires provider secrets unless REGISTRAR_DRY_RUN=1''
      else Inr \<lparr>rt_adapter = createPorkbunRegistrarAdapter env
            ((rp_porkbun config)\<lparr>po_dryRun := rp_dryRun config \<or> \<not> hasSecrets\<rparr>),
          rt_enabled = True, rt_provider = PorkbunProvider, rt_dryRun = rp_dryRun config \<or> \<not> hasSecrets\<rparr>)"

text \<open>
  What the handlers rely on: questions change no domain; a renewal is submitted only for a whole number of years
  that is at least one, or at least not less; one that is not submitted, or fails, changes no domain; and a renewal
  or an update touches no other domain.
\<close>

definition same_domains :: "RegistrarAdapter \<Rightarrow> reg_file \<Rightarrow> reg_file \<Rightarrow> bool" where
  "same_domains A f f' \<longleftrightarrow> (\<forall>d. fst (rga_getDomain A d f') = fst (rga_getDomain A d f))"

definition same_others :: "RegistrarAdapter \<Rightarrow> string \<Rightarrow> reg_file \<Rightarrow> reg_file \<Rightarrow> bool" where
  "same_others A d f f' \<longleftrightarrow>
     (\<forall>e. normalizeDomain e \<noteq> normalizeDomain d \<longrightarrow> fst (rga_getDomain A e f') = fst (rga_getDomain A e f))"

locale registrar =
  fixes A :: RegistrarAdapter
  assumes get_frame: "same_domains A f (snd (rga_getDomain A d f))"
    and quote_frame: "same_domains A f (snd (rga_getRenewalQuote A d f))"
    and renew_submitted: "rga_renewDomain A d y p f = (Inr x, f') \<Longrightarrow> rn_submitted x \<Longrightarrow> \<exists>q. y = Fin q \<and> 1 \<le> q"
    and renew_frame: "rga_renewDomain A d y p f = (r, f') \<Longrightarrow> (case r of Inl e \<Rightarrow> True | Inr x \<Rightarrow> \<not> rn_submitted x) \<Longrightarrow> same_domains A f f'"
    and renew_others: "rga_renewDomain A d y p f = (r, f') \<Longrightarrow> same_others A d f f'"
    and ns_others: "rga_setNameServers A d ns f = (u, f') \<Longrightarrow> same_others A d f f'"
begin

lemma invalid_years_refused: "\<not> (\<exists>q. y = Fin q \<and> 1 \<le> q) \<Longrightarrow> rga_renewDomain A d y p f = (Inr r, f') \<Longrightarrow> \<not> rn_submitted r"
  using renew_submitted by blast

end

lemma same_domains_refl: "same_domains A f f"
  by (simp add: same_domains_def)

lemma same_domains_trans: "same_domains A f g \<Longrightarrow> same_domains A g h \<Longrightarrow> same_domains A f h"
  by (simp add: same_domains_def)

lemma same_domains_others: "same_domains A f f' \<Longrightarrow> same_others A d f f'"
  by (simp add: same_domains_def same_others_def)

interpretation porkbun: registrar "createPorkbunRegistrarAdapter env opts" for env opts
  by unfold_locales
    (auto simp: createPorkbunRegistrarAdapter_def same_domains_def same_others_def porkbun_renewDomain_def refused_def Let_def
      is_finite_iff rbind_def split: if_splits sum.splits)

text \<open>Reading the store of the mock.\<close>

lemma ensure_again [simp]: "fst (reg_ensureStore env (snd (reg_ensureStore env f))) = fst (reg_ensureStore env f)"
  by (auto simp: reg_ensureStore_def split: reg_file.splits sum.splits)

lemma mock_get: "fst (mock_getDomain env d f) = rmap (\<lambda>s. find_domain s (normalizeDomain d)) (fst (reg_ensureStore env f))"
  "snd (mock_getDomain env d f) = snd (reg_ensureStore env f)"
  by (simp_all add: mock_getDomain_def split: prod.splits)

lemma mock_quote_snd: "snd (mock_getRenewalQuote env d f) = snd (reg_ensureStore env f)"
  by (simp add: mock_getRenewalQuote_def split_def mock_get)

lemma same_mock: "fst (reg_ensureStore env f') = fst (reg_ensureStore env f) \<Longrightarrow> same_domains (createMockRegistrar env) f f'"
  by (simp add: same_domains_def createMockRegistrar_def mock_get)

lemma find_set_domain: "k \<noteq> key \<Longrightarrow> find_domain (set_domain s key r) k = find_domain s k"
  by (simp add: find_domain_def set_domain_def)

text \<open>A charge is harmless when it leaves the store as it is.\<close>

definition charge_ok :: "(reg_env \<Rightarrow> string \<Rightarrow> RegistrarDomainRecord \<Rightarrow> reg_file \<Rightarrow> jsnum res \<times> reg_file) \<Rightarrow> bool" where
  "charge_ok charge \<longleftrightarrow> (\<forall>env key r f. fst (reg_ensureStore env (snd (charge env key r f))) = fst (reg_ensureStore env f))"

lemma charges_ok: "charge_ok (quote_charge p)" "charge_ok (payment_charge p)"
  by (simp_all add: charge_ok_def quote_charge_def payment_charge_def split_def mock_quote_snd)

lemma mock_renew_cases:
  assumes "mock_renew charge env d y f = (r, f')" "charge_ok charge"
  obtains "case r of Inl e \<Rightarrow> True | Inr x \<Rightarrow> \<not> rn_submitted x" "fst (reg_ensureStore env f') = fst (reg_ensureStore env f)"
  | q store c f2 r' where "y = Fin q" "1 \<le> q" "fst (reg_ensureStore env f) = Inr store"
      "rd_status (find_domain store (normalizeDomain d)) \<noteq> Some RUnknown"
      "charge env (normalizeDomain d) (find_domain store (normalizeDomain d)) (snd (reg_ensureStore env f)) = (Inr c, f2)"
      "renewed_record env (find_domain store (normalizeDomain d)) y c = Inr r'"
      "f' = RegDomains (set_domain store (normalizeDomain d) r')"
      "r = Inr \<lparr>rn_submitted = True, rn_provider_ref = ''mock-renew-'' @ rv_int env (rv_now env), rn_errors = []\<rparr>"
proof (cases "is_finite y \<and> \<not> nlt y (Fin 1)")
  case False
  with assms(1) that(1) show ?thesis by (auto simp: mock_renew_def refused_def Let_def)
next
  case True
  then obtain q where q: "y = Fin q" "1 \<le> q" by (auto simp: is_finite_iff)
  obtain st f1 where e: "reg_ensureStore env f = (st, f1)" by force
  have kept: "fst (reg_ensureStore env f1) = st" using ensure_again [of env f] by (simp add: e)
  show ?thesis
  proof (cases st)
    case (Inl x)
    with assms(1) q e that(1) kept show ?thesis by (auto simp: mock_renew_def Let_def)
  next
    case (Inr store)
    let ?r = "find_domain store (normalizeDomain d)"
    show ?thesis
    proof (cases "rd_status ?r = Some RUnknown")
      case True
      with assms(1) q e Inr have "r = Inr (refused ''mock-renew-unsupported'' ''domain_unknown'')" "f' = f1"
        by (auto simp: mock_renew_def Let_def)
      with e that(1) kept show ?thesis by (simp add: refused_def)
    next
      case known: False
      obtain c f2 where c: "charge env (normalizeDomain d) ?r f1 = (c, f2)" by force
      have kept2: "fst (reg_ensureStore env f2) = st"
        using assms(2) kept c unfolding charge_ok_def by (metis snd_conv)
      show ?thesis
      proof (cases c)
        case (Inl x)
        with assms(1) q e Inr known c that(1) kept2 show ?thesis by (auto simp: mock_renew_def Let_def \<open>st = Inr store\<close>)
      next
        case (Inr c')
        show ?thesis
        proof (cases "renewed_record env ?r y c'")
          case (Inl x)
          with assms(1) q e known c Inr that(1) kept2 show ?thesis by (auto simp: mock_renew_def Let_def \<open>st = Inr store\<close>)
        next
          case renewed: (Inr r')
          from assms(1) q e known c Inr renewed \<open>st = Inr store\<close>
          have "r = Inr \<lparr>rn_submitted = True, rn_provider_ref = ''mock-renew-'' @ rv_int env (rv_now env), rn_errors = []\<rparr>"
            "f' = RegDomains (set_domain store (normalizeDomain d) r')"
            by (auto simp: mock_renew_def Let_def)
          with q e known c Inr renewed \<open>st = Inr store\<close> show ?thesis by (intro that(2)) simp_all
        qed
      qed
    qed
  qed
qed

lemma mock_submitted: "rn_submitted \<lparr>rn_submitted = True, rn_provider_ref = ref, rn_errors = es\<rparr>"
  by simp

lemma ensure_domains [simp]: "reg_ensureStore env (RegDomains s) = (Inr s, RegDomains s)"
  by (simp add: reg_ensureStore_def)

lemma mock_set_others:
  assumes "fst (reg_ensureStore env f) = Inr store"
  shows "same_others (createMockRegistrar env) d f (RegDomains (set_domain store (normalizeDomain d) r))"
  using assms by (simp add: same_others_def createMockRegistrar_def mock_get find_set_domain)

lemma mock_renew_frame:
  assumes "mock_renew charge env d y f = (r, f')" "charge_ok charge" "case r of Inl e \<Rightarrow> True | Inr x \<Rightarrow> \<not> rn_submitted x"
  shows "same_domains (createMockRegistrar env) f f'"
  using assms(1,2)
proof (cases rule: mock_renew_cases)
  case 1
  then show ?thesis by (simp add: same_mock)
next
  case 2
  with assms(3) show ?thesis by simp
qed

lemma mock_renew_others:
  assumes "mock_renew charge env d y f = (r, f')" "charge_ok charge"
  shows "same_others (createMockRegistrar env) d f f'"
  using assms
proof (cases rule: mock_renew_cases)
  case 1
  then show ?thesis by (simp add: same_mock same_domains_others)
next
  case (2 q store c f2 r')
  then show ?thesis by (simp add: mock_set_others)
qed

lemma mock_renew_years:
  assumes "mock_renew charge env d y f = (Inr x, f')" "charge_ok charge" "rn_submitted x"
  shows "\<exists>q. y = Fin q \<and> 1 \<le> q"
  using assms(1,2)
proof (cases rule: mock_renew_cases)
  case 1
  with assms(3) show ?thesis by simp
qed blast

lemma mock_simps:
  "rga_getDomain (createMockRegistrar env) = mock_getDomain env"
  "rga_getRenewalQuote (createMockRegistrar env) = mock_getRenewalQuote env"
  "rga_renewDomain (createMockRegistrar env) d y p = mock_renew (quote_charge p) env d y"
  "rga_setNameServers (createMockRegistrar env) = mock_setNameServers env"
  "rga_renewDomain (core_createMockRegistrar env) d y p = mock_renew (payment_charge p) env d y"
  by (simp_all add: createMockRegistrar_def core_createMockRegistrar_def mock_renewDomain_def core_renewDomain_def fun_eq_iff)

lemma mock_ns_others:
  assumes "mock_setNameServers env d ns f = (u, f')"
  shows "same_others (createMockRegistrar env) d f f'"
proof (cases "length (clean_ns ns) < 2")
  case True
  with assms show ?thesis by (simp add: mock_setNameServers_def same_domains_others same_domains_refl)
next
  case False
  show ?thesis
  proof (cases "reg_ensureStore env f")
    case (Pair st f1)
    show ?thesis
    proof (cases st)
      case (Inl e)
      with assms False Pair have "f' = snd (reg_ensureStore env f)" by (simp add: mock_setNameServers_def)
      then show ?thesis by (simp add: same_domains_others same_mock)
    next
      case (Inr store)
      with assms False Pair obtain r where "f' = RegDomains (set_domain store (normalizeDomain d) r)"
        by (auto simp: mock_setNameServers_def Let_def)
      moreover have "fst (reg_ensureStore env f) = Inr store" using Pair Inr by simp
      ultimately show ?thesis by (simp add: mock_set_others)
    qed
  qed
qed

interpretation mock: registrar "createMockRegistrar env" for env
  by (rule registrar.intro)
    (simp_all add: mock_simps same_mock mock_get(2) mock_quote_snd mock_renew_years charges_ok mock_renew_frame mock_renew_others
      mock_ns_others)


text \<open>The stored credits of a domain are absent, or finite and not negative; no operation breaks that.\<close>

definition reg_ok :: "reg_file \<Rightarrow> bool" where
  "reg_ok f \<longleftrightarrow> (case f of RegDomains s \<Rightarrow>
     (\<forall>k r. s k = Some r \<longrightarrow> (case rd_credits_balance r of None \<Rightarrow> True | Some c \<Rightarrow> \<exists>q. c = Fin q \<and> 0 \<le> q)) | _ \<Rightarrow> True)"

locale registrar_store = registrar +
  assumes get_ok: "reg_ok f \<Longrightarrow> reg_ok (snd (rga_getDomain A d f))"
    and quote_ok: "reg_ok f \<Longrightarrow> reg_ok (snd (rga_getRenewalQuote A d f))"
    and renew_ok: "reg_ok f \<Longrightarrow> reg_ok (snd (rga_renewDomain A d y p f))"
    and ns_ok: "reg_ok f \<Longrightarrow> reg_ok (snd (rga_setNameServers A d ns f))"

interpretation porkbun_store: registrar_store "createPorkbunRegistrarAdapter env opts" for env opts
  by unfold_locales (simp_all add: createPorkbunRegistrarAdapter_def)

abbreviation credits_ok :: "RegistrarDomainRecord \<Rightarrow> bool" where
  "credits_ok r \<equiv> (case rd_credits_balance r of None \<Rightarrow> True | Some c \<Rightarrow> \<exists>q. c = Fin q \<and> 0 \<le> q)"

lemma reg_ok_domains: "reg_ok (RegDomains s) \<longleftrightarrow> (\<forall>k r. s k = Some r \<longrightarrow> credits_ok r)"
  by (simp add: reg_ok_def)

lemma seed_ok: "seed_record env n st du g t c = Inr r \<Longrightarrow> 0 \<le> c \<Longrightarrow> credits_ok r"
  by (auto simp: seed_record_def rbind_def split: sum.splits)

lemma default_ok: "reg_defaultStore env = Inr s \<Longrightarrow> reg_ok (RegDomains s)"
  by (auto simp: reg_defaultStore_def rbind_def reg_ok_domains split: sum.splits if_splits dest!: seed_ok)

lemma ensure_ok: "reg_ok f \<Longrightarrow> reg_ok (snd (reg_ensureStore env f))"
  "reg_ok f \<Longrightarrow> fst (reg_ensureStore env f) = Inr s \<Longrightarrow> reg_ok (RegDomains s)"
  by (auto simp: reg_ensureStore_def default_ok split: reg_file.splits sum.splits)

lemma find_ok: "reg_ok (RegDomains s) \<Longrightarrow> credits_ok (find_domain s k)"
  by (auto simp: reg_ok_domains find_domain_def no_record_def unknown_record_def split: option.splits)

lemma set_ok: "reg_ok (RegDomains s) \<Longrightarrow> credits_ok r \<Longrightarrow> reg_ok (RegDomains (set_domain s k r))"
  by (simp add: reg_ok_domains set_domain_def)

lemma credits_of_ok: "credits_ok r \<Longrightarrow> \<exists>q. credits_of r = Fin q \<and> 0 \<le> q"
  by (auto simp: credits_of_def nor_def split: option.splits)

text \<open>A charge is sound when it is finite and leaves a sound store.\<close>

lemma quote_charge_ok:
  assumes "quote_charge p env key r f = (c, f')" "credits_ok r" "reg_ok f"
  shows "reg_ok f'" "c = Inr x \<Longrightarrow> \<exists>q. x = Fin q"
proof -
  show "reg_ok f'"
    using assms by (auto simp: quote_charge_def split_def mock_quote_snd ensure_ok dest!: arg_cong [where f = snd])
  obtain b where b: "credits_of r = Fin b" using credits_of_ok [OF assms(2)] by blast
  show "\<exists>q. x = Fin q" if "c = Inr x"
  proof -
    from assms(1) that have c: "fst (quote_charge p env key r f) = Inr x" by simp
    then obtain quote where q: "fst (mock_getRenewalQuote env key f) = Inr quote"
      by (cases "fst (mock_getRenewalQuote env key f)") (simp_all add: quote_charge_def split_def)
    with c have x: "x = (case p of Some p \<Rightarrow> if py_use_credits p then nmin (credits_of r) (nceil (nmul (rq_price_usd quote) (Fin 10)))
        else Fin 0 | None \<Rightarrow> Fin 0)"
      by (simp add: quote_charge_def split_def Let_def)
    from q obtain i where "rq_price_usd quote = jint i"
      by (auto simp: mock_getRenewalQuote_def split_def Let_def rbind_def split: sum.splits)
    with x b show ?thesis by (auto simp: nceil_def split: option.splits)
  qed
qed

lemma renewed_ok: "renewed_record env r y (Fin c) = Inr r' \<Longrightarrow> credits_ok r \<Longrightarrow> credits_ok r'"
  using credits_of_ok [of r] by (auto simp: renewed_record_def rbind_def split: sum.splits)

lemma reg_ok_iff: "reg_ok f \<longleftrightarrow> (\<forall>s. fst (reg_ensureStore env f) = Inr s \<longrightarrow> reg_ok (RegDomains s))"
  by (auto simp: reg_ensureStore_def default_ok split: reg_file.splits sum.splits) (auto simp: reg_ok_def)

lemma mock_renew_ok:
  assumes "mock_renew (quote_charge p) env d y f = (r, f')" "reg_ok f"
  shows "reg_ok f'"
  using assms(1) charges_ok(1)
proof (cases rule: mock_renew_cases)
  case 1
  with assms(2) show ?thesis using reg_ok_iff by metis
next
  case (2 q store c f2 r')
  have s: "reg_ok (RegDomains store)" using ensure_ok(2) assms(2) 2(3) by blast
  have k: "credits_ok (find_domain store (normalizeDomain d))" by (rule find_ok [OF s])
  with quote_charge_ok(2) [OF 2(5) _ ensure_ok(1) [OF assms(2)]] obtain b where "c = Fin b" by blast
  with 2(6) k have "credits_ok r'" by (blast intro: renewed_ok)
  with s 2(7) show ?thesis by (simp only: set_ok)
qed

lemma mock_ns_ok:
  assumes "mock_setNameServers env d ns f = (u, f')" "reg_ok f"
  shows "reg_ok f'"
proof (cases "\<exists>store. fst (reg_ensureStore env f) = Inr store \<and> 2 \<le> length (clean_ns ns)")
  case True
  then obtain store where s: "fst (reg_ensureStore env f) = Inr store" "2 \<le> length (clean_ns ns)" by blast
  let ?k = "normalizeDomain d"
  have "f' = RegDomains (set_domain store ?k ((find_domain store ?k)\<lparr>rd_ns := Some (clean_ns ns)\<rparr>))"
    using assms(1) s by (auto simp: mock_setNameServers_def Let_def split: prod.splits)
  moreover have "reg_ok (RegDomains store)" using s(1) assms(2) ensure_ok(2) by blast
  ultimately show ?thesis by (simp add: set_ok find_ok)
next
  case False
  then have "f' = f \<or> f' = snd (reg_ensureStore env f)"
    using assms(1) by (auto simp: mock_setNameServers_def Let_def split: prod.splits sum.splits if_splits)
  with assms(2) show ?thesis by (auto simp: ensure_ok)
qed

interpretation mock_store: registrar_store "createMockRegistrar env" for env
proof (rule registrar_store.intro)
  show "registrar (createMockRegistrar env)" by (rule mock.registrar_axioms)
  show "registrar_store_axioms (createMockRegistrar env)"
    by (rule registrar_store_axioms.intro)
      (auto simp: mock_simps mock_get(2) mock_quote_snd ensure_ok intro: mock_renew_ok [OF surjective_pairing] mock_ns_ok [OF surjective_pairing])
qed

lemma core_simps:
  "rga_getDomain (core_createMockRegistrar env) = mock_getDomain env"
  "rga_getRenewalQuote (core_createMockRegistrar env) = mock_getRenewalQuote env"
  "rga_setNameServers (core_createMockRegistrar env) = mock_setNameServers env"
  "same_domains (core_createMockRegistrar env) = same_domains (createMockRegistrar env)"
  "same_others (core_createMockRegistrar env) = same_others (createMockRegistrar env)"
  by (simp_all add: core_createMockRegistrar_def createMockRegistrar_def same_domains_def same_others_def fun_eq_iff)

interpretation core_mock: registrar "core_createMockRegistrar env" for env
  by (rule registrar.intro)
    (simp_all add: core_simps mock_simps same_mock mock_get(2) mock_quote_snd mock_renew_years charges_ok mock_renew_frame
      mock_renew_others mock_ns_others)

text \<open>Whatever the configuration, the gateway's registrar keeps the contract.\<close>

lemma provider_store: "createRegistrarProvider env config = Inr rt \<Longrightarrow> registrar_store (rt_adapter rt)"
  by (auto simp: createRegistrarProvider_def Let_def mock_store.registrar_store_axioms porkbun_store.registrar_store_axioms
      split: if_splits)

lemma provider_registrar: "createRegistrarProvider env config = Inr rt \<Longrightarrow> registrar (rt_adapter rt)"
  using provider_store registrar_store.axioms(1) by blast

end
