(* ===== verification/Notice.thy ===== *)
theory Notice
  imports Policy Receipts
begin

section \<open>Notice tokens (gateway/src/lib/notice\_token.ts)\<close>

text \<open>
  The gateway signs the state of a domain for its owner. A token is the JSON text of the payload and its Ed25519
  signature, both in base64url, joined by a dot. \<open>nt_b64\<close> and \<open>nt_unb64\<close> are \<open>Buffer\<close>'s base64url,
  \<open>nt_text\<close> decodes UTF-8, \<open>nt_parse\<close> is \<open>JSON.parse\<close>, \<open>nt_key\<close> is the private key in
  hexadecimal; \<open>notice_laws\<close> says what is relied on.
\<close>

record DomainNoticePayload =
  np_domain :: string
  np_phase :: ContinuityPhase
  np_issued_at :: string
  np_expires_at :: string
  np_reason_codes :: "string list"
  np_policy_version :: string
  np_nonce :: string

record notice_env =
  nt_ed :: ed25519
  nt_b64 :: "bytes \<Rightarrow> string"
  nt_unb64 :: "string \<Rightarrow> bytes"
  nt_text :: "bytes \<Rightarrow> string"
  nt_parse :: "string \<Rightarrow> json option"
  nt_numstr :: "rat \<Rightarrow> string"
  nt_key :: string

definition phase_text :: "ContinuityPhase \<Rightarrow> string" where
  "phase_text p = (case p of A_SOFT_WARNING \<Rightarrow> ''A_SOFT_WARNING'' | B_HARD_WARNING \<Rightarrow> ''B_HARD_WARNING''
     | HOLD_BANNER \<Rightarrow> ''HOLD_BANNER'' | C_SAFE_PARKED \<Rightarrow> ''C_SAFE_PARKED''
     | D_REGISTRY_FINALIZATION \<Rightarrow> ''D_REGISTRY_FINALIZATION'')"

definition notice_json :: "DomainNoticePayload \<Rightarrow> json" where
  "notice_json p = JObj [(''domain'', JStr (np_domain p)), (''phase'', JStr (phase_text (np_phase p))),
     (''issued_at'', JStr (np_issued_at p)), (''expires_at'', JStr (np_expires_at p)),
     (''reason_codes'', JArr (map JStr (np_reason_codes p))), (''policy_version'', JStr (np_policy_version p)),
     (''nonce'', JStr (np_nonce p))]"

definition notice_hexToBytes :: "string \<Rightarrow> bytes res" where
  "notice_hexToBytes h =
     (let cleaned = (if starts_with h ''0x'' then drop 2 h else h) in
      if cleaned = [] \<or> \<not> list_all (\<lambda>c. hex_value c \<noteq> None) cleaned \<or> length cleaned mod 2 \<noteq> 0 then throw ''invalid_hex''
      else Inr (hex_pairs cleaned))"

definition notice_public_key :: "notice_env \<Rightarrow> bytes res" where
  "notice_public_key env = rmap (getPublicKey (nt_ed env)) (notice_hexToBytes (nt_key env))"

definition getNoticePublicKeyHex :: "notice_env \<Rightarrow> string res" where
  "getNoticePublicKeyHex env = rmap hex (notice_public_key env)"

definition createNoticeToken :: "notice_env \<Rightarrow> DomainNoticePayload \<Rightarrow> (string \<times> string) res" where
  "createNoticeToken env payload =
     (let payloadJson = json_str (nt_numstr env) (notice_json payload);
          payloadPart = nt_b64 env (utf8_bytes payloadJson) in
      rbind (notice_hexToBytes (nt_key env)) (\<lambda>key.
      rbind (ed25519Sign (nt_ed env) key (utf8_bytes payloadJson)) (\<lambda>sig.
      rbind (getNoticePublicKeyHex env) (\<lambda>pubkey.
        Inr (payloadPart @ ''.'' @ nt_b64 env sig, pubkey)))))"

text \<open>\<open>None\<close> is an invalid token; exceptions are caught.\<close>

definition verifyNoticeToken :: "notice_env \<Rightarrow> string \<Rightarrow> json option" where
  "verifyNoticeToken env token =
     (case split_on (CHR ''.'') token of
        payloadPart # sigPart # _ \<Rightarrow>
          if payloadPart = [] \<or> sigPart = [] then None
          else (let payloadBytes = nt_unb64 env payloadPart; sigBytes = nt_unb64 env sigPart in
            case rbind (getNoticePublicKeyHex env) notice_hexToBytes of
              Inl _ \<Rightarrow> None
            | Inr pub \<Rightarrow> (case ed25519Verify (nt_ed env) pub payloadBytes sigBytes of
                Inr True \<Rightarrow> nt_parse env (nt_text env payloadBytes)
              | _ \<Rightarrow> None))
      | _ \<Rightarrow> None)"

section \<open>Properties\<close>

definition notice_laws :: "notice_env \<Rightarrow> DomainNoticePayload \<Rightarrow> bool" where
  "notice_laws env p \<longleftrightarrow> ed25519_laws (nt_ed env) \<and>
     (\<forall>b. nt_unb64 env (nt_b64 env b) = b \<and> CHR ''.'' \<notin> set (nt_b64 env b) \<and> (b \<noteq> [] \<longrightarrow> nt_b64 env b \<noteq> [])) \<and>
     (\<forall>s. nt_text env (utf8_bytes s) = s) \<and>
     nt_parse env (json_str (nt_numstr env) (notice_json p)) = Some (notice_json p)"

lemma notice_hex_back: "bs \<noteq> [] \<Longrightarrow> notice_hexToBytes (hex bs) = Inr bs"
  using hex_chars [of bs] by (simp add: notice_hexToBytes_def hex_not_0x length_hex hex_pairs_hex Let_def)

lemma getNoticePublicKey:
  assumes "ed25519_laws (nt_ed env)" "notice_hexToBytes (nt_key env) = Inr seed" "length seed = 32"
  shows "rbind (getNoticePublicKeyHex env) notice_hexToBytes = Inr (getPublicKey (nt_ed env) seed)"
proof -
  have "length (getPublicKey (nt_ed env) seed) = 32" using assms(1,3) by (simp add: ed25519_laws_def)
  then have "getPublicKey (nt_ed env) seed \<noteq> []" by auto
  with assms(2) show ?thesis by (simp add: getNoticePublicKeyHex_def notice_public_key_def notice_hex_back rmap_def)
qed


text \<open>An environment in which the laws hold: hexadecimal for base64url.\<close>

definition toy_payload :: DomainNoticePayload where
  "toy_payload = \<lparr>np_domain = ''a.com'', np_phase = HOLD_BANNER, np_issued_at = ''i'', np_expires_at = ''e'',
     np_reason_codes = [''TRAFFIC_HOLD_ELIGIBLE''], np_policy_version = ''v'', np_nonce = ''n''\<rparr>"

definition toy_notice :: notice_env where
  "toy_notice = \<lparr>nt_ed = toy_ed25519, nt_b64 = hex, nt_unb64 = hex_pairs, nt_text = (\<lambda>b. map char_of (text_decode b)),
     nt_parse = (\<lambda>s. if s = json_str (\<lambda>_. ''0'') (notice_json toy_payload) then Some (notice_json toy_payload) else None),
     nt_numstr = (\<lambda>_. ''0''), nt_key = hex (replicate 32 1)\<rparr>"

lemma units_well_formed: "list_all (\<lambda>u. u < 256) us \<Longrightarrow> well_formed us"
  by (induction us rule: well_formed.induct) (auto simp: high_surrogate_def low_surrogate_def)

lemma hex_no_dot: "CHR ''.'' \<notin> set (hex bs)"
proof -
  have "hex_value (CHR ''.'') = None" by code_simp
  then show ?thesis using hex_chars [of bs] by (auto simp: list_all_iff)
qed

lemma text_back: "map char_of (text_decode (utf8_bytes s)) = (s :: string)"
proof -
  have b: "list_all (\<lambda>u. u < 256) (map of_char s :: nat list)" by (simp add: list_all_iff of_char_bounds)
  have "text_decode (utf8_bytes s) = map of_char s"
    unfolding utf8_bytes_def
  proof (rule text_decode_encode)
    show "well_formed (map of_char s)" by (rule units_well_formed [OF b])
    show "map of_char s = ([] :: nat list) \<or> hd (map of_char s) \<noteq> (0xFEFF :: nat)"
    proof (cases s)
      case (Cons c cs)
      have "(of_char c :: nat) < 256" by (simp add: of_char_bounds)
      then have "(of_char c :: nat) \<noteq> 0xFEFF" by linarith
      with Cons show ?thesis by simp
    qed simp
  qed
  then show ?thesis by (simp add: comp_def)
qed


end
