(* ===== verification/DomainStatus.thy ===== *)
theory DomainStatus
  imports Registrar Notice
begin

section \<open>The state of a domain (gateway/src/server.ts)\<close>

text \<open>
  The gateway judges a domain by the continuity policy, on inputs from its registrar, the credits ledger, a worker that
  knows expiry dates, and what it stored before. \<open>dm_parse\<close> is \<open>Date.parse\<close>, \<open>dm_worker\<close> the reply of the
  worker (\<open>None\<close> when the request fails; the body is \<open>None\<close> when it is not JSON); the clock is that of the
  registrar's environment, in milliseconds.
\<close>

record domain_env =
  dm_reg :: reg_env
  dm_parse :: "string \<Rightarrow> int option"
  dm_version :: string
  dm_workerUrl :: string
  dm_worker :: "string \<Rightarrow> (bool \<times> json option) option"

abbreviation dm_now :: "domain_env \<Rightarrow> int" where
  "dm_now env \<equiv> rv_now (dm_reg env)"

definition now_iso :: "domain_env \<Rightarrow> int \<Rightarrow> string res" where
  "now_iso env offset = rv_iso (dm_reg env) (jint (dm_now env + offset))"

record ContinuityStatus =
  cs_domain :: string
  cs_eligible :: bool
  cs_phase :: ContinuityPhase
  cs_reason_codes :: "string list"
  cs_next_steps :: "string list"
  cs_hold_banner_active :: bool
  cs_credits_balance :: jsnum
  cs_credits_applied_estimate :: int
  cs_estimated_renewal_cost :: jsnum
  cs_renewal_covered_by_credits :: bool
  cs_renewal_due_date :: string
  cs_grace_expires_at :: string

record FlaggedStatus = ContinuityStatus +
  fs_uses_ddns_ns :: bool
  fs_eligible_for_hold :: bool
  fs_eligible_for_subsidy :: bool
  fs_treasury_renewal_allowed :: "bool option"

record ContinuityOptions =
  cx_nsStatus :: "bool option"
  cx_verifiedControl :: "bool option"
  cx_trafficSignal :: "TrafficSignal option"
  cx_renewalDueDate :: "string option"
  cx_lastSeenAt :: "string option"
  cx_abuseFlag :: "bool option"
  cx_claimRequested :: "bool option"
  cx_creditsBalance :: "jsnum option"
  cx_renewalCostEstimate :: "jsnum option"

definition no_options :: ContinuityOptions where
  "no_options = \<lparr>cx_nsStatus = None, cx_verifiedControl = None, cx_trafficSignal = None, cx_renewalDueDate = None,
     cx_lastSeenAt = None, cx_abuseFlag = None, cx_claimRequested = None, cx_creditsBalance = None,
     cx_renewalCostEstimate = None\<rparr>"

text \<open>\<open>a ?? b\<close>, and \<open>a || b\<close> on strings that may be absent.\<close>

definition either :: "'a option \<Rightarrow> 'a \<Rightarrow> 'a" where
  "either v d = (case v of Some x \<Rightarrow> x | None \<Rightarrow> d)"

definition first_some :: "'a option \<Rightarrow> 'a option \<Rightarrow> 'a option" where
  "first_some a b = (case a of Some x \<Rightarrow> Some x | None \<Rightarrow> b)"

definition nonempty :: "string option \<Rightarrow> string option" where
  "nonempty s = (case s of Some x \<Rightarrow> if x = [] then None else Some x | None \<Rightarrow> None)"

definition inferTrafficSignal :: "domain_env \<Rightarrow> string option \<Rightarrow> TrafficSignal" where
  "inferTrafficSignal env lastSeenAt =
     (case nonempty lastSeenAt of
        None \<Rightarrow> TrafficNone
      | Some t \<Rightarrow> (case dm_parse env t of
          None \<Rightarrow> TrafficNone
        | Some ts \<Rightarrow> let ageMs = dm_now env - ts in
            if ageMs \<le> 2 * 24 * 60 * 60 * 1000 then TrafficReal
            else if ageMs \<le> 14 * 24 * 60 * 60 * 1000 then TrafficLow else TrafficNone))"

definition continuityStatus :: "domain_env \<Rightarrow> string \<Rightarrow> ContinuityOptions \<Rightarrow> ContinuityStatus res" where
  "continuityStatus env domainRaw options =
     (let domain = normalizeDomain domainRaw in
      rbind (case nonempty (cx_renewalDueDate options) of Some d \<Rightarrow> Inr d | None \<Rightarrow> now_iso env (1000 * 60 * 60 * 24 * 20)) (\<lambda>renewalDueDate.
      rbind (now_iso env (1000 * 60 * 60 * 24 * 35)) (\<lambda>graceExpiresAt.
        let cost = either (cx_renewalCostEstimate options) (jint 110);
            balance = either (cx_creditsBalance options) (Fin 0);
            policy = evaluateDomainContinuityPolicy (dm_parse env)
              \<lparr>dc_domain = domain, dc_ns_status = either (cx_nsStatus options) True,
               dc_verified_control = either (cx_verifiedControl options) False,
               dc_traffic_signal = (case cx_trafficSignal options of Some t \<Rightarrow> t | None \<Rightarrow> inferTrafficSignal env (cx_lastSeenAt options)),
               dc_seo_value_signal = None, dc_credit_balance = balance, dc_renewal_cost_estimate = cost,
               dc_renewal_due_date = Some renewalDueDate, dc_last_seen_at = cx_lastSeenAt options,
               dc_abuse_flag = either (cx_abuseFlag options) False\<rparr> (dm_now env);
            claim = (cx_claimRequested options = Some True);
            reasonCodes = do_reason_codes policy @ (if claim then [''CLAIM_REQUESTED''] else []);
            nextSteps = do_next_steps policy @ (if claim then [''Claim is queued for policy review''] else [])
        in Inr \<lparr>cs_domain = domain, cs_eligible = do_eligible policy, cs_phase = do_phase policy,
             cs_reason_codes = js_dedup reasonCodes, cs_next_steps = js_dedup nextSteps,
             cs_hold_banner_active = do_hold_banner_active policy, cs_credits_balance = balance,
             cs_credits_applied_estimate = do_credits_estimate policy, cs_estimated_renewal_cost = cost,
             cs_renewal_covered_by_credits = do_renewal_covered_by_credits policy, cs_renewal_due_date = renewalDueDate,
             cs_grace_expires_at = graceExpiresAt\<rparr>)))"

definition addEligibilityFlags :: "ContinuityStatus \<Rightarrow> bool \<Rightarrow> bool option \<Rightarrow> FlaggedStatus" where
  "addEligibilityFlags s usesDdnsNs treasury =
     (let benefits = usesDdnsNs \<and> cs_eligible s in
      \<lparr>cs_domain = cs_domain s, cs_eligible = cs_eligible s, cs_phase = cs_phase s,
       cs_reason_codes = js_dedup (cs_reason_codes s @ (if usesDdnsNs then [] else [''MUST_USE_DDNS_NS''])),
       cs_next_steps = js_dedup (cs_next_steps s @
         (if usesDdnsNs then [] else [''Point nameservers to TollDNS to enable continuity hold and subsidy''])),
       cs_hold_banner_active = cs_hold_banner_active s, cs_credits_balance = cs_credits_balance s,
       cs_credits_applied_estimate = (if benefits then cs_credits_applied_estimate s else 0),
       cs_estimated_renewal_cost = cs_estimated_renewal_cost s, cs_renewal_covered_by_credits = cs_renewal_covered_by_credits s,
       cs_renewal_due_date = cs_renewal_due_date s, cs_grace_expires_at = cs_grace_expires_at s,
       fs_uses_ddns_ns = usesDdnsNs, fs_eligible_for_hold = benefits, fs_eligible_for_subsidy = benefits,
       fs_treasury_renewal_allowed = treasury\<rparr>)"

subsection \<open>The banner\<close>

record BannerState =
  bn_renewalDue :: bool
  bn_grace_seconds_remaining :: int
  bn_grace_countdown :: string
  bn_acked_at :: "string option"

definition buildRenewalBannerState :: "domain_env \<Rightarrow> FlaggedStatus \<Rightarrow> string option \<Rightarrow> BannerState" where
  "buildRenewalBannerState env s ackedAt =
     (let renewalDue = (case dm_parse env (cs_renewal_due_date s) of Some t \<Rightarrow> t \<le> dm_now env | None \<Rightarrow> False);
          grace = (case dm_parse env (cs_grace_expires_at s) of Some t \<Rightarrow> max 0 ((t - dm_now env) div 1000) | None \<Rightarrow> 0);
          str = rv_int (dm_reg env)
      in \<lparr>bn_renewalDue = renewalDue, bn_grace_seconds_remaining = grace,
          bn_grace_countdown = (if renewalDue then str (grace div 86400) @ ''d '' @ str (grace mod 86400 div 3600) @ ''h'' else ''n/a''),
          bn_acked_at = nonempty ackedAt\<rparr>)"

subsection \<open>The worker\<close>

record WorkerCompat =
  wc_expires_at :: "string option"
  wc_traffic_signal :: "TrafficSignal option"
  wc_treasury_renewal_allowed :: "bool option"

definition no_compat :: WorkerCompat where
  "no_compat = \<lparr>wc_expires_at = None, wc_traffic_signal = None, wc_treasury_renewal_allowed = None\<rparr>"

definition normalizeWorkerTrafficSignal :: "json option \<Rightarrow> TrafficSignal option" where
  "normalizeWorkerTrafficSignal v =
     (case v of
        Some (JStr s) \<Rightarrow> (let n = lower (trim s) in
          if n \<in> {''real'', ''high'', ''validated'', ''valid''} then Some TrafficReal
          else if n = ''low'' then Some TrafficLow
          else if n = ''none'' then Some TrafficNone
          else if s = ''1'' then Some TrafficReal else if s = ''0'' then Some TrafficNone else None)
      | Some (JBool b) \<Rightarrow> Some (if b then TrafficReal else TrafficNone)
      | Some (JNum n) \<Rightarrow> if n = Fin 1 then Some TrafficReal else if n = Fin 0 then Some TrafficNone else None
      | _ \<Rightarrow> None)"

fun pickWorkerString :: "json \<Rightarrow> string list \<Rightarrow> string option" where
  "pickWorkerString payload [] = None"
| "pickWorkerString payload (key # keys) =
     (case jprop payload key of Some (JStr s) \<Rightarrow> if trim s \<noteq> [] then Some s else pickWorkerString payload keys
      | _ \<Rightarrow> pickWorkerString payload keys)"

fun pickWorkerBoolean :: "json \<Rightarrow> string list \<Rightarrow> bool option" where
  "pickWorkerBoolean payload [] = None"
| "pickWorkerBoolean payload (key # keys) =
     (case jprop payload key of Some (JBool b) \<Rightarrow> Some b | _ \<Rightarrow> pickWorkerBoolean payload keys)"

definition fetchContinuityCompatFromWorker :: "domain_env \<Rightarrow> string \<Rightarrow> WorkerCompat" where
  "fetchContinuityCompatFromWorker env domainRaw =
     (let domain = normalizeDomain domainRaw in
      if dm_workerUrl env = [] \<or> domain = [] then no_compat
      else (case dm_worker env domain of
          Some (True, Some payload) \<Rightarrow>
            (let rawExpires = pickWorkerString payload [''expires_at'', ''expiration_date'', ''expiresAt''];
                 expires = (case Option.bind rawExpires (dm_parse env) of
                     None \<Rightarrow> Inr None | Some ts \<Rightarrow> rmap Some (rv_iso (dm_reg env) (jint ts)));
                 traffic = first_some (normalizeWorkerTrafficSignal (jprop payload ''traffic_signal''))
                   (first_some (normalizeWorkerTrafficSignal (jprop payload ''traffic_validated''))
                     (normalizeWorkerTrafficSignal (jprop payload ''traffic_valid'')));
                 treasury = pickWorkerBoolean payload [''treasury_renewal_allowed'', ''renew_with_treasury'', ''should_renew_with_treasury'']
             in case expires of Inl _ \<Rightarrow> no_compat
                | Inr e \<Rightarrow> \<lparr>wc_expires_at = e, wc_traffic_signal = traffic, wc_treasury_renewal_allowed = treasury\<rparr>)
        | _ \<Rightarrow> no_compat))"

subsection \<open>The store (gateway/src/lib/domain\_status\_store.ts)\<close>

record DomainChallenge =
  ch_txt_record_name :: string
  ch_txt_record_value :: string
  ch_token :: string
  ch_expires_at :: string

record StoredDomainStatus =
  ss_domain :: "string option"
  ss_banner_ack_at :: "string option"
  ss_challenge :: "DomainChallenge option"
  ss_status :: "FlaggedStatus option"
  ss_claim_requested :: "bool option"
  ss_claim_requested_at :: "string option"
  ss_inputs :: "DomainContinuityPolicyInput option"
  ss_last_updated_at :: "string option"

datatype status_file = StNone | StGarbage | StNoDomains | StDomains "string \<rightharpoonup> StoredDomainStatus"

definition no_status :: StoredDomainStatus where
  "no_status = \<lparr>ss_domain = None, ss_banner_ack_at = None, ss_challenge = None, ss_status = None, ss_claim_requested = None,
     ss_claim_requested_at = None, ss_inputs = None, ss_last_updated_at = None\<rparr>"

definition loadStore :: "status_file \<Rightarrow> (string \<rightharpoonup> StoredDomainStatus) res \<times> status_file" where
  "loadStore file =
     (case file of
        StNone \<Rightarrow> (Inr Map.empty, StDomains Map.empty)
      | StGarbage \<Rightarrow> (throw ''SyntaxError'', file)
      | StNoDomains \<Rightarrow> (Inr Map.empty, file)
      | StDomains m \<Rightarrow> (Inr m, file))"

definition stored :: "(string \<rightharpoonup> StoredDomainStatus) \<Rightarrow> string \<Rightarrow> StoredDomainStatus option" where
  "stored m key = (case m key of Some s \<Rightarrow> Some s | None \<Rightarrow> if inherited_key key then Some no_status else None)"

definition status_get :: "string \<Rightarrow> status_file \<Rightarrow> StoredDomainStatus option res \<times> status_file" where
  "status_get domainRaw file =
     (let domain = normalizeDomain domainRaw in
      if domain = [] then (Inr None, file)
      else let (r, file') = loadStore file in (rmap (\<lambda>m. stored m domain) r, file'))"

definition status_upsert ::
  "string \<Rightarrow> (StoredDomainStatus option \<Rightarrow> StoredDomainStatus res) \<Rightarrow> status_file \<Rightarrow> StoredDomainStatus res \<times> status_file" where
  "status_upsert domainRaw updater file =
     (let domain = normalizeDomain domainRaw in
      if domain = [] then (throw ''invalid_domain'', file)
      else (case loadStore file of
          (Inl e, file') \<Rightarrow> (Inl e, file')
        | (Inr m, file') \<Rightarrow> (case updater (stored m domain) of
            Inl e \<Rightarrow> (Inl e, file')
          | Inr s \<Rightarrow> (Inr s, StDomains (if domain = ''__proto__'' \<and> m domain = None then m else m(domain \<mapsto> s))))))"

text \<open>\<open>{ domain, ...current }\<close>: the stored name wins over the given one.\<close>

definition with_current :: "string \<Rightarrow> StoredDomainStatus option \<Rightarrow> StoredDomainStatus" where
  "with_current domain current =
     (case current of None \<Rightarrow> no_status\<lparr>ss_domain := Some domain\<rparr>
      | Some s \<Rightarrow> s\<lparr>ss_domain := Some (either (ss_domain s) domain)\<rparr>)"

definition createChallenge :: "domain_env \<Rightarrow> string \<Rightarrow> string \<Rightarrow> status_file \<Rightarrow> StoredDomainStatus res \<times> status_file" where
  "createChallenge env token domainRaw file =
     (let domain = normalizeDomain domainRaw in
      if domain = [] then (throw ''invalid_domain'', file)
      else (case now_iso env (15 * 60 * 1000) of
          Inl e \<Rightarrow> (Inl e, file)
        | Inr expires \<Rightarrow> status_upsert domain (\<lambda>current. rmap (\<lambda>now. (with_current domain current)\<lparr>
            ss_challenge := Some \<lparr>ch_txt_record_name = ''_tolldns-verify.'' @ domain, ch_txt_record_value = ''tolldns-verify='' @ token,
              ch_token = token, ch_expires_at = expires\<rparr>,
            ss_last_updated_at := Some now\<rparr>) (now_iso env 0)) file))"

end
