(* ===== verification/DomainServer.thy ===== *)
theory DomainServer
  imports DomainStatus
begin

section \<open>Domains, registrar and credits over HTTP (gateway/src/server.ts)\<close>

text \<open>
  The routes of the gateway that keep domains alive. The state is what they share: the files of the registrar, the
  ledger and the domain store, the buckets of the rate limit and the audit log. A handler answers a status and a JSON
  body, or raises the exception it does not catch. A request is its domain (the empty string when there is none) and
  the hash of its address. The log is kept in memory; the clock stands still during a request.
\<close>

datatype decision = DryRun | Executed | Blocked | RateLimited

record AuditEntry =
  ae_endpoint :: string
  ae_domain :: "string option"
  ae_decision :: decision
  ae_actor :: string
  ae_provider_ref :: "string option"

record RateBucket =
  rb_count :: nat
  rb_resetUnix :: jsnum

record GatewayState =
  gs_registrar :: reg_file
  gs_ledger :: ledger_file
  gs_status :: status_file
  gs_buckets :: "string \<rightharpoonup> RateBucket"
  gs_audit :: "AuditEntry list"

record server_env =
  se_dom :: domain_env
  se_runtime :: RegistrarProviderRuntime
  se_notice :: notice_env
  se_number :: "json option \<Rightarrow> jsnum"
  se_adminToken :: string
  se_windowS :: jsnum
  se_maxRequests :: jsnum

record http_request =
  hr_actor :: string
  hr_adminToken :: string
  hr_domain :: string
  hr_body :: json

type_synonym reply = "(int \<times> json) res"

subsection \<open>Log and rate limit\<close>

definition auditEvent :: "http_request \<Rightarrow> string \<Rightarrow> decision \<Rightarrow> string option \<Rightarrow> GatewayState \<Rightarrow> GatewayState" where
  "auditEvent req endpoint dec ref gs =
     gs\<lparr>gs_audit := gs_audit gs @ [\<lparr>ae_endpoint = endpoint,
       ae_domain = (if hr_domain req = [] then None else Some (normalizeDomain (hr_domain req))), ae_decision = dec,
       ae_actor = hr_actor req, ae_provider_ref = nonempty ref\<rparr>]\<rparr>"

definition bucket_step ::
  "jsnum \<Rightarrow> jsnum \<Rightarrow> int \<Rightarrow> string \<Rightarrow> (string \<rightharpoonup> RateBucket) \<Rightarrow> bool \<times> (string \<rightharpoonup> RateBucket)" where
  "bucket_step window maxRequests nowUnix key m =
     (case m key of
        None \<Rightarrow> (False, m(key \<mapsto> \<lparr>rb_count = 1, rb_resetUnix = nadd (jint nowUnix) window\<rparr>))
      | Some b \<Rightarrow> if nle (rb_resetUnix b) (jint nowUnix)
          then (False, m(key \<mapsto> \<lparr>rb_count = 1, rb_resetUnix = nadd (jint nowUnix) window\<rparr>))
          else (nlt maxRequests (jint (int (rb_count b + 1))), m(key \<mapsto> b\<lparr>rb_count := rb_count b + 1\<rparr>)))"

definition rate_key :: "http_request \<Rightarrow> string \<Rightarrow> string" where
  "rate_key req endpoint = endpoint @ '':'' @ hr_actor req @ '':'' @
     (if hr_domain req = [] then ''_'' else normalizeDomain (hr_domain req))"

definition enforceRateLimit :: "server_env \<Rightarrow> http_request \<Rightarrow> string \<Rightarrow> GatewayState \<Rightarrow> bool \<times> GatewayState" where
  "enforceRateLimit env req endpoint gs =
     (let (limited, m) = bucket_step (se_windowS env) (se_maxRequests env) (dm_now (se_dom env) div 1000)
        (rate_key req endpoint) (gs_buckets gs)
      in (limited, gs\<lparr>gs_buckets := m\<rparr>))"

definition error_json :: "string \<Rightarrow> json" where
  "error_json e = JObj [(''error'', JStr e)]"

text \<open>What most routes do first: refuse a request without a domain, and one over the limit.\<close>

definition guarded ::
  "server_env \<Rightarrow> http_request \<Rightarrow> string \<Rightarrow> string \<Rightarrow> (GatewayState \<Rightarrow> reply \<times> GatewayState) \<Rightarrow> GatewayState \<Rightarrow> reply \<times> GatewayState" where
  "guarded env req limit endpoint handle gs =
     (if hr_domain req = [] then (Inr (400, error_json ''missing_domain''), gs)
      else let (limited, gs1) = enforceRateLimit env req limit gs in
        if limited then (Inr (429, error_json ''rate_limited''), auditEvent req endpoint RateLimited None gs1)
        else handle gs1)"

subsection \<open>The registrar\<close>

abbreviation registrar_of :: "server_env \<Rightarrow> RegistrarAdapter" where
  "registrar_of env \<equiv> rt_adapter (se_runtime env)"

definition getDomain :: "server_env \<Rightarrow> string \<Rightarrow> GatewayState \<Rightarrow> RegistrarDomainRecord res \<times> GatewayState" where
  "getDomain env d gs = (let (r, f) = rga_getDomain (registrar_of env) d (gs_registrar gs) in (r, gs\<lparr>gs_registrar := f\<rparr>))"

definition getRenewalQuote :: "server_env \<Rightarrow> string \<Rightarrow> GatewayState \<Rightarrow> RenewalQuote res \<times> GatewayState" where
  "getRenewalQuote env d gs = (let (r, f) = rga_getRenewalQuote (registrar_of env) d (gs_registrar gs) in (r, gs\<lparr>gs_registrar := f\<rparr>))"

definition renewDomain ::
  "server_env \<Rightarrow> string \<Rightarrow> jsnum \<Rightarrow> RegistrarPayment option \<Rightarrow> GatewayState \<Rightarrow> RenewalResult res \<times> GatewayState" where
  "renewDomain env d y p gs =
     (let (r, f) = rga_renewDomain (registrar_of env) d y p (gs_registrar gs) in (r, gs\<lparr>gs_registrar := f\<rparr>))"

definition setNameServers :: "server_env \<Rightarrow> string \<Rightarrow> string list \<Rightarrow> GatewayState \<Rightarrow> DnsUpdateResult res \<times> GatewayState" where
  "setNameServers env d ns gs =
     (let (r, f) = rga_setNameServers (registrar_of env) d ns (gs_registrar gs) in (r, gs\<lparr>gs_registrar := f\<rparr>))"

text \<open>Running one step after another: an exception ends the handler with the state reached.\<close>

definition andthen :: "('a res \<times> 's) \<Rightarrow> ('a \<Rightarrow> 's \<Rightarrow> 'b res \<times> 's) \<Rightarrow> 'b res \<times> 's" where
  "andthen m k = (case m of (Inl e, s) \<Rightarrow> (Inl e, s) | (Inr x, s) \<Rightarrow> k x s)"

definition ran :: "server_env \<Rightarrow> decision" where
  "ran env = (if rt_dryRun (se_runtime env) then DryRun else Executed)"

definition runtime_json :: "server_env \<Rightarrow> (string \<times> json) list" where
  "runtime_json env = [(''registrar_enabled'', JBool (rt_enabled (se_runtime env))),
     (''provider'', JStr (case rt_provider (se_runtime env) of MockProvider \<Rightarrow> ''mock'' | PorkbunProvider \<Rightarrow> ''porkbun'')),
     (''dry_run'', JBool (rt_dryRun (se_runtime env)))]"

text \<open>Errors of the provider are logged and answered with 502.\<close>

definition error_text :: "js_error \<Rightarrow> string" where
  "error_text e = (case e of JsError m \<Rightarrow> (if m = [] then ''unknown_error'' else m) | RangeError \<Rightarrow> ''RangeError'' | TypeError \<Rightarrow> ''TypeError'')"

definition provider_guard :: "http_request \<Rightarrow> string \<Rightarrow> reply \<times> GatewayState \<Rightarrow> reply \<times> GatewayState" where
  "provider_guard req endpoint m =
     (case m of
        (Inl e, gs) \<Rightarrow> (Inr (502, JObj [(''error'', JStr ''registrar_provider_error''), (''message'', JStr (error_text e))]),
          auditEvent req endpoint Blocked None gs)
      | (Inr r, gs) \<Rightarrow> (Inr r, gs))"

definition registrar_status_text :: "RegistrarDomainStatus \<Rightarrow> string" where
  "registrar_status_text s = (case s of RActive \<Rightarrow> ''active'' | RExpiring \<Rightarrow> ''expiring'' | RExpired \<Rightarrow> ''expired''
     | RRedemption \<Rightarrow> ''redemption'' | RPendingTransfer \<Rightarrow> ''pending_transfer'' | RUnknown \<Rightarrow> ''unknown'')"

definition traffic_text :: "TrafficSignal \<Rightarrow> string" where
  "traffic_text t = (case t of TrafficNone \<Rightarrow> ''none'' | TrafficLow \<Rightarrow> ''low'' | TrafficReal \<Rightarrow> ''real'')"

definition domain_json :: "RegistrarDomainRecord \<Rightarrow> (string \<times> json) list" where
  "domain_json r = opt_field ''domain'' (map_option JStr (rd_domain r)) @
     opt_field ''status'' (map_option (JStr \<circ> registrar_status_text) (rd_status r)) @
     opt_field ''renewal_due_date'' (map_option JStr (rd_renewal_due_date r)) @
     opt_field ''grace_expires_at'' (map_option JStr (rd_grace_expires_at r)) @
     opt_field ''ns'' (map_option (JArr \<circ> map JStr) (rd_ns r)) @
     opt_field ''traffic_signal'' (map_option (JStr \<circ> traffic_text) (rd_traffic_signal r)) @
     opt_field ''credits_balance'' (map_option JNum (rd_credits_balance r))"

definition registrar_domain_handler :: "server_env \<Rightarrow> http_request \<Rightarrow> GatewayState \<Rightarrow> reply \<times> GatewayState" where
  "registrar_domain_handler env req =
     guarded env req ''registrar_domain'' ''/v1/registrar/domain'' (\<lambda>gs. provider_guard req ''/v1/registrar/domain''
       (andthen (getDomain env (hr_domain req) gs) (\<lambda>r gs1.
         (Inr (200, JObj (domain_json r @ runtime_json env)), auditEvent req ''/v1/registrar/domain'' (ran env) None gs1))))"

definition registrar_quote_handler :: "server_env \<Rightarrow> http_request \<Rightarrow> GatewayState \<Rightarrow> reply \<times> GatewayState" where
  "registrar_quote_handler env req =
     guarded env req ''registrar_quote'' ''/v1/registrar/quote'' (\<lambda>gs. provider_guard req ''/v1/registrar/quote''
       (andthen (getRenewalQuote env (hr_domain req) gs) (\<lambda>q gs1.
         (Inr (200, JObj ([(''domain'', JStr (normalizeDomain (hr_domain req))), (''price_usd'', JNum (rq_price_usd q)),
            (''price_sol'', JNum (rq_price_sol q)), (''supported'', JBool (rq_supported q)),
            (''expires_at'', JStr (rq_expires_at q))] @ runtime_json env)),
          auditEvent req ''/v1/registrar/quote'' (ran env) None gs1))))"

definition renewal_json :: "RenewalResult \<Rightarrow> (string \<times> json) list" where
  "renewal_json r = [(''submitted'', JBool (rn_submitted r)), (''provider_ref'', JStr (rn_provider_ref r)),
     (''errors'', JArr (map JStr (rn_errors r)))]"

text \<open>\<open>Number(body.years || 1)\<close>.\<close>

definition body_years :: "server_env \<Rightarrow> http_request \<Rightarrow> jsnum" where
  "body_years env req = (let v = jprop (hr_body req) ''years'' in if jtruthy v then se_number env v else Fin 1)"

text \<open>The part of the route whose errors are caught.\<close>

definition renew_with_credits :: "server_env \<Rightarrow> http_request \<Rightarrow> GatewayState \<Rightarrow> reply \<times> GatewayState" where
  "renew_with_credits env req gs =
     (let domain = hr_domain req; years = nmax (Fin 1) (body_years env req) in
      andthen (getRenewalQuote env domain gs) (\<lambda>quote gs1. andthen (getDomain env domain gs1) (\<lambda>info gs2.
        let credits = credits_of info;
            requiredUsd = to_fixed 2 (nmul (nor (rq_price_usd quote) (Fin 0)) years);
            requiredCredits = nceil (nmul requiredUsd (Fin 10));
            coveredCredits = nmin requiredCredits credits;
            usd = (\<lambda>c. JNum (to_fixed 2 (nmul c (Fin (1 / 10))))) in
        if nlt coveredCredits requiredCredits then
          (Inr (200, JObj ([(''domain'', JStr (normalizeDomain domain)), (''years'', JNum years),
             (''status'', JStr ''insufficient_credits''), (''required_usd'', JNum requiredUsd), (''covered_usd'', usd coveredCredits),
             (''remaining_usd'', usd (nsub requiredCredits coveredCredits)),
             (''instruction'', JStr ''Add continuity credits or fallback to registrar payment flow'')] @ runtime_json env)),
           auditEvent req ''/v1/registrar/renew'' Blocked None gs2)
        else andthen (renewDomain env domain years (Some \<lparr>py_use_credits = True, py_credits_amount = coveredCredits,
            py_payment_method = ''credits''\<rparr>) gs2) (\<lambda>result gs3.
          (Inr (200, JObj ([(''domain'', JStr (normalizeDomain domain)), (''years'', JNum years)] @ renewal_json result @
             [(''status'', JStr (if rn_submitted result then ''submitted'' else ''failed'')), (''required_usd'', JNum requiredUsd),
              (''covered_usd'', usd coveredCredits), (''remaining_usd'', JNum (Fin 0))] @ runtime_json env)),
           auditEvent req ''/v1/registrar/renew'' (ran env) (Some (rn_provider_ref result)) gs3)))))"

definition registrar_renew_handler :: "server_env \<Rightarrow> http_request \<Rightarrow> GatewayState \<Rightarrow> reply \<times> GatewayState" where
  "registrar_renew_handler env req =
     guarded env req ''registrar_renew'' ''/v1/registrar/renew'' (\<lambda>gs. provider_guard req ''/v1/registrar/renew''
       (renew_with_credits env req gs))"

text \<open>The name servers of the body; an entry that is not a string has no \<open>trim\<close>.\<close>

definition body_ns :: "http_request \<Rightarrow> json list" where
  "body_ns req = (case jprop (hr_body req) ''ns'' of Some (JArr xs) \<Rightarrow> xs | _ \<Rightarrow> [])"

definition ns_strings :: "json list \<Rightarrow> string list res" where
  "ns_strings xs = traverse (\<lambda>v. case v of JStr s \<Rightarrow> Inr s | _ \<Rightarrow> Inl TypeError) xs"

definition registrar_ns_handler :: "server_env \<Rightarrow> http_request \<Rightarrow> GatewayState \<Rightarrow> reply \<times> GatewayState" where
  "registrar_ns_handler env req =
     guarded env req ''registrar_ns'' ''/v1/registrar/ns'' (\<lambda>gs.
       andthen (ns_strings (body_ns req), gs) (\<lambda>ns gs0.
       andthen (setNameServers env (hr_domain req) ns gs0) (\<lambda>result gs1.
         (Inr (200, JObj ([(''domain'', JStr (normalizeDomain (hr_domain req))), (''ns'', JArr (body_ns req)),
            (''ok'', JBool (du_ok result)), (''provider_ref'', JStr (du_provider_ref result)),
            (''errors'', JArr (map JStr (du_errors result)))] @ runtime_json env)),
          auditEvent req ''/v1/registrar/ns'' (ran env) (Some (du_provider_ref result)) gs1))))"

subsection \<open>Credits\<close>

definition isAdminStubAuthorized :: "server_env \<Rightarrow> http_request \<Rightarrow> bool" where
  "isAdminStubAuthorized env req \<longleftrightarrow> hr_adminToken req = se_adminToken env"

definition subsidy :: "string \<Rightarrow> GatewayState \<Rightarrow> RenewalSubsidy \<times> GatewayState" where
  "subsidy d gs = (let (s, f) = ledger_estimateRenewalSubsidy d (gs_ledger gs) in (s, gs\<lparr>gs_ledger := f\<rparr>))"

definition balance_of :: "string \<Rightarrow> GatewayState \<Rightarrow> jsnum \<times> GatewayState" where
  "balance_of d gs = (let (b, f) = ledger_getBalance d (gs_ledger gs) in (b, gs\<lparr>gs_ledger := f\<rparr>))"

definition credits_balance_handler :: "server_env \<Rightarrow> http_request \<Rightarrow> GatewayState \<Rightarrow> reply \<times> GatewayState" where
  "credits_balance_handler env req gs =
     (if hr_domain req = [] then (Inr (400, error_json ''missing_domain''), gs)
      else let (s, gs1) = subsidy (hr_domain req) gs in
        (Inr (200, JObj [(''domain'', JStr (normalizeDomain (hr_domain req))), (''credits_balance'', JNum (sub_credits_balance s)),
          (''renewal_cost_estimate'', JNum (sub_renewal_cost_estimate s)), (''covered_amount'', JNum (sub_covered_amount s)),
          (''renewal_covered_by_credits'', JBool (sub_covered_by_credits s)), (''auth_required'', JBool False),
          (''auth_mode'', JStr ''stub'')]), gs1))"

definition body_reason :: "http_request \<Rightarrow> string \<Rightarrow> string" where
  "body_reason req d = (case jprop (hr_body req) ''reason'' of Some (JStr s) \<Rightarrow> s | _ \<Rightarrow> d)"

definition body_amount :: "server_env \<Rightarrow> http_request \<Rightarrow> jsnum" where
  "body_amount env req = (let v = jprop (hr_body req) ''amount'' in if jtruthy v then se_number env v else Fin 0)"

text \<open>Both routes: \<open>move\<close> is the operation of the ledger.\<close>

definition credits_move_handler ::
  "(string \<Rightarrow> jsnum \<Rightarrow> string \<Rightarrow> string \<Rightarrow> ledger_file \<Rightarrow> jsnum res \<times> ledger_file) \<Rightarrow> string \<Rightarrow> server_env \<Rightarrow> http_request \<Rightarrow>
     GatewayState \<Rightarrow> reply \<times> GatewayState" where
  "credits_move_handler move default_reason env req gs =
     (if \<not> isAdminStubAuthorized env req then (Inr (403, error_json ''admin_token_required''), gs)
      else if hr_domain req = [] then (Inr (400, error_json ''missing_domain''), gs)
      else (case now_iso (se_dom env) 0 of
          Inl e \<Rightarrow> (Inr (400, error_json (error_text e)), gs)
        | Inr ts \<Rightarrow> (case move (hr_domain req) (body_amount env req) (body_reason req default_reason) ts (gs_ledger gs) of
            (Inl e, f) \<Rightarrow> (Inr (400, error_json (error_text e)), gs\<lparr>gs_ledger := f\<rparr>)
          | (Inr b, f) \<Rightarrow> (Inr (200, JObj [(''domain'', JStr (normalizeDomain (hr_domain req))), (''credits_balance'', JNum b),
              (''reason'', JStr (body_reason req default_reason)), (''accepted'', JBool True)]), gs\<lparr>gs_ledger := f\<rparr>))))"

definition credits_credit_handler :: "server_env \<Rightarrow> http_request \<Rightarrow> GatewayState \<Rightarrow> reply \<times> GatewayState" where
  "credits_credit_handler = credits_move_handler ledger_credit ''manual_credit''"

definition credits_debit_handler :: "server_env \<Rightarrow> http_request \<Rightarrow> GatewayState \<Rightarrow> reply \<times> GatewayState" where
  "credits_debit_handler = credits_move_handler ledger_debit ''manual_debit''"

end
