(* ===== verification/DomainApi.thy ===== *)
theory DomainApi
  imports DomainServer Pkdns
begin

section \<open>Continuity over HTTP (gateway/src/server.ts)\<close>

text \<open>
  The routes that judge, verify, renew and claim a domain, and the notices and pages shown for it. Each asks the
  registrar, the ledger, the worker and the store, in the order of the code; an exception of the registrar is not caught
  here, and ends the handler with the state it had reached. The hexadecimal text drawn at random while a request is
  served and its query are arguments.
\<close>

subsection \<open>The status from its sources\<close>

definition uses_ddns :: "string list \<Rightarrow> bool" where
  "uses_ddns ns \<longleftrightarrow> list_ex (\<lambda>entry. ends_with entry ''tolldns.io'') ns"

definition quote_credits :: "RenewalQuote \<Rightarrow> jsnum" where
  "quote_credits q = nceil (nmul (nor (rq_price_usd q) (Fin 0)) (Fin 10))"

definition sourced_options ::
  "ContinuityOptions \<Rightarrow> RegistrarDomainRecord \<Rightarrow> RenewalQuote \<Rightarrow> RenewalSubsidy \<Rightarrow> WorkerCompat \<Rightarrow> ContinuityOptions" where
  "sourced_options options existing quote ledgerSubsidy worker = options\<lparr>
     cx_nsStatus := Some (either (cx_nsStatus options) (uses_ddns (either (rd_ns existing) []))),
     cx_trafficSignal := first_some (wc_traffic_signal worker) (first_some (cx_trafficSignal options) (rd_traffic_signal existing)),
     cx_renewalDueDate := first_some (wc_expires_at worker)
       (first_some (cx_renewalDueDate options) (rd_renewal_due_date existing)),
     cx_creditsBalance := Some (either (cx_creditsBalance options) (sub_credits_balance ledgerSubsidy)),
     cx_renewalCostEstimate := Some (either (cx_renewalCostEstimate options)
       (nmax (sub_renewal_cost_estimate ledgerSubsidy) (quote_credits quote)))\<rparr>"

definition continuityStatusFromSources ::
  "server_env \<Rightarrow> string \<Rightarrow> ContinuityOptions \<Rightarrow> GatewayState \<Rightarrow> FlaggedStatus res \<times> GatewayState" where
  "continuityStatusFromSources env domain options gs =
     andthen (getDomain env domain gs) (\<lambda>existing gs1. andthen (getRenewalQuote env domain gs1) (\<lambda>quote gs2.
       let (ledgerSubsidy, gs3) = subsidy domain gs2;
           worker = fetchContinuityCompatFromWorker (se_dom env) domain;
           nsStatus = either (cx_nsStatus options) (uses_ddns (either (rd_ns existing) []))
       in (rmap (\<lambda>s. addEligibilityFlags s nsStatus (wc_treasury_renewal_allowed worker))
             (continuityStatus (se_dom env) domain (sourced_options options existing quote ledgerSubsidy worker)), gs3)))"

definition stored_status :: "string \<Rightarrow> GatewayState \<Rightarrow> StoredDomainStatus option res \<times> GatewayState" where
  "stored_status d gs = (let (r, f) = status_get d (gs_status gs) in (r, gs\<lparr>gs_status := f\<rparr>))"

definition upsert ::
  "string \<Rightarrow> (StoredDomainStatus option \<Rightarrow> StoredDomainStatus res) \<Rightarrow> GatewayState \<Rightarrow> StoredDomainStatus res \<times> GatewayState" where
  "upsert d updater gs = (let (r, f) = status_upsert d updater (gs_status gs) in (r, gs\<lparr>gs_status := f\<rparr>))"

text \<open>
  The inputs the routes build from what is stored and what the registrar says: a stored input wins. Reading the name
  servers of a record without any raises a \<open>TypeError\<close>, unless their status is stored.
\<close>

definition stored_input :: "StoredDomainStatus option \<Rightarrow> DomainContinuityPolicyInput option" where
  "stored_input existing = Option.bind existing ss_inputs"

definition ns_status_of :: "StoredDomainStatus option \<Rightarrow> RegistrarDomainRecord \<Rightarrow> bool res" where
  "ns_status_of existing r =
     (case stored_input existing of Some i \<Rightarrow> Inr (dc_ns_status i)
      | None \<Rightarrow> (case rd_ns r of Some ns \<Rightarrow> Inr (uses_ddns ns) | None \<Rightarrow> Inl TypeError))"

definition traffic_of :: "StoredDomainStatus option \<Rightarrow> RegistrarDomainRecord \<Rightarrow> TrafficSignal" where
  "traffic_of existing r =
     (case stored_input existing of Some i \<Rightarrow> dc_traffic_signal i | None \<Rightarrow> either (rd_traffic_signal r) TrafficNone)"

definition due_of :: "StoredDomainStatus option \<Rightarrow> RegistrarDomainRecord \<Rightarrow> string option" where
  "due_of existing r = first_some (nonempty (Option.bind (stored_input existing) dc_renewal_due_date)) (nonempty (rd_renewal_due_date r))"

definition verified_of :: "StoredDomainStatus option \<Rightarrow> bool" where
  "verified_of existing = (case stored_input existing of Some i \<Rightarrow> dc_verified_control i | None \<Rightarrow> False)"

definition abuse_of :: "StoredDomainStatus option \<Rightarrow> bool" where
  "abuse_of existing = (case stored_input existing of Some i \<Rightarrow> dc_abuse_flag i | None \<Rightarrow> False)"

definition claimed :: "StoredDomainStatus option \<Rightarrow> bool" where
  "claimed existing \<longleftrightarrow> Option.bind existing ss_claim_requested = Some True"

definition source_options ::
  "StoredDomainStatus option \<Rightarrow> RegistrarDomainRecord \<Rightarrow> bool \<Rightarrow> bool \<Rightarrow> jsnum option \<Rightarrow> jsnum option \<Rightarrow> ContinuityOptions" where
  "source_options existing r ns claim credits cost =
     \<lparr>cx_nsStatus = Some ns, cx_verifiedControl = Some (verified_of existing),
       cx_trafficSignal = Some (traffic_of existing r), cx_renewalDueDate = due_of existing r,
       cx_lastSeenAt = nonempty (Option.bind (stored_input existing) dc_last_seen_at),
       cx_abuseFlag = Some (abuse_of existing), cx_claimRequested = Some claim,
       cx_creditsBalance = credits, cx_renewalCostEstimate = cost\<rparr>"

text \<open>Ask the store and the registrar, then judge; most routes take the balance of the ledger.\<close>

record judgement =
  jd_existing :: "StoredDomainStatus option"
  jd_record :: RegistrarDomainRecord
  jd_ns :: bool
  jd_status :: FlaggedStatus

definition judge :: "server_env \<Rightarrow> string \<Rightarrow> bool \<Rightarrow> GatewayState \<Rightarrow> judgement res \<times> GatewayState" where
  "judge env domain claim gs =
     andthen (stored_status domain gs) (\<lambda>existing gs1. andthen (getDomain env domain gs1) (\<lambda>r gs2.
     andthen (ns_status_of existing r, gs2) (\<lambda>ns gs2. let (b, gs3) = balance_of domain gs2 in
     andthen (continuityStatusFromSources env domain (source_options existing r ns (claim \<or> claimed existing) (Some b) None) gs3)
       (\<lambda>status gs4. (Inr \<lparr>jd_existing = existing, jd_record = r, jd_ns = ns, jd_status = status\<rparr>, gs4)))))"

definition str_or_null :: "string option \<Rightarrow> json" where
  "str_or_null s = (case nonempty s of None \<Rightarrow> JNull | Some x \<Rightarrow> JStr x)"

definition stub_json :: "server_env \<Rightarrow> (string \<times> json) list" where
  "stub_json env = [(''auth_required'', JBool False), (''auth_mode'', JStr ''stub''), (''policy_version'', JStr (dm_version (se_dom env)))]"

definition local_notice :: "string \<times> json" where
  "local_notice = (''notice_signature'', JStr ''mvp-local-policy'')"

definition flagged_json :: "server_env \<Rightarrow> FlaggedStatus \<Rightarrow> (string \<times> json) list" where
  "flagged_json env s =
     [(''domain'', JStr (cs_domain s)), (''eligible'', JBool (cs_eligible s)), (''phase'', JStr (phase_text (cs_phase s))),
      (''reason_codes'', JArr (map JStr (cs_reason_codes s))), (''next_steps'', JArr (map JStr (cs_next_steps s))),
      (''hold_banner_active'', JBool (cs_hold_banner_active s)), (''credits_balance'', JNum (cs_credits_balance s)),
      (''credits_applied_estimate'', JNum (jint (cs_credits_applied_estimate s))),
      (''estimated_renewal_cost'', JNum (cs_estimated_renewal_cost s)),
      (''renewal_covered_by_credits'', JBool (cs_renewal_covered_by_credits s)),
      (''renewal_due_date'', JStr (cs_renewal_due_date s)), (''grace_expires_at'', JStr (cs_grace_expires_at s)),
      (''policy_version'', JStr (dm_version (se_dom env))), (''auth_required'', JBool False), (''auth_mode'', JStr ''stub''),
      (''uses_ddns_ns'', JBool (fs_uses_ddns_ns s)), (''eligible_for_hold'', JBool (fs_eligible_for_hold s)),
      (''eligible_for_subsidy'', JBool (fs_eligible_for_subsidy s)),
      (''treasury_renewal_allowed'', case fs_treasury_renewal_allowed s of None \<Rightarrow> JNull | Some b \<Rightarrow> JBool b)]"

subsection \<open>Status, continuity and claims\<close>

definition domain_status_handler :: "server_env \<Rightarrow> string option \<Rightarrow> http_request \<Rightarrow> GatewayState \<Rightarrow> reply \<times> GatewayState" where
  "domain_status_handler env ownerPubkey req =
     guarded env req ''domain_status'' ''/v1/domain/status'' (\<lambda>gs.
       let domain = hr_domain req in
       andthen (judge env domain False gs) (\<lambda>j gs1. let status = jd_status j; existing = jd_existing j; r = jd_record j in
       andthen (upsert domain (\<lambda>current. rmap (\<lambda>now. (with_current (normalizeDomain domain) current)\<lparr>
           ss_status := Some status,
           ss_inputs := Some \<lparr>dc_domain = normalizeDomain domain, dc_ns_status = jd_ns j, dc_verified_control = verified_of existing,
             dc_traffic_signal = traffic_of existing r, dc_seo_value_signal = None,
             dc_credit_balance = fst (balance_of domain gs1), dc_renewal_cost_estimate = cs_estimated_renewal_cost status,
             dc_renewal_due_date = Some (either (due_of existing r) (cs_renewal_due_date status)),
             dc_last_seen_at = Some now, dc_abuse_flag = abuse_of existing\<rparr>,
           ss_last_updated_at := Some now\<rparr>) (now_iso (se_dom env) 0)) gs1) (\<lambda>persisted gs2.
       (Inr (200, JObj (flagged_json env status @
          [(''txt_record_name'', str_or_null (map_option ch_txt_record_name (ss_challenge persisted))),
           (''txt_record_value'', str_or_null (map_option ch_txt_record_value (ss_challenge persisted))),
           (''owner_pubkey'', str_or_null ownerPubkey), local_notice])),
        auditEvent req ''/v1/domain/status'' Executed None gs2))))"

definition domain_verify_handler :: "server_env \<Rightarrow> string \<Rightarrow> http_request \<Rightarrow> GatewayState \<Rightarrow> reply \<times> GatewayState" where
  "domain_verify_handler env token req gs =
     (if hr_domain req = [] then (Inr (400, error_json ''missing_domain''), gs)
      else let normalized = normalizeDomain (hr_domain req) in
        andthen (let (r, f) = createChallenge (se_dom env) token normalized (gs_status gs) in (r, gs\<lparr>gs_status := f\<rparr>)) (\<lambda>updated gs1.
          let field = (\<lambda>k f. opt_field k (map_option (JStr \<circ> f) (ss_challenge updated))) in
          (Inr (200, JObj ([(''domain'', JStr normalized), (''verification_method'', JStr ''dns_txt'')] @
             field ''txt_record_name'' ch_txt_record_name @ field ''txt_record_value'' ch_txt_record_value @
             field ''verification_token'' ch_token @ field ''expires_at'' ch_expires_at @ stub_json env)), gs1)))"

text \<open>The route registered first; the credits are those of the registrar's record.\<close>

definition domain_continuity_handler :: "server_env \<Rightarrow> http_request \<Rightarrow> GatewayState \<Rightarrow> reply \<times> GatewayState" where
  "domain_continuity_handler env req =
     guarded env req ''domain_continuity'' ''/v1/domain/continuity'' (\<lambda>gs.
       let domain = hr_domain req in
       andthen (stored_status domain gs) (\<lambda>existing gs1. andthen (getDomain env domain gs1) (\<lambda>r gs2.
       andthen (ns_status_of existing r, gs2) (\<lambda>ns gs2.
       andthen (continuityStatusFromSources env domain (source_options existing r ns (claimed existing) (rd_credits_balance r) None) gs2)
         (\<lambda>status gs3.
         (Inr (200, JObj (flagged_json env status @
            opt_field ''registrar_status'' (map_option (JStr \<circ> registrar_status_text) (rd_status r)))),
          auditEvent req ''/v1/domain/continuity'' Executed None gs3))))))"

definition continuity_claim_handler :: "server_env \<Rightarrow> http_request \<Rightarrow> GatewayState \<Rightarrow> reply \<times> GatewayState" where
  "continuity_claim_handler env req =
     guarded env req ''domain_continuity_claim'' ''/v1/domain/continuity/claim'' (\<lambda>gs.
       let domain = hr_domain req in
       andthen (judge env domain True gs) (\<lambda>j gs1. let status = jd_status j in
       andthen (upsert domain (\<lambda>current. rmap (\<lambda>now. (with_current (normalizeDomain domain) current)\<lparr>
           ss_claim_requested := Some True, ss_claim_requested_at := Some now, ss_status := Some status,
           ss_last_updated_at := Some now\<rparr>) (now_iso (se_dom env) 0)) gs1) (\<lambda>_ gs2.
       (Inr (200, JObj ([(''domain'', JStr (cs_domain status)), (''accepted'', JBool (cs_eligible status)),
          (''eligible'', JBool (cs_eligible status)), (''phase'', JStr (phase_text (cs_phase status))),
          (''reason_codes'', JArr (map JStr (cs_reason_codes status))),
          (''next_steps'', JArr (map JStr (cs_next_steps status)))] @ stub_json env @ [local_notice])),
        auditEvent req ''/v1/domain/continuity/claim'' (if cs_eligible status then Executed else Blocked) None gs2))))"

definition banner_ack_handler :: "server_env \<Rightarrow> http_request \<Rightarrow> GatewayState \<Rightarrow> reply \<times> GatewayState" where
  "banner_ack_handler env req =
     guarded env req ''/v1/domain/banner/ack'' ''/v1/domain/banner/ack'' (\<lambda>gs.
       let domain = hr_domain req in
       andthen (now_iso (se_dom env) 0, gs) (\<lambda>ackedAt gs.
       andthen (upsert domain (\<lambda>current. Inr ((with_current (normalizeDomain domain) current)\<lparr>
           ss_banner_ack_at := Some ackedAt, ss_last_updated_at := Some ackedAt\<rparr>)) gs) (\<lambda>_ gs1.
       (Inr (200, JObj [(''ok'', JBool True), (''domain'', JStr (normalizeDomain domain)), (''acked_at'', JStr ackedAt)]),
        auditEvent req ''/v1/domain/banner/ack'' Executed None gs1))))"


subsection \<open>Renewal\<close>

definition renewal_payment :: "bool \<Rightarrow> jsnum \<Rightarrow> RegistrarPayment" where
  "renewal_payment useCredits credits = \<lparr>py_use_credits = useCredits, py_credits_amount = credits,
     py_payment_method = (if useCredits then ''credits'' else ''stub'')\<rparr>"

text \<open>\<open>req.body?.use\_credits !== false\<close>.\<close>

definition uses_credits :: "http_request \<Rightarrow> bool" where
  "uses_credits req \<longleftrightarrow> jprop (hr_body req) ''use_credits'' \<noteq> Some (JBool False)"

text \<open>The debit after a submitted renewal: the credits taken, and whether taking them failed.\<close>

definition apply_credits :: "server_env \<Rightarrow> string \<Rightarrow> bool \<Rightarrow> jsnum \<Rightarrow> GatewayState \<Rightarrow> (jsnum \<times> bool) \<times> GatewayState" where
  "apply_credits env domain submitted credits gs =
     (if submitted \<and> nlt (Fin 0) credits then
        (case now_iso (se_dom env) 0 of
           Inl _ \<Rightarrow> ((Fin 0, True), gs)
         | Inr ts \<Rightarrow> (case ledger_debit domain credits ''renewal_subsidy'' ts (gs_ledger gs) of
             (Inl _, f) \<Rightarrow> ((Fin 0, True), gs\<lparr>gs_ledger := f\<rparr>)
           | (Inr _, f) \<Rightarrow> ((credits, False), gs\<lparr>gs_ledger := f\<rparr>)))
      else ((Fin 0, False), gs))"

definition renew_reply ::
  "server_env \<Rightarrow> FlaggedStatus \<Rightarrow> bool \<Rightarrow> string \<Rightarrow> string list \<Rightarrow> jsnum \<Rightarrow> jsnum \<Rightarrow> json" where
  "renew_reply env status accepted message reasons applied balance =
     JObj ([(''domain'', JStr (cs_domain status)), (''accepted'', JBool accepted), (''message'', JStr message),
       (''reason_codes'', JArr (map JStr reasons)), (''credits_applied_estimate'', JNum applied),
       (''credits_balance'', JNum balance), (''renewal_covered_by_credits'', JBool (cs_renewal_covered_by_credits status)),
       (''renewal_due_date'', JStr (cs_renewal_due_date status)), (''grace_expires_at'', JStr (cs_grace_expires_at status))] @
       stub_json env @ [local_notice])"

definition treasury_blocked :: "server_env \<Rightarrow> http_request \<Rightarrow> GatewayState \<Rightarrow> reply \<times> GatewayState" where
  "treasury_blocked env req gs =
     (let domain = hr_domain req; (b, gs1) = balance_of domain gs in
      andthen (continuityStatusFromSources env domain (no_options\<lparr>cx_creditsBalance := Some b\<rparr>) gs1) (\<lambda>status gs2.
        let gs3 = auditEvent req ''/v1/domain/renew'' Blocked None gs2; (b', gs4) = balance_of domain gs3 in
        (Inr (200, renew_reply env status False ''blocked_by_treasury_policy'' [''TREASURY_POLICY_BLOCKED''] (Fin 0) b'), gs4)))"

text \<open>What follows the registrar's answer, a renewal with \<open>credits\<close> promised.\<close>

definition settle_renewal :: "server_env \<Rightarrow> http_request \<Rightarrow> jsnum \<Rightarrow> RenewalResult \<Rightarrow> GatewayState \<Rightarrow> reply \<times> GatewayState" where
  "settle_renewal env req credits renewal gs =
     (let domain = hr_domain req; ((applied, failed), gs1) = apply_credits env domain (rn_submitted renewal) credits gs in
      andthen (stored_status domain gs1) (\<lambda>existing gs2. andthen (getDomain env domain gs2) (\<lambda>r gs3.
      let (after, gs4) = subsidy domain gs3 in
      andthen (ns_status_of existing r, gs4) (\<lambda>ns gs4.
      andthen (continuityStatusFromSources env domain (source_options existing r ns (claimed existing)
          (Some (sub_credits_balance after)) (Some (sub_renewal_cost_estimate after))) gs4) (\<lambda>status gs5.
      andthen (upsert domain (\<lambda>current. rmap (\<lambda>now. (with_current (normalizeDomain domain) current)\<lparr>
          ss_status := Some status, ss_last_updated_at := Some now\<rparr>) (now_iso (se_dom env) 0)) gs5) (\<lambda>_ gs6.
        let gs7 = auditEvent req ''/v1/domain/renew'' (if rn_submitted renewal then ran env else Blocked)
              (Some (rn_provider_ref renewal)) gs6;
            gs8 = (if failed then auditEvent req ''/v1/domain/renew'' Blocked None gs7 else gs7)
        in (Inr (200, renew_reply env status (rn_submitted renewal)
              (if rn_submitted renewal then ''submitted_to_mock_registrar'' else ''stubbed: pending integration'')
              (rn_errors renewal @ (if failed then [''credits_debit_failed''] else []))
              (if rn_submitted renewal then applied else Fin 0) (sub_credits_balance after)), gs8)))))))"

definition domain_renew_handler :: "server_env \<Rightarrow> http_request \<Rightarrow> GatewayState \<Rightarrow> reply \<times> GatewayState" where
  "domain_renew_handler env req =
     guarded env req ''domain_renew'' ''/v1/domain/renew'' (\<lambda>gs.
       let domain = hr_domain req; useCredits = uses_credits req; years = body_years env req;
           worker = fetchContinuityCompatFromWorker (se_dom env) domain in
       if useCredits \<and> wc_treasury_renewal_allowed worker = Some False then treasury_blocked env req gs
       else let (before, gs1) = subsidy domain gs;
                creditsToApply = (if useCredits then sub_covered_amount before else Fin 0) in
         andthen (renewDomain env domain years (Some (renewal_payment useCredits creditsToApply)) gs1)
           (settle_renewal env req creditsToApply))"

subsection \<open>Notices\<close>

definition notice_payload :: "server_env \<Rightarrow> string \<Rightarrow> FlaggedStatus \<Rightarrow> DomainNoticePayload res" where
  "notice_payload env nonce status =
     rbind (now_iso (se_dom env) 0) (\<lambda>issued. rbind (now_iso (se_dom env) (1000 * 60 * 15)) (\<lambda>expires.
       Inr \<lparr>np_domain = cs_domain status, np_phase = cs_phase status, np_issued_at = issued, np_expires_at = expires,
         np_reason_codes = cs_reason_codes status, np_policy_version = dm_version (se_dom env), np_nonce = nonce\<rparr>))"

definition notice_of :: "server_env \<Rightarrow> string \<Rightarrow> FlaggedStatus \<Rightarrow> (string \<times> string) res" where
  "notice_of env nonce status = rbind (notice_payload env nonce status) (createNoticeToken (se_notice env))"

definition domain_notice_handler :: "server_env \<Rightarrow> string \<Rightarrow> http_request \<Rightarrow> GatewayState \<Rightarrow> reply \<times> GatewayState" where
  "domain_notice_handler env nonce req gs =
     (if hr_domain req = [] then (Inr (400, error_json ''missing_domain''), gs)
      else andthen (judge env (hr_domain req) False gs) (\<lambda>j gs1.
        andthen (notice_of env nonce (jd_status j), gs1) (\<lambda>(token, pubkey) gs1.
          (Inr (200, JObj [(''domain'', JStr (cs_domain (jd_status j))), (''phase'', JStr (phase_text (cs_phase (jd_status j)))),
            (''token'', JStr token), (''pubkey'', JStr pubkey)]), gs1))))"

definition notice_verify_handler :: "server_env \<Rightarrow> http_request \<Rightarrow> reply" where
  "notice_verify_handler env req =
     (let token = (case jprop (hr_body req) ''token'' of Some (JStr s) \<Rightarrow> s | _ \<Rightarrow> []) in
      if token = [] then Inr (400, error_json ''missing_token'')
      else Inr (200, JObj (case verifyNoticeToken (se_notice env) token of
          None \<Rightarrow> [(''valid'', JBool False)] | Some payload \<Rightarrow> [(''valid'', JBool True), (''payload'', payload)])))"

subsection \<open>The page of the banner\<close>

definition replace_char :: "char \<Rightarrow> string \<Rightarrow> string \<Rightarrow> string" where
  "replace_char c r s = concat (map (\<lambda>x. if x = c then r else [x]) s)"

definition escapeHtml :: "string \<Rightarrow> string" where
  "escapeHtml value =
     replace_char (CHR 0x27) ''&#39;'' (replace_char (CHR 0x22) ''&quot;'' (replace_char (CHR ''>'') ''&gt;''
       (replace_char (CHR ''<'') ''&lt;'' (replace_char (CHR ''&'') ''&amp;'' value))))"

definition word_char :: "char \<Rightarrow> bool" where
  "word_char c \<longleftrightarrow> (let n = (of_char c :: nat) in
     (97 \<le> n \<and> n \<le> 122) \<or> (65 \<le> n \<and> n \<le> 90) \<or> (48 \<le> n \<and> n \<le> 57) \<or> n = 95)"

text \<open>A placeholder at the start of a text: its name, and the rest.\<close>

definition placeholder :: "string \<Rightarrow> (string \<times> string) option" where
  "placeholder s =
     (let t = drop 2 s; name = takeWhile word_char t; rest = dropWhile word_char t in
      if starts_with s ''{{'' \<and> name \<noteq> [] \<and> starts_with rest ''}}'' then Some (name, drop 2 rest) else None)"

lemma placeholder_length: "placeholder s = Some (name, rest) \<Longrightarrow> length rest < length s"
proof -
  assume a: "placeholder s = Some (name, rest)"
  let ?t = "drop 2 s"
  have "length (dropWhile word_char ?t) \<le> length ?t" by (rule length_dropWhile_le)
  with a show ?thesis by (cases s) (auto simp: placeholder_def Let_def starts_with_def split: if_splits)
qed

text \<open>
  \<open>vars[key] || ""\<close>. The names every object inherits give a function or an object, which has no \<open>replace\<close>.
\<close>

definition object_keys :: "string list" where
  "object_keys = [''constructor'', ''__proto__'', ''hasOwnProperty'', ''isPrototypeOf'', ''propertyIsEnumerable'',
     ''toLocaleString'', ''toString'', ''valueOf'', ''__defineGetter__'', ''__defineSetter__'', ''__lookupGetter__'',
     ''__lookupSetter__'']"

definition page_var :: "(string \<times> string) list \<Rightarrow> string \<Rightarrow> string res" where
  "page_var vars key =
     (case map_of vars key of Some v \<Rightarrow> Inr v | None \<Rightarrow> if key \<in> set object_keys then Inl TypeError else Inr [])"

function renderHtmlTemplate :: "string \<Rightarrow> (string \<times> string) list \<Rightarrow> string res" where
  "renderHtmlTemplate [] vars = Inr []"
| "renderHtmlTemplate (c # s) vars =
     (case placeholder (c # s) of
        Some (name, rest) \<Rightarrow> rbind (page_var vars name) (\<lambda>v. rmap (\<lambda>r. escapeHtml v @ r) (renderHtmlTemplate rest vars))
      | None \<Rightarrow> rmap (Cons c) (renderHtmlTemplate s vars))"
  by pat_completeness auto
termination
  by (relation "measure (\<lambda>(s, _). length s)") (auto dest: placeholder_length)

definition banner_state :: "BannerState \<Rightarrow> string" where
  "banner_state b = (if bn_renewalDue b then ''renewal_due'' else ''ok'')"

definition banner_message :: "BannerState \<Rightarrow> string" where
  "banner_message b = (if bn_renewalDue b
     then ''Payment failed or renewal due. Renew during the grace window to avoid service interruption.''
     else ''Domain is active. No renewal warning is currently required.'')"

record page_request =
  pg_nonce :: string
  pg_format :: string
  pg_mode :: string
  pg_protocol :: string
  pg_host :: string
  pg_interstitial :: "string option"
  pg_banner :: "string option"

definition fallbackTemplate :: string where
  "fallbackTemplate = ''<!doctype html><html><body><h1>{{domain}}</h1><p>{{phase}}</p><p>{{banner_message}}</p>'' @
     ''<p>{{grace_countdown}}</p><a href='' @ [CHR 0x22] @ ''{{renew_url}}'' @ [CHR 0x22] @
     ''>Renew now</a><pre>{{token}}</pre><code>{{verify_url}}</code></body></html>''"

definition useInterstitial :: "string \<Rightarrow> ContinuityPhase \<Rightarrow> bool" where
  "useInterstitial mode phase \<longleftrightarrow> (let forceMode = lower mode in forceMode = ''interstitial'' \<or>
     (forceMode \<noteq> ''banner'' \<and> (phase = C_SAFE_PARKED \<or> phase = D_REGISTRY_FINALIZATION)))"

definition banner_page :: "page_request \<Rightarrow> FlaggedStatus \<Rightarrow> BannerState \<Rightarrow> string \<Rightarrow> string res" where
  "banner_page pg status banner token =
     (let base = pg_protocol pg @ ''://'' @ (if pg_host pg = [] then ''127.0.0.1:8054'' else pg_host pg);
          verifyUrl = base @ ''/v1/domain/notice/verify'';
          dashboardUrl = base @ ''/domain-continuity/index.html?domain='' @ encodeURIComponent (cs_domain status);
          template = either (if useInterstitial (pg_mode pg) (cs_phase status) then pg_interstitial pg else pg_banner pg) fallbackTemplate
      in renderHtmlTemplate template [(''domain'', cs_domain status), (''phase'', phase_text (cs_phase status)),
           (''renew_url'', dashboardUrl), (''dashboard_url'', dashboardUrl), (''token'', token), (''verify_url'', verifyUrl),
           (''banner_message'', banner_message banner), (''grace_countdown'', bn_grace_countdown banner)])"

text \<open>The body of the page is the text itself.\<close>

definition domain_banner_handler :: "server_env \<Rightarrow> page_request \<Rightarrow> http_request \<Rightarrow> GatewayState \<Rightarrow> reply \<times> GatewayState" where
  "domain_banner_handler env pg req gs =
     (if hr_domain req = [] then (Inr (400, error_json ''missing_domain''), gs)
      else andthen (judge env (hr_domain req) False gs) (\<lambda>j gs1.
        let status = jd_status j; banner = buildRenewalBannerState (se_dom env) status (Option.bind (jd_existing j) ss_banner_ack_at) in
        if lower (pg_format pg) = ''json'' then
          (Inr (200, JObj [(''domain'', JStr (cs_domain status)), (''phase'', JStr (phase_text (cs_phase status))),
             (''renewal_due_date'', JStr (cs_renewal_due_date status)), (''grace_expires_at'', JStr (cs_grace_expires_at status)),
             (''banner_state'', JStr (banner_state banner)), (''banner_message'', JStr (banner_message banner)),
             (''grace_seconds_remaining'', JNum (jint (bn_grace_seconds_remaining banner))),
             (''grace_countdown'', JStr (bn_grace_countdown banner)), (''acked_at'', str_or_null (bn_acked_at banner))]), gs1)
        else andthen (notice_of env (pg_nonce pg) status, gs1) (\<lambda>(token, _) gs1.
          andthen (banner_page pg status banner token, gs1) (\<lambda>html gs1. (Inr (200, JStr html), gs1)))))"


subsection \<open>All routes\<close>

datatype DomainRoute = RegistrarDomain | RegistrarQuote | RegistrarRenew | RegistrarNs | CreditsBalance | CreditsCredit
  | CreditsDebit | DomainStatusOf "string option" | DomainVerify string | DomainRenew | DomainContinuity | ContinuityClaim
  | DomainNotice string | NoticeVerify | BannerAck | DomainBanner page_request

fun serve :: "server_env \<Rightarrow> DomainRoute \<Rightarrow> http_request \<Rightarrow> GatewayState \<Rightarrow> reply \<times> GatewayState" where
  "serve env RegistrarDomain req gs = registrar_domain_handler env req gs"
| "serve env RegistrarQuote req gs = registrar_quote_handler env req gs"
| "serve env RegistrarRenew req gs = registrar_renew_handler env req gs"
| "serve env RegistrarNs req gs = registrar_ns_handler env req gs"
| "serve env CreditsBalance req gs = credits_balance_handler env req gs"
| "serve env CreditsCredit req gs = credits_credit_handler env req gs"
| "serve env CreditsDebit req gs = credits_debit_handler env req gs"
| "serve env (DomainStatusOf owner) req gs = domain_status_handler env owner req gs"
| "serve env (DomainVerify token) req gs = domain_verify_handler env token req gs"
| "serve env DomainRenew req gs = domain_renew_handler env req gs"
| "serve env DomainContinuity req gs = domain_continuity_handler env req gs"
| "serve env ContinuityClaim req gs = continuity_claim_handler env req gs"
| "serve env (DomainNotice nonce) req gs = domain_notice_handler env nonce req gs"
| "serve env NoticeVerify req gs = (notice_verify_handler env req, gs)"
| "serve env BannerAck req gs = banner_ack_handler env req gs"
| "serve env (DomainBanner pg) req gs = domain_banner_handler env pg req gs"

end
