(* ===== verification/DomainProps.thy ===== *)
theory DomainProps
  imports DomainApi
begin

section \<open>Properties of the gateway's domain routes\<close>

text \<open>
  The rate limit; what no route may break (\<open>gateway\_ok\<close>, for every route of \<open>serve\<close>); and how the parts of
  a domain's judgement combine.
\<close>

subsection \<open>The rate limit\<close>

text \<open>The requests of one key that pass, in a run of requests of any keys: each is its time and its key.\<close>

fun admitted :: "jsnum \<Rightarrow> jsnum \<Rightarrow> string \<Rightarrow> (int \<times> string) list \<Rightarrow> (string \<rightharpoonup> RateBucket) \<Rightarrow> nat" where
  "admitted w m key [] b = 0"
| "admitted w m key ((t, k) # rs) b =
     (let (limited, b') = bucket_step w m t k b in (if k = key \<and> \<not> limited then 1 else 0) + admitted w m key rs b')"

lemma bucket_other: "k \<noteq> key \<Longrightarrow> snd (bucket_step w m t k b) key = b key"
  by (simp add: bucket_step_def split: option.splits)

lemma over_limit: "rat_of_int (int m) < 1 + rat_of_int (int c) \<longleftrightarrow> m < Suc c"
  by (metis add.commute of_int_less_iff of_int_1 of_int_add of_nat_Suc of_nat_less_iff)

text \<open>While no window ends, a bucket of count \<open>c\<close> lets \<open>m - c\<close> requests pass.\<close>

lemma admitted_window:
  assumes "\<forall>(t, k) \<in> set rs. \<not> nle r (jint t)" "b key = Some \<lparr>rb_count = c, rb_resetUnix = r\<rparr>"
  shows "admitted w (jint (int m)) key rs b \<le> m - c"
  using assms
proof (induction rs arbitrary: b c)
  case Nil
  show ?case by simp
next
  case (Cons x rs)
  obtain t k where x: "x = (t, k)" by force
  show ?case
  proof (cases "k = key")
    case True
    have "bucket_step w (jint (int m)) t k b = (m < c + 1, b(key \<mapsto> \<lparr>rb_count = c + 1, rb_resetUnix = r\<rparr>))"
      using Cons.prems x True by (simp add: bucket_step_def over_limit)
    moreover have "admitted w (jint (int m)) key rs (b(key \<mapsto> \<lparr>rb_count = c + 1, rb_resetUnix = r\<rparr>)) \<le> m - (c + 1)"
      using Cons.prems by (intro Cons.IH) auto
    ultimately show ?thesis by (auto simp: x True)
  next
    case False
    have "admitted w (jint (int m)) key rs (snd (bucket_step w (jint (int m)) t k b)) \<le> m - c"
      using Cons.prems False by (intro Cons.IH) (auto simp: bucket_other)
    with False show ?thesis by (simp add: x split_def Let_def)
  qed
qed

text \<open>Within one window's length at most one window can begin.\<close>

lemma admitted_two_windows:
  assumes "\<forall>(t, k) \<in> set rs. a \<le> t \<and> t < a + w" "1 \<le> m"
  shows "admitted (jint w) (jint (int m)) key rs b \<le> (m - (case b key of None \<Rightarrow> 0 | Some q \<Rightarrow> rb_count q)) + m"
  using assms(1)
proof (induction rs arbitrary: b)
  case Nil
  show ?case by simp
next
  case (Cons x rs)
  obtain t k where x: "x = (t, k)" by force
  let ?step = "bucket_step (jint w) (jint (int m)) t k b"
  have ih: "admitted (jint w) (jint (int m)) key rs b' \<le> (m - (case b' key of None \<Rightarrow> 0 | Some q \<Rightarrow> rb_count q)) + m" for b'
    using Cons.prems by (intro Cons.IH) auto
  consider (other) "k \<noteq> key" | (fresh) "k = key" "\<And>q. b key = Some q \<Longrightarrow> nle (rb_resetUnix q) (jint t)"
    | (open_window) q where "k = key" "b key = Some q" "\<not> nle (rb_resetUnix q) (jint t)"
    by blast
  then show ?case
  proof cases
    case other
    with ih [of "snd ?step"] show ?thesis by (simp add: x split_def Let_def bucket_other)
  next
    case fresh
    let ?b = "b(key \<mapsto> \<lparr>rb_count = 1, rb_resetUnix = nadd (jint t) (jint w)\<rparr>)"
    have step: "bucket_step (jint w) (jint (int m)) t key b = (False, ?b)" using fresh by (auto simp: bucket_step_def split: option.splits)
    have "admitted (jint w) (jint (int m)) key rs ?b \<le> m - 1"
    proof (rule admitted_window)
      show "\<forall>(t', k') \<in> set rs. \<not> nle (jint (t + w)) (jint t')" using Cons.prems by (fastforce simp: x)
    qed simp
    with assms(2) show ?thesis by (simp add: x step fresh(1))
  next
    case open_window
    let ?b = "b(key \<mapsto> q\<lparr>rb_count := rb_count q + 1\<rparr>)"
    have "bucket_step (jint w) (jint (int m)) t key b = (m < rb_count q + 1, ?b)"
      using open_window by (simp add: bucket_step_def over_limit)
    with ih [of ?b] open_window show ?thesis by (auto simp: x)
  qed
qed

text \<open>In any stretch of as many seconds as the window is long, at most twice the limit of requests of one caller
  to one route and domain pass the rate limit, whatever other requests come between, whatever buckets there are, and
  even if the clock runs backwards within the stretch; a counter that begins a window anew can begin only one.\<close>

theorem rate_limit_bounded:
  assumes "\<forall>(t, k) \<in> set rs. a \<le> t \<and> t < a + w" "1 \<le> m"
  shows "admitted (jint w) (jint (int m)) key rs b \<le> 2 * m"
  using admitted_two_windows [OF assms, of key b] by simp

text \<open>The bound is met: with a limit of two, four requests pass in the four seconds around the end of a window.\<close>

lemma rate_limit_bounded_witness:
  "admitted (jint 4) (jint (int 2)) ''k'' [(10, ''k''), (11, ''k''), (11, ''k''), (12, ''k''), (12, ''k''), (13, ''k'')]
     [''k'' \<mapsto> \<lparr>rb_count = 0, rb_resetUnix = jint 12\<rparr>] \<le> 2 * 2 \<and>
   admitted (jint 4) (jint (int 2)) ''k'' [(10, ''k''), (11, ''k''), (11, ''k''), (12, ''k''), (12, ''k''), (13, ''k'')]
     [''k'' \<mapsto> \<lparr>rb_count = 0, rb_resetUnix = jint 12\<rparr>] = 4"
  by (rule conjI, rule rate_limit_bounded [where a = 10]) (simp_all add: bucket_step_def)


subsection \<open>What every route keeps\<close>

text \<open>
  The credits of every account (but the two inherited names) and of every domain of the mock registrar are finite and not
  negative, a bucket has counted its first request, and no stored input says that control was verified.
\<close>

definition ledger_ok :: "ledger_file \<Rightarrow> bool" where
  "ledger_ok f \<longleftrightarrow> (\<forall>k v. ls_balances (fst (ensureStore f)) k = Some v \<longrightarrow> inherited_key k \<or> (\<exists>q. v = Fin q \<and> 0 \<le> q))"

definition unverified :: "StoredDomainStatus \<Rightarrow> bool" where
  "unverified s \<longleftrightarrow> (case ss_inputs s of None \<Rightarrow> True | Some i \<Rightarrow> \<not> dc_verified_control i \<and> \<not> dc_abuse_flag i)"

definition status_ok :: "status_file \<Rightarrow> bool" where
  "status_ok f \<longleftrightarrow> (case f of StDomains m \<Rightarrow> (\<forall>k s. m k = Some s \<longrightarrow> unverified s) | _ \<Rightarrow> True)"

definition gateway_ok :: "GatewayState \<Rightarrow> bool" where
  "gateway_ok gs \<longleftrightarrow> ledger_ok (gs_ledger gs) \<and> reg_ok (gs_registrar gs) \<and> status_ok (gs_status gs) \<and>
     (\<forall>k b. gs_buckets gs k = Some b \<longrightarrow> 1 \<le> rb_count b)"

named_theorems keeps

lemma andthen_keeps [keeps]:
  "gateway_ok (snd m) \<Longrightarrow> (\<And>x s. gateway_ok s \<Longrightarrow> gateway_ok (snd (k x s))) \<Longrightarrow> gateway_ok (snd (andthen m k))"
  by (cases m) (auto simp: andthen_def split: sum.splits)

lemma if_keeps [keeps]:
  "(c \<Longrightarrow> gateway_ok (snd m)) \<Longrightarrow> (\<not> c \<Longrightarrow> gateway_ok (snd m')) \<Longrightarrow> gateway_ok (snd (if c then m else m'))"
  "gateway_ok gs \<Longrightarrow> gateway_ok gs' \<Longrightarrow> gateway_ok (if c then gs else gs')"
  by simp_all

lemma ledger_ok_read:
  "ledger_ok f \<Longrightarrow> \<not> inherited_key k \<Longrightarrow> \<exists>q. read_balance (ls_balances (fst (ensureStore f))) k = Fin q \<and> 0 \<le> q"
  by (cases "ls_balances (fst (ensureStore f)) k") (force simp: read_balance_def ledger_ok_def nor_def)+

lemma ledger_ok_ensure: "ledger_ok f \<Longrightarrow> ledger_ok (snd (ensureStore f))"
  by (simp add: ledger_ok_def)

lemma ledger_ok_set:
  "ledger_ok f \<Longrightarrow> (\<not> inherited_key k \<Longrightarrow> \<exists>q. v = Fin q \<and> 0 \<le> q) \<Longrightarrow>
     ledger_ok (saveStore \<lparr>ls_balances = set_balance (ls_balances (fst (ensureStore f))) k v, ls_entries = es\<rparr>)"
  by (auto simp: ledger_ok_def set_balance_def split: if_splits)

lemma get_snd: "snd (ledger_getBalance d f) = (if normalizeKey d = [] then f else snd (ensureStore f))"
  by (simp add: ledger_getBalance_def split_def Let_def)

lemma ledger_moves:
  assumes "ledger_ok f"
  shows "ledger_ok (snd (ledger_credit d a r t f))" "ledger_ok (snd (ledger_debit d a r t f))"
    "ledger_ok (snd (ledger_getBalance d f))"
proof -
  have sum: "\<exists>q. nadd (read_balance (ls_balances (fst (ensureStore f))) (normalizeKey d)) a = Fin q \<and> 0 \<le> q"
    if "\<not> inherited_key (normalizeKey d)" "is_finite a" "\<not> nle a (Fin 0)"
    using ledger_ok_read [OF assms that(1)] that by (auto simp: is_finite_iff)
  have diff: "\<exists>q. nsub (read_balance (ls_balances (fst (ensureStore f))) (normalizeKey d)) a = Fin q \<and> 0 \<le> q"
    if "\<not> inherited_key (normalizeKey d)" "is_finite a"
      "\<not> nlt (read_balance (ls_balances (fst (ensureStore f))) (normalizeKey d)) a"
    using ledger_ok_read [OF assms that(1)] that by (auto simp: is_finite_iff)
  show "ledger_ok (snd (ledger_credit d a r t f))"
    using assms sum by (auto simp: ledger_credit_def split_def Let_def intro!: ledger_ok_set)
  show "ledger_ok (snd (ledger_debit d a r t f))"
    using assms diff by (auto simp: ledger_debit_def split_def Let_def ledger_ok_ensure intro!: ledger_ok_set)
  show "ledger_ok (snd (ledger_getBalance d f))"
    using assms by (simp add: get_snd ledger_ok_ensure)
qed

lemma subsidy_eq: "subsidy d gs = (\<lparr>sub_credits_balance = fst (balance_of d gs), sub_renewal_cost_estimate = jint 110,
    sub_covered_by_credits = nle (jint 110) (nmin (jint 110) (fst (balance_of d gs))),
    sub_covered_amount = nmin (jint 110) (fst (balance_of d gs))\<rparr>, snd (balance_of d gs))"
  by (simp add: subsidy_def balance_of_def ledger_estimateRenewalSubsidy_def split_def Let_def)

lemma audit_keeps [keeps]: "gateway_ok gs \<Longrightarrow> gateway_ok (auditEvent req e dec ref gs)"
  by (simp add: gateway_ok_def auditEvent_def)

lemma balance_keeps [keeps]: "gateway_ok gs \<Longrightarrow> gateway_ok (snd (balance_of d gs))"
  by (simp add: gateway_ok_def balance_of_def split_def Let_def ledger_moves)

lemma subsidy_keeps [keeps]: "gateway_ok gs \<Longrightarrow> gateway_ok (snd (subsidy d gs))"
  by (simp add: subsidy_eq balance_keeps)

lemma limit_keeps: "gateway_ok gs \<Longrightarrow> gateway_ok (snd (enforceRateLimit env req e gs))"
  by (auto simp: gateway_ok_def enforceRateLimit_def bucket_step_def split_def split: option.splits if_splits)

lemma guarded_keeps [keeps]:
  "(\<And>gs. gateway_ok gs \<Longrightarrow> gateway_ok (snd (handle gs))) \<Longrightarrow> gateway_ok gs \<Longrightarrow> gateway_ok (snd (guarded env req l e handle gs))"
  using limit_keeps [of gs env req l] by (simp add: guarded_def split_def Let_def audit_keeps)

lemma provider_guard_keeps [keeps]: "gateway_ok (snd m) \<Longrightarrow> gateway_ok (snd (provider_guard req e m))"
  by (cases m) (auto simp: provider_guard_def audit_keeps split: sum.splits)

text \<open>The registrar is one that \<open>createRegistrarProvider\<close> makes.\<close>

definition provided :: "server_env \<Rightarrow> bool" where
  "provided env \<longleftrightarrow> (\<exists>pe config. createRegistrarProvider pe config = Inr (se_runtime env))"

lemma provided_store: "provided env \<Longrightarrow> registrar_store (registrar_of env)"
  using provider_store by (auto simp: provided_def)

lemma provided_registrar: "provided env \<Longrightarrow> registrar (registrar_of env)"
  using provider_registrar by (auto simp: provided_def)

lemma registrar_keeps [keeps]:
  assumes "provided env" "gateway_ok gs"
  shows "gateway_ok (snd (getDomain env d gs))" "gateway_ok (snd (getRenewalQuote env d gs))"
    "gateway_ok (snd (renewDomain env d y p gs))" "gateway_ok (snd (setNameServers env d ns gs))"
  using assms registrar_store.get_ok [OF provided_store [OF assms(1)]] registrar_store.quote_ok [OF provided_store [OF assms(1)]]
    registrar_store.renew_ok [OF provided_store [OF assms(1)]] registrar_store.ns_ok [OF provided_store [OF assms(1)]]
  by (simp_all add: gateway_ok_def getDomain_def getRenewalQuote_def renewDomain_def setNameServers_def split_def Let_def)


lemma stored_ok:
  "status_ok f \<Longrightarrow> status_ok (snd (loadStore f))"
  "status_ok f \<Longrightarrow> fst (loadStore f) = Inr m \<Longrightarrow> stored m k = Some s \<Longrightarrow> unverified s"
  by (auto simp: status_ok_def loadStore_def stored_def unverified_def no_status_def split: status_file.splits option.splits if_splits)

lemma status_get_ok:
  assumes "status_ok f"
  shows "status_ok (snd (status_get d f))" "fst (status_get d f) = Inr (Some s) \<Longrightarrow> unverified s"
  using assms stored_ok [OF assms]
  by (auto simp: status_get_def Let_def split_def result_simps split: if_splits)

lemma status_upsert_ok:
  assumes "status_ok f" "\<And>c s. (\<And>t. c = Some t \<Longrightarrow> unverified t) \<Longrightarrow> updater c = Inr s \<Longrightarrow> unverified s"
  shows "status_ok (snd (status_upsert d updater f))"
proof (cases "loadStore f")
  case (Pair r f1)
  show ?thesis
  proof (cases "\<exists>m s. r = Inr m \<and> updater (stored m (normalizeDomain d)) = Inr s \<and> normalizeDomain d \<noteq> []")
    case True
    then obtain m s where u: "r = Inr m" "updater (stored m (normalizeDomain d)) = Inr s" "normalizeDomain d \<noteq> []" by blast
    have "unverified t" if "m k = Some t" for k t
      using stored_ok(2) [OF assms(1), of m k t] Pair u(1) that by (simp add: stored_def)
    moreover have "unverified s"
      using assms(2) [OF _ u(2)] stored_ok(2) [OF assms(1), of m] Pair u(1) by simp
    ultimately show ?thesis
      using u Pair by (auto simp: status_upsert_def Let_def status_ok_def)
  next
    case False
    then have "snd (status_upsert d updater f) = f \<or> snd (status_upsert d updater f) = f1"
      using Pair by (auto simp: status_upsert_def Let_def split: sum.splits)
    then show ?thesis using assms(1) stored_ok(1) [OF assms(1)] Pair by auto
  qed
qed

lemma unverified_more:
  "(\<And>t. c = Some t \<Longrightarrow> unverified t) \<Longrightarrow> unverified (with_current d c)"
  by (auto simp: with_current_def unverified_def no_status_def split: option.splits)

lemma unverified_upd [simp]:
  "unverified (s\<lparr>ss_status := a\<rparr>) = unverified s" "unverified (s\<lparr>ss_last_updated_at := b\<rparr>) = unverified s"
  "unverified (s\<lparr>ss_claim_requested := c\<rparr>) = unverified s" "unverified (s\<lparr>ss_claim_requested_at := e\<rparr>) = unverified s"
  "unverified (s\<lparr>ss_banner_ack_at := g\<rparr>) = unverified s" "unverified (s\<lparr>ss_challenge := h\<rparr>) = unverified s"
  "unverified (s\<lparr>ss_inputs := Some i\<rparr>) \<longleftrightarrow> \<not> dc_verified_control i \<and> \<not> dc_abuse_flag i"
  by (simp_all add: unverified_def)

lemma upsert_keeps [keeps]:
  assumes "gateway_ok gs" "\<And>c s. (\<And>t. c = Some t \<Longrightarrow> unverified t) \<Longrightarrow> updater c = Inr s \<Longrightarrow> unverified s"
  shows "gateway_ok (snd (upsert d updater gs))"
proof -
  have "status_ok (snd (status_upsert d updater (gs_status gs)))"
    using assms by (intro status_upsert_ok) (auto simp: gateway_ok_def)
  with assms(1) show ?thesis by (simp add: gateway_ok_def upsert_def split_def Let_def)
qed

lemma stored_status_keeps [keeps]: "gateway_ok gs \<Longrightarrow> gateway_ok (snd (stored_status d gs))"
  using status_get_ok(1) [of "gs_status gs" d] by (simp add: gateway_ok_def stored_status_def split_def Let_def)

lemma stored_status_unverified:
  "gateway_ok gs \<Longrightarrow> fst (stored_status d gs) = Inr e \<Longrightarrow> \<not> verified_of e \<and> \<not> abuse_of e"
  using status_get_ok(2) [of "gs_status gs" d]
  by (cases e) (auto simp: gateway_ok_def stored_status_def split_def Let_def verified_of_def abuse_of_def stored_input_def
      unverified_def split: option.splits)

lemma same_keeps [keeps]: "gateway_ok gs \<Longrightarrow> gateway_ok (snd (x, gs))"
  by simp

lemma sources_keeps [keeps]:
  "provided env \<Longrightarrow> gateway_ok gs \<Longrightarrow> gateway_ok (snd (continuityStatusFromSources env d o' gs))"
  unfolding continuityStatusFromSources_def split_def Let_def
  by (rule keeps | assumption)+

lemma andthen_eq_Inr: "andthen m k = (Inr y, t) \<longleftrightarrow> (\<exists>x s. m = (Inr x, s) \<and> k x s = (Inr y, t))"
  by (cases m) (auto simp: andthen_def split: sum.splits)

lemma judge_keeps [keeps]: "provided env \<Longrightarrow> gateway_ok gs \<Longrightarrow> gateway_ok (snd (judge env d c gs))"
  unfolding judge_def split_def Let_def
  by (rule keeps | assumption)+

lemma judge_unverified:
  assumes "judge env d c gs = (Inr j, gs')" "gateway_ok gs"
  shows "\<not> verified_of (jd_existing j) \<and> \<not> abuse_of (jd_existing j)"
proof -
  from assms(1) obtain gs1 where "stored_status d gs = (Inr (jd_existing j), gs1)"
    by (auto simp: judge_def andthen_eq_Inr split_def Let_def)
  then show ?thesis using stored_status_unverified [OF assms(2), of d] by simp
qed


text \<open>The handlers.\<close>

lemma registrar_handlers_keep [keeps]:
  assumes "provided env" "gateway_ok gs"
  shows "gateway_ok (snd (registrar_domain_handler env req gs))" "gateway_ok (snd (registrar_quote_handler env req gs))"
    "gateway_ok (snd (registrar_renew_handler env req gs))" "gateway_ok (snd (registrar_ns_handler env req gs))"
  unfolding registrar_domain_handler_def registrar_quote_handler_def registrar_renew_handler_def registrar_ns_handler_def
    renew_with_credits_def
    split_def Let_def
  by (rule keeps assms | assumption)+

lemma credits_handlers_keep [keeps]:
  assumes "gateway_ok gs"
  shows "gateway_ok (snd (credits_balance_handler env req gs))" "gateway_ok (snd (credits_credit_handler env req gs))"
    "gateway_ok (snd (credits_debit_handler env req gs))"
  using assms ledger_moves [of "gs_ledger gs"] subsidy_keeps [OF assms]
  by (auto simp: credits_balance_handler_def split_def Let_def)
    (auto simp: credits_credit_handler_def credits_debit_handler_def credits_move_handler_def gateway_ok_def
      dest!: arg_cong [where f = snd] split: sum.splits prod.splits)


lemma status_handler_keeps [keeps]:
  assumes "provided env" "gateway_ok gs"
  shows "gateway_ok (snd (domain_status_handler env o' req gs))"
proof -
  have "gateway_ok (snd (andthen (judge env d False gs) k))"
    if "gateway_ok gs" and k: "\<And>j s. judge env d False gs = (Inr j, s) \<Longrightarrow> gateway_ok s \<Longrightarrow> gateway_ok (snd (k j s))" for d k gs
    using judge_keeps [OF assms(1) that(1), of d False]
    by (cases "judge env d False gs") (auto simp: andthen_def k split: sum.splits)
  then show ?thesis
    unfolding domain_status_handler_def Let_def
    by (rule guarded_keeps [rotated, OF assms(2)])
      (rule upsert_keeps andthen_keeps keeps assms(1) | assumption |
        (drule judge_unverified, assumption, fastforce simp: result_simps))+
qed


lemma challenge_keeps [keeps]:
  assumes "gateway_ok gs"
  shows "gateway_ok (snd (case createChallenge denv token d (gs_status gs) of (r, f) \<Rightarrow> (r, gs\<lparr>gs_status := f\<rparr>)))"
proof -
  have "status_ok (snd (createChallenge denv token d (gs_status gs)))"
    using assms status_upsert_ok [of "gs_status gs"]
    by (auto simp: createChallenge_def Let_def gateway_ok_def result_simps unverified_more intro!: status_upsert_ok split: sum.splits)
  with assms show ?thesis by (simp add: gateway_ok_def split_def Let_def)
qed

lemma domain_handlers_keep [keeps]:
  assumes "provided env" "gateway_ok gs"
  shows "gateway_ok (snd (domain_continuity_handler env req gs))" "gateway_ok (snd (continuity_claim_handler env req gs))"
    "gateway_ok (snd (banner_ack_handler env req gs))"
    "gateway_ok (snd (domain_notice_handler env nonce req gs))" "gateway_ok (snd (domain_banner_handler env pg req gs))"
    "gateway_ok (snd (domain_verify_handler env token req gs))"
  unfolding domain_continuity_handler_def continuity_claim_handler_def banner_ack_handler_def
    domain_notice_handler_def domain_banner_handler_def domain_verify_handler_def
  subgoal unfolding split_def Let_def by (rule keeps assms | assumption)+
  subgoal unfolding split_def Let_def by (rule keeps assms | assumption | (force simp: result_simps unverified_more))+
  subgoal unfolding split_def Let_def by (rule keeps assms | assumption | (force simp: result_simps unverified_more))+
  subgoal unfolding split_def Let_def by (rule keeps assms | assumption)+
  subgoal unfolding split_def Let_def by (rule keeps assms | assumption)+
  subgoal using assms by (auto simp: Let_def intro!: andthen_keeps challenge_keeps)
  done

lemma apply_credits_keeps [keeps]: "gateway_ok gs \<Longrightarrow> gateway_ok (snd (apply_credits env d sub c gs))"
  using ledger_moves(2) [of "gs_ledger gs"]
  by (auto simp: apply_credits_def gateway_ok_def dest!: arg_cong [where f = snd] split: sum.splits prod.splits)

lemma renew_handler_keeps [keeps]:
  assumes "provided env" "gateway_ok gs"
  shows "gateway_ok (snd (domain_renew_handler env req gs))"
proof -
  have blocked: "gateway_ok (snd (treasury_blocked env req gs))" if "gateway_ok gs" for gs
    unfolding treasury_blocked_def split_def Let_def by (rule keeps assms that | assumption)+
  have settle: "gateway_ok (snd (settle_renewal env req c r gs))" if "gateway_ok gs" for c r gs
    unfolding settle_renewal_def split_def Let_def
    by (rule keeps assms that | assumption | (force simp: result_simps unverified_more))+
  show ?thesis
    unfolding domain_renew_handler_def split_def Let_def
    by (rule guarded_keeps [rotated, OF assms(2)])
      (rule blocked settle keeps assms | assumption)+
qed

lemma serve_keeps: "provided env \<Longrightarrow> gateway_ok gs \<Longrightarrow> gateway_ok (snd (serve env route req gs))"
  by (cases route) (simp_all add: keeps)



text \<open>The state before the first request.\<close>

definition fresh_gateway :: GatewayState where
  "fresh_gateway = \<lparr>gs_registrar = RegNone, gs_ledger = NoFile, gs_status = StNone, gs_buckets = Map.empty, gs_audit = []\<rparr>"

lemma fresh_ok: "gateway_ok fresh_gateway"
  by (simp add: gateway_ok_def fresh_gateway_def ledger_ok_def ensureStore_def defaultStore_def reg_ok_def status_ok_def)


subsection \<open>What the gateway's judgement of a domain depends on\<close>

lemma continuityStatus_input:
  assumes "continuityStatus env d opts = Inr s"
  obtains i where "cs_phase s = do_phase (evaluateDomainContinuityPolicy (dm_parse env) i (dm_now env))"
    "cs_eligible s = do_eligible (evaluateDomainContinuityPolicy (dm_parse env) i (dm_now env))"
    "cs_hold_banner_active s = do_hold_banner_active (evaluateDomainContinuityPolicy (dm_parse env) i (dm_now env))"
    "dc_ns_status i = either (cx_nsStatus opts) True" "dc_verified_control i = either (cx_verifiedControl opts) False"
    "dc_abuse_flag i = either (cx_abuseFlag opts) False"
    "\<And>t. cx_trafficSignal opts = Some t \<Longrightarrow> dc_traffic_signal i = t"
  using assms by (auto simp: continuityStatus_def Let_def result_simps)

lemma flags_of [simp]:
  "cs_phase (addEligibilityFlags s u t) = cs_phase s" "cs_eligible (addEligibilityFlags s u t) = cs_eligible s"
  "cs_hold_banner_active (addEligibilityFlags s u t) = cs_hold_banner_active s" "fs_uses_ddns_ns (addEligibilityFlags s u t) = u"
  "cs_credits_applied_estimate (addEligibilityFlags s u t) = (if u \<and> cs_eligible s then cs_credits_applied_estimate s else 0)"
  "fs_eligible_for_hold (addEligibilityFlags s u t) = (u \<and> cs_eligible s)"
  "\<not> u \<Longrightarrow> ''MUST_USE_DDNS_NS'' \<in> set (cs_reason_codes (addEligibilityFlags s u t))"
  by (simp_all add: addEligibilityFlags_def Let_def)

lemma option_fields [simp]:
  "cx_nsStatus (sourced_options opts r q u w) = Some (either (cx_nsStatus opts) (uses_ddns (either (rd_ns r) [])))"
  "cx_verifiedControl (sourced_options opts r q u w) = cx_verifiedControl opts"
  "cx_abuseFlag (sourced_options opts r q u w) = cx_abuseFlag opts"
  "wc_traffic_signal w = Some t \<Longrightarrow> cx_trafficSignal (sourced_options opts r q u w) = Some t"
  "cx_nsStatus (source_options e r ns c b k) = Some ns" "cx_verifiedControl (source_options e r ns c b k) = Some (verified_of e)"
  "cx_abuseFlag (source_options e r ns c b k) = Some (abuse_of e)" "either (Some x) y = x"
  by (simp_all add: sourced_options_def source_options_def either_def first_some_def)

lemma judge_cases:
  assumes "judge env d c gs = (Inr j, gs')"
  obtains s opts where "continuityStatus (se_dom env) d opts = Inr s"
    "jd_status j = addEligibilityFlags s (jd_ns j) (wc_treasury_renewal_allowed (fetchContinuityCompatFromWorker (se_dom env) d))"
    "cx_nsStatus opts = Some (jd_ns j)" "cx_verifiedControl opts = Some (verified_of (jd_existing j))"
    "cx_abuseFlag opts = Some (abuse_of (jd_existing j))"
    "\<And>t. wc_traffic_signal (fetchContinuityCompatFromWorker (se_dom env) d) = Some t \<Longrightarrow> cx_trafficSignal opts = Some t"
    "\<And>i. stored_input (jd_existing j) = Some i \<Longrightarrow> jd_ns j = dc_ns_status i"
proof -
  from assms obtain gs3 gs4 b where ns: "ns_status_of (jd_existing j) (jd_record j) = Inr (jd_ns j)"
    and src: "continuityStatusFromSources env d (source_options (jd_existing j) (jd_record j) (jd_ns j)
        (c \<or> claimed (jd_existing j)) (Some b) None) gs3 = (Inr (jd_status j), gs4)"
    by (auto simp: judge_def andthen_eq_Inr split_def Let_def)
  have stored: "jd_ns j = dc_ns_status i" if "stored_input (jd_existing j) = Some i" for i
    using ns that by (simp add: ns_status_of_def)
  let ?worker = "fetchContinuityCompatFromWorker (se_dom env) d"
  let ?opts = "source_options (jd_existing j) (jd_record j) (jd_ns j) (c \<or> claimed (jd_existing j)) (Some b) None"
  from src obtain x quote sub s where F:
    "continuityStatus (se_dom env) d (sourced_options ?opts x quote sub ?worker) = Inr s"
    "jd_status j = addEligibilityFlags s (either (cx_nsStatus ?opts) (uses_ddns (either (rd_ns x) []))) (wc_treasury_renewal_allowed ?worker)"
    by (auto simp: continuityStatusFromSources_def split_def Let_def andthen_eq_Inr result_simps)
  show ?thesis by (rule that [OF F(1)]) (simp_all add: F(2) stored)
qed



text \<open>An environment and a state to evaluate the routes in: the mock registrar with one domain.\<close>

definition toy_reg :: reg_env where
  "toy_reg = \<lparr>rv_iso = (\<lambda>_. Inr ''2026-01-01''), rv_int = (\<lambda>_. ''7''), rv_now = 1000\<rparr>"

definition toy_porkbun :: porkbun_env where
  "toy_porkbun = \<lparr>pb_reg = toy_reg, pb_http = (\<lambda>_ _. throw ''offline''), pb_date = (\<lambda>_. Inr []), pb_number = (\<lambda>_. NaN),
     pb_numstr = (\<lambda>_. ''0'')\<rparr>"

definition toy_runtime :: RegistrarProviderRuntime where
  "toy_runtime = \<lparr>rt_adapter = createMockRegistrar toy_reg, rt_enabled = False, rt_provider = MockProvider, rt_dryRun = True\<rparr>"

definition toy_dom :: domain_env where
  "toy_dom = \<lparr>dm_reg = toy_reg, dm_parse = (\<lambda>_. Some 0), dm_version = ''v1'', dm_workerUrl = ''w'',
     dm_worker = (\<lambda>_. Some (True, Some (JObj [(''traffic_signal'', JStr ''real'')])))\<rparr>"

definition toy_server :: server_env where
  "toy_server = \<lparr>se_dom = toy_dom, se_runtime = toy_runtime, se_notice = toy_notice, se_number = (\<lambda>_. Fin 1), se_adminToken = ''t'',
     se_windowS = jint 60, se_maxRequests = jint 30\<rparr>"

definition toy_record :: RegistrarDomainRecord where
  "toy_record = \<lparr>rd_domain = Some ''a.com'', rd_status = Some RActive, rd_renewal_due_date = Some ''due'',
     rd_grace_expires_at = Some ''grace'', rd_ns = Some [''ns1.tolldns.io''], rd_traffic_signal = Some TrafficLow,
     rd_credits_balance = Some (Fin 500)\<rparr>"

definition toy_state :: GatewayState where
  "toy_state = \<lparr>gs_registrar = RegDomains [''a.com'' \<mapsto> toy_record], gs_ledger = Parsed (Some [''a.com'' \<mapsto> Fin 150]) (Some []),
     gs_status = StDomains Map.empty, gs_buckets = Map.empty, gs_audit = []\<rparr>"

definition toy_request :: http_request where
  "toy_request = \<lparr>hr_actor = ''x'', hr_adminToken = '''', hr_domain = ''A.com.'', hr_body = JObj []\<rparr>"

lemma toy_provided: "provided toy_server"
  unfolding provided_def
  by (rule exI [of _ toy_porkbun], rule exI [of _ "\<lparr>rp_enabled = False, rp_provider = MockProvider, rp_dryRun = True,
    rp_porkbun = \<lparr>po_apiKey = [], po_secretApiKey = [], po_endpoint = [], po_dryRun = True\<rparr>\<rparr>"])
    (simp add: createRegistrarProvider_def toy_server_def toy_runtime_def toy_porkbun_def)

lemma toy_state_ok: "gateway_ok toy_state"
  by (auto simp: gateway_ok_def toy_state_def ledger_ok_def ensureStore_def reg_ok_def status_ok_def toy_record_def split: if_splits)

lemma toy_names: "normalizeDomain ''A.com.'' = ''a.com''" "normalizeDomain ''a.com'' = ''a.com''" "normalizeKey ''a.com'' = ''a.com''"
  by code_simp+

lemma toy_worker: "fetchContinuityCompatFromWorker toy_dom ''a.com'' =
    \<lparr>wc_expires_at = None, wc_traffic_signal = Some TrafficReal, wc_treasury_renewal_allowed = None\<rparr>"
  by code_simp


text \<open>With the mock registrar's file in order, asking and judging succeed.\<close>

lemma toy_get: "gs_registrar gs = RegDomains m \<Longrightarrow> getDomain toy_server d gs = (Inr (find_domain m (normalizeDomain d)), gs)"
  "gs_registrar gs = RegDomains m \<Longrightarrow> \<exists>q. getRenewalQuote toy_server d gs = (Inr q, gs)"
  by (simp_all add: getDomain_def getRenewalQuote_def toy_server_def toy_runtime_def mock_simps mock_getDomain_def
      mock_getRenewalQuote_def toy_reg_def)

lemma balance_frame:
  "gs_registrar (snd (balance_of d gs)) = gs_registrar gs" "gs_status (snd (balance_of d gs)) = gs_status gs"
  "gs_buckets (snd (balance_of d gs)) = gs_buckets gs"
  by (simp_all add: balance_of_def split_def Let_def)

lemma toy_se_dom [simp]: "se_dom toy_server = toy_dom"
  by (simp add: toy_server_def)

lemma toy_continuity: "\<exists>s. continuityStatus toy_dom d opts = Inr s"
  by (cases "nonempty (cx_renewalDueDate opts)") (simp_all add: continuityStatus_def now_iso_def toy_dom_def toy_reg_def Let_def)

lemma toy_sources:
  assumes "gs_registrar gs = RegDomains m"
  shows "\<exists>s. continuityStatusFromSources toy_server d opts gs = (Inr s, snd (balance_of d gs))"
proof -
  obtain q where q: "getRenewalQuote toy_server d gs = (Inr q, gs)" using toy_get(2) assms by blast
  obtain s where "continuityStatus toy_dom d (sourced_options opts (find_domain m (normalizeDomain d)) q (fst (subsidy d gs))
      (fetchContinuityCompatFromWorker toy_dom d)) = Inr s"
    using toy_continuity by blast
  then show ?thesis
    by (simp add: continuityStatusFromSources_def andthen_def toy_get assms q split_def Let_def subsidy_eq)
qed

lemma toy_judged: "\<exists>j gs'. judge toy_server ''a.com'' False toy_state = (Inr j, gs')"
proof -
  let ?gs = "snd (balance_of ''a.com'' toy_state)"
  have st: "stored_status ''a.com'' toy_state = (Inr None, toy_state)"
    by (simp add: stored_status_def status_get_def loadStore_def stored_def inherited_key_def toy_state_def toy_names)
  have r: "getDomain toy_server ''a.com'' toy_state = (Inr toy_record, toy_state)"
    by (simp add: toy_get toy_state_def toy_names find_domain_def)
  obtain s where "continuityStatusFromSources toy_server ''a.com'' (source_options None toy_record True False
      (Some (fst (balance_of ''a.com'' toy_state))) None) ?gs = (Inr s, snd (balance_of ''a.com'' ?gs))"
    using toy_sources by (metis balance_frame(1) toy_state_def GatewayState.select_convs(1))
  moreover have "ns_status_of None toy_record = Inr True"
    by (simp add: ns_status_of_def stored_input_def toy_record_def uses_ddns_def) code_simp
  ultimately show ?thesis
    by (simp add: judge_def st r andthen_def split_def Let_def claimed_def)
qed


end
