(* ===== verification/RenewalProps.thy ===== *)
theory RenewalProps
  imports DomainProps
begin

section \<open>Properties of renewals and pages\<close>

text \<open>
  What a renewal changes at the registrar, through the contract of the locale \<open>registrar\<close>, and in the ledger; what a
  page can contain.
\<close>

subsection \<open>What a renewal changes at the registrar\<close>

abbreviation same_at :: "server_env \<Rightarrow> GatewayState \<Rightarrow> GatewayState \<Rightarrow> bool" where
  "same_at env gs gs' \<equiv> same_domains (registrar_of env) (gs_registrar gs) (gs_registrar gs')"

text \<open>The parts of the state that a route may not touch.\<close>

definition only_registrar :: "GatewayState \<Rightarrow> GatewayState \<Rightarrow> bool" where
  "only_registrar gs gs' \<longleftrightarrow> gs_ledger gs' = gs_ledger gs \<and> gs_status gs' = gs_status gs"

lemma only_registrar_trans: "only_registrar a b \<Longrightarrow> only_registrar b c \<Longrightarrow> only_registrar a c"
  by (simp add: only_registrar_def)

lemma asked:
  assumes "registrar (registrar_of env)"
  shows "getRenewalQuote env d gs = (r, gs') \<Longrightarrow> same_at env gs gs' \<and> only_registrar gs gs'"
    "getDomain env d gs = (r', gs') \<Longrightarrow> same_at env gs gs' \<and> only_registrar gs gs' \<and>
       r' = fst (rga_getDomain (registrar_of env) d (gs_registrar gs))"
    "renewDomain env d y p gs = (r'', gs') \<Longrightarrow>
       same_others (registrar_of env) d (gs_registrar gs) (gs_registrar gs') \<and> only_registrar gs gs' \<and>
       (same_at env gs gs' \<or> (\<exists>x. r'' = Inr x \<and> rn_submitted x))"
  using registrar.quote_frame [OF assms] registrar.get_frame [OF assms]
    registrar.renew_others [OF assms prod.collapse [symmetric]]
    registrar.renew_frame [OF assms prod.collapse [symmetric]]
  by (auto simp: getRenewalQuote_def getDomain_def renewDomain_def only_registrar_def split_def Let_def split: sum.splits)

lemma limit_frame:
  "gs_registrar (snd (enforceRateLimit env req l gs)) = gs_registrar gs" "only_registrar gs (snd (enforceRateLimit env req l gs))"
  "gs_registrar (auditEvent req e dec ref gs) = gs_registrar gs" "only_registrar gs' (auditEvent req e dec ref gs) = only_registrar gs' gs"
  by (simp_all add: enforceRateLimit_def only_registrar_def auditEvent_def split_def Let_def)

lemma guarded_cases:
  assumes "guarded env req l e handle gs = (reply, gs')"
  obtains (refused) "gs_registrar gs' = gs_registrar gs" "only_registrar gs gs'" "\<And>b. reply \<noteq> Inr (200, b)" "\<And>x. reply \<noteq> Inl x"
  | (handled) gs1 where "handle gs1 = (reply, gs')" "gs_registrar gs1 = gs_registrar gs" "only_registrar gs gs1"
proof (cases "hr_domain req = [] \<or> fst (enforceRateLimit env req l gs)")
  case True
  with assms limit_frame have "gs_registrar gs' = gs_registrar gs" "only_registrar gs gs'" "\<And>b. reply \<noteq> Inr (200, b)" "\<And>x. reply \<noteq> Inl x"
    by (auto simp: guarded_def split_def Let_def limit_frame split: if_splits) (simp_all add: only_registrar_def)
  then show ?thesis by (rule refused)
next
  case False
  with assms have "handle (snd (enforceRateLimit env req l gs)) = (reply, gs')" by (simp add: guarded_def split_def Let_def)
  then show ?thesis by (rule handled) (simp_all add: limit_frame)
qed

lemma andthen_cases:
  assumes "andthen m k = (r, t)"
  obtains (failed) e where "m = (Inl e, t)" "r = Inl e" | (went) x s where "m = (Inr x, s)" "k x s = (r, t)"
  using assms by (cases m; cases "fst m") (auto simp: andthen_def)

lemma provider_guard_cases:
  assumes "provider_guard req e m = (reply, gs')"
  obtains (error) x gs1 where "m = (Inl x, gs1)" "gs_registrar gs' = gs_registrar gs1" "only_registrar gs1 gs'" "\<And>b. reply \<noteq> Inr (200, b)"
  | (fine) "m = (reply, gs')" "\<And>x. reply \<noteq> Inl x"
  using assms by (cases m; cases "fst m") (auto simp: provider_guard_def limit_frame only_registrar_def auditEvent_def)

definition renewal_covered :: "server_env \<Rightarrow> http_request \<Rightarrow> GatewayState \<Rightarrow> bool" where
  "renewal_covered env req gs \<longleftrightarrow>
     (\<exists>info quote. fst (rga_getDomain (registrar_of env) (hr_domain req) (gs_registrar gs)) = Inr info \<and>
        fst (rga_getRenewalQuote (registrar_of env) (hr_domain req) (gs_registrar gs)) = Inr quote \<and>
        (let due = nceil (nmul (to_fixed 2 (nmul (nor (rq_price_usd quote) (Fin 0)) (nmax (Fin 1) (body_years env req)))) (Fin 10))
         in \<not> nlt (nmin due (credits_of info)) due))"

definition says_submitted :: "reply \<Rightarrow> bool" where
  "says_submitted r \<longleftrightarrow> (case r of Inr (c, body) \<Rightarrow> c = 200 \<and> jprop body ''status'' = Some (JStr ''submitted'') | Inl _ \<Rightarrow> False)"

text \<open>How the registrar was called for a submitted renewal: after its two questions.\<close>

definition submitted_by :: "server_env \<Rightarrow> http_request \<Rightarrow> reg_file \<Rightarrow> reg_file \<Rightarrow> bool" where
  "submitted_by env req f f' \<longleftrightarrow> (let A = registrar_of env; d = hr_domain req in
     \<exists>x c. rga_renewDomain A d (nmax (Fin 1) (body_years env req)) (Some \<lparr>py_use_credits = True, py_credits_amount = c,
       py_payment_method = ''credits''\<rparr>) (snd (rga_getDomain A d (snd (rga_getRenewalQuote A d f)))) = (Inr x, f') \<and> rn_submitted x)"

lemma renew_with_credits_effect:
  assumes "registrar (registrar_of env)" "renew_with_credits env req gs = (r, gs')"
  shows "same_others (registrar_of env) (hr_domain req) (gs_registrar gs) (gs_registrar gs') \<and> only_registrar gs gs' \<and>
    (same_at env gs gs' \<and> \<not> says_submitted r \<or>
     says_submitted r \<and> renewal_covered env req gs \<and> submitted_by env req (gs_registrar gs) (gs_registrar gs'))"
  using assms(2) unfolding renew_with_credits_def Let_def
proof (cases rule: andthen_cases)
  case (failed e)
  then show ?thesis using asked(1) [OF assms(1)] by (auto simp: says_submitted_def intro: same_domains_others)
next
  case (went quote g1)
  note q = asked(1) [OF assms(1) went(1)]
  have quote: "fst (rga_getRenewalQuote (registrar_of env) (hr_domain req) (gs_registrar gs)) = Inr quote"
    using went(1) by (simp add: getRenewalQuote_def split_def Let_def)
  note quoted = went(1)
  from went(2) show ?thesis
  proof (cases rule: andthen_cases)
    case (failed e)
    then have "\<not> says_submitted r" by (simp add: says_submitted_def)
    with failed show ?thesis using asked(2) [OF assms(1)] q
      by (blast intro: same_domains_others same_domains_trans only_registrar_trans)
  next
    case info: (went info g2)
    note i = asked(2) [OF assms(1) info(1)]
    have same2: "same_at env gs g2" "only_registrar gs g2"
      using q i by (blast intro: same_domains_trans only_registrar_trans)+
    have info_at: "fst (rga_getDomain (registrar_of env) (hr_domain req) (gs_registrar gs)) = Inr info"
      using q i by (simp add: same_domains_def)
    let ?due = "nceil (nmul (to_fixed 2 (nmul (nor (rq_price_usd quote) (Fin 0)) (nmax (Fin 1) (body_years env req)))) (Fin 10))"
    show ?thesis
    proof (cases "nlt (nmin ?due (credits_of info)) ?due")
      case True
      with info(2) have "gs' = auditEvent req ''/v1/registrar/renew'' Blocked None g2" "\<not> says_submitted r"
        by (auto simp: says_submitted_def jprop_def)
      then show ?thesis using same2 by (simp add: limit_frame same_domains_others)
    next
      case False
      have covered: "renewal_covered env req gs"
        using False info_at quote by (simp add: renewal_covered_def Let_def)
      from info(2) [unfolded if_not_P [OF False]] show ?thesis
      proof (cases rule: andthen_cases)
        case (failed e)
        from asked(3) [OF assms(1) failed(1)] same2 failed(2) show ?thesis
          by (auto simp: same_others_def same_domains_def says_submitted_def intro: only_registrar_trans)
      next
        case (went result g3)
        from went(2) have g: "gs' = auditEvent req ''/v1/registrar/renew'' (ran env) (Some (rn_provider_ref result)) g3"
          and s: "says_submitted r = rn_submitted result"
          by (auto simp: says_submitted_def jprop_def renewal_json_def split: if_splits)
        have "gs_registrar g2 = snd (rga_getDomain (registrar_of env) (hr_domain req)
            (snd (rga_getRenewalQuote (registrar_of env) (hr_domain req) (gs_registrar gs))))"
          using info(1) quoted by (auto simp: getDomain_def getRenewalQuote_def split_def Let_def)
        moreover have "rga_renewDomain (registrar_of env) (hr_domain req) (nmax (Fin 1) (body_years env req))
            (Some \<lparr>py_use_credits = True, py_credits_amount = nmin ?due (credits_of info), py_payment_method = ''credits''\<rparr>)
            (gs_registrar g2) = (Inr result, gs_registrar g3)"
          using went(1) by (auto simp: renewDomain_def split_def Let_def prod_eq_iff)
        ultimately have calls: "submitted_by env req (gs_registrar gs) (gs_registrar g3)" if "rn_submitted result"
          using that unfolding submitted_by_def Let_def by metis
        from asked(3) [OF assms(1) went(1)] same2 covered s calls show ?thesis
          by (auto simp: g limit_frame same_others_def same_domains_def intro: only_registrar_trans)
      qed
    qed
  qed
qed

text \<open>C10: a renewal over HTTP touches only the named domain at the registrar, whichever registrar the gateway is configured
  with, and neither the ledger nor the stored statuses; it changes that domain only if the reply says that a renewal was
  submitted, and then the credits of the registrar's record covered the quoted price, ten credits to the dollar, of all the
  years asked for (or one, if fewer).\<close>

theorem registrar_renew_changes:
  assumes "provided env" "registrar_renew_handler env req gs = (reply, gs')"
  shows "same_others (registrar_of env) (hr_domain req) (gs_registrar gs) (gs_registrar gs') \<and> only_registrar gs gs' \<and>
    (same_at env gs gs' \<or> says_submitted reply \<and> renewal_covered env req gs)"
  using assms(2) unfolding registrar_renew_handler_def
proof (cases rule: guarded_cases)
  case refused
  then show ?thesis by (simp add: same_domains_refl same_others_def)
next
  case (handled gs1)
  have start: "renewal_covered env req gs1 = renewal_covered env req gs" by (simp add: renewal_covered_def handled(2))
  from handled(1) show ?thesis
  proof (cases rule: provider_guard_cases)
    case (error x g)
    from renew_with_credits_effect [OF provided_registrar [OF assms(1)] error(1)] error handled show ?thesis
      by (simp add: says_submitted_def only_registrar_def)
  next
    case fine
    from renew_with_credits_effect [OF provided_registrar [OF assms(1)] fine(1)] handled show ?thesis
      by (auto simp: start only_registrar_def)
  qed
qed


lemma to_fixed_int: "to_fixed 2 (Fin (of_int i)) = jint i"
proof -
  have "\<lfloor>of_int \<bar>i\<bar> * 100 + 1 / 2 :: rat\<rfloor> = \<bar>i\<bar> * 100"
    by (rule floor_unique) simp_all
  then have "to_fixed 2 (Fin (of_int i)) = Fin (sgn (of_int i) * (of_int \<bar>i\<bar> * 100) / 100) \<or> to_fixed 2 (Fin (of_int i)) = jint i"
    by (auto simp: to_fixed_def simp del: of_int_abs simp flip: of_int_abs)
  then show ?thesis by (auto simp: sgn_if)
qed

text \<open>The mock registrar takes the credits of one year whatever the number of years: where ten times the price of every
  year had to be covered for a renewal over HTTP to be submitted, its record loses ten times the price of one. (The domain has no second dot to
  strip at its end.)\<close>

theorem renew_years_undercharged:
  assumes "rt_adapter (se_runtime env) = createMockRegistrar e" "renew_with_credits env req gs = (reply, gs')" "says_submitted reply"
    "gs_registrar gs = RegDomains s" "s (normalizeDomain (hr_domain req)) = Some r" "rd_credits_balance r = Some (Fin c)"
    "body_years env req = jint n" "1 \<le> n"
    "normalizeDomain (normalizeDomain (hr_domain req)) = normalizeDomain (hr_domain req)"
  shows "of_int (10 * mock_price r * n) \<le> c \<and>
    (\<exists>r'. gs_registrar gs' = RegDomains (s(normalizeDomain (hr_domain req) \<mapsto> r')) \<and>
      rd_credits_balance r' = Some (Fin (c - of_int (10 * mock_price r))))"
proof -
  let ?k = "normalizeDomain (hr_domain req)" and ?p = "mock_price r"
  note A = mock.registrar_axioms [of e, folded assms(1)]
  have same: "snd (rga_getDomain (registrar_of env) (hr_domain req)
      (snd (rga_getRenewalQuote (registrar_of env) (hr_domain req) (gs_registrar gs)))) = RegDomains s"
    by (simp add: assms(1,4) mock_simps mock_get(2) mock_quote_snd)
  have price: "0 < ?p" by (simp add: mock_price_def)
  from renew_with_credits_effect [OF A assms(2)] assms(3)
  have covered: "renewal_covered env req gs" and called: "submitted_by env req (gs_registrar gs) (gs_registrar gs')" by auto
  from covered obtain quote where q: "fst (mock_getRenewalQuote e (hr_domain req) (RegDomains s)) = Inr quote"
    "\<not> nlt (nmin (nceil (nmul (to_fixed 2 (nmul (nor (rq_price_usd quote) (Fin 0)) (jint n))) (Fin 10))) (credits_of r))
      (nceil (nmul (to_fixed 2 (nmul (nor (rq_price_usd quote) (Fin 0)) (jint n))) (Fin 10)))"
    using assms(5,7,8) by (auto simp: renewal_covered_def assms(1,4) mock_simps mock_get find_domain_def Let_def max_def)
  have quoted: "rq_price_usd quote = jint ?p" if "fst (mock_getRenewalQuote e d (RegDomains s)) = Inr quote" "normalizeDomain d = ?k" for d quote
    using that assms(5) by (auto simp: mock_getRenewalQuote_def mock_getDomain_def find_domain_def result_simps)
  have c: "credits_of r = Fin c" by (simp add: credits_of_def assms(6))
  from q(2) have enough: "of_int (10 * ?p * n) \<le> c"
    using to_fixed_int [of "?p * n"] by (simp add: quoted [OF q(1)] c nceil_def ac_simps)
  have fd: "find_domain s ?k = r" by (simp add: find_domain_def assms(5))
  from called obtain x cr where
    "mock_renew (quote_charge (Some \<lparr>py_use_credits = True, py_credits_amount = cr, py_payment_method = ''credits''\<rparr>)) e
      (hr_domain req) (jint n) (RegDomains s) = (Inr x, gs_registrar gs')" and x: "rn_submitted x"
    using same assms(7,8) by (auto simp: submitted_by_def Let_def assms(1) mock_simps max_def)
  from this(1) charges_ok(1) show ?thesis
  proof (cases rule: mock_renew_cases)
    case 1
    with x show ?thesis by simp
  next
    case (2 q store c' f2 r')
    from 2(3) have store: "store = s" by simp
    from 2(5) obtain quote where "fst (mock_getRenewalQuote e ?k (RegDomains s)) = Inr quote"
      and c': "c' = nmin (credits_of r) (nceil (nmul (rq_price_usd quote) (Fin 10)))"
      by (auto simp: quote_charge_def split_def Let_def store fd result_simps)
    from this(1) assms(9) have "rq_price_usd quote = jint ?p" by (rule quoted)
    then have "c' = Fin (min c (of_int (10 * ?p)))" using c' by (simp add: c nceil_def)
    moreover have one: "of_int (10 * ?p) \<le> c"
    proof -
      have "of_int (10 * ?p) \<le> (of_int (10 * ?p * n) :: rat)" using price assms(8) by (simp only: of_int_le_iff) simp
      with enough show ?thesis by linarith
    qed
    ultimately have "c' = Fin (of_int (10 * ?p))" by (simp add: min_def)
    with 2(6) one have "rd_credits_balance r' = Some (Fin (c - of_int (10 * ?p)))"
      by (auto simp: renewed_record_def store fd c result_simps) 
    moreover have "gs_registrar gs' = RegDomains (s(?k \<mapsto> r'))"
      using 2(7) assms(5) by (simp add: store set_domain_def)
    ultimately show ?thesis using enough by blast
  qed
qed


lemma toy_fields [simp]:
  "rt_adapter (se_runtime toy_server) = createMockRegistrar toy_reg" "gs_registrar toy_state = RegDomains [''a.com'' \<mapsto> toy_record]"
  "hr_domain toy_request = ''A.com.''" "body_years toy_server toy_request = jint 1"
  by (simp_all add: toy_server_def toy_runtime_def toy_state_def toy_request_def body_years_def jprop_def Let_def)

lemma toy_renewed: "\<exists>body gs'. renew_with_credits toy_server toy_request toy_state = (Inr (200, body), gs') \<and>
    says_submitted (Inr (200, body))"
  by (simp add: renew_with_credits_def andthen_def getRenewalQuote_def getDomain_def renewDomain_def mock_simps
      mock_getRenewalQuote_def mock_getDomain_def toy_names find_domain_def mock_price_def toy_record_def toy_reg_def
      mock_renew_def quote_charge_def renewed_record_def credits_of_def at_day_def nceil_def to_fixed_def nor_def sgn_if
      says_submitted_def jprop_def renewal_json_def Let_def nmin_def nmax_def)


lemma registrar_renew_changes_witness:
  "same_others (registrar_of toy_server) (hr_domain toy_request) (gs_registrar toy_state)
     (gs_registrar (snd (registrar_renew_handler toy_server toy_request toy_state)))"
  using registrar_renew_changes [OF toy_provided prod.collapse [symmetric]] by blast

lemma renew_years_undercharged_witness:
  "\<exists>reply gs' r'. renew_with_credits toy_server toy_request toy_state = (reply, gs') \<and>
     gs_registrar gs' = RegDomains [''a.com'' \<mapsto> r'] \<and> rd_credits_balance r' = Some (Fin 390)"
proof -
  obtain body gs' where r: "renew_with_credits toy_server toy_request toy_state = (Inr (200, body), gs')"
    "says_submitted (Inr (200, body))"
    using toy_renewed by blast
  have "of_int (10 * mock_price toy_record * 1) \<le> (500 :: rat) \<and>
    (\<exists>r'. gs_registrar gs' = RegDomains ([''a.com'' \<mapsto> toy_record](normalizeDomain (hr_domain toy_request) \<mapsto> r')) \<and>
      rd_credits_balance r' = Some (Fin (500 - of_int (10 * mock_price toy_record))))"
    by (rule renew_years_undercharged [OF toy_fields(1) r toy_fields(2) _ _ toy_fields(4)])
      (simp_all add: toy_names toy_record_def)
  with r(1) show ?thesis by (auto simp: toy_names mock_price_def toy_record_def)
qed

subsection \<open>What a page can contain\<close>

definition markup :: "char \<Rightarrow> bool" where
  "markup c \<longleftrightarrow> c \<in> {CHR ''<'', CHR ''>'', CHR 0x22, CHR 0x27}"

lemma replace_char_set: "set (replace_char c r s) \<subseteq> (set s - {c}) \<union> set r"
  by (auto simp: replace_char_def split: if_splits)

lemma escapeHtml_plain: "filter markup (escapeHtml v) = []"
proof -
  have "x \<notin> {CHR ''<'', CHR ''>'', CHR 0x22, CHR 0x27}" if x: "x \<in> set (escapeHtml v)" for x
  proof -
    let ?a = "replace_char (CHR ''&'') ''&amp;'' v" and ?n = "{CHR ''<'', CHR ''>'', CHR 0x22, CHR 0x27}"
    let ?b = "replace_char (CHR ''<'') ''&lt;'' ?a"
    let ?c = "replace_char (CHR ''>'') ''&gt;'' ?b"
    let ?d = "replace_char (CHR 0x22) ''&quot;'' ?c"
    have "set ?b \<inter> ?n \<subseteq> ?n - {CHR ''<''}" using replace_char_set [of "CHR ''<''" "''&lt;''" ?a] by auto
    then have "set ?c \<inter> ?n \<subseteq> ?n - {CHR ''<'', CHR ''>''}" using replace_char_set [of "CHR ''>''" "''&gt;''" ?b] by auto
    then have "set ?d \<inter> ?n \<subseteq> {CHR 0x27}" using replace_char_set [of "CHR 0x22" "''&quot;''" ?c] by auto
    then have "set (replace_char (CHR 0x27) ''&#39;'' ?d) \<inter> ?n = {}" using replace_char_set [of "CHR 0x27" "''&#39;''" ?d] by auto
    with x show ?thesis by (auto simp: escapeHtml_def)
  qed
  then show ?thesis by (auto simp: filter_empty_conv markup_def)
qed

lemma placeholder_split:
  assumes "placeholder s = Some (name, rest)"
  shows "s = ''{{'' @ name @ ''}}'' @ rest" "list_all word_char name"
proof -
  let ?t = "drop 2 s"
  from assms have st: "take 2 s = ''{{''" "name = takeWhile word_char ?t" "take 2 (dropWhile word_char ?t) = ''}}''"
      "rest = drop 2 (dropWhile word_char ?t)"
    by (auto simp: placeholder_def starts_with_def Let_def numeral_2_eq_2 split: if_splits)
  have "s = take 2 s @ takeWhile word_char ?t @ take 2 (dropWhile word_char ?t) @ drop 2 (dropWhile word_char ?t)" by simp
  then show "s = ''{{'' @ name @ ''}}'' @ rest" using st by metis
  show "list_all word_char name" using st(2) by (auto simp: list_all_iff dest: set_takeWhileD)
qed

lemma word_char_plain: "word_char c \<Longrightarrow> \<not> markup c"
  by (auto simp: word_char_def markup_def Let_def)

lemma render_plain: "renderHtmlTemplate template vars = Inr html \<Longrightarrow> filter markup html = filter markup template"
proof (induction template vars arbitrary: html rule: renderHtmlTemplate.induct)
  case (2 c s vars)
  show ?case
  proof (cases "placeholder (c # s)")
    case None
    with 2 show ?thesis by (auto simp: result_simps)
  next
    case (Some p)
    obtain name rest where p: "placeholder (c # s) = Some (name, rest)" using Some by (cases p) auto
    with 2(3) obtain v r where v: "page_var vars name = Inr v" "renderHtmlTemplate rest vars = Inr r" "html = escapeHtml v @ r"
      by (auto simp: result_simps)
    have "filter markup (c # s) = filter markup rest"
    proof -
      have "filter markup name = []" using placeholder_split(2) [OF p] by (auto simp: filter_empty_conv list_all_iff dest: word_char_plain)
      then show ?thesis unfolding placeholder_split(1) [OF p] by (simp add: markup_def)
    qed
    with 2(2) [OF p refl v(1,2)] v show ?thesis by (simp add: escapeHtml_plain)
  qed
qed simp

text \<open>No value put into the page shown for a domain (its name, the host header of the request, the token, a message) can
  add markup to it: the angle brackets and quotes of the page are those of the template, in their order.\<close>

theorem page_markup_of_template:
  assumes "banner_page pg status banner token = Inr html"
  shows "filter markup html = filter markup
    (either (if useInterstitial (pg_mode pg) (cs_phase status) then pg_interstitial pg else pg_banner pg) fallbackTemplate)"
  using assms unfolding banner_page_def Let_def by (rule render_plain)


definition toy_page :: page_request where
  "toy_page = \<lparr>pg_nonce = ''n'', pg_format = [], pg_mode = ''banner'', pg_protocol = ''http'', pg_host = ''<b>'',
     pg_interstitial = None, pg_banner = Some ''<p>{{verify_url}}</p>''\<rparr>"

definition toy_flagged :: FlaggedStatus where
  "toy_flagged = \<lparr>cs_domain = ''a.com'', cs_eligible = True, cs_phase = HOLD_BANNER, cs_reason_codes = [], cs_next_steps = [],
     cs_hold_banner_active = True, cs_credits_balance = Fin 0, cs_credits_applied_estimate = 0, cs_estimated_renewal_cost = Fin 0,
     cs_renewal_covered_by_credits = False, cs_renewal_due_date = ''d'', cs_grace_expires_at = ''g'', fs_uses_ddns_ns = True,
     fs_eligible_for_hold = True, fs_eligible_for_subsidy = True, fs_treasury_renewal_allowed = None\<rparr>"

definition toy_banner :: BannerState where
  "toy_banner = \<lparr>bn_renewalDue = True, bn_grace_seconds_remaining = 0, bn_grace_countdown = ''0d'', bn_acked_at = None\<rparr>"

lemma page_markup_of_template_witness:
  "banner_page toy_page toy_flagged toy_banner ''t'' = Inr ''<p>http://&lt;b&gt;/v1/domain/notice/verify</p>'' \<and>
   filter markup ''<p>http://&lt;b&gt;/v1/domain/notice/verify</p>'' = ''<><>''"
proof
  show page: "banner_page toy_page toy_flagged toy_banner ''t'' = Inr ''<p>http://&lt;b&gt;/v1/domain/notice/verify</p>''"
    by (simp add: banner_page_def toy_page_def toy_flagged_def useInterstitial_def either_def lower_def lower_char_def Let_def
      placeholder_def word_char_def starts_with_def page_var_def escapeHtml_def replace_char_def)
  have "filter markup ''<p>{{verify_url}}</p>'' = ''<><>''" by (simp add: markup_def)
  with page_markup_of_template [OF page] show "filter markup ''<p>http://&lt;b&gt;/v1/domain/notice/verify</p>'' = ''<><>''"
    by (simp add: toy_page_def toy_flagged_def useInterstitial_def either_def Let_def lower_def lower_char_def)
qed


subsection \<open>What a renewal costs in the ledger\<close>

abbreviation led :: "GatewayState \<Rightarrow> CreditsLedgerStore" where
  "led gs \<equiv> fst (ensureStore (gs_ledger gs))"

lemma led_frames [simp]:
  "led (snd (balance_of d gs)) = led gs" "led (snd (subsidy d gs)) = led gs" "gs_ledger (auditEvent req e dec ref gs) = gs_ledger gs"
  "gs_ledger (snd (getDomain env d gs)) = gs_ledger gs" "gs_ledger (snd (getRenewalQuote env d gs)) = gs_ledger gs"
  "gs_ledger (snd (renewDomain env d y p gs)) = gs_ledger gs" "gs_ledger (snd (stored_status d gs)) = gs_ledger gs"
  "gs_ledger (snd (upsert d u gs)) = gs_ledger gs" "gs_ledger (snd (enforceRateLimit env req l gs)) = gs_ledger gs"
  by (simp_all add: subsidy_eq balance_of_def split_def Let_def get_snd auditEvent_def getDomain_def getRenewalQuote_def
      renewDomain_def stored_status_def upsert_def enforceRateLimit_def)

lemma led_fst:
  "getDomain env d gs = (r, gs') \<Longrightarrow> led gs' = led gs" "getRenewalQuote env d gs = (q, gs') \<Longrightarrow> led gs' = led gs"
  "renewDomain env d y p gs = (x, gs') \<Longrightarrow> led gs' = led gs" "stored_status d gs = (s, gs') \<Longrightarrow> led gs' = led gs"
  "upsert d u gs = (t, gs') \<Longrightarrow> led gs' = led gs"
  by (metis led_frames(4-8) snd_conv)+

lemma led_sources: "continuityStatusFromSources env d opts gs = (r, gs') \<Longrightarrow> led gs' = led gs"
  by (auto simp: continuityStatusFromSources_def split_def Let_def elim!: andthen_cases dest!: led_fst)

lemma ledger_bal_led: "ledger_usable d \<Longrightarrow> led gs = led gs' \<Longrightarrow> ledger_bal (gs_ledger gs) d = ledger_bal (gs_ledger gs') d"
  by (simp add: ledger_bal_read)

lemma balance_of_bal:
  assumes "ledger_ok (gs_ledger gs)" "ledger_usable d"
  shows "fst (balance_of d gs) = Fin (ledger_bal (gs_ledger gs) d)" "0 \<le> ledger_bal (gs_ledger gs) d"
  using assms ledger_ok_read [of "gs_ledger gs" "normalizeKey d"]
  by (auto simp: ledger_bal_read ledger_usable_def balance_of_def split_def Let_def ledger_getBalance_def)

lemma ledger_debit_effect:
  assumes "ledger_debit d (Fin c) r t f = (x, f')" "ledger_ok f" "ledger_usable d"
  shows "x = Inl e \<Longrightarrow> fst (ensureStore f') = fst (ensureStore f)"
    "x = Inr y \<Longrightarrow> ledger_usable j \<Longrightarrow>
       ledger_bal f' j = (if normalizeKey j = normalizeKey d then ledger_bal f j - c else ledger_bal f j)"
proof -
  obtain q where q: "read_balance (ls_balances (fst (ensureStore f))) (normalizeKey d) = Fin q"
    using ledger_ok_read [OF assms(2)] assms(3) by (auto simp: ledger_usable_def)
  show "x = Inl e \<Longrightarrow> fst (ensureStore f') = fst (ensureStore f)"
    using assms(1) by (auto simp: ledger_debit_def split_def Let_def split: if_splits)
  show "ledger_bal f' j = (if normalizeKey j = normalizeKey d then ledger_bal f j - c else ledger_bal f j)"
    if "x = Inr y" "ledger_usable j"
    using assms(1,3) that q
    by (auto simp: ledger_debit_def split_def Let_def ledger_bal_read ledger_usable_def read_set_balance split: if_splits)
qed

text \<open>The debit at the end of a renewal takes the credits promised, or none.\<close>

lemma apply_credits_effect:
  assumes "apply_credits env d sub (Fin c) gs = ((x, failed), gs')" "ledger_ok (gs_ledger gs)" "ledger_usable d" "0 \<le> c"
  obtains q where "x = Fin q" "q = 0 \<or> q = c" "\<not> sub \<Longrightarrow> q = 0"
    "\<And>j. ledger_usable j \<Longrightarrow> ledger_bal (gs_ledger gs') j =
      (if normalizeKey j = normalizeKey d then ledger_bal (gs_ledger gs) j - q else ledger_bal (gs_ledger gs) j)"
proof (cases "sub \<and> 0 < c")
  case False
  with assms(1) show ?thesis by (intro that [of 0]) (auto simp: apply_credits_def)
next
  case True
  show ?thesis
  proof (cases "now_iso (se_dom env) 0")
    case (Inl e)
    with assms(1) True show ?thesis by (intro that [of 0]) (auto simp: apply_credits_def)
  next
    case (Inr ts)
    obtain r f where d: "ledger_debit d (Fin c) ''renewal_subsidy'' ts (gs_ledger gs) = (r, f)" by force
    show ?thesis
    proof (cases r)
      case (Inl e)
      with assms(1) True Inr d have "x = Fin 0" "gs_ledger gs' = f"
        by (auto simp: apply_credits_def \<open>now_iso (se_dom env) 0 = Inr ts\<close>)
      with ledger_debit_effect(1) [OF d assms(2,3) Inl] show ?thesis
        by (intro that [of 0]) (auto simp: ledger_bal_read)
    next
      case (Inr y)
      with assms(1) True d have "x = Fin c" "gs_ledger gs' = f"
        by (auto simp: apply_credits_def \<open>now_iso (se_dom env) 0 = Inr ts\<close>)
      with ledger_debit_effect(2) [OF d assms(2,3) Inr] True show ?thesis by (intro that [of c]) auto
    qed
  qed
qed


text \<open>What a reply of the route says.\<close>

definition reports :: "json \<Rightarrow> bool \<Rightarrow> rat \<Rightarrow> rat \<Rightarrow> bool" where
  "reports body accepted applied left \<longleftrightarrow> jprop body ''accepted'' = Some (JBool accepted) \<and>
     jprop body ''credits_applied_estimate'' = Some (JNum (Fin applied)) \<and> jprop body ''credits_balance'' = Some (JNum (Fin left))"

lemma reports_reply [simp]: "reports (renew_reply env st acc msg rs (Fin x) (Fin b)) acc x b"
  by (simp add: reports_def renew_reply_def jprop_def)

lemma blocked_ledger:
  assumes "treasury_blocked env req gs = (Inr (c, body), gs')" "ledger_ok (gs_ledger gs)" "ledger_usable (hr_domain req)"
  shows "led gs' = led gs \<and> reports body False 0 (ledger_bal (gs_ledger gs) (hr_domain req))"
proof -
  let ?d = "hr_domain req"
  from assms(1) obtain o' st g2 where st: "continuityStatusFromSources env ?d o' (snd (balance_of ?d gs)) = (Inr st, g2)"
    and g: "gs' = snd (balance_of ?d (auditEvent req ''/v1/domain/renew'' Blocked None g2))"
      "body = renew_reply env st False ''blocked_by_treasury_policy'' [''TREASURY_POLICY_BLOCKED''] (Fin 0)
        (fst (balance_of ?d (auditEvent req ''/v1/domain/renew'' Blocked None g2)))"
    by (auto simp: treasury_blocked_def split_def Let_def andthen_eq_Inr)
  have led: "led g2 = led gs" using led_sources [OF st] by simp
  then have "ledger_ok (gs_ledger g2)" "ledger_bal (gs_ledger g2) ?d = ledger_bal (gs_ledger gs) ?d"
    using assms(2,3) by (simp_all add: ledger_ok_def ledger_bal_read)
  with g led balance_of_bal(1) [of "auditEvent req ''/v1/domain/renew'' Blocked None g2" ?d] assms(3) show ?thesis by simp
qed

lemma apply_credits_ok: "ledger_ok (gs_ledger gs) \<Longrightarrow> ledger_ok (gs_ledger (snd (apply_credits env d sub c gs)))"
  using ledger_moves(2) [of "gs_ledger gs"]
  by (auto simp: apply_credits_def dest!: arg_cong [where f = snd] split: sum.splits prod.splits)

lemma settle_ledger:
  assumes "settle_renewal env req (Fin c) renewal gs = (Inr (code, body), gs')" "ledger_ok (gs_ledger gs)"
    "ledger_usable (hr_domain req)" "0 \<le> c" "c \<le> ledger_bal (gs_ledger gs) (hr_domain req)"
  obtains x where "x = 0 \<or> x = c" "\<not> rn_submitted renewal \<Longrightarrow> x = 0"
    "reports body (rn_submitted renewal) x (ledger_bal (gs_ledger gs) (hr_domain req) - x)"
    "\<And>j. ledger_usable j \<Longrightarrow> ledger_bal (gs_ledger gs') j =
      (if normalizeKey j = normalizeKey (hr_domain req) then ledger_bal (gs_ledger gs) j - x else ledger_bal (gs_ledger gs) j)"
proof -
  let ?d = "hr_domain req"
  obtain v failed gs1 where ap: "apply_credits env ?d (rn_submitted renewal) (Fin c) gs = ((v, failed), gs1)"
    by (metis prod.collapse)
  obtain x where x: "v = Fin x" "x = 0 \<or> x = c" "\<not> rn_submitted renewal \<Longrightarrow> x = 0"
    "\<And>j. ledger_usable j \<Longrightarrow> ledger_bal (gs_ledger gs1) j =
      (if normalizeKey j = normalizeKey ?d then ledger_bal (gs_ledger gs) j - x else ledger_bal (gs_ledger gs) j)"
    using apply_credits_effect [OF ap assms(2-4)] by metis
  have ok1: "ledger_ok (gs_ledger gs1)" using apply_credits_ok [OF assms(2)] ap by (metis snd_conv)
  from assms(1) obtain existing gs2 r gs3 o' st gs5 u y gs6 msg rs where
    "stored_status ?d gs1 = (Inr existing, gs2)" "getDomain env ?d gs2 = (Inr r, gs3)"
    "continuityStatusFromSources env ?d o' (snd (subsidy ?d gs3)) = (Inr st, gs5)" "upsert ?d u gs5 = (Inr y, gs6)"
    and fin: "gs_ledger gs' = gs_ledger gs6"
      "body = renew_reply env st (rn_submitted renewal) msg rs (if rn_submitted renewal then v else Fin 0)
        (fst (balance_of ?d gs3))"
    unfolding settle_renewal_def Let_def ap prod.case by (auto simp: split_def andthen_eq_Inr subsidy_eq)
  then have l3: "led gs3 = led gs1" and l: "led gs' = led gs1" using led_fst led_sources by (metis led_frames(2))+
  have "fst (balance_of ?d gs3) = Fin (ledger_bal (gs_ledger gs) ?d - x)"
    using balance_of_bal(1) [of gs3 ?d] ok1 l3 assms(3) x(4) [OF assms(3)] ledger_bal_led [OF assms(3) l3]
    by (simp add: ledger_ok_def)
  moreover have "(if rn_submitted renewal then v else Fin 0) = Fin x" using x by auto
  ultimately have "reports body (rn_submitted renewal) x (ledger_bal (gs_ledger gs) ?d - x)"
    unfolding fin(2) by simp
  moreover have "ledger_bal (gs_ledger gs') j = ledger_bal (gs_ledger gs1) j" if "ledger_usable j" for j
    using ledger_bal_led [OF that l] .
  ultimately show ?thesis using x(2-4) by (intro that [of x]) auto
qed

text \<open>C5: a renewal answered with 200 costs the account of the domain exactly the credits that the reply says were
  applied, which are none if the reply says that it was not accepted, and else none or the smaller of the balance and the
  110 credits a renewal is taken to cost; the balance in the reply is the one the ledger has afterwards, and no other
  account changes.\<close>

theorem renewal_ledger:
  assumes "domain_renew_handler env req gs = (Inr (200, body), gs')" "ledger_ok (gs_ledger gs)" "ledger_usable (hr_domain req)"
  shows "\<exists>accepted x. reports body accepted x (ledger_bal (gs_ledger gs') (hr_domain req)) \<and> (\<not> accepted \<longrightarrow> x = 0) \<and>
    (x = 0 \<or> x = min 110 (ledger_bal (gs_ledger gs) (hr_domain req))) \<and>
    (\<forall>j. ledger_usable j \<longrightarrow> ledger_bal (gs_ledger gs') j =
      (if normalizeKey j = normalizeKey (hr_domain req) then ledger_bal (gs_ledger gs) j - x else ledger_bal (gs_ledger gs) j))"
proof -
  let ?d = "hr_domain req"
  note bal = balance_of_bal [OF _ assms(3)]
  from assms(1)[unfolded domain_renew_handler_def] show ?thesis
  proof (cases rule: guarded_cases)
    case refused
    then show ?thesis by blast
  next
    case (handled gs1)
    let ?handled = "treasury_blocked env req gs1 = (Inr (200, body), gs')"
    have g1: "gs_ledger gs1 = gs_ledger gs" using handled(3) by (simp add: only_registrar_def)
    have ok1: "ledger_ok (gs_ledger gs1)" using assms(2) g1 by simp
    show ?thesis
    proof (cases ?handled)
      case True
      from blocked_ledger [OF True ok1 assms(3)] g1 show ?thesis by (intro exI [of _ False] exI [of _ 0]) (simp add: ledger_bal_read assms(3))
    next
      case False
      let ?b = "ledger_bal (gs_ledger gs) ?d"
      let ?c = "if uses_credits req then min 110 ?b else 0"
      have cover: "sub_covered_amount (fst (subsidy ?d gs1)) = Fin (min 110 ?b)"
        using bal(1) [OF ok1] g1 by (simp add: subsidy_eq)
      from handled(1) False obtain renewal gs3 y p where
        "renewDomain env ?d y p (snd (subsidy ?d gs1)) = (Inr renewal, gs3)"
        and settle: "settle_renewal env req (Fin ?c) renewal gs3 = (Inr (200, body), gs')"
        by (auto simp: Let_def split_def andthen_eq_Inr cover split: if_splits)
      then have l3: "led gs3 = led gs" using led_fst(3) g1 by (metis led_frames(2))
      then have ok3: "ledger_ok (gs_ledger gs3)" "\<And>j. ledger_usable j \<Longrightarrow> ledger_bal (gs_ledger gs3) j = ledger_bal (gs_ledger gs) j"
        using assms(2) by (auto simp: ledger_ok_def ledger_bal_read)
      have "0 \<le> ?c" "?c \<le> ledger_bal (gs_ledger gs3) ?d" using bal(2) [OF assms(2)] ok3(2) [OF assms(3)] by auto
      from settle_ledger [OF settle ok3(1) assms(3) this] obtain x where x: "x = 0 \<or> x = ?c" "\<not> rn_submitted renewal \<Longrightarrow> x = 0"
        "reports body (rn_submitted renewal) x (ledger_bal (gs_ledger gs3) ?d - x)"
        "\<And>j. ledger_usable j \<Longrightarrow> ledger_bal (gs_ledger gs') j =
          (if normalizeKey j = normalizeKey ?d then ledger_bal (gs_ledger gs3) j - x else ledger_bal (gs_ledger gs3) j)"
        by metis
      have "x = 0 \<or> x = min 110 ?b" using x(1) by (auto split: if_splits)
      with x ok3(2) assms(3) show ?thesis
        by (intro exI [of _ "rn_submitted renewal"] exI [of _ x]) auto
    qed
  qed
qed


definition toy_renewal :: http_request where
  "toy_renewal = toy_request\<lparr>hr_domain := ''a.com''\<rparr>"

lemma apply_frame:
  "apply_credits env d sub c gs = (r, gs1) \<Longrightarrow> gs_registrar gs1 = gs_registrar gs \<and> gs_status gs1 = gs_status gs"
  by (auto simp: apply_credits_def split: if_splits sum.splits prod.splits)

lemma toy_settle:
  assumes "gs_registrar gs = RegDomains m" "gs_status gs = StDomains Map.empty" "rd_ns (find_domain m ''a.com'') = Some ns"
  shows "\<exists>body gs'. settle_renewal toy_server toy_renewal c r gs = (Inr (200, body), gs')"
proof -
  let ?d = "''a.com''"
  obtain v failed gs1 where ap: "apply_credits toy_server ?d (rn_submitted r) c gs = ((v, failed), gs1)" by (metis prod.collapse)
  then have g1: "gs_registrar gs1 = RegDomains m" "gs_status gs1 = StDomains Map.empty" using apply_frame assms(1,2) by metis+
  have st: "stored_status ?d gs1 = (Inr None, gs1)"
    using g1(2) by (simp add: stored_status_def status_get_def loadStore_def stored_def inherited_key_def toy_names)
  let ?o = "source_options None (find_domain m ?d) (uses_ddns ns) False (Some (fst (balance_of ?d gs1))) (Some (Fin 110))"
  let ?g4 = "snd (balance_of ?d gs1)"
  have src: "\<exists>s. continuityStatusFromSources toy_server ?d ?o ?g4 = (Inr s, snd (balance_of ?d ?g4))"
    using toy_sources [of ?g4 m] g1(1) by (simp add: balance_frame)
  then obtain s where s: "continuityStatusFromSources toy_server ?d ?o ?g4 = (Inr s, snd (balance_of ?d ?g4))" by blast
  have up: "\<exists>y g. upsert ?d (\<lambda>current. rmap (\<lambda>now. (with_current ?d current)\<lparr>ss_status := Some s, ss_last_updated_at := Some now\<rparr>)
      (now_iso toy_dom 0)) (snd (balance_of ?d ?g4)) = (Inr y, g)"
    by (simp add: upsert_def status_upsert_def balance_frame g1 loadStore_def toy_names now_iso_def toy_dom_def toy_reg_def Let_def)
  have ns: "ns_status_of None (find_domain m ?d) = Inr (uses_ddns ns)" by (simp add: ns_status_of_def stored_input_def assms(3))
  show ?thesis
    using up unfolding settle_renewal_def Let_def
    by (auto simp: toy_renewal_def ap st toy_get g1(1) toy_names andthen_def ns subsidy_eq claimed_def s)
qed

lemma toy_renew:
  assumes "gs_registrar gs = RegDomains [''a.com'' \<mapsto> toy_record]"
  shows "\<exists>r m ns. renewDomain toy_server ''a.com'' (Fin 1) p gs = (Inr r, gs\<lparr>gs_registrar := RegDomains m\<rparr>) \<and>
    rd_ns (find_domain m ''a.com'') = Some ns"
proof -
  obtain c where c: "quote_charge p toy_reg ''a.com'' toy_record (RegDomains [''a.com'' \<mapsto> toy_record]) =
      (Inr c, RegDomains [''a.com'' \<mapsto> toy_record])"
    by (simp add: quote_charge_def mock_getRenewalQuote_def mock_getDomain_def toy_names find_domain_def toy_reg_def rmap_def)
  have st: "rd_status toy_record = Some RActive" by (simp add: toy_record_def)
  obtain r' where "renewed_record toy_reg toy_record (Fin 1) c = Inr r'" "rd_ns r' = Some [''ns1.tolldns.io'']"
    by (simp add: renewed_record_def at_day_def toy_reg_def toy_record_def)
  then show ?thesis
    by (intro exI [of _ "\<lparr>rn_submitted = True, rn_provider_ref = ''mock-renew-7'', rn_errors = []\<rparr>"] exI [of _ "[''a.com'' \<mapsto> r']"]
        exI [of _ "[''ns1.tolldns.io'']"])
      (simp add: renewDomain_def assms mock_simps mock_renew_def toy_names find_domain_def set_domain_def c st Let_def,
        simp add: toy_reg_def)
qed

lemma toy_renewal_done: "\<exists>body gs'. domain_renew_handler toy_server toy_renewal toy_state = (Inr (200, body), gs')"
proof -
  let ?g1 = "snd (enforceRateLimit toy_server toy_renewal ''domain_renew'' toy_state)" and ?d = "''a.com''"
  have d: "hr_domain toy_renewal = ?d" "uses_credits toy_renewal" "body_years toy_server toy_renewal = Fin 1"
    by (simp_all add: toy_renewal_def uses_credits_def toy_request_def jprop_def body_years_def toy_server_def)
  have limit: "\<not> fst (enforceRateLimit toy_server toy_renewal ''domain_renew'' toy_state)"
    by (simp add: enforceRateLimit_def bucket_step_def toy_state_def split_def Let_def)
  have g: "gs_registrar (snd (subsidy ?d ?g1)) = RegDomains [?d \<mapsto> toy_record]" "gs_status (snd (subsidy ?d ?g1)) = StDomains Map.empty"
    by (simp_all add: subsidy_eq balance_frame limit_frame) (simp add: enforceRateLimit_def split_def Let_def toy_state_def)
  let ?c = "sub_covered_amount (fst (subsidy ?d ?g1))"
  obtain r m ns where r: "renewDomain toy_server ?d (Fin 1) (Some (renewal_payment True ?c)) (snd (subsidy ?d ?g1)) =
      (Inr r, (snd (subsidy ?d ?g1))\<lparr>gs_registrar := RegDomains m\<rparr>)" "rd_ns (find_domain m ?d) = Some ns"
    using toy_renew [OF g(1)] by metis
  obtain body gs' where "settle_renewal toy_server toy_renewal ?c r ((snd (subsidy ?d ?g1))\<lparr>gs_registrar := RegDomains m\<rparr>) = (Inr (200, body), gs')"
    using toy_settle [of "(snd (subsidy ?d ?g1))\<lparr>gs_registrar := RegDomains m\<rparr>" m ns ?c r] g(2) r(2) by auto
  then show ?thesis
    using limit r(1) by (simp add: domain_renew_handler_def guarded_def split_def Let_def d toy_worker andthen_def)
qed

lemma renewal_ledger_witness:
  "\<exists>body gs' accepted x. domain_renew_handler toy_server toy_renewal toy_state = (Inr (200, body), gs') \<and>
     reports body accepted x (ledger_bal (gs_ledger gs') ''a.com'') \<and> ledger_bal (gs_ledger gs') ''a.com'' = 150 - x \<and> (x = 0 \<or> x = 110)"
proof -
  obtain body gs' where r: "domain_renew_handler toy_server toy_renewal toy_state = (Inr (200, body), gs')"
    using toy_renewal_done by blast
  have d: "hr_domain toy_renewal = ''a.com''" by (simp add: toy_renewal_def)
  have u: "ledger_usable ''a.com''" by (simp add: ledger_usable_def toy_names inherited_key_def)
  have b: "ledger_bal (gs_ledger toy_state) ''a.com'' = 150"
    by (simp add: ledger_bal_read [OF u] toy_names toy_state_def ensureStore_def read_balance_def)
  have "ledger_ok (gs_ledger toy_state)" using toy_state_ok by (simp add: gateway_ok_def)
  from renewal_ledger [OF r this, unfolded d, OF u] b u show ?thesis using r by (auto simp: d)
qed

end
