(* ===== verification/CacheLog.thy ===== *)
theory CacheLog
  imports RouteAnswers
begin

section \<open>The cache log of the gateway (gateway/src/cache\_log.ts)\<close>

text \<open>
  A gateway signs what it has observed of a name under a premium domain, appends the entry to a spool and posts it to the
  rollup service. \<open>lg\_sha\<close> is SHA-256, the signature scheme is that of the package \<open>@noble/ed25519\<close>; the clock
  is in milliseconds. The spool is the list of its entries.
\<close>

record CacheEntryV1 =
  ce_name_hash :: string
  ce_parent_name_hash :: string
  ce_rrset_hash :: string
  ce_ttl_s :: jsnum
  ce_confidence_bps :: jsnum
  ce_observed_bucket :: jsnum
  ce_witness_pubkey :: string
  ce_signature :: string

record CacheLoggerConfig =
  lc_enabled :: bool
  lc_parentExtractRule :: string
  lc_witnessPrivateKeyHex :: string

record CacheLogInput =
  li_name :: string
  li_rrsetHashHex :: string
  li_ttlS :: jsnum
  li_confidenceBps :: jsnum

record log_env =
  lg_ed :: ed25519
  lg_sha :: "bytes \<Rightarrow> bytes"
  lg_now :: int

definition cl_normalizeName :: "string \<Rightarrow> string" where
  "cl_normalizeName name = strip_dots (lower (trim name))"

definition hash_text :: "(bytes \<Rightarrow> bytes) \<Rightarrow> string \<Rightarrow> string" where
  "hash_text sha value = hex (sha (utf8_bytes value))"

definition strip0x :: "string \<Rightarrow> string" where
  "strip0x v = lower (if starts_with v ''0x'' then drop 2 v else v)"

definition clamp :: "jsnum \<Rightarrow> jsnum \<Rightarrow> jsnum \<Rightarrow> jsnum" where
  "clamp v lo hi = nmax lo (nmin hi v)"

text \<open>\<open>Buffer.from(s, "hex")\<close> stops at the first pair that is not hexadecimal.\<close>

fun buffer_hex :: "string \<Rightarrow> bytes" where
  "buffer_hex (a # b # r) =
     (if hex_value a \<noteq> None \<and> hex_value b \<noteq> None then u8 (parse_int16 [a, b]) @ buffer_hex r else [])"
| "buffer_hex _ = []"

text \<open>\<open>writeUIntLE\<close> refuses a number out of range; \<open>NaN\<close> is written as zero.\<close>

definition write_uint :: "nat \<Rightarrow> jsnum \<Rightarrow> bytes res" where
  "write_uint k v = (if nlt v (Fin 0) \<or> nlt (jint (256 ^ k - 1)) v then Inl RangeError else Inr (le_bytes k (to_uint (8 * k) v)))"

definition last_two :: "string list \<Rightarrow> string" where
  "last_two labels = join ''.'' (drop (length labels - 2) labels)"

definition extractPremiumParent :: "string \<Rightarrow> string \<Rightarrow> string option" where
  "extractPremiumParent name rule =
     (let n = cl_normalizeName name; labels = split_on (CHR ''.'') n in
      if \<not> ends_with n ''.dns'' then None
      else if rule = ''last2-dns'' then (if length labels < 3 then None else Some (last_two labels))
      else if rule = ''last2-any'' then (if length labels < 2 then None else Some (last_two labels))
      else if rule = ''full'' then Some n else None)"

text \<open>Answers are name, type and data; an empty name or type is replaced by the question's.\<close>

definition rrset_line :: "string \<Rightarrow> string \<Rightarrow> string \<times> string \<times> string \<Rightarrow> string" where
  "rrset_line qname qtype a = (case a of (name, type, data) \<Rightarrow>
     cl_normalizeName (if name = [] then qname else name) @ ''|'' @ upper (if type = [] then qtype else type) @ ''|'' @ trim data)"

definition computeRrsetHashFromAnswers :: "(bytes \<Rightarrow> bytes) \<Rightarrow> string \<Rightarrow> string \<Rightarrow> (string \<times> string \<times> string) list \<Rightarrow> string" where
  "computeRrsetHashFromAnswers sha qname qtype answers =
     (let norm = js_sort cmp_string (filter (\<lambda>x. \<not> ends_with x ''|'') (map (rrset_line qname qtype) answers))
      in hash_text sha (upper qtype @ ''|'' @ cl_normalizeName qname @ ''|'' @ join '','' norm))"

definition hashEntryForSignature ::
  "(bytes \<Rightarrow> bytes) \<Rightarrow> string \<Rightarrow> string \<Rightarrow> string \<Rightarrow> jsnum \<Rightarrow> jsnum \<Rightarrow> int \<Rightarrow> string \<Rightarrow> bytes res" where
  "hashEntryForSignature sha nameHash parentHash rrsetHash ttlS confidenceBps observedBucket witnessPub =
     rbind (write_uint 4 ttlS) (\<lambda>t. rbind (write_uint 2 confidenceBps) (\<lambda>c. rbind (write_uint 8 (jint observedBucket)) (\<lambda>b.
       Inr (sha (ascii ''DDNS_CACHE_ENTRY_V1'' @ [1] @ buffer_hex nameHash @ buffer_hex parentHash @ buffer_hex rrsetHash @
         t @ c @ b @ buffer_hex witnessPub)))))"

definition parsePrivKey :: "string \<Rightarrow> bytes option" where
  "parsePrivKey h = (let k = strip0x h in if length k \<noteq> 64 then None else Some (buffer_hex k))"

text \<open>An enabled logger is its key and the public key in hexadecimal; the package refuses a key that is not 32 bytes.\<close>

definition createCacheLogger :: "log_env \<Rightarrow> CacheLoggerConfig \<Rightarrow> (bytes \<times> string) option res" where
  "createCacheLogger env cfg =
     (if \<not> lc_enabled cfg then Inr None
      else (case parsePrivKey (lc_witnessPrivateKeyHex cfg) of
          None \<Rightarrow> Inr None
        | Some key \<Rightarrow> if length key \<noteq> 32 then throw ''invalid private key''
            else Inr (Some (key, hex (getPublicKey (lg_ed env) key)))))"

definition observed_bucket :: "int \<Rightarrow> int" where
  "observed_bucket now = now div (1000 * 600) * 600"

definition logged_entry :: "log_env \<Rightarrow> bytes \<Rightarrow> string \<Rightarrow> string \<Rightarrow> string \<Rightarrow> CacheLogInput \<Rightarrow> CacheEntryV1 res" where
  "logged_entry env key pub name parent input =
     (let nameHash = hash_text (lg_sha env) name; parentHash = hash_text (lg_sha env) parent;
          rrsetHash = strip0x (li_rrsetHashHex input); ttlS = nmax (Fin 1) (nfloor (li_ttlS input));
          confidenceBps = clamp (nfloor (li_confidenceBps input)) (Fin 0) (Fin 10000);
          observedBucket = observed_bucket (lg_now env) in
      rbind (hashEntryForSignature (lg_sha env) nameHash parentHash rrsetHash ttlS confidenceBps observedBucket pub) (\<lambda>digest.
      rbind (ed25519Sign (lg_ed env) key digest) (\<lambda>sig.
        Inr \<lparr>ce_name_hash = nameHash, ce_parent_name_hash = parentHash, ce_rrset_hash = rrsetHash, ce_ttl_s = ttlS,
          ce_confidence_bps = confidenceBps, ce_observed_bucket = jint observedBucket, ce_witness_pubkey = pub,
          ce_signature = hex sig\<rparr>)))"

definition logEntry :: "log_env \<Rightarrow> CacheLoggerConfig \<Rightarrow> bytes \<times> string \<Rightarrow> CacheLogInput \<Rightarrow> CacheEntryV1 list \<Rightarrow> unit res \<times> CacheEntryV1 list" where
  "logEntry env cfg signer input spool =
     (let normalizedName = cl_normalizeName (li_name input) in
      case extractPremiumParent normalizedName (lc_parentExtractRule cfg) of
        None \<Rightarrow> (Inr (), spool)
      | Some parent \<Rightarrow>
          if parent = [] \<or> length (strip0x (li_rrsetHashHex input)) \<noteq> 64 then (Inr (), spool)
          else (case logged_entry env (fst signer) (snd signer) normalizedName parent input of
              Inl e \<Rightarrow> (Inl e, spool)
            | Inr entry \<Rightarrow> (Inr (), spool @ [entry])))"

text \<open>What is posted: the entry as JSON.\<close>

definition log_entry_json :: "CacheEntryV1 \<Rightarrow> json" where
  "log_entry_json e = JObj [(''version'', JNum (Fin 1)), (''name_hash'', JStr (ce_name_hash e)),
     (''parent_name_hash'', JStr (ce_parent_name_hash e)), (''rrset_hash'', JStr (ce_rrset_hash e)), (''ttl_s'', JNum (ce_ttl_s e)),
     (''confidence_bps'', JNum (ce_confidence_bps e)), (''observed_bucket'', JNum (ce_observed_bucket e)),
     (''witness_pubkey'', JStr (ce_witness_pubkey e)), (''signature'', JStr (ce_signature e))]"


section \<open>Properties of the log\<close>

lemma buffer_hex_pairs: "list_all (\<lambda>c. hex_value c \<noteq> None) s \<Longrightarrow> buffer_hex s = hex_pairs s"
  by (induction s rule: buffer_hex.induct) auto

lemma buffer_hex_hex [simp]: "buffer_hex (hex bs) = bs"
  using hex_chars [of bs] by (simp add: buffer_hex_pairs hex_pairs_hex)

end
