(* ===== verification/CacheRollup.thy ===== *)
theory CacheRollup
  imports CacheLog
begin

section \<open>The rollup of cache entries (services/cache-rollup/src/index.ts)\<close>

text \<open>
  A service collects the entries of many gateways, one file per premium domain, and on demand orders the entries of a
  domain, hashes them into a Merkle root, publishes the document and writes the root to a Solana account; it can also award
  reputation to the witnesses. The directory is a map from file names (the hash of the domain) to the entries appended.
  Parameters: \<open>Number\<close> of a JSON value, the order of \<open>localeCompare\<close>, IPFS (an upload, or its failure), and
  the chain: the address of a program account and the result of sending a transaction with one instruction.
\<close>

record rollup_env =
  ru_sha :: "bytes \<Rightarrow> bytes"
  ru_number :: "json \<Rightarrow> jsnum"
  ru_numstr :: "rat \<Rightarrow> string"
  ru_locale :: "string \<Rightarrow> string \<Rightarrow> int"
  ru_ipfs :: "(string \<Rightarrow> json \<Rightarrow> string res) option"
  ru_now :: int

type_synonym entry_files = "string \<rightharpoonup> CacheEntryV1 list"

text \<open>\<open>String(v || "")\<close>, and a hexadecimal text of a given length, which is 64 or 128.\<close>

definition raw_text :: "rollup_env \<Rightarrow> json option \<Rightarrow> string" where
  "raw_text env v = (case v of Some x \<Rightarrow> if jtruthy v then js_to_string (ru_numstr env) x else [] | None \<Rightarrow> [])"

definition number_or :: "rollup_env \<Rightarrow> json option \<Rightarrow> jsnum \<Rightarrow> jsnum" where
  "number_or env v d = (case v of Some x \<Rightarrow> if jtruthy v then ru_number env x else d | None \<Rightarrow> d)"

definition lower_hex :: "char \<Rightarrow> bool" where
  "lower_hex c \<longleftrightarrow> hex_value c \<noteq> None \<and> lower_char c = c"

definition hexN :: "rollup_env \<Rightarrow> json option \<Rightarrow> nat \<Rightarrow> string res" where
  "hexN env v len =
     (let h = strip0x (raw_text env v) in
      if h = [] \<or> \<not> list_all lower_hex h \<or> length h \<noteq> len then throw (if len = 64 then ''invalid_hex_64'' else ''invalid_hex_128'') else Inr h)"

definition forbidden :: "string list" where
  "forbidden = [''ip'', ''client_ip'', ''ua'', ''user_agent'', ''mac'', ''wallet_pubkey'', ''client_id'', ''routing_metadata'']"

text \<open>\<open>b <= 0 || b % 600 !== 0\<close>, negated.\<close>

definition valid_bucket :: "jsnum \<Rightarrow> bool" where
  "valid_bucket b \<longleftrightarrow> (case b of Fin q \<Rightarrow> 0 < q \<and> of_int \<lfloor>q / 600\<rfloor> * 600 = q | _ \<Rightarrow> False)"

text \<open>\<open>Inr None\<close> is an entry that is left out; a field that is not hexadecimal raises an exception.\<close>

definition validateCacheEntry :: "rollup_env \<Rightarrow> json \<Rightarrow> CacheEntryV1 option res" where
  "validateCacheEntry env raw =
     (case raw of JObj kvs \<Rightarrow>
        if list_ex (\<lambda>k. k \<in> set forbidden) (map fst kvs) then Inr None
        else
          rbind (hexN env (jprop raw ''name_hash'') 64) (\<lambda>nameHash.
          rbind (hexN env (jprop raw ''parent_name_hash'') 64) (\<lambda>parentHash.
          rbind (hexN env (jprop raw ''rrset_hash'') 64) (\<lambda>rrsetHash.
          rbind (hexN env (jprop raw ''witness_pubkey'') 64) (\<lambda>witness.
          rbind (hexN env (jprop raw ''signature'') 128) (\<lambda>sig.
            let e = \<lparr>ce_name_hash = nameHash, ce_parent_name_hash = parentHash, ce_rrset_hash = rrsetHash,
                  ce_ttl_s = nmax (Fin 1) (number_or env (jprop raw ''ttl_s'') (Fin 0)),
                  ce_confidence_bps = clamp (number_or env (jprop raw ''confidence_bps'') (Fin 0)) (Fin 0) (Fin 10000),
                  ce_observed_bucket = number_or env (jprop raw ''observed_bucket'') (Fin 0),
                  ce_witness_pubkey = witness, ce_signature = sig\<rparr>
            in Inr (if valid_bucket (ce_observed_bucket e) then Some e else None))))))
      | JArr _ \<Rightarrow> throw ''invalid_hex_64''
      | _ \<Rightarrow> Inr None)"

subsection \<open>Ingestion\<close>

definition append_entry :: "CacheEntryV1 \<Rightarrow> entry_files \<Rightarrow> entry_files" where
  "append_entry e files = files(ce_parent_name_hash e \<mapsto> (case files (ce_parent_name_hash e) of None \<Rightarrow> [] | Some es \<Rightarrow> es) @ [e])"

text \<open>An exception is not caught: the request fails and nothing is written.\<close>

definition ingest_handler :: "rollup_env \<Rightarrow> json \<Rightarrow> entry_files \<Rightarrow> (int \<times> json) res \<times> entry_files" where
  "ingest_handler env body files =
     (let entries = (case jprop body ''entries'' of Some (JArr xs) \<Rightarrow> xs | _ \<Rightarrow> []) in
      if entries = [] then (Inr (400, JObj [(''ok'', JBool False), (''error'', JStr ''missing_entries'')]), files)
      else (case traverse (validateCacheEntry env) entries of
          Inl e \<Rightarrow> (Inl e, files)
        | Inr vs \<Rightarrow> (let accepted = map the (filter (\<lambda>v. v \<noteq> None) vs) in
            if accepted = [] then (Inr (400, JObj [(''ok'', JBool False), (''error'', JStr ''no_valid_entries'')]), files)
            else (Inr (200, JObj [(''ok'', JBool True), (''accepted'', JNum (jint (int (length accepted)))),
                (''parents'', JNum (jint (int (length (remdups (map ce_parent_name_hash accepted))))))]),
              fold append_entry accepted files))))"

subsection \<open>The root\<close>


definition hashEntry :: "rollup_env \<Rightarrow> CacheEntryV1 \<Rightarrow> bytes" where
  "hashEntry env e = ru_sha env (utf8_bytes (json_str (ru_numstr env) (log_entry_json e)))"

fun pair_up :: "(bytes \<Rightarrow> bytes) \<Rightarrow> bytes list \<Rightarrow> bytes list" where
  "pair_up sha (l # r # rest) = sha (l @ r) # pair_up sha rest"
| "pair_up sha [l] = [sha (l @ l)]"
| "pair_up sha [] = []"

lemma length_pair_up [simp]: "length (pair_up sha level) = (length level + 1) div 2"
  by (induction sha level rule: pair_up.induct) auto

function merkle_loop :: "(bytes \<Rightarrow> bytes) \<Rightarrow> bytes list \<Rightarrow> bytes" where
  "merkle_loop sha level = (if length level > 1 then merkle_loop sha (pair_up sha level) else hd level)"
  by pat_completeness auto
termination
  by (relation "measure (\<lambda>(_, level). length level)") auto

definition rollup_merkleRoot :: "(bytes \<Rightarrow> bytes) \<Rightarrow> bytes list \<Rightarrow> bytes" where
  "rollup_merkleRoot sha leaves = (if leaves = [] then replicate 32 0 else merkle_loop sha leaves)"

definition entry_cmp :: "rollup_env \<Rightarrow> CacheEntryV1 \<Rightarrow> CacheEntryV1 \<Rightarrow> int" where
  "entry_cmp env a b =
     (let d = cmp_num (ce_observed_bucket a) (ce_observed_bucket b) in
      if d \<noteq> 0 then d
      else let n = ru_locale env (ce_name_hash a) (ce_name_hash b) in
        if n \<noteq> 0 then n else ru_locale env (ce_rrset_hash a) (ce_rrset_hash b))"

definition sorted_entries :: "rollup_env \<Rightarrow> CacheEntryV1 list \<Rightarrow> CacheEntryV1 list" where
  "sorted_entries env es = js_sort (entry_cmp env) es"

definition cache_root :: "rollup_env \<Rightarrow> CacheEntryV1 list \<Rightarrow> bytes" where
  "cache_root env es = rollup_merkleRoot (ru_sha env) (map (hashEntry env) (sorted_entries env es))"


subsection \<open>Publishing\<close>

definition anchor_sighash :: "rollup_env \<Rightarrow> string \<Rightarrow> bytes" where
  "anchor_sighash env name = take 8 (ru_sha env (utf8_bytes (''anchor:'' @ name)))"

text \<open>\<open>u64le(BigInt(n))\<close>: \<open>BigInt\<close> refuses what is not an integer.\<close>

definition big_u64le :: "jsnum \<Rightarrow> bytes res" where
  "big_u64le n = (if \<not> is_integer n then Inl RangeError else write_uint 8 n)"

definition publishToIpfsOrStub :: "rollup_env \<Rightarrow> string \<Rightarrow> json \<Rightarrow> (string \<times> string) res" where
  "publishToIpfsOrStub env cacheRootHex doc =
     rmap (\<lambda>cid. (cid, hash_text (ru_sha env) cid))
       (case ru_ipfs env of
          None \<Rightarrow> Inr (''ipfs://stub/'' @ take 32 cacheRootHex)
        | Some add \<Rightarrow> rbind (add cacheRootHex doc) (\<lambda>h. if h = [] then throw ''ipfs_no_hash'' else Inr (''ipfs://'' @ h)))"

definition set_cache_head_data :: "rollup_env \<Rightarrow> string \<Rightarrow> string \<Rightarrow> string \<Rightarrow> jsnum \<Rightarrow> bytes res" where
  "set_cache_head_data env parentHashHex cacheRootHex cidHashHex epochId =
     rbind (big_u64le epochId) (\<lambda>e. Inr (anchor_sighash env ''global:set_cache_head'' @ buffer_hex parentHashHex @
       buffer_hex cacheRootHex @ buffer_hex cidHashHex @ e))"

text \<open>The entries are read back from JSON, so that a confidence that was \<open>NaN\<close> is \<open>null\<close>, which counts as zero.\<close>

definition stored_confidence :: "CacheEntryV1 \<Rightarrow> jsnum" where
  "stored_confidence e = (if is_finite (ce_confidence_bps e) then ce_confidence_bps e else Fin 0)"

definition confidence_level :: "CacheEntryV1 list \<Rightarrow> int" where
  "confidence_level es =
     (let avg = nfloor (nmul (foldl nadd (Fin 0) (map stored_confidence es)) (Fin (1 / of_int (int (max 1 (length es)))))) in
      if nle (Fin 9000) avg then 2 else if nle (Fin 7000) avg then 1 else 0)"

definition award_data :: "rollup_env \<Rightarrow> jsnum \<Rightarrow> string \<Rightarrow> CacheEntryV1 list \<Rightarrow> bytes res" where
  "award_data env epochId witness es =
     rbind (big_u64le epochId) (\<lambda>e. rbind (write_uint 4 (jint (int (length es)))) (\<lambda>n.
     rbind (write_uint 4 (jint (int (length (remdups (map ce_name_hash es)))))) (\<lambda>u. rbind (write_uint 2 (Fin 1)) (\<lambda>s.
       Inr (anchor_sighash env ''global:award_rep'' @ e @ buffer_hex witness @ n @ u @ s @ u8 (jint (confidence_level es)))))))"

text \<open>
  One award per witness, in the order of their first entries. In the reply to an award the witness is in hexadecimal, where
  the code has base 58 once the transaction is sent.
\<close>

definition award_batches :: "CacheEntryV1 list \<Rightarrow> (string \<times> CacheEntryV1 list) list" where
  "award_batches es = map (\<lambda>w. (w, filter (\<lambda>e. ce_witness_pubkey e = w) es)) (js_dedup (map ce_witness_pubkey es))"

record rollup_chain =
  rc_cacheHead :: bool
  rc_rep :: bool
  rc_send :: "bytes \<Rightarrow> string res"

definition award_json :: "rollup_env \<Rightarrow> rollup_chain \<Rightarrow> jsnum \<Rightarrow> string \<times> CacheEntryV1 list \<Rightarrow> json \<times> bytes list" where
  "award_json env chain epochId batch =
     (case rbind (award_data env epochId (fst batch) (snd batch)) (\<lambda>d. rmap (Pair d) (rc_send chain d)) of
        Inl e \<Rightarrow> (JObj [(''contributor'', JStr (fst batch)), (''error'', JStr (case e of JsError m \<Rightarrow> m | _ \<Rightarrow> ''error''))], [])
      | Inr (d, tx) \<Rightarrow> (JObj [(''contributor'', JStr (fst batch)), (''tx'', JStr tx)], [d]))"

definition maybeAwardRep :: "rollup_env \<Rightarrow> rollup_chain \<Rightarrow> CacheEntryV1 list \<Rightarrow> jsnum \<Rightarrow> json \<times> bytes list" where
  "maybeAwardRep env chain es epochId =
     (if \<not> rc_rep chain then (JObj [(''attempted'', JBool False), (''reason'', JStr ''rep_not_configured'')], [])
      else let awards = map (award_json env chain epochId) (award_batches es) in
        (JObj [(''attempted'', JBool True), (''awards'', JArr (map fst awards))], concat (map snd awards)))"

subsection \<open>The rollup of a domain\<close>

text \<open>
  The reply, and the instructions sent to the chain, in order. An error of the chain while the head is written ends
  the request; awards are attempted one by one.
\<close>

definition rollup_doc :: "rollup_env \<Rightarrow> string \<Rightarrow> string \<Rightarrow> jsnum \<Rightarrow> string \<Rightarrow> CacheEntryV1 list \<Rightarrow> json" where
  "rollup_doc env parent parentHash epochId rootHex es = JObj [(''version'', JNum (Fin 1)), (''parent'', JStr parent),
     (''parent_name_hash'', JStr parentHash), (''epoch_id'', JNum epochId), (''count'', JNum (jint (int (length es)))),
     (''cache_root'', JStr rootHex), (''entries'', JArr (map log_entry_json es)), (''generated_at_unix'', JNum (jint (ru_now env div 1000)))]"

definition send_head :: "rollup_env \<Rightarrow> rollup_chain \<Rightarrow> string \<Rightarrow> string \<Rightarrow> string \<Rightarrow> jsnum \<Rightarrow> (json \<times> bytes list) res" where
  "send_head env chain parentHash rootHex cidHash epochId =
     (if \<not> rc_cacheHead chain then Inr (JNull, [])
      else rbind (set_cache_head_data env parentHash rootHex cidHash epochId) (\<lambda>d.
        rmap (\<lambda>tx. (JObj [(''tx'', JStr tx)], [d])) (rc_send chain d)))"

definition rollup_handler ::
  "rollup_env \<Rightarrow> rollup_chain \<Rightarrow> json option \<Rightarrow> json option \<Rightarrow> entry_files \<Rightarrow> (int \<times> json) \<times> bytes list" where
  "rollup_handler env chain parentQuery epochQuery files =
     (let parent = cl_normalizeName (raw_text env parentQuery);
          fail = (\<lambda>code e. ((code, JObj [(''ok'', JBool False), (''error'', JStr e)]), [])) in
      if parent = [] then fail 400 ''missing_parent''
      else let epochId = number_or env epochQuery (jint (ru_now env div (1000 * 600)));
               parentHash = hash_text (ru_sha env) parent in
        case files parentHash of
          None \<Rightarrow> fail 404 ''no_entries_for_parent''
        | Some stored \<Rightarrow>
            (let es = sorted_entries env stored; rootHex = hex (cache_root env stored) in
             case rbind (publishToIpfsOrStub env rootHex (rollup_doc env parent parentHash epochId rootHex es)) (\<lambda>(cid, cidHash).
               rmap (\<lambda>(onchain, sent). (cid, cidHash, onchain, sent)) (send_head env chain parentHash rootHex cidHash epochId)) of
               Inl e \<Rightarrow> fail 500 (case e of JsError m \<Rightarrow> m | _ \<Rightarrow> ''error'')
             | Inr (cid, cidHash, onchain, sent) \<Rightarrow>
                 (let (rep, awarded) = maybeAwardRep env chain es epochId in
                  ((200, JObj [(''ok'', JBool True), (''parent'', JStr parent), (''parent_name_hash'', JStr parentHash),
                     (''epoch_id'', JNum epochId), (''cache_root'', JStr rootHex), (''cid'', JStr cid), (''cid_hash'', JStr cidHash),
                     (''count'', JNum (jint (int (length es)))), (''onchain'', onchain), (''rep'', rep)]), sent @ awarded))))"

subsection \<open>Reading the head\<close>

record CacheHead =
  hd_parent_name_hash :: string
  hd_parent_owner :: bytes
  hd_cache_root :: string
  hd_cid_hash :: string
  hd_updated_at_slot :: int
  hd_epoch_id :: int
  hd_enabled :: bool

definition parseCacheHead :: "bytes \<Rightarrow> CacheHead option" where
  "parseCacheHead data =
     (if length data < 154 then None
      else Some \<lparr>hd_parent_name_hash = hex (take 32 (drop 8 data)), hd_parent_owner = take 32 (drop 40 data),
        hd_cache_root = hex (take 32 (drop 72 data)), hd_cid_hash = hex (take 32 (drop 104 data)),
        hd_updated_at_slot = of_le (take 8 (drop 136 data)), hd_epoch_id = of_le (take 8 (drop 144 data)),
        hd_enabled = (data ! 152 = 1)\<rparr>)"


section \<open>Properties\<close>

subsection \<open>What the gateway logs is accepted\<close>

lemma hex_digit_lower: "0 \<le> d \<Longrightarrow> d < 16 \<Longrightarrow> lower_char (hex_digit d) = hex_digit d"
  by (auto simp: lower_char_def of_char_hex_digit Let_def nat_less_iff nat_le_iff le_nat_iff)

lemma hex_lower [simp]: "list_all lower_hex (hex bs)"
  by (induction bs) (auto simp: hex_eq hex2_def lower_hex_def hex_value_digit hex_digit_lower byte_nibbles)

lemma lower_of_lower_hex: "list_all lower_hex s \<Longrightarrow> lower s = s"
  by (induction s) (auto simp: lower_def lower_hex_def)

lemma lower_hex_no_x: "\<not> lower_hex (CHR ''x'')"
  by (simp add: lower_hex_def hex_value_def)

lemma strip0x_lower_hex: "list_all lower_hex s \<Longrightarrow> strip0x s = s"
  by (cases s rule: list.exhaust; cases "tl s" rule: list.exhaust)
    (auto simp: strip0x_def starts_with_def lower_of_lower_hex lower_hex_no_x)

lemma strip0x_hex [simp]: "strip0x (hex bs) = hex bs"
  by (simp add: strip0x_lower_hex)

definition hex_text :: "nat \<Rightarrow> string \<Rightarrow> bool" where
  "hex_text n s \<longleftrightarrow> length s = n \<and> list_all lower_hex s"

lemma hexN_text: "hex_text n s \<Longrightarrow> 0 < n \<Longrightarrow> hexN env (Some (JStr s)) n = Inr s"
  by (auto simp: hexN_def raw_text_def hex_text_def strip0x_lower_hex js_to_string_def)

lemma hexN_result: "hexN env v n = Inr s \<Longrightarrow> hex_text n s"
  by (auto simp: hexN_def hex_text_def Let_def split: if_splits)

text \<open>The entries the files hold.\<close>

definition entry_wf :: "CacheEntryV1 \<Rightarrow> bool" where
  "entry_wf e \<longleftrightarrow> hex_text 64 (ce_name_hash e) \<and> hex_text 64 (ce_parent_name_hash e) \<and> hex_text 64 (ce_rrset_hash e) \<and>
     hex_text 64 (ce_witness_pubkey e) \<and> hex_text 128 (ce_signature e) \<and> \<not> nlt (ce_ttl_s e) (Fin 1) \<and>
     \<not> nlt (ce_confidence_bps e) (Fin 0) \<and> \<not> nlt (Fin 10000) (ce_confidence_bps e) \<and> valid_bucket (ce_observed_bucket e)"

lemma validated_wf: "validateCacheEntry env raw = Inr (Some e) \<Longrightarrow> entry_wf e"
proof (cases raw)
  case (JObj kvs)
  assume "validateCacheEntry env raw = Inr (Some e)"
  moreover have "\<not> nlt (nmax (Fin 1) n) (Fin 1)" for n by (cases n) (auto simp: nmax_def)
  moreover have "\<not> nlt (clamp n (Fin 0) (Fin 10000)) (Fin 0)" "\<not> nlt (Fin 10000) (clamp n (Fin 0) (Fin 10000))" for n
    by (cases n; auto simp: clamp_def nmin_def nmax_def)+
  ultimately show ?thesis
    using JObj by (auto simp: validateCacheEntry_def Let_def rbind_eq_Inr entry_wf_def dest: hexN_result split: if_splits)
qed (simp_all add: validateCacheEntry_def)

definition number_laws :: "rollup_env \<Rightarrow> bool" where
  "number_laws env \<longleftrightarrow> (\<forall>n. ru_number env (JNum n) = n)"

lemma log_entry_json_props:
  "jprop (log_entry_json e) ''name_hash'' = Some (JStr (ce_name_hash e))"
  "jprop (log_entry_json e) ''parent_name_hash'' = Some (JStr (ce_parent_name_hash e))"
  "jprop (log_entry_json e) ''rrset_hash'' = Some (JStr (ce_rrset_hash e))"
  "jprop (log_entry_json e) ''ttl_s'' = Some (JNum (ce_ttl_s e))"
  "jprop (log_entry_json e) ''confidence_bps'' = Some (JNum (ce_confidence_bps e))"
  "jprop (log_entry_json e) ''observed_bucket'' = Some (JNum (ce_observed_bucket e))"
  "jprop (log_entry_json e) ''witness_pubkey'' = Some (JStr (ce_witness_pubkey e))"
  "jprop (log_entry_json e) ''signature'' = Some (JStr (ce_signature e))"
  by (simp_all add: log_entry_json_def jprop_def)

lemma number_of_json: "number_laws env \<Longrightarrow> is_finite n \<Longrightarrow> number_or env (Some (JNum n)) (Fin 0) = n"
  by (auto simp: number_or_def number_laws_def is_finite_def ntruthy_def split: jsnum.splits)

lemma clamp_id: "is_finite n \<Longrightarrow> \<not> nlt n (Fin 0) \<Longrightarrow> \<not> nlt (Fin 10000) n \<Longrightarrow> clamp n (Fin 0) (Fin 10000) = n"
  by (auto simp: clamp_def nmin_def nmax_def is_finite_def split: jsnum.splits)

lemma validated_again:
  assumes "entry_wf e" "is_finite (ce_ttl_s e)" "is_finite (ce_confidence_bps e)" "number_laws env"
  shows "validateCacheEntry env (log_entry_json e) = Inr (Some e)"
proof -
  have keys: "log_entry_json e = JObj kvs \<Longrightarrow> \<not> list_ex (\<lambda>k. k \<in> set forbidden) (map fst kvs)" for kvs
    by (auto simp: log_entry_json_def forbidden_def)
  have b: "is_finite (ce_observed_bucket e)"
    using assms(1) by (auto simp: entry_wf_def valid_bucket_def is_finite_def split: jsnum.splits)
  have t: "nmax (Fin 1) (ce_ttl_s e) = ce_ttl_s e"
    using assms(1,2) by (auto simp: entry_wf_def nmax_def is_finite_def split: jsnum.splits)
  obtain kvs where kvs: "log_entry_json e = JObj kvs" by (simp add: log_entry_json_def)
  show ?thesis
    using assms(1) keys [OF kvs] unfolding validateCacheEntry_def
    by (simp add: kvs log_entry_json_props [of e, unfolded kvs] entry_wf_def hexN_text number_of_json [OF assms(4)] assms(2,3) b t clamp_id)
qed

lemma ingest_one:
  assumes "validateCacheEntry env raw = Inr (Some e)"
  shows "ingest_handler env (JObj [(''entries'', JArr [raw])]) files =
    (Inr (200, JObj [(''ok'', JBool True), (''accepted'', JNum (Fin 1)), (''parents'', JNum (Fin 1))]), append_entry e files)"
  using assms by (simp add: ingest_handler_def jprop_def)

lemma logged_entry_wf:
  assumes "logged_entry lenv key (hex pub) name parent input = Inr e" "length pub = 32" "ed25519_laws (lg_ed lenv)"
    and "\<And>m. length (lg_sha lenv m) = 32" "hex_text 64 (strip0x (li_rrsetHashHex input))" "600000 \<le> lg_now lenv"
    and "is_finite (li_ttlS input)" "is_finite (li_confidenceBps input)"
  shows "entry_wf e" "is_finite (ce_ttl_s e)" "is_finite (ce_confidence_bps e)"
proof -
  note f = assms(1) [unfolded logged_entry_def Let_def]
  obtain sig where e: "e = \<lparr>ce_name_hash = hash_text (lg_sha lenv) name, ce_parent_name_hash = hash_text (lg_sha lenv) parent,
      ce_rrset_hash = strip0x (li_rrsetHashHex input), ce_ttl_s = nmax (Fin 1) (nfloor (li_ttlS input)),
      ce_confidence_bps = clamp (nfloor (li_confidenceBps input)) (Fin 0) (Fin 10000),
      ce_observed_bucket = jint (observed_bucket (lg_now lenv)), ce_witness_pubkey = hex pub, ce_signature = hex sig\<rparr>"
    and "length sig = 64"
    using f assms(3) by (auto simp: rbind_eq_Inr ed25519Sign_def ed25519_laws_def split: if_splits)
  moreover have "valid_bucket (jint (observed_bucket (lg_now lenv)))"
  proof -
    have "1 \<le> lg_now lenv div (1000 * 600)" using assms(6) by simp
    then show ?thesis by (simp add: valid_bucket_def observed_bucket_def)
  qed
  moreover obtain t where "li_ttlS input = Fin t" using assms(7) by (cases "li_ttlS input") (auto simp: is_finite_def)
  moreover obtain c where "li_confidenceBps input = Fin c"
    using assms(8) by (cases "li_confidenceBps input") (auto simp: is_finite_def)
  ultimately show "entry_wf e" "is_finite (ce_ttl_s e)" "is_finite (ce_confidence_bps e)"
    using assms(2,4,5)
    by (auto simp: entry_wf_def hash_text_def hex_text_def length_hex nfloor_def nmax_def nmin_def clamp_def is_finite_def)
qed

text \<open>The digest a verifier computes from an entry.\<close>

definition entry_digest :: "(bytes \<Rightarrow> bytes) \<Rightarrow> CacheEntryV1 \<Rightarrow> int \<Rightarrow> bytes res" where
  "entry_digest sha e bucket = hashEntryForSignature sha (ce_name_hash e) (ce_parent_name_hash e) (ce_rrset_hash e) (ce_ttl_s e)
     (ce_confidence_bps e) bucket (ce_witness_pubkey e)"

lemma logged_entry_signed:
  assumes "logged_entry lenv key pub name parent input = Inr e" "ed25519_laws (lg_ed lenv)" "pub = hex (getPublicKey (lg_ed lenv) key)"
  shows "\<exists>digest. entry_digest (lg_sha lenv) e (observed_bucket (lg_now lenv)) = Inr digest \<and>
     ed25519Verify (lg_ed lenv) (buffer_hex (ce_witness_pubkey e)) digest (buffer_hex (ce_signature e)) = Inr True"
  using assms by (auto simp: logged_entry_def Let_def rbind_eq_Inr entry_digest_def ed25519Sign_def ed25519_laws_def ed25519Verify_def
      split: if_splits)


definition toy_log :: log_env where
  "toy_log = \<lparr>lg_ed = toy_ed25519, lg_sha = (\<lambda>m. replicate 32 (of_nat (length m))), lg_now = 1200000\<rparr>"

definition toy_rollup :: rollup_env where
  "toy_rollup = \<lparr>ru_sha = (\<lambda>m. replicate 32 (of_nat (length m))), ru_number = (\<lambda>v. case v of JNum n \<Rightarrow> n | _ \<Rightarrow> NaN),
     ru_numstr = (\<lambda>q. ''1''), ru_locale = cmp_string, ru_ipfs = None, ru_now = 1200000\<rparr>"

definition toy_log_key :: string where
  "toy_log_key = hex (replicate 32 7)"

definition toy_input :: CacheLogInput where
  "toy_input = \<lparr>li_name = ''a.b.dns'', li_rrsetHashHex = toy_log_key, li_ttlS = Fin 60, li_confidenceBps = Fin 8000\<rparr>"

definition toy_cfg :: CacheLoggerConfig where
  "toy_cfg = \<lparr>lc_enabled = True, lc_parentExtractRule = ''last2-dns'', lc_witnessPrivateKeyHex = toy_log_key\<rparr>"

definition toy_entry :: CacheEntryV1 where
  "toy_entry = (case logged_entry toy_log (replicate 32 7) toy_log_key ''a.b.dns'' ''b.dns'' toy_input of Inr e \<Rightarrow> e)"

lemma toy_logger: "createCacheLogger toy_log toy_cfg = Inr (Some (replicate 32 7, toy_log_key))"
  by (simp add: createCacheLogger_def toy_cfg_def parsePrivKey_def toy_log_key_def length_hex toy_log_def toy_ed25519_def)

lemma toy_logs: "logEntry toy_log toy_cfg (replicate 32 7, toy_log_key) toy_input [] = (Inr (), [toy_entry])"
proof -
  have n: "cl_normalizeName (li_name toy_input) = ''a.b.dns''" "cl_normalizeName ''a.b.dns'' = ''a.b.dns''"
    by (simp_all add: toy_input_def, code_simp+)
  have p: "extractPremiumParent ''a.b.dns'' (lc_parentExtractRule toy_cfg) = Some ''b.dns''"
    by (simp add: toy_cfg_def) code_simp
  have "\<exists>e. logged_entry toy_log (replicate 32 7) toy_log_key ''a.b.dns'' ''b.dns'' toy_input = Inr e"
    by (simp add: logged_entry_def Let_def hashEntryForSignature_def toy_input_def write_uint_def nfloor_def nmax_def nmin_def clamp_def
        observed_bucket_def toy_log_def ed25519Sign_def)
  then obtain e where "logged_entry toy_log (replicate 32 7) toy_log_key ''a.b.dns'' ''b.dns'' toy_input = Inr e" by blast
  then show ?thesis
    by (simp add: logEntry_def n p toy_entry_def Let_def) (simp add: toy_input_def toy_log_key_def length_hex)
qed


subsection \<open>What the service stores\<close>

definition files_wf :: "entry_files \<Rightarrow> bool" where
  "files_wf files \<longleftrightarrow> (\<forall>p es. files p = Some es \<longrightarrow> es \<noteq> [] \<and> (\<forall>e \<in> set es. entry_wf e \<and> ce_parent_name_hash e = p))"

definition stored_in :: "entry_files \<Rightarrow> string \<Rightarrow> CacheEntryV1 list" where
  "stored_in files p = (case files p of None \<Rightarrow> [] | Some es \<Rightarrow> es)"

lemma stored_append: "stored_in (append_entry e files) p = stored_in files p @ (if ce_parent_name_hash e = p then [e] else [])"
  by (simp add: stored_in_def append_entry_def)

lemma stored_appends: "stored_in (fold append_entry es files) p = stored_in files p @ filter (\<lambda>e. ce_parent_name_hash e = p) es"
  by (induction es arbitrary: files) (simp_all add: stored_append)

lemma append_entry_wf: "files_wf files \<Longrightarrow> entry_wf e \<Longrightarrow> files_wf (append_entry e files)"
  by (cases "files (ce_parent_name_hash e)") (auto simp: files_wf_def append_entry_def split: if_splits)

lemma append_entries_wf: "files_wf files \<Longrightarrow> \<forall>e \<in> set es. entry_wf e \<Longrightarrow> files_wf (fold append_entry es files)"
  by (induction es arbitrary: files) (simp_all add: append_entry_wf)

lemma ingest_cases:
  "\<exists>accepted. snd (ingest_handler env body files) = fold append_entry accepted files \<and>
     (\<forall>e \<in> set accepted. entry_wf e \<and> (\<exists>xs. jprop body ''entries'' = Some (JArr xs) \<and> (\<exists>raw \<in> set xs. validateCacheEntry env raw = Inr (Some e))))"
proof (cases "\<exists>xs vs. jprop body ''entries'' = Some (JArr xs) \<and> traverse (validateCacheEntry env) xs = Inr vs")
  case False
  then have "snd (ingest_handler env body files) = files"
    by (auto simp: ingest_handler_def Let_def split: option.splits json.splits sum.splits)
  then show ?thesis by (intro exI [of _ "[]"]) simp
next
  case True
  then obtain xs vs where x: "jprop body ''entries'' = Some (JArr xs)" "traverse (validateCacheEntry env) xs = Inr vs" by blast
  have e: "\<exists>raw \<in> set xs. validateCacheEntry env raw = Inr (Some e)" if "e \<in> set (map the (filter (\<lambda>v. v \<noteq> None) vs))" for e
  proof -
    from that obtain i where i: "i < length vs" "vs ! i = Some e" by (auto simp: in_set_conv_nth)
    with x(2) have "i < length xs" "validateCacheEntry env (xs ! i) = Inr (Some e)"
      by (simp_all add: traverse_Inr_iff list_all2_conv_all_nth)
    then show ?thesis by (intro bexI [of _ "xs ! i"]) simp_all
  qed
  have "snd (ingest_handler env body files) = fold append_entry (map the (filter (\<lambda>v. v \<noteq> None) vs)) files"
    using x by (auto simp: ingest_handler_def Let_def)
  then show ?thesis
    using e x(1) validated_wf by (intro exI [of _ "map the (filter (\<lambda>v. v \<noteq> None) vs)"]) blast
qed

inductive ingested :: "rollup_env \<Rightarrow> entry_files \<Rightarrow> bool" for env where
  empty: "ingested env Map.empty"
| post: "ingested env files \<Longrightarrow> ingested env (snd (ingest_handler env body files))"

lemma ingested_wf: "ingested env files \<Longrightarrow> files_wf files"
proof (induction rule: ingested.induct)
  case (post files body)
  then show ?case using ingest_cases [of env body files] append_entries_wf by metis
qed (simp add: files_wf_def)

text \<open>C34: In every state the service reaches, each file holds well-formed entries of its own domain only, and a request only
  appends: what was stored for a domain stays, in its place.\<close>

theorem ingest_invariant:
  assumes "ingested env files"
  shows "files_wf (snd (ingest_handler env body files)) \<and>
    (\<exists>new. stored_in (snd (ingest_handler env body files)) p = stored_in files p @ new \<and>
      (\<forall>e \<in> set new. \<exists>xs. jprop body ''entries'' = Some (JArr xs) \<and> (\<exists>raw \<in> set xs. validateCacheEntry env raw = Inr (Some e))))"
proof -
  obtain accepted where a: "snd (ingest_handler env body files) = fold append_entry accepted files"
    "\<forall>e \<in> set accepted. entry_wf e \<and> (\<exists>xs. jprop body ''entries'' = Some (JArr xs) \<and> (\<exists>raw \<in> set xs. validateCacheEntry env raw = Inr (Some e)))"
    using ingest_cases by metis
  then show ?thesis
    using append_entries_wf [OF ingested_wf [OF assms], of accepted]
    by (auto simp: stored_appends intro!: exI [of _ "filter (\<lambda>e. ce_parent_name_hash e = p) accepted"])
qed

lemma ingest_invariant_witness: "files_wf (snd (ingest_handler toy_rollup (JObj [(''entries'', JArr [log_entry_json toy_entry])]) Map.empty))"
  using ingest_invariant [OF ingested.empty] by blast

subsection \<open>Entries nobody signed\<close>

text \<open>C35: The service never looks at a signature: any 128 hexadecimal digits under any key make an entry that is stored, and the
  next rollup asks for a reputation award to that key.\<close>

theorem forged_entry_awarded:
  fixes e :: CacheEntryV1 and pub sig :: string
  defines "forged \<equiv> e\<lparr>ce_witness_pubkey := pub, ce_signature := sig\<rparr>"
  assumes "entry_wf e" "is_finite (ce_ttl_s e)" "is_finite (ce_confidence_bps e)" "number_laws env" "hex_text 64 pub" "hex_text 128 sig"
  shows "snd (ingest_handler env (JObj [(''entries'', JArr [log_entry_json forged])]) files) = append_entry forged files \<and>
    pub \<in> fst ` set (award_batches (sorted_entries env (stored_in (append_entry forged files) (ce_parent_name_hash e))))"
proof -
  have "entry_wf forged" "is_finite (ce_ttl_s forged)" "is_finite (ce_confidence_bps forged)"
    using assms(2-) by (auto simp: forged_def entry_wf_def)
  then have "validateCacheEntry env (log_entry_json forged) = Inr (Some forged)" using assms(5) by (rule validated_again)
  moreover have "forged \<in> set (stored_in (append_entry forged files) (ce_parent_name_hash e))"
    by (simp add: stored_append) (simp add: forged_def)
  moreover have "ce_witness_pubkey forged = pub" by (simp add: forged_def)
  ultimately show ?thesis
    by (force simp: ingest_one award_batches_def sorted_entries_def image_image)
qed

lemma toy_entry_wf: "entry_wf toy_entry" "is_finite (ce_ttl_s toy_entry)" "is_finite (ce_confidence_bps toy_entry)"
proof -
  obtain e where e: "logged_entry toy_log (replicate 32 7) (hex (replicate 32 7)) ''a.b.dns'' ''b.dns'' toy_input = Inr e"
    by (simp add: logged_entry_def Let_def hashEntryForSignature_def toy_input_def write_uint_def nfloor_def nmax_def nmin_def clamp_def
        observed_bucket_def toy_log_def ed25519Sign_def)
  then have t: "toy_entry = e" by (simp add: toy_entry_def toy_log_key_def)
  show "entry_wf toy_entry" "is_finite (ce_ttl_s toy_entry)" "is_finite (ce_confidence_bps toy_entry)"
    unfolding t by (rule logged_entry_wf [OF e]; simp add: toy_log_def toy_ed25519_laws toy_input_def toy_log_key_def hex_text_def
        length_hex is_finite_def)+
qed

lemma forged_entry_awarded_witness:
  "hex (replicate 32 9) \<in> fst ` set (award_batches (sorted_entries toy_rollup (stored_in
     (append_entry (toy_entry\<lparr>ce_witness_pubkey := hex (replicate 32 9), ce_signature := hex (replicate 64 5)\<rparr>) Map.empty)
     (ce_parent_name_hash toy_entry))))"
  by (rule forged_entry_awarded [OF toy_entry_wf, THEN conjunct2])
    (simp_all add: number_laws_def toy_rollup_def hex_text_def length_hex)

subsection \<open>The root\<close>

definition signed_on :: "'a set \<Rightarrow> ('a \<Rightarrow> 'a \<Rightarrow> int) \<Rightarrow> bool" where
  "signed_on A c \<longleftrightarrow> (\<forall>a \<in> A. \<forall>b \<in> A. c a b < 0 \<longleftrightarrow> 0 < c b a)"

lemma comparator_on_lex:
  assumes "comparator_on A c1" "signed_on A c1" "comparator_on A c2"
  shows "comparator_on A (\<lambda>a b. if c1 a b \<noteq> 0 then c1 a b else c2 a b)"
proof -
  have sg: "c1 a b < 0 \<longleftrightarrow> 0 < c1 b a" if "a \<in> A" "b \<in> A" for a b using assms(2) that unfolding signed_on_def by blast
  have tr: "c1 a b \<le> 0 \<Longrightarrow> c1 b d \<le> 0 \<Longrightarrow> c1 a d \<le> 0" if "a \<in> A" "b \<in> A" "d \<in> A" for a b d
    using assms(1) that unfolding comparator_on_def by blast
  have neg: "c1 a d < 0" if i: "a \<in> A" "b \<in> A" "d \<in> A" and c: "c1 a b \<le> 0" "c1 b d \<le> 0" "c1 a b < 0 \<or> c1 b d < 0" for a b d
  proof (rule ccontr)
    assume n: "\<not> c1 a d < 0"
    then have "c1 d a \<le> 0" using sg [OF i(1,3)] by linarith
    then have "c1 b a \<le> 0" "c1 d b \<le> 0" using tr [OF i(2,3,1) c(2)] tr [OF i(3,1,2) _ c(1)] by blast+
    then show False using c(3) sg [OF i(1,2)] sg [OF i(2,3)] by linarith
  qed
  have total: "c2 a b \<le> 0 \<or> c2 b a \<le> 0" if "a \<in> A" "b \<in> A" for a b using assms(3) that unfolding comparator_on_def by blast
  have tr2: "c2 a b \<le> 0 \<Longrightarrow> c2 b d \<le> 0 \<Longrightarrow> c2 a d \<le> 0" if "a \<in> A" "b \<in> A" "d \<in> A" for a b d
    using assms(3) that unfolding comparator_on_def by blast
  have zero: "c1 a d = 0" if i: "a \<in> A" "b \<in> A" "d \<in> A" and c: "c1 a b = 0" "c1 b d = 0" for a b d
  proof -
    have "c1 b a = 0" "c1 d b = 0" using c sg [OF i(1,2)] sg [OF i(2,1)] sg [OF i(2,3)] sg [OF i(3,2)] by linarith+
    then have "c1 d a \<le> 0" "c1 a d \<le> 0" using tr [OF i(3,2,1)] tr [OF i] c by auto
    then show ?thesis using sg [OF i(1,3)] by linarith
  qed
  show ?thesis
    unfolding comparator_on_def
  proof (intro conjI ballI impI)
    fix a b assume "a \<in> A" "b \<in> A"
    then show "(if c1 a b \<noteq> 0 then c1 a b else c2 a b) \<le> 0 \<or> (if c1 b a \<noteq> 0 then c1 b a else c2 b a) \<le> 0"
      using sg [of a b] sg [of b a] total [of a b] by (cases "c1 a b = 0") auto
  next
    fix a b d
    assume i: "a \<in> A" "b \<in> A" "d \<in> A"
      and "(if c1 a b \<noteq> 0 then c1 a b else c2 a b) \<le> 0" "(if c1 b d \<noteq> 0 then c1 b d else c2 b d) \<le> 0"
    then show "(if c1 a d \<noteq> 0 then c1 a d else c2 a d) \<le> 0"
      using neg [OF i] zero [OF i] tr2 [OF i] by (cases "c1 a b = 0"; cases "c1 b d = 0") auto
  qed
qed

text \<open>What is relied on of \<open>localeCompare\<close>: it orders texts of hexadecimal digits.\<close>

definition locale_hex_laws :: "(string \<Rightarrow> string \<Rightarrow> int) \<Rightarrow> bool" where
  "locale_hex_laws cmp \<longleftrightarrow> comparator_on {s. hex_text 64 s} cmp \<and> signed_on {s. hex_text 64 s} cmp \<and>
     (\<forall>s t. hex_text 64 s \<longrightarrow> hex_text 64 t \<longrightarrow> cmp s t = 0 \<longrightarrow> s = t)"

definition sort_key :: "CacheEntryV1 \<Rightarrow> jsnum \<times> string \<times> string" where
  "sort_key e = (ce_observed_bucket e, ce_name_hash e, ce_rrset_hash e)"

lemma wf_bucket: "entry_wf e \<Longrightarrow> \<exists>q. ce_observed_bucket e = Fin q"
  by (auto simp: entry_wf_def valid_bucket_def split: jsnum.splits)

lemma entry_cmp_comparator:
  assumes "locale_hex_laws (ru_locale env)"
  shows "comparator_on {e. entry_wf e} (entry_cmp env)"
proof -
  let ?b = "\<lambda>a b. cmp_num (ce_observed_bucket a) (ce_observed_bucket b)"
  let ?n = "\<lambda>a b. ru_locale env (ce_name_hash a) (ce_name_hash b)"
  let ?r = "\<lambda>a b. ru_locale env (ce_rrset_hash a) (ce_rrset_hash b)"
  have key: "comparator_on {e. entry_wf e} (\<lambda>a b. ru_locale env (f a) (f b))" "signed_on {e. entry_wf e} (\<lambda>a b. ru_locale env (f a) (f b))"
    if "\<And>e. entry_wf e \<Longrightarrow> hex_text 64 (f e)" for f
  proof -
    have h: "f e \<in> {s. hex_text 64 s}" if "e \<in> {e. entry_wf e}" for e using that \<open>\<And>e. entry_wf e \<Longrightarrow> hex_text 64 (f e)\<close> by blast
    show "comparator_on {e. entry_wf e} (\<lambda>a b. ru_locale env (f a) (f b))"
      using assms h unfolding locale_hex_laws_def comparator_on_def by meson
    show "signed_on {e. entry_wf e} (\<lambda>a b. ru_locale env (f a) (f b))"
      using assms h unfolding locale_hex_laws_def signed_on_def by meson
  qed
  have n: "comparator_on {e. entry_wf e} ?n" "signed_on {e. entry_wf e} ?n" and r: "comparator_on {e. entry_wf e} ?r"
    by (rule key, simp add: entry_wf_def)+
  have b: "comparator_on {e. entry_wf e} ?b" "signed_on {e. entry_wf e} ?b"
    unfolding comparator_on_def signed_on_def by (auto dest!: wf_bucket simp: cmp_num_Fin split: if_splits)
  show ?thesis
    using comparator_on_lex [OF b comparator_on_lex [OF n r]] unfolding entry_cmp_def [abs_def] Let_def .
qed

lemma entry_cmp_ties:
  assumes "locale_hex_laws (ru_locale env)" "entry_wf a" "entry_wf b" "entry_cmp env a b \<le> 0" "entry_cmp env b a \<le> 0"
  shows "sort_key a = sort_key b"
proof -
  obtain p q where q: "ce_observed_bucket a = Fin p" "ce_observed_bucket b = Fin q" using wf_bucket assms(2,3) by meson
  have h: "hex_text 64 (ce_name_hash a)" "hex_text 64 (ce_name_hash b)" "hex_text 64 (ce_rrset_hash a)" "hex_text 64 (ce_rrset_hash b)"
    using assms(2,3) by (simp_all add: entry_wf_def)
  have l: "ru_locale env s t < 0 \<longleftrightarrow> 0 < ru_locale env t s" "ru_locale env s t = 0 \<Longrightarrow> s = t" if "hex_text 64 s" "hex_text 64 t" for s t
    using assms(1) that unfolding locale_hex_laws_def signed_on_def by blast+
  have "p = q" using assms(4,5) q by (auto simp: entry_cmp_def Let_def cmp_num_Fin split: if_splits)
  moreover have "ru_locale env (ce_name_hash a) (ce_name_hash b) = 0"
    using assms(4,5) q \<open>p = q\<close> l(1) [OF h(1,2)] l(1) [OF h(2,1)] by (auto simp: entry_cmp_def Let_def cmp_num_Fin split: if_splits)
  moreover from this have "ru_locale env (ce_rrset_hash a) (ce_rrset_hash b) = 0"
    using assms(4,5) q \<open>p = q\<close> l(1) [OF h(1,2)] l(1) [OF h(2,1)] l(1) [OF h(3,4)] l(1) [OF h(4,3)]
    by (auto simp: entry_cmp_def Let_def cmp_num_Fin split: if_splits)
  ultimately show ?thesis using l(2) [OF h(1,2)] l(2) [OF h(3,4)] q by (simp add: sort_key_def)
qed

text \<open>The root of a domain does not depend on the order in which its entries were posted, as long as different entries differ
  in bucket, name or records.\<close>

theorem cache_root_order:
  assumes "locale_hex_laws (ru_locale env)" "\<forall>e \<in> set es. entry_wf e" "inj_on sort_key (set es)" "mset es = mset es'"
  shows "cache_root env es = cache_root env es'"
proof -
  have "sorted_entries env es = sorted_entries env es'"
    unfolding sorted_entries_def
  proof (rule js_sort_perm)
    show "comparator_on (set es) (entry_cmp env)"
      using entry_cmp_comparator [OF assms(1)] by (rule comparator_on_subset) (use assms(2) in blast)
    show "a = b" if "a \<in> set es" "b \<in> set es" "entry_cmp env a b \<le> 0" "entry_cmp env b a \<le> 0" for a b
      using entry_cmp_ties [OF assms(1) _ _ that(3,4)] assms(2,3) that(1,2) by (auto dest: inj_onD)
  qed (rule assms(4))
  then show ?thesis by (simp add: cache_root_def)
qed

text \<open>The byte strings that are hashed on the way to the root.\<close>

fun pair_inputs :: "bytes list \<Rightarrow> bytes list" where
  "pair_inputs (l # r # rest) = (l @ r) # pair_inputs rest"
| "pair_inputs [l] = [l @ l]"
| "pair_inputs [] = []"

lemma pair_up_inputs: "pair_up sha level = map sha (pair_inputs level)"
  by (induction level rule: pair_inputs.induct) simp_all

function merkle_inputs :: "(bytes \<Rightarrow> bytes) \<Rightarrow> bytes list \<Rightarrow> bytes list" where
  "merkle_inputs sha level = (if length level > 1 then pair_inputs level @ merkle_inputs sha (pair_up sha level) else [])"
  by pat_completeness auto
termination
  by (relation "measure (\<lambda>(_, level). length level)") auto

declare merkle_loop.simps [simp del] merkle_inputs.simps [simp del]

definition sha_collision :: "(bytes \<Rightarrow> bytes) \<Rightarrow> bytes list \<Rightarrow> bytes list \<Rightarrow> bool" where
  "sha_collision sha xs ys \<longleftrightarrow> list_ex (\<lambda>x. list_ex (\<lambda>y. x \<noteq> y \<and> sha x = sha y) ys) xs"

lemma map_sha_eq: "map sha xs = map sha ys \<Longrightarrow> xs = ys \<or> sha_collision sha xs ys"
proof (induction xs arbitrary: ys)
  case (Cons x xs)
  then obtain y ys' where y: "ys = y # ys'" "sha x = sha y" "map sha xs = map sha ys'" by (cases ys) auto
  from Cons.IH [OF y(3)] show ?case using y(1,2) by (auto simp: sha_collision_def list_ex_iff)
qed simp

lemma pair_inputs_inj:
  "pair_inputs xs = pair_inputs ys \<Longrightarrow> length xs = length ys \<Longrightarrow> \<forall>l \<in> set xs \<union> set ys. length l = k \<Longrightarrow> xs = ys"
proof (induction xs arbitrary: ys rule: pair_inputs.induct)
  case (1 l r rest)
  then obtain l' r' rest' where y: "ys = l' # r' # rest'" by (cases ys; cases "tl ys") auto
  with 1 show ?case by auto
next
  case (2 l)
  then obtain l' where "ys = [l']" by (cases ys) auto
  with 2 show ?case by auto
qed simp

lemma merkle_loop_binding:
  "merkle_loop sha xs = merkle_loop sha ys \<Longrightarrow> length xs = length ys \<Longrightarrow> xs \<noteq> [] \<Longrightarrow> \<forall>l \<in> set xs \<union> set ys. length l = k \<Longrightarrow>
    \<forall>m. length (sha m) = k \<Longrightarrow> xs = ys \<or> sha_collision sha (merkle_inputs sha xs) (merkle_inputs sha ys)"
proof (induction sha xs arbitrary: ys rule: merkle_loop.induct)
  case (1 sha xs)
  show ?case
  proof (cases "length xs > 1")
    case False
    then have "length xs = 1" "length ys = 1" using "1.prems"(2,3) by (cases xs; simp)+
    then obtain x y where "xs = [x]" "ys = [y]" by (auto simp: length_Suc_conv)
    then show ?thesis using "1.prems"(1) by (simp add: merkle_loop.simps)
  next
    case True
    have ne: "pair_up sha xs \<noteq> []" using True by (cases xs rule: pair_inputs.cases) auto
    have sz: "\<forall>l \<in> set (pair_up sha xs) \<union> set (pair_up sha ys). length l = k"
      using "1.prems"(5) by (auto simp: pair_up_inputs)
    have inp: "merkle_inputs sha zs = pair_inputs zs @ merkle_inputs sha (pair_up sha zs)" if "length zs > 1" for zs
      using that by (simp add: merkle_inputs.simps)
    have "pair_up sha xs = pair_up sha ys \<or> sha_collision sha (merkle_inputs sha (pair_up sha xs)) (merkle_inputs sha (pair_up sha ys))"
      using "1.IH" [OF True _ _ ne sz "1.prems"(5)] "1.prems"(1,2) True by (simp add: merkle_loop.simps)
    then show ?thesis
    proof
      assume "pair_up sha xs = pair_up sha ys"
      then have "pair_inputs xs = pair_inputs ys \<or> sha_collision sha (pair_inputs xs) (pair_inputs ys)"
        by (intro map_sha_eq) (simp add: pair_up_inputs)
      then show ?thesis
      proof
        assume "pair_inputs xs = pair_inputs ys"
        then show ?thesis using pair_inputs_inj [OF _ "1.prems"(2,4)] by blast
      qed (use True "1.prems"(2) in \<open>auto simp: inp sha_collision_def list_ex_iff\<close>)
    qed (use True "1.prems"(2) in \<open>auto simp: inp sha_collision_def list_ex_iff\<close>)
  qed
qed

lemma merkle_root_binding:
  assumes "rollup_merkleRoot sha xs = rollup_merkleRoot sha ys" "length xs = length ys" "\<forall>l \<in> set xs \<union> set ys. length l = k"
    "\<forall>m. length (sha m) = k"
  shows "xs = ys \<or> sha_collision sha (merkle_inputs sha xs) (merkle_inputs sha ys)"
proof (cases "xs = []")
  case False
  then have "ys \<noteq> []" using assms(2) by auto
  with False show ?thesis using merkle_loop_binding [OF _ assms(2) False assms(3,4)] assms(1) by (simp add: rollup_merkleRoot_def)
qed (use assms(2) in simp)

lemma merkle_root_duplicate:
  assumes "even (length xs)" "xs \<noteq> []"
  shows "rollup_merkleRoot sha (xs @ [x]) = rollup_merkleRoot sha (xs @ [x, x])"
proof -
  have "pair_up sha (xs @ [x]) = pair_up sha (xs @ [x, x])" using assms(1)
    by (induction xs rule: pair_inputs.induct) auto
  moreover have "length xs \<ge> 2" using assms by (cases xs rule: pair_inputs.cases) auto
  ultimately show ?thesis using assms(2) by (simp add: rollup_merkleRoot_def merkle_loop.simps [of _ "xs @ _"])
qed

definition leaf_text :: "rollup_env \<Rightarrow> CacheEntryV1 \<Rightarrow> bytes" where
  "leaf_text env e = utf8_bytes (json_str (ru_numstr env) (log_entry_json e))"



lemma cmp_list_signed: "cmp_list xs ys < 0 \<longleftrightarrow> 0 < cmp_list ys xs"
  by (induction xs ys rule: cmp_list.induct) auto

lemma locale_hex_laws_cmp_string: "locale_hex_laws cmp_string"
proof -
  have "s = t" if "cmp_string s t = 0" for s t
  proof -
    have "cmp_string t s \<le> 0" using that cmp_list_signed [of "map of_char s" "map of_char t"] cmp_list_signed [of "map of_char t" "map of_char s"]
      unfolding cmp_string_def by linarith
    with that have "map of_char s = (map of_char t :: int list)"
      unfolding cmp_string_def by (intro cmp_list_antisym) simp_all
    then show ?thesis by (metis inj_map_eq_map inj_of_char)
  qed
  moreover have "signed_on A cmp_string" for A
    unfolding signed_on_def cmp_string_def using cmp_list_signed by blast
  moreover have "comparator_on A cmp_string" for A
    unfolding cmp_string_def by (rule comparator_on_cmp_list)
  ultimately show ?thesis unfolding locale_hex_laws_def by blast
qed

lemma cache_root_order_witness:
  "cache_root toy_rollup [toy_entry, toy_entry\<lparr>ce_observed_bucket := Fin 600\<rparr>] =
   cache_root toy_rollup [toy_entry\<lparr>ce_observed_bucket := Fin 600\<rparr>, toy_entry]"
proof (rule cache_root_order)
  show "locale_hex_laws (ru_locale toy_rollup)" by (simp add: toy_rollup_def locale_hex_laws_cmp_string)
  show "\<forall>e \<in> set [toy_entry, toy_entry\<lparr>ce_observed_bucket := Fin 600\<rparr>]. entry_wf e"
    using toy_entry_wf(1) by (simp add: entry_wf_def valid_bucket_def)
  have "ce_observed_bucket toy_entry = Fin 1200"
    by (simp add: toy_entry_def logged_entry_def Let_def hashEntryForSignature_def toy_input_def write_uint_def nfloor_def nmax_def
        nmin_def clamp_def observed_bucket_def toy_log_def ed25519Sign_def)
  then show "inj_on sort_key (set [toy_entry, toy_entry\<lparr>ce_observed_bucket := Fin 600\<rparr>])"
    by (simp add: inj_on_def sort_key_def)
qed simp

end
