(* ===== verification/GatewayResolve.thy ===== *)
theory GatewayResolve
  imports AdapterRegistry GatewayRegistry AttackMode ResolveHash
begin

section \<open>Resolution in the gateway (gateway/src/server.ts, voucher.ts, anchor.ts)\<close>

text \<open>
  The route \<open>/resolve\<close> answers names of the registry from a snapshot, names of ENS and SNS through their
  records, and every other name over DNS-over-HTTPS with a cache of its own, an optional signature of the resolver
  and an optional comparison with other nodes. The handler is cut at its \<open>await\<close>s: \<open>handle_resolve\<close> runs
  until it has replied or asks upstream, \<open>resolve_doh\<close> when the upstream answer is there, \<open>resolve_nodes\<close>
  when the nodes have answered. Times are in milliseconds. Parameters are the fields of an environment: the hash functions,
  the curve, the parsing of JSON, \<open>Number\<close> of a JSON value, the registry file, the RPC servers of ENS and SNS.
\<close>

record resolve_env =
  gv_registry :: registry_env
  gv_receipt :: receipt_env
  gv_blake3 :: "bytes \<Rightarrow> bytes"
  gv_hmac :: "string \<Rightarrow> bytes \<Rightarrow> bytes"
  gv_parse :: "string \<Rightarrow> json option"
  gv_number :: "json \<Rightarrow> jsnum"
  gv_modestr :: "jsnum \<Rightarrow> string"
  gv_ens :: ens_env
  gv_sns :: sns_env
  gv_readSnapshot :: "string \<Rightarrow> RegistrySnapshot res"
  gv_nodeFile :: "json option"

record resolve_config =
  gc_registryEnabled :: bool
  gc_registryPath :: string
  gc_adminToken :: string
  gc_gatedSuffixes :: "string list"
  gc_voucherMode :: string
  gc_voucherSecret :: string
  gc_enableEns :: bool
  gc_enableSns :: bool
  gc_ethRpc :: string
  gc_solRpc :: string
  gc_ensNetwork :: string
  gc_snsCluster :: string
  gc_cacheTtlMax :: jsnum
  gc_nodesEnabled :: bool
  gc_nodeQuorum :: jsnum
  gc_privateKeyHex :: string
  gc_pubkeyHex :: string
  gc_attackEnabled :: bool
  gc_attackWindow :: jsnum
  gc_thresholds :: AttackThresholds

abbreviation gv_numstr :: "resolve_env \<Rightarrow> rat \<Rightarrow> string" where
  "gv_numstr env \<equiv> re_numstr (gv_receipt env)"

subsection \<open>State\<close>

record AttackCounters =
  ct_windowStartUnix :: int
  ct_totalReq :: int
  ct_gatewayErr :: int
  ct_rpcTotal :: int
  ct_rpcErr :: int

text \<open>The metadata of a response is a JSON object.\<close>

record ResolveResponse =
  rp_name :: string
  rp_network :: string
  rp_records :: "json list"
  rp_metadata :: json

record AnchorRecord =
  an_root :: string
  an_version :: jsnum
  an_timestamp :: string
  an_source :: string

record AnchorStore =
  st_latest :: "AnchorRecord option"
  st_history :: "AnchorRecord list"

text \<open>\<open>gz_anchors\<close> is the file of anchors, if there is one.\<close>

record ResolverState =
  gz_counters :: AttackCounters
  gz_mode :: AttackMode
  gz_lastStable :: "jsnum option"
  gz_decision :: "int \<times> string list"
  gz_cache :: "string \<rightharpoonup> jsnum \<times> ResolveResponse"
  gz_snapshot :: "SnapshotCache option"
  gz_anchors :: "AnchorStore option"

subsection \<open>Attack mode\<close>

definition gw_resetAttackWindow :: "resolve_config \<Rightarrow> int \<Rightarrow> AttackCounters \<Rightarrow> AttackCounters" where
  "gw_resetAttackWindow cfg nowUnix c =
     (if nle (gc_attackWindow cfg) (jint (nowUnix - ct_windowStartUnix c))
      then \<lparr>ct_windowStartUnix = nowUnix, ct_totalReq = 0, ct_gatewayErr = 0, ct_rpcTotal = 0, ct_rpcErr = 0\<rparr> else c)"

definition pct :: "int \<Rightarrow> int \<Rightarrow> jsnum" where
  "pct part whole = (if whole \<noteq> 0 then Fin (of_int (part * 100) / of_int whole) else Fin 0)"

definition gw_signals :: "int \<Rightarrow> AttackCounters \<Rightarrow> AttackSignals" where
  "gw_signals nowUnix c =
     \<lparr>as_rpcFailPct = Some (pct (ct_rpcErr c) (ct_rpcTotal c)), as_rpcDisagreement = None, as_invalidReceiptPct = None,
      as_receiptSampleSize = None, as_canonicalFlipCount = None, as_ipfsFailPct = None,
      as_gatewayErrorPct = Some (pct (ct_gatewayErr c) (ct_totalReq c)), as_nowUnix = Some (jint nowUnix)\<rparr>"

definition gw_currentAttackPolicy :: "resolve_env \<Rightarrow> resolve_config \<Rightarrow> int \<Rightarrow> ResolverState \<Rightarrow> AttackPolicy \<times> ResolverState" where
  "gw_currentAttackPolicy env cfg nowUnix st0 =
     (let st = st0\<lparr>gz_counters := gw_resetAttackWindow cfg nowUnix (gz_counters st0)\<rparr> in
      if \<not> gc_attackEnabled cfg
      then (policyForMode NORMAL, st\<lparr>gz_mode := NORMAL, gz_decision := (0, [''disabled''])\<rparr>)
      else let d = evaluateAttackMode (gv_modestr env) (jint nowUnix) (gz_mode st) (gw_signals nowUnix (gz_counters st))
                     (gc_thresholds cfg) (gz_lastStable st)
           in (policyForMode (ad_nextMode d),
               st\<lparr>gz_mode := ad_nextMode d, gz_lastStable := ad_lastStableUnix d, gz_decision := (ad_score d, ad_reasons d)\<rparr>))"

subsection \<open>The cache of responses\<close>

definition cacheGet :: "int \<Rightarrow> string \<Rightarrow> ResolverState \<Rightarrow> ResolveResponse option \<times> ResolverState" where
  "cacheGet now key st =
     (case gz_cache st key of
        None \<Rightarrow> (None, st)
      | Some (expiresAt, payload) \<Rightarrow>
          if nlt expiresAt (jint now) then (None, st\<lparr>gz_cache := (gz_cache st)(key := None)\<rparr>) else (Some payload, st))"

definition cacheSet :: "int \<Rightarrow> string \<Rightarrow> jsnum \<Rightarrow> ResolveResponse \<Rightarrow> ResolverState \<Rightarrow> ResolverState" where
  "cacheSet now key ttlMs payload st = st\<lparr>gz_cache := (gz_cache st)(key \<mapsto> (nadd (jint now) ttlMs, payload))\<rparr>"

subsection \<open>Vouchers\<close>

datatype VoucherResult = VoucherOk | VoucherBad (vr_code: string) (vr_message: string) (vr_retryable: bool)

definition voucher_expired :: "resolve_env \<Rightarrow> int \<Rightarrow> json \<Rightarrow> bool" where
  "voucher_expired env now payload \<longleftrightarrow>
     (case Option.bind (jprop payload ''scope'') (\<lambda>s. jprop s ''exp'') of
        None \<Rightarrow> False
      | Some e \<Rightarrow> jtruthy (Some e) \<and> nlt (gv_number env e) (jint (now div 1000)))"

definition verifyVoucherHeader :: "resolve_env \<Rightarrow> resolve_config \<Rightarrow> int \<Rightarrow> string \<Rightarrow> VoucherResult" where
  "verifyVoucherHeader env cfg now headerValue =
     (if headerValue = [] then VoucherBad ''VOUCHER_REQUIRED'' ''voucher required'' True
      else if gc_voucherMode cfg \<noteq> ''memory'' then VoucherBad ''VOUCHER_NOT_IMPLEMENTED'' ''voucher verification not yet wired'' False
      else if gc_voucherSecret cfg = [] then VoucherBad ''VOUCHER_NOT_IMPLEMENTED'' ''VOUCHER_SECRET not configured'' False
      else case gv_parse env headerValue of
        None \<Rightarrow> VoucherBad ''VOUCHER_INVALID'' ''invalid voucher json'' False
      | Some voucher \<Rightarrow>
          (case jprop voucher ''payload'' of
             Some payload \<Rightarrow>
               if \<not> jtruthy (Some payload) \<or> \<not> jtruthy (jprop voucher ''signature'')
                 then VoucherBad ''VOUCHER_INVALID'' ''missing voucher fields'' False
               else if jprop voucher ''signature'' \<noteq>
                   Some (JStr (hex (gv_hmac env (gc_voucherSecret cfg) (utf8_bytes (json_str (gv_numstr env) payload)))))
                 then VoucherBad ''VOUCHER_INVALID'' ''bad signature'' False
               else if voucher_expired env now payload then VoucherBad ''VOUCHER_INVALID'' ''voucher expired'' False
               else VoucherOk
           | None \<Rightarrow> VoucherBad ''VOUCHER_INVALID'' ''missing voucher fields'' False))"

subsection \<open>Anchors\<close>

text \<open>The first reading creates the file.\<close>

definition loadAnchorStore :: "AnchorStore option \<Rightarrow> AnchorStore \<times> AnchorStore option" where
  "loadAnchorStore f =
     (case f of None \<Rightarrow> (let empty = \<lparr>st_latest = None, st_history = []\<rparr> in (empty, Some empty)) | Some s \<Rightarrow> (s, Some s))"

definition anchorRoot :: "AnchorRecord \<Rightarrow> AnchorStore option \<Rightarrow> AnchorRecord \<times> AnchorStore option" where
  "anchorRoot record f =
     (let (store, f') = loadAnchorStore f in
      (record, Some \<lparr>st_latest = Some record, st_history = take 1000 (record # st_history store)\<rparr>))"

subsection \<open>The signature of the resolver\<close>

text \<open>\<open>hexToBytes\<close> of the server: an odd last digit is dropped, a pair that is not hexadecimal is 0. The curve
  refuses a key that is not 32 bytes long.\<close>

definition server_hexToBytes :: "string \<Rightarrow> bytes" where
  "server_hexToBytes h = hex_pairs (if starts_with h ''0x'' then drop 2 h else h)"

definition computeResultHash :: "resolve_env \<Rightarrow> ResolveResponse \<Rightarrow> string" where
  "computeResultHash env payload = re_base64 (gv_receipt env) (gv_blake3 env (utf8_bytes (stableStringify (gv_receipt env)
     (JObj [(''name'', JStr (rp_name payload)), (''network'', JStr (rp_network payload)), (''records'', JArr (rp_records payload))]))))"

definition authority_message :: "string \<Rightarrow> bytes" where
  "authority_message resultHash = utf8_bytes (''resolve'' @ [CHR 0x0A] @ resultHash)"

definition signAuthority :: "resolve_env \<Rightarrow> resolve_config \<Rightarrow> string \<Rightarrow> string res" where
  "signAuthority env cfg resultHash =
     rmap hex (ed25519Sign (re_ed25519 (gv_receipt env)) (server_hexToBytes (gc_privateKeyHex cfg)) (authority_message resultHash))"

definition attachAuthoritySig :: "resolve_env \<Rightarrow> resolve_config \<Rightarrow> ResolveResponse \<Rightarrow> ResolveResponse res" where
  "attachAuthoritySig env cfg payload =
     (if gc_privateKeyHex cfg = [] then Inr payload
      else let resultHash = computeResultHash env payload in
        rbind (signAuthority env cfg resultHash) (\<lambda>signature.
          let m1 = obj_set (rp_metadata payload) ''resultHash'' (JStr resultHash);
              m2 = obj_set m1 ''authoritySig'' (JStr signature);
              m3 = (if gc_pubkeyHex cfg = [] then m2 else obj_set m2 ''authorityPubKey'' (JStr (gc_pubkeyHex cfg)))
          in Inr (payload\<lparr>rp_metadata := m3\<rparr>)))"

subsection \<open>DNS over HTTPS\<close>

text \<open>A reply from upstream: the status when it is not a success, or the decoded answers.\<close>

datatype doh_reply = DohStatus string | DohAnswers "json list"

definition doh_record :: "resolve_env \<Rightarrow> json \<Rightarrow> json" where
  "doh_record env a = JObj ([(''type'', JStr (js_to_string (gv_numstr env) (the (jprop a ''type'')))),
     (''value'', JStr (js_to_string (gv_numstr env) (the (jprop a ''data''))))] @ opt_field ''ttl'' (jprop a ''ttl''))"

definition doh_ttl :: "resolve_env \<Rightarrow> resolve_config \<Rightarrow> json list \<Rightarrow> jsnum" where
  "doh_ttl env cfg records =
     (case records of
        [] \<Rightarrow> Fin 60
      | r # _ \<Rightarrow> nmax (Fin 30) (nmin (gc_cacheTtlMax cfg)
          (case jprop r ''ttl'' of Some t \<Rightarrow> if jtruthy (Some t) then gv_number env t else Fin 60 | None \<Rightarrow> Fin 60)))"

definition resolveViaDoh :: "resolve_env \<Rightarrow> resolve_config \<Rightarrow> doh_reply res \<Rightarrow> (json list \<times> jsnum) res" where
  "resolveViaDoh env cfg reply =
     (case reply of
        Inl e \<Rightarrow> if e = JsError ''AbortError'' then throw ''upstream_timeout'' else Inl e
      | Inr (DohStatus s) \<Rightarrow> throw (''upstream_'' @ s)
      | Inr (DohAnswers answers) \<Rightarrow>
          (let records = map (doh_record env) (filter (\<lambda>a. jtruthy (jprop a ''type'') \<and> jtruthy (jprop a ''data'')) answers)
           in Inr (records, doh_ttl env cfg records)))"

subsection \<open>Other nodes\<close>

definition loadNodeList :: "resolve_env \<Rightarrow> json list" where
  "loadNodeList env = (case gv_nodeFile env of
     Some parsed \<Rightarrow> (case jprop parsed ''nodes'' of Some (JArr nodes) \<Rightarrow> nodes | _ \<Rightarrow> [])
   | None \<Rightarrow> [])"

definition in_template :: "resolve_env \<Rightarrow> json option \<Rightarrow> string" where
  "in_template env v = (case v of None \<Rightarrow> ''undefined'' | Some j \<Rightarrow> js_to_string (gv_numstr env) j)"

definition node_record :: "json \<Rightarrow> json" where
  "node_record r = JObj (opt_field ''type'' (jprop r ''type'') @ opt_field ''value'' (jprop r ''value'') @ opt_field ''ttl'' (jprop r ''ttl''))"

definition node_record_key :: "resolve_env \<Rightarrow> json \<Rightarrow> string" where
  "node_record_key env r = in_template env (jprop r ''type'') @ '':'' @ in_template env (jprop r ''value'')"

text \<open>Spreading what is not iterable and reading a property of \<open>null\<close> raise exceptions; a string is
  spread into its characters.\<close>

definition normalizeRecords :: "resolve_env \<Rightarrow> json \<Rightarrow> string res" where
  "normalizeRecords env records =
     (case (case records of JArr xs \<Rightarrow> Some xs | JStr s \<Rightarrow> Some (map (\<lambda>c. JStr [c]) s) | _ \<Rightarrow> None) of
        None \<Rightarrow> Inl TypeError
      | Some xs \<Rightarrow>
          if JNull \<in> set xs then Inl TypeError
          else Inr (json_str (gv_numstr env) (JArr (js_sort (\<lambda>a b.
            re_locale (gv_receipt env) (node_record_key env a) (node_record_key env b)) (map node_record xs)))))"

definition node_records :: "json \<Rightarrow> json" where
  "node_records res = (case jprop res ''records'' of Some v \<Rightarrow> if jtruthy (Some v) then v else JArr [] | None \<Rightarrow> JArr [])"

text \<open>What the nodes answered, in their order; a request that fails answers nothing.\<close>

definition count_matches :: "resolve_env \<Rightarrow> string \<Rightarrow> json option list \<Rightarrow> nat res" where
  "count_matches env normalizedAuth responses =
     rmap (\<lambda>texts. length (filter (\<lambda>t. t = normalizedAuth) texts))
       (traverse (\<lambda>res. normalizeRecords env (node_records res)) (filter (\<lambda>r. jtruthy (Some r)) (List.map_filter id responses)))"

datatype NodeResult = NodesAgree jsnum nat | NodesFail string

definition verifyWithNodes :: "resolve_env \<Rightarrow> resolve_config \<Rightarrow> ResolveResponse \<Rightarrow> json option list \<Rightarrow> NodeResult res" where
  "verifyWithNodes env cfg authoritative responses =
     (let nodes = loadNodeList env in
      if nodes = [] then Inr (NodesAgree (Fin 0) 0)
      else rbind (normalizeRecords env (JArr (rp_records authoritative))) (\<lambda>normalizedAuth.
        rbind (count_matches env normalizedAuth responses) (\<lambda>matches.
          let quorum = nmin (gc_nodeQuorum cfg) (jint (int (length nodes))) in
          Inr (if nlt (jint (int matches)) quorum
            then NodesFail (''quorum_failed:'' @ in_template env (Some (JNum (jint (int matches)))) @ ''/'' @ in_template env (Some (JNum quorum)))
            else NodesAgree quorum matches))))"

subsection \<open>The route /resolve\<close>

record resolve_request =
  rq_name :: string
  rq_proof :: bool
  rq_voucher :: string

type_synonym http_reply = "int \<times> json"

definition error_reply :: "int \<Rightarrow> string \<Rightarrow> string \<Rightarrow> bool \<Rightarrow> http_reply" where
  "error_reply status code message retryable =
     (status, JObj [(''error'', JObj [(''code'', JStr code), (''message'', JStr message), (''retryable'', JBool retryable)])])"

definition response_json :: "ResolveResponse \<Rightarrow> json" where
  "response_json p = JObj [(''name'', JStr (rp_name p)), (''network'', JStr (rp_network p)), (''records'', JArr (rp_records p)),
     (''metadata'', rp_metadata p)]"

definition error_message :: "js_error \<Rightarrow> string" where
  "error_message e = (case e of JsError m \<Rightarrow> m | _ \<Rightarrow> ''error'')"

definition is_gated :: "resolve_config \<Rightarrow> string \<Rightarrow> bool" where
  "is_gated cfg name \<longleftrightarrow> list_ex (ends_with (lower name)) (gc_gatedSuffixes cfg)"

definition voucher_reply :: "VoucherResult \<Rightarrow> http_reply option" where
  "voucher_reply v = (case v of
     VoucherOk \<Rightarrow> None
   | VoucherBad code message retryable \<Rightarrow>
       Some (error_reply (if code = ''VOUCHER_REQUIRED'' then 402 else if code = ''VOUCHER_NOT_IMPLEMENTED'' then 501 else 403)
         code message retryable))"

text \<open>The records of the registry as they stand in the snapshot.\<close>

definition registry_entry_json :: "RegistryEntry \<Rightarrow> json" where
  "registry_entry_json e = JObj ([(''type'', JStr (re_type e)),
     (''value'', case re_value e of StringValue s \<Rightarrow> JStr s | KeyValue k v \<Rightarrow> JObj [(''key'', JStr k), (''value'', JStr v)])] @
     opt_field ''ttl'' (map_option JNum (re_ttl e)))"

definition direction_text :: "direction \<Rightarrow> string" where
  "direction_text d = (case d of LeftDir \<Rightarrow> ''left'' | RightDir \<Rightarrow> ''right'')"

definition proof_json :: "string \<Rightarrow> jsnum \<Rightarrow> string \<Rightarrow> MerkleProof \<Rightarrow> json" where
  "proof_json rt version leaf pf = JObj [(''root'', JStr rt), (''version'', JNum version), (''leaf'', JStr leaf),
     (''siblings'', JArr (map JStr (mp_siblings pf))), (''directions'', JArr (map (JStr \<circ> direction_text) (mp_directions pf)))]"

definition clamp_ttl :: "resolve_env \<Rightarrow> nat \<Rightarrow> json \<Rightarrow> json" where
  "clamp_ttl env ttlClampS r =
     (let c = jint (int ttlClampS);
          n = (case jprop r ''ttl'' of None \<Rightarrow> c | Some JNull \<Rightarrow> c | Some t \<Rightarrow> gv_number env t)
      in obj_set r ''ttl'' (JNum (nmin n c)))"

text \<open>The answer from the snapshot, the anchor and the proof; \<open>Inl\<close> is an exception that nothing catches.\<close>

definition registry_payload ::
  "resolve_env \<Rightarrow> resolve_request \<Rightarrow> RegistrySnapshot \<Rightarrow> RegistryRecord \<Rightarrow> AnchorRecord option \<Rightarrow>
     (http_reply + ResolveResponse) res" where
  "registry_payload env req snapshot entry anchor =
     rbind (gw_buildMerkleRoot (gv_registry env) (snap_records snapshot)) (\<lambda>computedRoot.
       if (case anchor of Some a \<Rightarrow> an_root a \<noteq> computedRoot | None \<Rightarrow> False)
       then Inr (Inl (error_reply 409 ''ANCHOR_MISMATCH'' ''anchored root does not match snapshot'' False))
       else
         let rt = (case anchor of Some a \<Rightarrow> if an_root a = [] then computedRoot else an_root a | None \<Rightarrow> computedRoot);
             payload = (\<lambda>pf. \<lparr>rp_name = rq_name req, rp_network = ''dns'', rp_records = map registry_entry_json (reg_records entry),
               rp_metadata = JObj ([(''source'', JStr ''registry''), (''registryVersion'', JNum (snap_version snapshot)),
                 (''registryUpdatedAt'', JStr (snap_updatedAt snapshot)), (''root'', JStr rt)] @ opt_field ''proof'' pf)\<rparr>)
         in if \<not> rq_proof req then Inr (Inr (payload None))
         else rbind (buildProof (gv_registry env) (snap_records snapshot) (rq_name req)) (\<lambda>(leaf, pf, _).
           if \<not> verifyProof (gv_registry env) rt leaf pf
           then Inr (Inl (error_reply 500 ''PROOF_INVALID'' ''proof failed to verify'' False))
           else Inr (Inr (payload (Some (proof_json rt (snap_version snapshot) leaf pf))))))"

definition find_record :: "resolve_env \<Rightarrow> string \<Rightarrow> RegistrySnapshot \<Rightarrow> RegistryRecord option" where
  "find_record env name snapshot =
     List.find (\<lambda>r. gw_normalizeName (gv_registry env) (reg_name r) = gw_normalizeName (gv_registry env) name) (snap_records snapshot)"

definition load_registry ::
  "resolve_env \<Rightarrow> resolve_config \<Rightarrow> int \<Rightarrow> ResolverState \<Rightarrow> RegistrySnapshot res \<times> ResolverState" where
  "load_registry env cfg now st =
     (let (loaded, cached) = loadSnapshot (gv_registry env) (gv_readSnapshot env) now (gc_registryPath cfg) (gz_snapshot st)
      in (loaded, st\<lparr>gz_snapshot := cached\<rparr>))"

definition resolve_registry ::
  "resolve_env \<Rightarrow> resolve_config \<Rightarrow> int \<Rightarrow> resolve_request \<Rightarrow> ResolverState \<Rightarrow> http_reply res \<times> ResolverState" where
  "resolve_registry env cfg now req st =
     (let (loaded, st1) = load_registry env cfg now st in
      case loaded of
        Inl e \<Rightarrow> (Inl e, st1)
      | Inr snapshot \<Rightarrow>
          (case find_record env (rq_name req) snapshot of
             None \<Rightarrow> (Inr (error_reply 404 ''NOT_FOUND'' ''record not found'' False), st1)
           | Some entry \<Rightarrow>
               (let (store, anchors) = loadAnchorStore (gz_anchors st1); st2 = st1\<lparr>gz_anchors := anchors\<rparr> in
                case registry_payload env req snapshot entry (st_latest store) of
                  Inl e \<Rightarrow> (Inl e, st2)
                | Inr (Inl reply) \<Rightarrow> (Inr reply, st2)
                | Inr (Inr payload) \<Rightarrow>
                    (case attachAuthoritySig env cfg payload of
                       Inl e \<Rightarrow> (Inl e, st2)
                     | Inr sp \<Rightarrow>
                         (let (policy, st3) = gw_currentAttackPolicy env cfg (now div 1000) st2;
                              served = (if ap_ttlClampS policy > 0
                                then sp\<lparr>rp_records := map (clamp_ttl env (ap_ttlClampS policy)) (rp_records sp)\<rparr> else sp)
                          in (Inr (200, response_json served), st3))))))"

text \<open>ENS and SNS: the records of the service, signed; no record is an error, as is an exception.\<close>

definition service_reply ::
  "resolve_env \<Rightarrow> resolve_config \<Rightarrow> string \<Rightarrow> string \<Rightarrow> string \<Rightarrow> (string \<times> json) list \<Rightarrow> ResolveRecord list res \<Rightarrow> http_reply" where
  "service_reply env cfg name network label metadata records =
     (case rbind records (\<lambda>rs. if rs = [] then Inr None
        else rmap Some (attachAuthoritySig env cfg \<lparr>rp_name = name, rp_network = network,
          rp_records = map resolve_record_json rs, rp_metadata = JObj metadata\<rparr>)) of
        Inl e \<Rightarrow> error_reply 502 (if error_message e = label @ ''_TIMEOUT'' then ''UPSTREAM_TIMEOUT'' else ''UPSTREAM_ERROR'')
          (error_message e) True
      | Inr None \<Rightarrow> error_reply 404 ''NOT_FOUND'' (label @ '' record not found'') False
      | Inr (Some p) \<Rightarrow> (200, response_json p))"

definition resolve_ens :: "resolve_env \<Rightarrow> resolve_config \<Rightarrow> string \<Rightarrow> http_reply" where
  "resolve_ens env cfg name = service_reply env cfg name ''ens'' ''ENS''
     [(''source'', JStr ''ens''), (''network'', JStr (gc_ensNetwork cfg))] (resolveEns (gv_ens env) name (gc_ethRpc cfg))"

definition resolve_sns :: "resolve_env \<Rightarrow> resolve_config \<Rightarrow> string \<Rightarrow> http_reply" where
  "resolve_sns env cfg name = service_reply env cfg name ''sns'' ''SNS''
     [(''source'', JStr ''sns''), (''cluster'', JStr (gc_snsCluster cfg))] (resolveSns (gv_sns env) name (gc_solRpc cfg))"

text \<open>A request has its reply, waits for upstream, or waits for the nodes with what it would answer and store.\<close>

datatype resolve_outcome = Replied "http_reply res" | AwaitDoh string | AwaitNodes ResolveResponse jsnum

definition resolve_key :: "string \<Rightarrow> string" where
  "resolve_key name = ''resolve:'' @ lower name"

definition count_request :: "ResolverState \<Rightarrow> ResolverState" where
  "count_request st = st\<lparr>gz_counters := (gz_counters st)\<lparr>ct_totalReq := ct_totalReq (gz_counters st) + 1\<rparr>\<rparr>"

definition cached_reply :: "ResolveResponse \<Rightarrow> http_reply" where
  "cached_reply p = (200, response_json (p\<lparr>rp_metadata := obj_set (rp_metadata p) ''cache'' (JStr ''hit'')\<rparr>))"

definition resolve_elsewhere ::
  "resolve_env \<Rightarrow> resolve_config \<Rightarrow> int \<Rightarrow> string \<Rightarrow> ResolverState \<Rightarrow> resolve_outcome \<times> ResolverState" where
  "resolve_elsewhere env cfg now name st =
     (if gc_enableEns cfg \<and> supportsEns name then (Replied (Inr (resolve_ens env cfg name)), st)
      else if gc_enableSns cfg \<and> supportsSns name then (Replied (Inr (resolve_sns env cfg name)), st)
      else (case cacheGet now (resolve_key name) st of
          (Some p, st1) \<Rightarrow> (Replied (Inr (cached_reply p)), st1)
        | (None, st1) \<Rightarrow> (AwaitDoh name, st1)))"

definition handle_resolve ::
  "resolve_env \<Rightarrow> resolve_config \<Rightarrow> int \<Rightarrow> resolve_request \<Rightarrow> ResolverState \<Rightarrow> resolve_outcome \<times> ResolverState" where
  "handle_resolve env cfg now req st0 =
     (let name = rq_name req in
      if name = [] then (Replied (Inr (400, JObj [(''error'', JStr ''missing_name'')])), st0)
      else let st = count_request st0 in
        case (if is_gated cfg name then voucher_reply (verifyVoucherHeader env cfg now (rq_voucher req)) else None) of
          Some r \<Rightarrow> (Replied (Inr r), st)
        | None \<Rightarrow>
            if ends_with (lower name) ''.dns'' then
              (if \<not> gc_registryEnabled cfg then (Replied (Inr (error_reply 501 ''REGISTRY_DISABLED'' ''registry not enabled'' False)), st)
               else let (r, st1) = resolve_registry env cfg now req st in (Replied r, st1))
            else resolve_elsewhere env cfg now name st)"

definition doh_failed :: "js_error \<Rightarrow> ResolverState \<Rightarrow> resolve_outcome \<times> ResolverState" where
  "doh_failed e st =
     (Replied (Inr (error_reply 502 (if error_message e = ''upstream_timeout'' then ''UPSTREAM_TIMEOUT'' else ''UPSTREAM_ERROR'')
        (error_message e) True)),
      st\<lparr>gz_counters := (gz_counters st)\<lparr>ct_gatewayErr := ct_gatewayErr (gz_counters st) + 1\<rparr>\<rparr>)"

definition store_reply :: "int \<Rightarrow> ResolveResponse \<Rightarrow> jsnum \<Rightarrow> ResolverState \<Rightarrow> resolve_outcome \<times> ResolverState" where
  "store_reply now p effectiveTtl st =
     (Replied (Inr (200, response_json p)), cacheSet now (resolve_key (rp_name p)) (nmul effectiveTtl (Fin 1000)) p st)"

definition resolve_doh ::
  "resolve_env \<Rightarrow> resolve_config \<Rightarrow> int \<Rightarrow> string \<Rightarrow> doh_reply res \<Rightarrow> ResolverState \<Rightarrow> resolve_outcome \<times> ResolverState" where
  "resolve_doh env cfg now name reply st0 =
     (case resolveViaDoh env cfg reply of
        Inl e \<Rightarrow> doh_failed e st0
      | Inr (records, ttl) \<Rightarrow>
          (let (policy, st) = gw_currentAttackPolicy env cfg (now div 1000) st0;
               effectiveTtl = (if ap_ttlClampS policy > 0 then nmin ttl (jint (int (ap_ttlClampS policy))) else ttl) in
           case attachAuthoritySig env cfg \<lparr>rp_name = name, rp_network = ''icann'', rp_records = records,
               rp_metadata = JObj [(''source'', JStr ''doh''), (''cache'', JStr ''miss'')]\<rparr> of
             Inl e \<Rightarrow> doh_failed e st
           | Inr p \<Rightarrow> if gc_nodesEnabled cfg then (AwaitNodes p effectiveTtl, st) else store_reply now p effectiveTtl st))"

definition resolve_nodes ::
  "resolve_env \<Rightarrow> resolve_config \<Rightarrow> int \<Rightarrow> ResolveResponse \<Rightarrow> jsnum \<Rightarrow> json option list \<Rightarrow> ResolverState \<Rightarrow> resolve_outcome \<times> ResolverState" where
  "resolve_nodes env cfg now p effectiveTtl responses st =
     (case verifyWithNodes env cfg p responses of
        Inl e \<Rightarrow> doh_failed e st
      | Inr (NodesFail message) \<Rightarrow> (Replied (Inr (error_reply 502 ''NODE_QUORUM_FAILED'' message True)), st)
      | Inr (NodesAgree quorum matches) \<Rightarrow>
          store_reply now (p\<lparr>rp_metadata := obj_set (obj_set (rp_metadata p) ''nodeQuorum'' (JNum quorum)) ''nodeMatches''
            (JNum (jint (int matches)))\<rparr>) effectiveTtl st)"

subsection \<open>The registry routes and the write gate\<close>

definition registry_disabled :: http_reply where
  "registry_disabled = (501, JObj [(''error'', JObj [(''code'', JStr ''REGISTRY_DISABLED''), (''message'', JStr ''registry not enabled'')])])"

definition anchor_json :: "AnchorRecord \<Rightarrow> json" where
  "anchor_json a = JObj [(''root'', JStr (an_root a)), (''version'', JNum (an_version a)), (''timestamp'', JStr (an_timestamp a)),
     (''source'', JStr (an_source a))]"

definition registry_root_handler :: "resolve_env \<Rightarrow> resolve_config \<Rightarrow> int \<Rightarrow> ResolverState \<Rightarrow> http_reply res \<times> ResolverState" where
  "registry_root_handler env cfg now st0 =
     (if \<not> gc_registryEnabled cfg then (Inr registry_disabled, st0)
      else let (loaded, st) = load_registry env cfg now st0 in
        case rbind loaded (\<lambda>s. rmap (Pair s) (gw_buildMerkleRoot (gv_registry env) (snap_records s))) of
          Inl e \<Rightarrow> (Inl e, st)
        | Inr (snapshot, rt) \<Rightarrow>
            (let (store, anchors) = loadAnchorStore (gz_anchors st) in
             (Inr (200, JObj [(''root'', JStr rt), (''version'', JNum (snap_version snapshot)), (''updatedAt'', JStr (snap_updatedAt snapshot)),
                (''anchoredRoot'', case st_latest store of None \<Rightarrow> JNull | Some a \<Rightarrow> anchor_json a)]), st\<lparr>gz_anchors := anchors\<rparr>)))"

definition registry_proof_handler ::
  "resolve_env \<Rightarrow> resolve_config \<Rightarrow> int \<Rightarrow> string \<Rightarrow> ResolverState \<Rightarrow> http_reply res \<times> ResolverState" where
  "registry_proof_handler env cfg now name st0 =
     (if \<not> gc_registryEnabled cfg then (Inr registry_disabled, st0)
      else if name = [] then (Inr (400, JObj [(''error'', JStr ''missing_name'')]), st0)
      else let (loaded, st) = load_registry env cfg now st0 in
        (rbind loaded (\<lambda>snapshot. rmap (\<lambda>(leaf, pf, rt).
           (200, JObj [(''root'', JStr rt), (''leaf'', JStr leaf), (''siblings'', JArr (map JStr (mp_siblings pf))),
              (''directions'', JArr (map (JStr \<circ> direction_text) (mp_directions pf))), (''version'', JNum (snap_version snapshot)),
              (''updatedAt'', JStr (snap_updatedAt snapshot))]))
           (buildProof (gv_registry env) (snap_records snapshot) name)), st))"

text \<open>The text of a property of the body; the record keeps what \<open>String\<close> and \<open>Number\<close> make of it.\<close>

definition body_text :: "resolve_env \<Rightarrow> json \<Rightarrow> string \<Rightarrow> string" where
  "body_text env body k = js_to_string (gv_numstr env) (the (jprop body k))"

definition registry_anchor_handler ::
  "resolve_env \<Rightarrow> resolve_config \<Rightarrow> string \<Rightarrow> json \<Rightarrow> ResolverState \<Rightarrow> http_reply \<times> ResolverState" where
  "registry_anchor_handler env cfg token body st =
     (if \<not> gc_registryEnabled cfg then (registry_disabled, st)
      else if gc_adminToken cfg = [] \<or> token \<noteq> gc_adminToken cfg
        then ((403, JObj [(''error'', JObj [(''code'', JStr ''UNAUTHORIZED''), (''message'', JStr ''admin token required'')])]), st)
      else if list_ex (\<lambda>k. \<not> jtruthy (jprop body k)) [''root'', ''version'', ''timestamp'', ''source'']
        then ((400, JObj [(''error'', JObj [(''code'', JStr ''INVALID_REQUEST''), (''message'', JStr ''missing anchor fields'')])]), st)
      else let (anchored, f) = anchorRoot \<lparr>an_root = body_text env body ''root'', an_version = gv_number env (the (jprop body ''version'')),
               an_timestamp = body_text env body ''timestamp'', an_source = body_text env body ''source''\<rparr> (gz_anchors st)
        in ((200, JObj [(''anchored'', anchor_json anchored)]), st\<lparr>gz_anchors := f\<rparr>))"

definition mode_text :: "AttackMode \<Rightarrow> string" where
  "mode_text m = (case m of NORMAL \<Rightarrow> ''NORMAL'' | SUSPICIOUS \<Rightarrow> ''SUSPICIOUS'' | UNDER_ATTACK \<Rightarrow> ''UNDER_ATTACK''
     | ISOLATED \<Rightarrow> ''ISOLATED'' | RECOVERY \<Rightarrow> ''RECOVERY'')"

text \<open>
  Every request to a route registered after it passes the gate first. \<open>is_write\<close> looks at the path as it is
  spelled.
\<close>

definition is_write :: "string \<Rightarrow> string \<Rightarrow> bool" where
  "is_write http_method path \<longleftrightarrow> http_method \<noteq> ''GET'' \<and> (starts_with path ''/cache/'' \<or> starts_with path ''/registry/anchor'')"

definition write_gate ::
  "resolve_env \<Rightarrow> resolve_config \<Rightarrow> int \<Rightarrow> string \<Rightarrow> string \<Rightarrow> ResolverState \<Rightarrow> http_reply option \<times> ResolverState" where
  "write_gate env cfg now http_method path st0 =
     (let (policy, st) = gw_currentAttackPolicy env cfg (now div 1000) st0 in
      (if is_write http_method path \<and> ap_freezeWrites policy
       then Some (503, JObj [(''error'', JStr ''attack_mode_freeze_writes''), (''mode'', JStr (mode_text (gz_mode st))),
         (''reasons'', JArr (map JStr (snd (gz_decision st))))])
       else None, st))"

definition attack_mode_handler :: "resolve_env \<Rightarrow> resolve_config \<Rightarrow> int \<Rightarrow> ResolverState \<Rightarrow> http_reply \<times> ResolverState" where
  "attack_mode_handler env cfg now st0 =
     (let (p, st) = gw_currentAttackPolicy env cfg (now div 1000) st0; c = gz_counters st in
      ((200, JObj [(''ok'', JBool True), (''enabled'', JBool (gc_attackEnabled cfg)), (''mode'', JStr (mode_text (gz_mode st))),
         (''decision'', JObj [(''score'', JNum (jint (fst (gz_decision st)))), (''reasons'', JArr (map JStr (snd (gz_decision st))))]),
         (''policy'', JObj [(''minRpcQuorum'', JNum (jint (int (ap_minRpcQuorum p)))),
           (''requireStakeForReceipts'', JBool (ap_requireStakeForReceipts p)),
           (''maxReceiptsPerWalletPerMin'', JNum (jint (int (ap_maxReceiptsPerWalletPerMin p)))),
           (''maxWritesPerWalletPerHour'', JNum (jint (int (ap_maxWritesPerWalletPerHour p)))),
           (''freezeWrites'', JBool (ap_freezeWrites p)), (''ttlClampS'', JNum (jint (int (ap_ttlClampS p))))]),
         (''window'', JObj [(''secs'', JNum (gc_attackWindow cfg)), (''totalReq'', JNum (jint (ct_totalReq c))),
           (''gatewayErr'', JNum (jint (ct_gatewayErr c))), (''rpcTotal'', JNum (jint (ct_rpcTotal c))),
           (''rpcErr'', JNum (jint (ct_rpcErr c)))])]), st))"

end
