(* ===== verification/ResolveProps.thy ===== *)
theory ResolveProps
  imports GatewayResolve
begin

section \<open>Properties of resolution in the gateway\<close>

text \<open>
  A run of the resolver is a sequence of steps on its state and on the log of what every step did and when: a request
  that waits for upstream is resumed with an upstream answer, one that waits for the nodes with theirs, in any order with
  other requests. Anchors are posted, and every route looks at the attack mode.
\<close>

type_synonym resolve_log = "(int \<times> resolve_outcome) list"

text \<open>The decoder of DNS messages gives every answer a finite number of seconds to live.\<close>

definition doh_wf :: "doh_reply res \<Rightarrow> bool" where
  "doh_wf reply \<longleftrightarrow> (case reply of Inr (DohAnswers as) \<Rightarrow> list_all (\<lambda>a. \<exists>q. jprop a ''ttl'' = Some (JNum (Fin q))) as | _ \<Rightarrow> True)"

inductive resolver_step ::
  "resolve_env \<Rightarrow> resolve_config \<Rightarrow> ResolverState \<times> resolve_log \<Rightarrow> ResolverState \<times> resolve_log \<Rightarrow> bool" for env cfg where
  start: "handle_resolve env cfg now req st = (out, st') \<Longrightarrow> resolver_step env cfg (st, lg) (st', (now, out) # lg)"
| doh: "(t, AwaitDoh name) \<in> set lg \<Longrightarrow> doh_wf reply \<Longrightarrow> resolve_doh env cfg now name reply st = (out, st') \<Longrightarrow>
    resolver_step env cfg (st, lg) (st', (now, out) # lg)"
| nodes: "(t, AwaitNodes p ttl) \<in> set lg \<Longrightarrow> resolve_nodes env cfg now p ttl responses st = (out, st') \<Longrightarrow>
    resolver_step env cfg (st, lg) (st', (now, out) # lg)"
| gate: "write_gate env cfg now m path st = (blocked, st') \<Longrightarrow> resolver_step env cfg (st, lg) (st', lg)"
| attack: "attack_mode_handler env cfg now st = (r, st') \<Longrightarrow> resolver_step env cfg (st, lg) (st', lg)"
| rt: "registry_root_handler env cfg now st = (r, st') \<Longrightarrow> resolver_step env cfg (st, lg) (st', lg)"
| pf: "registry_proof_handler env cfg now name st = (r, st') \<Longrightarrow> resolver_step env cfg (st, lg) (st', lg)"
| anchor: "registry_anchor_handler env cfg token body st = (r, st') \<Longrightarrow> resolver_step env cfg (st, lg) (st', lg)"

definition resolver_init :: "int \<Rightarrow> AnchorStore option \<Rightarrow> ResolverState" where
  "resolver_init start anchors =
     \<lparr>gz_counters = \<lparr>ct_windowStartUnix = start, ct_totalReq = 0, ct_gatewayErr = 0, ct_rpcTotal = 0, ct_rpcErr = 0\<rparr>,
      gz_mode = NORMAL, gz_lastStable = None, gz_decision = (0, []), gz_cache = Map.empty, gz_snapshot = None, gz_anchors = anchors\<rparr>"

definition resolver_run :: "resolve_env \<Rightarrow> resolve_config \<Rightarrow> ResolverState \<Rightarrow> resolve_log \<Rightarrow> bool" where
  "resolver_run env cfg st lg \<longleftrightarrow> (\<exists>start anchors. (resolver_step env cfg)\<^sup>*\<^sup>* (resolver_init start anchors, []) (st, lg))"

subsection \<open>What each operation leaves alone\<close>

lemma policy_frame:
  "gw_currentAttackPolicy env cfg now st = (policy, st') \<Longrightarrow>
     gz_cache st' = gz_cache st \<and> gz_anchors st' = gz_anchors st \<and> gz_snapshot st' = gz_snapshot st"
  by (auto simp: gw_currentAttackPolicy_def Let_def split: if_splits)

lemma gate_frame:
  "write_gate env cfg now m path st = (b, st') \<Longrightarrow>
     gz_cache st' = gz_cache st \<and> gz_anchors st' = gz_anchors st \<and> gz_snapshot st' = gz_snapshot st"
  by (auto simp: write_gate_def split: prod.splits dest: policy_frame)

lemma attack_frame:
  "attack_mode_handler env cfg now st = (r, st') \<Longrightarrow>
     gz_cache st' = gz_cache st \<and> gz_anchors st' = gz_anchors st \<and> gz_snapshot st' = gz_snapshot st"
  by (auto simp: attack_mode_handler_def Let_def split: prod.splits dest: policy_frame)

text \<open>Reading the file of anchors creates it when there is none, and changes nothing else.\<close>

definition same_anchors :: "AnchorStore option \<Rightarrow> AnchorStore option \<Rightarrow> bool" where
  "same_anchors f f' \<longleftrightarrow> f' = f \<or> (f = None \<and> f' = Some \<lparr>st_latest = None, st_history = []\<rparr>)"

lemma loadAnchorStore_same: "loadAnchorStore f = (store, f') \<Longrightarrow> same_anchors f f' \<and> f' = Some store"
  by (auto simp: loadAnchorStore_def same_anchors_def Let_def split: option.splits)

lemma load_registry_frame:
  "load_registry env cfg now st = (r, st') \<Longrightarrow> gz_cache st' = gz_cache st \<and> gz_anchors st' = gz_anchors st \<and>
     gz_mode st' = gz_mode st \<and> gz_counters st' = gz_counters st \<and> gz_lastStable st' = gz_lastStable st"
  by (auto simp: load_registry_def split: prod.splits)

lemma registry_frame:
  "resolve_registry env cfg now req st = (r, st') \<Longrightarrow> gz_cache st' = gz_cache st \<and> same_anchors (gz_anchors st) (gz_anchors st')"
  by (auto simp: resolve_registry_def Let_def same_anchors_def split: prod.splits sum.splits option.splits
      dest!: load_registry_frame loadAnchorStore_same policy_frame)

subsection \<open>The attack mode\<close>

definition calm :: "AttackMode \<Rightarrow> bool" where
  "calm m \<longleftrightarrow> m = NORMAL \<or> m = SUSPICIOUS"

lemma gw_score: "thresholds_ok th \<Longrightarrow> fst (attack_score ns (gw_signals t c) th) \<le> 40"
  by (auto simp: attack_score_def gw_signals_def Let_def thresholds_ok_def)

lemma gw_mode_calm:
  "thresholds_ok th \<Longrightarrow> calm m \<Longrightarrow> calm (ad_nextMode (evaluateAttackMode ns clk m (gw_signals t c) th mem))"
  using gw_score [of th ns t c]
  by (auto simp: evaluateAttackMode_def gw_signals_def Let_def calm_def split: prod.split)

lemma policy_calm:
  "thresholds_ok (gc_thresholds cfg) \<Longrightarrow> calm (gz_mode st) \<Longrightarrow> gw_currentAttackPolicy env cfg now st = (policy, st') \<Longrightarrow>
     calm (gz_mode st') \<and> policy = policyForMode (gz_mode st')"
  by (auto simp: gw_currentAttackPolicy_def Let_def gw_mode_calm split: if_splits) (simp_all add: calm_def)

lemma calm_policy: "calm m \<Longrightarrow> \<not> ap_freezeWrites (policyForMode m) \<and> (ap_ttlClampS (policyForMode m) = 0 \<or> ap_ttlClampS (policyForMode m) = 300)"
  by (auto simp: calm_def)

lemma cacheGet_frame:
  "cacheGet now key st = (r, st') \<Longrightarrow> gz_mode st' = gz_mode st \<and> gz_anchors st' = gz_anchors st \<and>
     gz_cache st' \<subseteq>\<^sub>m gz_cache st \<and> (\<forall>p. r = Some p \<longrightarrow> st' = st)"
  by (auto simp: cacheGet_def map_le_def split: option.splits if_splits)

lemma elsewhere_frame:
  "resolve_elsewhere env cfg now name st = (out, st') \<Longrightarrow>
     gz_mode st' = gz_mode st \<and> gz_anchors st' = gz_anchors st \<and> gz_cache st' \<subseteq>\<^sub>m gz_cache st"
  by (auto simp: resolve_elsewhere_def split: if_splits prod.splits option.splits dest: cacheGet_frame)

lemma policy_calmI:
  "gw_currentAttackPolicy env cfg now st = (policy, st') \<Longrightarrow> thresholds_ok (gc_thresholds cfg) \<Longrightarrow> calm (gz_mode st) \<Longrightarrow> calm (gz_mode st')"
  using policy_calm by blast

lemma registry_calm:
  "resolve_registry env cfg now req st = (r, st') \<Longrightarrow> thresholds_ok (gc_thresholds cfg) \<Longrightarrow> calm (gz_mode st) \<Longrightarrow> calm (gz_mode st')"
  by (auto simp: resolve_registry_def Let_def split: prod.splits sum.splits option.splits
      dest!: load_registry_frame intro: policy_calmI)

lemma start_calm:
  "handle_resolve env cfg now req st = (out, st') \<Longrightarrow> thresholds_ok (gc_thresholds cfg) \<Longrightarrow> calm (gz_mode st) \<Longrightarrow> calm (gz_mode st')"
  by (auto simp: handle_resolve_def Let_def count_request_def split: if_splits option.splits prod.splits
      dest!: elsewhere_frame intro: registry_calm)

lemma doh_calm:
  "resolve_doh env cfg now name reply st = (out, st') \<Longrightarrow> thresholds_ok (gc_thresholds cfg) \<Longrightarrow> calm (gz_mode st) \<Longrightarrow> calm (gz_mode st')"
  by (auto simp: resolve_doh_def Let_def doh_failed_def store_reply_def cacheSet_def split: if_splits sum.splits prod.splits
      intro: policy_calmI)

lemma nodes_calm:
  "resolve_nodes env cfg now p ttl responses st = (out, st') \<Longrightarrow> calm (gz_mode st) \<Longrightarrow> calm (gz_mode st')"
  by (auto simp: resolve_nodes_def doh_failed_def store_reply_def cacheSet_def split: sum.splits NodeResult.splits)

lemma root_calm:
  "registry_root_handler env cfg now st = (r, st') \<Longrightarrow> calm (gz_mode st) \<Longrightarrow> calm (gz_mode st')"
  by (auto simp: registry_root_handler_def Let_def split: if_splits sum.splits prod.splits dest!: load_registry_frame)

lemma proof_calm:
  "registry_proof_handler env cfg now name st = (r, st') \<Longrightarrow> calm (gz_mode st) \<Longrightarrow> calm (gz_mode st')"
  by (auto simp: registry_proof_handler_def Let_def split: if_splits prod.splits dest!: load_registry_frame)

lemma anchor_calm:
  "registry_anchor_handler env cfg token body st = (r, st') \<Longrightarrow> calm (gz_mode st) \<Longrightarrow> calm (gz_mode st')"
  by (auto simp: registry_anchor_handler_def Let_def split: if_splits prod.splits)

lemma step_calm:
  assumes "resolver_step env cfg c c'" "thresholds_ok (gc_thresholds cfg)" "calm (gz_mode (fst c))"
  shows "calm (gz_mode (fst c'))"
  using assms
proof (cases rule: resolver_step.cases)
  case gate
  then show ?thesis using assms by (auto simp: write_gate_def split: prod.splits intro: policy_calmI)
next
  case attack
  then show ?thesis using assms by (auto simp: attack_mode_handler_def Let_def split: prod.splits intro: policy_calmI)
qed (auto intro: start_calm doh_calm nodes_calm root_calm proof_calm anchor_calm)

lemma run_calm: "resolver_run env cfg st lg \<Longrightarrow> thresholds_ok (gc_thresholds cfg) \<Longrightarrow> calm (gz_mode st)"
proof -
  assume t: "thresholds_ok (gc_thresholds cfg)" and "resolver_run env cfg st lg"
  then obtain s0 as where "(resolver_step env cfg)\<^sup>*\<^sup>* (resolver_init s0 as, []) (st, lg)" by (auto simp: resolver_run_def)
  then have "calm (gz_mode (fst (st, lg)))"
    by (induction rule: rtranclp_induct) (auto simp: resolver_init_def calm_def [of NORMAL] intro: step_calm [OF _ t])
  then show ?thesis by simp
qed

text \<open>The gate never blocks a write. Two signals reach the attack mode, and together they score below the threshold of an attack:
  in every state the resolver reaches the mode is \<open>NORMAL\<close> or \<open>SUSPICIOUS\<close>, so no request is refused for its
  sake and the TTL is clamped to 300 seconds or not at all.\<close>

theorem gateway_never_freezes:
  assumes "resolver_run env cfg st lg" "thresholds_ok (gc_thresholds cfg)" "gw_currentAttackPolicy env cfg t st = (policy, st')"
  shows "fst (write_gate env cfg now http_method path st) = None \<and> gz_mode st' \<in> {NORMAL, SUSPICIOUS} \<and> ap_ttlClampS policy \<in> {0, 300}"
proof -
  note c = run_calm [OF assms(1,2)]
  obtain p2 st2 where s: "gw_currentAttackPolicy env cfg (now div 1000) st = (p2, st2)" by fastforce
  show ?thesis
    using policy_calm [OF assms(2) c assms(3)] policy_calm [OF assms(2) c s] calm_policy [of "gz_mode st'"] calm_policy [of "gz_mode st2"]
    by (simp add: write_gate_def s calm_def)
qed

definition toy_resolve :: resolve_env where
  "toy_resolve = \<lparr>gv_registry = example_env, gv_receipt = toy_receipt_env, gv_blake3 = (\<lambda>m. replicate 32 (of_nat (length m))),
     gv_hmac = (\<lambda>k m. replicate 32 (of_nat (length k + length m))), gv_parse = (\<lambda>_. None),
     gv_number = (\<lambda>v. case v of JNum n \<Rightarrow> n | _ \<Rightarrow> NaN), gv_modestr = (\<lambda>_. []), gv_ens = ge_ens toy_gateway, gv_sns = ge_sns toy_gateway,
     gv_readSnapshot = (\<lambda>_. Inr \<lparr>snap_version = Fin 1, snap_updatedAt = [], snap_records = []\<rparr>), gv_nodeFile = None\<rparr>"

definition toy_resolve_config :: resolve_config where
  "toy_resolve_config = \<lparr>gc_registryEnabled = True, gc_registryPath = ''registry.json'', gc_adminToken = ''admin'',
     gc_gatedSuffixes = [''.premium''], gc_voucherMode = ''memory'', gc_voucherSecret = ''secret'', gc_enableEns = False,
     gc_enableSns = False, gc_ethRpc = [], gc_solRpc = [], gc_ensNetwork = ''mainnet'', gc_snsCluster = ''devnet'',
     gc_cacheTtlMax = Fin 300, gc_nodesEnabled = False, gc_nodeQuorum = Fin 3, gc_privateKeyHex = [], gc_pubkeyHex = [],
     gc_attackEnabled = True, gc_attackWindow = Fin 120, gc_thresholds = example_thresholds\<rparr>"

lemma toy_thresholds_ok: "thresholds_ok (gc_thresholds toy_resolve_config)"
  by (simp add: toy_resolve_config_def thresholds_ok_def example_thresholds_def)

lemma init_run: "resolver_run env cfg (resolver_init start anchors) []"
  by (auto simp: resolver_run_def)

lemma gateway_never_freezes_witness:
  "fst (write_gate toy_resolve toy_resolve_config 5000 ''POST'' ''/cache/upsert'' (resolver_init 0 None)) = None"
proof -
  obtain policy st where "gw_currentAttackPolicy toy_resolve toy_resolve_config 5 (resolver_init 0 None) = (policy, st)" by fastforce
  from gateway_never_freezes [OF init_run toy_thresholds_ok this] show ?thesis by blast
qed

subsection \<open>The signature of the resolver\<close>

lemma jprop_obj_set: "jprop (obj_set (JObj kvs) k x) k' = (if k' = k then Some x else jprop (JObj kvs) k')"
  by (simp add: obj_set_def jprop_def update_conv')

lemma obj_set_obj: "\<exists>kvs'. obj_set (JObj kvs) k x = JObj kvs'"
  by (simp add: obj_set_def)

lemma signed_response:
  assumes "attachAuthoritySig env cfg p = Inr sp" "rp_metadata p = JObj kvs"
  shows "rp_name sp = rp_name p" "rp_network sp = rp_network p" "rp_records sp = rp_records p"
    "k \<notin> {''resultHash'', ''authoritySig'', ''authorityPubKey''} \<Longrightarrow> jprop (rp_metadata sp) k = jprop (rp_metadata p) k"
    "\<exists>kvs. rp_metadata sp = JObj kvs"
  using assms by (auto simp: attachAuthoritySig_def Let_def result_simps obj_set_def jprop_def update_conv' split: if_splits)

definition resolver_key_ok :: "resolve_env \<Rightarrow> resolve_config \<Rightarrow> bool" where
  "resolver_key_ok env cfg \<longleftrightarrow> ed25519_laws (re_ed25519 (gv_receipt env)) \<and> gc_privateKeyHex cfg \<noteq> [] \<and>
     length (server_hexToBytes (gc_privateKeyHex cfg)) = 32"

definition authority_verifies :: "resolve_env \<Rightarrow> resolve_config \<Rightarrow> string \<Rightarrow> string \<Rightarrow> bool" where
  "authority_verifies env cfg resultHash signature \<longleftrightarrow>
     verify_raw (re_ed25519 (gv_receipt env)) (hex_pairs signature) (authority_message resultHash)
       (getPublicKey (re_ed25519 (gv_receipt env)) (server_hexToBytes (gc_privateKeyHex cfg)))"

lemma signed_hash:
  assumes "attachAuthoritySig env cfg p = Inr sp" "rp_metadata p = JObj kvs" "resolver_key_ok env cfg"
  shows "jprop (rp_metadata sp) ''resultHash'' = Some (JStr (computeResultHash env p))"
    "\<exists>s. jprop (rp_metadata sp) ''authoritySig'' = Some (JStr s) \<and> authority_verifies env cfg (computeResultHash env p) s"
  using assms by (auto simp: attachAuthoritySig_def Let_def result_simps obj_set_def jprop_def update_conv' resolver_key_ok_def
      signAuthority_def ed25519Sign_def authority_verifies_def ed25519_laws_def hex_pairs_hex split: if_splits)

subsection \<open>Answers from the registry\<close>

lemma registry_refused: "registry_payload env req snapshot entry anchor = Inr (Inl reply) \<Longrightarrow> fst reply \<in> {409, 500}"
  by (auto simp: registry_payload_def Let_def result_simps error_reply_def split: if_splits prod.splits)

text \<open>What a successful answer is made of: \<open>k\<close> is the clamp of the policy, 0 for none.\<close>

definition clamped :: "resolve_env \<Rightarrow> nat \<Rightarrow> json list \<Rightarrow> json list" where
  "clamped env k rs = (if k > 0 then map (clamp_ttl env k) rs else rs)"

lemma registry_ok:
  assumes "resolve_registry env cfg now req st = (Inr (200, r), st')"
  obtains snapshot st1 entry payload sp k where
    "load_registry env cfg now st = (Inr snapshot, st1)" "find_record env (rq_name req) snapshot = Some entry"
    "registry_payload env req snapshot entry (st_latest (fst (loadAnchorStore (gz_anchors st)))) = Inr (Inr payload)"
    "attachAuthoritySig env cfg payload = Inr sp" "r = response_json (sp\<lparr>rp_records := clamped env k (rp_records sp)\<rparr>)"
proof -
  obtain res st1 where l: "load_registry env cfg now st = (res, st1)" by fastforce
  have a: "gz_anchors st1 = gz_anchors st" using load_registry_frame [OF l] by blast
  obtain store f where s: "loadAnchorStore (gz_anchors st) = (store, f)" by fastforce
  note R = assms [unfolded resolve_registry_def l prod.case Let_def]
  obtain snapshot where "res = Inr snapshot" using R by (cases res) auto
  note R = R [unfolded this sum.case]
  obtain entry where e: "find_record env (rq_name req) snapshot = Some entry"
    using R by (cases "find_record env (rq_name req) snapshot") (auto simp: error_reply_def)
  note R = R [unfolded e option.case a s prod.case]
  obtain payload where p: "registry_payload env req snapshot entry (st_latest store) = Inr (Inr payload)"
    using R registry_refused [of env req snapshot entry "st_latest store"]
    by (cases "registry_payload env req snapshot entry (st_latest store)") (fastforce split: sum.splits)+
  note R = R [unfolded p sum.case]
  obtain sp where sp: "attachAuthoritySig env cfg payload = Inr sp"
    using R by (cases "attachAuthoritySig env cfg payload") auto
  note R = R [unfolded sp sum.case]
  obtain policy st3 where q: "gw_currentAttackPolicy env cfg (now div 1000) (st1\<lparr>gz_anchors := f\<rparr>) = (policy, st3)" by fastforce
  have "r = response_json (sp\<lparr>rp_records := clamped env (ap_ttlClampS policy) (rp_records sp)\<rparr>)"
    using R by (auto simp: q clamped_def split: if_splits)
  with that l \<open>res = Inr snapshot\<close> e p sp s show thesis by simp
qed

lemma registry_payload_parts:
  assumes "registry_payload env req snapshot entry anchor = Inr (Inr p)"
  obtains rt kvs where "gw_buildMerkleRoot (gv_registry env) (snap_records snapshot) = Inr rt"
    "\<And>a. anchor = Some a \<Longrightarrow> an_root a = rt" "rp_metadata p = JObj kvs" "jprop (JObj kvs) ''root'' = Some (JStr rt)"
    "rp_name p = rq_name req" "rp_network p = ''dns''" "rp_records p = map registry_entry_json (reg_records entry)"
    "rq_proof req \<Longrightarrow> \<exists>leaf pf x. buildProof (gv_registry env) (snap_records snapshot) (rq_name req) = Inr (leaf, pf, x) \<and>
       verifyProof (gv_registry env) rt leaf pf \<and> jprop (JObj kvs) ''proof'' = Some (proof_json rt (snap_version snapshot) leaf pf)"
  using assms by (auto simp: registry_payload_def Let_def result_simps opt_field_def jprop_def intro: that
      split: if_splits option.splits prod.splits)

lemma all2_left: "list_all2 P xs ys \<Longrightarrow> x \<in> set xs \<Longrightarrow> \<exists>y \<in> set ys. P x y"
  by (induction rule: list_all2_induct) auto

lemma all2_right: "list_all2 P xs ys \<Longrightarrow> y \<in> set ys \<Longrightarrow> \<exists>x \<in> set xs. P x y"
  by (induction rule: list_all2_induct) auto

lemma buildLeaves_all2:
  assumes "buildLeaves env records = Inr leaves"
  obtains ls where "set leaves = set ls" "list_all2 (\<lambda>r l. hashLeaf env r = Inr (leaf_hash l) \<and> leaf_name l = normalizeRegistryName env (reg_name r)) records ls"
proof -
  obtain ls where t: "traverse (\<lambda>r. rbind (hashLeaf env r) (\<lambda>h. Inr \<lparr>leaf_name = normalizeRegistryName env (reg_name r), leaf_hash = h\<rparr>)) records = Inr ls"
    and l: "leaves = js_sort (\<lambda>a b. env_localeCompare env (leaf_name a) (leaf_name b)) ls"
    using assms by (auto simp: buildLeaves_def result_simps)
  have "list_all2 (\<lambda>r l. hashLeaf env r = Inr (leaf_hash l) \<and> leaf_name l = normalizeRegistryName env (reg_name r)) records ls"
    using t unfolding traverse_Inr_iff by (rule list.rel_mono_strong) (auto simp: result_simps)
  with that l show thesis by simp
qed

lemma buildLeaves_member:
  assumes "buildLeaves env records = Inr leaves" "l \<in> set leaves"
  shows "\<exists>r \<in> set records. hashLeaf env r = Inr (leaf_hash l) \<and> leaf_name l = normalizeRegistryName env (reg_name r)"
proof -
  obtain ls where "set leaves = set ls" "list_all2 (\<lambda>r l. hashLeaf env r = Inr (leaf_hash l) \<and> leaf_name l = normalizeRegistryName env (reg_name r)) records ls"
    using buildLeaves_all2 [OF assms(1)] by blast
  then show ?thesis using assms(2) all2_right by fastforce
qed

lemma buildLeaves_covers:
  assumes "buildLeaves env records = Inr leaves" "r \<in> set records"
  shows "\<exists>l \<in> set leaves. leaf_name l = normalizeRegistryName env (reg_name r)"
proof -
  obtain ls where "set leaves = set ls" "list_all2 (\<lambda>r l. hashLeaf env r = Inr (leaf_hash l) \<and> leaf_name l = normalizeRegistryName env (reg_name r)) records ls"
    using buildLeaves_all2 [OF assms(1)] by blast
  then show ?thesis using assms(2) all2_left by fastforce
qed

text \<open>The leaf of a proof is that of a record of the name asked for, when there is one.\<close>

lemma proof_leaf:
  assumes "buildProof env records name = Inr (leaf, pf, x)" "entry \<in> set records"
    "normalizeRegistryName env (reg_name entry) = normalizeRegistryName env name"
  shows "\<exists>r \<in> set records. hashLeaf env r = Inr leaf \<and> normalizeRegistryName env (reg_name r) = normalizeRegistryName env name"
proof -
  let ?p = "\<lambda>l. leaf_name l = normalizeRegistryName env name"
  obtain leaves where l: "buildLeaves env records = Inr leaves" using assms(1) by (auto simp: buildProof_def Let_def result_simps)
  obtain l where "l \<in> set leaves" "?p l" using buildLeaves_covers [OF l assms(2)] assms(3) by auto
  then obtain i where i: "find_index ?p leaves = Some i" using find_index_exists [of l leaves ?p] by blast
  then have "leaf = leaf_hash (leaves ! i)" using assms(1) l by (auto simp: buildProof_def Let_def result_simps split: prod.splits)
  moreover have "leaves ! i \<in> set leaves" "?p (leaves ! i)" using find_index_Some [OF i] by auto
  ultimately show ?thesis using buildLeaves_member [OF l, of "leaves ! i"] by auto
qed

text \<open>C3: An answer for a name of the registry is anchored and proved: its records are those of a record of that name in the snapshot,
  up to the clamp of the TTL; its root is the root of the snapshot, and the anchored one when there is an anchor; and a proof that was asked for
  verifies against that root, from the hash of a record of that name. The snapshot is the one in force at that time.\<close>

theorem registry_answer_anchored:
  assumes "resolve_registry env cfg now req st = (Inr (200, r), st')"
  shows "\<exists>snapshot entry rt meta k.
    fst (load_registry env cfg now st) = Inr snapshot \<and> entry \<in> set (snap_records snapshot) \<and>
    normalizeRegistryName (gv_registry env) (reg_name entry) = normalizeRegistryName (gv_registry env) (rq_name req) \<and>
    jprop r ''records'' = Some (JArr (clamped env k (map registry_entry_json (reg_records entry)))) \<and>
    jprop r ''metadata'' = Some meta \<and> jprop meta ''root'' = Some (JStr rt) \<and>
    gw_buildMerkleRoot (gv_registry env) (snap_records snapshot) = Inr rt \<and>
    (\<forall>f a. gz_anchors st = Some f \<longrightarrow> st_latest f = Some a \<longrightarrow> an_root a = rt) \<and>
    (rq_proof req \<longrightarrow> (\<exists>leaf pf. jprop meta ''proof'' = Some (proof_json rt (snap_version snapshot) leaf pf) \<and>
      verifyProof (gv_registry env) rt leaf pf \<and>
      (\<exists>rec \<in> set (snap_records snapshot). gw_hashLeaf (gv_registry env) rec = Inr leaf \<and>
        normalizeRegistryName (gv_registry env) (reg_name rec) = normalizeRegistryName (gv_registry env) (rq_name req))))"
proof -
  obtain snapshot st1 entry payload sp k where l: "load_registry env cfg now st = (Inr snapshot, st1)"
    and e: "find_record env (rq_name req) snapshot = Some entry"
    and p: "registry_payload env req snapshot entry (st_latest (fst (loadAnchorStore (gz_anchors st)))) = Inr (Inr payload)"
    and sp: "attachAuthoritySig env cfg payload = Inr sp" and r: "r = response_json (sp\<lparr>rp_records := clamped env k (rp_records sp)\<rparr>)"
    using registry_ok [OF assms] by metis
  obtain rt kvs where rt: "gw_buildMerkleRoot (gv_registry env) (snap_records snapshot) = Inr rt"
    "\<And>a. st_latest (fst (loadAnchorStore (gz_anchors st))) = Some a \<Longrightarrow> an_root a = rt" "rp_metadata payload = JObj kvs"
    "jprop (JObj kvs) ''root'' = Some (JStr rt)" "rp_records payload = map registry_entry_json (reg_records entry)"
    "rq_proof req \<Longrightarrow> \<exists>leaf pf x. buildProof (gv_registry env) (snap_records snapshot) (rq_name req) = Inr (leaf, pf, x) \<and>
       verifyProof (gv_registry env) rt leaf pf \<and> jprop (JObj kvs) ''proof'' = Some (proof_json rt (snap_version snapshot) leaf pf)"
    using registry_payload_parts [OF p] by metis
  have n: "entry \<in> set (snap_records snapshot)"
    "normalizeRegistryName (gv_registry env) (reg_name entry) = normalizeRegistryName (gv_registry env) (rq_name req)"
    using e by (auto simp: find_record_def find_Some_iff gw_normalizeName_eq)
  have h: "gw_hashLeaf (gv_registry env) = hashLeaf (gv_registry env)"
    by (intro ext) (simp add: gw_hashLeaf_def hashLeaf_def gw_canonicalizeRecord_def canonicalizeRecord_def gw_normalizeName_eq)
  note s = signed_response [OF sp rt(3)]
  have m: "jprop (rp_metadata sp) k = jprop (JObj kvs) k" if "k \<in> {''root'', ''proof''}" for k using that s(4) [of k] rt(3) by auto
  have a: "an_root a = rt" if "gz_anchors st = Some f" "st_latest f = Some a" for f a
    using rt(2) [of a] that by (simp add: loadAnchorStore_def)
  have j: "jprop r ''records'' = Some (JArr (clamped env k (map registry_entry_json (reg_records entry))))"
    "jprop r ''metadata'' = Some (rp_metadata sp)"
    using r s(3) rt(5) by (simp_all add: response_json_def jprop_def)
  have pf: "\<exists>leaf pf. jprop (rp_metadata sp) ''proof'' = Some (proof_json rt (snap_version snapshot) leaf pf) \<and>
      verifyProof (gv_registry env) rt leaf pf \<and>
      (\<exists>rec \<in> set (snap_records snapshot). gw_hashLeaf (gv_registry env) rec = Inr leaf \<and>
        normalizeRegistryName (gv_registry env) (reg_name rec) = normalizeRegistryName (gv_registry env) (rq_name req))" if q: "rq_proof req"
  proof -
    obtain leaf pf x where b: "buildProof (gv_registry env) (snap_records snapshot) (rq_name req) = Inr (leaf, pf, x)"
      "verifyProof (gv_registry env) rt leaf pf" "jprop (JObj kvs) ''proof'' = Some (proof_json rt (snap_version snapshot) leaf pf)"
      using rt(6) [OF q] by blast
    then show ?thesis using proof_leaf [OF b(1) n] m [of "''proof''"] unfolding h by (intro exI [of _ leaf] exI [of _ pf]) simp
  qed
  show ?thesis
    using l n j m [of "''root''"] rt(1,4) a pf by (intro exI [of _ snapshot] exI [of _ entry] exI [of _ rt] exI [of _ "rp_metadata sp"] exI [of _ k]) simp
qed

definition toy_snapshot :: RegistrySnapshot where
  "toy_snapshot = \<lparr>snap_version = Fin 1, snap_updatedAt = ''now'', snap_records = [example_record ''a.dns'']\<rparr>"

definition toy_loaded :: ResolverState where
  "toy_loaded = (resolver_init 0 None)\<lparr>gz_snapshot := Some \<lparr>sc_loadedAt = 0, sc_snapshot = toy_snapshot\<rparr>\<rparr>"

definition toy_resolve_request :: resolve_request where
  "toy_resolve_request = \<lparr>rq_name = ''a.dns'', rq_proof = True, rq_voucher = []\<rparr>"

lemma toy_registry_run:
  assumes "\<And>p. \<exists>sp. attachAuthoritySig toy_resolve cfg p = Inr sp"
  shows "\<exists>r st'. resolve_registry toy_resolve cfg 0 toy_resolve_request toy_loaded = (Inr (200, r), st')"
proof -
  let ?rec = "example_record ''a.dns''" and ?env = example_env
  obtain h where h: "hashLeaf ?env ?rec = Inr h" using example_hashLeaf by blast
  let ?l = "\<lparr>leaf_name = normalizeRegistryName ?env (reg_name ?rec), leaf_hash = h\<rparr>"
  have L: "buildLeaves ?env [?rec] = Inr [?l]" using h by (simp add: buildLeaves_def)
  have T: "buildTree ?env [?l] = [[h]]" by (simp add: buildTree_def tree_layers.simps)
  have R: "gw_buildMerkleRoot ?env [?rec] = Inr h"
    by (simp add: gw_buildMerkleRoot_def gw_buildLeaves_eq L T tree_root_def elem_at_def or_default_def)
  have n: "reg_name ?rec = ''a.dns''" by (simp add: example_record_def)
  have B: "buildProof ?env [?rec] ''a.dns'' = Inr (h, \<lparr>mp_siblings = [], mp_directions = []\<rparr>, h)"
    by (simp add: buildProof_def L T [unfolded n] n Let_def tree_root_def elem_at_def or_default_def)
  have V: "verifyProof ?env h h \<lparr>mp_siblings = [], mp_directions = []\<rparr>" by (simp add: verifyProof_def)
  have "load_registry toy_resolve cfg 0 toy_loaded = (Inr toy_snapshot, toy_loaded)"
    by (simp add: load_registry_def loadSnapshot_def toy_loaded_def CACHE_TTL_MS_def)
  moreover have "find_record toy_resolve ''a.dns'' toy_snapshot = Some ?rec" by (simp add: find_record_def toy_snapshot_def n)
  moreover have "gv_registry toy_resolve = ?env" "snap_records toy_snapshot = [?rec]"
    "gz_anchors toy_loaded = None" "rq_name toy_resolve_request = ''a.dns''" "rq_proof toy_resolve_request"
    by (simp_all add: toy_resolve_def toy_snapshot_def toy_loaded_def resolver_init_def toy_resolve_request_def)
  moreover note assms
  ultimately show ?thesis
    by (auto simp: resolve_registry_def registry_payload_def R B V Let_def loadAnchorStore_def split: prod.split sum.split)
      (metis sum.distinct(1))
qed

lemma registry_answer_anchored_witness:
  "\<exists>r st' rt meta. resolve_registry toy_resolve toy_resolve_config 0 toy_resolve_request toy_loaded = (Inr (200, r), st') \<and>
     jprop r ''metadata'' = Some meta \<and> jprop meta ''root'' = Some (JStr rt)"
proof -
  have "\<exists>sp. attachAuthoritySig toy_resolve toy_resolve_config p = Inr sp" for p
    by (simp add: attachAuthoritySig_def toy_resolve_config_def)
  from toy_registry_run [OF this] obtain r st'
    where "resolve_registry toy_resolve toy_resolve_config 0 toy_resolve_request toy_loaded = (Inr (200, r), st')" by blast
  from this registry_answer_anchored [OF this] show ?thesis by blast
qed


definition toy_signing :: resolve_config where
  "toy_signing = toy_resolve_config\<lparr>gc_privateKeyHex := hex (replicate 32 7)\<rparr>"

lemma toy_signing_key: "resolver_key_ok toy_resolve toy_signing"
proof -
  have "hex (replicate 32 (7 :: byte)) \<noteq> []" using length_hex [of "replicate 32 (7 :: byte)"] by auto
  then show ?thesis
    by (simp add: resolver_key_ok_def toy_signing_def toy_resolve_def toy_receipt_env_laws server_hexToBytes_def hex_not_0x hex_pairs_hex)
qed


subsection \<open>The nodes\<close>

text \<open>The nodes whose records read as those of the answer.\<close>

definition agreeing :: "resolve_env \<Rightarrow> ResolveResponse \<Rightarrow> json option list \<Rightarrow> nat" where
  "agreeing env p responses = length (filter (\<lambda>r. case r of None \<Rightarrow> False | Some res \<Rightarrow>
     jtruthy (Some res) \<and> normalizeRecords env (node_records res) = normalizeRecords env (JArr (rp_records p))) responses)"

lemma count_matches_agreeing:
  assumes "normalizeRecords env (JArr (rp_records p)) = Inr txt0" "count_matches env txt0 responses = Inr n"
  shows "n = agreeing env p responses"
  using assms(2)
proof (induction responses arbitrary: n)
  case (Cons r rs)
  show ?case
  proof (cases "\<exists>res. r = Some res \<and> jtruthy (Some res)")
    case True
    then obtain res where "r = Some res" "jtruthy (Some res)" by blast
    then show ?thesis using Cons assms(1)
      by (auto simp: count_matches_def agreeing_def List.map_filter_def result_simps)
  next
    case False
    then show ?thesis using Cons by (cases r) (auto simp: count_matches_def agreeing_def List.map_filter_def)
  qed
qed (simp add: count_matches_def agreeing_def List.map_filter_def)

text \<open>A node, or upstream, gave records that cannot be read.\<close>

definition is_right :: "'a res \<Rightarrow> bool" where
  "is_right r \<longleftrightarrow> (case r of Inl _ \<Rightarrow> False | Inr _ \<Rightarrow> True)"

definition unreadable :: "resolve_env \<Rightarrow> ResolveResponse \<Rightarrow> json option list \<Rightarrow> bool" where
  "unreadable env p responses \<longleftrightarrow>
     list_ex (\<lambda>v. \<not> is_right (normalizeRecords env v)) (JArr (rp_records p) # map node_records (List.map_filter id responses))"

lemma verify_fails: "verifyWithNodes env cfg p responses = Inl e \<Longrightarrow> loadNodeList env \<noteq> [] \<and> unreadable env p responses"
proof -
  assume v: "verifyWithNodes env cfg p responses = Inl e"
  then have n: "loadNodeList env \<noteq> []" by (auto simp: verifyWithNodes_def)
  show ?thesis
  proof (cases "normalizeRecords env (JArr (rp_records p))")
    case (Inr txt0)
    with v n have "\<exists>e. traverse (\<lambda>res. normalizeRecords env (node_records res)) (filter (\<lambda>r. jtruthy (Some r)) (List.map_filter id responses)) = Inl e"
      by (auto simp: verifyWithNodes_def Let_def count_matches_def rmap_def rbind_def split: sum.splits)
    then obtain res e' where "res \<in> set (List.map_filter id responses)" "normalizeRecords env (node_records res) = Inl e'"
      by (auto dest!: traverse_Inl_ex)
    with n show ?thesis by (force simp: unreadable_def is_right_def list_ex_iff)
  qed (use n in \<open>simp add: unreadable_def is_right_def\<close>)
qed



subsection \<open>The cache of responses\<close>

definition short_ttl :: "rat \<Rightarrow> jsnum \<Rightarrow> bool" where
  "short_ttl cap ttl \<longleftrightarrow> (\<exists>x. ttl = Fin x \<and> 0 < x \<and> x \<le> max 60 cap)"

definition number_of_ttl :: "resolve_env \<Rightarrow> bool" where
  "number_of_ttl env \<longleftrightarrow> (\<forall>q. gv_number env (JNum (Fin q)) = Fin q)"

definition resolver_inv :: "rat \<Rightarrow> ResolverState \<Rightarrow> resolve_log \<Rightarrow> bool" where
  "resolver_inv cap st lg \<longleftrightarrow>
     (\<forall>key e p. gz_cache st key = Some (e, p) \<longrightarrow> key = resolve_key (rp_name p) \<and>
        (\<exists>t ttl. (t, Replied (Inr (200, response_json p))) \<in> set lg \<and> short_ttl cap ttl \<and> e = nadd (jint t) (nmul ttl (Fin 1000)))) \<and>
     (\<forall>t p ttl. (t, AwaitNodes p ttl) \<in> set lg \<longrightarrow> short_ttl cap ttl)"

lemma resolver_inv_shrink:
  "resolver_inv cap st lg \<Longrightarrow> gz_cache st' \<subseteq>\<^sub>m gz_cache st \<Longrightarrow> (\<And>p ttl. out = AwaitNodes p ttl \<Longrightarrow> short_ttl cap ttl) \<Longrightarrow>
     resolver_inv cap st' ((now, out) # lg)"
  unfolding resolver_inv_def map_le_def by (simp, metis domI)

lemma resolver_inv_frame: "resolver_inv cap st lg \<Longrightarrow> gz_cache st' = gz_cache st \<Longrightarrow> resolver_inv cap st' lg"
  by (simp add: resolver_inv_def)

lemma resolver_inv_store:
  assumes "resolver_inv cap st lg" "short_ttl cap ttl" "store_reply now p ttl st0 = (out, st')" "gz_cache st0 = gz_cache st"
  shows "resolver_inv cap st' ((now, out) # lg)"
  using assms by (auto simp: resolver_inv_def store_reply_def cacheSet_def split: if_splits) blast+

lemma short_min: "short_ttl cap ttl \<Longrightarrow> 0 < k \<Longrightarrow> short_ttl cap (nmin ttl (jint (int k)))"
  by (auto simp: short_ttl_def nmin_def)

lemma doh_ttl_short:
  assumes "resolveViaDoh env cfg reply = Inr (records, ttl)" "doh_wf reply" "gc_cacheTtlMax cfg = Fin cap" "number_of_ttl env"
  shows "short_ttl cap ttl"
proof -
  obtain as where r: "reply = Inr (DohAnswers as)"
    using assms(1) by (auto simp: resolveViaDoh_def split: sum.splits doh_reply.splits if_splits)
  let ?rs = "map (doh_record env) (filter (\<lambda>a. jtruthy (jprop a ''type'') \<and> jtruthy (jprop a ''data'')) as)"
  have t: "ttl = doh_ttl env cfg ?rs" using assms(1) r by (auto simp: resolveViaDoh_def Let_def)
  have n: "\<exists>x. 0 < x \<and> x \<le> max 60 cap \<and> nmax (Fin 30) (nmin (Fin cap) (Fin q)) = Fin x" for q
    by (auto simp: nmax_def nmin_def)
  show ?thesis
  proof (cases ?rs)
    case Nil
    then show ?thesis unfolding t by (simp add: doh_ttl_def short_ttl_def)
  next
    case (Cons a rest)
    then have "a \<in> set ?rs" by simp
    then obtain b where b: "b \<in> set as" "a = doh_record env b" by auto
    then obtain q where "jprop b ''ttl'' = Some (JNum (Fin q))" using assms(2) r by (auto simp: doh_wf_def list_all_iff)
    then have "jprop a ''ttl'' = Some (JNum (Fin q))" using b by (simp add: doh_record_def opt_field_def jprop_def)
    then have "ttl = nmax (Fin 30) (nmin (Fin cap) (Fin (if q = 0 then 60 else q)))"
      using Cons assms(3,4) unfolding t by (simp add: doh_ttl_def number_of_ttl_def ntruthy_def)
    then obtain y where "ttl = nmax (Fin 30) (nmin (Fin cap) (Fin y))" by blast
    then show ?thesis using n [of y] by (auto simp: short_ttl_def)
  qed
qed

lemma start_inv:
  assumes "resolver_inv cap st lg" "handle_resolve env cfg now req st = (out, st')"
  shows "resolver_inv cap st' ((now, out) # lg)"
proof (rule resolver_inv_shrink [OF assms(1)])
  show "gz_cache st' \<subseteq>\<^sub>m gz_cache st"
    using assms(2) by (auto simp: handle_resolve_def Let_def count_request_def split: if_splits option.splits prod.splits
        dest!: elsewhere_frame registry_frame)
  show "short_ttl cap ttl" if "out = AwaitNodes p ttl" for p ttl
    using assms(2) that by (auto simp: handle_resolve_def resolve_elsewhere_def Let_def split: if_splits option.splits prod.splits)
qed

lemma failed_inv:
  "resolver_inv cap st lg \<Longrightarrow> gz_cache st0 = gz_cache st \<Longrightarrow> doh_failed e st0 = (out, st') \<Longrightarrow> resolver_inv cap st' ((now, out) # lg)"
  by (rule resolver_inv_shrink) (auto simp: doh_failed_def)

lemma doh_inv:
  assumes "resolver_inv cap st lg" "resolve_doh env cfg now name reply st = (out, st')" "doh_wf reply"
    "gc_cacheTtlMax cfg = Fin cap" "number_of_ttl env"
  shows "resolver_inv cap st' ((now, out) # lg)"
proof (cases "resolveViaDoh env cfg reply")
  case (Inl e)
  then show ?thesis using assms(2) failed_inv [OF assms(1) refl] by (simp add: resolve_doh_def)
next
  case (Inr rt)
  obtain records ttl where rt: "rt = (records, ttl)" by fastforce
  note sh = doh_ttl_short [OF Inr [unfolded rt] assms(3-5)]
  obtain policy st0 where p: "gw_currentAttackPolicy env cfg (now div 1000) st = (policy, st0)" by fastforce
  have c: "gz_cache st0 = gz_cache st" using policy_frame [OF p] by blast
  let ?t = "if ap_ttlClampS policy > 0 then nmin ttl (jint (int (ap_ttlClampS policy))) else ttl"
  have s2: "short_ttl cap ?t" using sh short_min by simp
  show ?thesis
    using assms(2) resolver_inv_store [OF assms(1) s2 _ c] failed_inv [OF assms(1) c] resolver_inv_shrink [OF assms(1), of st0 out now] s2 c
    by (auto simp: resolve_doh_def Inr rt p Let_def split: sum.splits if_splits)
qed

lemma nodes_inv:
  assumes "resolver_inv cap st lg" "resolve_nodes env cfg now p ttl responses st = (out, st')" "(t, AwaitNodes p ttl) \<in> set lg"
  shows "resolver_inv cap st' ((now, out) # lg)"
proof -
  have "short_ttl cap ttl" using assms(1,3) unfolding resolver_inv_def by blast
  then show ?thesis
    using assms(2) resolver_inv_store [OF assms(1) _ _ refl] failed_inv [OF assms(1) refl] resolver_inv_shrink [OF assms(1), of st out now]
    by (auto simp: resolve_nodes_def split: sum.splits NodeResult.splits)
qed

lemma step_inv:
  assumes "resolver_step env cfg c c'" "resolver_inv cap (fst c) (snd c)" "gc_cacheTtlMax cfg = Fin cap" "number_of_ttl env"
  shows "resolver_inv cap (fst c') (snd c')"
  using assms(1)
proof (cases rule: resolver_step.cases)
  case (rt now st r st' lg)
  then show ?thesis using assms(2) by (auto simp: registry_root_handler_def Let_def split: if_splits sum.splits prod.splits
        dest!: load_registry_frame intro: resolver_inv_frame)
next
  case (pf now name st r st' lg)
  then show ?thesis using assms(2) by (auto simp: registry_proof_handler_def Let_def split: if_splits prod.splits
        dest!: load_registry_frame intro: resolver_inv_frame)
next
  case (anchor token body st r st' lg)
  then show ?thesis using assms(2) by (auto simp: registry_anchor_handler_def Let_def split: if_splits prod.splits
        intro: resolver_inv_frame)
next
  case (gate now m path st blocked st' lg)
  then show ?thesis using assms(2) gate_frame [OF gate(3)] by (auto intro: resolver_inv_frame)
next
  case (attack now st r st' lg)
  then show ?thesis using assms(2) attack_frame [OF attack(3)] by (auto intro: resolver_inv_frame)
qed (use assms(2-) in \<open>auto intro: start_inv doh_inv nodes_inv\<close>)

lemma run_inv:
  assumes "resolver_run env cfg st lg" "gc_cacheTtlMax cfg = Fin cap" "number_of_ttl env"
  shows "resolver_inv cap st lg"
proof -
  obtain s0 as where "(resolver_step env cfg)\<^sup>*\<^sup>* (resolver_init s0 as, []) (st, lg)" using assms(1) by (auto simp: resolver_run_def)
  then have "resolver_inv cap (fst (st, lg)) (snd (st, lg))"
  proof (induction rule: rtranclp_induct)
    case base
    show ?case by (simp add: resolver_init_def resolver_inv_def)
  next
    case (step c c')
    then show ?case using step_inv [OF _ _ assms(2,3)] by blast
  qed
  then show ?thesis by simp
qed

text \<open>C8: Whatever the order in which requests, upstream answers and answers of nodes interleave, what the cache answers for a name is
  an answer that was given for that name before, at most as long ago as the configured bound on the TTL, or a minute.\<close>

theorem resolve_cache_fresh:
  assumes "resolver_run env cfg st lg" "gc_cacheTtlMax cfg = Fin cap" "number_of_ttl env"
    "cacheGet now (resolve_key name) st = (Some p, st')"
  shows "\<exists>t. (t, Replied (Inr (200, response_json p))) \<in> set lg \<and> of_int now \<le> of_int t + 1000 * max 60 cap \<and>
    lower (rp_name p) = lower name"
proof -
  obtain e where e: "gz_cache st (resolve_key name) = Some (e, p)" "\<not> nlt e (jint now)"
    using assms(4) by (auto simp: cacheGet_def split: option.splits if_splits)
  obtain t ttl where "resolve_key name = resolve_key (rp_name p)" "(t, Replied (Inr (200, response_json p))) \<in> set lg"
    "short_ttl cap ttl" "e = nadd (jint t) (nmul ttl (Fin 1000))"
    using run_inv [OF assms(1-3)] e(1) unfolding resolver_inv_def by blast
  moreover from this obtain x where "ttl = Fin x" "x \<le> max 60 cap" by (auto simp: short_ttl_def)
  ultimately show ?thesis using e(2)
    by (intro exI [of _ t]) (auto simp: nmul_def resolve_key_def)
qed

lemma resolve_cache_fresh_witness:
  "\<exists>st lg st' p t. resolver_run toy_resolve toy_resolve_config st lg \<and> cacheGet 1000 (resolve_key ''A'') st = (Some p, st') \<and>
     (t, Replied (Inr (200, response_json p))) \<in> set lg \<and> lower (rp_name p) = lower ''A''"
proof -
  let ?env = "toy_resolve" and ?cfg = "toy_resolve_config" and ?i = "resolver_init 0 None"
  let ?req = "\<lparr>rq_name = ''a'', rq_proof = False, rq_voucher = []\<rparr>"
  let ?p = "\<lparr>rp_name = ''a'', rp_network = ''icann'', rp_records = [], rp_metadata = JObj [(''source'', JStr ''doh''), (''cache'', JStr ''miss'')]\<rparr>"
  have lw: "lower ''A'' = lower ''a''" "lower ''a'' = ''a''" by code_simp+
  have "is_gated ?cfg ''a'' = False" by (simp add: is_gated_def toy_resolve_config_def ends_with_def)
  then have s1: "handle_resolve ?env ?cfg 0 ?req ?i = (AwaitDoh ''a'', count_request ?i)"
    by (simp add: handle_resolve_def resolve_elsewhere_def ends_with_def toy_resolve_config_def cacheGet_def count_request_def resolver_init_def)
  obtain policy st0 where p: "gw_currentAttackPolicy ?env ?cfg 1 (count_request ?i) = (policy, st0)" by fastforce
  let ?t = "if ap_ttlClampS policy > 0 then nmin (Fin 60) (jint (int (ap_ttlClampS policy))) else Fin 60"
  let ?st = "cacheSet 1000 (resolve_key ''a'') (nmul ?t (Fin 1000)) ?p st0" and ?out = "Replied (Inr (200, response_json ?p))"
  have s2: "resolve_doh ?env ?cfg 1000 ''a'' (Inr (DohAnswers [])) (count_request ?i) = (?out, ?st)"
    using p by (simp add: resolve_doh_def resolveViaDoh_def doh_ttl_def attachAuthoritySig_def store_reply_def toy_resolve_config_def)
  have t1: "resolver_step ?env ?cfg (?i, []) (count_request ?i, [(0, AwaitDoh ''a'')])" by (rule resolver_step.start [OF s1])
  have t2: "resolver_step ?env ?cfg (count_request ?i, [(0, AwaitDoh ''a'')]) (?st, [(1000, ?out), (0, AwaitDoh ''a'')])"
    by (rule resolver_step.doh [OF _ _ s2]) (simp_all add: doh_wf_def)
  have r: "resolver_run ?env ?cfg ?st [(1000, ?out), (0, AwaitDoh ''a'')]"
    unfolding resolver_run_def using converse_rtranclp_into_rtranclp [of "resolver_step ?env ?cfg", OF t1 r_into_rtranclp, OF t2] by blast
  have "\<not> nlt (nadd (jint 1000) (nmul ?t (Fin 1000))) (jint 1000)" by (auto simp: nmul_def nmin_def)
  then have g: "cacheGet 1000 (resolve_key ''A'') ?st = (Some ?p, ?st)" by (simp add: cacheGet_def cacheSet_def resolve_key_def lw)
  have "number_of_ttl ?env" by (simp add: number_of_ttl_def toy_resolve_def)
  moreover have "gc_cacheTtlMax ?cfg = Fin 300" by (simp add: toy_resolve_config_def)
  ultimately have "\<exists>t. (t, Replied (Inr (200, response_json ?p))) \<in> set [(1000 :: int, ?out), (0, AwaitDoh ''a'')] \<and> lower (rp_name ?p) = lower ''A''"
    using resolve_cache_fresh [OF r _ _ g] by blast
  with r g show ?thesis by blast
qed

subsection \<open>Anchors\<close>

definition authorized_anchor :: "resolve_config \<Rightarrow> string \<Rightarrow> AnchorStore option \<Rightarrow> AnchorStore option \<Rightarrow> bool" where
  "authorized_anchor cfg token f f' \<longleftrightarrow> gc_registryEnabled cfg \<and> token = gc_adminToken cfg \<and> token \<noteq> [] \<and>
     (\<exists>a. f' = Some \<lparr>st_latest = Some a, st_history = take 1000 (a # (case f of None \<Rightarrow> [] | Some s \<Rightarrow> st_history s))\<rparr>)"

lemma root_anchors:
  "registry_root_handler env cfg now st = (r, st') \<Longrightarrow> same_anchors (gz_anchors st) (gz_anchors st')"
  by (auto simp: registry_root_handler_def Let_def same_anchors_def split: if_splits sum.splits prod.splits
      dest!: load_registry_frame loadAnchorStore_same)

lemma start_anchors:
  "handle_resolve env cfg now req st = (out, st') \<Longrightarrow> same_anchors (gz_anchors st) (gz_anchors st')"
  by (auto simp: handle_resolve_def Let_def count_request_def same_anchors_def split: if_splits option.splits prod.splits
      dest!: elsewhere_frame registry_frame)

lemma doh_anchors: "resolve_doh env cfg now name reply st = (out, st') \<Longrightarrow> gz_anchors st' = gz_anchors st"
  by (auto simp: resolve_doh_def Let_def doh_failed_def store_reply_def cacheSet_def split: if_splits sum.splits prod.splits dest: policy_frame)

lemma nodes_anchors: "resolve_nodes env cfg now p ttl responses st = (out, st') \<Longrightarrow> gz_anchors st' = gz_anchors st"
  by (auto simp: resolve_nodes_def doh_failed_def store_reply_def cacheSet_def split: sum.splits NodeResult.splits)

text \<open>No step of the resolver touches the file of anchors but a post with the administrator's token: that one puts its record first and
  keeps the thousand newest; the others leave the file as it is, or create an empty one.\<close>

theorem anchors_authorized:
  assumes "resolver_step env cfg (st, lg) (st', lg')"
  shows "same_anchors (gz_anchors st) (gz_anchors st') \<or> (\<exists>token. authorized_anchor cfg token (gz_anchors st) (gz_anchors st'))"
  using assms
proof (cases rule: resolver_step.cases)
  case (anchor token body r)
  then show ?thesis
    by (auto simp: registry_anchor_handler_def Let_def same_anchors_def authorized_anchor_def anchorRoot_def loadAnchorStore_def
        split: if_splits prod.splits option.splits)
next
  case (gate now m path blocked)
  then show ?thesis using gate_frame [OF gate(2)] by (auto simp: same_anchors_def)
next
  case (attack now r)
  then show ?thesis using attack_frame [OF attack(2)] by (auto simp: same_anchors_def)
next
  case (pf now name r)
  then show ?thesis by (auto simp: registry_proof_handler_def Let_def same_anchors_def split: if_splits prod.splits dest!: load_registry_frame)
qed (auto dest: root_anchors start_anchors doh_anchors nodes_anchors simp: same_anchors_def)

lemma anchors_authorized_witness:
  "\<exists>st'. resolver_step toy_resolve toy_resolve_config (resolver_init 0 None, []) (st', []) \<and>
     authorized_anchor toy_resolve_config ''admin'' None (gz_anchors st')"
proof -
  let ?body = "JObj [(''root'', JStr ''r''), (''version'', JNum (Fin 1)), (''timestamp'', JStr ''t''), (''source'', JStr ''s'')]"
  obtain r st' where h: "registry_anchor_handler toy_resolve toy_resolve_config ''admin'' ?body (resolver_init 0 None) = (r, st')" by fastforce
  have s: "resolver_step toy_resolve toy_resolve_config (resolver_init 0 None, []) (st', [])" by (rule resolver_step.anchor [OF h])
  have "\<not> same_anchors None (gz_anchors st')"
    using h by (auto simp: registry_anchor_handler_def toy_resolve_config_def jprop_def ntruthy_def Let_def anchorRoot_def loadAnchorStore_def same_anchors_def split: prod.splits)
  moreover have "gz_anchors (resolver_init 0 None) = None" by (simp add: resolver_init_def)
  ultimately obtain token where "authorized_anchor toy_resolve_config token None (gz_anchors st')"
    using anchors_authorized [OF s] by auto
  moreover from this have "token = ''admin''" by (simp add: authorized_anchor_def toy_resolve_config_def)
  ultimately show ?thesis using s by blast
qed

subsection \<open>Vouchers\<close>

definition voucher_valid :: "resolve_env \<Rightarrow> resolve_config \<Rightarrow> int \<Rightarrow> string \<Rightarrow> bool" where
  "voucher_valid env cfg now header \<longleftrightarrow> header \<noteq> [] \<and> gc_voucherMode cfg = ''memory'' \<and> gc_voucherSecret cfg \<noteq> [] \<and>
     (\<exists>voucher payload s. gv_parse env header = Some voucher \<and> jprop voucher ''payload'' = Some payload \<and> jtruthy (Some payload) \<and>
        jprop voucher ''signature'' = Some (JStr s) \<and> s \<noteq> [] \<and>
        s = hex (gv_hmac env (gc_voucherSecret cfg) (utf8_bytes (json_str (gv_numstr env) payload))) \<and> \<not> voucher_expired env now payload)"

lemma verifyVoucherHeader_ok: "verifyVoucherHeader env cfg now header = VoucherOk \<longleftrightarrow> voucher_valid env cfg now header"
  by (auto simp: verifyVoucherHeader_def voucher_valid_def split: option.splits if_splits)

text \<open>A name under a gated suffix is resolved, from whatever source, only with a voucher whose payload carries the keyed hash of the
  gateway's secret and has not expired; anything else is refused, and only the request counter moves. The test is on the spelling:
  with a final dot the name is not gated.\<close>

theorem voucher_gate:
  assumes "is_gated cfg (rq_name req)" "rq_name req \<noteq> []" "handle_resolve env cfg now req st = (out, st')"
  shows "(voucher_valid env cfg now (rq_voucher req) \<or> (\<exists>status body. out = Replied (Inr (status, body)) \<and> status \<in> {402, 403, 501} \<and> st' = count_request st)) \<and>
    (\<forall>name. (\<forall>s \<in> set (gc_gatedSuffixes cfg). s \<noteq> [] \<and> last s \<noteq> CHR ''.'') \<longrightarrow> \<not> is_gated cfg (name @ ''.''))"
proof (intro conjI allI impI)
  show "voucher_valid env cfg now (rq_voucher req) \<or> (\<exists>status body. out = Replied (Inr (status, body)) \<and> status \<in> {402, 403, 501} \<and> st' = count_request st)"
    using assms by (cases "verifyVoucherHeader env cfg now (rq_voucher req)")
      (auto simp: verifyVoucherHeader_ok handle_resolve_def voucher_reply_def error_reply_def Let_def split: if_splits)
  fix name assume s: "\<forall>s \<in> set (gc_gatedSuffixes cfg). s \<noteq> [] \<and> last s \<noteq> CHR ''.''"
  have l: "last (lower (name @ ''.'')) = CHR ''.''" by (simp add: lower_def lower_char_def)
  show "\<not> is_gated cfg (name @ ''.'')"
  proof
    assume "is_gated cfg (name @ ''.'')"
    then obtain u where u: "u \<in> set (gc_gatedSuffixes cfg)" "ends_with (lower (name @ ''.'')) u"
      unfolding is_gated_def list_ex_iff by blast
    then obtain t where "lower (name @ ''.'') = t @ u" unfolding ends_with_iff by blast
    then have "last (lower (name @ ''.'')) = last u" using u(1) s by simp
    then show False using l s u(1) by simp
  qed
qed

lemma voucher_gate_witness:
  "\<exists>body. handle_resolve toy_resolve toy_resolve_config 0 \<lparr>rq_name = ''a.premium'', rq_proof = False, rq_voucher = []\<rparr> (resolver_init 0 None) =
     (Replied (Inr (402, body)), count_request (resolver_init 0 None))"
proof -
  let ?req = "\<lparr>rq_name = ''a.premium'', rq_proof = False, rq_voucher = []\<rparr>"
  have g: "is_gated toy_resolve_config (rq_name ?req)" by code_simp
  obtain out st' where r: "handle_resolve toy_resolve toy_resolve_config 0 ?req (resolver_init 0 None) = (out, st')" by fastforce
  have "\<not> voucher_valid toy_resolve toy_resolve_config 0 (rq_voucher ?req)" by (simp add: voucher_valid_def)
  then have "st' = count_request (resolver_init 0 None)" using voucher_gate [OF g _ r] by auto
  moreover have "\<exists>body. out = Replied (Inr (402, body))"
    using r g by (auto simp: handle_resolve_def verifyVoucherHeader_def voucher_reply_def error_reply_def)
  ultimately show ?thesis using r by blast
qed

end
