(* ===== verification/IpAddress.thy ===== *)
theory IpAddress
  imports Names Hosting
begin

section \<open>IP addresses\<close>

text \<open>
  \<open>isIP\<close> of the standard module \<open>net\<close>: 4 for four decimal segments without leading zeros, 6 for
  eight groups of hexadecimal digits, of which \<open>::\<close> may stand for one or more, with an optional zone; else 0.
\<close>

definition v4_segment :: "string \<Rightarrow> bool" where
  "v4_segment s \<longleftrightarrow> s \<noteq> [] \<and> length s \<le> 3 \<and> list_all (\<lambda>c. 48 \<le> (of_char c :: nat) \<and> (of_char c :: nat) \<le> 57) s \<and>
     (length s = 1 \<or> hd s \<noteq> CHR ''0'') \<and> foldl (\<lambda>n c. 10 * n + (of_char c - 48)) 0 s \<le> (255 :: nat)"

definition isIPv4 :: "string \<Rightarrow> bool" where
  "isIPv4 s \<longleftrightarrow> (let parts = split_on (CHR ''.'') s in length parts = 4 \<and> list_all v4_segment parts)"

definition v6_segment :: "string \<Rightarrow> bool" where
  "v6_segment s \<longleftrightarrow> s \<noteq> [] \<and> length s \<le> 4 \<and> list_all (\<lambda>c. hex_value c \<noteq> None) s"

text \<open>The number of 16-bit groups of a text without \<open>::\<close>; an IPv4 address at the end of the address counts for two.\<close>

definition v6_groups :: "bool \<Rightarrow> string \<Rightarrow> nat option" where
  "v6_groups tail s =
     (if s = [] then Some 0
      else let parts = split_on (CHR '':'') s in
        if \<not> list_all v6_segment (butlast parts) then None
        else if v6_segment (last parts) then Some (length parts)
        else if tail \<and> isIPv4 (last parts) then Some (length parts + 1) else None)"

definition v6_zone :: "string \<Rightarrow> bool" where
  "v6_zone s \<longleftrightarrow> s = [] \<or> (tl s \<noteq> [] \<and> list_all (\<lambda>c. is_alnum c \<or> c \<in> {CHR ''-'', CHR ''.'', CHR '':''}) (tl s))"

definition isIPv6 :: "string \<Rightarrow> bool" where
  "isIPv6 s \<longleftrightarrow>
     (let body = takeWhile (\<lambda>c. c \<noteq> CHR ''%'') s; zone = dropWhile (\<lambda>c. c \<noteq> CHR ''%'') s in
      v6_zone zone \<and> (case split_colons body of
         [whole] \<Rightarrow> v6_groups True whole = Some 8
       | [left, right] \<Rightarrow> (case (v6_groups False left, v6_groups True right) of (Some l, Some r) \<Rightarrow> l + r \<le> 7 | _ \<Rightarrow> False)
       | _ \<Rightarrow> False))"

definition isIP :: "string \<Rightarrow> nat" where
  "isIP s = (if isIPv4 s then 4 else if isIPv6 s then 6 else 0)"

end
