(* ===== verification/GatewayUpsert.thy ===== *)
theory GatewayUpsert
  imports GatewayResolve Hosting
begin

section \<open>Records cached for a mint (gateway/src/server.ts: POST /cache/upsert)\<close>

text \<open>
  The holder of a token may post records to the gateway, signed with the key of the wallet. The public key is the base-58
  text of the wallet, read by a decoder of the gateway's own. The replies of the Solana RPC server, SHA-256,
  \<open>Buffer\<close>'s base64, \<open>Number\<close> of a JSON value and the verification of the package \<open>@noble/ed25519\<close>, which
  throws for a key or a signature that is malformed, are parameters.
\<close>

subsection \<open>Base 58\<close>

definition base58_index :: "char \<Rightarrow> nat option" where
  "base58_index c = (let i = length (takeWhile (\<lambda>x. x \<noteq> c) B58) in if i < length B58 then Some i else None)"

fun b256_mul :: "nat list \<Rightarrow> nat \<Rightarrow> nat list \<times> nat" where
  "b256_mul [] carry = ([], carry)"
| "b256_mul (b # bs) carry = (let v = carry + b * 58; (bs', c) = b256_mul bs (v div 256) in (v mod 256 # bs', c))"

fun b256_push :: "nat \<Rightarrow> nat list" where
  "b256_push carry = (if 0 < carry then carry mod 256 # b256_push (carry div 256) else [])"

declare b256_push.simps [simp del]

fun base58_bytes :: "string \<Rightarrow> nat list \<Rightarrow> nat list option" where
  "base58_bytes [] bytes = Some bytes"
| "base58_bytes (ch # chs) bytes =
     (case base58_index ch of
        None \<Rightarrow> None
      | Some val \<Rightarrow> (let (bs, carry) = b256_mul bytes val in base58_bytes chs (bs @ b256_push carry)))"

definition base58Decode :: "string \<Rightarrow> bytes option" where
  "base58Decode input =
     map_option (\<lambda>bytes. map word_of_nat (rev (bytes @ replicate (length (takeWhile (\<lambda>c. c = CHR ''1'') input)) 0)))
       (base58_bytes input [0])"

definition isBase58Pubkey :: "string \<Rightarrow> bool" where
  "isBase58Pubkey v \<longleftrightarrow> 32 \<le> length v \<and> length v \<le> 44 \<and> list_all is_base58 v"

subsection \<open>What is signed\<close>

text \<open>\<open>canonicalize\<close>: JSON text with the keys of every object in the order of their code units.\<close>

primrec gw_canonicalize :: "(rat \<Rightarrow> string) \<Rightarrow> json \<Rightarrow> string" where
  "gw_canonicalize ns JNull = json_str ns JNull"
| "gw_canonicalize ns (JBool b) = json_str ns (JBool b)"
| "gw_canonicalize ns (JNum x) = json_str ns (JNum x)"
| "gw_canonicalize ns (JStr s) = json_str ns (JStr s)"
| "gw_canonicalize ns (JArr xs) = ''['' @ join '','' (map (gw_canonicalize ns) xs) @ '']''"
| "gw_canonicalize ns (JObj kvs) =
     (let entries = js_sort (\<lambda>a b. cmp_string (fst a) (fst b)) (map (map_prod id (gw_canonicalize ns)) kvs)
      in ''{'' @ join '','' (map (\<lambda>(k, t). json_quote k @ '':'' @ t) entries) @ ''}'')"

datatype rpc_reply = RpcNetworkError js_error | RpcStatus string | RpcJson json

record upsert_env =
  ue_sha :: "bytes \<Rightarrow> bytes"
  ue_numstr :: "rat \<Rightarrow> string"
  ue_number :: "json \<Rightarrow> jsnum"
  ue_unbase64 :: "string \<Rightarrow> bytes"
  ue_verify :: "bytes \<Rightarrow> bytes \<Rightarrow> bytes \<Rightarrow> bool res"

type_synonym rpc = "string \<Rightarrow> json list \<Rightarrow> rpc_reply"

definition payloadHash :: "upsert_env \<Rightarrow> json \<Rightarrow> bytes" where
  "payloadHash env payload = ue_sha env (utf8_bytes (gw_canonicalize (ue_numstr env) payload))"

subsection \<open>Questions to the chain\<close>

text \<open>Every call is counted for the attack mode, and so are the errors the server reports; a call that does not reach the
  server is not counted as an error.\<close>

definition jpath :: "json option \<Rightarrow> string list \<Rightarrow> json option" where
  "jpath v ks = foldl (\<lambda>v k. Option.bind v (\<lambda>x. jprop x k)) v ks"

definition count_rpc :: "bool \<Rightarrow> AttackCounters \<Rightarrow> AttackCounters" where
  "count_rpc err c = c\<lparr>ct_rpcTotal := ct_rpcTotal c + 1, ct_rpcErr := (if err then ct_rpcErr c + 1 else ct_rpcErr c)\<rparr>"

definition fetchJsonRpc :: "upsert_env \<Rightarrow> rpc \<Rightarrow> string \<Rightarrow> json list \<Rightarrow> AttackCounters \<Rightarrow> json option res \<times> AttackCounters" where
  "fetchJsonRpc env rpc m params c =
     (case rpc m params of
        RpcNetworkError e \<Rightarrow> (Inl e, count_rpc False c)
      | RpcStatus s \<Rightarrow> (throw (''rpc_'' @ s), count_rpc True c)
      | RpcJson v \<Rightarrow>
          if v = JNull then (Inl TypeError, count_rpc False c)
          else if jtruthy (jprop v ''error'')
            then (throw (''rpc_'' @ (let msg = jpath (jprop v ''error'') [''message''] in
                if jtruthy msg then js_to_string (ue_numstr env) (the msg) else ''error'')), count_rpc True c)
          else (Inr (jprop v ''result''), count_rpc False c))"

definition mintExists :: "upsert_env \<Rightarrow> rpc \<Rightarrow> string \<Rightarrow> AttackCounters \<Rightarrow> bool \<times> AttackCounters" where
  "mintExists env rpc mint c =
     (case fetchJsonRpc env rpc ''getAccountInfo'' [JStr mint, JObj [(''encoding'', JStr ''jsonParsed'')]] c of
        (Inl _, c') \<Rightarrow> (False, c')
      | (Inr result, c') \<Rightarrow> (jtruthy (jpath result [''value'']), c'))"

text \<open>\<open>value?.[0]\<close> of an array, or of an object with such a key.\<close>

definition first_item :: "json option \<Rightarrow> json option" where
  "first_item v = (case v of Some (JArr (x # _)) \<Rightarrow> Some x | Some (JObj kvs) \<Rightarrow> map_of kvs ''0'' | _ \<Rightarrow> None)"

definition mintOwner :: "upsert_env \<Rightarrow> rpc \<Rightarrow> string \<Rightarrow> AttackCounters \<Rightarrow> json option \<times> AttackCounters" where
  "mintOwner env rpc mint c =
     (case fetchJsonRpc env rpc ''getTokenLargestAccounts'' [JStr mint] c of
        (Inl _, c1) \<Rightarrow> (None, c1)
      | (Inr largest, c1) \<Rightarrow>
          (case jpath (first_item (jpath largest [''value''])) [''address''] of
             None \<Rightarrow> (None, c1)
           | Some acct \<Rightarrow>
               if \<not> jtruthy (Some acct) then (None, c1)
               else (case fetchJsonRpc env rpc ''getParsedAccountInfo'' [acct, JObj [(''encoding'', JStr ''jsonParsed'')]] c1 of
                   (Inl _, c2) \<Rightarrow> (None, c2)
                 | (Inr info, c2) \<Rightarrow>
                     (let owner = jpath info [''value'', ''data'', ''parsed'', ''info'', ''owner'']
                      in (if jtruthy owner then owner else None, c2)))))"

subsection \<open>The route\<close>

text \<open>The body: the fields for the mint, the wallet, the name and the signature are texts, empty when absent.\<close>

record UpsertBody =
  ub_mint :: string
  ub_wallet :: string
  ub_name :: string
  ub_sig :: string
  ub_rrtype :: "json option"
  ub_value :: "json option"
  ub_ttl :: "json option"
  ub_ts :: "json option"

record MintEntry =
  me_rrtype :: json
  me_value :: json
  me_ttl :: jsnum
  me_expiresAt :: jsnum
  me_wallet :: string

record UpsertState =
  us_counters :: AttackCounters
  us_mints :: "string \<rightharpoonup> (string \<rightharpoonup> MintEntry)"

definition body_complete :: "UpsertBody \<Rightarrow> bool" where
  "body_complete b \<longleftrightarrow> ub_mint b \<noteq> [] \<and> ub_wallet b \<noteq> [] \<and> ub_name b \<noteq> [] \<and> jtruthy (ub_rrtype b) \<and> jtruthy (ub_value b) \<and>
     jtruthy (ub_ttl b) \<and> jtruthy (ub_ts b) \<and> ub_sig b \<noteq> []"

definition upsert_payload :: "UpsertBody \<Rightarrow> json" where
  "upsert_payload b = JObj [(''mint'', JStr (ub_mint b)), (''wallet_pubkey'', JStr (ub_wallet b)), (''name'', JStr (ub_name b)),
     (''rrtype'', the (ub_rrtype b)), (''value'', the (ub_value b)), (''ttl'', the (ub_ttl b)), (''ts'', the (ub_ts b))]"

definition upsert_error :: "int \<Rightarrow> string \<Rightarrow> http_reply" where
  "upsert_error status e = (status, JObj [(''ok'', JBool False), (''error'', JStr e)])"

definition mint_key :: "upsert_env \<Rightarrow> UpsertBody \<Rightarrow> string" where
  "mint_key env b = ub_mint b @ '':'' @ lower (ub_name b) @ '':'' @ js_to_string (ue_numstr env) (the (ub_rrtype b))"

definition mint_entry :: "upsert_env \<Rightarrow> int \<Rightarrow> UpsertBody \<Rightarrow> MintEntry" where
  "mint_entry env now b =
     (let ttl = ue_number env (the (ub_ttl b)) in
      \<lparr>me_rrtype = the (ub_rrtype b), me_value = the (ub_value b), me_ttl = ttl,
       me_expiresAt = nadd (jint now) (nmul (nmin ttl (Fin 3600)) (Fin 1000)), me_wallet = ub_wallet b\<rparr>)"

text \<open>The signature: a wallet that does not decode is refused; a malformed key or signature raises an exception.\<close>

definition upsert_signature :: "upsert_env \<Rightarrow> UpsertBody \<Rightarrow> bool res" where
  "upsert_signature env b =
     (case base58Decode (ub_wallet b) of
        None \<Rightarrow> Inr False
      | Some pub \<Rightarrow> ue_verify env (ue_unbase64 env (ub_sig b)) (payloadHash env (upsert_payload b)) pub)"

definition cache_upsert ::
  "upsert_env \<Rightarrow> bool \<Rightarrow> int \<Rightarrow> rpc \<Rightarrow> UpsertBody \<Rightarrow> UpsertState \<Rightarrow> http_reply \<times> UpsertState" where
  "cache_upsert env requireMintOwner now rpc b st =
     (if \<not> body_complete b then (upsert_error 400 ''missing_fields'', st)
      else if \<not> isBase58Pubkey (ub_mint b) \<or> \<not> isBase58Pubkey (ub_wallet b) then (upsert_error 400 ''invalid_pubkey'', st)
      else let (exists, c1) = mintExists env rpc (ub_mint b) (us_counters st); st1 = st\<lparr>us_counters := c1\<rparr> in
        if \<not> exists then (upsert_error 400 ''mint_not_found'', st1)
        else let (owner, c2) = (if requireMintOwner then mintOwner env rpc (ub_mint b) c1 else (Some (JStr (ub_wallet b)), c1));
                 st2 = st\<lparr>us_counters := c2\<rparr> in
          if owner \<noteq> Some (JStr (ub_wallet b)) then (upsert_error 403 ''owner_mismatch'', st2)
          else (case upsert_signature env b of
              Inl e \<Rightarrow> (upsert_error 500 (error_message e), st2)
            | Inr False \<Rightarrow> (upsert_error 403 ''sig_invalid'', st2)
            | Inr True \<Rightarrow>
                (let bucket = (case us_mints st (ub_mint b) of Some m \<Rightarrow> m | None \<Rightarrow> Map.empty);
                     bucket' = bucket(mint_key env b \<mapsto> mint_entry env now b)
                 in ((200, JObj [(''ok'', JBool True), (''route_id'', JStr (hex (payloadHash env (upsert_payload b))))]),
                     st2\<lparr>us_mints := (us_mints st)(ub_mint b \<mapsto> bucket')\<rparr>))))"

subsection \<open>The identity of a host\<close>

definition index_of :: "string \<Rightarrow> string \<Rightarrow> nat option" where
  "index_of s needle = List.find (\<lambda>i. starts_with (drop i s) needle) [0..<Suc (length s)]"

definition parseIdentityFromHost :: "string \<Rightarrow> string option \<Rightarrow> string option" where
  "parseIdentityFromHost trdlDomain host =
     (case host of
        None \<Rightarrow> None
      | Some h \<Rightarrow>
          if h = [] then None
          else let lowered = lower h in
            (case index_of lowered ''.trdl.'' of
               None \<Rightarrow> None
             | Some idx \<Rightarrow>
                 if idx = 0 then None
                 else let identity = take idx lowered in
                   if \<not> isBase58Pubkey identity then None
                   else if trdlDomain \<noteq> [] \<and> \<not> ends_with lowered (''.trdl.'' @ trdlDomain) then None
                   else Some identity))"

section \<open>Properties\<close>

subsection \<open>Base 58\<close>

lemma b256_mul_radix: "b256_mul bs c = radix_mul 58 256 bs c"
  by (induction bs c rule: b256_mul.induct) (simp_all add: add.commute)

lemma b256_push_radix: "b256_push c = radix_push 256 c"
  by (induction c rule: b256_push.induct) (simp add: b256_push.simps radix_push.simps)

lemma base58_index_nth:
  assumes "d < 58"
  shows "base58_index (B58 ! d) = Some d"
proof -
  have "list_all (\<lambda>d. base58_index (B58 ! d) = Some d) [0..<58]" by code_simp
  with assms show ?thesis by (simp add: list_all_iff)
qed

lemma base58_bytes_digits:
  "list_all (\<lambda>d. d < 58) ds \<Longrightarrow> base58_bytes (map ((!) B58) ds) bs = Some (foldl (radix_step 58 256) bs ds)"
  by (induction ds arbitrary: bs)
    (simp_all add: base58_index_nth radix_step_def b256_mul_radix b256_push_radix split_def Let_def)

lemma base58_one: "d < 58 \<Longrightarrow> B58 ! d = CHR ''1'' \<longleftrightarrow> d = 0"
  using base58_index_nth [of d] base58_index_nth [of 0] by (auto simp: B58_def)

lemma map_word_unat: "map word_of_nat (map unat (bs :: bytes)) = bs"
  by (simp add: comp_def)

text \<open>C18: the two base-58 coders of the gateway, which were written apart, fit together: decoding the text of some bytes gives
  the bytes back, with every leading zero. Bytes that are all zero are the exception: they come back with two zeros more.\<close>

theorem base58_roundtrip:
  "base58Decode (base58btc bs) = Some (if list_all (\<lambda>b. b = 0) bs then 0 # 0 # bs else bs)"
proof -
  define z where "z = length (takeWhile (\<lambda>b. b = 0) bs)"
  define ds where "ds = foldl b58_byte [0] bs"
  define rest where "rest = dropWhile (\<lambda>b. b = 0) bs"
  have ok: "radix_ok 58 ds" "radix_value 58 ds = bytes_value bs" using b58_digits [of bs] by (simp_all add: ds_def)
  then have all: "list_all (\<lambda>d. d < 58) (replicate z 0 @ rev ds)" by (auto simp: radix_ok_def list_all_iff)
  have B1: "B58 ! 0 = CHR ''1''" by (simp add: B58_def)
  have enc: "base58btc bs = map ((!) B58) (replicate z 0 @ rev ds)"
    by (simp add: base58btc_def z_def ds_def B1)
  define out where "out = foldl (radix_step 58 256) [0] (replicate z 0 @ rev ds)"
  have zeros: "foldl (\<lambda>n x. 58 * n + x) 0 (replicate z 0) = (0 :: nat)" by (induction z) simp_all
  have out: "radix_ok 256 out" "radix_value 256 out = bytes_value bs"
    using radix_foldl_ok [of 256 "[0]" 58 "replicate z 0 @ rev ds"] ok(2)
    by (simp_all add: out_def radix_ok_def zeros radix_foldl_rev)
  have bs: "bs = replicate z 0 @ rest"
    unfolding z_def rest_def by (metis (full_types) replicate_length_same set_takeWhileD takeWhile_dropWhile_id)
  have v: "bytes_value bs = bytes_value rest"
  proof -
    have "bytes_value (replicate n 0 @ xs) = bytes_value xs" for n xs by (induction n) (simp_all add: bytes_value_Cons)
    then show ?thesis by (subst bs)
  qed
  have decode: "base58Decode (base58btc bs) =
      Some (map word_of_nat (rev (out @ replicate (length (takeWhile (\<lambda>c. c = CHR ''1'') (base58btc bs))) 0)))"
    using base58_bytes_digits [OF all] by (simp only: base58Decode_def enc out_def option.map)
  have ones: "length (takeWhile (\<lambda>c. c = CHR ''1'') (base58btc bs)) = z + length (takeWhile (\<lambda>d. d = 0) (rev ds))"
  proof -
    have "takeWhile (\<lambda>c. c = CHR ''1'') (map ((!) B58) (rev ds)) = map ((!) B58) (takeWhile (\<lambda>d. d = 0) (rev ds))"
      unfolding takeWhile_map comp_def using all base58_one
      by (intro arg_cong [where f = "map ((!) B58)"] takeWhile_cong) (auto simp: list_all_iff)
    moreover have "takeWhile (\<lambda>c. c = CHR ''1'') (replicate z (CHR ''1'') @ cs) = replicate z (CHR ''1'') @ takeWhile (\<lambda>c. c = CHR ''1'') cs"
      for cs by (induction z) simp_all
    ultimately show ?thesis unfolding enc by (simp add: B1)
  qed
  show ?thesis
  proof (cases "rest = []")
    case True
    then have "out = [0]" "ds = [0]"
      using v radix_unique [OF out(1), of "[0]"] radix_unique [OF ok(1), of "[0]"] out(2) ok(2)
      by (simp_all add: radix_ok_def bytes_value_def)
    then show ?thesis using decode ones bs True
      by (simp add: list_all_iff replicate_append_same flip: replicate_Suc)
  next
    case False
    define r where "r = rev (map unat rest)"
    have hd: "hd rest \<noteq> 0" using False unfolding rest_def by (metis (full_types) hd_dropWhile)
    have "unat b < 256" for b :: byte using unsigned_less [of b] by simp
    then have "radix_ok 256 r" using False hd
      by (auto simp: r_def radix_ok_def list_all_iff last_rev hd_map unat_eq_0)
    moreover have "radix_value 256 r = bytes_value rest"
      using radix_foldl_rev [of 256 r] by (simp add: r_def bytes_value_def foldl_map)
    ultimately have outr: "out = r" using radix_unique [OF out(1)] out(2) v by simp
    have "r \<noteq> [0]" using False hd by (auto simp: r_def unat_eq_0 length_Suc_conv)
    with radix_pos [OF \<open>radix_ok 256 r\<close>] outr out(2) have "0 < bytes_value bs" by simp
    with ok have "last ds \<noteq> 0" by (auto simp: radix_ok_def)
    then have "takeWhile (\<lambda>d. d = 0) (rev ds) = []" using ok(1) by (cases ds rule: rev_cases) (auto simp: radix_ok_def)
    moreover have "\<not> list_all (\<lambda>b. b = 0) bs" using False hd bs by (cases rest) auto
    ultimately show ?thesis using decode ones bs outr by (simp add: r_def comp_def)
  qed
qed

subsection \<open>What the cache holds\<close>

text \<open>What the chain said: the account of the mint exists, and the wallet owns its largest account.\<close>

definition rpc_result :: "rpc \<Rightarrow> string \<Rightarrow> json list \<Rightarrow> json option" where
  "rpc_result rpc m params =
     (case rpc m params of RpcJson v \<Rightarrow> if v = JNull \<or> jtruthy (jprop v ''error'') then None else jprop v ''result'' | _ \<Rightarrow> None)"

definition mint_known :: "rpc \<Rightarrow> string \<Rightarrow> bool" where
  "mint_known rpc mint \<longleftrightarrow>
     jtruthy (jpath (rpc_result rpc ''getAccountInfo'' [JStr mint, JObj [(''encoding'', JStr ''jsonParsed'')]]) [''value''])"

definition mint_owned :: "rpc \<Rightarrow> string \<Rightarrow> string \<Rightarrow> bool" where
  "mint_owned rpc mint wallet \<longleftrightarrow>
     (\<exists>acct. jpath (first_item (jpath (rpc_result rpc ''getTokenLargestAccounts'' [JStr mint]) [''value''])) [''address''] = Some acct \<and>
        jpath (rpc_result rpc ''getParsedAccountInfo'' [acct, JObj [(''encoding'', JStr ''jsonParsed'')]])
          [''value'', ''data'', ''parsed'', ''info'', ''owner''] = Some (JStr wallet))"

lemma fetch_result: "fetchJsonRpc env rpc m params c = (Inr r, c') \<Longrightarrow> rpc_result rpc m params = r"
  by (auto simp: fetchJsonRpc_def rpc_result_def split: rpc_reply.splits if_splits)

lemma mintExists_known: "mintExists env rpc mint c = (True, c') \<Longrightarrow> mint_known rpc mint"
  by (auto simp: mintExists_def mint_known_def dest: fetch_result split: prod.splits sum.splits)

lemma mintOwner_owned:
  assumes "mintOwner env rpc mint c = (Some (JStr w), c')"
  shows "mint_owned rpc mint w"
proof -
  obtain r c1 where f: "fetchJsonRpc env rpc ''getTokenLargestAccounts'' [JStr mint] c = (r, c1)" by force
  note R = assms [unfolded mintOwner_def f, simplified]
  obtain largest where r: "r = Inr largest" using R by (cases r) auto
  note R = R [unfolded r, simplified]
  obtain acct where acct: "jpath (first_item (jpath largest [''value''])) [''address''] = Some acct"
    using R by (cases "jpath (first_item (jpath largest [''value''])) [''address'']") auto
  obtain r2 c2 where g: "fetchJsonRpc env rpc ''getParsedAccountInfo'' [acct, JObj [(''encoding'', JStr ''jsonParsed'')]] c1 = (r2, c2)"
    by force
  note R = R [unfolded acct, simplified, unfolded g, simplified]
  obtain info where r2: "r2 = Inr info" using R by (cases r2) (auto split: if_splits)
  with R have "jpath info [''value'', ''data'', ''parsed'', ''info'', ''owner''] = Some (JStr w)"
    by (auto simp: Let_def split: if_splits)
  then show ?thesis
    using fetch_result [OF f [unfolded r]] acct fetch_result [OF g [unfolded r2]] unfolding mint_owned_def by auto
qed

text \<open>A request that has the mint stored was complete, the chain knew the mint (and its owner, where that is required), and
  the signature was one of the wallet on this very request.\<close>

definition upsert_allowed :: "upsert_env \<Rightarrow> bool \<Rightarrow> rpc \<Rightarrow> UpsertBody \<Rightarrow> bool" where
  "upsert_allowed env ro rpc b \<longleftrightarrow> body_complete b \<and> mint_known rpc (ub_mint b) \<and> (ro \<longrightarrow> mint_owned rpc (ub_mint b) (ub_wallet b)) \<and>
     (\<exists>pub. base58Decode (ub_wallet b) = Some pub \<and>
        ue_verify env (ue_unbase64 env (ub_sig b)) (payloadHash env (upsert_payload b)) pub = Inr True)"

lemma cache_upsert_cases:
  assumes "cache_upsert env ro now rpc b st = (r, st')"
  obtains (stored) "upsert_allowed env ro rpc b" "fst r = 200"
      "us_mints st' = (us_mints st)(ub_mint b \<mapsto>
        (case us_mints st (ub_mint b) of Some m \<Rightarrow> m | None \<Rightarrow> Map.empty)(mint_key env b \<mapsto> mint_entry env now b))"
    | (refused) "fst r \<noteq> 200" "us_mints st' = us_mints st"
proof (cases "body_complete b \<and> isBase58Pubkey (ub_mint b) \<and> isBase58Pubkey (ub_wallet b)")
  case False
  with assms show ?thesis by (intro refused) (auto simp: cache_upsert_def upsert_error_def split: if_splits)
next
  case True
  obtain known c1 where k: "mintExists env rpc (ub_mint b) (us_counters st) = (known, c1)" by force
  obtain owner c2 where o: "(if ro then mintOwner env rpc (ub_mint b) c1 else (Some (JStr (ub_wallet b)), c1)) = (owner, c2)" by force
  note R = assms [unfolded cache_upsert_def k o Let_def split_conv]
  show ?thesis
  proof (cases "known \<and> owner = Some (JStr (ub_wallet b)) \<and> upsert_signature env b = Inr True")
    case False
    with R True show ?thesis
      by (intro refused) (auto simp: upsert_error_def split: if_splits sum.splits bool.splits)
  next
    case ok: True
    then have "mint_known rpc (ub_mint b)" using k by (auto intro: mintExists_known)
    moreover have "ro \<longrightarrow> mint_owned rpc (ub_mint b) (ub_wallet b)" using ok o mintOwner_owned by auto
    ultimately have "upsert_allowed env ro rpc b"
      using ok True by (auto simp: upsert_allowed_def upsert_signature_def split: option.splits)
    with R True ok show ?thesis by (intro stored) auto
  qed
qed

definition upsert_start :: UpsertState where
  "upsert_start = \<lparr>us_counters = \<lparr>ct_windowStartUnix = 0, ct_totalReq = 0, ct_gatewayErr = 0, ct_rpcTotal = 0, ct_rpcErr = 0\<rparr>,
     us_mints = Map.empty\<rparr>"

definition upsert_run :: "upsert_env \<Rightarrow> bool \<Rightarrow> (int \<times> rpc \<times> UpsertBody) list \<Rightarrow> UpsertState" where
  "upsert_run env ro calls = fold (\<lambda>(now, rpc, b) st. snd (cache_upsert env ro now rpc b st)) calls upsert_start"

text \<open>C17: nothing gets into the cache of a mint unsigned: whatever requests are made, every record in it was posted by
  a request for this mint, signed by the wallet the record names over all of its fields, at a time when the chain said that the mint
  exists and, where the gateway requires it, that this wallet owns it.\<close>

theorem upsert_authorized:
  assumes "us_mints (upsert_run env ro calls) m = Some bucket" "bucket k = Some e"
  shows "\<exists>now rpc b. (now, rpc, b) \<in> set calls \<and> upsert_allowed env ro rpc b \<and> ub_mint b = m \<and>
    k = mint_key env b \<and> e = mint_entry env now b"
  using assms
proof (induction calls arbitrary: bucket k e rule: rev_induct)
  case Nil
  then show ?case by (simp add: upsert_run_def upsert_start_def)
next
  case (snoc call calls)
  obtain now rpc b where call: "call = (now, rpc, b)" by (cases call)
  obtain r st' where u: "cache_upsert env ro now rpc b (upsert_run env ro calls) = (r, st')" by (meson surj_pair)
  have run: "upsert_run env ro (calls @ [call]) = st'" using u by (simp add: upsert_run_def call)
  from u show ?case
  proof (cases rule: cache_upsert_cases)
    case refused
    from snoc.IH [OF snoc.prems [unfolded run refused(2)]] show ?thesis by auto
  next
    case stored
    show ?thesis
    proof (cases "m = ub_mint b \<and> k = mint_key env b")
      case True
      with snoc.prems [unfolded run stored(3)] have "e = mint_entry env now b" by auto
      with True stored(1) show ?thesis unfolding call by fastforce
    next
      case False
      obtain old where "us_mints (upsert_run env ro calls) m = Some old" "old k = Some e"
        using snoc.prems [unfolded run stored(3)] False by (auto split: if_splits option.splits)
      from snoc.IH [OF this] show ?thesis by auto
    qed
  qed
qed

definition toy_upsert_env :: upsert_env where
  "toy_upsert_env = \<lparr>ue_sha = (\<lambda>bs. []), ue_numstr = (\<lambda>_. ''1''), ue_number = (\<lambda>_. Fin 60), ue_unbase64 = ascii,
     ue_verify = (\<lambda>sg m pub. Inr (sg = [122] \<and> m = []))\<rparr>"

definition toy_mint :: string where "toy_mint = replicate 32 (CHR ''2'')"

definition toy_rpc :: rpc where
  "toy_rpc m params = RpcJson (JObj [(''result'', JObj [(''value'',
     if m = ''getTokenLargestAccounts'' then JArr [JObj [(''address'', JStr ''acct'')]]
     else JObj [(''data'', JObj [(''parsed'', JObj [(''info'', JObj [(''owner'', JStr toy_mint)])])])])])])"

definition toy_body :: UpsertBody where
  "toy_body = \<lparr>ub_mint = toy_mint, ub_wallet = toy_mint, ub_name = ''a.dns'', ub_sig = ''z'', ub_rrtype = Some (JStr ''A''),
     ub_value = Some (JStr ''192.0.2.1''), ub_ttl = Some (JNum (Fin 60)), ub_ts = Some (JNum (Fin 1))\<rparr>"

lemma toy_mint_key: "isBase58Pubkey toy_mint" "toy_mint \<noteq> []" "base58Decode toy_mint \<noteq> None"
proof -
  have "is_base58 (CHR ''2'')" by code_simp
  then show "isBase58Pubkey toy_mint" "toy_mint \<noteq> []" by (simp_all add: isBase58Pubkey_def toy_mint_def list_all_iff)
  have "toy_mint = map ((!) B58) (replicate 32 1)" by (simp add: toy_mint_def B58_def map_replicate)
  then show "base58Decode toy_mint \<noteq> None" using base58_bytes_digits [of "replicate 32 1" "[0]"]
    by (simp add: base58Decode_def list_all_iff)
qed

lemma toy_chain: "mintExists toy_upsert_env toy_rpc toy_mint c = (True, count_rpc False c)"
    "mintOwner toy_upsert_env toy_rpc toy_mint c = (Some (JStr toy_mint), count_rpc False (count_rpc False c))"
  using toy_mint_key(2) by (simp_all add: mintExists_def mintOwner_def fetchJsonRpc_def toy_rpc_def jpath_def jprop_def first_item_def)

lemma toy_signed: "upsert_signature toy_upsert_env toy_body = Inr True"
  using toy_mint_key(3) by (auto simp: upsert_signature_def payloadHash_def toy_upsert_env_def toy_body_def ascii_def)

theorem upsert_authorized_witness:
  "\<exists>now rpc b. (now, rpc, b) \<in> set [(1000, toy_rpc, toy_body)] \<and> upsert_allowed toy_upsert_env True rpc b \<and> ub_mint b = toy_mint \<and>
     mint_key toy_upsert_env toy_body = mint_key toy_upsert_env b \<and>
     mint_entry toy_upsert_env 1000 toy_body = mint_entry toy_upsert_env now b"
proof -
  have "body_complete toy_body" "ub_mint toy_body = toy_mint" "ub_wallet toy_body = toy_mint"
    using toy_mint_key by (simp_all add: body_complete_def toy_body_def)
  then have "us_mints (upsert_run toy_upsert_env True [(1000, toy_rpc, toy_body)]) toy_mint =
      Some [mint_key toy_upsert_env toy_body \<mapsto> mint_entry toy_upsert_env 1000 toy_body]"
    using toy_mint_key by (simp add: upsert_run_def upsert_start_def cache_upsert_def toy_chain toy_signed)
  then show ?thesis by (rule upsert_authorized) simp
qed

end
