(* ===== verification/GatewayDns.thy ===== *)
theory GatewayDns
  imports AdapterRegistry GatewayResolve CacheRollup RecursiveCache IpAddress
begin

unbundle bit_operations_syntax

section \<open>Queries by route and over DNS (gateway/src/server.ts)\<close>

text \<open>
  The routes \<open>/v1/route\<close>, \<open>/v1/resolve\<close> and \<open>/dns-query\<close> (DNS over HTTPS) ask the registry of adapters for
  names under \<open>.dns\<close> and the recursive resolver for all others. Parameters: the package \<open>dns-packet\<close> (decoding and
  encoding of messages, its flags), the registry of adapters and the resolver as they answer this request, base64, the parsing
  of URLs, \<open>punycode\<close>, \<open>Number\<close> of a JSON value and the clock.
\<close>

record DnsTimingMetric =
  tm_name :: string
  tm_durMs :: jsnum
  tm_desc :: "string option"

text \<open>An answer of a DNS message; its class is always \<open>IN\<close>.\<close>

record DohAnswer =
  da_type :: qtype
  da_name :: "json option"
  da_ttl :: jsnum
  da_data :: json

record dns_env =
  de_numstr :: "rat \<Rightarrow> string"
  de_number :: "json \<Rightarrow> jsnum"
  de_toASCII :: "string \<Rightarrow> string"
  de_base64 :: "string \<Rightarrow> bytes"
  de_urlHost :: "string \<Rightarrow> string option"
  de_locale :: "string \<Rightarrow> string \<Rightarrow> int"
  de_decode :: "bytes \<Rightarrow> json res"
  de_flags :: int
  de_encode :: "jsnum \<Rightarrow> json list \<Rightarrow> int \<Rightarrow> DohAnswer list \<Rightarrow> bytes res"
  de_encodeQuery :: "string \<Rightarrow> string \<Rightarrow> bytes res"
  de_resolveAuto :: "AdapterInput \<Rightarrow> RouteAnswer res"
  de_recursive :: "string \<Rightarrow> string \<Rightarrow> ResolveResult res"
  de_witnessUrl :: string

text \<open>The family of addresses a query asks for.\<close>

definition family_ok :: "qtype \<Rightarrow> nat \<Rightarrow> bool" where
  "family_ok q kind \<longleftrightarrow> (q = QA \<and> kind = 4) \<or> (q = QAAAA \<and> kind = 6)"

subsection \<open>Counters\<close>

record StatusCounters =
  sc_resolve :: int
  sc_icann :: int
  sc_dns :: int
  sc_hits :: int
  sc_misses :: int
  sc_stale :: int

record UpstreamHealth =
  uh_ok :: int
  uh_error :: int
  uh_rtt :: "jsnum option"
  uh_answers :: "jsnum option"
  uh_status :: string
  uh_seen :: string

text \<open>\<open>dn_spool\<close> is the spool of the cache log.\<close>

record DnsState =
  dn_counters :: StatusCounters
  dn_health :: "(string \<times> UpstreamHealth) list"
  dn_spool :: "CacheEntryV1 list"

definition noteResolveCounters :: "ResSource \<Rightarrow> StatusCounters \<Rightarrow> StatusCounters" where
  "noteResolveCounters source c =
     (let c1 = c\<lparr>sc_resolve := sc_resolve c + 1, sc_icann := sc_icann c + 1\<rparr> in
      case source of
        FromCache \<Rightarrow> c1\<lparr>sc_hits := sc_hits c + 1\<rparr>
      | FromUpstream \<Rightarrow> c1\<lparr>sc_misses := sc_misses c + 1\<rparr>
      | FromStale \<Rightarrow> c1\<lparr>sc_stale := sc_stale c + 1\<rparr>)"

definition note_dns :: "DnsState \<Rightarrow> DnsState" where
  "note_dns st = st\<lparr>dn_counters := (dn_counters st)\<lparr>sc_resolve := sc_resolve (dn_counters st) + 1,
     sc_dns := sc_dns (dn_counters st) + 1\<rparr>\<rparr>"

text \<open>\<open>String(v || d)\<close>, \<open>v ?? w\<close>, \<open>Number(v)\<close> where it is finite.\<close>

definition text_or :: "dns_env \<Rightarrow> json option \<Rightarrow> string \<Rightarrow> string" where
  "text_or env v d = (case v of Some x \<Rightarrow> if jtruthy (Some x) then js_to_string (de_numstr env) x else d | None \<Rightarrow> d)"

definition or_nullish :: "json option \<Rightarrow> json option \<Rightarrow> json option" where
  "or_nullish v w = (case v of None \<Rightarrow> w | Some JNull \<Rightarrow> w | Some x \<Rightarrow> Some x)"

definition number_if_finite :: "dns_env \<Rightarrow> json option \<Rightarrow> jsnum option" where
  "number_if_finite env v = (case v of None \<Rightarrow> None | Some x \<Rightarrow> let n = de_number env x in if is_finite n then Some n else None)"

definition note_upstream :: "dns_env \<Rightarrow> string \<Rightarrow> json \<Rightarrow> (string \<times> UpstreamHealth) list \<Rightarrow> (string \<times> UpstreamHealth) list" where
  "note_upstream env nowIso u health =
     (let url = trim (text_or env (jprop u ''url'') []) in
      if url = [] then health
      else let prev = (case map_of health url of Some p \<Rightarrow> p
               | None \<Rightarrow> \<lparr>uh_ok = 0, uh_error = 0, uh_rtt = None, uh_answers = None, uh_status = [], uh_seen = nowIso\<rparr>);
               status = upper (text_or env (jprop u ''status'') ''UNKNOWN'');
               good = (status = ''NOERROR'' \<or> status = ''OK'')
           in AList.update url \<lparr>uh_ok = (if good then uh_ok prev + 1 else uh_ok prev),
                uh_error = (if good then uh_error prev else uh_error prev + 1),
                uh_rtt = number_if_finite env (or_nullish (jprop u ''rttMs'') (jprop u ''rtt_ms'')),
                uh_answers = number_if_finite env (or_nullish (jprop u ''answersCount'') (jprop u ''answers_count'')),
                uh_status = status, uh_seen = nowIso\<rparr> health)"

definition noteUpstreamHealth :: "dns_env \<Rightarrow> string \<Rightarrow> json list \<Rightarrow> (string \<times> UpstreamHealth) list \<Rightarrow> (string \<times> UpstreamHealth) list" where
  "noteUpstreamHealth env nowIso upstreams health = fold (note_upstream env nowIso) upstreams health"

definition note_recursive :: "dns_env \<Rightarrow> string \<Rightarrow> ResolveResult \<Rightarrow> DnsState \<Rightarrow> DnsState" where
  "note_recursive env nowIso out st =
     st\<lparr>dn_counters := noteResolveCounters (rz_source out) (dn_counters st),
        dn_health := noteUpstreamHealth env nowIso (rz_upstreamsUsed out) (dn_health st)\<rparr>"

subsection \<open>DNS over HTTPS\<close>

definition normalizeDnsQtype :: "json option \<Rightarrow> qtype option" where
  "normalizeDnsQtype v = (case v of
     Some (JNum n) \<Rightarrow> if n = Fin 1 then Some QA else if n = Fin 28 then Some QAAAA else None
   | Some (JStr s) \<Rightarrow> parse_qtype s
   | _ \<Rightarrow> None)"

text \<open>\<open>Number(x.toFixed(2))\<close>: the nearest multiple of a hundredth, the larger of two that are equally near.\<close>

definition round2 :: "rat \<Rightarrow> rat" where
  "round2 q = of_int \<lfloor>q * 100 + 1 / 2\<rfloor> / 100"

definition timing_entry :: "dns_env \<Rightarrow> DnsTimingMetric \<Rightarrow> string option" where
  "timing_entry env m = (case tm_durMs m of
     Fin q \<Rightarrow> if q < 0 then None
       else Some (tm_name m @ '';dur='' @ de_numstr env (round2 q) @
         (case tm_desc m of Some d \<Rightarrow> if d = [] then []
            else '';desc='' @ [CHR 0x22] @ map (\<lambda>c. if c = CHR 0x22 then CHR 0x27 else c) d @ [CHR 0x22] | None \<Rightarrow> []))
   | _ \<Rightarrow> None)"

definition serverTimingHeader :: "dns_env \<Rightarrow> DnsTimingMetric list \<Rightarrow> string" where
  "serverTimingHeader env ms = join '', '' (List.map_filter (timing_entry env) ms)"

definition encodeDnsWireResponse :: "dns_env \<Rightarrow> jsnum \<Rightarrow> json list \<Rightarrow> int \<Rightarrow> DohAnswer list \<Rightarrow> bytes res" where
  "encodeDnsWireResponse env msgId questions rcode answers =
     de_encode env msgId questions (de_flags env OR (rcode AND 0x0f)) answers"

definition decodeBase64UrlToBuffer :: "dns_env \<Rightarrow> string \<Rightarrow> bytes" where
  "decodeBase64UrlToBuffer env input =
     (let normalized = map (\<lambda>c. if c = CHR ''_'' then CHR ''/'' else c) (map (\<lambda>c. if c = CHR ''-'' then CHR ''+'' else c) input);
          padding = (if length normalized mod 4 = 0 then [] else replicate (4 - length normalized mod 4) (CHR ''=''))
      in de_base64 env (normalized @ padding))"

text \<open>A request to the adapters of the gateway.\<close>

definition gateway_input :: "string \<Rightarrow> string option \<Rightarrow> string option \<Rightarrow> string option \<Rightarrow> AdapterInput" where
  "gateway_input name qtype dest witnessUrl =
     \<lparr>in_name = name, in_network = Some ''gateway'', in_dest = dest, in_witnessUrl = witnessUrl, in_ipfsHead = False, in_ttlS = None,
      in_mock = False, in_mockDest = [], in_evmRpcUrl = [], in_solanaRpcUrl = [], in_chainId = None, in_sourceOverride = [],
      in_qtype = qtype\<rparr>"

text \<open>\<open>t0\<close> and \<open>t1\<close> are the times before and after the adapter has answered.\<close>

definition doh_route :: "dns_env \<Rightarrow> int \<Rightarrow> int \<Rightarrow> string \<Rightarrow> qtype \<Rightarrow> int \<times> DohAnswer list \<times> DnsTimingMetric list" where
  "doh_route env t0 t1 qname q =
     (let metric = (\<lambda>desc. [\<lparr>tm_name = ''pkdns'', tm_durMs = jint (t1 - t0), tm_desc = Some desc\<rparr>]) in
      case de_resolveAuto env (gateway_input qname (Some (qtype_text q)) None None) of
        Inl _ \<Rightarrow> (2, [], metric ''error'')
      | Inr route \<Rightarrow>
          (let dest = (case ra_dest route of Some d \<Rightarrow> d | None \<Rightarrow> []) in
           if family_ok q (isIP dest)
           then (0, [\<lparr>da_type = q, da_name = Some (JStr qname), da_ttl = nor (ra_ttlS route) (Fin 60), da_data = JStr dest\<rparr>],
             metric ''onchain'')
           else (3, [], metric ''onchain'')))"

definition upstream_timing :: "dns_env \<Rightarrow> nat \<times> json \<Rightarrow> DnsTimingMetric" where
  "upstream_timing env iu = (case iu of (i, u) \<Rightarrow>
     let idx = de_numstr env (of_nat i); rawUrl = text_or env (jprop u ''url'') [];
         host = (if rawUrl = [] then ''upstream-'' @ idx else (case de_urlHost env rawUrl of Some h \<Rightarrow> h | None \<Rightarrow> rawUrl));
         dur = (case or_nullish (or_nullish (jprop u ''rttMs'') (jprop u ''rtt_ms'')) (Some (JNum (Fin 0))) of
           Some v \<Rightarrow> de_number env v | None \<Rightarrow> Fin 0)
     in \<lparr>tm_name = ''up'' @ idx, tm_durMs = (if is_finite dur then dur else Fin 0), tm_desc = Some host\<rparr>)"

definition answer_fits :: "dns_env \<Rightarrow> qtype \<Rightarrow> json \<Rightarrow> bool" where
  "answer_fits env q a \<longleftrightarrow> jprop a ''type'' = Some (JStr (qtype_text q)) \<and>
     (case jprop a ''data'' of Some d \<Rightarrow> family_ok q (isIP (js_to_string (de_numstr env) d)) | None \<Rightarrow> False)"

definition doh_answer :: "dns_env \<Rightarrow> qtype \<Rightarrow> jsnum \<Rightarrow> json \<Rightarrow> DohAnswer" where
  "doh_answer env q ttlS a =
     \<lparr>da_type = q, da_name = jprop a ''name'',
      da_ttl = nmax (Fin 1) (nmin (case jprop a ''ttl'' of
          Some t \<Rightarrow> if jtruthy (Some t) then de_number env t else nor ttlS (Fin 60) | None \<Rightarrow> nor ttlS (Fin 60)) (nor ttlS (Fin 60))),
      da_data = the (jprop a ''data'')\<rparr>"

definition doh_recursive :: "dns_env \<Rightarrow> qtype \<Rightarrow> ResolveResult \<Rightarrow> (int \<times> DohAnswer list) res" where
  "doh_recursive env q out =
     (if rz_status out = NXDOMAIN then Inr (3, [])
      else if JNull \<in> set (rz_answers out) then Inl TypeError
      else let answers = map (doh_answer env q (rz_ttlS out)) (filter (answer_fits env q) (rz_answers out))
        in Inr (if answers \<noteq> [] then 0 else 3, answers))"

definition resolveDohAnswers ::
  "dns_env \<Rightarrow> string \<Rightarrow> int \<Rightarrow> int \<Rightarrow> string \<Rightarrow> qtype \<Rightarrow> DnsState \<Rightarrow> (int \<times> DohAnswer list \<times> DnsTimingMetric list) res \<times> DnsState" where
  "resolveDohAnswers env nowIso t0 t1 qnameInput q st =
     (let qname = normalizeNameForHash (de_toASCII env) qnameInput in
      if ends_with qname ''.dns'' then (Inr (doh_route env t0 t1 qname q), note_dns st)
      else (case de_recursive env qname (qtype_text q) of
          Inl e \<Rightarrow> (Inl e, st)
        | Inr out \<Rightarrow>
            (let timing = map (upstream_timing env) (zip [0..<length (rz_upstreamsUsed out)] (rz_upstreamsUsed out)) in
             (rmap (\<lambda>(rcode, answers). (rcode, answers, timing)) (doh_recursive env q out), note_recursive env nowIso out st))))"

record DohReply =
  dh_wire :: bytes
  dh_rcode :: int
  dh_answers :: "DohAnswer list"
  dh_ttlS :: jsnum
  dh_cacheControl :: string
  dh_serverTiming :: string

definition smallest_ttl :: "DohAnswer list \<Rightarrow> jsnum" where
  "smallest_ttl answers =
     (if answers = [] then Fin 0
      else nmax (Fin 1) (foldl nmin PosInf (map (\<lambda>a. nmax (Fin 1) (nor (da_ttl a) (Fin 60))) answers)))"

definition doh_failure :: "dns_env \<Rightarrow> jsnum \<Rightarrow> json list \<Rightarrow> int \<Rightarrow> int \<Rightarrow> DohReply res" where
  "doh_failure env msgId questions rcode dur =
     rmap (\<lambda>w. \<lparr>dh_wire = w, dh_rcode = rcode, dh_answers = [], dh_ttlS = Fin 0, dh_cacheControl = ''no-store'',
         dh_serverTiming = serverTimingHeader env [\<lparr>tm_name = ''total'', tm_durMs = jint dur, tm_desc = None\<rparr>]\<rparr>)
       (encodeDnsWireResponse env msgId questions rcode [])"

definition doh_success ::
  "dns_env \<Rightarrow> jsnum \<Rightarrow> json list \<Rightarrow> int \<Rightarrow> int \<times> DohAnswer list \<times> DnsTimingMetric list \<Rightarrow> DohReply res" where
  "doh_success env msgId questions dur resolved = (case resolved of (rcode, answers, timing) \<Rightarrow>
     rmap (\<lambda>w. let ttlS = smallest_ttl answers in
         \<lparr>dh_wire = w, dh_rcode = rcode, dh_answers = answers, dh_ttlS = ttlS,
          dh_cacheControl = (if rcode = 0 \<and> nlt (Fin 0) ttlS
            then ''public, max-age='' @ js_to_string (de_numstr env) (JNum ttlS) else ''no-store''),
          dh_serverTiming = serverTimingHeader env (timing @ [\<lparr>tm_name = ''total'', tm_durMs = jint dur, tm_desc = None\<rparr>])\<rparr>)
       (encodeDnsWireResponse env msgId questions rcode answers))"

definition dns_questions :: "json \<Rightarrow> json list" where
  "dns_questions decoded = (case jprop decoded ''questions'' of Some (JArr qs) \<Rightarrow> qs | _ \<Rightarrow> [])"

definition dns_qname :: "dns_env \<Rightarrow> json list \<Rightarrow> string" where
  "dns_qname env qs = (case qs of [] \<Rightarrow> [] | q # _ \<Rightarrow> text_or env (jprop q ''name'') [])"

definition dns_qtype :: "json list \<Rightarrow> qtype option" where
  "dns_qtype qs = normalizeDnsQtype (case qs of [] \<Rightarrow> None | q # _ \<Rightarrow> jprop q ''type'')"

text \<open>\<open>t0 \<le> t1 \<le> t2\<close> are the times at the start, when the names are resolved, and when they are answered.\<close>

definition handleDohWireQuery ::
  "dns_env \<Rightarrow> string \<Rightarrow> int \<times> int \<times> int \<Rightarrow> bytes \<Rightarrow> DnsState \<Rightarrow> DohReply res \<times> DnsState" where
  "handleDohWireQuery env nowIso clock query st = (case clock of (t0, t1, t2) \<Rightarrow>
     (case de_decode env query of
        Inl e \<Rightarrow> (Inl e, st)
      | Inr decoded \<Rightarrow>
          (let questions = dns_questions decoded; qname = dns_qname env questions;
               msgId = (case jprop decoded ''id'' of Some v \<Rightarrow> if jtruthy (Some v) then de_number env v else Fin 0 | None \<Rightarrow> Fin 0)
           in case (qname, dns_qtype questions) of
                ([], _) \<Rightarrow> (doh_failure env msgId questions 4 (t1 - t0), st)
              | (_, None) \<Rightarrow> (doh_failure env msgId questions 4 (t1 - t0), st)
              | (_, Some q) \<Rightarrow>
                  (let (resolved, st') = resolveDohAnswers env nowIso t0 t1 qname q st in
                   (case rbind resolved (doh_success env msgId questions (t2 - t0)) of
                      Inl _ \<Rightarrow> doh_failure env msgId questions 2 (t2 - t0)
                    | Inr reply \<Rightarrow> Inr reply, st')))))"

text \<open>The two methods of \<open>/dns-query\<close>: the reply is JSON or a DNS message with its headers.\<close>

datatype DnsHttp = DnsJson int json | DnsMessage bytes string string

definition answer_json :: "DohAnswer \<Rightarrow> json" where
  "answer_json a = JObj (opt_field ''name'' (da_name a) @ [(''type'', JStr (qtype_text (da_type a))), (''TTL'', JNum (da_ttl a)),
     (''data'', da_data a)])"

definition dns_message :: "DohReply \<Rightarrow> DnsHttp" where
  "dns_message out = DnsMessage (dh_wire out) (dh_cacheControl out) (dh_serverTiming out)"

definition dns_error :: "string \<Rightarrow> DnsHttp" where
  "dns_error e = DnsJson 400 (JObj [(''error'', JStr e)])"

definition dns_query_get ::
  "dns_env \<Rightarrow> string \<Rightarrow> int \<times> int \<times> int \<Rightarrow> string \<Rightarrow> string \<Rightarrow> string \<Rightarrow> string \<Rightarrow> DnsState \<Rightarrow> DnsHttp \<times> DnsState" where
  "dns_query_get env nowIso clock accept dnsParam name qtype st =
     (let wire = (if dnsParam \<noteq> [] then Some (Inr (decodeBase64UrlToBuffer env dnsParam))
        else (case (name, normalizeDnsQtype (Some (JStr (upper qtype)))) of
            ([], _) \<Rightarrow> None
          | (_, None) \<Rightarrow> None
          | (_, Some q) \<Rightarrow> Some (de_encodeQuery env (qtype_text q) name)))
      in case wire of
          None \<Rightarrow> (dns_error ''missing_or_invalid_query'', st)
        | Some (Inl e) \<Rightarrow> (dns_error (error_message e), st)
        | Some (Inr query) \<Rightarrow>
            (case handleDohWireQuery env nowIso clock query st of
               (Inl e, st') \<Rightarrow> (dns_error (error_message e), st')
             | (Inr out, st') \<Rightarrow>
                 (if dnsParam = [] \<and> \<not> list_ex (\<lambda>i. starts_with (drop i accept) ''application/dns-message'') [0..<Suc (length accept)]
                  then DnsJson 200 (JObj [(''Status'', JNum (jint (dh_rcode out))), (''Answer'', JArr (map answer_json (dh_answers out)))])
                  else dns_message out, st')))"

definition dns_query_post :: "dns_env \<Rightarrow> string \<Rightarrow> int \<times> int \<times> int \<Rightarrow> bytes \<Rightarrow> DnsState \<Rightarrow> DnsHttp \<times> DnsState" where
  "dns_query_post env nowIso clock body st =
     (if body = [] then (dns_error ''empty_dns_query'', st)
      else (case handleDohWireQuery env nowIso clock body st of
          (Inl e, st') \<Rightarrow> (dns_error (error_message e), st')
        | (Inr out, st') \<Rightarrow> (dns_message out, st')))"

subsection \<open>Routes\<close>

definition witness_of :: "dns_env \<Rightarrow> string option \<Rightarrow> string option" where
  "witness_of env witness_url = (case witness_url of Some w \<Rightarrow> Some w | None \<Rightarrow>
     if de_witnessUrl env \<noteq> [] then Some (de_witnessUrl env) else None)"

text \<open>What is sent back: a route answer as JSON, the fields of a resolution, or an error.\<close>

datatype RouteReply = RouteIs RouteAnswer | ResolvedIs json | RouteError int string

definition handleRoute :: "dns_env \<Rightarrow> string \<Rightarrow> string option \<Rightarrow> string option \<Rightarrow> RouteReply" where
  "handleRoute env name dest witness_url =
     (if name = [] then RouteError 400 ''missing_name''
      else (case de_resolveAuto env (gateway_input name None dest (witness_of env witness_url)) of
          Inr ans \<Rightarrow> RouteIs ans
        | Inl e \<Rightarrow> (let msg = error_message e in
            RouteError (if msg = ''NO_ADAPTER_MATCH'' \<or> msg = ''NOT_FOUND'' then 404 else if ends_with msg ''TIMEOUT'' then 502 else 500) msg)))"

text \<open>A log that is switched on: its environment and configuration, the key and the public key.\<close>

type_synonym logger = "(log_env \<times> CacheLoggerConfig \<times> bytes \<times> string) option"

definition log_into :: "logger \<Rightarrow> CacheLogInput \<Rightarrow> DnsState \<Rightarrow> unit res \<times> DnsState" where
  "log_into logger input st = (case logger of
     None \<Rightarrow> (Inr (), st)
   | Some (lenv, cfg, signer) \<Rightarrow> (let (r, spool) = logEntry lenv cfg signer input (dn_spool st) in (r, st\<lparr>dn_spool := spool\<rparr>)))"

definition drop0x :: "string \<Rightarrow> string" where
  "drop0x s = (if starts_with s ''0x'' then drop 2 s else s)"

definition route_rrset_hash :: "RouteAnswer \<Rightarrow> string" where
  "route_rrset_hash ans =
     (let h = drop0x (ra_destHashHex ans) in
      if h \<noteq> [] then h else drop0x (case ra_canonical ans of Some c \<Rightarrow> ci_destHashHex c | None \<Rightarrow> []))"

text \<open>The resolver keeps the name, the type and the data of an answer as texts.\<close>

definition answer_fields :: "dns_env \<Rightarrow> json \<Rightarrow> string \<times> string \<times> string" where
  "answer_fields env a = (text_or env (jprop a ''name'') [], text_or env (jprop a ''type'') [], text_or env (jprop a ''data'') [])"

definition resolved_json :: "ResolveResult \<Rightarrow> json" where
  "resolved_json out =
     JObj [(''name'', JStr (rz_name out)), (''type'', JStr (rz_type out)), (''answers'', JArr (rz_answers out)),
       (''ttl_s'', JNum (rz_ttlS out)), (''source'', JStr ''recursive''), (''confidence'', JStr (conf_text (rz_confidence out))),
       (''upstreams_used'', JArr (rz_upstreamsUsed out)), (''chosen_upstream'', rz_chosenUpstream out),
       (''cache'', JObj ([(''hit'', JBool (rz_source out = FromCache))] @
          (if rz_source out = FromStale then [(''stale_used'', JBool True)] else []))),
       (''status'', JStr (status_text (rz_status out))), (''rrset_hash'', JStr (rz_rrsetHash out))]"

definition v1_resolve_dns ::
  "dns_env \<Rightarrow> logger \<Rightarrow> string \<Rightarrow> string \<Rightarrow> string option \<Rightarrow> string option \<Rightarrow> DnsState \<Rightarrow> RouteReply \<times> DnsState" where
  "v1_resolve_dns env logger name type dest witness_url st =
     (case de_resolveAuto env (gateway_input name (Some type) dest (witness_of env witness_url)) of
        Inl e \<Rightarrow> (RouteError 502 (error_message e), st)
      | Inr ans \<Rightarrow>
          (let h = route_rrset_hash ans;
               (r, st1) = (if logger \<noteq> None \<and> ntruthy (ra_ttlS ans) \<and> length h = 64
                 then log_into logger \<lparr>li_name = name, li_rrsetHashHex = h, li_ttlS = nor (ra_ttlS ans) (Fin 60),
                   li_confidenceBps = nor (jint (ra_confidenceBps ans)) (Fin 5000)\<rparr> st
                 else (Inr (), st))
           in case r of Inl e \<Rightarrow> (RouteError 502 (error_message e), st1) | Inr _ \<Rightarrow> (RouteIs ans, note_dns st1)))"

definition v1_resolve_recursive :: "dns_env \<Rightarrow> string \<Rightarrow> logger \<Rightarrow> string \<Rightarrow> string \<Rightarrow> DnsState \<Rightarrow> RouteReply \<times> DnsState" where
  "v1_resolve_recursive env nowIso logger name type st =
     (case de_recursive env name type of
        Inl e \<Rightarrow> (RouteError 502 (error_message e), st)
      | Inr out \<Rightarrow>
          (let st1 = note_recursive env nowIso out st;
               logged = logger \<noteq> None \<and> rz_answers out \<noteq> [] in
           if logged \<and> JNull \<in> set (rz_answers out) then (RouteError 502 (error_message TypeError), st1)
           else let (r, st2) = (if logged
               then log_into logger \<lparr>li_name = rz_name out,
                 li_rrsetHashHex = computeRrsetHashFromAnswers (case logger of Some (lenv, _) \<Rightarrow> lg_sha lenv | None \<Rightarrow> (\<lambda>b. b)) (rz_name out)
                   (rz_type out) (map (answer_fields env) (rz_answers out)),
                 li_ttlS = nor (rz_ttlS out) (Fin 60),
                 li_confidenceBps = (if rz_source out = FromStale then Fin 7000 else Fin 9000)\<rparr> st1
               else (Inr (), st1))
             in case r of Inl e \<Rightarrow> (RouteError 502 (error_message e), st2) | Inr _ \<Rightarrow> (ResolvedIs (resolved_json out), st2)))"

definition v1_resolve ::
  "dns_env \<Rightarrow> string \<Rightarrow> logger \<Rightarrow> string \<Rightarrow> string option \<Rightarrow> string option \<Rightarrow> string option \<Rightarrow> DnsState \<Rightarrow> RouteReply \<times> DnsState" where
  "v1_resolve env nowIso logger name qtype dest witness_url st =
     (let type = (case qtype of Some t \<Rightarrow> upper t | None \<Rightarrow> ''A'') in
      if name = [] then (RouteError 400 ''missing_name'', st)
      else if ends_with (lower name) ''.dns'' then v1_resolve_dns env logger name type dest witness_url st
      else v1_resolve_recursive env nowIso logger name type st)"

text \<open>The status page: the size of the cache and the time since the start are given.\<close>

definition health_json :: "string \<times> UpstreamHealth \<Rightarrow> json" where
  "health_json uh = (case uh of (url, h) \<Rightarrow> JObj [(''url'', JStr url), (''ok_count'', JNum (jint (uh_ok h))),
     (''error_count'', JNum (jint (uh_error h))), (''last_rtt_ms'', case uh_rtt h of Some n \<Rightarrow> JNum n | None \<Rightarrow> JNull),
     (''last_status'', JStr (uh_status h)), (''last_answers_count'', case uh_answers h of Some n \<Rightarrow> JNum n | None \<Rightarrow> JNull),
     (''last_seen_at'', JStr (uh_seen h))])"

definition hit_rate :: "StatusCounters \<Rightarrow> json" where
  "hit_rate c = (let cacheTotal = sc_hits c + sc_misses c in
     if 0 < cacheTotal then JNum (Fin (of_int \<lfloor>of_int (sc_hits c) / of_int cacheTotal * 10000 + (1 / 2 :: rat)\<rfloor> / 10000)) else JNull)"

definition v1_status :: "dns_env \<Rightarrow> resolve_config \<Rightarrow> string \<Rightarrow> int \<Rightarrow> nat \<Rightarrow> ResolverState \<Rightarrow> DnsState \<Rightarrow> json" where
  "v1_status env cfg nowIso uptimeMs entries rst st =
     (let c = dn_counters st; a = gz_counters rst; count = (\<lambda>i. JNum (jint i)) in
      JObj [(''ok'', JBool True), (''service'', JStr ''gateway''), (''now_utc'', JStr nowIso), (''uptime_s'', count (max 0 (uptimeMs div 1000))),
        (''recursive_upstreams'', JArr (map health_json (js_sort (\<lambda>x y. de_locale env (fst x) (fst y)) (dn_health st)))),
        (''cache'', JObj [(''entries_in_memory'', count (int entries)), (''hits'', count (sc_hits c)), (''misses'', count (sc_misses c)),
           (''stale_served'', count (sc_stale c)), (''hit_rate'', hit_rate c)]),
        (''resolve'', JObj [(''total_requests'', count (sc_resolve c)), (''icann_requests'', count (sc_icann c)), (''dns_requests'', count (sc_dns c))]),
        (''attack_mode'', JObj [(''endpoint'', JStr ''/v1/attack-mode''), (''enabled'', JBool (gc_attackEnabled cfg)),
           (''mode'', JStr (mode_text (gz_mode rst))),
           (''decision'', JObj [(''score'', count (fst (gz_decision rst))), (''reasons'', JArr (map JStr (snd (gz_decision rst))))]),
           (''window'', JObj [(''secs'', JNum (gc_attackWindow cfg)), (''totalReq'', count (ct_totalReq a)),
              (''gatewayErr'', count (ct_gatewayErr a)), (''rpcTotal'', count (ct_rpcTotal a)), (''rpcErr'', count (ct_rpcErr a))])])])"

section \<open>Properties\<close>

subsection \<open>Messages\<close>

lemma rmap_cases: "rmap f m = Inr y \<Longrightarrow> (\<And>x. m = Inr x \<Longrightarrow> y = f x \<Longrightarrow> P) \<Longrightarrow> P"
  by (auto simp: rmap_eq_Inr)

text \<open>An answer fits the question: its type is the one asked for and its data an address of this family.\<close>

definition fits :: "dns_env \<Rightarrow> qtype \<Rightarrow> DohAnswer \<Rightarrow> bool" where
  "fits env q a \<longleftrightarrow> da_type a = q \<and> family_ok q (isIP (js_to_string (de_numstr env) (da_data a)))"

lemma doh_route_fits:
  "doh_route env t0 t1 qname q = (rcode, answers, timing) \<Longrightarrow>
     rcode \<in> {0, 2, 3} \<and> (rcode = 0 \<longleftrightarrow> answers \<noteq> []) \<and> (\<forall>a \<in> set answers. fits env q a)"
  by (auto simp: doh_route_def fits_def Let_def js_to_string_def split: sum.splits if_splits option.splits)

lemma doh_recursive_fits:
  "doh_recursive env q out = Inr (rcode, answers) \<Longrightarrow>
     rcode \<in> {0, 3} \<and> (rcode = 0 \<longleftrightarrow> answers \<noteq> []) \<and> (\<forall>a \<in> set answers. fits env q a)"
  by (auto simp: doh_recursive_def fits_def doh_answer_def answer_fits_def Let_def split: if_splits option.splits)

lemma resolveDohAnswers_fits:
  assumes "resolveDohAnswers env nowIso t0 t1 name q st = (Inr (rcode, answers, timing), st')"
  shows "rcode \<in> {0, 2, 3} \<and> (rcode = 0 \<longleftrightarrow> answers \<noteq> []) \<and> (\<forall>a \<in> set answers. fits env q a)"
proof (cases "ends_with (normalizeNameForHash (de_toASCII env) name) ''.dns''")
  case True
  with assms have "doh_route env t0 t1 (normalizeNameForHash (de_toASCII env) name) q = (rcode, answers, timing)"
    by (simp add: resolveDohAnswers_def Let_def)
  from doh_route_fits [OF this] show ?thesis .
next
  case False
  with assms obtain out where "doh_recursive env q out = Inr (rcode, answers)"
    by (auto simp: resolveDohAnswers_def Let_def elim!: rmap_cases split: sum.splits)
  from doh_recursive_fits [OF this] show ?thesis by auto
qed

text \<open>The smallest lifetime: when it is a number it is at most that of each answer, and at least one second.\<close>

lemma nmin_le: "nmin a b \<noteq> NaN \<Longrightarrow> nle (nmin a b) a \<and> nle (nmin a b) b"
  by (cases a; cases b) (auto simp: nmin_def nle_def)

lemma nle_trans: "nle a b \<Longrightarrow> nle b c \<Longrightarrow> nle a c"
  by (cases a; cases b; cases c) (auto simp: nle_def)

lemma foldl_nmin_le: "foldl nmin m xs \<noteq> NaN \<Longrightarrow> nle (foldl nmin m xs) m \<and> (\<forall>x \<in> set xs. nle (foldl nmin m xs) x)"
proof (induction xs arbitrary: m)
  case Nil
  then show ?case by (simp add: nle_def)
next
  case (Cons x xs)
  have IH: "nle (foldl nmin (nmin m x) xs) (nmin m x)" "\<forall>y \<in> set xs. nle (foldl nmin (nmin m x) xs) y"
    using Cons.IH [of "nmin m x"] Cons.prems by simp_all
  from IH(1) have "nmin m x \<noteq> NaN" by (auto simp: nle_def elim: nlt.elims)
  with IH show ?case using nmin_le [of m x] nle_trans [OF IH(1)] by simp
qed

lemma nmax_one_le: "nle m (nmax (Fin 1) t) \<Longrightarrow> nle (nmax (Fin 1) m) (nmax (Fin 1) t)"
  by (cases m; cases t) (auto simp: nmax_def nle_def split: if_splits)

lemma smallest_ttl_le:
  assumes "nlt (Fin 0) (smallest_ttl answers)" "a \<in> set answers"
  shows "nle (smallest_ttl answers) (nmax (Fin 1) (nor (da_ttl a) (Fin 60)))"
proof -
  let ?m = "foldl nmin PosInf (map (\<lambda>a. nmax (Fin 1) (nor (da_ttl a) (Fin 60))) answers)"
  have s: "smallest_ttl answers = nmax (Fin 1) ?m" using assms(2) by (auto simp: smallest_ttl_def)
  with assms(1) have "?m \<noteq> NaN" by (auto simp: nmax_def)
  with assms(2) have "nle ?m (nmax (Fin 1) (nor (da_ttl a) (Fin 60)))" using foldl_nmin_le by fastforce
  then show ?thesis unfolding s by (rule nmax_one_le)
qed

lemma doh_failure_reply: "doh_failure env i qs rcode dur = Inr out \<Longrightarrow>
    dh_rcode out = rcode \<and> dh_answers out = [] \<and> dh_cacheControl out = ''no-store''"
  by (auto simp: doh_failure_def elim!: rmap_cases)

lemma doh_success_reply: "doh_success env i qs dur (rcode, answers, timing) = Inr out \<Longrightarrow>
    dh_rcode out = rcode \<and> dh_answers out = answers \<and> dh_ttlS out = smallest_ttl answers \<and>
    (dh_cacheControl out \<noteq> ''no-store'' \<longrightarrow> rcode = 0 \<and> nlt (Fin 0) (smallest_ttl answers))"
  by (auto simp: doh_success_def Let_def elim!: rmap_cases split: if_splits)


subsection \<open>Names under .dns\<close>

lemma ends_dns_lower_trim:
  assumes "ends_with s ''.dns''"
  shows "ends_with (lower (trim s)) ''.dns''"
proof -
  obtain p where s: "s = p @ ''.dns''" using assms by (rule ends_withE)
  have "\<not> is_ws (CHR ''s'')" "\<not> is_ws (CHR ''.'')" by (simp_all add: is_ws_def)
  then have "trim s = dropWhile is_ws p @ ''.dns''"
    unfolding s trim_def by (cases "list_all is_ws p") (auto simp: list_all_iff dropWhile_append1 dropWhile_append2 dropWhile_append3)
  moreover have "lower ''.dns'' = ''.dns''" by code_simp
  ultimately show ?thesis by (simp add: lower_append ends_with_append)
qed

lemma isIP_Nil: "isIP [] = 0"
  by code_simp

text \<open>Asked without a destination and without a witness, the chain gives a route but no destination.\<close>

lemma pkdns_without_dest:
  assumes "pkdns_resolve env cfg i = Inr (Some a)" "in_dest i = None" "in_witnessUrl i = None"
  shows "ra_dest a = None"
  using assms(1)
proof (cases rule: pkdns_resolve_cases)
  case (1 c policy)
  with assms(2,3) show ?thesis by (auto simp: dest_candidate_def)
qed

lemma resolveAuto_dns_dest:
  assumes "resolveAuto (gateway_registry G c) (gateway_input qname t None None) = Inr a" "ends_with qname ''.dns''"
  shows "ra_dest a = None"
proof -
  have "auto_kind (in_name (gateway_input qname t None None)) = KPkdns"
    using ends_dns_lower_trim [OF assms(2)] by (simp add: auto_kind_def gateway_input_def)
  with assms(1) obtain b where "pkdns_resolve (the_pkdns G) (gc_pkdns c) (gateway_input qname t None None) = Inr (Some b)"
      "ra_dest a = ra_dest b"
    by (elim resolveAuto_by_kind found_cases) (auto simp: by_kind_def gateway_registry_def)
  with pkdns_without_dest show ?thesis by (simp add: gateway_input_def)
qed


subsection \<open>The log\<close>

lemma log_into_grows:
  assumes "log_into (Some (lenv, cfg, key, pub)) input st = (r, st')" "dn_spool st' \<noteq> dn_spool st"
  obtains e where "r = Inr ()" "dn_spool st' = dn_spool st @ [e]" "ce_witness_pubkey e = pub"
    "ce_name_hash e = hash_text (lg_sha lenv) (cl_normalizeName (li_name input))" "ce_rrset_hash e = strip0x (li_rrsetHashHex input)"
  using assms
  by (auto simp: log_into_def logEntry_def logged_entry_def rbind_eq_Inr Let_def split: option.splits if_splits sum.splits)

lemma spool_kept [simp]: "dn_spool (note_dns st) = dn_spool st" "dn_spool (note_recursive env t out st) = dn_spool st"
  by (simp_all add: note_dns_def note_recursive_def)


subsection \<open>A concrete gateway\<close>

text \<open>A resolver that knows one address, for the name asked for without its final dot.\<close>

definition toy_out :: "string \<Rightarrow> ResolveResult" where
  "toy_out name = \<lparr>rz_name = name, rz_type = ''A'', rz_answers = [JObj [(''name'', JStr name), (''type'', JStr ''A''), (''data'', JStr ''192.0.2.1''),
       (''ttl'', JNum (Fin 60))]], rz_ttlS = Fin 60, rz_source = FromUpstream, rz_status = NOERROR, rz_confidence = HighConf,
     rz_upstreamsUsed = [], rz_chosenUpstream = JNull, rz_rrsetHash = []\<rparr>"

definition toy_dns :: dns_env where
  "toy_dns = \<lparr>de_numstr = (\<lambda>_. ''1''), de_number = (\<lambda>v. case v of JNum n \<Rightarrow> n | _ \<Rightarrow> NaN), de_toASCII = id, de_base64 = ascii,
     de_urlHost = (\<lambda>_. None), de_locale = cmp_string,
     de_decode = (\<lambda>_. Inr (JObj [(''id'', JNum (Fin 7)), (''questions'', JArr [JObj [(''name'', JStr ''a.com''), (''type'', JStr ''A'')]])])),
     de_flags = 384, de_encode = (\<lambda>_ _ _ _. Inr [1]), de_encodeQuery = (\<lambda>_ _. Inr [1]),
     de_resolveAuto = resolveAuto (gateway_registry toy_gateway toy_gateway_config),
     de_recursive = (\<lambda>n t. Inr (toy_out (strip_dot n))), de_witnessUrl = []\<rparr>"

definition toy_dns_state :: DnsState where
  "toy_dns_state = \<lparr>dn_counters = \<lparr>sc_resolve = 0, sc_icann = 0, sc_dns = 0, sc_hits = 0, sc_misses = 0, sc_stale = 0\<rparr>, dn_health = [],
     dn_spool = []\<rparr>"




end
