(* ===== verification/TrafficOracle.thy ===== *)
theory TrafficOracle
  imports IpAddress GatewayResolve
begin

section \<open>The traffic oracle (services/traffic-oracle)\<close>

text \<open>
  The oracle looks at the site of a domain, scores what it sees and tells the gateway whether the treasury may pay
  for a renewal. Here are the scoring, the validation of domains, the limiter, the store (three files of lines, each a list that
  is appended to), the jobs and the routes. What is collected from the network is an argument; so are the clock in milliseconds,
  the random identifiers, ISO dates and their parsing, and SHA-256. Numbers are exact.
\<close>

subsection \<open>Scoring (scoring.ts)\<close>

record DomainSignals =
  sg_domain :: string
  sg_checked_at :: string
  sg_dns_resolves :: bool
  sg_http_ok :: bool
  sg_status_code :: "int option"
  sg_content_length :: nat
  sg_title :: string
  sg_h1s :: "string list"
  sg_keywords :: "string list"
  sg_entities :: "string list"
  sg_reason_codes :: "string list"

datatype Tier = Gold | Silver | Bronze | VerifyOnly

datatype OracleTrafficSignal = RealTraffic | LowTraffic | NoTraffic

record ScoreDecision =
  sd_score :: int
  sd_tier :: Tier
  sd_traffic_signal :: OracleTrafficSignal
  sd_treasury_renewal_allowed :: bool
  sd_confidence :: string
  sd_subsidy_estimate :: int
  sd_reasons :: "string list"
  sd_next_steps :: "string list"
  sd_footprint :: int
  sd_risk_penalty :: int

definition clamp_int :: "int \<Rightarrow> int \<Rightarrow> int \<Rightarrow> int" where
  "clamp_int value lo hi = min hi (max lo value)"

definition mapTier :: "int \<Rightarrow> Tier" where
  "mapTier score = (if 80 \<le> score then Gold else if 60 \<le> score then Silver else if 40 \<le> score then Bronze else VerifyOnly)"

definition mapTrafficSignal :: "Tier \<Rightarrow> OracleTrafficSignal" where
  "mapTrafficSignal tier = (case tier of Gold \<Rightarrow> RealTraffic | Silver \<Rightarrow> RealTraffic | Bronze \<Rightarrow> LowTraffic | VerifyOnly \<Rightarrow> NoTraffic)"

definition points :: "bool \<Rightarrow> int \<Rightarrow> int" where
  "points b n = (if b then n else 0)"

definition score_footprint :: "DomainSignals \<Rightarrow> int" where
  "score_footprint s =
     (let code = (case sg_status_code s of Some c \<Rightarrow> c | None \<Rightarrow> 0) in
      clamp_int (points (sg_dns_resolves s) 20 + points (sg_http_ok s) 25 + points (200 \<le> code \<and> code < 400) 15 +
        clamp_int (int (sg_content_length s) div 2500) 0 15 + clamp_int (int (length (sg_keywords s)) * 2) 0 15 +
        clamp_int (int (length (sg_h1s s)) * 4) 0 10 + points (5 < length (sg_title s)) 5) 0 100)"

definition score_risk :: "DomainSignals \<Rightarrow> int" where
  "score_risk s =
     clamp_int (points (\<not> sg_dns_resolves s) 40 + points (\<not> sg_http_ok s) 25 + points (sg_content_length s < 250) 15 +
       points (sg_title s = []) 10) 0 100"

text \<open>\<open>Math.round\<close>: the nearest integer, the larger of two that are equally near. The signals of rank, traffic and authority are
  zero in this version.\<close>

definition js_round :: "rat \<Rightarrow> int" where
  "js_round q = \<lfloor>q + 1 / 2\<rfloor>"

definition raw_score :: "int \<Rightarrow> int \<Rightarrow> rat" where
  "raw_score footprint riskPenalty =
     0 * (20 / 100) + 0 * (15 / 100) + of_int footprint * (55 / 100) - of_int riskPenalty * (10 / 100)"

definition tier_reason :: "Tier \<Rightarrow> string" where
  "tier_reason t = (case t of Gold \<Rightarrow> ''TIER_GOLD_HEALTHY_SITE'' | Silver \<Rightarrow> ''TIER_SILVER_HEALTHY_SITE''
     | Bronze \<Rightarrow> ''TIER_BRONZE_PARTIAL_SIGNAL'' | VerifyOnly \<Rightarrow> ''TIER_VERIFY_ONLY_LOW_CONFIDENCE'')"

definition tier_steps :: "Tier \<Rightarrow> string list" where
  "tier_steps t = (case t of
     VerifyOnly \<Rightarrow> [''Improve crawlable content and title/H1 structure'', ''Re-run verification after DNS + content updates'']
   | Bronze \<Rightarrow> [''Increase discoverable content footprint'', ''Run SERP enrichment in v2'']
   | _ \<Rightarrow> [''Eligible for continuity policy checks'', ''Proceed with NS onboarding''])"

definition scoreSignals :: "DomainSignals \<Rightarrow> ScoreDecision" where
  "scoreSignals s =
     (let footprint = score_footprint s; riskPenalty = score_risk s;
          score = clamp_int (js_round (raw_score footprint riskPenalty)) 0 100; tier = mapTier score in
      \<lparr>sd_score = score, sd_tier = tier, sd_traffic_signal = mapTrafficSignal tier,
       sd_treasury_renewal_allowed = (tier = Gold \<or> tier = Silver),
       sd_confidence = (if sg_dns_resolves s \<and> sg_http_ok s \<and> 1000 < sg_content_length s then ''high''
         else if sg_http_ok s then ''medium'' else ''low''),
       sd_subsidy_estimate = (case tier of Gold \<Rightarrow> 25 | Silver \<Rightarrow> 12 | Bronze \<Rightarrow> 4 | VerifyOnly \<Rightarrow> 0),
       sd_reasons = sg_reason_codes s @ [tier_reason tier], sd_next_steps = tier_steps tier,
       sd_footprint = footprint, sd_risk_penalty = riskPenalty\<rparr>)"

subsection \<open>Validation (validation.ts)\<close>

definition oracle_normalizeDomain :: "(rat \<Rightarrow> string) \<Rightarrow> json option \<Rightarrow> string" where
  "oracle_normalizeDomain ns raw = strip_dot (lower (trim (case raw of Some v \<Rightarrow> if jtruthy raw then js_to_string ns v else [] | None \<Rightarrow> [])))"

definition dom_char :: "char \<Rightarrow> bool" where
  "dom_char c \<longleftrightarrow> is_digit_char c \<or> between (CHR ''a'') (CHR ''z'') c"

text \<open>\<open>[a-z0-9](?:[a-z0-9-]{0,61}[a-z0-9])?\<close> and \<open>[a-z]{2,63}\<close>.\<close>

definition dom_label :: "string \<Rightarrow> bool" where
  "dom_label l \<longleftrightarrow> l \<noteq> [] \<and> length l \<le> 63 \<and> dom_char (hd l) \<and> dom_char (last l) \<and> list_all (\<lambda>c. dom_char c \<or> c = CHR ''-'') l"

definition dom_tld :: "string \<Rightarrow> bool" where
  "dom_tld l \<longleftrightarrow> 2 \<le> length l \<and> length l \<le> 63 \<and> list_all (between (CHR ''a'') (CHR ''z'')) l"

definition DOMAIN_RE :: "string \<Rightarrow> bool" where
  "DOMAIN_RE d \<longleftrightarrow> 1 \<le> length d \<and> length d \<le> 253 \<and>
     (let labels = split_on (CHR ''.'') d in 2 \<le> length labels \<and> list_all dom_label (butlast labels) \<and> dom_tld (last labels))"

definition validateDomain :: "(rat \<Rightarrow> string) \<Rightarrow> json option \<Rightarrow> string + string" where
  "validateDomain ns raw =
     (let domain = oracle_normalizeDomain ns raw in
      if domain = [] then Inl ''domain_required''
      else if 253 < length domain then Inl ''domain_too_long''
      else if CHR ''/'' \<in> set domain \<or> CHR '':'' \<in> set domain then Inl ''domain_must_not_include_scheme_or_path''
      else if isIP domain \<noteq> 0 then Inl ''domain_must_not_be_ip''
      else if \<not> DOMAIN_RE domain then Inl ''invalid_domain''
      else Inr domain)"

subsection \<open>The limiter (rate\_limit.ts)\<close>

record TokenBucket =
  bk_tokens :: jsnum
  bk_lastRefillMs :: int

type_synonym buckets = "string \<rightharpoonup> TokenBucket"

definition bucket_allow :: "jsnum \<Rightarrow> jsnum \<Rightarrow> string \<Rightarrow> int \<Rightarrow> buckets \<Rightarrow> bool \<times> buckets" where
  "bucket_allow capacity refillPerSec key now m =
     (let bucket = (case m key of Some b \<Rightarrow> b | None \<Rightarrow> \<lparr>bk_tokens = capacity, bk_lastRefillMs = now\<rparr>);
          elapsedSec = max 0 (of_int (now - bk_lastRefillMs bucket) / 1000);
          tokens = nmin capacity (nadd (bk_tokens bucket) (nmul (Fin elapsedSec) refillPerSec)) in
      if nlt tokens (Fin 1) then (False, m(key \<mapsto> \<lparr>bk_tokens = tokens, bk_lastRefillMs = now\<rparr>))
      else (True, m(key \<mapsto> \<lparr>bk_tokens = nsub tokens (Fin 1), bk_lastRefillMs = now\<rparr>)))"

definition hashIp :: "(bytes \<Rightarrow> bytes) \<Rightarrow> string \<Rightarrow> string" where
  "hashIp sha ip = take 16 (hex (sha (utf8_bytes ip)))"

text \<open>The first address of the header \<open>x-forwarded-for\<close>, else the address of the peer.\<close>

definition requestIp :: "string \<Rightarrow> string \<Rightarrow> string" where
  "requestIp forwarded remote =
     (let fwd = trim (hd (split_on (CHR '','') forwarded)) in
      if fwd \<noteq> [] then fwd else if remote \<noteq> [] then remote else ''unknown'')"

subsection \<open>The store (store.ts)\<close>

record ScanResult =
  sr_domain :: string
  sr_updated_at :: string
  sr_expires_at :: string
  sr_signals :: DomainSignals
  sr_decision :: ScoreDecision

datatype JobStatus = JobQueued | JobRunning | JobDone | JobFailed

record ScanJob =
  sj_id :: string
  sj_domain :: string
  sj_status :: JobStatus
  sj_created_at :: string
  sj_started_at :: "string option"
  sj_finished_at :: "string option"
  sj_error :: "string option"
  sj_result :: "ScanResult option"

record OracleFiles =
  of_jobs :: "ScanJob list"
  of_results :: "ScanResult list"
  of_audit :: "json list"

definition upsertJob :: "ScanJob \<Rightarrow> OracleFiles \<Rightarrow> OracleFiles" where
  "upsertJob j f = f\<lparr>of_jobs := of_jobs f @ [j]\<rparr>"

definition getJob :: "OracleFiles \<Rightarrow> string \<Rightarrow> ScanJob option" where
  "getJob f jobId = fold (\<lambda>item m. m(sj_id item \<mapsto> item)) (of_jobs f) Map.empty jobId"

definition upsertResult :: "ScanResult \<Rightarrow> OracleFiles \<Rightarrow> OracleFiles" where
  "upsertResult r f = f\<lparr>of_results := of_results f @ [r]\<rparr>"

definition later_result :: "string \<Rightarrow> ScanResult \<Rightarrow> ScanResult option \<Rightarrow> ScanResult option" where
  "later_result domain item latest =
     (if lower (sr_domain item) \<noteq> lower domain then latest
      else (case latest of
          None \<Rightarrow> Some item
        | Some l \<Rightarrow> if cmp_string (sr_updated_at item) (sr_updated_at l) > 0 then Some item else latest))"

definition getLatestResult :: "OracleFiles \<Rightarrow> string \<Rightarrow> ScanResult option" where
  "getLatestResult f domain = fold (later_result domain) (of_results f) None"

definition logAudit :: "string \<Rightarrow> (string \<times> json) list \<Rightarrow> OracleFiles \<Rightarrow> OracleFiles" where
  "logAudit nowIso event f = f\<lparr>of_audit := of_audit f @ [JObj ((''timestamp'', JStr nowIso) # event)]\<rparr>"

subsection \<open>Results and jobs (oracle.ts)\<close>

record oracle_env =
  or_sha :: "bytes \<Rightarrow> bytes"
  or_numstr :: "rat \<Rightarrow> string"
  or_iso :: "int \<Rightarrow> string"
  or_parse :: "string \<Rightarrow> int option"
  or_cacheTtlMs :: jsnum
  or_capacity :: jsnum
  or_refillPerSec :: jsnum

definition compute_result :: "oracle_env \<Rightarrow> int \<Rightarrow> string \<Rightarrow> DomainSignals \<Rightarrow> ScanResult" where
  "compute_result env now domain signals =
     \<lparr>sr_domain = domain, sr_updated_at = or_iso env now, sr_expires_at = or_iso env (now + 21 * 24 * 3600 * 1000),
      sr_signals = signals, sr_decision = scoreSignals signals\<rparr>"

definition isFresh :: "oracle_env \<Rightarrow> int \<Rightarrow> ScanResult option \<Rightarrow> bool" where
  "isFresh env now result = (case result of
     None \<Rightarrow> False
   | Some r \<Rightarrow> (case or_parse env (sr_updated_at r) of None \<Rightarrow> False | Some ts \<Rightarrow> nlt (jint (now - ts)) (or_cacheTtlMs env)))"

text \<open>\<open>getOrRefresh\<close> is cut at its \<open>await\<close>: the stored result, if it will do, else the signals are collected and
  \<open>compute_end\<close> runs.\<close>

definition stored_result :: "oracle_env \<Rightarrow> int \<Rightarrow> string \<Rightarrow> bool \<Rightarrow> OracleFiles \<Rightarrow> ScanResult option" where
  "stored_result env now domain forced f =
     (let existing = getLatestResult f domain in if \<not> forced \<and> isFresh env now existing then existing else None)"

definition compute_end :: "oracle_env \<Rightarrow> int \<Rightarrow> string \<Rightarrow> DomainSignals res \<Rightarrow> OracleFiles \<Rightarrow> ScanResult res \<times> OracleFiles" where
  "compute_end env now domain signals f = (case signals of
     Inl e \<Rightarrow> (Inl e, f)
   | Inr s \<Rightarrow> (let r = compute_result env now domain s in (Inr r, upsertResult r f)))"

definition createQueuedJob :: "oracle_env \<Rightarrow> int \<Rightarrow> string \<Rightarrow> string \<Rightarrow> OracleFiles \<Rightarrow> ScanJob \<times> OracleFiles" where
  "createQueuedJob env now jobId domain f =
     (let job = \<lparr>sj_id = jobId, sj_domain = domain, sj_status = JobQueued, sj_created_at = or_iso env now, sj_started_at = None,
        sj_finished_at = None, sj_error = None, sj_result = None\<rparr> in (job, upsertJob job f))"

definition runJob_start :: "oracle_env \<Rightarrow> int \<Rightarrow> ScanJob \<Rightarrow> OracleFiles \<Rightarrow> ScanJob \<times> OracleFiles" where
  "runJob_start env now job f =
     (let running = job\<lparr>sj_status := JobRunning, sj_started_at := Some (or_iso env now)\<rparr> in (running, upsertJob running f))"

definition runJob_end :: "oracle_env \<Rightarrow> int \<Rightarrow> ScanJob \<Rightarrow> ScanResult res \<Rightarrow> OracleFiles \<Rightarrow> OracleFiles" where
  "runJob_end env now running r f = (case r of
     Inr result \<Rightarrow> upsertJob (running\<lparr>sj_status := JobDone, sj_finished_at := Some (or_iso env now), sj_result := Some result\<rparr>) f
   | Inl e \<Rightarrow> upsertJob (running\<lparr>sj_status := JobFailed, sj_finished_at := Some (or_iso env now),
       sj_error := Some (error_message e)\<rparr>) f)"

subsection \<open>The routes (server.ts)\<close>

text \<open>\<open>os_waiting\<close>: the jobs that are to run, \<open>os_running\<close>: those whose signals are being collected, \<open>os_checks\<close>: the
  domains of the requests that wait for signals.\<close>

record OracleState =
  os_files :: OracleFiles
  os_buckets :: buckets
  os_waiting :: "ScanJob list"
  os_running :: "ScanJob list"
  os_checks :: "string list"

definition oracle_error :: "oracle_env \<Rightarrow> int \<Rightarrow> string \<Rightarrow> string \<Rightarrow> js_error \<Rightarrow> OracleState \<Rightarrow> http_reply \<times> OracleState" where
  "oracle_error env now path ipHash e st =
     (let message = error_message e in
      if message = ''invalid_json'' then ((400, JObj [(''error'', JStr ''invalid_json'')]), st)
      else if message = ''request_too_large'' then ((413, JObj [(''error'', JStr ''request_too_large'')]), st)
      else ((500, JObj [(''error'', JStr ''internal_error'')]), st\<lparr>os_files := logAudit (or_iso env now)
        [(''endpoint'', JStr path), (''decision'', JStr ''error''), (''ip_hash'', JStr ipHash), (''error'', JStr message)] (os_files st)\<rparr>))"

definition scan_handler ::
  "oracle_env \<Rightarrow> int \<Rightarrow> string \<Rightarrow> string \<Rightarrow> json res \<Rightarrow> OracleState \<Rightarrow> http_reply \<times> OracleState" where
  "scan_handler env now jobId ip body st0 =
     (let ipHash = hashIp (or_sha env) ip;
          (allowed, bs) = bucket_allow (or_capacity env) (or_refillPerSec env) (''scan:'' @ ipHash) now (os_buckets st0);
          st = st0\<lparr>os_buckets := bs\<rparr> in
      if \<not> allowed then ((429, JObj [(''error'', JStr ''rate_limited'')]), st\<lparr>os_files := logAudit (or_iso env now)
        [(''endpoint'', JStr ''/v1/scan''), (''decision'', JStr ''rate_limited''), (''ip_hash'', JStr ipHash)] (os_files st)\<rparr>)
      else (case body of
          Inl e \<Rightarrow> oracle_error env now ''/v1/scan'' ipHash e st
        | Inr b \<Rightarrow>
            if b = JNull then oracle_error env now ''/v1/scan'' ipHash TypeError st
            else (case validateDomain (or_numstr env) (jprop b ''domain'') of
                Inl e \<Rightarrow> ((400, JObj [(''error'', JStr e)]), st)
              | Inr domain \<Rightarrow>
                  (let (job, f1) = createQueuedJob env now jobId domain (os_files st);
                       f2 = logAudit (or_iso env now) [(''endpoint'', JStr ''/v1/scan''), (''decision'', JStr ''accepted''),
                         (''domain'', JStr domain), (''ip_hash'', JStr ipHash)] f1
                   in ((200, JObj [(''job_id'', JStr jobId), (''status'', JStr ''queued'')]),
                       st\<lparr>os_files := f2, os_waiting := os_waiting st @ [job]\<rparr>)))))"

definition signal_text :: "OracleTrafficSignal \<Rightarrow> string" where
  "signal_text t = (case t of RealTraffic \<Rightarrow> ''real'' | LowTraffic \<Rightarrow> ''low'' | NoTraffic \<Rightarrow> ''none'')"

definition tier_text :: "Tier \<Rightarrow> string" where
  "tier_text t = (case t of Gold \<Rightarrow> ''Gold'' | Silver \<Rightarrow> ''Silver'' | Bronze \<Rightarrow> ''Bronze'' | VerifyOnly \<Rightarrow> ''Verify-only'')"

definition check_reply :: "string \<Rightarrow> ScanResult \<Rightarrow> http_reply" where
  "check_reply domain r = (let d = sr_decision r in
     (200, JObj [(''domain'', JStr domain), (''expires_at'', JStr (sr_expires_at r)), (''traffic_signal'', JStr (signal_text (sd_traffic_signal d))),
       (''treasury_renewal_allowed'', JBool (sd_treasury_renewal_allowed d)), (''reasons'', JArr (map JStr (sd_reasons d))),
       (''score'', JNum (jint (sd_score d))), (''tier'', JStr (tier_text (sd_tier d))), (''updated_at'', JStr (sr_updated_at r))]))"

text \<open>A check replies at once, or waits for the signals of the domain.\<close>

definition check_handler ::
  "oracle_env \<Rightarrow> int \<Rightarrow> json option \<Rightarrow> bool \<Rightarrow> OracleState \<Rightarrow> http_reply option \<times> OracleState" where
  "check_handler env now domainParam forced st =
     (case validateDomain (or_numstr env) domainParam of
        Inl e \<Rightarrow> (Some (400, JObj [(''error'', JStr e)]), st)
      | Inr domain \<Rightarrow>
          (case stored_result env now domain forced (os_files st) of
             Some r \<Rightarrow> (Some (check_reply domain r), st)
           | None \<Rightarrow> (None, st\<lparr>os_checks := os_checks st @ [domain]\<rparr>)))"

definition check_end :: "oracle_env \<Rightarrow> int \<Rightarrow> string \<Rightarrow> string \<Rightarrow> DomainSignals res \<Rightarrow> OracleState \<Rightarrow> http_reply \<times> OracleState" where
  "check_end env now domain ipHash signals st =
     (let (r, f) = compute_end env now domain signals (os_files st); st1 = st\<lparr>os_files := f, os_checks := remove1 domain (os_checks st)\<rparr> in
      case r of Inr result \<Rightarrow> (check_reply domain result, st1) | Inl e \<Rightarrow> oracle_error env now ''/v1/check'' ipHash e st1)"

definition scan_status_handler :: "string \<Rightarrow> OracleState \<Rightarrow> string + ScanJob" where
  "scan_status_handler path st =
     (let jobId = trim (drop (length ''/v1/scan/'') path) in
      if jobId = [] then Inl ''job_id_required''
      else (case getJob (os_files st) jobId of None \<Rightarrow> Inl ''job_not_found'' | Some job \<Rightarrow> Inr job))"

text \<open>A waiting job starts: it ends at once when a stored result will do, else its signals are collected.\<close>

definition job_start :: "oracle_env \<Rightarrow> int \<Rightarrow> ScanJob \<Rightarrow> OracleState \<Rightarrow> OracleState" where
  "job_start env now job st =
     (let (running, f) = runJob_start env now job (os_files st); st1 = st\<lparr>os_files := f, os_waiting := remove1 job (os_waiting st)\<rparr> in
      case stored_result env now (sj_domain job) False f of
        Some r \<Rightarrow> st1\<lparr>os_files := runJob_end env now running (Inr r) f\<rparr>
      | None \<Rightarrow> st1\<lparr>os_running := os_running st @ [running]\<rparr>)"

definition job_end :: "oracle_env \<Rightarrow> int \<Rightarrow> ScanJob \<Rightarrow> DomainSignals res \<Rightarrow> OracleState \<Rightarrow> OracleState" where
  "job_end env now running signals st =
     (let (r, f) = compute_end env now (sj_domain running) signals (os_files st)
      in st\<lparr>os_files := runJob_end env now running r f, os_running := remove1 running (os_running st)\<rparr>)"

text \<open>A run: requests, jobs and the signals they wait for, in any order.\<close>

inductive oracle_step :: "oracle_env \<Rightarrow> OracleState \<Rightarrow> OracleState \<Rightarrow> bool" for env where
  scan: "oracle_step env st (snd (scan_handler env now jobId ip body st))"
| check: "oracle_step env st (snd (check_handler env now domainParam forced st))"
| checked: "domain \<in> set (os_checks st) \<Longrightarrow> oracle_step env st (snd (check_end env now domain ipHash signals st))"
| job_starts: "job \<in> set (os_waiting st) \<Longrightarrow> oracle_step env st (job_start env now job st)"
| job_ends: "job \<in> set (os_running st) \<Longrightarrow> oracle_step env st (job_end env now job signals st)"

definition oracle_init :: OracleState where
  "oracle_init = \<lparr>os_files = \<lparr>of_jobs = [], of_results = [], of_audit = []\<rparr>, os_buckets = Map.empty, os_waiting = [], os_running = [],
     os_checks = []\<rparr>"

section \<open>Properties\<close>

subsection \<open>Scores\<close>

lemma clamp_int_bounds: "lo \<le> hi \<Longrightarrow> lo \<le> clamp_int v lo hi \<and> clamp_int v lo hi \<le> hi"
  by (auto simp: clamp_int_def)

text \<open>The weights of the signals that are there add up to 55: no site scores higher.\<close>

lemma raw_score_round:
  assumes "0 \<le> f" "f \<le> 100" "0 \<le> p"
  shows "js_round (raw_score f p) \<le> 55"
proof -
  have "of_int f \<le> (100 :: rat)" "0 \<le> (of_int p :: rat)" using assms by simp_all
  then have "raw_score f p + 1 / 2 < of_int 56" by (simp add: raw_score_def)
  then show ?thesis unfolding js_round_def by (simp add: floor_less_iff del: of_int_numeral)
qed

lemma scoreSignals_low:
  "0 \<le> sd_score (scoreSignals s) \<and> sd_score (scoreSignals s) \<le> 55 \<and> sd_tier (scoreSignals s) \<in> {Bronze, VerifyOnly} \<and>
   \<not> sd_treasury_renewal_allowed (scoreSignals s) \<and> sd_traffic_signal (scoreSignals s) \<in> {LowTraffic, NoTraffic}"
proof -
  let ?score = "clamp_int (js_round (raw_score (score_footprint s) (score_risk s))) 0 100"
  have "0 \<le> score_footprint s" "score_footprint s \<le> 100" "0 \<le> score_risk s"
    using clamp_int_bounds [of 0 100] by (simp_all add: score_footprint_def score_risk_def Let_def)
  from raw_score_round [OF this] have "0 \<le> ?score" "?score \<le> 55" by (simp_all add: clamp_int_def)
  then have "mapTier ?score \<in> {Bronze, VerifyOnly}" by (simp add: mapTier_def)
  with \<open>0 \<le> ?score\<close> \<open>?score \<le> 55\<close> show ?thesis by (auto simp: scoreSignals_def Let_def mapTrafficSignal_def)
qed

text \<open>Every stored result has the score of its signals.\<close>

definition results_scored :: "OracleFiles \<Rightarrow> bool" where
  "results_scored f \<longleftrightarrow> (\<forall>r \<in> set (of_results f). sr_decision r = scoreSignals (sr_signals r))"

lemma scored_frame [simp]:
  "results_scored (upsertJob j f) = results_scored f" "results_scored (logAudit t e f) = results_scored f"
  "results_scored (runJob_end env now j r f) = results_scored f"
  by (simp_all add: results_scored_def upsertJob_def logAudit_def runJob_end_def split: sum.splits)

lemma compute_scored: "compute_end env now d s f = (r, f') \<Longrightarrow> results_scored f \<Longrightarrow>
    results_scored f' \<and> (\<forall>x. r = Inr x \<longrightarrow> sr_decision x = scoreSignals (sr_signals x))"
  by (auto simp: compute_end_def results_scored_def upsertResult_def compute_result_def Let_def split: sum.splits)

lemma oracle_error_files: "results_scored (os_files (snd (oracle_error env now p h e st))) = results_scored (os_files st)"
  by (simp add: oracle_error_def Let_def)

lemma oracle_step_scored:
  assumes "oracle_step env st st'" "results_scored (os_files st)"
  shows "results_scored (os_files st')"
  using assms
proof cases
  case (scan now jobId ip body)
  with assms(2) show ?thesis
    by (auto simp: scan_handler_def Let_def split_def oracle_error_files createQueuedJob_def split: sum.splits)
next
  case (check now domainParam forced)
  with assms(2) show ?thesis by (auto simp: check_handler_def split: sum.splits option.splits)
next
  case (checked domain now ipHash signals)
  obtain r f where c: "compute_end env now domain signals (os_files st) = (r, f)" by force
  from compute_scored [OF this assms(2)] show ?thesis
    using checked by (auto simp: check_end_def c Let_def oracle_error_files split: sum.splits)
next
  case (job_starts job now)
  with assms(2) show ?thesis by (auto simp: job_start_def Let_def split_def runJob_start_def split: option.splits)
next
  case (job_ends job now signals)
  obtain r f where c: "compute_end env now (sj_domain job) signals (os_files st) = (r, f)" by force
  from compute_scored [OF this assms(2)] show ?thesis using job_ends by (simp add: job_end_def c)
qed

lemma oracle_run_scored: "(oracle_step env)\<^sup>*\<^sup>* oracle_init st \<Longrightarrow> results_scored (os_files st)"
proof (induction rule: rtranclp_induct)
  case base
  then show ?case by (simp add: oracle_init_def results_scored_def)
next
  case (step st st')
  then show ?case by (blast intro: oracle_step_scored)
qed

lemma latest_member: "fold (later_result d) rs latest = Some r \<Longrightarrow> r \<in> set rs \<or> latest = Some r"
proof (induction rs arbitrary: latest)
  case (Cons x rs)
  then have "r \<in> set rs \<or> later_result d x latest = Some r" by simp
  then show ?case by (auto simp: later_result_def split: if_splits option.splits)
qed simp

lemma stored_member: "stored_result env now d forced f = Some r \<Longrightarrow> r \<in> set (of_results f)"
  using latest_member [of d "of_results f" None r] by (auto simp: stored_result_def getLatestResult_def Let_def split: if_splits)

lemma check_reply_low: "sr_decision r = scoreSignals (sr_signals r) \<Longrightarrow> check_reply d r = (200, v) \<Longrightarrow>
    jprop v ''treasury_renewal_allowed'' = Some (JBool False) \<and>
    jprop v ''traffic_signal'' \<in> {Some (JStr ''low''), Some (JStr ''none'')}"
  using scoreSignals_low [of "sr_signals r"] by (auto simp: check_reply_def Let_def jprop_def signal_text_def)

text \<open>C40: the oracle never lets the treasury pay: whatever sites it has looked at and whatever was asked before, no check it answers
  allows a renewal by the treasury or reports real traffic, because the weights of the signals it has add up to 55 and the
  tier for which it is allowed begins at 60.\<close>

theorem oracle_never_allows:
  assumes "(oracle_step env)\<^sup>*\<^sup>* oracle_init st"
    and "fst (check_handler env now param forced st) = Some (200, v) \<or> fst (check_end env now domain ipHash signals st) = (200, v)"
  shows "jprop v ''treasury_renewal_allowed'' = Some (JBool False) \<and>
    jprop v ''traffic_signal'' \<in> {Some (JStr ''low''), Some (JStr ''none'')}"
  using assms(2)
proof
  note scored = oracle_run_scored [OF assms(1)]
  assume "fst (check_handler env now param forced st) = Some (200, v)"
  then obtain d r where "stored_result env now d forced (os_files st) = Some r" "check_reply d r = (200, v)"
    by (auto simp: check_handler_def split: sum.splits option.splits)
  with scored stored_member show ?thesis by (intro check_reply_low) (auto simp: results_scored_def)
next
  note scored = oracle_run_scored [OF assms(1)]
  assume a: "fst (check_end env now domain ipHash signals st) = (200, v)"
  obtain r f where c: "compute_end env now domain signals (os_files st) = (r, f)" by force
  with a obtain x where "r = Inr x" "check_reply domain x = (200, v)"
    by (auto simp: check_end_def oracle_error_def Let_def split: sum.splits if_splits)
  with compute_scored [OF c scored] show ?thesis by (intro check_reply_low) auto
qed

definition toy_oracle :: oracle_env where
  "toy_oracle = \<lparr>or_sha = (\<lambda>_. replicate 32 0), or_numstr = (\<lambda>_. []), or_iso = (\<lambda>_. ''t''), or_parse = (\<lambda>_. Some 0),
     or_cacheTtlMs = Fin 1000, or_capacity = Fin 2, or_refillPerSec = Fin (1 / 5)\<rparr>"

definition good_site :: DomainSignals where
  "good_site = \<lparr>sg_domain = ''a.com'', sg_checked_at = ''t'', sg_dns_resolves = True, sg_http_ok = True, sg_status_code = Some 200,
     sg_content_length = 90000, sg_title = ''A fine site'', sg_h1s = replicate 8 ''h'', sg_keywords = replicate 20 ''k'', sg_entities = [],
     sg_reason_codes = []\<rparr>"

theorem oracle_never_allows_witness:
  "\<exists>v. fst (check_end toy_oracle 5 ''a.com'' [] (Inr good_site) oracle_init) = (200, v) \<and>
     jprop v ''treasury_renewal_allowed'' = Some (JBool False)"
proof -
  obtain v where v: "fst (check_end toy_oracle 5 ''a.com'' [] (Inr good_site) oracle_init) = (200, v)"
    by (simp add: check_end_def compute_end_def check_reply_def Let_def)
  show ?thesis using v oracle_never_allows [OF rtranclp.rtrancl_refl, of toy_oracle 5 None False v "''a.com''" "[]" "Inr good_site"] by blast
qed

subsection \<open>Domains\<close>

definition plain_char :: "char \<Rightarrow> bool" where
  "plain_char c \<longleftrightarrow> dom_char c \<or> c = CHR ''-'' \<or> c = CHR ''.''"

lemma plain_char_facts: "plain_char c \<Longrightarrow> lower_char c = c \<and> \<not> is_ws c"
  by (auto simp: plain_char_def dom_char_def is_digit_char_def between_def lower_char_def is_ws_def Let_def)

lemma domain_plain:
  assumes "DOMAIN_RE d"
  shows "list_all plain_char d" "d \<noteq> []" "last d \<noteq> CHR ''.''"
proof -
  let ?ls = "split_on (CHR ''.'') d"
  note re = assms [unfolded DOMAIN_RE_def Let_def]
  show "d \<noteq> []" using re by auto
  have ls: "?ls = butlast ?ls @ [last ?ls]" by simp
  have "list_all plain_char w" if "w \<in> set ?ls" for w
  proof (cases "w = last ?ls")
    case True
    with re show ?thesis by (auto simp: dom_tld_def list_all_iff plain_char_def dom_char_def)
  next
    case False
    with that ls have "w \<in> set (butlast ?ls)" by (metis UnE empty_iff insert_iff list.set(1,2) set_append)
    with re show ?thesis by (auto simp: list_all_iff dom_label_def plain_char_def)
  qed
  then show "list_all plain_char d"
    using set_join [of "''.''" ?ls] unfolding join_split_on by (auto simp: list_all_iff plain_char_def)
  show "last d \<noteq> CHR ''.''"
  proof
    assume "last d = CHR ''.''"
    with \<open>d \<noteq> []\<close> have "d = butlast d @ ''.''" by (metis append_butlast_last_id)
    then have "last ?ls = []" by (metis split_on_snoc last_snoc)
    with re show False by (simp add: dom_tld_def)
  qed
qed

text \<open>A domain the oracle accepts is in normal form: it has at least two labels of the right letters and lengths, it is no IP
  address, and validating it again gives itself.\<close>

theorem validateDomain_normal:
  assumes "validateDomain ns raw = Inr d"
  shows "DOMAIN_RE d \<and> isIP d = 0 \<and> validateDomain ns (Some (JStr d)) = Inr d"
proof -
  have d: "DOMAIN_RE d" "isIP d = 0" "d = oracle_normalizeDomain ns raw"
    using assms by (auto simp: validateDomain_def Let_def split: if_splits)
  note p = domain_plain [OF d(1)]
  have "\<not> is_ws (hd d)" "\<not> is_ws (last d)" using p(1,2) plain_char_facts by (auto simp: list_all_iff)
  then have "trim d = d" by (simp add: trim_id)
  moreover have "lower d = d" using p(1) plain_char_facts by (auto simp: lower_def list_all_iff intro: map_idI)
  ultimately have "oracle_normalizeDomain ns (Some (JStr d)) = d"
    using p(2,3) by (simp add: oracle_normalizeDomain_def js_to_string_def strip_dot_def)
  with d assms show ?thesis by (simp add: validateDomain_def)
qed

theorem validateDomain_normal_witness:
  "DOMAIN_RE ''a-1.com'' \<and> isIP ''a-1.com'' = 0 \<and> validateDomain (\<lambda>_. []) (Some (JStr ''a-1.com'')) = Inr ''a-1.com''"
proof -
  have "validateDomain (\<lambda>_. []) (Some (JStr '' A-1.com. '')) = Inr ''a-1.com''" by code_simp
  then show ?thesis by (rule validateDomain_normal)
qed

subsection \<open>The limiter\<close>

text \<open>The tokens a key has at a time: those of its bucket, refilled up to the capacity.\<close>

definition budget :: "rat \<Rightarrow> rat \<Rightarrow> string \<Rightarrow> int \<Rightarrow> buckets \<Rightarrow> rat" where
  "budget c r key now m = (case m key of
     None \<Rightarrow> c | Some b \<Rightarrow> min c (fin_part (bk_tokens b) + of_int (now - bk_lastRefillMs b) / 1000 * r))"

definition bucket_ok :: "string \<Rightarrow> int \<Rightarrow> buckets \<Rightarrow> bool" where
  "bucket_ok key now m \<longleftrightarrow> (\<forall>b. m key = Some b \<longrightarrow> (\<exists>q. bk_tokens b = Fin q \<and> 0 \<le> q) \<and> bk_lastRefillMs b \<le> now)"

lemma budget_later:
  assumes "t \<le> t'" "0 \<le> r"
  shows "budget c r key t' m \<le> budget c r key t m + of_int (t' - t) / 1000 * r"
proof -
  have d: "0 \<le> of_int (t' - t) / 1000 * r" using assms by simp
  have e: "of_int (t' - l) / 1000 * r = of_int (t - l) / 1000 * r + of_int (t' - t) / 1000 * r" for l :: int
    by (simp add: algebra_simps diff_divide_distrib)
  have min: "min c (x + (y + d)) \<le> min c (x + y) + d" if "0 \<le> d" for x y d :: rat
    using that by (simp add: min_def)
  show ?thesis
  proof (cases "m key")
    case (Some b)
    then show ?thesis using min [OF d, of "fin_part (bk_tokens b)"] by (simp only: budget_def Some e [of "bk_lastRefillMs b"] option.case)
  qed (use d in \<open>simp add: budget_def\<close>)
qed

lemma budget_pos: "bucket_ok key t m \<Longrightarrow> 0 \<le> r \<Longrightarrow> 0 \<le> c \<Longrightarrow> 0 \<le> budget c r key t m"
  by (auto simp: budget_def bucket_ok_def split: option.splits)

text \<open>A request that is allowed costs a token of its key; other keys keep theirs.\<close>

lemma bucket_step:
  assumes "bucket_ok key now m" "0 \<le> r" "0 \<le> c" "bucket_allow (Fin c) (Fin r) k now m = (ok, m')"
  shows "bucket_ok key now m' \<and> budget c r key now m' = budget c r key now m - (if k = key \<and> ok then 1 else 0)"
proof (cases "k = key")
  case False
  with assms show ?thesis by (auto simp: bucket_allow_def bucket_ok_def budget_def Let_def split: if_splits)
next
  case True
  define q where "q = budget c r key now m"
  have q: "0 \<le> q" "q \<le> c" using budget_pos [OF assms(1-3)] by (auto simp: q_def budget_def split: option.splits)
  have "bucket_allow (Fin c) (Fin r) key now m = (if q < 1 then (False, m(key \<mapsto> \<lparr>bk_tokens = Fin q, bk_lastRefillMs = now\<rparr>))
      else (True, m(key \<mapsto> \<lparr>bk_tokens = Fin (q - 1), bk_lastRefillMs = now\<rparr>)))"
  proof (cases "m key")
    case None
    then show ?thesis by (simp add: bucket_allow_def q_def budget_def)
  next
    case (Some b)
    with assms(1) obtain x where b: "bk_tokens b = Fin x" "bk_lastRefillMs b \<le> now" by (auto simp: bucket_ok_def)
    then have "max 0 (of_int (now - bk_lastRefillMs b) / 1000) = (of_int (now - bk_lastRefillMs b) / 1000 :: rat)" by simp
    with Some b show ?thesis by (simp add: bucket_allow_def q_def budget_def Let_def)
  qed
  with assms(4) True q show ?thesis
    by (auto simp: bucket_ok_def budget_def [of _ _ _ _ "m(key \<mapsto> x)" for x] q_def [symmetric] split: if_splits)
qed

text \<open>A request to scan is refused by the limiter exactly when its bucket is empty.\<close>

lemma scan_handler_bucket:
  assumes "scan_handler env now jobId ip body st = (reply, st')"
  shows "bucket_allow (or_capacity env) (or_refillPerSec env) (''scan:'' @ hashIp (or_sha env) ip) now (os_buckets st) =
    (fst reply \<noteq> 429, os_buckets st')"
  using assms
  by (auto simp: scan_handler_def oracle_error_def Let_def split_def prod_eq_iff split: if_splits sum.splits)

text \<open>The requests that pass, among requests to scan one after another.\<close>

fun scans_passed :: "oracle_env \<Rightarrow> string \<Rightarrow> (int \<times> string \<times> string \<times> json res) list \<Rightarrow> OracleState \<Rightarrow> nat" where
  "scans_passed env h [] st = 0"
| "scans_passed env h ((now, jobId, ip, body) # reqs) st =
     (let (reply, st') = scan_handler env now jobId ip body st in
      (if hashIp (or_sha env) ip = h \<and> fst reply \<noteq> 429 then 1 else 0) + scans_passed env h reqs st')"

lemma scans_passed_budget:
  assumes "or_capacity env = Fin c" "or_refillPerSec env = Fin r" "0 \<le> c" "0 \<le> r"
    and "sorted (t # map fst reqs)" "bucket_ok (''scan:'' @ h) t (os_buckets st)"
  shows "of_nat (scans_passed env h reqs st) \<le> budget c r (''scan:'' @ h) t (os_buckets st) +
    of_int (last (t # map fst reqs) - t) / 1000 * r"
  using assms(5,6)
proof (induction reqs arbitrary: t st)
  case Nil
  then show ?case using budget_pos assms(3,4) by simp
next
  case (Cons req reqs)
  obtain now jobId ip body where req: "req = (now, jobId, ip, body)" by (cases req)
  obtain reply st' where h: "scan_handler env now jobId ip body st = (reply, st')" by (meson surj_pair)
  let ?k = "''scan:'' @ h" and ?final = "last (now # map fst reqs)"
  have t: "t \<le> now" "sorted (now # map fst reqs)" using Cons.prems(1) by (simp_all add: req)
  have "bucket_ok ?k now (os_buckets st)" using Cons.prems(2) t(1) by (auto simp: bucket_ok_def)
  from bucket_step [OF this assms(4,3), OF scan_handler_bucket [OF h, unfolded assms(1,2)]]
  have s: "bucket_ok ?k now (os_buckets st')"
    "budget c r ?k now (os_buckets st') = budget c r ?k now (os_buckets st) - (if hashIp (or_sha env) ip = h \<and> fst reply \<noteq> 429 then 1 else 0)"
    by auto
  have e: "of_int (?final - t) / 1000 * r = of_int (?final - now) / 1000 * r + of_int (now - t) / 1000 * r"
    by (simp add: algebra_simps diff_divide_distrib)
  with Cons.IH [OF t(2) s(1)] s(2) budget_later [OF t(1) assms(4), of c ?k "os_buckets st"]
  have "of_nat (scans_passed env h reqs st') + (if hashIp (or_sha env) ip = h \<and> fst reply \<noteq> 429 then 1 else 0) \<le>
      budget c r ?k t (os_buckets st) + of_int (?final - t) / 1000 * r"
    by linarith
  moreover have "of_nat (scans_passed env h (req # reqs) st) =
      (of_nat (scans_passed env h reqs st') + (if hashIp (or_sha env) ip = h \<and> fst reply \<noteq> 429 then 1 else 0) :: rat)"
    by (simp add: req h)
  moreover have "last (t # map fst (req # reqs)) = ?final" by (simp add: req)
  ultimately show ?case by (simp only:)
qed

text \<open>C28: the limiter bounds what an address can ask for: among any requests to scan, in the order of their times, those with the same
  hashed address that are not refused number at most the capacity and what is refilled between the first and the last. (The
  address is the one the header \<open>x-forwarded-for\<close> names, if there is one.)\<close>

theorem scans_bounded:
  assumes "or_capacity env = Fin c" "or_refillPerSec env = Fin r" "0 \<le> c" "0 \<le> r"
    and "sorted (map fst reqs)" "reqs \<noteq> []" "os_buckets st = Map.empty"
  shows "of_nat (scans_passed env h reqs st) \<le> c + of_int (last (map fst reqs) - hd (map fst reqs)) / 1000 * r"
proof -
  have "sorted (fst (hd reqs) # map fst reqs)" using assms(5,6) by (cases reqs) auto
  from scans_passed_budget [OF assms(1-4) this, of h st] assms(6,7) show ?thesis
    by (simp add: bucket_ok_def budget_def hd_map)
qed

theorem scans_bounded_witness:
  "of_nat (scans_passed toy_oracle (replicate 16 (CHR ''0'')) [(0, ''a'', ''1'', Inr JNull), (0, ''b'', ''1'', Inr JNull), (5000, ''c'', ''1'', Inr JNull)]
     oracle_init) \<le> (3 :: rat)"
  using scans_bounded [of toy_oracle 2 "1 / 5" "[(0, ''a'', ''1'', Inr JNull), (0, ''b'', ''1'', Inr JNull), (5000, ''c'', ''1'', Inr JNull)]"
      oracle_init "replicate 16 (CHR ''0'')"]
  by (simp add: toy_oracle_def oracle_init_def del: scans_passed.simps)

end
