(* ===== verification/TollboothService.thy ===== *)
theory TollboothService
  imports Challenges GatewayResolve Hosting
begin

section \<open>The toll booth service (services/tollbooth)\<close>

text \<open>
  A wallet proves itself by signing a challenge, and the service then issues its passport or sets a route on the chain
  with a key of its own, and keeps what it wrote in files. The chain is what a request sees of it (\<open>chain_view\<close>): reading accounts and
  sending transactions, which are built from an interface file by the Anchor library. Parameters are also
  the decoding of Anchor accounts, program addresses, public keys in base 58, SHA-256 and the packages of \<open>sol_env\<close>; the times
  are in milliseconds.
\<close>

subsection \<open>Challenges and signatures (auth.ts)\<close>

record TbChallenge =
  tc_wallet :: string
  tc_nonce :: string
  tc_expiresAtMs :: int

type_synonym TbChallenges = "string \<rightharpoonup> TbChallenge"

definition tb_create :: "int \<Rightarrow> int \<Rightarrow> string \<Rightarrow> string \<Rightarrow> TbChallenges \<Rightarrow> TbChallenge \<times> TbChallenges" where
  "tb_create ttlMs now wallet nonce m =
     (let ch = \<lparr>tc_wallet = wallet, tc_nonce = nonce, tc_expiresAtMs = now + ttlMs\<rparr> in (ch, m(wallet \<mapsto> ch)))"

definition tb_consume :: "int \<Rightarrow> string \<Rightarrow> string \<Rightarrow> TbChallenges \<Rightarrow> TbChallenge option \<times> TbChallenges" where
  "tb_consume now wallet nonce m =
     (case m wallet of
        None \<Rightarrow> (None, m)
      | Some cur \<Rightarrow>
          if tc_nonce cur \<noteq> nonce then (None, m)
          else if tc_expiresAtMs cur < now then (None, m(wallet := None))
          else (Some cur, m(wallet := None)))"

definition challengeMessage :: "string \<Rightarrow> string \<Rightarrow> bytes" where
  "challengeMessage wallet nonce = utf8_bytes (''DDNS_CHALLENGE:'' @ wallet @ '':'' @ nonce)"

definition decodeSig :: "sol_env \<Rightarrow> string \<Rightarrow> bytes" where
  "decodeSig sol sig = (case so_bs58 sol sig of Some b \<Rightarrow> b | None \<Rightarrow> so_unbase64 sol sig)"

definition verifySignedChallenge :: "sol_env \<Rightarrow> string \<Rightarrow> string \<Rightarrow> string \<Rightarrow> bool res" where
  "verifySignedChallenge sol wallet nonce signature =
     (case so_bs58 sol wallet of
        None \<Rightarrow> throw ''Non-base58 character''
      | Some pub \<Rightarrow> so_nacl_verify sol (challengeMessage wallet nonce) (decodeSig sol signature) pub)"

subsection \<open>Names (solana.ts)\<close>

definition normalizeLabel :: "string \<Rightarrow> string" where
  "normalizeLabel label = lower (trim label)"

definition tb_label_char :: "char \<Rightarrow> bool" where
  "tb_label_char c \<longleftrightarrow> is_digit_char c \<or> between (CHR ''a'') (CHR ''z'') c \<or> c = CHR ''-''"

definition tb_validateLabel :: "string \<Rightarrow> unit res" where
  "tb_validateLabel l =
     (if length l < 3 \<or> 32 < length l then throw ''label must be 3..32 chars''
      else if hd l = CHR ''-'' \<or> last l = CHR ''-'' then throw (''label cannot start/end with '' @ [CHR 0x27, CHR ''-'', CHR 0x27])
      else if CHR ''.'' \<in> set l then throw (''label cannot include '' @ [CHR 0x27, CHR ''.'', CHR 0x27])
      else if \<not> list_all tb_label_char l then throw ''label must match /^[a-z0-9-]+$/''
      else Inr ())"

definition normalizeFullName :: "string \<Rightarrow> string" where
  "normalizeFullName name = (let n = lower (trim name) in if ends_with n ''.dns'' then n else n @ ''.dns'')"

record tb_env =
  tb_sol :: sol_env
  tb_sha :: "bytes \<Rightarrow> bytes"
  tb_numstr :: "rat \<Rightarrow> string"
  tb_number :: "json \<Rightarrow> jsnum"
  tb_publicKey :: "string \<Rightarrow> bytes res"
  tb_toBase58 :: "bytes \<Rightarrow> string"
  tb_programId :: bytes
  tb_pda :: "bytes list \<Rightarrow> bytes"
  tb_decodePass :: "bytes \<Rightarrow> bytes res"
  tb_decodeRoute :: "bytes \<Rightarrow> (bytes \<times> jsnum) res"
  tb_allowLocalFallback :: bool

definition sha25632Str :: "tb_env \<Rightarrow> string \<Rightarrow> bytes" where
  "sha25632Str env s = tb_sha env (utf8_bytes s)"

definition pdaConfig :: "tb_env \<Rightarrow> bytes" where
  "pdaConfig env = tb_pda env [ascii ''config'']"

definition pdaTollPass :: "tb_env \<Rightarrow> bytes \<Rightarrow> bytes" where
  "pdaTollPass env wallet = tb_pda env [ascii ''toll_pass'', wallet]"

definition pdaNameRecord :: "tb_env \<Rightarrow> bytes \<Rightarrow> bytes" where
  "pdaNameRecord env nameHash = tb_pda env [ascii ''name'', nameHash]"

definition pdaRouteRecord :: "tb_env \<Rightarrow> bytes \<Rightarrow> bytes \<Rightarrow> bytes" where
  "pdaRouteRecord env wallet nameHash = tb_pda env [ascii ''record'', wallet, nameHash]"

subsection \<open>Accounts of the older layout (solana.ts)\<close>

record TollPass =
  tp_owner :: bytes
  tp_issuedAt :: int
  tp_nameHash :: bytes
  tp_ownerMint :: bytes
  tp_pageCidHash :: bytes
  tp_metadataHash :: bytes
  tp_bump :: int
  tp_initialized :: bool

definition TOLL_PASS_LEGACY_SIZE :: nat where "TOLL_PASS_LEGACY_SIZE = 32 + 8 + 32 + 32 + 32 + 1 + 1"
definition TOLL_PASS_CURRENT_SIZE :: nat where "TOLL_PASS_CURRENT_SIZE = 32 + 8 + 32 + 32 + 32 + 32 + 1 + 1"

text \<open>\<open>readBigInt64LE\<close>: the eight bytes as a signed integer.\<close>

definition read_i64 :: "bytes \<Rightarrow> int" where
  "read_i64 bs = (let n = of_le bs in if 2 ^ 63 \<le> n then n - 2 ^ 64 else n)"

definition tollpass_start :: "nat \<Rightarrow> nat option" where
  "tollpass_start rawLen =
     (if rawLen = TOLL_PASS_LEGACY_SIZE \<or> rawLen = TOLL_PASS_CURRENT_SIZE then Some 0
      else if rawLen = 8 + TOLL_PASS_LEGACY_SIZE \<or> rawLen = 8 + TOLL_PASS_CURRENT_SIZE then Some 8 else None)"

definition decodeLegacyTollPassAccount :: "bytes \<Rightarrow> TollPass option" where
  "decodeLegacyTollPassAccount buf =
     (case tollpass_start (length buf) of
        None \<Rightarrow> None
      | Some off \<Rightarrow>
          if length buf - off < TOLL_PASS_LEGACY_SIZE then None
          else let b = drop off buf; rest = drop 136 b;
                   (metadataHash, tail) = (if 34 \<le> length rest then (take 32 rest, drop 32 rest) else (replicate 32 0, rest)) in
            Some \<lparr>tp_owner = take 32 b, tp_issuedAt = read_i64 (take 8 (drop 32 b)), tp_nameHash = take 32 (drop 40 b),
              tp_ownerMint = take 32 (drop 72 b), tp_pageCidHash = take 32 (drop 104 b), tp_metadataHash = metadataHash,
              tp_bump = uint (tail ! 0), tp_initialized = (tail ! 1 \<noteq> 0)\<rparr>)"

text \<open>The mint of a passport, in the layout of the interface file or in an older one.\<close>

definition decodeTollPassCompat :: "tb_env \<Rightarrow> bytes \<Rightarrow> bytes res" where
  "decodeTollPassCompat env data =
     (case tb_decodePass env data of
        Inr mint \<Rightarrow> Inr mint
      | Inl err \<Rightarrow> (case decodeLegacyTollPassAccount data of Some p \<Rightarrow> Inr (tp_ownerMint p) | None \<Rightarrow> Inl err))"

subsection \<open>The chain as a request sees it\<close>

record chain_view =
  ch_account :: "bytes \<Rightarrow> (int \<times> bytes option) res"
  ch_initialize :: "unit res"
  ch_createMint :: "bytes res"
  ch_tokenAccount :: "bytes \<Rightarrow> bytes \<Rightarrow> unit res"
  ch_issue :: "string \<Rightarrow> bytes \<Rightarrow> string res"
  ch_setRoute :: "bytes \<Rightarrow> string \<Rightarrow> bytes \<Rightarrow> jsnum \<Rightarrow> (string \<times> int) res"

definition get_account :: "chain_view \<Rightarrow> bytes \<Rightarrow> bytes option res" where
  "get_account ch pda = rmap snd (ch_account ch pda)"

definition ensureProgramExists :: "tb_env \<Rightarrow> chain_view \<Rightarrow> unit res" where
  "ensureProgramExists env ch =
     rbind (get_account ch (tb_programId env)) (\<lambda>info.
       if info = None then throw (''program not found on cluster: '' @ tb_toBase58 env (tb_programId env)) else Inr ())"

definition ensureInitialized :: "tb_env \<Rightarrow> chain_view \<Rightarrow> unit res" where
  "ensureInitialized env ch =
     rbind (get_account ch (pdaConfig env)) (\<lambda>info. if info \<noteq> None then Inr () else ch_initialize ch)"

definition getPassportIfExists :: "tb_env \<Rightarrow> chain_view \<Rightarrow> bytes \<Rightarrow> bytes option res" where
  "getPassportIfExists env ch wallet =
     rbind (get_account ch (pdaTollPass env wallet)) (\<lambda>info.
       case info of None \<Rightarrow> Inr None | Some data \<Rightarrow> rmap Some (decodeTollPassCompat env data))"

record Passport =
  ps_tx :: string
  ps_mint :: bytes
  ps_tollPassPda :: bytes
  ps_nameRecordPda :: bytes
  ps_nameHash :: bytes

definition issuePassport :: "tb_env \<Rightarrow> chain_view \<Rightarrow> bytes \<Rightarrow> string \<Rightarrow> Passport res" where
  "issuePassport env ch wallet label =
     rbind (tb_validateLabel label) (\<lambda>_.
       let nameHash = sha25632Str env (label @ ''.dns'');
           passport = (\<lambda>tx mint. \<lparr>ps_tx = tx, ps_mint = mint, ps_tollPassPda = pdaTollPass env wallet,
             ps_nameRecordPda = pdaNameRecord env nameHash, ps_nameHash = nameHash\<rparr>) in
       rbind (get_account ch (pdaTollPass env wallet)) (\<lambda>existing.
         case existing of
           Some data \<Rightarrow> rmap (passport []) (decodeTollPassCompat env data)
         | None \<Rightarrow> rbind (ch_createMint ch) (\<lambda>mint. rbind (ch_tokenAccount ch mint wallet) (\<lambda>_.
             rmap (\<lambda>tx. passport tx mint) (ch_issue ch label mint)))))"

definition tb_setRoute :: "tb_env \<Rightarrow> chain_view \<Rightarrow> bytes \<Rightarrow> string \<Rightarrow> string \<Rightarrow> jsnum \<Rightarrow> (string \<times> int) res" where
  "tb_setRoute env ch wallet name dest ttl = ch_setRoute ch wallet (normalizeFullName name) (sha25632Str env dest) ttl"

definition fetchRouteRecord :: "tb_env \<Rightarrow> chain_view \<Rightarrow> bytes \<Rightarrow> string \<Rightarrow> (bytes \<times> int \<times> bytes \<times> jsnum) option res" where
  "fetchRouteRecord env ch wallet name =
     (let pda = pdaRouteRecord env wallet (sha25632Str env (normalizeFullName name)) in
      rbind (ch_account ch pda) (\<lambda>(slot, info).
        case info of None \<Rightarrow> Inr None | Some data \<Rightarrow> rmap (\<lambda>(destHash, ttl). Some (pda, slot, destHash, ttl)) (tb_decodeRoute env data)))"

subsection \<open>The files (store.ts)\<close>

record PassportMapping =
  pm_wallet :: string
  pm_mint :: string
  pm_toll_pass_pda :: string
  pm_name_record_pda :: string
  pm_label :: string
  pm_name_hash_hex :: string
  pm_tx :: "string option"
  pm_created_at :: int

record RouteMapping =
  rm_wallet :: string
  rm_name :: string
  rm_name_hash_hex :: string
  rm_route_record_pda :: string
  rm_dest :: string
  rm_dest_hash_hex :: string
  rm_ttl :: jsnum
  rm_tx :: "string option"
  rm_slot :: "int option"
  rm_updated_at :: int

definition safeFileKey :: "string \<Rightarrow> string" where
  "safeFileKey s = map (\<lambda>c. if is_alnum c \<or> c \<in> {CHR ''.'', CHR ''_'', CHR ''-''} then c else CHR ''_'') s"

record TbState =
  ts_challenges :: TbChallenges
  ts_passports :: "string \<rightharpoonup> PassportMapping"
  ts_routes :: "string \<rightharpoonup> RouteMapping"

definition route_key :: "string \<Rightarrow> string \<Rightarrow> string" where
  "route_key wallet h = safeFileKey wallet @ ''_'' @ h"

definition writePassport :: "PassportMapping \<Rightarrow> TbState \<Rightarrow> TbState" where
  "writePassport p st = st\<lparr>ts_passports := (ts_passports st)(safeFileKey (pm_wallet p) \<mapsto> p)\<rparr>"

definition writeRoute :: "RouteMapping \<Rightarrow> TbState \<Rightarrow> TbState" where
  "writeRoute r st = st\<lparr>ts_routes := (ts_routes st)(route_key (rm_wallet r) (rm_name_hash_hex r) \<mapsto> r)\<rparr>"

definition readRoute :: "TbState \<Rightarrow> string \<Rightarrow> string \<Rightarrow> RouteMapping option" where
  "readRoute st wallet h = ts_routes st (route_key wallet h)"

subsection \<open>The routes (index.ts)\<close>

definition httpError :: "int \<Rightarrow> string \<Rightarrow> http_reply" where
  "httpError code msg = (code, JObj [(''ok'', JBool False), (''error'', JStr msg)])"

definition has_text :: "string \<Rightarrow> string \<Rightarrow> bool" where
  "has_text s t = list_ex (\<lambda>i. starts_with (drop i s) t) [0..<Suc (length s)]"

definition supportsLocalRouteFallback :: "tb_env \<Rightarrow> string \<Rightarrow> bool" where
  "supportsLocalRouteFallback env msg \<longleftrightarrow> tb_allowLocalFallback env \<and>
     list_ex (has_text (lower msg)) [''instructionfallbacknotfound'', ''declaredprogramidmismatch'', ''custom program error: 0x65'',
       ''custom program error: 0x1004'']"

text \<open>\<open>String(req.body.k || "")\<close> and \<open>Number(req.body.k)\<close>.\<close>

definition req_text :: "tb_env \<Rightarrow> json \<Rightarrow> string \<Rightarrow> string" where
  "req_text env body k = (if jtruthy (jprop body k) then js_to_string (tb_numstr env) (the (jprop body k)) else [])"

definition req_number :: "tb_env \<Rightarrow> json \<Rightarrow> string \<Rightarrow> jsnum" where
  "req_number env body k = (case jprop body k of Some v \<Rightarrow> tb_number env v | None \<Rightarrow> NaN)"

definition challenge_handler :: "tb_env \<Rightarrow> int \<Rightarrow> string \<Rightarrow> string \<Rightarrow> TbState \<Rightarrow> http_reply \<times> TbState" where
  "challenge_handler env now nonce wallet st =
     (case tb_publicKey env wallet of
        Inl _ \<Rightarrow> (httpError 400 ''invalid wallet'', st)
      | Inr _ \<Rightarrow>
          (let (ch, m) = tb_create (5 * 60000) now wallet nonce (ts_challenges st) in
           ((200, JObj [(''ok'', JBool True), (''nonce'', JStr (tc_nonce ch)), (''expires_at'', JNum (jint (tc_expiresAtMs ch)))]),
            st\<lparr>ts_challenges := m\<rparr>)))"

text \<open>The check that both writing routes begin with: the nonce is consumed, then the signature is verified.\<close>

definition authorize :: "tb_env \<Rightarrow> int \<Rightarrow> string \<Rightarrow> string \<Rightarrow> string \<Rightarrow> TbState \<Rightarrow> http_reply option res \<times> TbState" where
  "authorize env now wallet nonce signature st =
     (let (consumed, m) = tb_consume now wallet nonce (ts_challenges st); st1 = st\<lparr>ts_challenges := m\<rparr> in
      if consumed = None then (Inr (Some (httpError 401 ''invalid_or_expired_nonce'')), st1)
      else (rmap (\<lambda>ok. if ok then None else Some (httpError 401 ''invalid_signature''))
        (verifySignedChallenge (tb_sol env) wallet nonce signature), st1))"

definition passport_label :: "string \<Rightarrow> string option \<Rightarrow> string" where
  "passport_label wallet desired =
     (let l0 = (case desired of Some d \<Rightarrow> normalizeLabel d | None \<Rightarrow> []);
          l1 = (if ends_with l0 ''.dns'' then take (length l0 - 4) l0 else l0)
      in if l1 = [] then ''u-'' @ lower (take 8 wallet) else l1)"

definition claim_passport :: "tb_env \<Rightarrow> chain_view \<Rightarrow> string \<Rightarrow> string option \<Rightarrow> (string \<times> Passport) res" where
  "claim_passport env ch wallet desired =
     rbind (ensureProgramExists env ch) (\<lambda>_. rbind (ensureInitialized env ch) (\<lambda>_. rbind (tb_publicKey env wallet) (\<lambda>owner.
       let label = passport_label wallet desired in
       rbind (tb_validateLabel label) (\<lambda>_. rmap (Pair label) (issuePassport env ch owner label)))))"

definition claim_error :: "string \<Rightarrow> http_reply" where
  "claim_error msg = httpError (if list_ex (has_text msg) [''already in use'', ''custom program error'', ''0x0''] then 409 else 500) msg"

definition opt_text :: "string \<Rightarrow> json" where
  "opt_text s = (if s = [] then JNull else JStr s)"

definition claim_handler :: "tb_env \<Rightarrow> chain_view \<Rightarrow> int \<Rightarrow> json \<Rightarrow> TbState \<Rightarrow> http_reply \<times> TbState" where
  "claim_handler env ch now body st =
     (let wallet = req_text env body ''wallet_pubkey'';
          desired = (if jtruthy (jprop body ''desired_name'') then Some (req_text env body ''desired_name'') else None) in
      case authorize env now wallet (req_text env body ''nonce'') (req_text env body ''signature'') st of
        (Inl e, st1) \<Rightarrow> (claim_error (error_message e), st1)
      | (Inr (Some refused), st1) \<Rightarrow> (refused, st1)
      | (Inr None, st1) \<Rightarrow>
          (case claim_passport env ch wallet desired of
             Inl e \<Rightarrow> (claim_error (error_message e), st1)
           | Inr (label, p) \<Rightarrow>
               ((200, JObj [(''ok'', JBool True), (''passport_mint'', JStr (tb_toBase58 env (ps_mint p))),
                   (''toll_pass_pda'', JStr (tb_toBase58 env (ps_tollPassPda p))), (''record_pda'', JStr (tb_toBase58 env (ps_nameRecordPda p))),
                   (''label'', JStr label), (''name_hash_hex'', JStr (hex (ps_nameHash p))), (''tx'', opt_text (ps_tx p))]),
                writePassport \<lparr>pm_wallet = wallet, pm_mint = tb_toBase58 env (ps_mint p),
                  pm_toll_pass_pda = tb_toBase58 env (ps_tollPassPda p), pm_name_record_pda = tb_toBase58 env (ps_nameRecordPda p),
                  pm_label = label, pm_name_hash_hex = hex (ps_nameHash p),
                  pm_tx = (if ps_tx p = [] then None else Some (ps_tx p)), pm_created_at = now\<rparr> st1)))"

text \<open>Setting a route, up to what is written: the transaction, or a local fallback for the errors of an older program.\<close>

definition assign_route :: "tb_env \<Rightarrow> chain_view \<Rightarrow> int \<Rightarrow> string \<Rightarrow> string \<Rightarrow> string \<Rightarrow> jsnum \<Rightarrow> RouteMapping option res" where
  "assign_route env ch now wallet name dest ttl =
     rbind (ensureProgramExists env ch) (\<lambda>_. rbind (ensureInitialized env ch) (\<lambda>_. rbind (tb_publicKey env wallet) (\<lambda>owner.
     rbind (getPassportIfExists env ch owner) (\<lambda>passport.
       if passport = None then Inr None
       else let fullName = normalizeFullName name; nameHash = sha25632Str env fullName;
                entry = (\<lambda>tx slot. Some \<lparr>rm_wallet = wallet, rm_name = fullName, rm_name_hash_hex = hex nameHash,
                  rm_route_record_pda = tb_toBase58 env (pdaRouteRecord env owner nameHash), rm_dest = dest,
                  rm_dest_hash_hex = hex (sha25632Str env dest), rm_ttl = ttl, rm_tx = tx, rm_slot = slot, rm_updated_at = now\<rparr>) in
         case tb_setRoute env ch owner fullName dest ttl of
           Inr (tx, slot) \<Rightarrow> Inr (entry (Some tx) (Some slot))
         | Inl e \<Rightarrow> if supportsLocalRouteFallback env (error_message e) then Inr (entry None None) else Inl e))))"

definition opt_json :: "('a \<Rightarrow> json) \<Rightarrow> 'a option \<Rightarrow> json" where
  "opt_json f v = (case v of None \<Rightarrow> JNull | Some x \<Rightarrow> f x)"

definition assign_handler :: "tb_env \<Rightarrow> chain_view \<Rightarrow> int \<Rightarrow> json \<Rightarrow> TbState \<Rightarrow> http_reply \<times> TbState" where
  "assign_handler env ch now body st =
     (let wallet = req_text env body ''wallet_pubkey''; name = req_text env body ''name''; dest = req_text env body ''dest'';
          ttl = req_number env body ''ttl'' in
      if name = [] \<or> dest = [] \<or> \<not> is_finite ttl \<or> nle ttl (Fin 0) then (httpError 400 ''invalid_input'', st)
      else (case authorize env now wallet (req_text env body ''nonce'') (req_text env body ''signature'') st of
          (Inl e, st1) \<Rightarrow> (httpError 500 (error_message e), st1)
        | (Inr (Some refused), st1) \<Rightarrow> (refused, st1)
        | (Inr None, st1) \<Rightarrow>
            (case assign_route env ch now wallet name dest ttl of
               Inl e \<Rightarrow> (httpError 500 (error_message e), st1)
             | Inr None \<Rightarrow> (httpError 403 ''passport_required'', st1)
             | Inr (Some r) \<Rightarrow>
                 ((200, JObj [(''ok'', JBool True), (''tx'', opt_json JStr (rm_tx r)), (''slot'', opt_json (JNum \<circ> jint) (rm_slot r)),
                     (''route_record_pda'', JStr (rm_route_record_pda r)),
                     (''name_record_pda'', JStr (tb_toBase58 env (pdaNameRecord env (sha25632Str env (rm_name r))))),
                     (''name_hash_hex'', JStr (rm_name_hash_hex r)),
                     (''mode'', JStr (if rm_tx r = None then ''local_fallback'' else ''onchain'')),
                     (''allow_local_fallback'', JBool (tb_allowLocalFallback env))]),
                  writeRoute r st1))))"

text \<open>What is found for a name: the destination (if any), its lifetime, its hash and the proof.\<close>

record TbRoute =
  tr_name :: string
  tr_dest :: "string option"
  tr_ttl :: jsnum
  tr_dest_hash_hex :: string
  tr_record_pda :: string
  tr_slot :: "int option"
  tr_signature :: "string option"
  tr_local :: bool

definition tb_resolve :: "tb_env \<Rightarrow> chain_view \<Rightarrow> string \<Rightarrow> string \<Rightarrow> TbState \<Rightarrow> TbRoute option res" where
  "tb_resolve env ch wallet name st =
     rbind (tb_publicKey env wallet) (\<lambda>owner.
       let fullName = normalizeFullName name; nameHash = sha25632Str env fullName in
       rbind (fetchRouteRecord env ch owner fullName) (\<lambda>fetched.
         let local = readRoute st wallet (hex nameHash) in
         Inr (case fetched of
             None \<Rightarrow> map_option (\<lambda>l. \<lparr>tr_name = fullName, tr_dest = Some (rm_dest l), tr_ttl = rm_ttl l, tr_dest_hash_hex = rm_dest_hash_hex l,
               tr_record_pda = tb_toBase58 env (pdaRouteRecord env owner nameHash), tr_slot = None, tr_signature = rm_tx l, tr_local = True\<rparr>) local
           | Some (pda, slot, destHash, ttl) \<Rightarrow>
               Some \<lparr>tr_name = fullName,
                 tr_dest = (case local of None \<Rightarrow> None
                   | Some l \<Rightarrow> if hex (sha25632Str env (rm_dest l)) = hex destHash then Some (rm_dest l) else None),
                 tr_ttl = ttl, tr_dest_hash_hex = hex destHash, tr_record_pda = tb_toBase58 env pda, tr_slot = Some slot,
                 tr_signature = Option.bind local rm_tx, tr_local = False\<rparr>)))"

definition tb_resolve_handler :: "tb_env \<Rightarrow> chain_view \<Rightarrow> string \<Rightarrow> string \<Rightarrow> TbState \<Rightarrow> http_reply" where
  "tb_resolve_handler env ch wallet name st =
     (if wallet = [] \<or> name = [] then httpError 400 ''missing_query''
      else (case tb_resolve env ch wallet name st of
          Inl e \<Rightarrow> httpError 500 (error_message e)
        | Inr None \<Rightarrow> httpError 404 ''not_found''
        | Inr (Some r) \<Rightarrow>
            (200, JObj [(''ok'', JBool True), (''name'', JStr (tr_name r)), (''wallet'', JStr wallet), (''dest'', opt_json JStr (tr_dest r)),
               (''ttl'', JNum (tr_ttl r)), (''dest_hash_hex'', JStr (tr_dest_hash_hex r)),
               (''proof'', JObj ([(''program_id'', JStr (tb_toBase58 env (tb_programId env))), (''record_pda'', JStr (tr_record_pda r)),
                  (''slot'', opt_json (JNum \<circ> jint) (tr_slot r)), (''signature'', opt_json JStr (tr_signature r))] @
                  (if tr_local r then [(''mode'', JStr ''local_fallback'')] else [])))])))"

section \<open>Properties\<close>

subsection \<open>Challenges\<close>

definition tb_pending :: "TbChallenges \<Rightarrow> string \<Rightarrow> string option" where
  "tb_pending m wallet = map_option tc_nonce (m wallet)"

definition tb_attempt :: "int \<Rightarrow> string \<Rightarrow> string \<Rightarrow> TbChallenges \<Rightarrow> bool \<times> TbChallenges" where
  "tb_attempt now wallet nonce m = (let (consumed, m') = tb_consume now wallet nonce m in (consumed \<noteq> None, m'))"

interpretation tollbooth_challenges: challenge_store tb_pending "\<lambda>now wallet nonce m. snd (tb_create ttl now wallet nonce m)" tb_attempt
  for ttl :: int
  by unfold_locales (auto simp: tb_pending_def tb_create_def tb_attempt_def tb_consume_def Let_def split: option.splits if_splits)

subsection \<open>Who wrote a route\<close>

lemma authorize_ok:
  assumes "authorize env now wallet nonce signature st = (Inr None, st')"
  obtains ch where "ts_challenges st wallet = Some ch" "tc_nonce ch = nonce" "now \<le> tc_expiresAtMs ch"
    "verifySignedChallenge (tb_sol env) wallet nonce signature = Inr True"
    "st' = st\<lparr>ts_challenges := (ts_challenges st)(wallet := None)\<rparr>"
  using assms by (auto simp: authorize_def tb_consume_def Let_def rmap_eq_Inr split: option.splits if_splits)

lemma authorize_frame:
  assumes "authorize env now wallet nonce signature st = (r, st')"
  shows "ts_routes st' = ts_routes st" "ts_passports st' = ts_passports st" "ts_challenges st' w \<in> {None, ts_challenges st w}"
  using assms by (auto simp: authorize_def tb_consume_def Let_def split: option.splits if_splits)

text \<open>The requests of a run, with what they see of the chain.\<close>

datatype tb_request = AskChallenge int string string | Claim chain_view int json | Assign chain_view int json

fun tb_step :: "tb_env \<Rightarrow> tb_request \<Rightarrow> TbState \<Rightarrow> http_reply \<times> TbState" where
  "tb_step env (AskChallenge now nonce wallet) st = challenge_handler env now nonce wallet st"
| "tb_step env (Claim ch now body) st = claim_handler env ch now body st"
| "tb_step env (Assign ch now body) st = assign_handler env ch now body st"

definition tb_init :: TbState where
  "tb_init = \<lparr>ts_challenges = Map.empty, ts_passports = Map.empty, ts_routes = Map.empty\<rparr>"

definition tb_run :: "tb_env \<Rightarrow> tb_request list \<Rightarrow> TbState" where
  "tb_run env reqs = fold (\<lambda>q st. snd (tb_step env q st)) reqs tb_init"

text \<open>A wallet has signed a challenge that the service issued for it, with the private key that belongs to it.\<close>

definition challenge_issued :: "tb_env \<Rightarrow> tb_request list \<Rightarrow> string \<Rightarrow> string \<Rightarrow> bool" where
  "challenge_issued env reqs wallet nonce \<longleftrightarrow> (\<exists>t key. AskChallenge t nonce wallet \<in> set reqs \<and> tb_publicKey env wallet = Inr key)"

definition route_authorized :: "tb_env \<Rightarrow> tb_request list \<Rightarrow> RouteMapping \<Rightarrow> bool" where
  "route_authorized env reqs r \<longleftrightarrow>
     (\<exists>ch now body. Assign ch now body \<in> set reqs \<and>
        rm_wallet r = req_text env body ''wallet_pubkey'' \<and> rm_dest r = req_text env body ''dest'' \<and>
        rm_name r = normalizeFullName (req_text env body ''name'') \<and>
        challenge_issued env reqs (rm_wallet r) (req_text env body ''nonce'') \<and>
        verifySignedChallenge (tb_sol env) (rm_wallet r) (req_text env body ''nonce'') (req_text env body ''signature'') = Inr True \<and>
        assign_route env ch now (rm_wallet r) (req_text env body ''name'') (rm_dest r) (rm_ttl r) = Inr (Some r))"

lemma assign_route_entry:
  "assign_route env ch now wallet name dest ttl = Inr (Some r) \<Longrightarrow>
     rm_wallet r = wallet \<and> rm_dest r = dest \<and> rm_name r = normalizeFullName name \<and> rm_ttl r = ttl \<and>
     rm_dest_hash_hex r = hex (sha25632Str env dest) \<and> rm_name_hash_hex r = hex (sha25632Str env (rm_name r)) \<and> 
     (rm_tx r = None \<longrightarrow> tb_allowLocalFallback env)"
  by (auto simp: assign_route_def rbind_eq_Inr Let_def supportsLocalRouteFallback_def split: if_splits sum.splits)

text \<open>Every pending challenge was issued; every stored route was authorized.\<close>

definition tb_inv :: "tb_env \<Rightarrow> tb_request list \<Rightarrow> TbState \<Rightarrow> bool" where
  "tb_inv env reqs st \<longleftrightarrow>
     (\<forall>w ch. ts_challenges st w = Some ch \<longrightarrow> challenge_issued env reqs w (tc_nonce ch)) \<and>
     (\<forall>k r. ts_routes st k = Some r \<longrightarrow> k = route_key (rm_wallet r) (rm_name_hash_hex r) \<and> route_authorized env reqs r)"

lemma issued_more: "challenge_issued env reqs w n \<Longrightarrow> challenge_issued env (reqs @ qs) w n"
  by (auto simp: challenge_issued_def)

lemma authorized_more: "route_authorized env reqs r \<Longrightarrow> route_authorized env (reqs @ qs) r"
  unfolding route_authorized_def using issued_more [of env reqs _ _ qs] by (metis UnI1 set_append)

lemma tb_inv_more: "tb_inv env reqs st \<Longrightarrow> tb_inv env (reqs @ qs) st"
  by (auto simp: tb_inv_def intro: issued_more authorized_more)

lemma tb_inv_authorize:
  assumes "authorize env now wallet nonce signature st = (r, st')" "tb_inv env reqs st"
  shows "tb_inv env reqs st'"
proof -
  have "ts_challenges st w = Some ch" if "ts_challenges st' w = Some ch" for w ch
    using authorize_frame(3) [OF assms(1), of w] that by auto
  with assms(2) authorize_frame(1) [OF assms(1)] show ?thesis unfolding tb_inv_def by metis
qed

lemma tb_inv_step:
  assumes "tb_inv env reqs st"
  shows "tb_inv env (reqs @ [q]) (snd (tb_step env q st))"
proof (cases q)
  case (AskChallenge now nonce wallet)
  then show ?thesis
    using tb_inv_more [OF assms, of "[q]"]
    by (auto simp: challenge_handler_def tb_create_def tb_inv_def challenge_issued_def Let_def split: sum.splits) metis
next
  case (Claim ch now body)
  obtain r st1 where a: "authorize env now (req_text env body ''wallet_pubkey'') (req_text env body ''nonce'')
      (req_text env body ''signature'') st = (r, st1)" by (meson surj_pair)
  note inv = tb_inv_authorize [OF a tb_inv_more [OF assms, of "[q]"]]
  then have "tb_inv env (reqs @ [q]) (writePassport p st1)" for p by (simp add: tb_inv_def writePassport_def)
  with inv show ?thesis
    by (auto simp: Claim claim_handler_def a Let_def split: sum.splits option.splits)
next
  case (Assign ch now body)
  let ?w = "req_text env body ''wallet_pubkey''" and ?n = "req_text env body ''nonce''" and ?s = "req_text env body ''signature''"
  obtain r st1 where a: "authorize env now ?w ?n ?s st = (r, st1)" by (meson surj_pair)
  note inv = tb_inv_authorize [OF a tb_inv_more [OF assms, of "[q]"]]
  have stored: "tb_inv env (reqs @ [q]) (writeRoute x st1)"
    if x: "assign_route env ch now ?w (req_text env body ''name'') (req_text env body ''dest'') (req_number env body ''ttl'') = Inr (Some x)"
      and "r = Inr None" for x
  proof -
    from a \<open>r = Inr None\<close> obtain c where c: "ts_challenges st ?w = Some c" "tc_nonce c = ?n"
        "verifySignedChallenge (tb_sol env) ?w ?n ?s = Inr True" by (auto elim: authorize_ok)
    with assms have "challenge_issued env reqs ?w ?n" unfolding tb_inv_def by metis
    then have "challenge_issued env (reqs @ [q]) ?w ?n" by (rule issued_more)
    with c(3) x assign_route_entry [OF x] have "route_authorized env (reqs @ [q]) x"
      unfolding route_authorized_def Assign by (intro exI [of _ ch] exI [of _ now] exI [of _ body]) simp
    with inv show ?thesis by (auto simp: tb_inv_def writeRoute_def)
  qed
  show ?thesis
    using tb_inv_more [OF assms, of "[q]"] inv stored
    by (auto simp: Assign assign_handler_def a Let_def split: sum.splits option.splits)
qed

lemma tb_run_inv: "tb_inv env reqs (tb_run env reqs)"
proof (induction reqs rule: rev_induct)
  case Nil
  then show ?case by (simp add: tb_run_def tb_inv_def tb_init_def)
next
  case (snoc q reqs)
  from tb_inv_step [OF this, of q] show ?case by (simp add: tb_run_def)
qed

text \<open>A public key in text is base 58, so a wallet and the hash of a name can be read off the name of a file.\<close>

definition key_law :: "tb_env \<Rightarrow> bool" where
  "key_law env \<longleftrightarrow> (\<forall>w key. tb_publicKey env w = Inr key \<longrightarrow> list_all is_base58 w)"

lemma hex_inject: "hex a = hex b \<Longrightarrow> a = b"
  by (metis hex_pairs_hex)

lemma base58_alnum: "is_base58 c \<Longrightarrow> is_alnum c \<and> c \<noteq> CHR ''_''"
  by (auto simp: is_base58_def is_alnum_def is_digit_char_def between_def)

lemma safe_base58: "list_all is_base58 w \<Longrightarrow> safeFileKey w = w"
  unfolding safeFileKey_def by (rule map_idI) (auto simp: list_all_iff dest: base58_alnum)

lemma route_key_eq:
  assumes "list_all is_base58 w" "list_all is_base58 w'" "route_key w h = route_key w' h'"
  shows "w = w' \<and> h = h'"
proof -
  have "takeWhile (\<lambda>c. c \<noteq> CHR ''_'') (x @ ''_'' @ y) = x" if "list_all is_base58 x" for x y
    using that by (induction x) (auto dest: base58_alnum)
  from this [OF assms(1), of h] this [OF assms(2), of h'] assms show ?thesis
    by (simp add: route_key_def safe_base58)
qed

lemma authorized_key: "route_authorized env reqs r \<Longrightarrow> \<exists>key. tb_publicKey env (rm_wallet r) = Inr key"
  by (auto simp: route_authorized_def challenge_issued_def)

text \<open>C15: what the toll booth tells of a name it was told by the wallet itself: whenever it answers a destination for a wallet
  and a name, a request set exactly this destination for this name, with a signature of this wallet on a challenge that was
  issued for it before; and either the chain holds the hash of this destination, or it holds no route at all and the answer is marked as
  local.\<close>

theorem tb_resolve_authentic:
  assumes "key_law env" "tb_resolve env ch wallet name (tb_run env reqs) = Inr (Some r)" "tr_dest r = Some d"
  shows "\<exists>m owner. route_authorized env reqs m \<and> rm_wallet m = wallet \<and> rm_dest m = d \<and>
    rm_name_hash_hex m = hex (sha25632Str env (normalizeFullName name)) \<and> tb_publicKey env wallet = Inr owner \<and>
    (if tr_local r then fetchRouteRecord env ch owner (normalizeFullName name) = Inr None
     else \<exists>pda slot ttl. fetchRouteRecord env ch owner (normalizeFullName name) = Inr (Some (pda, slot, sha25632Str env d, ttl)))"
proof -
  let ?h = "hex (sha25632Str env (normalizeFullName name))" and ?st = "tb_run env reqs"
  obtain owner fetched where o: "tb_publicKey env wallet = Inr owner" "fetchRouteRecord env ch owner (normalizeFullName name) = Inr fetched"
    using assms(2) by (auto simp: tb_resolve_def rbind_eq_Inr Let_def)
  note R = assms(2) [unfolded tb_resolve_def o Let_def rbind_Inr]
  obtain m where m: "readRoute ?st wallet ?h = Some m" "rm_dest m = d"
    using R assms(3) o(2) by (cases "readRoute ?st wallet ?h") (auto split: option.splits prod.splits if_splits)
  have inv: "route_key wallet ?h = route_key (rm_wallet m) (rm_name_hash_hex m)" "route_authorized env reqs m"
    using tb_run_inv [of env reqs] m(1) by (auto simp: tb_inv_def readRoute_def)
  obtain key where "tb_publicKey env (rm_wallet m) = Inr key" using authorized_key [OF inv(2)] by blast
  with o(1) assms(1) have "list_all is_base58 wallet" "list_all is_base58 (rm_wallet m)" by (auto simp: key_law_def)
  from route_key_eq [OF this inv(1)] have same: "rm_wallet m = wallet" "rm_name_hash_hex m = ?h" by simp_all
  have "if tr_local r then fetched = None else \<exists>pda slot ttl. fetched = Some (pda, slot, sha25632Str env d, ttl)"
    using R assms(3) m o(2) by (auto split: option.splits prod.splits if_splits dest: hex_inject)
  with m(2) inv(2) same o show ?thesis by (intro exI [of _ m] exI [of _ owner]) (auto split: if_splits)
qed

subsection \<open>Passports of the older layout\<close>

text \<open>The account of a passport: the current layout has the hash of the metadata, the older one has not.\<close>

definition tollpass_bytes :: "bool \<Rightarrow> TollPass \<Rightarrow> bytes" where
  "tollpass_bytes current p =
     tp_owner p @ le_bytes 8 (tp_issuedAt p mod 2 ^ 64) @ tp_nameHash p @ tp_ownerMint p @ tp_pageCidHash p @
     (if current then tp_metadataHash p else []) @ [word_of_int (tp_bump p), if tp_initialized p then 1 else 0]"

definition tollpass_wf :: "bool \<Rightarrow> TollPass \<Rightarrow> bool" where
  "tollpass_wf current p \<longleftrightarrow> length (tp_owner p) = 32 \<and> - (2 ^ 63) \<le> tp_issuedAt p \<and> tp_issuedAt p < 2 ^ 63 \<and> length (tp_nameHash p) = 32 \<and>
     length (tp_ownerMint p) = 32 \<and> length (tp_pageCidHash p) = 32 \<and>
     (if current then length (tp_metadataHash p) = 32 else tp_metadataHash p = replicate 32 0) \<and> 0 \<le> tp_bump p \<and> tp_bump p < 256"

lemma read_i64_le: "- (2 ^ 63) \<le> n \<Longrightarrow> n < 2 ^ 63 \<Longrightarrow> read_i64 (le_bytes 8 (n mod 2 ^ 64)) = n"
proof -
  assume n: "- (2 ^ 63) \<le> n" "n < 2 ^ 63"
  show ?thesis
  proof (cases "0 \<le> n")
    case True
    with n show ?thesis by (simp add: read_i64_def of_le_le_bytes Let_def)
  next
    case False
    have "n mod 2 ^ 64 = (n + 2 ^ 64) mod 2 ^ 64" by simp
    also have "\<dots> = n + 2 ^ 64" using n False by (intro mod_pos_pos_trivial) simp_all
    finally have "n mod 2 ^ 64 = n + 2 ^ 64" .
    with n False show ?thesis by (simp add: read_i64_def of_le_le_bytes Let_def)
  qed
qed

text \<open>Passports of both layouts are read back whole, with and without the discriminator of Anchor in front: the four lengths tell the
  layouts apart, and an account of the older layout gets zeros for the hash it does not have.\<close>

theorem tollpass_roundtrip:
  assumes "tollpass_wf current p" "length disc = 0 \<or> length disc = 8"
  shows "decodeLegacyTollPassAccount (disc @ tollpass_bytes current p) = Some p"
proof -
  note wf = assms(1) [unfolded tollpass_wf_def]
  have len: "length (tollpass_bytes current p) = (if current then TOLL_PASS_CURRENT_SIZE else TOLL_PASS_LEGACY_SIZE)"
    using wf by (auto simp: tollpass_bytes_def TOLL_PASS_CURRENT_SIZE_def TOLL_PASS_LEGACY_SIZE_def)
  have start: "tollpass_start (length (disc @ tollpass_bytes current p)) = Some (length disc)"
    using assms(2) len by (auto simp: tollpass_start_def TOLL_PASS_CURRENT_SIZE_def TOLL_PASS_LEGACY_SIZE_def)
  have fields: "take 32 (tollpass_bytes current p) = tp_owner p" "take 8 (drop 32 (tollpass_bytes current p)) = le_bytes 8 (tp_issuedAt p mod 2 ^ 64)"
      "take 32 (drop 40 (tollpass_bytes current p)) = tp_nameHash p" "take 32 (drop 72 (tollpass_bytes current p)) = tp_ownerMint p"
      "take 32 (drop 104 (tollpass_bytes current p)) = tp_pageCidHash p"
    using wf by (simp_all add: tollpass_bytes_def)
  have tail: "current \<Longrightarrow> take 32 (drop 136 (tollpass_bytes current p)) = tp_metadataHash p"
      "current \<Longrightarrow> tollpass_bytes current p ! 168 = word_of_int (tp_bump p)"
      "current \<Longrightarrow> tollpass_bytes current p ! 169 = (if tp_initialized p then 1 else 0)"
      "\<not> current \<Longrightarrow> tollpass_bytes current p ! 136 = word_of_int (tp_bump p)"
      "\<not> current \<Longrightarrow> tollpass_bytes current p ! 137 = (if tp_initialized p then 1 else 0)"
    using wf by (simp_all add: tollpass_bytes_def nth_append)
  have bump: "uint (word_of_int (tp_bump p) :: byte) = tp_bump p" using wf by (simp add: uint_word_of_int)
  have i64: "read_i64 (le_bytes 8 (tp_issuedAt p mod 2 ^ 64)) = tp_issuedAt p" using wf by (intro read_i64_le) simp_all
  show ?thesis
    unfolding decodeLegacyTollPassAccount_def start using wf len tail fields i64
    by (cases "current = True") (auto intro!: TollPass.equality simp: bump Let_def TOLL_PASS_CURRENT_SIZE_def TOLL_PASS_LEGACY_SIZE_def)
qed

definition toy_pass :: TollPass where
  "toy_pass = \<lparr>tp_owner = replicate 32 1, tp_issuedAt = - 5, tp_nameHash = replicate 32 2, tp_ownerMint = replicate 32 3,
     tp_pageCidHash = replicate 32 4, tp_metadataHash = replicate 32 0, tp_bump = 254, tp_initialized = True\<rparr>"

theorem tollpass_roundtrip_witness:
  "decodeLegacyTollPassAccount (replicate 8 7 @ tollpass_bytes False toy_pass) = Some toy_pass"
  by (rule tollpass_roundtrip) (simp_all add: tollpass_wf_def toy_pass_def)

subsection \<open>A concrete run\<close>

definition toy_tb :: tb_env where
  "toy_tb = \<lparr>tb_sol = \<lparr>so_bs58 = (\<lambda>s. Some (ascii s)), so_unbase64 = ascii, so_nacl_verify = (\<lambda>m s p. Inr (s = p))\<rparr>,
     tb_sha = (\<lambda>b. b), tb_numstr = (\<lambda>_. []), tb_number = (\<lambda>v. case v of JNum n \<Rightarrow> n | _ \<Rightarrow> NaN),
     tb_publicKey = (\<lambda>s. if list_all is_base58 s then Inr (ascii s) else Inl TypeError), tb_toBase58 = (\<lambda>_. ''k''), tb_programId = [9],
     tb_pda = (\<lambda>seeds. hd seeds), tb_decodePass = Inr, tb_decodeRoute = (\<lambda>d. Inr (d, Fin 60)), tb_allowLocalFallback = False\<rparr>"

text \<open>A chain with the program, its configuration, a passport, and a route once it has been set to \<open>x\<close>.\<close>

definition toy_chain_view :: "bool \<Rightarrow> chain_view" where
  "toy_chain_view routed = \<lparr>ch_account = (\<lambda>a. Inr (7, if a = ascii ''record'' then (if routed then Some (ascii ''x'') else None) else Some [1])),
     ch_initialize = Inr (), ch_createMint = Inr [1], ch_tokenAccount = (\<lambda>_ _. Inr ()), ch_issue = (\<lambda>_ _. Inr ''tx''),
     ch_setRoute = (\<lambda>_ _ _ _. Inr (''tx'', 7))\<rparr>"

definition toy_tb_body :: json where
  "toy_tb_body = JObj [(''wallet_pubkey'', JStr ''w''), (''name'', JStr ''a''), (''dest'', JStr ''x''), (''ttl'', JNum (Fin 60)),
     (''nonce'', JStr ''n''), (''signature'', JStr ''w'')]"

definition toy_tb_requests :: "tb_request list" where
  "toy_tb_requests = [AskChallenge 0 ''n'' ''w'', Assign (toy_chain_view False) 5 toy_tb_body]"

lemma toy_tb_fields: "req_text toy_tb toy_tb_body ''wallet_pubkey'' = ''w''" "req_text toy_tb toy_tb_body ''name'' = ''a''"
    "req_text toy_tb toy_tb_body ''dest'' = ''x''" "req_text toy_tb toy_tb_body ''nonce'' = ''n''"
    "req_text toy_tb toy_tb_body ''signature'' = ''w''" "req_number toy_tb toy_tb_body ''ttl'' = Fin 60"
  by (simp_all add: req_text_def req_number_def toy_tb_body_def jprop_def js_to_string_def toy_tb_def)

lemma toy_tb_names: "normalizeFullName ''a'' = ''a.dns''" "normalizeFullName ''a.dns'' = ''a.dns''"
  by code_simp+

lemma toy_tb_key: "tb_publicKey toy_tb ''w'' = Inr (ascii ''w'')"
proof -
  have "list_all is_base58 ''w''" by code_simp
  then show ?thesis by (simp add: toy_tb_def)
qed

lemma toy_tb_seeds: "ascii ''toll_pass'' \<noteq> ascii ''record''" "ascii ''config'' \<noteq> ascii ''record''" "[9] \<noteq> ascii ''record''"
  by (simp_all add: ascii_def)

lemma toy_tb_hash: "sha25632Str toy_tb ''x'' = ascii ''x''"
proof -
  have "utf8_bytes ''x'' = ascii ''x''" by (simp add: utf8_bytes_def ascii_def text_encode_def scalar_unit_def utf8_def high_surrogate_def low_surrogate_def)
  then show ?thesis by (simp add: sha25632Str_def toy_tb_def)
qed

lemmas toy_tb_facts = toy_tb_names toy_tb_key toy_tb_seeds toy_tb_hash

definition toy_tb_entry :: RouteMapping where
  "toy_tb_entry = \<lparr>rm_wallet = ''w'', rm_name = ''a.dns'', rm_name_hash_hex = hex (sha25632Str toy_tb ''a.dns''), rm_route_record_pda = ''k'',
     rm_dest = ''x'', rm_dest_hash_hex = hex (ascii ''x''), rm_ttl = Fin 60, rm_tx = Some ''tx'', rm_slot = Some 7, rm_updated_at = 5\<rparr>"

lemma toy_tb_chain: "ensureProgramExists toy_tb (toy_chain_view b) = Inr ()" "ensureInitialized toy_tb (toy_chain_view b) = Inr ()"
    "getPassportIfExists toy_tb (toy_chain_view b) w = Inr (Some [1])" "tb_setRoute toy_tb (toy_chain_view b) w n d t = Inr (''tx'', 7)"
    "fetchRouteRecord toy_tb (toy_chain_view True) w n = Inr (Some (ascii ''record'', 7, ascii ''x'', Fin 60))"
    "tb_toBase58 toy_tb k = ''k''"
  by (simp_all add: toy_tb_facts(4-6) toy_tb_def ensureProgramExists_def ensureInitialized_def getPassportIfExists_def get_account_def decodeTollPassCompat_def
      tb_setRoute_def fetchRouteRecord_def pdaConfig_def pdaTollPass_def pdaRouteRecord_def toy_chain_view_def)

lemma toy_tb_stored: "ts_routes (tb_run toy_tb toy_tb_requests) (route_key ''w'' (rm_name_hash_hex toy_tb_entry)) = Some toy_tb_entry"
proof -
  define c where "c = \<lparr>tc_wallet = ''w'', tc_nonce = ''n'', tc_expiresAtMs = 300000\<rparr>"
  have ask: "snd (tb_step toy_tb (AskChallenge 0 ''n'' ''w'') tb_init) = tb_init\<lparr>ts_challenges := [''w'' \<mapsto> c]\<rparr>"
    by (simp add: challenge_handler_def toy_tb_facts tb_create_def tb_init_def c_def Let_def)
  have signed: "verifySignedChallenge (tb_sol toy_tb) ''w'' ''n'' ''w'' = Inr True"
    by (simp add: verifySignedChallenge_def decodeSig_def toy_tb_def)
  have auth: "authorize toy_tb 5 ''w'' ''n'' ''w'' (tb_init\<lparr>ts_challenges := [''w'' \<mapsto> c]\<rparr>) =
      (Inr None, tb_init\<lparr>ts_challenges := Map.empty\<rparr>)"
    by (simp add: authorize_def tb_consume_def signed) (simp add: c_def)
  have entry: "assign_route toy_tb (toy_chain_view False) 5 ''w'' ''a'' ''x'' (Fin 60) = Inr (Some toy_tb_entry)"
    by (simp add: assign_route_def toy_tb_chain toy_tb_facts toy_tb_entry_def Let_def)
  have "snd (tb_step toy_tb (Assign (toy_chain_view False) 5 toy_tb_body) (tb_init\<lparr>ts_challenges := [''w'' \<mapsto> c]\<rparr>)) =
      writeRoute toy_tb_entry (tb_init\<lparr>ts_challenges := Map.empty\<rparr>)"
    by (simp add: assign_handler_def toy_tb_fields auth entry nle_def Let_def)
  then have "tb_run toy_tb toy_tb_requests = writeRoute toy_tb_entry (tb_init\<lparr>ts_challenges := Map.empty\<rparr>)"
    by (simp add: tb_run_def toy_tb_requests_def ask del: tb_step.simps)
  then show ?thesis by (simp add: writeRoute_def) (simp add: toy_tb_entry_def)
qed

theorem tb_resolve_authentic_witness:
  "\<exists>m. route_authorized toy_tb toy_tb_requests m \<and> rm_wallet m = ''w'' \<and> rm_dest m = ''x''"
proof -
  have law: "key_law toy_tb" by (simp add: key_law_def toy_tb_def)
  have "readRoute (tb_run toy_tb toy_tb_requests) ''w'' (hex (sha25632Str toy_tb ''a.dns'')) = Some toy_tb_entry"
    using toy_tb_stored by (simp add: readRoute_def toy_tb_entry_def)
  then obtain r where r: "tb_resolve toy_tb (toy_chain_view True) ''w'' ''a'' (tb_run toy_tb toy_tb_requests) = Inr (Some r)" "tr_dest r = Some ''x''"
    by (simp add: tb_resolve_def toy_tb_facts toy_tb_chain) (simp add: toy_tb_entry_def toy_tb_facts)
  from tb_resolve_authentic [OF law r] show ?thesis by blast
qed

end
