(* ===== verification/WitnessGateway.thy ===== *)
theory WitnessGateway
  imports CacheLog Json Hosting
begin

section \<open>The witness gateway (services/witness-gateway/src/index.ts)\<close>

text \<open>
  A small gateway answers from a table of routes in its environment, signs a receipt for every answer and appends it to a spool,
  which a flush turns into a batch file. Parameters: SHA-256, the signature of the gateway's key, base64, how JSON prints a number,
  \<open>Number\<close> of a text, and the table (\<open>we_routes\<close>: not set, not readable, or an object of texts). The clock is in
  milliseconds. The spool is the list of its receipts, empty when there is no file; batch files are a map from names to texts.
\<close>

record WitnessReceiptV1 =
  wr_name :: string
  wr_name_hash :: string
  wr_rrset_hash :: string
  wr_ttl_s :: jsnum
  wr_observed_at_bucket :: int
  wr_witness_pubkey :: string
  wr_signature :: string

record witness_env =
  we_sha :: "bytes \<Rightarrow> bytes"
  we_sign :: "bytes \<Rightarrow> bytes"
  we_base64 :: "bytes \<Rightarrow> string"
  we_numstr :: "rat \<Rightarrow> string"
  we_number :: "string \<Rightarrow> jsnum"
  we_pubkey :: string
  we_routes :: "(string \<rightharpoonup> string) res option"
  we_ipfsApi :: bool

definition bucketUnix10m :: "int \<Rightarrow> int" where
  "bucketUnix10m unixSeconds = unixSeconds div 600 * 600"

definition wg_normalizeName :: "string \<Rightarrow> string" where
  "wg_normalizeName input = strip_dot (lower (trim input))"

definition isValidDnsLabel :: "string \<Rightarrow> bool" where
  "isValidDnsLabel l \<longleftrightarrow> 3 \<le> length l \<and> length l \<le> 32 \<and> hd l \<noteq> CHR ''-'' \<and> last l \<noteq> CHR ''-'' \<and>
     list_all (\<lambda>c. between (CHR ''a'') (CHR ''z'') c \<or> is_digit_char c \<or> c = CHR ''-'') l"

definition normalizeAndValidateName :: "string \<Rightarrow> string res" where
  "normalizeAndValidateName name =
     (let n = wg_normalizeName name in
      if ends_with n ''.dns''
      then (if isValidDnsLabel (take (length n - 4) n) then Inr n else throw ''invalid .dns label rules'')
      else if length n < 1 \<or> 253 < length n then throw ''invalid fqdn length'' else Inr n)"

definition witnessSignBytes :: "(bytes \<Rightarrow> bytes) \<Rightarrow> bytes \<Rightarrow> bytes \<Rightarrow> jsnum \<Rightarrow> int \<Rightarrow> bytes" where
  "witnessSignBytes sha name_hash rrset_hash ttl_s bucket =
     sha (ascii ''DDNS_WITNESS_V1'' @ name_hash @ rrset_hash @ u32le ttl_s @ u64le bucket)"

text \<open>\<open>obj[name] || null\<close>. The object inherits \<open>constructor\<close> and \<open>__proto__\<close>, which are no texts: using them throws.\<close>

definition resolveDest :: "witness_env \<Rightarrow> string \<Rightarrow> string option res" where
  "resolveDest env nameNorm =
     (case we_routes env of
        None \<Rightarrow> Inr None
      | Some table \<Rightarrow> rbind table (\<lambda>obj.
          case obj nameNorm of
            Some dest \<Rightarrow> Inr (if dest = [] then None else Some dest)
          | None \<Rightarrow> if nameNorm = ''constructor'' \<or> nameNorm = ''__proto__'' then Inl TypeError else Inr None))"

definition wg_destHash :: "witness_env \<Rightarrow> string \<Rightarrow> bytes" where
  "wg_destHash env dest = we_sha env (utf8_bytes (trim dest))"

definition receipt_json :: "WitnessReceiptV1 \<Rightarrow> json" where
  "receipt_json r = JObj [(''version'', JNum (Fin 1)), (''name'', JStr (wr_name r)), (''name_hash'', JStr (wr_name_hash r)),
     (''rrset_hash'', JStr (wr_rrset_hash r)), (''ttl_s'', JNum (wr_ttl_s r)),
     (''observed_at_bucket'', JNum (jint (wr_observed_at_bucket r))), (''witness_pubkey'', JStr (wr_witness_pubkey r)),
     (''signature'', JStr (wr_signature r))]"

definition receipt_line :: "witness_env \<Rightarrow> WitnessReceiptV1 \<Rightarrow> string" where
  "receipt_line env r = json_str (we_numstr env) (receipt_json r) @ [CHR 0x0A]"

record WitnessSpool =
  ws_receipts :: "WitnessReceiptV1 list"
  ws_batches :: "string \<rightharpoonup> string"

definition emitReceipt :: "witness_env \<Rightarrow> int \<Rightarrow> string \<Rightarrow> bytes \<Rightarrow> jsnum \<Rightarrow> WitnessSpool \<Rightarrow> WitnessReceiptV1 res \<times> WitnessSpool" where
  "emitReceipt env nowMs name rrset_hash ttl_s st =
     (case normalizeAndValidateName name of
        Inl e \<Rightarrow> (Inl e, st)
      | Inr name_norm \<Rightarrow>
          (let name_hash = we_sha env (utf8_bytes name_norm);
               observed_at_bucket = bucketUnix10m (nowMs div 1000);
               msgHash = witnessSignBytes (we_sha env) name_hash rrset_hash ttl_s observed_at_bucket;
               rec = \<lparr>wr_name = name_norm, wr_name_hash = hex name_hash, wr_rrset_hash = hex rrset_hash, wr_ttl_s = ttl_s,
                 wr_observed_at_bucket = observed_at_bucket, wr_witness_pubkey = we_pubkey env,
                 wr_signature = we_base64 env (we_sign env msgHash)\<rparr>
           in (Inr rec, st\<lparr>ws_receipts := ws_receipts st @ [rec]\<rparr>)))"

text \<open>An answer has the name, the destination, its lifetime and the receipt; what is thrown goes to the framework.\<close>

datatype WitnessAnswer = WitnessFound string string jsnum WitnessReceiptV1 | WitnessNotFound string

definition query_ttl :: "witness_env \<Rightarrow> string option \<Rightarrow> jsnum" where
  "query_ttl env ttl = (case ttl of
     Some t \<Rightarrow> if t = [] then Fin 300 else nmax (Fin 1) (nmin (Fin 86400) (we_number env t)) | None \<Rightarrow> Fin 300)"

definition wg_resolve :: "witness_env \<Rightarrow> int \<Rightarrow> string \<Rightarrow> string option \<Rightarrow> WitnessSpool \<Rightarrow> WitnessAnswer res \<times> WitnessSpool" where
  "wg_resolve env nowMs name ttl st =
     (let ttl_s = query_ttl env ttl in
      case normalizeAndValidateName name of
        Inl e \<Rightarrow> (Inl e, st)
      | Inr name_norm \<Rightarrow>
          (case resolveDest env name_norm of
             Inl e \<Rightarrow> (Inl e, st)
           | Inr None \<Rightarrow> (Inr (WitnessNotFound name_norm), st)
           | Inr (Some dest) \<Rightarrow>
               (case emitReceipt env nowMs name_norm (wg_destHash env dest) ttl_s st of
                  (Inl e, st') \<Rightarrow> (Inl e, st')
                | (Inr receipt, st') \<Rightarrow> (Inr (WitnessFound name_norm (trim dest) ttl_s receipt), st'))))"

definition wg_receipts :: "string option \<Rightarrow> WitnessSpool \<Rightarrow> WitnessReceiptV1 list" where
  "wg_receipts name st =
     (let n = (case name of Some s \<Rightarrow> if s = [] then [] else wg_normalizeName s | None \<Rightarrow> []); rs = ws_receipts st in
      filter (\<lambda>r. n = [] \<or> wr_name r = n) (drop (length rs - 200) rs))"

record WitnessFlush =
  wf_batch_hash_hex :: "string option"
  wf_count :: nat
  wf_cid :: "string option"
  wf_file :: "string option"

definition batch_text :: "witness_env \<Rightarrow> WitnessReceiptV1 list \<Rightarrow> string" where
  "batch_text env rs = concat (map (receipt_line env) rs)"

definition batch_file :: "witness_env \<Rightarrow> int \<Rightarrow> string \<Rightarrow> string" where
  "batch_file env nowMs batch = ''batch_'' @ we_numstr env (of_int nowMs) @ ''_'' @ hash_text (we_sha env) batch @ ''.jsonl''"

definition wg_flush :: "witness_env \<Rightarrow> int \<Rightarrow> WitnessSpool \<Rightarrow> WitnessFlush \<times> WitnessSpool" where
  "wg_flush env nowMs st =
     (if ws_receipts st = [] then (\<lparr>wf_batch_hash_hex = None, wf_count = 0, wf_cid = None, wf_file = None\<rparr>, st)
      else let batch = batch_text env (ws_receipts st); batchHash = hash_text (we_sha env) batch; outFile = batch_file env nowMs batch in
        (\<lparr>wf_batch_hash_hex = Some batchHash, wf_count = length (ws_receipts st),
          wf_cid = (if we_ipfsApi env then Some (''ipfs://stub/'' @ batchHash) else None), wf_file = Some outFile\<rparr>,
         \<lparr>ws_receipts = [], ws_batches = (ws_batches st)(outFile \<mapsto> batch)\<rparr>))"

section \<open>Properties\<close>

text \<open>A run: queries and flushes, with the receipts that were answered and the texts of the batches.\<close>

datatype wg_request = AskName int string "string option" | Flush int

record WitnessRun =
  wn_state :: WitnessSpool
  wn_issued :: "WitnessReceiptV1 list"
  wn_flushed :: "string list"

fun wg_step :: "witness_env \<Rightarrow> wg_request \<Rightarrow> WitnessRun \<Rightarrow> WitnessRun" where
  "wg_step env (AskName now name ttl) w =
     (let (r, st) = wg_resolve env now name ttl (wn_state w) in
      w\<lparr>wn_state := st, wn_issued := wn_issued w @ (case r of Inr (WitnessFound _ _ _ rec) \<Rightarrow> [rec] | _ \<Rightarrow> [])\<rparr>)"
| "wg_step env (Flush now) w =
     w\<lparr>wn_state := snd (wg_flush env now (wn_state w)),
       wn_flushed := wn_flushed w @ (if ws_receipts (wn_state w) = [] then [] else [batch_text env (ws_receipts (wn_state w))])\<rparr>"

definition wg_run :: "witness_env \<Rightarrow> wg_request list \<Rightarrow> WitnessRun" where
  "wg_run env reqs = fold (wg_step env) reqs
     \<lparr>wn_state = \<lparr>ws_receipts = [], ws_batches = Map.empty\<rparr>, wn_issued = [], wn_flushed = []\<rparr>"

text \<open>What a receipt says: there is a route of its name, up to a final dot, and it signs the hash of the destination.\<close>

definition receipt_exact :: "witness_env \<Rightarrow> WitnessReceiptV1 \<Rightarrow> bool" where
  "receipt_exact env r \<longleftrightarrow>
     (\<exists>n dest. resolveDest env n = Inr (Some dest) \<and> normalizeAndValidateName n = Inr (wr_name r) \<and>
        wr_name_hash r = hash_text (we_sha env) (wr_name r) \<and> wr_rrset_hash r = hash_text (we_sha env) (trim dest) \<and>
        (wr_ttl_s r = NaN \<or> nle (Fin 1) (wr_ttl_s r) \<and> nle (wr_ttl_s r) (Fin 86400)) \<and> 600 dvd wr_observed_at_bucket r \<and>
        wr_signature r = we_base64 env (we_sign env (witnessSignBytes (we_sha env) (we_sha env (utf8_bytes (wr_name r)))
          (we_sha env (utf8_bytes (trim dest))) (wr_ttl_s r) (wr_observed_at_bucket r))))"

text \<open>A receipt is kept when it is in the spool, or its line is in a batch file.\<close>

definition receipt_kept :: "witness_env \<Rightarrow> WitnessSpool \<Rightarrow> WitnessReceiptV1 \<Rightarrow> bool" where
  "receipt_kept env st r \<longleftrightarrow> r \<in> set (ws_receipts st) \<or>
     (\<exists>f before after. ws_batches st f = Some (before @ receipt_line env r @ after))"

lemma query_ttl_range: "query_ttl env ttl = NaN \<or> nle (Fin 1) (query_ttl env ttl) \<and> nle (query_ttl env ttl) (Fin 86400)"
proof -
  have "nmax (Fin 1) (nmin (Fin 86400) n) = NaN \<or>
      nle (Fin 1) (nmax (Fin 1) (nmin (Fin 86400) n)) \<and> nle (nmax (Fin 1) (nmin (Fin 86400) n)) (Fin 86400)" for n
    by (cases n) (auto simp: nmax_def nmin_def nle_def)
  then show ?thesis by (auto simp: query_ttl_def nle_def split: option.splits)
qed

lemma wg_resolve_cases:
  assumes "wg_resolve env now name ttl st = (r, st')"
  obtains (issued) n dest rec where "r = Inr (WitnessFound n (trim dest) (query_ttl env ttl) rec)" "receipt_exact env rec"
      "st' = st\<lparr>ws_receipts := ws_receipts st @ [rec]\<rparr>"
    | (silent) "st' = st" "\<And>a b c rec. r \<noteq> Inr (WitnessFound a b c rec)"
proof -
  show ?thesis
  proof (cases "normalizeAndValidateName name")
    case (Inl e)
    with assms show ?thesis by (intro silent) (auto simp: wg_resolve_def Let_def)
  next
    case n: (Inr n)
    show ?thesis
    proof (cases "\<exists>dest m. resolveDest env n = Inr (Some dest) \<and> normalizeAndValidateName n = Inr m")
      case False
      with assms n show ?thesis
        by (intro silent) (auto simp: wg_resolve_def emitReceipt_def Let_def split: sum.splits option.splits)
    next
      case True
      then obtain dest m where d: "resolveDest env n = Inr (Some dest)" "normalizeAndValidateName n = Inr m" by blast
      define rec where "rec = \<lparr>wr_name = m, wr_name_hash = hex (we_sha env (utf8_bytes m)), wr_rrset_hash = hex (wg_destHash env dest),
        wr_ttl_s = query_ttl env ttl, wr_observed_at_bucket = bucketUnix10m (now div 1000), wr_witness_pubkey = we_pubkey env,
        wr_signature = we_base64 env (we_sign env (witnessSignBytes (we_sha env) (we_sha env (utf8_bytes m)) (wg_destHash env dest)
          (query_ttl env ttl) (bucketUnix10m (now div 1000))))\<rparr>"
      have "receipt_exact env rec" unfolding receipt_exact_def
        by (intro exI [of _ n] exI [of _ dest])
          (use d query_ttl_range [of env ttl] in \<open>simp add: rec_def hash_text_def wg_destHash_def bucketUnix10m_def\<close>)
      moreover have "r = Inr (WitnessFound n (trim dest) (query_ttl env ttl) rec)" "st' = st\<lparr>ws_receipts := ws_receipts st @ [rec]\<rparr>"
        using assms n d by (simp_all add: wg_resolve_def emitReceipt_def Let_def rec_def)
      ultimately show ?thesis by (intro issued)
    qed
  qed
qed

lemma batch_text_line:
  assumes "r \<in> set rs"
  obtains before after where "batch_text env rs = before @ receipt_line env r @ after"
proof -
  from assms obtain xs ys where "rs = xs @ r # ys" by (meson split_list)
  then have "batch_text env rs = batch_text env xs @ receipt_line env r @ batch_text env ys" by (simp add: batch_text_def)
  then show ?thesis by (rule that)
qed

text \<open>The name of a batch file ends with the hash of its text: files of one name have texts of one hash.\<close>

lemma batch_file_hash:
  assumes "\<And>b. length (we_sha env b) = 32" "batch_file env t c = batch_file env t' c'"
  shows "hash_text (we_sha env) c = hash_text (we_sha env) c'"
proof -
  have "length (hash_text (we_sha env) c) = length (hash_text (we_sha env) c')"
    using assms(1) by (simp add: hash_text_def length_hex)
  moreover have "(''batch_'' @ we_numstr env (of_int t) @ ''_'') @ hash_text (we_sha env) c =
      (''batch_'' @ we_numstr env (of_int t') @ ''_'') @ hash_text (we_sha env) c'"
    using assms(2) by (simp add: batch_file_def)
  ultimately show ?thesis by (metis append_eq_append_conv)
qed

definition wg_inv :: "witness_env \<Rightarrow> WitnessRun \<Rightarrow> bool" where
  "wg_inv env w \<longleftrightarrow> (\<forall>r \<in> set (wn_issued w). receipt_exact env r \<and> receipt_kept env (wn_state w) r) \<and>
     (\<forall>f c. ws_batches (wn_state w) f = Some c \<longrightarrow> c \<in> set (wn_flushed w) \<and> (\<exists>t. f = batch_file env t c))"

lemma wg_flush_kept:
  assumes "\<And>b. length (we_sha env b) = 32" "inj_on (hash_text (we_sha env)) (insert (batch_text env (ws_receipts st)) T)"
    and "\<And>f c. ws_batches st f = Some c \<Longrightarrow> c \<in> T \<and> (\<exists>t. f = batch_file env t c)" "receipt_kept env st r"
  shows "receipt_kept env (snd (wg_flush env now st)) r"
proof (cases "ws_receipts st = []")
  case True
  with assms(4) show ?thesis by (simp add: wg_flush_def)
next
  case False
  let ?b = "batch_text env (ws_receipts st)"
  have new: "ws_batches (snd (wg_flush env now st)) = (ws_batches st)(batch_file env now ?b \<mapsto> ?b)"
    using False by (simp add: wg_flush_def Let_def)
  from assms(4) consider "r \<in> set (ws_receipts st)" | f x y where "ws_batches st f = Some (x @ receipt_line env r @ y)"
    by (auto simp: receipt_kept_def)
  then show ?thesis
  proof cases
    case 1
    then obtain x y where "?b = x @ receipt_line env r @ y" by (rule batch_text_line)
    then show ?thesis unfolding receipt_kept_def new by (metis fun_upd_same)
  next
    case 2
    show ?thesis
    proof (cases "f = batch_file env now ?b")
      case False
      with 2 show ?thesis unfolding receipt_kept_def new by (metis fun_upd_other)
    next
      case True
      from assms(3) [OF 2] obtain t where c: "x @ receipt_line env r @ y \<in> T" "f = batch_file env t (x @ receipt_line env r @ y)" by blast
      have "hash_text (we_sha env) ?b = hash_text (we_sha env) (x @ receipt_line env r @ y)"
        using batch_file_hash [OF assms(1)] True c(2) by blast
      with assms(2) c(1) have "?b = x @ receipt_line env r @ y" unfolding inj_on_def by blast
      then show ?thesis unfolding receipt_kept_def new by (metis fun_upd_same)
    qed
  qed
qed

lemma wg_step_inv:
  assumes "\<And>b. length (we_sha env b) = 32" "inj_on (hash_text (we_sha env)) (set (wn_flushed (wg_step env q w)))" "wg_inv env w"
  shows "wg_inv env (wg_step env q w)"
proof (cases q)
  case (AskName now name ttl)
  obtain r st' where R: "wg_resolve env now name ttl (wn_state w) = (r, st')" by (meson surj_pair)
  then show ?thesis
  proof (cases rule: wg_resolve_cases)
    case issued
    with assms(3) R AskName show ?thesis by (auto simp: wg_inv_def receipt_kept_def)
  next
    case silent
    from silent(2) have "(case r of Inr (WitnessFound _ _ _ rec) \<Rightarrow> [rec] | _ \<Rightarrow> []) = []" by (auto split: sum.splits WitnessAnswer.splits)
    with silent(1) assms(3) R AskName show ?thesis by (simp add: wg_inv_def)
  qed
next
  case (Flush now)
  show ?thesis
  proof (cases "ws_receipts (wn_state w) = []")
    case True
    with Flush assms(3) show ?thesis by (simp add: wg_inv_def wg_flush_def)
  next
    case False
    let ?b = "batch_text env (ws_receipts (wn_state w))"
    have "inj_on (hash_text (we_sha env)) (insert ?b (set (wn_flushed w)))" using assms(2) Flush False by simp
    note kept = wg_flush_kept [OF assms(1) this, where now = now]
    have "receipt_kept env (snd (wg_flush env now (wn_state w))) r" if "r \<in> set (wn_issued w)" for r
      using that assms(3) by (intro kept) (auto simp: wg_inv_def)
    moreover have "ws_batches (snd (wg_flush env now (wn_state w))) = (ws_batches (wn_state w))(batch_file env now ?b \<mapsto> ?b)"
      using False by (simp add: wg_flush_def Let_def)
    ultimately show ?thesis using Flush False assms(3) by (auto simp: wg_inv_def)
  qed
qed

text \<open>C37: no receipt is lost and none is made up: after any queries and flushes, every receipt that was answered signs the hash of
  the destination its name has in the table, with a lifetime of a second to a day (or none that is a number), and is still in the
  spool or in a batch file, unless two of the texts that were flushed have one hash.\<close>

theorem witness_receipts_kept:
  assumes "\<forall>b. length (we_sha env b) = 32" "inj_on (hash_text (we_sha env)) (set (wn_flushed (wg_run env reqs)))"
    and "r \<in> set (wn_issued (wg_run env reqs))"
  shows "receipt_exact env r \<and> receipt_kept env (wn_state (wg_run env reqs)) r"
proof -
  have "wg_inv env (wg_run env reqs)"
    using assms(2)
  proof (induction reqs rule: rev_induct)
    case Nil
    then show ?case by (simp add: wg_run_def wg_inv_def)
  next
    case (snoc q reqs)
    have run: "wg_run env (reqs @ [q]) = wg_step env q (wg_run env reqs)" by (simp add: wg_run_def)
    have "set (wn_flushed (wg_run env reqs)) \<subseteq> set (wn_flushed (wg_step env q (wg_run env reqs)))"
      by (cases q) (auto simp: split_def Let_def)
    then have "wg_inv env (wg_run env reqs)" using snoc inj_on_subset unfolding run by blast
    with assms(1) snoc.prems show ?case unfolding run by (intro wg_step_inv) auto
  qed
  with assms(3) show ?thesis by (simp add: wg_inv_def)
qed

definition toy_witness :: witness_env where
  "toy_witness = \<lparr>we_sha = (\<lambda>b. take 32 (b @ replicate 32 0)), we_sign = (\<lambda>b. b), we_base64 = (\<lambda>_. []), we_numstr = (\<lambda>_. ''1''),
     we_number = (\<lambda>_. NaN), we_pubkey = ''k'', we_routes = Some (Inr [''abc.dns'' \<mapsto> ''x'']), we_ipfsApi = False\<rparr>"

theorem witness_receipts_kept_witness:
  "\<exists>r. r \<in> set (wn_issued (wg_run toy_witness [AskName 0 ''abc.dns'' None, Flush 5])) \<and>
     receipt_exact toy_witness r \<and> receipt_kept toy_witness (wn_state (wg_run toy_witness [AskName 0 ''abc.dns'' None, Flush 5])) r"
proof -
  have n: "normalizeAndValidateName ''abc.dns'' = Inr ''abc.dns''" by code_simp
  have "resolveDest toy_witness ''abc.dns'' = Inr (Some ''x'')" by (simp add: resolveDest_def toy_witness_def)
  then obtain r st where r: "wg_resolve toy_witness 0 ''abc.dns'' None \<lparr>ws_receipts = [], ws_batches = Map.empty\<rparr> =
      (Inr (WitnessFound ''abc.dns'' (trim ''x'') (Fin 300) r), st)"
    by (simp add: wg_resolve_def emitReceipt_def n query_ttl_def Let_def)
  let ?w = "wg_run toy_witness [AskName 0 ''abc.dns'' None, Flush 5]"
  have "r \<in> set (wn_issued ?w)" by (simp add: wg_run_def r)
  moreover have "inj_on (hash_text (we_sha toy_witness)) (set (wn_flushed ?w))" by (simp add: wg_run_def r)
  moreover have "\<forall>b. length (we_sha toy_witness b) = 32" by (simp add: toy_witness_def min_def)
  ultimately show ?thesis using witness_receipts_kept [of toy_witness "[AskName 0 ''abc.dns'' None, Flush 5]" r] by blast
qed

end
