(* ===== verification/Spec2Isabelle.thy ===== *)
theory Spec2Isabelle
  imports Prelude Stable_Sort Caps Receipts CoordCredits Js_Strings Bytes Unicode Codec Doc_Head Wire Crypto RouteSet Anchor GatewayRoutes Json Merkle GatewayRegistry Names Account Ledger Policy AttackMode Payments MinerWitness TollBooth Comments Challenges ResolveHash CoordState CoordHandlers CoordNode CoordAuth CoordRun CoordCaps CoordSupply Recursive Upstreams RouteAnswers RecursiveCache Hosting Pkdns Adapters AdapterRegistry Registrar Notice DomainStatus DomainServer DomainApi DomainProps RenewalProps CacheLog CacheRollup GatewayResolve ResolveProps Radix IpAddress GatewayUpsert GatewayDns TrafficOracle TollboothService WitnessGateway
begin

text \<open>
  This library models the core of a decentralized name service written in TypeScript: the binary protocol and its
  signed documents (directory core), the gateway that resolves names and keeps domains alive (gateway), the
  coordinator that pays nodes for work with credits (coordinator), and the services around them (packages, services).
  Every definition follows the function of the same name in the source; a name that is taken in Isabelle has a prefix
  (\<open>gw\_\<close>, \<open>cl\_\<close>, \<open>server\_\<close>).

  How the program hangs together. A name has a route set, signed by its owner and anchored by a hash; both travel in
  packets. The gateway takes a name, chooses an adapter (the Solana registry, recursive DNS, IPFS, ENS, SNS) and
  answers with a destination and the hash of it, from its caches where it can; registry snapshots are committed to by
  a Merkle root that is anchored. What it has observed it signs and posts to the rollup service, which hashes the
  entries of a domain into a root for the chain. Domains that are about to expire are held and renewed through a
  registrar, paid from a ledger of credits. The coordinator credits nodes for receipts, takes deposits for
  comments and keeps daily caps; the toll booth and the miner witness accept signed routes and receipts, more
  strictly while the attack mode says so.

  Foundations.
  \<^item> Prelude: JavaScript numbers as \<open>jsnum\<close> (a rational, \<open>NaN\<close> or an infinity: arithmetic is exact, rounding
    is not modelled), results \<open>'a res\<close> whose left side is an exception, \<open>rbind\<close> for calls that may throw, and the
    collection \<open>result\_simps\<close>. Strings are lists of characters, one per code unit up to 255.
  \<^item> Js\_Strings, Json, Stable\_Sort, Unicode, Bytes: string functions, JSON values with \<open>JSON.stringify\<close>,
    \<open>sort\<close> with a comparator, TextEncoder and TextDecoder, byte arrays (core/src/bytes.ts).
  \<^item> Radix, IpAddress: numbers as lists of digits and their conversion from one base to another, shared by the
    base-58 encoder and decoder; \<open>isIP\<close> of node:net.
  \<^item> Codec (locales \<open>codec\<close>, \<open>strict\_codec\<close>), Doc\_Head, Account (\<open>account\_store\<close>), Caps (\<open>daily\_cap\<close>), Challenges
    (\<open>challenge\_store\<close>): the interfaces several components implement, each interpreted on the code's own functions in
    the theory of the component.

  Core.
  \<^item> Wire, RouteSet, Anchor, GatewayRoutes, Crypto: the packet and the signed documents (wire.ts, wire\_safe.ts,
    routeset.ts, anchor.ts, gateway\_routes.ts). The lemmas show that decoders are exact inverses of encoders, that strict
    verification accepts the one canonical encoding only, and that size limits hold.
  \<^item> Merkle, GatewayRegistry: the registry tree and the gateway's copy with its cache. Proofs are complete and sound up
    to a collision that the statement exhibits.
  \<^item> Names, ResolveHash, Receipts: normalization, record data, result hashes, receipts.
  \<^item> Ledger, Policy, Registrar, Notice: credits, continuity phases, registrars (locales \<open>registrar\<close>,
    \<open>registrar\_store\<close>), notice tokens; core and gateway carry copies of the same code.

  Gateway (gateway/src).
  \<^item> Recursive, Upstreams, RecursiveCache: adapters/recursive.ts. Answers are read by following at most 10 CNAME steps, the
    bound of the code; the worker pool is a step relation of which every run has at most \<open>2 * n + k\<close> steps for \<open>n\<close> servers
    and \<open>k\<close> workers, so it ends; a request is cut at its awaits into steps over the cache and the queries in flight.
  \<^item> RouteAnswers (locale \<open>route\_adapter\<close>), Pkdns, Hosting, Adapters, AdapterRegistry (locale \<open>adapter\_registry\<close>): the
    adapters and the choice between them. A variable-length integer of a content hash is read up to 10 bytes, a
    bound above any that 32-bit shifts leave meaningful.
  \<^item> DomainStatus, DomainServer, DomainApi: the routes of server.ts for domains, registrar, credits, notices and
    pages, as functions on \<open>GatewayState\<close>; DomainProps and RenewalProps hold what every request keeps and what a renewal does.
  \<^item> GatewayResolve: the route /resolve, vouchers, anchors, the attack mode of the gateway and the write gate, on
    \<open>ResolverState\<close>; ResolveProps runs them in any interleaving, as a step relation with a log.
  \<^item> GatewayDns: the routes /v1/route and /v1/resolve, DNS over HTTPS and the status page, on \<open>DnsState\<close> (counters, health of
    the servers, spool of the log): a message answers the question it was asked, and what is logged is what was answered.
  \<^item> GatewayUpsert: the cache of records of a mint, its questions to the chain and the gateway's own base-58 decoder, which is shown to
    invert the encoder of Hosting.
  \<^item> CacheLog: the signed observations (cache\_log.ts).

  Coordinator and services.
  \<^item> CoordCredits, Comments, CoordState, CoordHandlers, CoordNode, CoordAuth: credits and receipts, comment tickets, the
    state and the handlers of coordinator/src/server.ts; CoordRun, CoordCaps (locale \<open>windowed\<close>) and CoordSupply
    show what holds over whole runs.
  \<^item> AttackMode, TollBooth, MinerWitness, Payments, CacheRollup: packages/attack-mode, services/toll-booth,
    services/miner-witness, packages/payments, services/cache-rollup.
  \<^item> TollboothService: services/tollbooth (wallets that prove themselves by a challenge, passports, routes), a third
    implementation of \<open>challenge\_store\<close>; a run is a list of requests, each with the chain as it sees it.
  \<^item> TrafficOracle: services/traffic-oracle; requests, jobs and the collected signals are the steps of \<open>oracle\_step\<close>, in any order.
  \<^item> WitnessGateway: services/witness-gateway, its receipts and the batches they are flushed to, over any run.

  What is a parameter. Hash functions, Ed25519, base64, \<open>localeCompare\<close>, \<open>punycode\<close>, the parsing of JSON and of URLs,
  HTTP replies, the Solana and Ethereum libraries, clocks and random values are fields of the environments
  (records named \<open>\_env\<close>) or arguments; \<open>ed25519\_laws\<close>, \<open>base64\_laws\<close>, \<open>locale\_laws\<close> and the like state what is relied on,
  and small concrete environments (\<open>toy\_\<close>, \<open>example\_\<close>) show that they can hold. Files are explicit state: what is
  written is what is read back.

  Not modelled. The wiring of express, reading environment variables and log output; the pages' style sheets;
  fetching of sites and reading the signals of their HTML; the payment and name registration routes of the gateway, which pass a request on;
  command-line tools; the scripts that build Solana transactions and the on-chain programs (Rust); the hosting
  control plane, a client of Cloudflare's interfaces; clients generated from interface files; build output
  (resolver/dist). They are glue around interfaces outside the repository, with no logic of their own to state.
\<close>

end
